(* ===== verification/Base.thy ===== *)
theory Base
  imports Main "HOL-Library.Word"
begin

text \<open>
  The prelude of the development: the machine integers of the Rust sources, results of
  fallible code, Unicode text with the string operations the sources call, number
  formatting, little-endian bytes, and the generic lemmas the components share.
\<close>

unbundle bit_operations_syntax

section \<open>Machine integers\<close>

type_synonym u8 = "8 word"
type_synonym u16 = "16 word"
type_synonym u32 = "32 word"
type_synonym u64 = "64 word"

text \<open>
  An \<open>i32\<close> (every NTSTATUS is one) is kept as its 32 bits, so a cast between \<open>u32\<close> and
  \<open>i32\<close> is the identity; \<open>is_negative\<close> reads the sign.
\<close>

type_synonym i32 = "32 word"

definition is_negative :: "i32 \<Rightarrow> bool" where
  "is_negative x = (sint x < 0)"

lemma is_negative_iff_bit: "is_negative x = bit x 31"
  using bit_last_iff [of x] by (simp add: is_negative_def)

lemma odd_div_iff: "n < 2 * m \<Longrightarrow> odd (n div m) \<longleftrightarrow> m \<le> (n :: nat)"
proof (cases "m \<le> n")
  case True
  assume "n < 2 * m"
  with True have "n div m = 1"
    by (auto intro: div_nat_eqI)
  with True show ?thesis by simp
qed simp

lemma is_negative_unat: "is_negative x \<longleftrightarrow> 2 ^ 31 \<le> unat x"
proof -
  have less: "unat x < 2 * 2 ^ 31"
    using unsigned_less [of x, where 'a = nat] by simp
  have "is_negative x \<longleftrightarrow> bit (unat x) 31"
    by (simp add: is_negative_iff_bit bit_unsigned_iff)
  then show ?thesis
    unfolding bit_iff_odd using odd_div_iff [OF less] by blast
qed

lemma is_negative_mask: "is_negative x \<longleftrightarrow> x AND 0x80000000 \<noteq> 0"
proof -
  have "x AND 0x80000000 = x AND push_bit 31 1"
    by simp
  also have "\<dots> = (if bit x 31 then push_bit 31 1 else 0)"
  proof (rule bit_eqI)
    fix n assume "possible_bit TYPE(32 word) n"
    then have "31 \<le> n \<longleftrightarrow> n = 31" by (auto simp: possible_bit_def)
    then show "bit (x AND push_bit 31 1) n \<longleftrightarrow> bit (if bit x 31 then push_bit 31 1 else 0 :: u32) n"
      by (auto simp: bit_simps simp del: push_bit_of_1 push_bit_numeral)
  qed
  finally show ?thesis
    by (simp add: is_negative_iff_bit)
qed

lemma not_negative_zero [simp]: "\<not> is_negative 0"
  by (simp add: is_negative_def)

section \<open>Results of fallible code\<close>

text \<open>
  \<open>Result<T, E>\<close> is the sum type with the error on the left; \<open>try_res\<close> is the \<open>?\<close>
  operator.
\<close>

abbreviation Err :: "'e \<Rightarrow> 'e + 'a" where "Err \<equiv> Inl"
abbreviation Ok :: "'a \<Rightarrow> 'e + 'a" where "Ok \<equiv> Inr"

definition is_ok :: "'e + 'a \<Rightarrow> bool" where
  "is_ok r = (case r of Err _ \<Rightarrow> False | Ok _ \<Rightarrow> True)"

definition try_res :: "'e + 'a \<Rightarrow> ('a \<Rightarrow> 'e + 'b) \<Rightarrow> 'e + 'b" where
  "try_res r f = (case r of Err e \<Rightarrow> Err e | Ok x \<Rightarrow> f x)"

definition ok_or :: "'a option \<Rightarrow> 'e \<Rightarrow> 'e + 'a" where
  "ok_or x e = (case x of None \<Rightarrow> Err e | Some y \<Rightarrow> Ok y)"

lemma is_ok_simps [simp]: "is_ok (Ok x)" "\<not> is_ok (Err e)"
  by (simp_all add: is_ok_def)

lemma try_res_simps [simp]: "try_res (Ok x) f = f x" "try_res (Err e) f = Err e"
  by (simp_all add: try_res_def)

lemma ok_or_simps [simp]: "ok_or (Some x) e = Ok x" "ok_or None e = Err e"
  by (simp_all add: ok_or_def)

lemma try_res_Ok_iff: "try_res r f = Ok y \<longleftrightarrow> (\<exists>x. r = Ok x \<and> f x = Ok y)"
  by (cases r) auto

lemma ok_or_Ok_iff: "ok_or x e = Ok y \<longleftrightarrow> x = Some y"
  by (cases x) auto

section \<open>Unicode text\<close>

text \<open>
  A Rust \<open>str\<close> is the list of its Unicode scalar values; \<open>lit\<close> reads an ASCII literal.
\<close>

type_synonym ustring = "nat list"

definition lit :: "string \<Rightarrow> ustring" where
  "lit s = map of_char s"

lemma lit_Nil [simp]: "lit [] = []"
  by (simp add: lit_def)

lemma lit_append: "lit (s @ t) = lit s @ lit t"
  by (simp add: lit_def)

lemma lit_inj [simp]: "lit s = lit t \<longleftrightarrow> s = t"
  by (simp add: lit_def inj_on_def)

text \<open>The code points with the Unicode property \<open>White_Space\<close>, which \<open>str::trim\<close> removes.\<close>

definition is_whitespace :: "nat \<Rightarrow> bool" where
  "is_whitespace c \<longleftrightarrow> (9 \<le> c \<and> c \<le> 13) \<or> c = 0x20 \<or> c = 0x85 \<or> c = 0xA0 \<or> c = 0x1680
     \<or> (0x2000 \<le> c \<and> c \<le> 0x200A) \<or> c = 0x2028 \<or> c = 0x2029 \<or> c = 0x202F \<or> c = 0x205F
     \<or> c = 0x3000"

text \<open>\<open>char::is_ascii_whitespace\<close> excludes the vertical tab (0x0B).\<close>

definition is_ascii_whitespace :: "nat \<Rightarrow> bool" where
  "is_ascii_whitespace c \<longleftrightarrow> c = 9 \<or> c = 10 \<or> c = 12 \<or> c = 13 \<or> c = 32"

definition is_ascii_digit :: "nat \<Rightarrow> bool" where
  "is_ascii_digit c \<longleftrightarrow> 48 \<le> c \<and> c \<le> 57"

definition is_ascii_uppercase :: "nat \<Rightarrow> bool" where
  "is_ascii_uppercase c \<longleftrightarrow> 65 \<le> c \<and> c \<le> 90"

definition is_ascii_lowercase :: "nat \<Rightarrow> bool" where
  "is_ascii_lowercase c \<longleftrightarrow> 97 \<le> c \<and> c \<le> 122"

definition is_ascii_alphabetic :: "nat \<Rightarrow> bool" where
  "is_ascii_alphabetic c \<longleftrightarrow> is_ascii_uppercase c \<or> is_ascii_lowercase c"

definition is_ascii_hexdigit :: "nat \<Rightarrow> bool" where
  "is_ascii_hexdigit c \<longleftrightarrow> is_ascii_digit c \<or> (65 \<le> c \<and> c \<le> 70) \<or> (97 \<le> c \<and> c \<le> 102)"

definition to_ascii_uppercase :: "nat \<Rightarrow> nat" where
  "to_ascii_uppercase c = (if is_ascii_lowercase c then c - 32 else c)"

definition to_ascii_lowercase :: "nat \<Rightarrow> nat" where
  "to_ascii_lowercase c = (if is_ascii_uppercase c then c + 32 else c)"

definition str_uppercase :: "ustring \<Rightarrow> ustring" where
  "str_uppercase = map to_ascii_uppercase"

definition str_lowercase :: "ustring \<Rightarrow> ustring" where
  "str_lowercase = map to_ascii_lowercase"

definition eq_ignore_ascii_case :: "ustring \<Rightarrow> ustring \<Rightarrow> bool" where
  "eq_ignore_ascii_case s t \<longleftrightarrow> str_lowercase s = str_lowercase t"

definition trim_end_by :: "(nat \<Rightarrow> bool) \<Rightarrow> ustring \<Rightarrow> ustring" where
  "trim_end_by p s = rev (dropWhile p (rev s))"

definition trim_by :: "(nat \<Rightarrow> bool) \<Rightarrow> ustring \<Rightarrow> ustring" where
  "trim_by p s = trim_end_by p (dropWhile p s)"

definition str_trim :: "ustring \<Rightarrow> ustring" where
  "str_trim = trim_by is_whitespace"

text \<open>\<open>str::split_once\<close> on a character: the parts around its first occurrence.\<close>

fun split_once :: "nat \<Rightarrow> ustring \<Rightarrow> (ustring \<times> ustring) option" where
  "split_once c [] = None"
| "split_once c (x # xs) =
     (if x = c then Some ([], xs) else map_option (apfst (Cons x)) (split_once c xs))"

named_theorems ascii_defs \<open>the ASCII character classes and case mappings\<close>

lemmas [ascii_defs] = is_ascii_digit_def is_ascii_uppercase_def is_ascii_lowercase_def
  is_ascii_alphabetic_def is_ascii_hexdigit_def to_ascii_uppercase_def to_ascii_lowercase_def

lemma to_ascii_uppercase_idem [simp]:
  "to_ascii_uppercase (to_ascii_uppercase c) = to_ascii_uppercase c"
  by (auto simp: ascii_defs)

lemma to_ascii_lowercase_idem [simp]:
  "to_ascii_lowercase (to_ascii_lowercase c) = to_ascii_lowercase c"
  by (auto simp: ascii_defs)

lemma to_ascii_upper_of_lower [simp]:
  "to_ascii_uppercase (to_ascii_lowercase c) = to_ascii_uppercase c"
  by (cases "is_ascii_uppercase c") (simp_all add: ascii_defs)

lemma str_uppercase_idem [simp]: "str_uppercase (str_uppercase s) = str_uppercase s"
  by (simp add: str_uppercase_def)

lemma str_lowercase_idem [simp]: "str_lowercase (str_lowercase s) = str_lowercase s"
  by (simp add: str_lowercase_def)

lemma length_str_case [simp]:
  "length (str_uppercase s) = length s" "length (str_lowercase s) = length s"
  by (simp_all add: str_uppercase_def str_lowercase_def)

lemma split_once_Some: "split_once c s = Some (a, b) \<longleftrightarrow> s = a @ c # b \<and> c \<notin> set a"
proof (induction s arbitrary: a)
  case Nil
  then show ?case by simp
next
  case (Cons x xs)
  then show ?case
    by (cases a) (auto simp: apfst_def map_prod_def)
qed

lemma split_once_None: "split_once c s = None \<longleftrightarrow> c \<notin> set s"
  by (induction s) auto

lemma trim_end_by_id: "s = [] \<or> \<not> p (last s) \<Longrightarrow> trim_end_by p s = s"
  by (cases s rule: rev_cases) (auto simp: trim_end_by_def)

lemma trim_by_id: "(s = [] \<or> \<not> p (hd s) \<and> \<not> p (last s)) \<Longrightarrow> trim_by p s = s"
  by (cases s) (auto simp: trim_by_def trim_end_by_id)

lemma trim_by_all_not: "\<forall>c \<in> set s. \<not> p c \<Longrightarrow> trim_by p s = s"
  by (rule trim_by_id) (cases s, auto)

section \<open>Number formatting\<close>

text \<open>\<open>Display\<close> of an unsigned integer, and the upper-case hexadecimal \<open>{:0nX}\<close>.\<close>

fun dec_digits :: "nat \<Rightarrow> ustring" where
  "dec_digits n = (if n < 10 then [48 + n] else dec_digits (n div 10) @ [48 + n mod 10])"

declare dec_digits.simps [simp del]

definition hex_digit :: "nat \<Rightarrow> nat" where
  "hex_digit d = (if d < 10 then 48 + d else 55 + d)"

fun hex_fixed :: "nat \<Rightarrow> nat \<Rightarrow> ustring" where
  "hex_fixed 0 n = []"
| "hex_fixed (Suc k) n = hex_fixed k (n div 16) @ [hex_digit (n mod 16)]"

text \<open>The value of a digit string, as \<open>str::parse\<close> reads it before its range check.\<close>

definition dec_value :: "ustring \<Rightarrow> nat" where
  "dec_value s = foldl (\<lambda>n c. 10 * n + (c - 48)) 0 s"

lemma dec_value_snoc [simp]: "dec_value (s @ [c]) = 10 * dec_value s + (c - 48)"
  by (simp add: dec_value_def)

lemma dec_value_Nil [simp]: "dec_value [] = 0"
  by (simp add: dec_value_def)

lemma dec_digits_nonempty [simp]: "dec_digits n \<noteq> []"
  by (subst dec_digits.simps) simp

lemma dec_digits_are_digits: "c \<in> set (dec_digits n) \<Longrightarrow> is_ascii_digit c"
proof (induction n rule: dec_digits.induct)
  case (1 n)
  then show ?case
    by (subst (asm) dec_digits.simps) (auto simp: is_ascii_digit_def split: if_splits)
qed

lemma dec_value_digits [simp]: "dec_value (dec_digits n) = n"
proof (induction n rule: dec_digits.induct)
  case (1 n)
  show ?case
  proof (cases "n < 10")
    case True
    then show ?thesis
      by (subst dec_digits.simps) (simp add: dec_value_def)
  next
    case False
    with 1 show ?thesis
      by (subst dec_digits.simps) simp
  qed
qed

lemma dec_digits_inj [simp]: "dec_digits m = dec_digits n \<longleftrightarrow> m = n"
  by (metis dec_value_digits)

lemma length_hex_fixed [simp]: "length (hex_fixed k n) = k"
  by (induction k arbitrary: n) auto

lemma hex_digit_inj: "a < 16 \<Longrightarrow> b < 16 \<Longrightarrow> hex_digit a = hex_digit b \<longleftrightarrow> a = b"
  by (auto simp: hex_digit_def)

lemma hex_fixed_inj:
  "m < 16 ^ k \<Longrightarrow> n < 16 ^ k \<Longrightarrow> hex_fixed k m = hex_fixed k n \<longleftrightarrow> m = n"
proof (induction k arbitrary: m n)
  case 0
  then show ?case by simp
next
  case (Suc k)
  have "m div 16 < 16 ^ k" "n div 16 < 16 ^ k"
    using Suc.prems by (auto simp: less_mult_imp_div_less mult.commute)
  then have "hex_fixed (Suc k) m = hex_fixed (Suc k) n \<longleftrightarrow> m div 16 = n div 16 \<and> m mod 16 = n mod 16"
    using Suc.IH by (auto simp: hex_digit_inj)
  also have "\<dots> \<longleftrightarrow> m = n"
    by (metis div_mult_mod_eq)
  finally show ?case .
qed

section \<open>Little-endian bytes\<close>

fun le_bytes :: "nat \<Rightarrow> nat \<Rightarrow> u8 list" where
  "le_bytes 0 n = []"
| "le_bytes (Suc k) n = word_of_nat (n mod 256) # le_bytes k (n div 256)"

fun le_value :: "u8 list \<Rightarrow> nat" where
  "le_value [] = 0"
| "le_value (b # bs) = unat b + 256 * le_value bs"

lemma length_le_bytes [simp]: "length (le_bytes k n) = k"
  by (induction k arbitrary: n) auto

lemma unat_u8_less: "unat (b :: u8) < 256"
  using unsigned_less [of b, where 'a = nat] by simp

lemma le_value_bytes: "n < 256 ^ k \<Longrightarrow> le_value (le_bytes k n) = n"
proof (induction k arbitrary: n)
  case 0
  then show ?case by simp
next
  case (Suc k)
  have "n div 256 < 256 ^ k"
    using Suc.prems by (auto simp: less_mult_imp_div_less mult.commute)
  moreover have "unat (word_of_nat (n mod 256) :: u8) = n mod 256"
    by (simp add: unat_of_nat)
  ultimately show ?case
    by (simp add: Suc.IH)
qed

lemma le_bytes_value: "le_bytes (length bs) (le_value bs) = bs"
proof (induction bs)
  case Nil
  then show ?case by simp
next
  case (Cons b bs)
  have "(unat b + 256 * le_value bs) mod 256 = unat b"
    using unat_u8_less [of b] by simp
  moreover have "(unat b + 256 * le_value bs) div 256 = le_value bs"
    using unat_u8_less [of b] by simp
  ultimately show ?case
    using Cons.IH by simp
qed

lemma le_value_less: "le_value bs < 256 ^ length bs"
proof (induction bs)
  case Nil
  then show ?case by simp
next
  case (Cons b bs)
  then have "le_value bs + 1 \<le> 256 ^ length bs" by simp
  then have "256 * le_value bs + 256 \<le> 256 * 256 ^ length bs"
    by (metis add_mult_distrib2 mult.right_neutral mult_le_mono2)
  then show ?case
    using unat_u8_less [of b] by simp
qed

end
