(* ===== verification/Errors.thy ===== *)
theory Errors
  imports Base
begin

text \<open>
  The errors of the CLI. \<open>anyhow::Error\<close> is a chain: a root cause under any number of
  contexts. The typed values the code looks up again with \<open>downcast_ref\<close> are constructors:
  \<open>Driver_Rejection\<close>, \<open>Unresolved_Outcome\<close> and \<open>Recovery_Failure\<close> of recovery.rs,
  \<open>Package_Not_Embedded\<close> of driver.rs, \<open>Volume_Lock_Failure\<close> of volume/mod.rs and
  \<open>std::io::Error\<close>. Everything else is a message.
\<close>

section \<open>The error chain\<close>

text \<open>recovery.rs: the identity of one reserved mutation.\<close>

record operation_handle =
  oh_instance :: u64
  oh_id :: u64

text \<open>
  \<open>io::Error\<close>: an operating-system code, or the \<open>InvalidInput\<close> that \<open>wide\<close> builds
  (it has no \<open>raw_os_error\<close>).
\<close>

datatype io_error = Os_Error u32 | Invalid_Input

datatype error =
    Msg ustring
  | Io io_error
  | Driver_Rejection i32
  | Package_Not_Embedded
  | Context error_context error
and error_context =
    Ctx ustring
  | Unresolved_Outcome operation_handle
  | Recovery_Failure ustring error
  | Volume_Lock_Failure

type_synonym 'a result = "error + 'a"

definition raw_os_error :: "io_error \<Rightarrow> u32 option" where
  "raw_os_error e = (case e of Os_Error c \<Rightarrow> Some c | Invalid_Input \<Rightarrow> None)"

section \<open>Looking up a typed cause\<close>

text \<open>
  \<open>downcast_ref\<close> searches from the outermost context inwards, so the outermost value of
  the type wins.
\<close>

fun downcast_io :: "error \<Rightarrow> io_error option" where
  "downcast_io (Io e) = Some e"
| "downcast_io (Context c e) = downcast_io e"
| "downcast_io _ = None"

fun downcast_rejection :: "error \<Rightarrow> i32 option" where
  "downcast_rejection (Driver_Rejection s) = Some s"
| "downcast_rejection (Context c e) = downcast_rejection e"
| "downcast_rejection _ = None"

fun downcast_unresolved :: "error \<Rightarrow> operation_handle option" where
  "downcast_unresolved (Context (Unresolved_Outcome h) e) = Some h"
| "downcast_unresolved (Context c e) = downcast_unresolved e"
| "downcast_unresolved _ = None"

fun downcast_recovery_failure :: "error \<Rightarrow> (ustring \<times> error) option" where
  "downcast_recovery_failure (Context (Recovery_Failure a c) e) = Some (a, c)"
| "downcast_recovery_failure (Context c e) = downcast_recovery_failure e"
| "downcast_recovery_failure _ = None"

fun has_lock_failure :: "error \<Rightarrow> bool" where
  "has_lock_failure (Context Volume_Lock_Failure e) = True"
| "has_lock_failure (Context c e) = has_lock_failure e"
| "has_lock_failure _ = False"

lemma downcast_recovery_failure_size:
  "downcast_recovery_failure e = Some (a, c) \<Longrightarrow> size c < size e"
  by (induction e rule: downcast_recovery_failure.induct) auto

section \<open>Combining a failure with the failure of its recovery\<close>

text \<open>recovery.rs, \<open>recovery_failed\<close>: the primary error stays the root of the chain.\<close>

definition recovery_failed :: "error \<Rightarrow> ustring \<Rightarrow> error \<Rightarrow> error" where
  "recovery_failed primary action recovery = Context (Recovery_Failure action recovery) primary"

text \<open>recovery.rs, \<open>is_unresolved\<close>.\<close>

function is_unresolved :: "error \<Rightarrow> bool" where
  "is_unresolved e \<longleftrightarrow> downcast_unresolved e \<noteq> None \<or>
     (case downcast_recovery_failure e of None \<Rightarrow> False | Some (a, c) \<Rightarrow> is_unresolved c)"
  by pat_completeness auto
termination
  by (relation "measure size") (auto dest: downcast_recovery_failure_size)

declare is_unresolved.simps [simp del]

text \<open>driver.rs, \<open>error_exit_code\<close>.\<close>

definition error_exit_code :: "error \<Rightarrow> u8" where
  "error_exit_code e = (if is_unresolved e then 3 else 1)"

lemma is_unresolved_context_text [simp]: "is_unresolved (Context (Ctx t) e) = is_unresolved e"
  by (simp add: is_unresolved.simps [of "Context (Ctx t) e"] is_unresolved.simps [of e])

lemma is_unresolved_context_lock [simp]:
  "is_unresolved (Context Volume_Lock_Failure e) = is_unresolved e"
  by (simp add: is_unresolved.simps [of "Context Volume_Lock_Failure e"] is_unresolved.simps [of e])

lemma is_unresolved_context_outcome [simp]: "is_unresolved (Context (Unresolved_Outcome h) e)"
  by (simp add: is_unresolved.simps)

lemma is_unresolved_recovery_failed [simp]:
  "is_unresolved (recovery_failed p a r) \<longleftrightarrow> downcast_unresolved p \<noteq> None \<or> is_unresolved r"
  by (simp add: recovery_failed_def is_unresolved.simps [of "Context (Recovery_Failure a r) p"])

lemma is_unresolved_leaf [simp]:
  "\<not> is_unresolved (Msg t)" "\<not> is_unresolved (Io i)" "\<not> is_unresolved (Driver_Rejection s)"
  "\<not> is_unresolved Package_Not_Embedded"
  by (simp_all add: is_unresolved.simps)

lemma downcast_unresolved_imp: "downcast_unresolved e = Some h \<Longrightarrow> is_unresolved e"
  by (simp add: is_unresolved.simps)

lemma resolved_downcast: "\<not> is_unresolved e \<Longrightarrow> downcast_unresolved e = None"
  by (cases "downcast_unresolved e") (auto dest: downcast_unresolved_imp)

lemma recovery_failed_downcasts [simp]:
  "downcast_io (recovery_failed p a r) = downcast_io p"
  "downcast_rejection (recovery_failed p a r) = downcast_rejection p"
  "downcast_unresolved (recovery_failed p a r) = downcast_unresolved p"
  "downcast_recovery_failure (recovery_failed p a r) = Some (a, r)"
  "has_lock_failure (recovery_failed p a r) = has_lock_failure p"
  by (simp_all add: recovery_failed_def)

end
