(* ===== verification/Effects.thy ===== *)
theory Effects
  imports Errors
begin

text \<open>
  Effectful code. An action of type \<open>('s, 'e, 'a) io\<close> runs from a state and returns a value,
  the trace of events it caused (calls to the operating system, with their results) and the
  new state; \<open>None\<close> is a loop that does not end. The operating system itself is a parameter:
  theorems about traces hold whatever it answers.

  \<open>wlp m Q s\<close> says that \<open>Q\<close> holds of the result, the trace and the final state of every run of
  \<open>m\<close> that returns; \<open>wp m Q s\<close> says moreover that \<open>m\<close> returns.
\<close>

section \<open>Actions\<close>

type_synonym ('s, 'e, 'a) io = "'s \<Rightarrow> ('a \<times> 'e list \<times> 's) option"

definition return_io :: "'a \<Rightarrow> ('s, 'e, 'a) io" where
  "return_io a = (\<lambda>s. Some (a, [], s))"

definition bind_io :: "('s, 'e, 'a) io \<Rightarrow> ('a \<Rightarrow> ('s, 'e, 'b) io) \<Rightarrow> ('s, 'e, 'b) io" where
  "bind_io m f = (\<lambda>s. case m s of None \<Rightarrow> None
     | Some (a, t, s') \<Rightarrow> (case f a s' of None \<Rightarrow> None | Some (b, t', s'') \<Rightarrow> Some (b, t @ t', s'')))"

text \<open>Sequencing of fallible actions: the \<open>?\<close> operator.\<close>

definition try_io ::
  "('s, 'e, 'x + 'a) io \<Rightarrow> ('a \<Rightarrow> ('s, 'e, 'x + 'b) io) \<Rightarrow> ('s, 'e, 'x + 'b) io" where
  "try_io m f = bind_io m (\<lambda>r. case r of Err e \<Rightarrow> return_io (Err e) | Ok a \<Rightarrow> f a)"

definition map_io :: "('a \<Rightarrow> 'b) \<Rightarrow> ('s, 'e, 'a) io \<Rightarrow> ('s, 'e, 'b) io" where
  "map_io g m = bind_io m (\<lambda>a. return_io (g a))"

definition fail_io :: "'x \<Rightarrow> ('s, 'e, 'x + 'a) io" where
  "fail_io e = return_io (Err e)"

definition ok_io :: "'a \<Rightarrow> ('s, 'e, 'x + 'a) io" where
  "ok_io a = return_io (Ok a)"

definition map_err :: "('x \<Rightarrow> 'y) \<Rightarrow> 'x + 'a \<Rightarrow> 'y + 'a" where
  "map_err g r = (case r of Err e \<Rightarrow> Err (g e) | Ok a \<Rightarrow> Ok a)"

text \<open>\<open>.context(...)\<close> on the result of an action.\<close>

definition context_io :: "error_context \<Rightarrow> ('s, 'e, 'a result) io \<Rightarrow> ('s, 'e, 'a result) io" where
  "context_io c m = map_io (map_err (Context c)) m"

text \<open>An early \<open>bail!\<close> when a check fails.\<close>

definition ensure_io :: "bool \<Rightarrow> 'x \<Rightarrow> ('s, 'e, 'x + unit) io" where
  "ensure_io b e = (if b then ok_io () else fail_io e)"

text \<open>A \<open>for\<close> loop over a list whose body may fail, and the fallible \<open>map\<close> into a vector.\<close>

fun for_io :: "('a \<Rightarrow> ('s, 'e, 'x + unit) io) \<Rightarrow> 'a list \<Rightarrow> ('s, 'e, 'x + unit) io" where
  "for_io f [] = ok_io ()"
| "for_io f (x # xs) = try_io (f x) (\<lambda>_. for_io f xs)"

fun collect_io :: "('a \<Rightarrow> ('s, 'e, 'x + 'b) io) \<Rightarrow> 'a list \<Rightarrow> ('s, 'e, 'x + 'b list) io" where
  "collect_io f [] = ok_io []"
| "collect_io f (x # xs) = try_io (f x) (\<lambda>y. try_io (collect_io f xs) (\<lambda>ys. ok_io (y # ys)))"

section \<open>Loops\<close>

text \<open>Loops are defined with \<^theory_text>\<open>partial_function\<close>, which needs the monotonicity of the combinators.\<close>

abbreviation mono_io :: "(('a \<Rightarrow> 'b option) \<Rightarrow> 'c option) \<Rightarrow> bool" where
  "mono_io \<equiv> monotone (fun_ord option_ord) option_ord"

lemma bind_io_mono [partial_function_mono]:
  fixes B :: "('p \<Rightarrow> 'q option) \<Rightarrow> ('s, 'e, 'a) io"
  assumes B: "\<And>s. mono_io (\<lambda>f. B f s)" and C: "\<And>a s. mono_io (\<lambda>f. C f a s)"
  shows "mono_io (\<lambda>f. bind_io (B f) (C f) s)"
proof (rule monotoneI)
  fix f g :: "'p \<Rightarrow> 'q option"
  assume fg: "fun_ord option_ord f g"
  have b: "option_ord (B f s) (B g s)"
    using B fg by (auto simp: monotone_def)
  have c: "option_ord (C f a s') (C g a s')" for a s'
    using C fg by (auto simp: monotone_def)
  show "option_ord (bind_io (B f) (C f) s) (bind_io (B g) (C g) s)"
  proof (cases "B f s")
    case None
    then show ?thesis by (simp add: bind_io_def flat_ord_def)
  next
    case (Some p)
    with b have "B g s = Some p" by (auto simp: flat_ord_def)
    with Some c [of "fst p" "snd (snd p)"] show ?thesis
      by (auto simp: bind_io_def flat_ord_def split: option.splits prod.splits)
  qed
qed

lemma if_io_mono [partial_function_mono]:
  "mono_io (\<lambda>f. B f s) \<Longrightarrow> mono_io (\<lambda>f. C f s) \<Longrightarrow> mono_io (\<lambda>f. (if b then B f else C f) s)"
  by (cases b) auto

lemma case_option_io_mono [partial_function_mono]:
  "mono_io (\<lambda>f. B f s) \<Longrightarrow> (\<And>x. mono_io (\<lambda>f. C f x s)) \<Longrightarrow>
    mono_io (\<lambda>f. (case b of None \<Rightarrow> B f | Some x \<Rightarrow> C f x) s)"
  by (cases b) auto

lemma case_sum_io_mono [partial_function_mono]:
  "(\<And>x. mono_io (\<lambda>f. B f x s)) \<Longrightarrow> (\<And>x. mono_io (\<lambda>f. C f x s)) \<Longrightarrow>
    mono_io (\<lambda>f. (case b of Inl x \<Rightarrow> B f x | Inr x \<Rightarrow> C f x) s)"
  by (cases b) auto

lemma try_io_mono [partial_function_mono]:
  assumes "\<And>s. mono_io (\<lambda>f. B f s)" and "\<And>a s. mono_io (\<lambda>f. C f a s)"
  shows "mono_io (\<lambda>f. try_io (B f) (C f) s)"
  unfolding try_io_def
  by (intro bind_io_mono case_sum_io_mono assms) (simp add: option.const_mono)

section \<open>Weakest preconditions\<close>

definition wlp :: "('s, 'e, 'a) io \<Rightarrow> ('a \<Rightarrow> 'e list \<Rightarrow> 's \<Rightarrow> bool) \<Rightarrow> 's \<Rightarrow> bool" where
  "wlp m Q s \<longleftrightarrow> (\<forall>a t s'. m s = Some (a, t, s') \<longrightarrow> Q a t s')"

definition wp :: "('s, 'e, 'a) io \<Rightarrow> ('a \<Rightarrow> 'e list \<Rightarrow> 's \<Rightarrow> bool) \<Rightarrow> 's \<Rightarrow> bool" where
  "wp m Q s \<longleftrightarrow> (\<exists>a t s'. m s = Some (a, t, s') \<and> Q a t s')"

named_theorems wlp_rules \<open>weakest liberal preconditions of the combinators\<close>
named_theorems wp_rules \<open>weakest preconditions of the combinators\<close>

lemma wlpI: "(\<And>a t s'. m s = Some (a, t, s') \<Longrightarrow> Q a t s') \<Longrightarrow> wlp m Q s"
  by (simp add: wlp_def)

lemma wlpD: "wlp m Q s \<Longrightarrow> m s = Some (a, t, s') \<Longrightarrow> Q a t s'"
  by (simp add: wlp_def)

lemma wlp_mono: "wlp m P s \<Longrightarrow> (\<And>a t s'. P a t s' \<Longrightarrow> Q a t s') \<Longrightarrow> wlp m Q s"
  by (auto simp: wlp_def)

lemma wlp_conj: "wlp m P s \<Longrightarrow> wlp m Q s \<Longrightarrow> wlp m (\<lambda>a t s'. P a t s' \<and> Q a t s') s"
  by (auto simp: wlp_def)

lemma wp_mono: "wp m P s \<Longrightarrow> (\<And>a t s'. P a t s' \<Longrightarrow> Q a t s') \<Longrightarrow> wp m Q s"
  by (auto simp: wp_def)

lemma wp_wlp: "wp m P s \<Longrightarrow> wlp m Q s \<Longrightarrow> wp m (\<lambda>a t s'. P a t s' \<and> Q a t s') s"
  by (auto simp: wp_def wlp_def)

lemma wlp_return [wlp_rules]: "wlp (return_io a) Q s \<longleftrightarrow> Q a [] s"
  by (simp add: wlp_def return_io_def)

lemma wp_return [wp_rules]: "wp (return_io a) Q s \<longleftrightarrow> Q a [] s"
  by (simp add: wp_def return_io_def)

lemma wlp_bind [wlp_rules]:
  "wlp (bind_io m f) Q s \<longleftrightarrow> wlp m (\<lambda>a t s'. wlp (f a) (\<lambda>b t' s''. Q b (t @ t') s'') s') s"
  by (auto simp: wlp_def bind_io_def split: option.splits)

lemma wp_bind [wp_rules]:
  "wp (bind_io m f) Q s \<longleftrightarrow> wp m (\<lambda>a t s'. wp (f a) (\<lambda>b t' s''. Q b (t @ t') s'') s') s"
  by (auto simp: wp_def bind_io_def split: option.splits prod.splits)

lemma wlp_if [wlp_rules]: "wlp (if b then m else n) Q s \<longleftrightarrow> (if b then wlp m Q s else wlp n Q s)"
  by simp

lemma wp_if [wp_rules]: "wp (if b then m else n) Q s \<longleftrightarrow> (if b then wp m Q s else wp n Q s)"
  by simp

lemma wlp_try:
  "wlp (try_io m f) Q s \<longleftrightarrow> wlp m (\<lambda>r t s'. case r of Err e \<Rightarrow> Q (Err e) t s'
     | Ok a \<Rightarrow> wlp (f a) (\<lambda>b t' s''. Q b (t @ t') s'') s') s"
proof -
  have "wlp (case r of Err e \<Rightarrow> return_io (Err e) | Ok a \<Rightarrow> f a) R s' \<longleftrightarrow>
      (case r of Err e \<Rightarrow> R (Err e) [] s' | Ok a \<Rightarrow> wlp (f a) R s')" for r R s'
    by (cases r) (simp_all add: wlp_rules)
  then show ?thesis
    by (simp add: try_io_def wlp_rules cong: sum.case_cong)
qed

lemma wp_try:
  "wp (try_io m f) Q s \<longleftrightarrow> wp m (\<lambda>r t s'. case r of Err e \<Rightarrow> Q (Err e) t s'
     | Ok a \<Rightarrow> wp (f a) (\<lambda>b t' s''. Q b (t @ t') s'') s') s"
proof -
  have "wp (case r of Err e \<Rightarrow> return_io (Err e) | Ok a \<Rightarrow> f a) R s' \<longleftrightarrow>
      (case r of Err e \<Rightarrow> R (Err e) [] s' | Ok a \<Rightarrow> wp (f a) R s')" for r R s'
    by (cases r) (simp_all add: wp_rules)
  then show ?thesis
    by (simp add: try_io_def wp_rules cong: sum.case_cong)
qed

lemma wlp_map [wlp_rules]: "wlp (map_io g m) Q s \<longleftrightarrow> wlp m (\<lambda>a t s'. Q (g a) t s') s"
  by (simp add: map_io_def wlp_rules)

lemma wp_map [wp_rules]: "wp (map_io g m) Q s \<longleftrightarrow> wp m (\<lambda>a t s'. Q (g a) t s') s"
  by (simp add: map_io_def wp_rules)

lemma wlp_ok_fail [wlp_rules]:
  "wlp (ok_io a) Q s \<longleftrightarrow> Q (Ok a) [] s" "wlp (fail_io e) Q s \<longleftrightarrow> Q (Err e) [] s"
  by (simp_all add: ok_io_def fail_io_def wlp_rules)

lemma wp_ok_fail [wp_rules]:
  "wp (ok_io a) Q s \<longleftrightarrow> Q (Ok a) [] s" "wp (fail_io e) Q s \<longleftrightarrow> Q (Err e) [] s"
  by (simp_all add: ok_io_def fail_io_def wp_rules)

lemma wlp_context [wlp_rules]:
  "wlp (context_io c m) Q s \<longleftrightarrow> wlp m (\<lambda>r t s'. Q (map_err (Context c) r) t s') s"
  by (simp add: context_io_def wlp_rules)

lemma wp_context [wp_rules]:
  "wp (context_io c m) Q s \<longleftrightarrow> wp m (\<lambda>r t s'. Q (map_err (Context c) r) t s') s"
  by (simp add: context_io_def wp_rules)

lemma wlp_ensure [wlp_rules]:
  "wlp (ensure_io b e) Q s \<longleftrightarrow> (if b then Q (Ok ()) [] s else Q (Err e) [] s)"
  by (simp add: ensure_io_def wlp_rules)

lemma map_err_simps [simp]: "map_err g (Ok a) = Ok a" "map_err g (Err e) = Err (g e)"
  by (simp_all add: map_err_def)

lemma map_err_Ok_iff [simp]: "map_err g r = Ok a \<longleftrightarrow> r = Ok a" "Ok a = map_err g r \<longleftrightarrow> r = Ok a"
  by (cases r; auto)+

text \<open>An introduction rule for \<open>?\<close>: one obligation for the failure, one for the continuation.\<close>

lemma wlp_tryI:
  assumes "wlp m P s"
    and "\<And>e t s'. P (Err e) t s' \<Longrightarrow> Q (Err e) t s'"
    and "\<And>a t s'. P (Ok a) t s' \<Longrightarrow> wlp (f a) (\<lambda>b t' s''. Q b (t @ t') s'') s'"
  shows "wlp (try_io m f) Q s"
  unfolding wlp_try by (rule wlp_mono [OF assms(1)]) (auto split: sum.splits intro: assms)

lemma wlp_bindI:
  assumes "wlp m P s"
    and "\<And>a t s'. P a t s' \<Longrightarrow> wlp (f a) (\<lambda>b t' s''. Q b (t @ t') s'') s'"
  shows "wlp (bind_io m f) Q s"
  unfolding wlp_bind by (rule wlp_mono [OF assms(1)]) (rule assms(2))

section \<open>A loop with a carried state\<close>

text \<open>
  The \<open>loop\<close> of the source: the body ends a round with the state carried into the next round
  or with a \<open>break\<close> (or \<open>return\<close>) value. \<open>None\<close> is a loop that never breaks.
\<close>

datatype ('c, 'r) flow = Continue 'c | Break 'r

lemma case_flow_io_mono [partial_function_mono]:
  "(\<And>x. mono_io (\<lambda>f. B f x s)) \<Longrightarrow> (\<And>x. mono_io (\<lambda>f. C f x s)) \<Longrightarrow>
    mono_io (\<lambda>f. (case b of Continue x \<Rightarrow> B f x | Break x \<Rightarrow> C f x) s)"
  by (cases b) auto

partial_function (option) loop_io ::
  "('c \<Rightarrow> ('s, 'e, ('c, 'r) flow) io) \<Rightarrow> 'c \<Rightarrow> ('s, 'e, 'r) io" where
  "loop_io body x s =
     bind_io (body x) (\<lambda>r. case r of Continue x' \<Rightarrow> loop_io body x' | Break b \<Rightarrow> return_io b) s"

text \<open>Partial correctness: an invariant over the carried state, the trace so far and the state.\<close>

lemma wlp_loop:
  assumes step: "\<And>x T s. I x T s \<Longrightarrow> wlp (body x)
      (\<lambda>r t s'. case r of Continue x' \<Rightarrow> I x' (T @ t) s' | Break b \<Rightarrow> Q b (T @ t) s') s"
    and init: "I x T s"
  shows "wlp (loop_io body x) (\<lambda>b t s'. Q b (T @ t) s') s"
proof (rule wlpI)
  fix b t s'
  assume ret: "loop_io body x s = Some (b, t, s')"
  define P where "P = (\<lambda>bdy x s (b, t, s'). bdy = body \<longrightarrow> (\<forall>T. I x T s \<longrightarrow> Q b (T @ t) s'))"
  have "(case ((body, x), s) of (x, xa) \<Rightarrow> (case x of (x, xa) \<Rightarrow> P x xa) xa) (b, t, s')"
  proof (rule loop_io.raw_induct [where P = P])
    fix lp bdy x s y
    assume IH: "\<And>x s b y. lp x s b = Some y \<Longrightarrow> P x s b y"
      and run: "bind_io (bdy x) (\<lambda>r. case r of Continue x' \<Rightarrow> lp bdy x'
        | Break b \<Rightarrow> return_io b) s = Some y"
    show "P bdy x s y"
      unfolding P_def
    proof (clarify)
      fix b t s' T
      assume y: "y = (b, t, s')" and inv: "I x T s" and body: "bdy = body"
      from run body obtain r t1 s1 where r: "body x s = Some (r, t1, s1)"
        by (auto simp: bind_io_def split: option.splits)
      note st = wlpD [OF step [OF inv] r]
      show "Q b (T @ t) s'"
      proof (cases r)
        case (Break b)
        with run r st y show ?thesis by (auto simp: bind_io_def return_io_def body)
      next
        case (Continue x')
        with run r y obtain t' where l: "lp body x' s1 = Some (b, t', s')" and t: "t = t1 @ t'"
          by (auto simp: bind_io_def body split: option.splits)
        from st Continue have "I x' (T @ t1) s1" by simp
        with IH [OF l] t show ?thesis by (auto simp: P_def)
      qed
    qed
  qed (simp add: ret)
  then show "Q b (T @ t) s'" using init by (simp add: P_def)
qed

text \<open>Total correctness: moreover a measure that every continued round decreases.\<close>

lemma wp_loop:
  fixes m :: "'c \<Rightarrow> 's \<Rightarrow> nat"
  assumes step: "\<And>x T s. I x T s \<Longrightarrow> wp (body x)
      (\<lambda>r t s'. case r of Continue x' \<Rightarrow> I x' (T @ t) s' \<and> m x' s' < m x s
         | Break b \<Rightarrow> Q b (T @ t) s') s"
    and init: "I x T s"
  shows "wp (loop_io body x) (\<lambda>b t s'. Q b (T @ t) s') s"
  using init
proof (induction "m x s" arbitrary: x T s rule: less_induct)
  case less
  from step [OF less.prems] obtain r t s1 where r: "body x s = Some (r, t, s1)"
    and st: "case r of Continue x' \<Rightarrow> I x' (T @ t) s1 \<and> m x' s1 < m x s | Break b \<Rightarrow> Q b (T @ t) s1"
    by (auto simp: wp_def)
  show ?case
  proof (cases r)
    case (Break b)
    with r st show ?thesis
      by (auto simp: wp_def loop_io.simps [of body x s] bind_io_def return_io_def)
  next
    case (Continue x')
    with st less.hyps [of x' s1 "T @ t"]
    have "wp (loop_io body x') (\<lambda>b t' s'. Q b ((T @ t) @ t') s') s1" by simp
    with r Continue show ?thesis
      by (auto simp: wp_def loop_io.simps [of body x s] bind_io_def)
  qed
qed

lemmas wlp_loop0 = wlp_loop [where T = "[]", simplified]
lemmas wp_loop0 = wp_loop [where T = "[]", simplified]

section \<open>Forgetting the trace\<close>

definition forget :: "('s, 'e, 'a) io \<Rightarrow> 's \<Rightarrow> ('a \<times> 's) option" where
  "forget m s = map_option (\<lambda>(a, t, s'). (a, s')) (m s)"

lemma forget_Some: "forget m s = Some (a, s') \<longleftrightarrow> (\<exists>t. m s = Some (a, t, s'))"
  by (auto simp: forget_def)

lemma forget_return [simp]: "forget (return_io a) s = Some (a, s)"
  by (simp add: forget_def return_io_def)

lemma forget_bind_eq:
  "forget (bind_io m f) s = (case forget m s of None \<Rightarrow> None | Some (a, s') \<Rightarrow> forget (f a) s')"
  by (auto simp: forget_def bind_io_def split: option.splits prod.splits)

lemma forget_bind:
  "forget m s = forget n s \<Longrightarrow> (\<And>a s. forget (f a) s = forget (g a) s) \<Longrightarrow>
    forget (bind_io m f) s = forget (bind_io n g) s"
  by (simp add: forget_bind_eq split: option.split)

lemma forget_loop_le:
  assumes body: "\<And>x s. forget (b1 x) s = forget (b2 x) s"
    and run: "loop_io b1 x s = Some (r, t, s')"
  shows "\<exists>t'. loop_io b2 x s = Some (r, t', s')"
proof -
  define reach where "reach = (\<lambda>r s'. \<exists>t'. loop_io b2 x s = Some (r, t', s'))"
  have "wlp (loop_io b1 x) (\<lambda>r t s'. reach r s') s"
  proof (rule wlp_loop0 [where I = "\<lambda>x T s. \<forall>r t s'. loop_io b2 x s = Some (r, t, s') \<longrightarrow> reach r s'"])
    fix y and T :: "'d list" and u
    assume inv: "\<forall>r t s'. loop_io b2 y u = Some (r, t, s') \<longrightarrow> reach r s'"
    show "wlp (b1 y) (\<lambda>r t s'. case r of
        Continue y' \<Rightarrow> \<forall>r t s''. loop_io b2 y' s' = Some (r, t, s'') \<longrightarrow> reach r s''
      | Break b \<Rightarrow> reach b s') u"
    proof (rule wlpI)
      fix fl t u'
      assume "b1 y u = Some (fl, t, u')"
      with body [of y u] obtain t' where b2: "b2 y u = Some (fl, t', u')"
        by (metis forget_Some)
      with inv show "case fl of
          Continue y' \<Rightarrow> \<forall>r t s''. loop_io b2 y' u' = Some (r, t, s'') \<longrightarrow> reach r s''
        | Break b \<Rightarrow> reach b u'"
        by (auto simp: loop_io.simps [of b2 y u] bind_io_def return_io_def split: flow.split)
    qed
  qed (auto simp: reach_def)
  from wlpD [OF this run] show ?thesis by (simp add: reach_def)
qed

lemma forget_loop:
  assumes "\<And>x s. forget (b1 x) s = forget (b2 x) s"
  shows "forget (loop_io b1 x) s = forget (loop_io b2 x) s"
proof (rule option.expand)
  show "(forget (loop_io b1 x) s = None) = (forget (loop_io b2 x) s = None)"
    using forget_loop_le [of b1 b2] forget_loop_le [of b2 b1] assms
    by (auto simp: forget_def) (metis not_Some_eq prod_cases3)+
  assume "forget (loop_io b1 x) s \<noteq> None" "forget (loop_io b2 x) s \<noteq> None"
  then show "the (forget (loop_io b1 x) s) = the (forget (loop_io b2 x) s)"
    using forget_loop_le [of b1 b2 x s] assms by (auto simp: forget_def)
qed

section \<open>Trace properties\<close>

text \<open>\<open>all_events P m s\<close>: every event of a run of \<open>m\<close> satisfies \<open>P\<close>.\<close>

definition all_events :: "('e \<Rightarrow> bool) \<Rightarrow> ('s, 'e, 'a) io \<Rightarrow> bool" where
  "all_events P m \<longleftrightarrow> (\<forall>s. wlp m (\<lambda>_ t _. list_all P t) s)"

named_theorems all_events_intros \<open>event classes of the combinators and the operations\<close>

lemma all_events_return [all_events_intros]: "all_events P (return_io a)"
  by (simp add: all_events_def wlp_rules)

lemma all_events_ok_fail [all_events_intros]: "all_events P (ok_io a)" "all_events P (fail_io e)"
  by (simp_all add: all_events_def wlp_rules)

lemma all_events_ensure [all_events_intros]: "all_events P (ensure_io b e)"
  by (simp add: all_events_def wlp_rules)

lemma all_events_bind [all_events_intros]:
  "all_events P m \<Longrightarrow> (\<And>a. all_events P (f a)) \<Longrightarrow> all_events P (bind_io m f)"
  unfolding all_events_def wlp_bind by (blast intro: wlp_mono list_all_append [THEN iffD2])

lemma all_events_try [all_events_intros]:
  "all_events P m \<Longrightarrow> (\<And>a. all_events P (f a)) \<Longrightarrow> all_events P (try_io m f)"
  unfolding try_io_def
  by (intro all_events_bind) (auto split: sum.splits intro: all_events_return)

lemma all_events_map [all_events_intros]: "all_events P m \<Longrightarrow> all_events P (map_io g m)"
  unfolding map_io_def by (intro all_events_intros)

lemma all_events_context [all_events_intros]: "all_events P m \<Longrightarrow> all_events P (context_io c m)"
  unfolding context_io_def by (intro all_events_intros)

lemma all_events_if [all_events_intros]:
  "(b \<Longrightarrow> all_events P m) \<Longrightarrow> (\<not> b \<Longrightarrow> all_events P n) \<Longrightarrow> all_events P (if b then m else n)"
  by simp

lemma all_events_case_option [all_events_intros]:
  "(x = None \<Longrightarrow> all_events P m) \<Longrightarrow> (\<And>y. x = Some y \<Longrightarrow> all_events P (f y)) \<Longrightarrow>
    all_events P (case x of None \<Rightarrow> m | Some y \<Rightarrow> f y)"
  by (cases x) auto

lemma all_events_case_sum [all_events_intros]:
  "(\<And>e. x = Err e \<Longrightarrow> all_events P (g e)) \<Longrightarrow> (\<And>y. x = Ok y \<Longrightarrow> all_events P (f y)) \<Longrightarrow>
    all_events P (case x of Err e \<Rightarrow> g e | Ok y \<Rightarrow> f y)"
  by (cases x) auto

lemma all_events_for [all_events_intros]:
  "(\<And>x. x \<in> set xs \<Longrightarrow> all_events P (f x)) \<Longrightarrow> all_events P (for_io f xs)"
  by (induction xs) (auto intro!: all_events_intros)

lemma all_events_collect [all_events_intros]:
  "(\<And>x. x \<in> set xs \<Longrightarrow> all_events P (f x)) \<Longrightarrow> all_events P (collect_io f xs)"
  by (induction xs) (auto intro!: all_events_intros)

lemma all_events_case_flow [all_events_intros]:
  "(\<And>e. x = Continue e \<Longrightarrow> all_events P (g e)) \<Longrightarrow> (\<And>y. x = Break y \<Longrightarrow> all_events P (f y)) \<Longrightarrow>
    all_events P (case x of Continue e \<Rightarrow> g e | Break y \<Rightarrow> f y)"
  by (cases x) auto

lemma all_events_case_prod [all_events_intros]:
  "(\<And>a b. x = (a, b) \<Longrightarrow> all_events P (f a b)) \<Longrightarrow> all_events P (case x of (a, b) \<Rightarrow> f a b)"
  by (cases x) auto

lemma all_events_loop [all_events_intros]:
  assumes "\<And>x. all_events P (body x)"
  shows "all_events P (loop_io body x)"
  unfolding all_events_def
proof
  fix s
  show "wlp (loop_io body x) (\<lambda>_ t _. list_all P t) s"
  proof (rule wlp_loop0 [where I = "\<lambda>_ T _. list_all P T"])
    fix y T u
    assume T: "list_all P T"
    from assms have "wlp (body y) (\<lambda>_ t _. list_all P t) u" by (simp add: all_events_def)
    then show "wlp (body y) (\<lambda>r t s'. case r of
        Continue x' \<Rightarrow> list_all P (T @ t) | Break b \<Rightarrow> list_all P (T @ t)) u"
      by (rule wlp_mono) (use T in \<open>simp split: flow.split\<close>)
  qed simp
qed

lemma all_events_mono: "all_events P m \<Longrightarrow> (\<And>e. P e \<Longrightarrow> Q e) \<Longrightarrow> all_events Q m"
  unfolding all_events_def by (blast intro: wlp_mono list.pred_mono_strong)

lemma all_events_wlp: "all_events P m \<Longrightarrow> wlp m (\<lambda>_ t _. list_all P t) s"
  by (simp add: all_events_def)

end
