(* ===== verification/System.thy ===== *)
theory System
  imports Effects
begin

text \<open>
  The operating system as the CLI sees it, and win32.rs. Windows is a parameter: the record
  \<open>'w os\<close> has one function per Win32 call over an arbitrary world \<open>'w\<close>, so every theorem holds
  whatever Windows answers and however long it takes. A call is an action that updates the
  world, lets the clock of \<open>std::time::Instant\<close> advance and logs one event with its arguments and
  its answer. Failing calls carry the code that \<open>GetLastError\<close> would return.

  UTF-16 conversion and NUL handling are those of \<open>std\<close>'s \<open>OsStr\<close> and of the widestring types as
  documented: \<open>wide\<close> rejects interior NULs, \<open>wide_from_buffer\<close> cuts at the first NUL and fails
  when there is none.
\<close>

section \<open>State and calls\<close>

type_synonym wstr = "u16 list"
type_synonym handle = u64

text \<open>
  \<open>clock\<close> is \<open>Instant::now()\<close> in nanoseconds; \<open>next_correlation_id\<close> is the static of
  adapter/mod.rs.
\<close>

record 'w sys =
  world :: 'w
  clock :: nat
  next_correlation_id :: u64

datatype device_class = Disk_Interfaces | Scsi_Adapters

text \<open>
  provisioning.rs: the rows that Storage WMI answers with, and the values that method inputs are
  serialized to, each under its \<open>serde\<close> name.
\<close>

record msft_disk =
  md_path :: ustring
  md_number :: u32
  md_size :: u64
  md_partition_style :: u16
  md_is_boot :: bool
  md_is_system :: bool
  md_is_offline :: bool
  md_is_read_only :: bool

record msft_partition =
  mp_path :: ustring
  mp_disk_number :: u32
  mp_partition_number :: u32
  mp_drive_letter :: "ustring option"
  mp_offset :: u64
  mp_size :: u64
  mp_is_boot :: bool
  mp_is_system :: bool

record msft_volume =
  mv_path :: ustring
  mv_drive_letter :: "ustring option"

datatype wmi_value = Wmi_Bool bool | Wmi_Number u16 | Wmi_Text ustring

type_synonym wmi_input = "(string \<times> wmi_value) list"

text \<open>What happens, by interface: Storage WMI, driver setup, event tracing, and all else.\<close>

datatype wmi_event =
    Wmi_Connect "ustring option"
  | Wmi_Disks ustring "ustring + msft_disk list"
  | Wmi_Partitions ustring "ustring + msft_partition list"
  | Wmi_Volumes ustring "ustring + msft_volume list"
  | Wmi_Method ustring string wmi_input "ustring + u32"
  | Wmi_Create_Partition ustring wmi_input "ustring + (u32 \<times> msft_partition option)"

datatype setup_event =
    Program_Data "wstr option"
  | Create_Directories wstr "io_error option"
  | Write_File wstr "u8 list" "io_error option"
  | Canonicalize wstr "io_error + wstr"
  | Install_Driver wstr "u32 option \<times> bool"
  | Update_Driver wstr wstr "u32 option \<times> bool"
  | Create_Device_List "u32 + handle"
  | Create_Device_Info handle wstr "u32 + u64"
  | Enum_Device_Info handle nat "u32 + u64"
  | Get_Hardware_Id handle u64 "u32 + (u32 \<times> wstr)"
  | Set_Hardware_Id handle u64 wstr "u32 option"
  | Class_Installer u32 handle u64 "u32 option"

text \<open>
  logging/driver_events.rs: what ferrisetw answers. A \<open>TraceError\<close> is its \<open>Debug\<close> text and the
  \<open>io::Error\<close> in it, if any; joining the consumer thread shows its result or its panic.
\<close>

datatype trace_error = Trace_Error ustring "io_error option"
datatype joined = Joined | Join_Failed trace_error | Join_Panicked

datatype etw_event =
    Session_Identity "u32 \<times> int"
  | Start_Session ustring u8 "trace_error + (handle \<times> handle)"
  | Spawn_Consumer handle "io_error + handle"
  | Stop_By_Name ustring "trace_error option"
  | Stop_Session handle "trace_error option"
  | Join_Consumer handle joined
  | Close_Session handle
  | Install_Subscriber ustring "ustring option"
  | Dropped_Lines nat

datatype os_event =
    Create_File wstr u32 "u32 + handle"
  | Close_Handle handle
  | Device_Io_Control handle u32 "u8 list" "u32 + (u32 \<times> u8 list)"
  | Get_Logical_Drives u32
  | Find_First_Volume "u32 + (handle \<times> wstr)"
  | Find_Next_Volume handle "u32 + wstr"
  | Find_Volume_Close handle
  | Get_Volume_Path_Names wstr nat "u32 option \<times> u32 \<times> wstr"
  | Get_Volume_Name wstr "u32 + wstr"
  | Set_Mount_Point wstr wstr "u32 option"
  | Delete_Mount_Point wstr "u32 option"
  | Get_Class_Devs device_class "u32 + handle"
  | Destroy_Device_List handle
  | Enum_Interfaces handle nat "u32 + u64"
  | Interface_Detail handle u64 nat "u32 option \<times> u32 \<times> wstr"
  | Create_Event "u32 + handle"
  | Register_Notification handle "u32 \<times> handle"
  | Unregister_Notification handle
  | Wait_Event handle u32 "u32 \<times> u32"
  | Sleep nat
  | Print ustring
  | Storage wmi_event
  | Setup setup_event
  | Etw etw_event
  | Eprint ustring

type_synonym ('w, 'a) os_fun = "'w \<Rightarrow> 'a \<times> nat \<times> 'w"

record 'w wmi =
  wm_connect :: "('w, ustring option) os_fun"
  wm_disks :: "ustring \<Rightarrow> ('w, ustring + msft_disk list) os_fun"
  wm_partitions :: "ustring \<Rightarrow> ('w, ustring + msft_partition list) os_fun"
  wm_volumes :: "ustring \<Rightarrow> ('w, ustring + msft_volume list) os_fun"
  wm_method :: "ustring \<Rightarrow> string \<Rightarrow> wmi_input \<Rightarrow> ('w, ustring + u32) os_fun"
  wm_create_partition ::
    "ustring \<Rightarrow> wmi_input \<Rightarrow> ('w, ustring + (u32 \<times> msft_partition option)) os_fun"

record 'w installer =
  su_program_data :: "('w, wstr option) os_fun"
  su_create_directories :: "wstr \<Rightarrow> ('w, io_error option) os_fun"
  su_write_file :: "wstr \<Rightarrow> u8 list \<Rightarrow> ('w, io_error option) os_fun"
  su_canonicalize :: "wstr \<Rightarrow> ('w, io_error + wstr) os_fun"
  su_install_driver :: "wstr \<Rightarrow> ('w, u32 option \<times> bool) os_fun"
  su_update_driver :: "wstr \<Rightarrow> wstr \<Rightarrow> ('w, u32 option \<times> bool) os_fun"
  su_create_device_list :: "('w, u32 + handle) os_fun"
  su_create_device_info :: "handle \<Rightarrow> wstr \<Rightarrow> ('w, u32 + u64) os_fun"
  su_enum_device_info :: "handle \<Rightarrow> nat \<Rightarrow> ('w, u32 + u64) os_fun"
  su_get_hardware_id :: "handle \<Rightarrow> u64 \<Rightarrow> ('w, u32 + (u32 \<times> wstr)) os_fun"
  su_set_hardware_id :: "handle \<Rightarrow> u64 \<Rightarrow> wstr \<Rightarrow> ('w, u32 option) os_fun"
  su_class_installer :: "u32 \<Rightarrow> handle \<Rightarrow> u64 \<Rightarrow> ('w, u32 option) os_fun"

record 'w etw =
  et_session_identity :: "('w, u32 \<times> int) os_fun"
  et_start_session :: "ustring \<Rightarrow> u8 \<Rightarrow> ('w, trace_error + (handle \<times> handle)) os_fun"
  et_spawn_consumer :: "handle \<Rightarrow> ('w, io_error + handle) os_fun"
  et_stop_by_name :: "ustring \<Rightarrow> ('w, trace_error option) os_fun"
  et_stop_session :: "handle \<Rightarrow> ('w, trace_error option) os_fun"
  et_join_consumer :: "handle \<Rightarrow> ('w, joined) os_fun"
  et_close_session :: "handle \<Rightarrow> ('w, unit) os_fun"
  et_install_subscriber :: "ustring \<Rightarrow> ('w, ustring option) os_fun"
  et_dropped_lines :: "('w, nat) os_fun"

record 'w os =
  os_create_file :: "wstr \<Rightarrow> u32 \<Rightarrow> ('w, u32 + handle) os_fun"
  os_close_handle :: "handle \<Rightarrow> ('w, unit) os_fun"
  os_device_io_control :: "handle \<Rightarrow> u32 \<Rightarrow> u8 list \<Rightarrow> nat \<Rightarrow> ('w, u32 + (u32 \<times> u8 list)) os_fun"
  os_get_logical_drives :: "('w, u32) os_fun"
  os_find_first_volume :: "('w, u32 + (handle \<times> wstr)) os_fun"
  os_find_next_volume :: "handle \<Rightarrow> ('w, u32 + wstr) os_fun"
  os_find_volume_close :: "handle \<Rightarrow> ('w, unit) os_fun"
  os_get_volume_path_names :: "wstr \<Rightarrow> nat \<Rightarrow> ('w, u32 option \<times> u32 \<times> wstr) os_fun"
  os_get_volume_name :: "wstr \<Rightarrow> ('w, u32 + wstr) os_fun"
  os_set_mount_point :: "wstr \<Rightarrow> wstr \<Rightarrow> ('w, u32 option) os_fun"
  os_delete_mount_point :: "wstr \<Rightarrow> ('w, u32 option) os_fun"
  os_get_class_devs :: "device_class \<Rightarrow> ('w, u32 + handle) os_fun"
  os_destroy_device_list :: "handle \<Rightarrow> ('w, unit) os_fun"
  os_enum_interfaces :: "handle \<Rightarrow> nat \<Rightarrow> ('w, u32 + u64) os_fun"
  os_interface_detail :: "handle \<Rightarrow> u64 \<Rightarrow> nat \<Rightarrow> ('w, u32 option \<times> u32 \<times> wstr) os_fun"
  os_create_event :: "('w, u32 + handle) os_fun"
  os_register_notification :: "handle \<Rightarrow> ('w, u32 \<times> handle) os_fun"
  os_unregister_notification :: "handle \<Rightarrow> ('w, unit) os_fun"
  os_wait_event :: "handle \<Rightarrow> u32 \<Rightarrow> ('w, u32 \<times> u32) os_fun"
  os_sleep :: "nat \<Rightarrow> ('w, unit) os_fun"
  os_wmi :: "'w wmi"
  os_setup :: "'w installer"
  os_etw :: "'w etw"

type_synonym ('w, 'a) sys_io = "('w sys, os_event, 'a) io"

text \<open>One call: the answer, at least the elapsed time reported, one event.\<close>

definition os_call :: "('w, 'a) os_fun \<Rightarrow> ('a \<Rightarrow> os_event) \<Rightarrow> ('w, 'a) sys_io" where
  "os_call f ev = (\<lambda>s. case f (world s) of
     (a, d, w) \<Rightarrow> Some (a, [ev a], s\<lparr>world := w, clock := clock s + d\<rparr>))"

text \<open>\<open>Instant::now()\<close> and \<open>thread::sleep\<close>, which may oversleep but never undersleeps.\<close>

definition now :: "('w, nat) sys_io" where
  "now = (\<lambda>s. Some (clock s, [], s))"

definition sleep :: "'w os \<Rightarrow> nat \<Rightarrow> ('w, unit) sys_io" where
  "sleep os d = os_call (\<lambda>w. case os_sleep os d w of (u, extra, w') \<Rightarrow> (u, d + extra, w')) (\<lambda>_. Sleep d)"

definition println :: "ustring \<Rightarrow> ('w, unit) sys_io" where
  "println t = (\<lambda>s. Some ((), [Print t], s))"

definition eprintln :: "ustring \<Rightarrow> ('w, unit) sys_io" where
  "eprintln t = (\<lambda>s. Some ((), [Eprint t], s))"

text \<open>\<open>NEXT_CORRELATION_ID.fetch_add(1, Ordering::Relaxed)\<close>, wrapping at 64 bits.\<close>

definition fetch_correlation_id :: "('w, u64) sys_io" where
  "fetch_correlation_id = (\<lambda>s. Some (next_correlation_id s, [],
     s\<lparr>next_correlation_id := next_correlation_id s + 1\<rparr>))"

section \<open>Rules for calls\<close>

definition clock_le :: "'w sys \<Rightarrow> 'w sys \<Rightarrow> bool" where
  "clock_le s s' \<longleftrightarrow> clock s \<le> clock s'"

lemma clock_le_refl [simp, intro]: "clock_le s s" by (simp add: clock_le_def)

lemma clock_le_trans [trans]: "clock_le s s' \<Longrightarrow> clock_le s' s'' \<Longrightarrow> clock_le s s''"
  by (simp add: clock_le_def)

lemma wlp_os_call:
  "wlp (os_call f ev) Q s \<longleftrightarrow> (case f (world s) of
     (a, d, w) \<Rightarrow> Q a [ev a] (s\<lparr>world := w, clock := clock s + d\<rparr>))"
  by (simp add: wlp_def os_call_def split: prod.splits)

lemma wp_os_call:
  "wp (os_call f ev) Q s \<longleftrightarrow> (case f (world s) of
     (a, d, w) \<Rightarrow> Q a [ev a] (s\<lparr>world := w, clock := clock s + d\<rparr>))"
  by (simp add: wp_def os_call_def split: prod.splits)

text \<open>What is known of an arbitrary call: its event, and that time does not run backwards.\<close>

lemma wlp_os_callI: "(\<And>a s'. clock_le s s' \<Longrightarrow> Q a [ev a] s') \<Longrightarrow> wlp (os_call f ev) Q s"
  by (auto simp: wlp_os_call clock_le_def split: prod.splits)

lemma wp_os_callI: "(\<And>a s'. clock_le s s' \<Longrightarrow> Q a [ev a] s') \<Longrightarrow> wp (os_call f ev) Q s"
  by (auto simp: wp_os_call clock_le_def split: prod.splits)

lemma wlp_now [wlp_rules]: "wlp now Q s \<longleftrightarrow> Q (clock s) [] s"
  by (simp add: wlp_def now_def)

lemma wp_now [wp_rules]: "wp now Q s \<longleftrightarrow> Q (clock s) [] s"
  by (simp add: wp_def now_def)

lemma wlp_println [wlp_rules]: "wlp (println t) Q s \<longleftrightarrow> Q () [Print t] s"
  by (simp add: wlp_def println_def)

lemma wp_println [wp_rules]: "wp (println t) Q s \<longleftrightarrow> Q () [Print t] s"
  by (simp add: wp_def println_def)

lemma wlp_eprintln [wlp_rules]: "wlp (eprintln t) Q s \<longleftrightarrow> Q () [Eprint t] s"
  by (simp add: wlp_def eprintln_def)

lemma wp_eprintln [wp_rules]: "wp (eprintln t) Q s \<longleftrightarrow> Q () [Eprint t] s"
  by (simp add: wp_def eprintln_def)

lemma wlp_fetch [wlp_rules]:
  "wlp fetch_correlation_id Q s \<longleftrightarrow>
    Q (next_correlation_id s) [] (s\<lparr>next_correlation_id := next_correlation_id s + 1\<rparr>)"
  by (simp add: wlp_def fetch_correlation_id_def)

lemma wp_fetch [wp_rules]:
  "wp fetch_correlation_id Q s \<longleftrightarrow>
    Q (next_correlation_id s) [] (s\<lparr>next_correlation_id := next_correlation_id s + 1\<rparr>)"
  by (simp add: wp_def fetch_correlation_id_def)

lemma wlp_sleepI: "(\<And>s'. clock s + d \<le> clock s' \<Longrightarrow> Q () [Sleep d] s') \<Longrightarrow> wlp (sleep os d) Q s"
  unfolding sleep_def wlp_os_call by (auto split: prod.splits)

lemma wp_sleepI: "(\<And>s'. clock s + d \<le> clock s' \<Longrightarrow> Q () [Sleep d] s') \<Longrightarrow> wp (sleep os d) Q s"
  unfolding sleep_def wp_os_call by (auto split: prod.splits)

lemma wlp_os_call_event: "wlp (os_call f ev) (\<lambda>a t _. t = [ev a]) s"
  by (rule wlp_os_callI) simp

lemma all_events_os_call [all_events_intros]:
  "(\<And>a. P (ev a)) \<Longrightarrow> all_events P (os_call f ev)"
  by (auto simp: all_events_def intro: wlp_os_callI)

lemma all_events_silent [all_events_intros]: "all_events P now" "all_events P fetch_correlation_id"
  by (simp_all add: all_events_def wlp_rules)

lemma all_events_println [all_events_intros]: "P (Print t) \<Longrightarrow> all_events P (println t)"
  by (simp add: all_events_def wlp_rules)

lemma all_events_eprintln [all_events_intros]: "P (Eprint t) \<Longrightarrow> all_events P (eprintln t)"
  by (simp add: all_events_def wlp_rules)

lemma all_events_sleep [all_events_intros]: "P (Sleep d) \<Longrightarrow> all_events P (sleep os d)"
  unfolding sleep_def by (intro all_events_intros)

section \<open>Actions that always return\<close>

text \<open>
  \<open>returns m\<close>: \<open>m\<close> terminates from every state and the clock does not run backwards. All
  straight-line code returns; loops are shown to, by their deadlines.
\<close>

definition returns :: "('w, 'a) sys_io \<Rightarrow> bool" where
  "returns m \<longleftrightarrow> (\<forall>s. wp m (\<lambda>_ _ s'. clock_le s s') s)"

named_theorems returns_intros \<open>termination of the combinators and the operations\<close>

lemma returnsD: "returns m \<Longrightarrow> wp m (\<lambda>_ _ s'. clock_le s s') s"
  by (simp add: returns_def)

lemma returns_wlp: "returns m \<Longrightarrow> wlp m (\<lambda>_ _ s'. clock_le s s') s"
  unfolding returns_def wp_def wlp_def by (metis option.inject prod.inject)

lemma returns_os_call [returns_intros]: "returns (os_call f ev)"
  by (auto simp: returns_def intro: wp_os_callI)

lemma returns_basic [returns_intros]:
  "returns (return_io a)" "returns now" "returns (println t)" "returns (eprintln t)" "returns fetch_correlation_id"
  by (simp_all add: returns_def wp_rules clock_le_def)

lemma returns_ok_fail [returns_intros]: "returns (ok_io b)" "returns (fail_io e)"
  by (simp_all add: ok_io_def fail_io_def returns_intros)

lemma returns_sleep [returns_intros]: "returns (sleep os d)"
  by (auto simp: returns_def clock_le_def intro: wp_sleepI)

lemma returns_bind [returns_intros]:
  "returns m \<Longrightarrow> (\<And>a. returns (f a)) \<Longrightarrow> returns (bind_io m f)"
  unfolding returns_def wp_bind by (blast intro: wp_mono clock_le_trans)

lemma returns_if [returns_intros]:
  "(b \<Longrightarrow> returns m) \<Longrightarrow> (\<not> b \<Longrightarrow> returns n) \<Longrightarrow> returns (if b then m else n)"
  by simp

lemma returns_case_option [returns_intros]:
  "(x = None \<Longrightarrow> returns m) \<Longrightarrow> (\<And>y. x = Some y \<Longrightarrow> returns (f y)) \<Longrightarrow>
    returns (case x of None \<Rightarrow> m | Some y \<Rightarrow> f y)"
  by (cases x) auto

lemma returns_case_sum [returns_intros]:
  "(\<And>e. x = Err e \<Longrightarrow> returns (g e)) \<Longrightarrow> (\<And>y. x = Ok y \<Longrightarrow> returns (f y)) \<Longrightarrow>
    returns (case x of Err e \<Rightarrow> g e | Ok y \<Rightarrow> f y)"
  by (cases x) auto

lemma returns_case_flow [returns_intros]:
  "(\<And>e. x = Continue e \<Longrightarrow> returns (g e)) \<Longrightarrow> (\<And>y. x = Break y \<Longrightarrow> returns (f y)) \<Longrightarrow>
    returns (case x of Continue e \<Rightarrow> g e | Break y \<Rightarrow> f y)"
  by (cases x) auto

lemma returns_case_prod [returns_intros]:
  "(\<And>a b. x = (a, b) \<Longrightarrow> returns (f a b)) \<Longrightarrow> returns (case x of (a, b) \<Rightarrow> f a b)"
  by (cases x) auto

lemma returns_try [returns_intros]:
  "returns m \<Longrightarrow> (\<And>a. returns (f a)) \<Longrightarrow> returns (try_io m f)"
  unfolding try_io_def by (intro returns_intros)

lemma returns_map [returns_intros]: "returns m \<Longrightarrow> returns (map_io g m)"
  unfolding map_io_def by (intro returns_intros)

lemma returns_context [returns_intros]: "returns m \<Longrightarrow> returns (context_io c m)"
  unfolding context_io_def by (intro returns_intros)

lemma returns_ensure [returns_intros]: "returns (ensure_io b e)"
  unfolding ensure_io_def by (intro returns_intros)

lemma returns_for [returns_intros]:
  "(\<And>x. x \<in> set xs \<Longrightarrow> returns (f x)) \<Longrightarrow> returns (for_io f xs)"
  by (induction xs) (auto intro!: returns_intros)

lemma returns_collect [returns_intros]:
  "(\<And>x. x \<in> set xs \<Longrightarrow> returns (f x)) \<Longrightarrow> returns (collect_io f xs)"
  by (induction xs) (auto intro!: returns_intros)

text \<open>
  A polling loop returns: every round returns, and a round that goes on leaves less time to the
  deadline than it found.
\<close>

lemma returns_loop:
  fixes left :: "'w sys \<Rightarrow> nat"
  assumes "\<And>x s. wp (body x) (\<lambda>r _ s'. clock_le s s' \<and>
      (case r of Continue _ \<Rightarrow> left s' < left s | Break _ \<Rightarrow> True)) s"
  shows "returns (loop_io body x)"
  unfolding returns_def
proof
  fix s
  show "wp (loop_io body x) (\<lambda>_ _ s'. clock_le s s') s"
    by (rule wp_loop0 [where I = "\<lambda>_ _ u. clock_le s u" and m = "\<lambda>_. left"])
      (auto intro!: wp_mono [OF assms] intro: clock_le_trans split: flow.splits)
qed

section \<open>win32.rs\<close>

definition last_os_error :: "string \<Rightarrow> u32 \<Rightarrow> error" where
  "last_os_error action code = Context (Ctx (lit action)) (Io (Os_Error code))"

lemma last_os_error_simps [simp]:
  "downcast_io (last_os_error op c) = Some (Os_Error c)"
  "downcast_unresolved (last_os_error op c) = None"
  "\<not> is_unresolved (last_os_error op c)"
  "\<not> has_lock_failure (last_os_error op c)"
  by (simp_all add: last_os_error_def)

fun utf16 :: "ustring \<Rightarrow> wstr" where
  "utf16 [] = []"
| "utf16 (c # cs) =
     (if c < 0x10000 then word_of_nat c # utf16 cs
      else word_of_nat (0xD800 + (c - 0x10000) div 0x400)
        # word_of_nat (0xDC00 + (c - 0x10000) mod 0x400) # utf16 cs)"

text \<open>\<open>to_string_lossy\<close>: an unpaired surrogate becomes U+FFFD.\<close>

fun utf16_lossy :: "wstr \<Rightarrow> ustring" where
  "utf16_lossy [] = []"
| "utf16_lossy [u] = (if unat u div 0x800 = 0x1B then [0xFFFD] else [unat u])"
| "utf16_lossy (u # v # us) =
     (if unat u div 0x400 = 0x36 \<and> unat v div 0x400 = 0x37
      then (0x10000 + (unat u - 0xD800) * 0x400 + (unat v - 0xDC00)) # utf16_lossy us
      else (if unat u div 0x800 = 0x1B then 0xFFFD else unat u) # utf16_lossy (v # us))"

definition wide :: "ustring \<Rightarrow> io_error + wstr" where
  "wide s = (if 0 \<in> set s then Err Invalid_Input else Ok (utf16 s))"

definition wide_from_buffer :: "wstr \<Rightarrow> wstr result" where
  "wide_from_buffer buffer =
     (if 0 \<in> set buffer then Ok (takeWhile (\<lambda>u. u \<noteq> 0) buffer)
      else Err (Msg (lit ''data provided is missing a NUL terminator'')))"

fun split_units :: "wstr \<Rightarrow> wstr list" where
  "split_units [] = [[]]"
| "split_units (u # us) = (if u = 0 then [] # split_units us
     else (u # hd (split_units us)) # tl (split_units us))"

definition multisz_entries :: "wstr \<Rightarrow> wstr list" where
  "multisz_entries buffer = takeWhile (\<lambda>e. e \<noteq> []) (split_units buffer)"

definition GENERIC_READ :: u32 where "GENERIC_READ = 0x80000000"
definition GENERIC_WRITE :: u32 where "GENERIC_WRITE = 0x40000000"

definition open_device_wide :: "'w os \<Rightarrow> wstr \<Rightarrow> u32 \<Rightarrow> ('w, io_error + handle) sys_io" where
  "open_device_wide os path access =
     map_io (map_err Os_Error) (os_call (os_create_file os path access) (Create_File path access))"

definition open_device :: "'w os \<Rightarrow> ustring \<Rightarrow> u32 \<Rightarrow> ('w, io_error + handle) sys_io" where
  "open_device os path access =
     try_io (return_io (wide path)) (\<lambda>p. open_device_wide os p access)"

text \<open>\<open>impl Drop for OwnedHandle\<close>; a handle from a successful open is never null or invalid.\<close>

definition close_handle :: "'w os \<Rightarrow> handle \<Rightarrow> ('w, unit) sys_io" where
  "close_handle os h = os_call (os_close_handle os h) (\<lambda>_. Close_Handle h)"

text \<open>Run \<open>m\<close> with an owned handle that is dropped on every path out of it.\<close>

definition owning :: "'w os \<Rightarrow> handle \<Rightarrow> ('w, 'a) sys_io \<Rightarrow> ('w, 'a) sys_io" where
  "owning os h m = bind_io m (\<lambda>a. bind_io (close_handle os h) (\<lambda>_. return_io a))"

text \<open>\<open>.context(...)\<close> on an \<open>io::Result\<close>.\<close>

definition io_context :: "ustring \<Rightarrow> ('w, io_error + 'a) sys_io \<Rightarrow> ('w, 'a result) sys_io" where
  "io_context t m = map_io (map_err (\<lambda>e. Context (Ctx t) (Io e))) m"

text \<open>
  A \<open>DeviceIoControl\<close> with separate buffers: the driver writes at most the capacity into a
  zeroed output buffer.
\<close>

definition device_io_control ::
  "'w os \<Rightarrow> handle \<Rightarrow> u32 \<Rightarrow> u8 list \<Rightarrow> nat \<Rightarrow> ('w, u32 + (u32 \<times> u8 list)) sys_io" where
  "device_io_control os h code input cap =
     os_call (os_device_io_control os h code input cap) (Device_Io_Control h code input)"

definition overlay :: "'a list \<Rightarrow> 'a list \<Rightarrow> 'a list" where
  "overlay buffer out = take (length buffer) out @ drop (length out) buffer"

lemma length_overlay [simp]: "length (overlay buffer out) = length buffer"
  by (simp add: overlay_def min_def)

lemma all_events_win32 [all_events_intros]:
  "(\<And>r. P (Create_File p acc r)) \<Longrightarrow> all_events P (open_device_wide os p acc)"
  "(\<And>q r. P (Create_File q acc r)) \<Longrightarrow> all_events P (open_device os t acc)"
  "P (Close_Handle h) \<Longrightarrow> all_events P (close_handle os h)"
  "(\<And>r. P (Device_Io_Control h code inp r)) \<Longrightarrow> all_events P (device_io_control os h code inp cap)"
  "all_events P m \<Longrightarrow> P (Close_Handle h) \<Longrightarrow> all_events P (owning os h m)"
  "all_events P n \<Longrightarrow> all_events P (io_context u n)"
  unfolding open_device_wide_def open_device_def close_handle_def device_io_control_def owning_def
    io_context_def
  by (intro all_events_intros; simp)+

lemma returns_win32 [returns_intros]:
  "returns (open_device_wide os p acc)" "returns (open_device os t acc)" "returns (close_handle os h)"
  "returns (device_io_control os h code inp cap)"
  "returns m \<Longrightarrow> returns (owning os h m)" "returns n \<Longrightarrow> returns (io_context t n)"
  unfolding open_device_wide_def open_device_def close_handle_def device_io_control_def owning_def
    io_context_def
  by (intro returns_intros; assumption?)+

end
