(* ===== verification/Protocol.thy ===== *)
theory Protocol
  imports Base
begin

text \<open>
  cli/src/protocol.rs: the versioned management protocol shared with the driver
  (shared/wispdisk_protocol.h). Constants, the operation, media and state codes, the wire
  structures as records, their \<open>repr(C)\<close> layout and the checks of their meaning. The byte
  encodings are in theory Wire.
\<close>

section \<open>Constants and codes\<close>

definition PROTOCOL_VERSION :: u32 where "PROTOCOL_VERSION = 1"
definition SRB_SIGNATURE :: "u8 list" where
  "SRB_SIGNATURE = map word_of_nat (lit ''WISPDK01'')"
definition MAXIMUM_DISK_COUNT :: nat where "MAXIMUM_DISK_COUNT = 16"

definition CAP_CREATE_DELETE :: u32 where "CAP_CREATE_DELETE = 0x1"
definition CAP_READ_WRITE :: u32 where "CAP_READ_WRITE = 0x2"
definition CAP_REMOVABLE :: u32 where "CAP_REMOVABLE = 0x4"
definition CAP_OPERATION_RECOVERY :: u32 where "CAP_OPERATION_RECOVERY = 0x8"

datatype operation =
    Query_Version | Create_Disk | Delete_Disk | List_Disks | Reserve | Query_Result
  | Create_Reserved | Delete_Reserved | List_State

fun operation_code :: "operation \<Rightarrow> u32" where
  "operation_code Query_Version = 0x800"
| "operation_code Create_Disk = 0x801"
| "operation_code Delete_Disk = 0x802"
| "operation_code List_Disks = 0x803"
| "operation_code Reserve = 0x804"
| "operation_code Query_Result = 0x805"
| "operation_code Create_Reserved = 0x806"
| "operation_code Delete_Reserved = 0x807"
| "operation_code List_State = 0x808"

datatype protocol_media_kind = Media_Fixed | Media_Removable

fun media_code :: "protocol_media_kind \<Rightarrow> u32" where
  "media_code Media_Fixed = 1"
| "media_code Media_Removable = 2"

datatype operation_state =
    State_Reserved | State_Pending | State_Succeeded | State_Failed | State_Deleted

fun state_code :: "operation_state \<Rightarrow> u32" where
  "state_code State_Reserved = 1"
| "state_code State_Pending = 2"
| "state_code State_Succeeded = 3"
| "state_code State_Failed = 4"
| "state_code State_Deleted = 5"

lemma operation_code_inj [simp]: "operation_code a = operation_code b \<longleftrightarrow> a = b"
  by (cases a; cases b) simp_all

lemma state_code_inj [simp]: "state_code a = state_code b \<longleftrightarrow> a = b"
  by (cases a; cases b) simp_all

lemma media_code_inj [simp]: "media_code a = media_code b \<longleftrightarrow> a = b"
  by (cases a; cases b) simp_all

section \<open>Wire structures\<close>

record request_header =
  rq_struct_size :: u32
  rq_protocol_version :: u32
  rq_operation :: u32
  rq_flags :: u32
  rq_correlation_id :: u64

record response_header =
  rs_struct_size :: u32
  rs_protocol_version :: u32
  rs_operation :: u32
  rs_status :: i32
  rs_correlation_id :: u64

record query_version_response =
  qv_header :: response_header
  qv_version_major :: u32
  qv_version_minor :: u32
  qv_capabilities :: u32
  qv_maximum_disk_count :: u32

record create_request =
  cq_header :: request_header
  cq_size_bytes :: u64
  cq_logical_sector_size :: u32
  cq_media_kind :: u32
  cq_requested_drive_letter :: u16
  cq_reserved16 :: u16
  cq_reserved32 :: u32

record create_response =
  cr_header :: response_header
  cr_device_id :: u32
  cr_path_id :: u8
  cr_target_id :: u8
  cr_lun :: u8
  cr_reserved :: u8

record delete_request =
  dq_header :: request_header
  dq_device_id :: u32
  dq_reserved :: u32

record disk_info =
  di_device_id :: u32
  di_path_id :: u8
  di_target_id :: u8
  di_lun :: u8
  di_reserved8 :: u8
  di_size_bytes :: u64
  di_logical_sector_size :: u32
  di_media_kind :: u32
  di_requested_drive_letter :: u16
  di_reserved16 :: u16

record list_response =
  lr_header :: response_header
  lr_disk_count :: u32
  lr_reserved :: u32
  lr_disks :: "disk_info list"

record reserve_request =
  rr_header :: request_header
  rr_mutation :: u32
  rr_reserved :: u32

record operation_request =
  oq_header :: request_header
  oq_adapter_instance :: u64
  oq_operation_id :: u64

record reserved_create_request =
  rc_operation :: operation_request
  rc_size_bytes :: u64
  rc_logical_sector_size :: u32
  rc_media_kind :: u32
  rc_requested_drive_letter :: u16
  rc_reserved16 :: u16
  rc_reserved32 :: u32

record reserved_delete_request =
  rd_operation :: operation_request
  rd_device_id :: u32
  rd_reserved :: u32

record operation_response =
  or_header :: response_header
  or_adapter_instance :: u64
  or_operation_id :: u64
  or_mutation :: u32
  or_state :: u32
  or_result_status :: i32
  or_device_id :: u32
  or_path_id :: u8
  or_target_id :: u8
  or_lun :: u8
  or_reserved8 :: u8
  or_reserved32 :: u32

record disk_state =
  ds_disk :: disk_info
  ds_create_operation_id :: u64
  ds_state :: u32
  ds_reserved :: u32

record state_response =
  sr_header :: response_header
  sr_adapter_instance :: u64
  sr_allocated_bytes :: u64
  sr_disk_count :: u32
  sr_pending_operations :: u32
  sr_disks :: "disk_state list"

section \<open>The repr(C) layout\<close>

text \<open>
  \<open>size_of\<close>, alignment and field offsets of a \<open>repr(C)\<close> type: every field starts at the next
  multiple of its alignment and the size is rounded up to the largest alignment.
  \<open>packed_size\<close> is what the fields alone take, so the two agree when there is no padding.
\<close>

datatype ctype = U8 | U16 | U32 | U64 | Arr nat ctype | Struct "ctype list"

definition align_up :: "nat \<Rightarrow> nat \<Rightarrow> nat" where
  "align_up n a = (n + a - 1) div a * a"

fun align_of :: "ctype \<Rightarrow> nat" where
  "align_of U8 = 1"
| "align_of U16 = 2"
| "align_of U32 = 4"
| "align_of U64 = 8"
| "align_of (Arr n t) = align_of t"
| "align_of (Struct ts) = foldr (\<lambda>t m. max (align_of t) m) ts 1"

fun size_of :: "ctype \<Rightarrow> nat" where
  "size_of U8 = 1"
| "size_of U16 = 2"
| "size_of U32 = 4"
| "size_of U64 = 8"
| "size_of (Arr n t) = n * size_of t"
| "size_of (Struct ts) =
     align_up (foldl (\<lambda>off t. align_up off (align_of t) + size_of t) 0 ts) (align_of (Struct ts))"

fun packed_size :: "ctype \<Rightarrow> nat" where
  "packed_size U8 = 1"
| "packed_size U16 = 2"
| "packed_size U32 = 4"
| "packed_size U64 = 8"
| "packed_size (Arr n t) = n * packed_size t"
| "packed_size (Struct ts) = sum_list (map packed_size ts)"

fun field_offsets_from :: "nat \<Rightarrow> ctype list \<Rightarrow> nat list" where
  "field_offsets_from off [] = []"
| "field_offsets_from off (t # ts) =
     (let at = align_up off (align_of t) in at # field_offsets_from (at + size_of t) ts)"

definition request_header_type :: ctype where
  "request_header_type = Struct [U32, U32, U32, U32, U64]"
definition response_header_type :: ctype where
  "response_header_type = Struct [U32, U32, U32, U32, U64]"
definition query_version_response_type :: ctype where
  "query_version_response_type = Struct [response_header_type, U32, U32, U32, U32]"
definition create_request_type :: ctype where
  "create_request_type = Struct [request_header_type, U64, U32, U32, U16, U16, U32]"
definition create_response_type :: ctype where
  "create_response_type = Struct [response_header_type, U32, U8, U8, U8, U8]"
definition delete_request_type :: ctype where
  "delete_request_type = Struct [request_header_type, U32, U32]"
definition disk_info_type :: ctype where
  "disk_info_type = Struct [U32, U8, U8, U8, U8, U64, U32, U32, U16, U16]"
definition list_response_type :: ctype where
  "list_response_type =
     Struct [response_header_type, U32, U32, Arr MAXIMUM_DISK_COUNT disk_info_type]"
definition reserve_request_type :: ctype where
  "reserve_request_type = Struct [request_header_type, U32, U32]"
definition operation_request_type :: ctype where
  "operation_request_type = Struct [request_header_type, U64, U64]"
definition reserved_create_request_type :: ctype where
  "reserved_create_request_type = Struct [operation_request_type, U64, U32, U32, U16, U16, U32]"
definition reserved_delete_request_type :: ctype where
  "reserved_delete_request_type = Struct [operation_request_type, U32, U32]"
definition operation_response_type :: ctype where
  "operation_response_type =
     Struct [response_header_type, U64, U64, U32, U32, U32, U32, U8, U8, U8, U8, U32]"
definition disk_state_type :: ctype where
  "disk_state_type = Struct [disk_info_type, U64, U32, U32]"
definition state_response_type :: ctype where
  "state_response_type =
     Struct [response_header_type, U64, U64, U32, U32, Arr MAXIMUM_DISK_COUNT disk_state_type]"

lemmas wire_type_defs = request_header_type_def response_header_type_def
  query_version_response_type_def create_request_type_def create_response_type_def
  delete_request_type_def disk_info_type_def list_response_type_def reserve_request_type_def
  operation_request_type_def reserved_create_request_type_def reserved_delete_request_type_def
  operation_response_type_def disk_state_type_def state_response_type_def MAXIMUM_DISK_COUNT_def

text \<open>The compile-time assertions of protocol.rs, as (type, asserted size) pairs.\<close>

definition abi_assertions :: "(ctype \<times> nat) list" where
  "abi_assertions =
    [(request_header_type, 24), (response_header_type, 24), (query_version_response_type, 40),
     (create_request_type, 48), (create_response_type, 32), (delete_request_type, 32),
     (disk_info_type, 32), (list_response_type, 544), (reserve_request_type, 32),
     (operation_request_type, 40), (reserved_create_request_type, 64),
     (reserved_delete_request_type, 48), (operation_response_type, 64), (disk_state_type, 48),
     (state_response_type, 816)]"

text \<open>
  The header types are read at offset zero and all sizes are those the transport uses: kept as
  rewrite rules, so that the structures need not be unfolded again.
\<close>

lemma wire_sizes [simp]:
  "size_of request_header_type = 24" "size_of response_header_type = 24"
  "size_of query_version_response_type = 40" "size_of reserve_request_type = 32"
  "size_of operation_request_type = 40" "size_of reserved_create_request_type = 64"
  "size_of reserved_delete_request_type = 48" "size_of operation_response_type = 64"
  "size_of state_response_type = 816"
  by (simp_all add: wire_type_defs align_up_def)

section \<open>The meaning of a response\<close>

definition is_valid_reservation :: "operation_response \<Rightarrow> bool" where
  "is_valid_reservation r \<longleftrightarrow>
     or_adapter_instance r \<noteq> 0
     \<and> or_operation_id r \<noteq> 0
     \<and> (or_mutation r = operation_code Create_Disk \<or> or_mutation r = operation_code Delete_Disk)
     \<and> or_state r = state_code State_Reserved"

definition matches_operation :: "operation_response \<Rightarrow> u64 \<Rightarrow> u64 \<Rightarrow> operation \<Rightarrow> bool" where
  "matches_operation r inst ident mutation \<longleftrightarrow>
     or_adapter_instance r = inst
     \<and> or_operation_id r = ident
     \<and> or_mutation r = operation_code mutation"

definition is_valid_created_disk :: "operation_response \<Rightarrow> bool" where
  "is_valid_created_disk r \<longleftrightarrow>
     or_adapter_instance r \<noteq> 0
     \<and> or_operation_id r \<noteq> 0
     \<and> or_mutation r = operation_code Create_Disk
     \<and> or_state r = state_code State_Succeeded
     \<and> or_result_status r = 0
     \<and> or_device_id r \<noteq> 0
     \<and> or_path_id r = 0
     \<and> or_target_id r = 0
     \<and> unat (or_lun r) < MAXIMUM_DISK_COUNT"

definition is_valid_state :: "state_response \<Rightarrow> bool" where
  "is_valid_state r \<longleftrightarrow>
     sr_adapter_instance r \<noteq> 0 \<and> unat (sr_disk_count r) \<le> length (sr_disks r)"

text \<open>\<open>&state.disks[..state.disk_count as usize]\<close>, in range for a valid response.\<close>

definition live_disks :: "state_response \<Rightarrow> disk_state list" where
  "live_disks r = take (unat (sr_disk_count r)) (sr_disks r)"

text \<open>
  A reserved handle is never a finished create, and what is accepted as a created disk lies on
  one of the sixteen LUNs of target zero.
\<close>

lemma reservation_not_created: "is_valid_reservation r \<Longrightarrow> \<not> is_valid_created_disk r"
  by (simp add: is_valid_reservation_def is_valid_created_disk_def)

end
