(* ===== verification/Wire.thy ===== *)
theory Wire
  imports Protocol
begin

text \<open>
  The bytes of the wire structures. adapter/mod.rs copies a \<open>repr(C)\<close> request into the control
  buffer and reads a response back with \<open>read_unaligned\<close>; both sides are little-endian. Each
  structure has an encoder (its fields in order) and a decoder (each field at its \<open>repr(C)\<close>
  offset), and is an interpretation of the locale \<open>wire_struct\<close>, which states what the unsafe
  traits of adapter/control_operation.rs promise: the encoding has exactly the declared size
  (no padding), every bit pattern decodes, and decoding inverts encoding.
\<close>

section \<open>Fields\<close>

definition u8_bytes :: "u8 \<Rightarrow> u8 list" where "u8_bytes w = [w]"
definition u16_bytes :: "u16 \<Rightarrow> u8 list" where "u16_bytes w = le_bytes 2 (unat w)"
definition u32_bytes :: "u32 \<Rightarrow> u8 list" where "u32_bytes w = le_bytes 4 (unat w)"
definition u64_bytes :: "u64 \<Rightarrow> u8 list" where "u64_bytes w = le_bytes 8 (unat w)"

definition slice :: "nat \<Rightarrow> nat \<Rightarrow> u8 list \<Rightarrow> u8 list" where
  "slice off n bs = take n (drop off bs)"

definition u8_at :: "nat \<Rightarrow> u8 list \<Rightarrow> u8" where
  "u8_at off bs = word_of_nat (le_value (slice off 1 bs))"
definition u16_at :: "nat \<Rightarrow> u8 list \<Rightarrow> u16" where
  "u16_at off bs = word_of_nat (le_value (slice off 2 bs))"
definition u32_at :: "nat \<Rightarrow> u8 list \<Rightarrow> u32" where
  "u32_at off bs = word_of_nat (le_value (slice off 4 bs))"
definition u64_at :: "nat \<Rightarrow> u8 list \<Rightarrow> u64" where
  "u64_at off bs = word_of_nat (le_value (slice off 8 bs))"

lemma length_field_bytes [simp]:
  "length (u8_bytes a) = 1" "length (u16_bytes b) = 2" "length (u32_bytes c) = 4"
  "length (u64_bytes d) = 8"
  by (simp_all add: u8_bytes_def u16_bytes_def u32_bytes_def u64_bytes_def)

lemma length_slice [simp]: "off + n \<le> length bs \<Longrightarrow> length (slice off n bs) = n"
  by (simp add: slice_def)

lemma slice_append_skip: "length xs \<le> off \<Longrightarrow> slice off n (xs @ ys) = slice (off - length xs) n ys"
  by (simp add: slice_def)

lemma slice_append_here: "n = length xs \<Longrightarrow> slice 0 n (xs @ ys) = xs"
  by (simp add: slice_def)

lemma slice_join: "j = i + a \<Longrightarrow> slice i a bs @ slice j b bs = slice i (a + b) bs"
  by (simp add: slice_def take_add add.commute)

lemma slice_join_rest:
  "j = i + a \<Longrightarrow> slice i a bs @ slice j b bs @ rest = slice i (a + b) bs @ rest"
  by (simp add: slice_def take_add add.commute)

lemma slice_drop: "slice i n (drop k bs) = slice (i + k) n bs"
  by (simp add: slice_def)

lemma slice_take: "i + n \<le> m \<Longrightarrow> slice i n (take m bs) = slice i n bs"
  by (simp add: slice_def drop_take)

lemma slice_slice: "j + k \<le> n \<Longrightarrow> slice j k (slice i n bs) = slice (i + j) k bs"
  by (simp add: slice_def take_drop min_def add.commute add.left_commute)

lemma le_roundtrip:
  fixes w :: "'a::len word"
  assumes "LENGTH('a) = 8 * k"
  shows "word_of_nat (le_value (le_bytes k (unat w))) = w"
proof -
  have "256 ^ k = (2::nat) ^ LENGTH('a)"
    by (simp add: assms power_mult)
  then have "unat w < 256 ^ k"
    using unsigned_less [of w, where 'a = nat] by simp
  then show ?thesis
    by (simp add: le_value_bytes)
qed

lemma le_bytes_of_word:
  assumes "LENGTH('a::len) = 8 * length bs"
  shows "le_bytes (length bs) (unat (word_of_nat (le_value bs) :: 'a word)) = bs"
proof -
  have "256 ^ length bs = (2::nat) ^ LENGTH('a)"
    by (simp add: assms power_mult)
  then have "unat (word_of_nat (le_value bs) :: 'a word) = le_value bs"
    using le_value_less [of bs] by (simp add: unat_of_nat)
  then show ?thesis
    by (simp add: le_bytes_value)
qed

text \<open>A field reads back where it was written, also when it follows other fields.\<close>

lemma field_at_here [simp]:
  "u8_at 0 (u8_bytes a @ rest) = a" "u16_at 0 (u16_bytes b @ rest) = b"
  "u32_at 0 (u32_bytes c @ rest) = c" "u64_at 0 (u64_bytes d @ rest) = d"
  by (simp_all add: u8_at_def u16_at_def u32_at_def u64_at_def slice_append_here le_roundtrip
      u16_bytes_def u32_bytes_def u64_bytes_def u8_bytes_def slice_def)

lemma field_at_skip:
  assumes "length xs \<le> off"
  shows "u8_at off (xs @ ys) = u8_at (off - length xs) ys"
    and "u16_at off (xs @ ys) = u16_at (off - length xs) ys"
    and "u32_at off (xs @ ys) = u32_at (off - length xs) ys"
    and "u64_at off (xs @ ys) = u64_at (off - length xs) ys"
  using assms by (simp_all add: u8_at_def u16_at_def u32_at_def u64_at_def slice_append_skip)

lemma u8_bytes_at: "off + 1 \<le> length bs \<Longrightarrow> u8_bytes (u8_at off bs) = slice off 1 bs"
  by (cases "drop off bs") (simp_all add: u8_bytes_def u8_at_def slice_def)

lemma u16_bytes_at: "off + 2 \<le> length bs \<Longrightarrow> u16_bytes (u16_at off bs) = slice off 2 bs"
  using le_bytes_of_word [where 'a = 16 and bs = "slice off 2 bs"]
  by (simp add: u16_bytes_def u16_at_def)

lemma u32_bytes_at: "off + 4 \<le> length bs \<Longrightarrow> u32_bytes (u32_at off bs) = slice off 4 bs"
  using le_bytes_of_word [where 'a = 32 and bs = "slice off 4 bs"]
  by (simp add: u32_bytes_def u32_at_def)

lemma u64_bytes_at: "off + 8 \<le> length bs \<Longrightarrow> u64_bytes (u64_at off bs) = slice off 8 bs"
  using le_bytes_of_word [where 'a = 64 and bs = "slice off 8 bs"]
  by (simp add: u64_bytes_def u64_at_def)

lemma field_at_take:
  "off + 1 \<le> n \<Longrightarrow> u8_at off (take n bs) = u8_at off bs"
  "off + 2 \<le> n \<Longrightarrow> u16_at off (take n bs) = u16_at off bs"
  "off + 4 \<le> n \<Longrightarrow> u32_at off (take n bs) = u32_at off bs"
  "off + 8 \<le> n \<Longrightarrow> u64_at off (take n bs) = u64_at off bs"
  by (simp_all add: u8_at_def u16_at_def u32_at_def u64_at_def slice_def drop_take)

lemmas slice_simps = field_at_skip u8_bytes_at u16_bytes_at u32_bytes_at u64_bytes_at
  slice_join slice_join_rest slice_drop

text \<open>An array field: the elements one after the other.\<close>

fun dec_array :: "(u8 list \<Rightarrow> 'a) \<Rightarrow> nat \<Rightarrow> nat \<Rightarrow> u8 list \<Rightarrow> 'a list" where
  "dec_array dec sz 0 bs = []"
| "dec_array dec sz (Suc n) bs = dec bs # dec_array dec sz n (drop sz bs)"

lemma length_dec_array [simp]: "length (dec_array dec sz n bs) = n"
  by (induction n arbitrary: bs) auto

section \<open>The contract of a wire structure\<close>

text \<open>
  \<open>wire_struct\<close>: the encoding has the declared size, decoding inverts it and reads no byte past
  the declared size, and accepts every bit pattern. \<open>packed_wire_struct\<close>: moreover every byte of
  the structure is a field's, so decoding and encoding again gives the same bytes.
\<close>

locale wire_struct =
  fixes enc :: "'a \<Rightarrow> u8 list" and dec :: "u8 list \<Rightarrow> 'a" and wire_size :: nat
    and wf :: "'a \<Rightarrow> bool"
  assumes length_enc: "wf x \<Longrightarrow> length (enc x) = wire_size"
    and dec_enc: "wf x \<Longrightarrow> dec (enc x @ rest) = x"
    and dec_take: "dec (take wire_size bs) = dec bs"
    and wf_dec: "wire_size \<le> length bs \<Longrightarrow> wf (dec bs)"
begin

lemma dec_enc_alone: "wf x \<Longrightarrow> dec (enc x) = x"
  using dec_enc [of x "[]"] by simp

lemma enc_inj: "wf x \<Longrightarrow> wf y \<Longrightarrow> enc x = enc y \<longleftrightarrow> x = y"
  by (metis dec_enc_alone)

lemma dec_take_more: "wire_size \<le> n \<Longrightarrow> dec (take n bs) = dec bs"
  by (metis dec_take min.absorb1 take_take)

lemma dec_array_enc:
  "list_all wf xs \<Longrightarrow> dec_array dec wire_size (length xs) (concat (map enc xs) @ rest) = xs"
  by (induction xs) (simp_all add: dec_enc length_enc)

lemma length_enc_array:
  "list_all wf xs \<Longrightarrow> length (concat (map enc xs)) = length xs * wire_size"
  by (induction xs) (simp_all add: length_enc)

lemma dec_array_take:
  "n * wire_size \<le> m \<Longrightarrow> dec_array dec wire_size n (take m bs) = dec_array dec wire_size n bs"
  by (induction n arbitrary: m bs) (simp_all add: dec_take_more drop_take)

lemma dec_prefix_cong: "wire_size \<le> n \<Longrightarrow> take n bs = take n cs \<Longrightarrow> dec bs = dec cs"
  by (metis dec_take min.absorb1 take_take)

end

locale packed_wire_struct = wire_struct +
  assumes enc_dec: "wire_size \<le> length bs \<Longrightarrow> enc (dec bs) = slice 0 wire_size bs"
begin

lemma dec_inj:
  "length bs = wire_size \<Longrightarrow> length cs = wire_size \<Longrightarrow> dec bs = dec cs \<longleftrightarrow> bs = cs"
  by (metis enc_dec order_refl take_all slice_def drop_0)

end

section \<open>The structures\<close>

definition enc_request_header :: "request_header \<Rightarrow> u8 list" where
  "enc_request_header x =
     u32_bytes (rq_struct_size x) @ u32_bytes (rq_protocol_version x) @
     u32_bytes (rq_operation x) @ u32_bytes (rq_flags x) @
     u64_bytes (rq_correlation_id x)"

definition dec_request_header :: "u8 list \<Rightarrow> request_header" where
  "dec_request_header bs = \<lparr>
     rq_struct_size = u32_at 0 bs, rq_protocol_version = u32_at 4 bs,
     rq_operation = u32_at 8 bs, rq_flags = u32_at 12 bs,
     rq_correlation_id = u64_at 16 bs\<rparr>"

interpretation request_header_wire: packed_wire_struct enc_request_header dec_request_header 24 "\<lambda>_. True"
  by unfold_locales (simp_all add: enc_request_header_def dec_request_header_def slice_simps field_at_take)

lemmas [simp] = request_header_wire.length_enc request_header_wire.dec_enc request_header_wire.dec_take_more request_header_wire.enc_dec

definition enc_response_header :: "response_header \<Rightarrow> u8 list" where
  "enc_response_header x =
     u32_bytes (rs_struct_size x) @ u32_bytes (rs_protocol_version x) @
     u32_bytes (rs_operation x) @ u32_bytes (rs_status x) @
     u64_bytes (rs_correlation_id x)"

definition dec_response_header :: "u8 list \<Rightarrow> response_header" where
  "dec_response_header bs = \<lparr>
     rs_struct_size = u32_at 0 bs, rs_protocol_version = u32_at 4 bs,
     rs_operation = u32_at 8 bs, rs_status = u32_at 12 bs,
     rs_correlation_id = u64_at 16 bs\<rparr>"

interpretation response_header_wire: packed_wire_struct enc_response_header dec_response_header 24 "\<lambda>_. True"
  by unfold_locales (simp_all add: enc_response_header_def dec_response_header_def slice_simps field_at_take)

lemmas [simp] = response_header_wire.length_enc response_header_wire.dec_enc response_header_wire.dec_take_more response_header_wire.enc_dec

definition enc_query_version_response :: "query_version_response \<Rightarrow> u8 list" where
  "enc_query_version_response x =
     enc_response_header (qv_header x) @ u32_bytes (qv_version_major x) @
     u32_bytes (qv_version_minor x) @ u32_bytes (qv_capabilities x) @
     u32_bytes (qv_maximum_disk_count x)"

definition dec_query_version_response :: "u8 list \<Rightarrow> query_version_response" where
  "dec_query_version_response bs = \<lparr>
     qv_header = dec_response_header bs, qv_version_major = u32_at 24 bs,
     qv_version_minor = u32_at 28 bs, qv_capabilities = u32_at 32 bs,
     qv_maximum_disk_count = u32_at 36 bs\<rparr>"

interpretation query_version_response_wire: packed_wire_struct enc_query_version_response dec_query_version_response 40 "\<lambda>_. True"
  by unfold_locales (simp_all add: enc_query_version_response_def dec_query_version_response_def slice_simps field_at_take)

lemmas [simp] = query_version_response_wire.length_enc query_version_response_wire.dec_enc query_version_response_wire.dec_take_more query_version_response_wire.enc_dec

definition enc_create_request :: "create_request \<Rightarrow> u8 list" where
  "enc_create_request x =
     enc_request_header (cq_header x) @ u64_bytes (cq_size_bytes x) @
     u32_bytes (cq_logical_sector_size x) @ u32_bytes (cq_media_kind x) @
     u16_bytes (cq_requested_drive_letter x) @ u16_bytes (cq_reserved16 x) @
     u32_bytes (cq_reserved32 x)"

definition dec_create_request :: "u8 list \<Rightarrow> create_request" where
  "dec_create_request bs = \<lparr>
     cq_header = dec_request_header bs, cq_size_bytes = u64_at 24 bs,
     cq_logical_sector_size = u32_at 32 bs, cq_media_kind = u32_at 36 bs,
     cq_requested_drive_letter = u16_at 40 bs, cq_reserved16 = u16_at 42 bs,
     cq_reserved32 = u32_at 44 bs\<rparr>"

interpretation create_request_wire: packed_wire_struct enc_create_request dec_create_request 48 "\<lambda>_. True"
  by unfold_locales (simp_all add: enc_create_request_def dec_create_request_def slice_simps field_at_take)

lemmas [simp] = create_request_wire.length_enc create_request_wire.dec_enc create_request_wire.dec_take_more create_request_wire.enc_dec

definition enc_create_response :: "create_response \<Rightarrow> u8 list" where
  "enc_create_response x =
     enc_response_header (cr_header x) @ u32_bytes (cr_device_id x) @
     u8_bytes (cr_path_id x) @ u8_bytes (cr_target_id x) @ u8_bytes (cr_lun x) @
     u8_bytes (cr_reserved x)"

definition dec_create_response :: "u8 list \<Rightarrow> create_response" where
  "dec_create_response bs = \<lparr>
     cr_header = dec_response_header bs, cr_device_id = u32_at 24 bs,
     cr_path_id = u8_at 28 bs, cr_target_id = u8_at 29 bs, cr_lun = u8_at 30 bs,
     cr_reserved = u8_at 31 bs\<rparr>"

interpretation create_response_wire: packed_wire_struct enc_create_response dec_create_response 32 "\<lambda>_. True"
  by unfold_locales (simp_all add: enc_create_response_def dec_create_response_def slice_simps field_at_take)

lemmas [simp] = create_response_wire.length_enc create_response_wire.dec_enc create_response_wire.dec_take_more create_response_wire.enc_dec

definition enc_delete_request :: "delete_request \<Rightarrow> u8 list" where
  "enc_delete_request x =
     enc_request_header (dq_header x) @ u32_bytes (dq_device_id x) @
     u32_bytes (dq_reserved x)"

definition dec_delete_request :: "u8 list \<Rightarrow> delete_request" where
  "dec_delete_request bs = \<lparr>
     dq_header = dec_request_header bs, dq_device_id = u32_at 24 bs,
     dq_reserved = u32_at 28 bs\<rparr>"

interpretation delete_request_wire: packed_wire_struct enc_delete_request dec_delete_request 32 "\<lambda>_. True"
  by unfold_locales (simp_all add: enc_delete_request_def dec_delete_request_def slice_simps field_at_take)

lemmas [simp] = delete_request_wire.length_enc delete_request_wire.dec_enc delete_request_wire.dec_take_more delete_request_wire.enc_dec

definition enc_reserve_request :: "reserve_request \<Rightarrow> u8 list" where
  "enc_reserve_request x =
     enc_request_header (rr_header x) @ u32_bytes (rr_mutation x) @
     u32_bytes (rr_reserved x)"

definition dec_reserve_request :: "u8 list \<Rightarrow> reserve_request" where
  "dec_reserve_request bs = \<lparr>
     rr_header = dec_request_header bs, rr_mutation = u32_at 24 bs,
     rr_reserved = u32_at 28 bs\<rparr>"

interpretation reserve_request_wire: packed_wire_struct enc_reserve_request dec_reserve_request 32 "\<lambda>_. True"
  by unfold_locales (simp_all add: enc_reserve_request_def dec_reserve_request_def slice_simps field_at_take)

lemmas [simp] = reserve_request_wire.length_enc reserve_request_wire.dec_enc reserve_request_wire.dec_take_more reserve_request_wire.enc_dec

definition enc_operation_request :: "operation_request \<Rightarrow> u8 list" where
  "enc_operation_request x =
     enc_request_header (oq_header x) @ u64_bytes (oq_adapter_instance x) @
     u64_bytes (oq_operation_id x)"

definition dec_operation_request :: "u8 list \<Rightarrow> operation_request" where
  "dec_operation_request bs = \<lparr>
     oq_header = dec_request_header bs, oq_adapter_instance = u64_at 24 bs,
     oq_operation_id = u64_at 32 bs\<rparr>"

interpretation operation_request_wire: packed_wire_struct enc_operation_request dec_operation_request 40 "\<lambda>_. True"
  by unfold_locales (simp_all add: enc_operation_request_def dec_operation_request_def slice_simps field_at_take)

lemmas [simp] = operation_request_wire.length_enc operation_request_wire.dec_enc operation_request_wire.dec_take_more operation_request_wire.enc_dec

definition enc_reserved_create_request :: "reserved_create_request \<Rightarrow> u8 list" where
  "enc_reserved_create_request x =
     enc_operation_request (rc_operation x) @ u64_bytes (rc_size_bytes x) @
     u32_bytes (rc_logical_sector_size x) @ u32_bytes (rc_media_kind x) @
     u16_bytes (rc_requested_drive_letter x) @ u16_bytes (rc_reserved16 x) @
     u32_bytes (rc_reserved32 x)"

definition dec_reserved_create_request :: "u8 list \<Rightarrow> reserved_create_request" where
  "dec_reserved_create_request bs = \<lparr>
     rc_operation = dec_operation_request bs, rc_size_bytes = u64_at 40 bs,
     rc_logical_sector_size = u32_at 48 bs, rc_media_kind = u32_at 52 bs,
     rc_requested_drive_letter = u16_at 56 bs, rc_reserved16 = u16_at 58 bs,
     rc_reserved32 = u32_at 60 bs\<rparr>"

interpretation reserved_create_request_wire: packed_wire_struct enc_reserved_create_request dec_reserved_create_request 64 "\<lambda>_. True"
  by unfold_locales (simp_all add: enc_reserved_create_request_def dec_reserved_create_request_def slice_simps field_at_take)

lemmas [simp] = reserved_create_request_wire.length_enc reserved_create_request_wire.dec_enc reserved_create_request_wire.dec_take_more reserved_create_request_wire.enc_dec

definition enc_reserved_delete_request :: "reserved_delete_request \<Rightarrow> u8 list" where
  "enc_reserved_delete_request x =
     enc_operation_request (rd_operation x) @ u32_bytes (rd_device_id x) @
     u32_bytes (rd_reserved x)"

definition dec_reserved_delete_request :: "u8 list \<Rightarrow> reserved_delete_request" where
  "dec_reserved_delete_request bs = \<lparr>
     rd_operation = dec_operation_request bs, rd_device_id = u32_at 40 bs,
     rd_reserved = u32_at 44 bs\<rparr>"

interpretation reserved_delete_request_wire: packed_wire_struct enc_reserved_delete_request dec_reserved_delete_request 48 "\<lambda>_. True"
  by unfold_locales (simp_all add: enc_reserved_delete_request_def dec_reserved_delete_request_def slice_simps field_at_take)

lemmas [simp] = reserved_delete_request_wire.length_enc reserved_delete_request_wire.dec_enc reserved_delete_request_wire.dec_take_more reserved_delete_request_wire.enc_dec

definition enc_operation_response :: "operation_response \<Rightarrow> u8 list" where
  "enc_operation_response x =
     enc_response_header (or_header x) @ u64_bytes (or_adapter_instance x) @
     u64_bytes (or_operation_id x) @ u32_bytes (or_mutation x) @
     u32_bytes (or_state x) @ u32_bytes (or_result_status x) @
     u32_bytes (or_device_id x) @ u8_bytes (or_path_id x) @ u8_bytes (or_target_id x) @
     u8_bytes (or_lun x) @ u8_bytes (or_reserved8 x) @ u32_bytes (or_reserved32 x)"

definition dec_operation_response :: "u8 list \<Rightarrow> operation_response" where
  "dec_operation_response bs = \<lparr>
     or_header = dec_response_header bs, or_adapter_instance = u64_at 24 bs,
     or_operation_id = u64_at 32 bs, or_mutation = u32_at 40 bs,
     or_state = u32_at 44 bs, or_result_status = u32_at 48 bs,
     or_device_id = u32_at 52 bs, or_path_id = u8_at 56 bs, or_target_id = u8_at 57 bs,
     or_lun = u8_at 58 bs, or_reserved8 = u8_at 59 bs, or_reserved32 = u32_at 60 bs\<rparr>"

interpretation operation_response_wire: packed_wire_struct enc_operation_response dec_operation_response 64 "\<lambda>_. True"
  by unfold_locales (simp_all add: enc_operation_response_def dec_operation_response_def slice_simps field_at_take)

lemmas [simp] = operation_response_wire.length_enc operation_response_wire.dec_enc operation_response_wire.dec_take_more operation_response_wire.enc_dec

definition enc_disk_info :: "disk_info \<Rightarrow> u8 list" where
  "enc_disk_info x =
     u32_bytes (di_device_id x) @ u8_bytes (di_path_id x) @ u8_bytes (di_target_id x) @
     u8_bytes (di_lun x) @ u8_bytes (di_reserved8 x) @ u64_bytes (di_size_bytes x) @
     u32_bytes (di_logical_sector_size x) @ u32_bytes (di_media_kind x) @
     u16_bytes (di_requested_drive_letter x) @ u16_bytes (di_reserved16 x) @
     replicate 4 0"

definition dec_disk_info :: "u8 list \<Rightarrow> disk_info" where
  "dec_disk_info bs = \<lparr>
     di_device_id = u32_at 0 bs, di_path_id = u8_at 4 bs, di_target_id = u8_at 5 bs,
     di_lun = u8_at 6 bs, di_reserved8 = u8_at 7 bs, di_size_bytes = u64_at 8 bs,
     di_logical_sector_size = u32_at 16 bs, di_media_kind = u32_at 20 bs,
     di_requested_drive_letter = u16_at 24 bs, di_reserved16 = u16_at 26 bs\<rparr>"

interpretation disk_info_wire: wire_struct enc_disk_info dec_disk_info 32 "\<lambda>_. True"
  by unfold_locales (simp_all add: enc_disk_info_def dec_disk_info_def slice_simps field_at_take)

lemmas [simp] = disk_info_wire.length_enc disk_info_wire.dec_enc disk_info_wire.dec_take_more

definition enc_disk_state :: "disk_state \<Rightarrow> u8 list" where
  "enc_disk_state x =
     enc_disk_info (ds_disk x) @ u64_bytes (ds_create_operation_id x) @
     u32_bytes (ds_state x) @ u32_bytes (ds_reserved x)"

definition dec_disk_state :: "u8 list \<Rightarrow> disk_state" where
  "dec_disk_state bs = \<lparr>
     ds_disk = dec_disk_info bs, ds_create_operation_id = u64_at 32 bs,
     ds_state = u32_at 40 bs, ds_reserved = u32_at 44 bs\<rparr>"

interpretation disk_state_wire: wire_struct enc_disk_state dec_disk_state 48 "\<lambda>_. True"
  by unfold_locales (simp_all add: enc_disk_state_def dec_disk_state_def slice_simps field_at_take)

lemmas [simp] = disk_state_wire.length_enc disk_state_wire.dec_enc disk_state_wire.dec_take_more


text \<open>
  The two responses that carry the sixteen-element disk table. Their encoders stand for the
  driver's side of the protocol; the padding bytes of \<open>DiskInfo\<close> are written as zero.
\<close>

definition enc_list_response :: "list_response \<Rightarrow> u8 list" where
  "enc_list_response x =
     enc_response_header (lr_header x) @ u32_bytes (lr_disk_count x) @ u32_bytes (lr_reserved x)
     @ concat (map enc_disk_info (lr_disks x))"

definition dec_list_response :: "u8 list \<Rightarrow> list_response" where
  "dec_list_response bs = \<lparr>
     lr_header = dec_response_header bs, lr_disk_count = u32_at 24 bs, lr_reserved = u32_at 28 bs,
     lr_disks = dec_array dec_disk_info 32 MAXIMUM_DISK_COUNT (drop 32 bs)\<rparr>"

definition enc_state_response :: "state_response \<Rightarrow> u8 list" where
  "enc_state_response x =
     enc_response_header (sr_header x) @ u64_bytes (sr_adapter_instance x)
     @ u64_bytes (sr_allocated_bytes x) @ u32_bytes (sr_disk_count x)
     @ u32_bytes (sr_pending_operations x) @ concat (map enc_disk_state (sr_disks x))"

definition dec_state_response :: "u8 list \<Rightarrow> state_response" where
  "dec_state_response bs = \<lparr>
     sr_header = dec_response_header bs, sr_adapter_instance = u64_at 24 bs,
     sr_allocated_bytes = u64_at 32 bs, sr_disk_count = u32_at 40 bs,
     sr_pending_operations = u32_at 44 bs,
     sr_disks = dec_array dec_disk_state 48 MAXIMUM_DISK_COUNT (drop 48 bs)\<rparr>"

lemma list_all_top: "list_all (\<lambda>_. True) xs"
  by (simp add: list_all_iff)

lemmas disk_info_array = disk_info_wire.dec_array_enc [OF list_all_top]
  disk_info_wire.length_enc_array [OF list_all_top]
lemmas disk_state_array = disk_state_wire.dec_array_enc [OF list_all_top]
  disk_state_wire.length_enc_array [OF list_all_top]

interpretation list_response_wire: wire_struct enc_list_response dec_list_response 544
  "\<lambda>x. length (lr_disks x) = MAXIMUM_DISK_COUNT"
proof unfold_locales
  fix x :: list_response and rest assume "length (lr_disks x) = MAXIMUM_DISK_COUNT"
  then show "dec_list_response (enc_list_response x @ rest) = x"
    using disk_info_array(1) [of "lr_disks x" rest]
    by (simp add: enc_list_response_def dec_list_response_def slice_simps)
qed (simp_all add: enc_list_response_def dec_list_response_def disk_info_array(2)
    MAXIMUM_DISK_COUNT_def field_at_take drop_take disk_info_wire.dec_array_take)

interpretation state_response_wire: wire_struct enc_state_response dec_state_response 816
  "\<lambda>x. length (sr_disks x) = MAXIMUM_DISK_COUNT"
proof unfold_locales
  fix x :: state_response and rest assume "length (sr_disks x) = MAXIMUM_DISK_COUNT"
  then show "dec_state_response (enc_state_response x @ rest) = x"
    using disk_state_array(1) [of "sr_disks x" rest]
    by (simp add: enc_state_response_def dec_state_response_def slice_simps)
qed (simp_all add: enc_state_response_def dec_state_response_def disk_state_array(2)
    MAXIMUM_DISK_COUNT_def field_at_take drop_take disk_state_wire.dec_array_take)

section \<open>The control header\<close>

text \<open>
  \<open>SRB_IO_CONTROL\<close> of the Windows SDK, with the fields and widths adapter/mod.rs writes and
  reads; it precedes every payload in the control buffer.
\<close>

record srb_io_control =
  srb_header_length :: u32
  srb_signature :: "u8 list"
  srb_timeout :: u32
  srb_control_code :: u32
  srb_return_code :: u32
  srb_length :: u32

definition srb_io_control_type :: ctype where
  "srb_io_control_type = Struct [U32, Arr 8 U8, U32, U32, U32, U32]"

lemma srb_io_control_size [simp]: "size_of srb_io_control_type = 28"
  by (simp add: srb_io_control_type_def align_up_def)

definition enc_srb_io_control :: "srb_io_control \<Rightarrow> u8 list" where
  "enc_srb_io_control x =
     u32_bytes (srb_header_length x) @ srb_signature x @ u32_bytes (srb_timeout x)
     @ u32_bytes (srb_control_code x) @ u32_bytes (srb_return_code x) @ u32_bytes (srb_length x)"

definition dec_srb_io_control :: "u8 list \<Rightarrow> srb_io_control" where
  "dec_srb_io_control bs = \<lparr>
     srb_header_length = u32_at 0 bs, srb_signature = slice 4 8 bs, srb_timeout = u32_at 12 bs,
     srb_control_code = u32_at 16 bs, srb_return_code = u32_at 20 bs, srb_length = u32_at 24 bs\<rparr>"

interpretation srb_io_control_wire: packed_wire_struct enc_srb_io_control dec_srb_io_control 28
  "\<lambda>x. length (srb_signature x) = 8"
  by unfold_locales
     (simp_all add: enc_srb_io_control_def dec_srb_io_control_def slice_simps field_at_take
       slice_append_skip slice_append_here slice_take)

section \<open>Properties\<close>

text \<open>
  The \<open>repr(C)\<close> layout of every wire structure has the size that protocol.rs asserts at
  compile time (and the driver's header repeats), and no request has padding, so all the bytes
  that are sent are initialised fields.
\<close>

theorem abi_layout:
  "list_all (\<lambda>(t, asserted). size_of t = asserted) abi_assertions
   \<and> list_all (\<lambda>t. packed_size t = size_of t)
       [request_header_type, create_request_type, delete_request_type, reserve_request_type,
        operation_request_type, reserved_create_request_type, reserved_delete_request_type]"
  by (simp add: abi_assertions_def wire_type_defs align_up_def)

text \<open>
  The structures a mutation exchanges survive the wire: decoding an encoding gives the
  structure back, and encoding what was decoded from bytes of the right length gives the bytes
  back, so distinct bytes never read as the same request or response.
\<close>

theorem mutation_messages_roundtrip:
  "dec_reserved_create_request (enc_reserved_create_request q) = q
   \<and> dec_reserved_delete_request (enc_reserved_delete_request d) = d
   \<and> dec_operation_response (enc_operation_response r) = r
   \<and> enc_reserved_create_request (dec_reserved_create_request (take 64 (bs @ replicate 64 0)))
       = take 64 (bs @ replicate 64 0)
   \<and> enc_operation_response (dec_operation_response (take 64 (bs @ replicate 64 0)))
       = take 64 (bs @ replicate 64 0)"
  using reserved_create_request_wire.dec_enc_alone [of q]
    reserved_delete_request_wire.dec_enc_alone [of d] operation_response_wire.dec_enc_alone [of r]
    reserved_create_request_wire.enc_dec [of "take 64 (bs @ replicate 64 0)"]
    operation_response_wire.enc_dec [of "take 64 (bs @ replicate 64 0)"]
  by (simp add: slice_def del: take_append)

text \<open>
  So does an inventory: all sixteen slots of a state response come back as they were sent,
  although the disk entries have padding that the decoder skips.
\<close>

theorem inventory_roundtrip:
  assumes "length (sr_disks r) = MAXIMUM_DISK_COUNT"
  shows "dec_state_response (enc_state_response r) = r \<and> length (enc_state_response r) = 816"
  using state_response_wire.dec_enc_alone [of r, OF assms] state_response_wire.length_enc [of r, OF assms]
  by simp

theorem inventory_roundtrip_witness:
  "\<exists>r. length (sr_disks r) = 16 \<and> dec_state_response (enc_state_response r) = r"
proof -
  define d :: disk_state where "d = \<lparr>ds_disk = \<lparr>di_device_id = 9, di_path_id = 0, di_target_id = 0,
    di_lun = 3, di_reserved8 = 0, di_size_bytes = 1048576, di_logical_sector_size = 512,
    di_media_kind = 1, di_requested_drive_letter = 82, di_reserved16 = 0\<rparr>,
    ds_create_operation_id = 7, ds_state = 1, ds_reserved = 0\<rparr>"
  define r :: state_response where "r = \<lparr>sr_header = \<lparr>rs_struct_size = 816,
      rs_protocol_version = 1, rs_operation = operation_code List_State, rs_status = 0,
      rs_correlation_id = 2\<rparr>, sr_adapter_instance = 123, sr_allocated_bytes = 1048576,
    sr_disk_count = 1, sr_pending_operations = 0, sr_disks = replicate 16 d\<rparr>"
  have "length (sr_disks r) = MAXIMUM_DISK_COUNT"
    by (simp add: r_def MAXIMUM_DISK_COUNT_def)
  from inventory_roundtrip [OF this] this show ?thesis
    by (auto simp: MAXIMUM_DISK_COUNT_def)
qed

end
