(* ===== verification/Recovery.thy ===== *)
theory Recovery
  imports Effects Protocol
begin

text \<open>
  cli/src/driver/windows/recovery.rs: how a reserved mutation is driven to an outcome when the
  transport may lose requests or replies. \<open>resolve_operation\<close> submits the operation, queries it
  after an ambiguous failure, submits again only after the driver says the handle is still
  merely reserved, and gives up at the deadline with an error that carries the handle.

  The trait \<open>RecoveryAttempt\<close> is the record \<open>recovery_attempt\<close> of its three methods; the contract
  that its deadline expires is the locale \<open>bounded_attempt\<close>, in which termination is proved.
\<close>

section \<open>Handles and replies\<close>

text \<open>\<open>TryFrom<OperationResponse> for OperationHandle\<close>.\<close>

definition handle_of_response :: "operation_response \<Rightarrow> operation_handle result" where
  "handle_of_response r =
     (if \<not> is_valid_reservation r
      then Err (Msg (lit ''driver returned an invalid operation reservation''))
      else Ok \<lparr>oh_instance = or_adapter_instance r, oh_id = or_operation_id r\<rparr>)"

definition STATUS_DEVICE_BUSY :: i32 where "STATUS_DEVICE_BUSY = 0x80000011"

text \<open>\<open>DriverRejection::is_terminal\<close>: only a busy driver leaves the reservation usable.\<close>

definition is_terminal :: "i32 \<Rightarrow> bool" where
  "is_terminal status \<longleftrightarrow> status \<noteq> STATUS_DEVICE_BUSY"

definition rejects_terminally :: "error \<Rightarrow> bool" where
  "rejects_terminally e = (case downcast_rejection e of None \<Rightarrow> False | Some s \<Rightarrow> is_terminal s)"

datatype recovery_action = Submit | Query

datatype recovery_progress =
    Complete operation_response
  | Still_Reserved
  | Still_Pending
  | Invalid error

text \<open>\<open>OperationHandle::interpret\<close>, its match arms in order.\<close>

definition deleted_message :: "operation_handle \<Rightarrow> operation_response \<Rightarrow> ustring" where
  "deleted_message h r = lit ''operation '' @ dec_digits (unat (oh_id h)) @ lit '' created device ''
     @ dec_digits (unat (or_device_id r)) @ lit '' which has already been deleted''"

definition interpret_reply ::
  "operation_handle \<Rightarrow> operation_response \<Rightarrow> operation \<Rightarrow> recovery_progress result" where
  "interpret_reply h r mutation =
     (if \<not> matches_operation r (oh_instance h) (oh_id h) mutation
      then Ok (Invalid (Msg (lit ''operation query returned a different identity'')))
      else if or_state r = state_code State_Succeeded \<and> or_result_status r = 0
      then Ok (Complete r)
      else if or_state r = state_code State_Failed \<and> is_negative (or_result_status r)
      then Err (Driver_Rejection (or_result_status r))
      else if or_state r = state_code State_Deleted
      then Err (Msg (deleted_message h r))
      else if or_state r = state_code State_Reserved
      then Ok Still_Reserved
      else if or_state r = state_code State_Pending
      then Ok Still_Pending
      else Ok (Invalid (Msg (lit ''driver returned an invalid operation state or result''))))"

section \<open>The errors seen so far\<close>

record recovery_errors =
  re_submission :: "error option"
  re_query :: "error option"

definition no_recovery_errors :: recovery_errors where
  "no_recovery_errors = \<lparr>re_submission = None, re_query = None\<rparr>"

definition record_submission :: "recovery_errors \<Rightarrow> error \<Rightarrow> recovery_errors result" where
  "record_submission errs e =
     (if rejects_terminally e then Err e else Ok (errs\<lparr>re_submission := Some e\<rparr>))"

definition record_query :: "recovery_errors \<Rightarrow> error \<Rightarrow> recovery_errors" where
  "record_query errs e = errs\<lparr>re_query := Some e\<rparr>"

definition unresolved_error :: "recovery_errors \<Rightarrow> operation_handle \<Rightarrow> error" where
  "unresolved_error errs h = Context (Unresolved_Outcome h)
     (case (re_submission errs, re_query errs) of
        (Some e, Some e') \<Rightarrow> recovery_failed e (lit ''operation query also failed'') e'
      | (Some e, None) \<Rightarrow> e
      | (None, Some e') \<Rightarrow> e'
      | (None, None) \<Rightarrow> Msg (lit ''operation remained pending past the recovery deadline''))"

section \<open>The loop\<close>

record ('s, 'e) recovery_attempt =
  ra_submit :: "('s, 'e, operation_response result) io"
  ra_query :: "('s, 'e, operation_response result) io"
  ra_wait_for_retry :: "('s, 'e, bool) io"

text \<open>
  One round of \<open>resolve_operation\<close> after the transport answered: return, query at once (the
  \<open>continue\<close> after an ambiguous submission), or wait and then act again.
\<close>

datatype round = Return "operation_response result" | Requery recovery_errors
  | Retry recovery_action recovery_errors

fun recovery_round ::
  "operation_handle \<Rightarrow> operation \<Rightarrow> recovery_action \<Rightarrow> recovery_errors
     \<Rightarrow> operation_response result \<Rightarrow> round" where
  "recovery_round h mutation Submit errs (Err e) =
     (case record_submission errs e of
        Err e' \<Rightarrow> Return (Err e')
      | Ok errs' \<Rightarrow> Requery errs')"
| "recovery_round h mutation Query errs (Err e) = Retry Query (record_query errs e)"
| "recovery_round h mutation action errs (Ok reply) =
     (case interpret_reply h reply mutation of
        Err e \<Rightarrow> Return (Err e)
      | Ok (Complete r) \<Rightarrow> Return (Ok r)
      | Ok Still_Reserved \<Rightarrow> Retry Submit errs
      | Ok Still_Pending \<Rightarrow> Retry Query errs
      | Ok (Invalid e) \<Rightarrow> Retry Query (record_query errs e))"

definition current_io ::
  "('s, 'e) recovery_attempt \<Rightarrow> recovery_action \<Rightarrow> ('s, 'e, operation_response result) io" where
  "current_io A action = (case action of Submit \<Rightarrow> ra_submit A | Query \<Rightarrow> ra_query A)"

text \<open>The body of the \<open>loop\<close>; it carries the next action and the errors recorded so far.\<close>

fun recovery_step ::
  "('s, 'e) recovery_attempt \<Rightarrow> operation_handle \<Rightarrow> operation \<Rightarrow> recovery_action \<times> recovery_errors
     \<Rightarrow> ('s, 'e, (recovery_action \<times> recovery_errors, operation_response result) flow) io" where
  "recovery_step A h mutation (action, errs) =
     bind_io (current_io A action)
       (\<lambda>current. case recovery_round h mutation action errs current of
          Return r \<Rightarrow> return_io (Break r)
        | Requery errs' \<Rightarrow> return_io (Continue (Query, errs'))
        | Retry action' errs' \<Rightarrow>
            bind_io (ra_wait_for_retry A)
              (\<lambda>again. return_io (if again then Continue (action', errs')
                 else Break (Err (unresolved_error errs' h)))))"

definition resolve_operation ::
  "operation_handle \<Rightarrow> operation \<Rightarrow> ('s, 'e) recovery_attempt
     \<Rightarrow> ('s, 'e, operation_response result) io" where
  "resolve_operation h mutation A = loop_io (recovery_step A h mutation) (Submit, no_recovery_errors)"

section \<open>The protocol of a recovery\<close>

text \<open>
  What an outside observer sees of one recovery: the answers to submissions and queries and
  the outcome of each wait.
\<close>

datatype recovery_event =
    Submitted "operation_response result"
  | Queried "operation_response result"
  | Waited bool

text \<open>
  The specification: an automaton over these events. \<open>confirms\<close>, \<open>refuses\<close> and
  \<open>still_reserved\<close> are what a reply establishes about the operation; anything else leaves it
  unknown, and an unknown outcome is only ever queried again.
\<close>

definition confirms :: "operation_handle \<Rightarrow> operation \<Rightarrow> operation_response \<Rightarrow> bool" where
  "confirms h mutation r \<longleftrightarrow> matches_operation r (oh_instance h) (oh_id h) mutation
     \<and> or_state r = state_code State_Succeeded \<and> or_result_status r = 0"

definition still_reserved :: "operation_handle \<Rightarrow> operation \<Rightarrow> operation_response \<Rightarrow> bool" where
  "still_reserved h mutation r \<longleftrightarrow> matches_operation r (oh_instance h) (oh_id h) mutation
     \<and> or_state r = state_code State_Reserved"

definition refuses :: "operation_handle \<Rightarrow> operation \<Rightarrow> operation_response \<Rightarrow> bool" where
  "refuses h mutation r \<longleftrightarrow> matches_operation r (oh_instance h) (oh_id h) mutation
     \<and> (or_state r = state_code State_Failed \<and> is_negative (or_result_status r)
        \<or> or_state r = state_code State_Deleted)"

definition refusal :: "operation_handle \<Rightarrow> operation_response \<Rightarrow> error" where
  "refusal h r = (if or_state r = state_code State_Failed then Driver_Rejection (or_result_status r)
     else Msg (deleted_message h r))"

datatype outcome = Confirmed operation_response | Refused error | Unresolved

datatype phase = Asking recovery_action | Waiting recovery_action | Finished outcome

fun answer_of :: "recovery_action \<Rightarrow> operation_response result \<Rightarrow> recovery_event" where
  "answer_of Submit c = Submitted c"
| "answer_of Query c = Queried c"

inductive recovery_rel :: "operation_handle \<Rightarrow> operation \<Rightarrow> phase \<Rightarrow> recovery_event \<Rightarrow> phase \<Rightarrow> bool"
  for h :: operation_handle and mutation :: operation where
  confirm: "confirms h mutation r \<Longrightarrow>
    recovery_rel h mutation (Asking a) (answer_of a (Ok r)) (Finished (Confirmed r))"
| refuse: "refuses h mutation r \<Longrightarrow>
    recovery_rel h mutation (Asking a) (answer_of a (Ok r)) (Finished (Refused (refusal h r)))"
| reject: "rejects_terminally e \<Longrightarrow>
    recovery_rel h mutation (Asking Submit) (Submitted (Err e)) (Finished (Refused e))"
| reserved: "still_reserved h mutation r \<Longrightarrow>
    recovery_rel h mutation (Asking a) (answer_of a (Ok r)) (Waiting Submit)"
| unclear: "\<not> confirms h mutation r \<Longrightarrow> \<not> refuses h mutation r \<Longrightarrow> \<not> still_reserved h mutation r \<Longrightarrow>
    recovery_rel h mutation (Asking a) (answer_of a (Ok r)) (Waiting Query)"
| ambiguous: "\<not> rejects_terminally e \<Longrightarrow>
    recovery_rel h mutation (Asking Submit) (Submitted (Err e)) (Asking Query)"
| query_failed: "recovery_rel h mutation (Asking Query) (Queried (Err e)) (Waiting Query)"
| retry: "recovery_rel h mutation (Waiting a) (Waited True) (Asking a)"
| expire: "recovery_rel h mutation (Waiting a) (Waited False) (Finished Unresolved)"

inductive_cases recovery_rel_FinishedE: "recovery_rel h mutation (Finished x) ev p"
inductive_cases recovery_rel_WaitingE: "recovery_rel h mutation (Waiting a) ev p"
inductive_cases recovery_rel_AskingE: "recovery_rel h mutation (Asking a) ev p"
inductive_simps recovery_rel_Waited: "recovery_rel h mutation p (Waited b) p'"

inductive recovery_path ::
  "operation_handle \<Rightarrow> operation \<Rightarrow> phase \<Rightarrow> recovery_event list \<Rightarrow> phase \<Rightarrow> bool"
  for h :: operation_handle and mutation :: operation and p :: phase where
  path_nil: "recovery_path h mutation p [] p"
| path_snoc: "recovery_path h mutation p t p' \<Longrightarrow> recovery_rel h mutation p' ev p'' \<Longrightarrow>
    recovery_path h mutation p (t @ [ev]) p''"

lemmas recovery_rel_intros = recovery_rel.intros

lemma interpret_reply_cases:
  "interpret_reply h r mutation =
    (if confirms h mutation r then Ok (Complete r)
     else if refuses h mutation r then Err (refusal h r)
     else if still_reserved h mutation r then Ok Still_Reserved
     else if matches_operation r (oh_instance h) (oh_id h) mutation
       \<and> or_state r = state_code State_Pending then Ok Still_Pending
     else Ok (Invalid (if matches_operation r (oh_instance h) (oh_id h) mutation
       then Msg (lit ''driver returned an invalid operation state or result'')
       else Msg (lit ''operation query returned a different identity''))))"
  by (auto simp: interpret_reply_def confirms_def refuses_def still_reserved_def refusal_def)

lemma recovery_round_Ok:
  "recovery_round h mutation a errs (Ok r) =
    (if confirms h mutation r then Return (Ok r)
     else if refuses h mutation r then Return (Err (refusal h r))
     else if still_reserved h mutation r then Retry Submit errs
     else Retry Query (if interpret_reply h r mutation = Ok Still_Pending then errs
       else record_query errs (case interpret_reply h r mutation of Ok (Invalid e) \<Rightarrow> e)))"
  by (simp add: interpret_reply_cases)

lemma recovery_round_Err:
  "recovery_round h mutation a errs (Err e) =
    (case a of Query \<Rightarrow> Retry Query (record_query errs e)
     | Submit \<Rightarrow> if rejects_terminally e then Return (Err e) else Requery (errs\<lparr>re_submission := Some e\<rparr>))"
  by (cases a) (simp_all add: record_submission_def)

declare recovery_round.simps [simp del]

lemmas recovery_round_cases = recovery_round_Ok recovery_round_Err

text \<open>Paths split anywhere, and the first event of a path is a step.\<close>

lemma recovery_path_append:
  "recovery_path h mutation p (xs @ ys) q \<longleftrightarrow>
    (\<exists>p'. recovery_path h mutation p xs p' \<and> recovery_path h mutation p' ys q)" (is "?l \<longleftrightarrow> ?r")
proof
  show "?l \<Longrightarrow> ?r"
  proof (induction ys arbitrary: q rule: rev_induct)
    case (snoc y ys)
    from snoc.prems obtain p' where "recovery_path h mutation p (xs @ ys) p'"
      "recovery_rel h mutation p' y q"
      by (auto elim: recovery_path.cases)
    with snoc.IH show ?case by (blast intro: path_snoc)
  qed (auto intro: path_nil)
  assume ?r
  then obtain p' where "recovery_path h mutation p' ys q" "recovery_path h mutation p xs p'"
    by blast
  then show ?l
    by induction (auto simp flip: append_assoc intro: path_snoc)
qed

lemma recovery_path_Nil [simp]: "recovery_path h mutation p [] q \<longleftrightarrow> p = q"
  by (auto intro: path_nil elim: recovery_path.cases)

lemma recovery_path_single [simp]: "recovery_path h mutation p [ev] q \<longleftrightarrow> recovery_rel h mutation p ev q"
  by (auto intro: path_snoc [of _ _ _ "[]", simplified] elim: recovery_path.cases)

lemma recovery_path_Cons:
  "recovery_path h mutation p (ev # ys) q \<longleftrightarrow>
    (\<exists>p'. recovery_rel h mutation p ev p' \<and> recovery_path h mutation p' ys q)"
  using recovery_path_append [of h mutation p "[ev]" ys q] by simp

section \<open>Observing a run\<close>

definition observe :: "('a \<Rightarrow> recovery_event) \<Rightarrow> ('s, 'e, 'a) io \<Rightarrow> ('s, recovery_event, 'a) io" where
  "observe ev m = (\<lambda>s. case m s of None \<Rightarrow> None | Some (a, _, s') \<Rightarrow> Some (a, [ev a], s'))"

definition observed :: "('s, 'e) recovery_attempt \<Rightarrow> ('s, recovery_event) recovery_attempt" where
  "observed A = \<lparr>ra_submit = observe Submitted (ra_submit A), ra_query = observe Queried (ra_query A),
     ra_wait_for_retry = observe Waited (ra_wait_for_retry A)\<rparr>"

lemma forget_observe [simp]: "forget (observe ev m) s = forget m s"
  by (auto simp: forget_def observe_def split: option.splits)

lemma wlp_observe [wlp_rules]:
  "wlp (observe ev m) Q s \<longleftrightarrow> wlp m (\<lambda>a t s'. Q a [ev a] s') s"
  by (auto simp: wlp_def observe_def split: option.splits)

lemma observed_same_result:
  "forget (resolve_operation h mutation (observed A)) s = forget (resolve_operation h mutation A) s"
  unfolding resolve_operation_def
proof (rule forget_loop)
  fix x s
  show "forget (recovery_step (observed A) h mutation x) s = forget (recovery_step A h mutation x) s"
    by (cases x; cases "fst x")
      (auto simp: current_io_def observed_def intro!: forget_bind split: round.split)
qed

section \<open>Every run follows the protocol\<close>

text \<open>How an outcome of the specification appears as the result of the code.\<close>

fun realises :: "operation_handle \<Rightarrow> outcome \<Rightarrow> operation_response result \<Rightarrow> bool" where
  "realises h (Confirmed reply) r \<longleftrightarrow> r = Ok reply"
| "realises h (Refused e) r \<longleftrightarrow> r = Err e"
| "realises h Unresolved r \<longleftrightarrow> (\<exists>e. r = Err (Context (Unresolved_Outcome h) e))"

lemma realises_unresolved_error: "realises h Unresolved (Err (unresolved_error errs h))"
  by (simp add: unresolved_error_def)

lemma wlp_recovery_step:
  assumes path: "recovery_path h mutation (Asking Submit) T (Asking action)"
  shows "wlp (recovery_step (observed A) h mutation (action, errs))
     (\<lambda>r t s'. case r of
        Continue x \<Rightarrow> recovery_path h mutation (Asking Submit) (T @ t) (Asking (fst x))
      | Break b \<Rightarrow> \<exists>out. recovery_path h mutation (Asking Submit) (T @ t) (Finished out)
          \<and> realises h out b) s"
proof -
  let ?ok = "\<lambda>c t. case recovery_round h mutation action errs c of
          Return r \<Rightarrow> \<exists>out. recovery_path h mutation (Asking Submit) (T @ t) (Finished out) \<and> realises h out r
        | Requery errs' \<Rightarrow> recovery_path h mutation (Asking Submit) (T @ t) (Asking Query)
        | Retry a' errs' \<Rightarrow> recovery_path h mutation (Asking Submit) (T @ t) (Waiting a')"
  have round: "?ok c [answer_of action c]" for c
  proof (cases c)
    case (Inl e)
    then show ?thesis
      using path
      by (cases action) (auto simp: recovery_round_cases
          intro!: exI [of _ "Refused e"] intro: path_snoc recovery_rel_intros)
  next
    case (Inr reply)
    consider "confirms h mutation reply" | "refuses h mutation reply" "\<not> confirms h mutation reply"
      | "still_reserved h mutation reply" "\<not> refuses h mutation reply" "\<not> confirms h mutation reply"
      | "\<not> still_reserved h mutation reply" "\<not> refuses h mutation reply" "\<not> confirms h mutation reply"
      by blast
    then show ?thesis
    proof cases
      case 1
      then show ?thesis
        using Inr path by (auto simp: recovery_round_cases intro!: exI [of _ "Confirmed reply"]
            intro: path_snoc recovery_rel.confirm)
    next
      case 2
      then show ?thesis
        using Inr path by (auto simp: recovery_round_cases intro!: exI [of _ "Refused (refusal h reply)"]
            intro: path_snoc recovery_rel.refuse)
    qed (use Inr path in \<open>auto simp: recovery_round_cases intro: path_snoc recovery_rel.reserved
           recovery_rel.unclear\<close>)
  qed
  have "wlp (current_io (observed A) action) (\<lambda>c t s'. t = [answer_of action c]) s"
    by (cases action) (simp_all add: current_io_def observed_def wlp_rules, simp_all add: wlp_def)
  then show ?thesis
    unfolding recovery_step.simps
  proof (rule wlp_bindI)
    fix c t s'
    assume t: "t = [answer_of action c]"
    have ok: "?ok c t" unfolding t by (rule round)
    show "wlp (case recovery_round h mutation action errs c of
          Return r \<Rightarrow> return_io (Break r)
        | Requery errs' \<Rightarrow> return_io (Continue (Query, errs'))
        | Retry action' errs' \<Rightarrow>
            bind_io (ra_wait_for_retry (observed A))
              (\<lambda>again. return_io (if again then Continue (action', errs')
                 else Break (Err (unresolved_error errs' h)))))
       (\<lambda>r t' s''. case r of
          Continue x \<Rightarrow> recovery_path h mutation (Asking Submit) (T @ t @ t') (Asking (fst x))
        | Break b \<Rightarrow> \<exists>out. recovery_path h mutation (Asking Submit) (T @ t @ t') (Finished out)
            \<and> realises h out b) s'"
    proof (cases "recovery_round h mutation action errs c")
      case (Retry a' errs')
      with ok have w: "recovery_path h mutation (Asking Submit) (T @ t) (Waiting a')" by simp
      then have "recovery_path h mutation (Asking Submit) (T @ t @ [Waited True]) (Asking a')"
        "recovery_path h mutation (Asking Submit) (T @ t @ [Waited False]) (Finished Unresolved)"
        by (auto simp flip: append_assoc intro: path_snoc recovery_rel.retry recovery_rel.expire)
      then show ?thesis
        using Retry realises_unresolved_error
        by (auto simp: wlp_rules observed_def) (auto simp: wlp_def)
    qed (use ok in \<open>auto simp: wlp_rules\<close>)
  qed
qed

lemma recovery_run:
  assumes run: "resolve_operation h mutation (observed A) s = Some (r, evs, s')"
  shows "\<exists>out. recovery_path h mutation (Asking Submit) evs (Finished out) \<and> realises h out r"
proof -
  have "wlp (resolve_operation h mutation (observed A))
      (\<lambda>r evs s'. \<exists>out. recovery_path h mutation (Asking Submit) evs (Finished out) \<and> realises h out r) s"
    unfolding resolve_operation_def
  proof (rule wlp_loop0 [where I = "\<lambda>x T s.
        recovery_path h mutation (Asking Submit) T (Asking (fst x))"], goal_cases)
    case (1 x T s)
    then show ?case
      using wlp_recovery_step [of h mutation T "fst x" A "snd x" s]
      by simp
  qed simp
  from wlpD [OF this run] show ?thesis .
qed

section \<open>What the protocol guarantees\<close>

definition is_submission :: "recovery_event \<Rightarrow> bool" where
  "is_submission ev = (case ev of Submitted c \<Rightarrow> True | _ \<Rightarrow> False)"

definition reports_reserved :: "operation_handle \<Rightarrow> operation \<Rightarrow> recovery_event \<Rightarrow> bool" where
  "reports_reserved h mutation ev = (case ev of
      Submitted (Ok r) \<Rightarrow> still_reserved h mutation r
    | Queried (Ok r) \<Rightarrow> still_reserved h mutation r
    | _ \<Rightarrow> False)"

lemma is_submission_answer [simp]:
  "is_submission (answer_of a c) \<longleftrightarrow> a = Submit" "\<not> is_submission (Waited b)"
  "is_submission (Submitted c)" "\<not> is_submission (Queried c)"
  by (cases a; simp add: is_submission_def)+

lemma reports_reserved_answer [simp]:
  "reports_reserved h mutation (answer_of a (Ok r)) \<longleftrightarrow> still_reserved h mutation r"
  "\<not> reports_reserved h mutation (Submitted (Err e))"
  "\<not> reports_reserved h mutation (Queried (Err e))" "\<not> reports_reserved h mutation (Waited b)"
  by (cases a; simp add: reports_reserved_def)+

text \<open>The next submission, once due, has been licensed by a \<open>Reserved\<close> report and a wait.\<close>

lemma submit_licensed:
  "recovery_path h mutation (Asking Submit) t p \<Longrightarrow>
    (p = Asking Submit \<longrightarrow> t = [] \<or> (\<exists>zs ev. t = zs @ [ev, Waited True] \<and> reports_reserved h mutation ev))
    \<and> (p = Waiting Submit \<longrightarrow> (\<exists>zs ev. t = zs @ [ev] \<and> reports_reserved h mutation ev))"
proof (induction rule: recovery_path.induct)
  case (path_snoc t p' ev p'')
  from path_snoc.hyps(2) path_snoc.IH show ?case
    by cases auto
qed simp

lemma submission_phase:
  assumes "recovery_path h mutation p (xs @ Submitted c # ys) q"
  obtains p' where "recovery_path h mutation p xs (Asking Submit)"
    "recovery_rel h mutation (Asking Submit) (Submitted c) p'" "recovery_path h mutation p' ys q"
proof -
  from assms obtain p1 p2 where "recovery_path h mutation p xs p1"
      "recovery_rel h mutation p1 (Submitted c) p2" "recovery_path h mutation p2 ys q"
    by (auto simp: recovery_path_append recovery_path_Cons)
  moreover from this(2) have "p1 = Asking Submit"
    by cases (auto elim: answer_of.elims [OF sym] split: if_splits)
  ultimately show thesis by (auto intro: that)
qed

lemma submission_count:
  assumes "recovery_path h mutation (Asking Submit) t p"
  shows "length (filter is_submission t) + (if p = Asking Submit \<or> p = Waiting Submit then 1 else 0)
    \<le> 1 + length (filter (reports_reserved h mutation) t)"
  using assms
proof (induction rule: recovery_path.induct)
  case (path_snoc t p' ev p'')
  from path_snoc.hyps(2) path_snoc.IH show ?case
    by cases (auto split: if_splits)
qed simp

text \<open>What the outcome of a recovery settles, for the code that called it.\<close>

definition settled :: "operation_handle \<Rightarrow> operation \<Rightarrow> operation_response result \<Rightarrow> bool" where
  "settled h mutation r = (case r of
      Ok reply \<Rightarrow> confirms h mutation reply
    | Err e \<Rightarrow> rejects_terminally e \<or> (\<exists>reply. refuses h mutation reply \<and> e = refusal h reply)
        \<or> downcast_unresolved e = Some h)"

lemma resolve_operation_settles:
  "wlp (resolve_operation h mutation A) (\<lambda>r t s'. settled h mutation r) s"
proof (rule wlpI)
  fix r t s'
  assume "resolve_operation h mutation A s = Some (r, t, s')"
  then obtain evs where "resolve_operation h mutation (observed A) s = Some (r, evs, s')"
    by (metis forget_Some observed_same_result)
  from recovery_run [OF this] obtain out
    where path: "recovery_path h mutation (Asking Submit) evs (Finished out)"
      and out: "realises h out r" by blast
  from path obtain p' ev where "recovery_rel h mutation p' ev (Finished out)"
    by (cases rule: recovery_path.cases) auto
  then show "settled h mutation r"
    using out by cases (auto simp: settled_def)
qed

section \<open>A scripted attempt\<close>

text \<open>
  \<open>ScriptedRecovery\<close> of the tests: three queues of prepared answers. An empty queue panics,
  which is a run without a result.
\<close>

record script =
  sc_submissions :: "operation_response result list"
  sc_queries :: "operation_response result list"
  sc_waits :: "bool list"

definition scripted :: "(script, unit) recovery_attempt" where
  "scripted = \<lparr>
     ra_submit = (\<lambda>s. case sc_submissions s of [] \<Rightarrow> None
       | r # rs \<Rightarrow> Some (r, [], s\<lparr>sc_submissions := rs\<rparr>)),
     ra_query = (\<lambda>s. case sc_queries s of [] \<Rightarrow> None
       | r # rs \<Rightarrow> Some (r, [], s\<lparr>sc_queries := rs\<rparr>)),
     ra_wait_for_retry = (\<lambda>s. case sc_waits s of [] \<Rightarrow> None
       | b # bs \<Rightarrow> Some (b, [], s\<lparr>sc_waits := bs\<rparr>))\<rparr>"

definition sample_handle :: operation_handle where
  "sample_handle = \<lparr>oh_instance = 123, oh_id = 7\<rparr>"

definition sample_reply :: "operation_state \<Rightarrow> operation_response" where
  "sample_reply st = \<lparr>
     or_header = \<lparr>rs_struct_size = 64, rs_protocol_version = 1,
       rs_operation = operation_code Query_Result, rs_status = 0, rs_correlation_id = 1\<rparr>,
     or_adapter_instance = 123, or_operation_id = 7, or_mutation = operation_code Create_Disk,
     or_state = state_code st, or_result_status = 0, or_device_id = 1, or_path_id = 0,
     or_target_id = 0, or_lun = 0, or_reserved8 = 0, or_reserved32 = 0\<rparr>"

lemma sample_reply_simps [simp]:
  "confirms sample_handle Create_Disk (sample_reply State_Succeeded)"
  "\<not> confirms sample_handle Create_Disk (sample_reply State_Reserved)"
  "\<not> refuses sample_handle Create_Disk (sample_reply State_Reserved)"
  "still_reserved sample_handle Create_Disk (sample_reply State_Reserved)"
  by (simp_all add: confirms_def refuses_def still_reserved_def sample_reply_def sample_handle_def
      matches_operation_def is_valid_reservation_def)

text \<open>The test \<open>only_reserved_operations_can_be_resubmitted\<close>.\<close>

definition lost_then_reserved :: script where
  "lost_then_reserved = \<lparr>
     sc_submissions = [Err (Io (Os_Error 1117)), Ok (sample_reply State_Succeeded)],
     sc_queries = [Ok (sample_reply State_Reserved)], sc_waits = [True]\<rparr>"

lemma lost_then_reserved_run:
  "resolve_operation sample_handle Create_Disk (observed scripted) lost_then_reserved =
    Some (Ok (sample_reply State_Succeeded),
      [Submitted (Err (Io (Os_Error 1117))), Queried (Ok (sample_reply State_Reserved)),
       Waited True, Submitted (Ok (sample_reply State_Succeeded))],
      \<lparr>sc_submissions = [], sc_queries = [], sc_waits = []\<rparr>)"
  by (simp add: resolve_operation_def loop_io.simps bind_io_def return_io_def observed_def
      observe_def scripted_def current_io_def lost_then_reserved_def recovery_round_cases
      rejects_terminally_def)

section \<open>Termination\<close>

text \<open>
  The contract of a retry schedule: an attempt always answers, asking does not lengthen the
  time left, and every wait that allows another attempt shortens it.
\<close>

locale bounded_attempt =
  fixes A :: "('s, 'e) recovery_attempt" and inv :: "'s \<Rightarrow> bool" and left :: "'s \<Rightarrow> nat"
  assumes submits: "inv s \<Longrightarrow> wp (ra_submit A) (\<lambda>_ _ s'. inv s' \<and> left s' \<le> left s) s"
    and queries: "inv s \<Longrightarrow> wp (ra_query A) (\<lambda>_ _ s'. inv s' \<and> left s' \<le> left s) s"
    and waits: "inv s \<Longrightarrow> wp (ra_wait_for_retry A)
      (\<lambda>again _ s'. inv s' \<and> (again \<longrightarrow> left s' < left s)) s"
begin

lemma asks: "inv s \<Longrightarrow> wp (current_io A a) (\<lambda>_ _ s'. inv s' \<and> left s' \<le> left s) s"
  using submits queries by (cases a) (simp_all add: current_io_def)

lemma requery_is_query:
  "recovery_round h mutation a errs c = Requery errs' \<Longrightarrow> a = Submit"
  by (cases c; cases a) (auto simp: recovery_round_cases split: if_splits)

lemma recovery_step_terminates:
  assumes "inv s"
  shows "wp (recovery_step A h mutation (a, errs)) (\<lambda>r _ s'. case r of
      Continue x \<Rightarrow> inv s' \<and> 2 * left s' + (if fst x = Submit then 1 else 0)
        < 2 * left s + (if a = Submit then 1 else 0)
    | Break b \<Rightarrow> inv s') s"
  unfolding recovery_step.simps wp_bind
proof (rule wp_mono [OF asks [OF assms]], elim conjE)
  fix c t s'
  assume s': "inv s'" "left s' \<le> left s"
  show "wp (case recovery_round h mutation a errs c of
        Return r \<Rightarrow> return_io (Break r)
      | Requery errs' \<Rightarrow> return_io (Continue (Query, errs'))
      | Retry action' errs' \<Rightarrow> bind_io (ra_wait_for_retry A)
          (\<lambda>again. return_io (if again then Continue (action', errs')
             else Break (Err (unresolved_error errs' h)))))
     (\<lambda>r t' s''. case r of
        Continue x \<Rightarrow> inv s'' \<and> 2 * left s'' + (if fst x = Submit then 1 else 0)
          < 2 * left s + (if a = Submit then 1 else 0)
      | Break b \<Rightarrow> inv s'') s'"
  proof (cases "recovery_round h mutation a errs c")
    case (Retry a' errs')
    have "wp (ra_wait_for_retry A) (\<lambda>again _ s''. inv s'' \<and> (again \<longrightarrow> left s'' < left s)) s'"
      by (rule wp_mono [OF waits [OF s'(1)]]) (use s'(2) in auto)
    then show ?thesis
      by (auto simp: Retry wp_rules elim!: wp_mono)
  qed (use s' in \<open>auto simp: wp_rules dest: requery_is_query\<close>)
qed

lemma resolve_operation_terminates:
  assumes "inv s"
  shows "wp (resolve_operation h mutation A) (\<lambda>_ _ s'. inv s') s"
  unfolding resolve_operation_def
proof (rule wp_loop0 [where I = "\<lambda>x T s. inv s"
      and m = "\<lambda>x s. 2 * left s + (if fst x = Submit then 1 else 0)"])
  fix x :: "recovery_action \<times> recovery_errors" and T :: "'b list" and s
  assume "inv s"
  from recovery_step_terminates [OF this, of h mutation "fst x" "snd x"]
  show "wp (recovery_step A h mutation x) (\<lambda>r t s'. case r of
      Continue x' \<Rightarrow> inv s' \<and> 2 * left s' + (if fst x' = Submit then 1 else 0)
        < 2 * left s + (if fst x = Submit then 1 else 0)
    | Break b \<Rightarrow> inv s') s"
    by simp
qed (rule assms)

end

section \<open>Properties\<close>

text \<open>
  C5. Refinement: every run of \<open>resolve_operation\<close>, whatever the transport answers, performs a
  sequence of submissions, queries and waits that the recovery automaton accepts from its start
  to one of its outcomes, and the value returned is that outcome: the confirming reply, the
  refusal, or an error that carries the handle as unresolved.
\<close>

theorem recovery_refines_protocol:
  "wlp (resolve_operation h mutation A) (\<lambda>r t s'. \<exists>evs out.
      resolve_operation h mutation (observed A) s = Some (r, evs, s')
      \<and> recovery_path h mutation (Asking Submit) evs (Finished out) \<and> realises h out r) s"
proof (rule wlpI)
  fix r t s'
  assume "resolve_operation h mutation A s = Some (r, t, s')"
  then obtain evs where run: "resolve_operation h mutation (observed A) s = Some (r, evs, s')"
    by (metis forget_Some observed_same_result)
  with recovery_run [OF run] show "\<exists>evs out.
      resolve_operation h mutation (observed A) s = Some (r, evs, s')
      \<and> recovery_path h mutation (Asking Submit) evs (Finished out) \<and> realises h out r"
    by blast
qed

text \<open>
  C9. Only a matching Reserved reply permits resubmission: every submission after the first is
  immediately preceded by a wait that granted another attempt, and that wait by a reply from the
  driver that this handle is still merely reserved.
\<close>

theorem resubmission_needs_reserved_reply:
  assumes "resolve_operation h mutation (observed A) s = Some (r, xs @ Submitted c # ys, s')"
  shows "xs = [] \<or> (\<exists>zs ev. xs = zs @ [ev, Waited True] \<and> reports_reserved h mutation ev)"
proof -
  from recovery_run [OF assms] obtain out
    where "recovery_path h mutation (Asking Submit) (xs @ Submitted c # ys) (Finished out)" by blast
  then have "recovery_path h mutation (Asking Submit) xs (Asking Submit)"
    by (rule submission_phase)
  from submit_licensed [OF this] show ?thesis by simp
qed

theorem resubmission_needs_reserved_reply_witness:
  "\<exists>zs ev. [Submitted (Err (Io (Os_Error 1117))), Queried (Ok (sample_reply State_Reserved)),
      Waited True] = zs @ [ev, Waited True] \<and> reports_reserved sample_handle Create_Disk ev"
  using resubmission_needs_reserved_reply [of sample_handle Create_Disk scripted lost_then_reserved
      "Ok (sample_reply State_Succeeded)" "[Submitted (Err (Io (Os_Error 1117))),
        Queried (Ok (sample_reply State_Reserved)), Waited True]"
      "Ok (sample_reply State_Succeeded)" "[]"]
  by (simp add: lost_then_reserved_run)

text \<open>
  C10. An ambiguous submission (an error that is not a terminal rejection) is never repeated
  blindly: the very next event is a query, with no wait in between.
\<close>

theorem ambiguous_submission_is_queried:
  assumes run: "resolve_operation h mutation (observed A) s = Some (r, xs @ Submitted (Err e) # ys, s')"
    and "\<not> rejects_terminally e"
  shows "\<exists>c zs. ys = Queried c # zs"
proof -
  from recovery_run [OF run] obtain out where
    "recovery_path h mutation (Asking Submit) (xs @ Submitted (Err e) # ys) (Finished out)" by blast
  then obtain p' where step: "recovery_rel h mutation (Asking Submit) (Submitted (Err e)) p'"
    and rest: "recovery_path h mutation p' ys (Finished out)"
    by (rule submission_phase)
  from step assms(2) have "p' = Asking Query"
    by cases simp_all
  with rest show ?thesis
    by (cases ys) (auto simp: recovery_path_Cons elim!: recovery_rel_AskingE)
qed

theorem ambiguous_submission_is_queried_witness:
  "\<not> rejects_terminally (Io (Os_Error 1117))
   \<and> (\<exists>c zs. [Queried (Ok (sample_reply State_Reserved)), Waited True,
        Submitted (Ok (sample_reply State_Succeeded))] = Queried c # zs)"
proof
  show "\<not> rejects_terminally (Io (Os_Error 1117))" by (simp add: rejects_terminally_def)
  then show "\<exists>c zs. [Queried (Ok (sample_reply State_Reserved)), Waited True,
        Submitted (Ok (sample_reply State_Succeeded))] = Queried c # zs"
    by (intro ambiguous_submission_is_queried [of sample_handle Create_Disk scripted
          lost_then_reserved _ "[]"]) (simp_all add: lost_then_reserved_run)
qed

text \<open>
  Bounded submissions: a run submits at most once more than the driver reported the handle
  as still reserved, so without such a report the mutation is sent exactly once at most.
\<close>

theorem submissions_bounded_by_reserved_replies:
  "wlp (resolve_operation h mutation (observed A)) (\<lambda>r evs s'.
      length (filter is_submission evs) \<le> 1 + length (filter (reports_reserved h mutation) evs)) s"
proof (rule wlpI)
  fix r evs s'
  assume "resolve_operation h mutation (observed A) s = Some (r, evs, s')"
  from recovery_run [OF this] obtain out
    where "recovery_path h mutation (Asking Submit) evs (Finished out)" by blast
  from submission_count [OF this]
  show "length (filter is_submission evs) \<le> 1 + length (filter (reports_reserved h mutation) evs)"
    by simp
qed

text \<open>
  C11. What the result means: success carries a reply that confirms this very operation; an error
  is a terminal rejection of the last submission, a reply that the operation failed or was
  undone, or, after the last wait expired, an unresolved outcome for which the process exits
  with status 3.
\<close>

theorem recovery_result:
  "wlp (resolve_operation h mutation (observed A)) (\<lambda>r evs s'. case r of
      Ok reply \<Rightarrow> confirms h mutation reply \<and> (\<exists>a. last evs = answer_of a (Ok reply))
    | Err e \<Rightarrow> last evs = Submitted (Err e) \<and> rejects_terminally e
        \<or> (\<exists>a reply. last evs = answer_of a (Ok reply) \<and> refuses h mutation reply
             \<and> e = refusal h reply)
        \<or> last evs = Waited False \<and> downcast_unresolved e = Some h \<and> error_exit_code e = 3) s"
proof (rule wlpI)
  fix r evs s'
  assume "resolve_operation h mutation (observed A) s = Some (r, evs, s')"
  from recovery_run [OF this] obtain out
    where path: "recovery_path h mutation (Asking Submit) evs (Finished out)"
      and out: "realises h out r" by blast
  from path obtain xs ev p' where evs: "evs = xs @ [ev]"
    and step: "recovery_rel h mutation p' ev (Finished out)"
    by (cases rule: recovery_path.cases) auto
  from step show "case r of
      Ok reply \<Rightarrow> confirms h mutation reply \<and> (\<exists>a. last evs = answer_of a (Ok reply))
    | Err e \<Rightarrow> last evs = Submitted (Err e) \<and> rejects_terminally e
        \<or> (\<exists>a reply. last evs = answer_of a (Ok reply) \<and> refuses h mutation reply
             \<and> e = refusal h reply)
        \<or> last evs = Waited False \<and> downcast_unresolved e = Some h \<and> error_exit_code e = 3"
    using out by cases (auto simp: evs error_exit_code_def)
qed

end
