(* ===== verification/Transport.thy ===== *)
theory Transport
  imports System Wire Recovery
begin

text \<open>
  adapter/control_operation.rs and \<open>Adapter::send\<close> of adapter/mod.rs: typed control operations,
  the control buffer of an \<open>IOCTL_SCSI_MINIPORT\<close> request and the validation of what the driver
  left in it. What the unsafe traits \<open>ProtocolRequest\<close> and \<open>ProtocolResponse\<close> demand of the
  implementations is the locale \<open>control_operation\<close>, interpreted on all six operations.
\<close>

section \<open>Control operations\<close>

record ('q, 'r) control_op =
  co_code :: operation
  co_request_size :: nat
  co_response_size :: nat
  co_request_bytes :: "'q \<Rightarrow> u8 list"
  co_request_header :: "'q \<Rightarrow> request_header"
  co_read_response :: "u8 list \<Rightarrow> 'r"
  co_response_header :: "'r \<Rightarrow> response_header"

definition query_version_op :: "(request_header, query_version_response) control_op" where
  "query_version_op = \<lparr>co_code = Query_Version,
     co_request_size = size_of request_header_type,
     co_response_size = size_of query_version_response_type,
     co_request_bytes = enc_request_header, co_request_header = (\<lambda>q. q),
     co_read_response = dec_query_version_response, co_response_header = qv_header\<rparr>"

definition reserve_operation_op :: "(reserve_request, operation_response) control_op" where
  "reserve_operation_op = \<lparr>co_code = Reserve,
     co_request_size = size_of reserve_request_type,
     co_response_size = size_of operation_response_type,
     co_request_bytes = enc_reserve_request, co_request_header = rr_header,
     co_read_response = dec_operation_response, co_response_header = or_header\<rparr>"

definition query_result_op :: "(operation_request, operation_response) control_op" where
  "query_result_op = \<lparr>co_code = Query_Result,
     co_request_size = size_of operation_request_type,
     co_response_size = size_of operation_response_type,
     co_request_bytes = enc_operation_request, co_request_header = oq_header,
     co_read_response = dec_operation_response, co_response_header = or_header\<rparr>"

definition list_state_op :: "(request_header, state_response) control_op" where
  "list_state_op = \<lparr>co_code = List_State,
     co_request_size = size_of request_header_type,
     co_response_size = size_of state_response_type,
     co_request_bytes = enc_request_header, co_request_header = (\<lambda>q. q),
     co_read_response = dec_state_response, co_response_header = sr_header\<rparr>"

definition create_reserved_op :: "(reserved_create_request, operation_response) control_op" where
  "create_reserved_op = \<lparr>co_code = Create_Reserved,
     co_request_size = size_of reserved_create_request_type,
     co_response_size = size_of operation_response_type,
     co_request_bytes = enc_reserved_create_request,
     co_request_header = (\<lambda>q. oq_header (rc_operation q)),
     co_read_response = dec_operation_response, co_response_header = or_header\<rparr>"

definition delete_reserved_op :: "(reserved_delete_request, operation_response) control_op" where
  "delete_reserved_op = \<lparr>co_code = Delete_Reserved,
     co_request_size = size_of reserved_delete_request_type,
     co_response_size = size_of operation_response_type,
     co_request_bytes = enc_reserved_delete_request,
     co_request_header = (\<lambda>q. oq_header (rd_operation q)),
     co_read_response = dec_operation_response, co_response_header = or_header\<rparr>"

lemmas control_op_defs = query_version_op_def reserve_operation_op_def query_result_op_def
  list_state_op_def create_reserved_op_def delete_reserved_op_def

lemma co_codes [simp]:
  "co_code query_version_op = Query_Version" "co_code reserve_operation_op = Reserve"
  "co_code query_result_op = Query_Result" "co_code list_state_op = List_State"
  "co_code create_reserved_op = Create_Reserved" "co_code delete_reserved_op = Delete_Reserved"
  by (simp_all add: control_op_defs)

section \<open>The exchange\<close>

definition CONTROL_BUFFER_SIZE :: nat where "CONTROL_BUFFER_SIZE = 1024"
definition CONTROL_TIMEOUT_SECONDS :: u32 where "CONTROL_TIMEOUT_SECONDS = 30"
definition IOCTL_SCSI_MINIPORT :: u32 where "IOCTL_SCSI_MINIPORT = 0x4D008"

abbreviation srb_size :: nat where "srb_size \<equiv> size_of srb_io_control_type"
abbreviation response_header_size :: nat where
  "response_header_size \<equiv> size_of response_header_type"

record adapter =
  ad_handle :: handle
  ad_port_number :: u8

definition validate_response_header ::
  "operation \<Rightarrow> u64 \<Rightarrow> srb_io_control \<Rightarrow> response_header \<Rightarrow> unit result" where
  "validate_response_header code correlation_id control header =
     (if srb_header_length control \<noteq> word_of_nat srb_size \<or> srb_signature control \<noteq> SRB_SIGNATURE
      then Err (Msg (lit ''driver returned an invalid SRB control header''))
      else if rs_protocol_version header \<noteq> PROTOCOL_VERSION
        \<or> rs_operation header \<noteq> operation_code code \<or> rs_correlation_id header \<noteq> correlation_id
      then Err (Msg (lit ''driver response did not match the request''))
      else let status = rs_status header in
        if is_negative status \<or> srb_return_code control AND 0x80000000 \<noteq> 0
        then Err (Driver_Rejection (if is_negative status then status else srb_return_code control))
        else Ok ())"

definition control_header :: "operation \<Rightarrow> srb_io_control" where
  "control_header code = \<lparr>srb_header_length = word_of_nat srb_size, srb_signature = SRB_SIGNATURE,
     srb_timeout = CONTROL_TIMEOUT_SECONDS, srb_control_code = operation_code code,
     srb_return_code = 0, srb_length = word_of_nat (CONTROL_BUFFER_SIZE - srb_size)\<rparr>"

text \<open>The zeroed buffer with the control header and the request copied into it.\<close>

definition request_buffer :: "('q, 'r) control_op \<Rightarrow> 'q \<Rightarrow> u8 list" where
  "request_buffer C request =
     (let message = enc_srb_io_control (control_header (co_code C)) @ co_request_bytes C request
      in message @ replicate (CONTROL_BUFFER_SIZE - length message) 0)"

text \<open>The part of \<open>send\<close> after \<open>DeviceIoControl\<close> succeeded.\<close>

definition read_reply :: "('q, 'r) control_op \<Rightarrow> u64 \<Rightarrow> u32 \<Rightarrow> u8 list \<Rightarrow> 'r result" where
  "read_reply C correlation_id returned buffer =
     (if returned < word_of_nat (srb_size + response_header_size)
      then Err (Msg (lit ''driver returned a truncated control response (''
        @ dec_digits (unat returned) @ lit '' bytes)''))
      else let control = dec_srb_io_control buffer;
               header = dec_response_header (drop srb_size buffer) in
        try_res (validate_response_header (co_code C) correlation_id control header) (\<lambda>_.
          if returned < word_of_nat (srb_size + co_response_size C)
             \<or> srb_length control < word_of_nat (co_response_size C)
          then Err (Msg (lit ''driver returned a shorter response than its success header promised''))
          else let response = co_read_response C (drop srb_size buffer);
                   response_header = co_response_header C response in
            if rs_struct_size response_header \<noteq> word_of_nat (co_response_size C)
            then Err (Msg (lit ''driver returned an unexpected response size ''
              @ dec_digits (unat (rs_struct_size response_header))
              @ lit '' (expected '' @ dec_digits (co_response_size C) @ lit '')''))
            else Ok response))"

text \<open>What \<open>send\<close> makes of the answer of \<open>DeviceIoControl\<close>, whose two buffers are the same.\<close>

definition reply_of ::
  "('q, 'r) control_op \<Rightarrow> 'q \<Rightarrow> u32 + (u32 \<times> u8 list) \<Rightarrow> 'r result" where
  "reply_of C request answer = (case answer of
     Err code \<Rightarrow> Err (last_os_error ''send WispDisk miniport control request'' code)
   | Ok (returned, out) \<Rightarrow> read_reply C (rq_correlation_id (co_request_header C request)) returned
       (overlay (request_buffer C request) out))"

definition send ::
  "'w os \<Rightarrow> adapter \<Rightarrow> ('q, 'r) control_op \<Rightarrow> 'q \<Rightarrow> ('w, 'r result) sys_io" where
  "send os a C request =
     (if srb_size + co_response_size C > CONTROL_BUFFER_SIZE
         \<or> srb_size + co_request_size C > CONTROL_BUFFER_SIZE
      then fail_io (Msg (lit ''internal IOCTL buffer is too small for the protocol message''))
      else map_io (reply_of C request)
        (device_io_control os (ad_handle a) IOCTL_SCSI_MINIPORT (request_buffer C request)
          CONTROL_BUFFER_SIZE))"

lemma returns_send [returns_intros]: "returns (send os a C request)"
  unfolding send_def by (intro returns_intros)

lemma all_events_send [all_events_intros]:
  "(\<And>answer. P (Device_Io_Control (ad_handle a) IOCTL_SCSI_MINIPORT (request_buffer C request) answer))
    \<Longrightarrow> all_events P (send os a C request)"
  unfolding send_def by (intro all_events_intros)

text \<open>The control requests of one operation that a trace contains.\<close>

fun request_bytes :: "operation \<Rightarrow> os_event \<Rightarrow> u8 list list" where
  "request_bytes code (Device_Io_Control h ioctl buffer answer) =
     (if ioctl = IOCTL_SCSI_MINIPORT
         \<and> srb_control_code (dec_srb_io_control buffer) = operation_code code
      then [buffer] else [])"
| "request_bytes code _ = []"

definition requests_of :: "operation \<Rightarrow> os_event list \<Rightarrow> u8 list list" where
  "requests_of code t = concat (map (request_bytes code) t)"

lemma requests_of_simps [simp]:
  "requests_of code [] = []" "requests_of code (t @ t') = requests_of code t @ requests_of code t'"
  "requests_of code (ev # t) = request_bytes code ev @ requests_of code t"
  by (simp_all add: requests_of_def)

lemma no_requests: "list_all (\<lambda>ev. request_bytes code ev = []) t \<longleftrightarrow> requests_of code t = []"
  by (induction t) auto

lemma same_requests:
  "list_all (\<lambda>ev. request_bytes code ev = [] \<or> request_bytes code ev = [b]) t \<Longrightarrow>
    \<exists>n. requests_of code t = replicate n b"
proof (induction t)
  case (Cons ev t)
  then obtain n where "requests_of code t = replicate n b" by auto
  with Cons.prems show ?case
    by (auto intro: exI [of _ n] exI [of _ "Suc n"])
qed simp

section \<open>The contract of a control operation\<close>

text \<open>
  \<open>answers C request response\<close>: the header of the response is a non-negative status for this
  very request. \<open>send_spec\<close> is what a client of \<open>send\<close> may rely on: exactly one exchange took
  place, a success is an answer that lies within the bytes returned, and a failure is not
  reported as an unresolved mutation.
\<close>

definition answers :: "('q, 'r) control_op \<Rightarrow> 'q \<Rightarrow> 'r \<Rightarrow> bool" where
  "answers C request response \<longleftrightarrow> (let header = co_response_header C response in
     rs_operation header = operation_code (co_code C)
     \<and> rs_correlation_id header = rq_correlation_id (co_request_header C request)
     \<and> rs_protocol_version header = PROTOCOL_VERSION
     \<and> \<not> is_negative (rs_status header)
     \<and> unat (rs_struct_size header) = co_response_size C)"

definition send_spec ::
  "adapter \<Rightarrow> ('q, 'r) control_op \<Rightarrow> 'q \<Rightarrow> 'r result \<Rightarrow> os_event list \<Rightarrow> bool" where
  "send_spec a C request r t \<longleftrightarrow> (\<exists>answer.
      t = [Device_Io_Control (ad_handle a) IOCTL_SCSI_MINIPORT (request_buffer C request) answer]
      \<and> (case r of
          Err e \<Rightarrow> error_exit_code e = 1
        | Ok response \<Rightarrow> \<exists>returned out. answer = Ok (returned, out)
            \<and> srb_size + co_response_size C \<le> unat returned
            \<and> response = co_read_response C (drop srb_size (overlay (request_buffer C request) out))
            \<and> answers C request response))"

text \<open>
  A reply as the driver writes it: the control header, the response in its wire format, and whatever
  follows, as far as the buffer reaches. \<open>accepted\<close>: the control header is the driver's own and
  without an error, it promises the whole response, the bytes returned hold it, and the response
  answers the request. \<open>reads_back\<close>: the client takes the reply for exactly this response when it is
  to be accepted, and for a failure when it is not.
\<close>

definition accepted :: "('q, 'r) control_op \<Rightarrow> 'q \<Rightarrow> srb_io_control \<Rightarrow> u32 \<Rightarrow> 'r \<Rightarrow> bool" where
  "accepted C request control returned response \<longleftrightarrow>
     srb_header_length control = word_of_nat srb_size \<and> srb_signature control = SRB_SIGNATURE
     \<and> \<not> is_negative (srb_return_code control)
     \<and> co_response_size C \<le> unat (srb_length control)
     \<and> srb_size + co_response_size C \<le> unat returned \<and> answers C request response"

definition reads_back ::
  "('q, 'r) control_op \<Rightarrow> ('r \<Rightarrow> u8 list) \<Rightarrow> srb_io_control \<Rightarrow> u32 \<Rightarrow> u8 list \<Rightarrow> 'q \<Rightarrow> 'r \<Rightarrow> bool" where
  "reads_back C enc control returned rest request response \<longleftrightarrow>
     (case reply_of C request (Ok (returned,
         take CONTROL_BUFFER_SIZE (enc_srb_io_control control @ enc response @ rest))) of
        Ok r \<Rightarrow> r = response \<and> accepted C request control returned response
      | Err _ \<Rightarrow> \<not> accepted C request control returned response)"

text \<open>
  \<open>ProtocolRequest\<close>: the request is exactly \<open>size_of\<close> initialised bytes and starts with the
  header it reports. \<open>ProtocolResponse\<close>: reading a response touches only its own bytes, and its
  header is the one at offset zero. All messages fit the control buffer.
\<close>

lemma CONTROL_BUFFER_SIZE_eq [simp]: "CONTROL_BUFFER_SIZE = 1024"
  by (simp add: CONTROL_BUFFER_SIZE_def)

lemma validate_response_header_Ok:
  "validate_response_header code corr control header = Ok () \<longleftrightarrow>
     srb_header_length control = 28 \<and> srb_signature control = SRB_SIGNATURE
     \<and> rs_protocol_version header = PROTOCOL_VERSION \<and> rs_operation header = operation_code code
     \<and> rs_correlation_id header = corr \<and> \<not> is_negative (rs_status header)
     \<and> \<not> is_negative (srb_return_code control)"
  by (auto simp: validate_response_header_def Let_def is_negative_mask)

lemma validate_response_header_Err:
  "validate_response_header code corr control header = Err e \<Longrightarrow>
    (\<exists>t. e = Msg t) \<or> (\<exists>status. is_negative status \<and> e = Driver_Rejection status)"
  by (auto simp: validate_response_header_def Let_def is_negative_mask split: if_splits)

lemma validate_result_cases:
  obtains "validate_response_header code corr control header = Ok ()"
  | e where "validate_response_header code corr control header = Err e"
  by (cases "validate_response_header code corr control header") auto

text \<open>No error of the transport claims an unresolved mutation: that is the recovery's to say.\<close>

lemma read_reply_Err:
  "read_reply C corr returned buffer = Err e \<Longrightarrow>
    (\<exists>t. e = Msg t) \<or> (\<exists>status. is_negative status \<and> e = Driver_Rejection status)"
  by (cases rule: validate_result_cases [of "co_code C" corr "dec_srb_io_control buffer"
        "dec_response_header (drop srb_size buffer)"])
    (auto simp: read_reply_def Let_def dest: validate_response_header_Err split: if_splits)

lemma reply_of_Err_resolved: "reply_of C request answer = Err e \<Longrightarrow> \<not> is_unresolved e"
  by (auto simp: reply_of_def dest!: read_reply_Err split: sum.splits)

lemma length_control_header [simp]: "length (enc_srb_io_control (control_header code)) = 28"
  by (rule srb_io_control_wire.length_enc) (simp add: control_header_def SRB_SIGNATURE_def lit_def)

lemma control_header_wf: "length (srb_signature (control_header code)) = 8"
  by (simp add: control_header_def SRB_SIGNATURE_def lit_def)

lemma control_code_of_request [simp]:
  "srb_control_code (dec_srb_io_control (request_buffer C request)) = operation_code (co_code C)"
  by (simp add: request_buffer_def Let_def srb_io_control_wire.dec_enc control_header_wf)
    (simp add: control_header_def)

locale control_operation =
  fixes C :: "('q, 'r) control_op"
  assumes request_length: "length (co_request_bytes C q) = co_request_size C"
    and request_starts: "take 24 (co_request_bytes C q) = enc_request_header (co_request_header C q)"
    and read_take: "co_read_response C (take (co_response_size C) bs) = co_read_response C bs"
    and header_first: "co_response_size C \<le> length bs \<Longrightarrow>
      co_response_header C (co_read_response C bs) = dec_response_header bs"
    and request_fits: "srb_size + co_request_size C \<le> CONTROL_BUFFER_SIZE"
    and response_fits: "srb_size + co_response_size C \<le> CONTROL_BUFFER_SIZE"
    and response_has_header: "response_header_size \<le> co_response_size C"
begin

lemma read_prefix:
  "co_response_size C \<le> n \<Longrightarrow> take n bs = take n cs \<Longrightarrow>
    co_read_response C bs = co_read_response C cs"
  by (metis min.absorb1 read_take take_take)

lemma send_eq:
  "send os a C request = map_io (reply_of C request)
    (device_io_control os (ad_handle a) IOCTL_SCSI_MINIPORT (request_buffer C request) 1024)"
  using request_fits response_fits by (simp add: send_def)

lemma response_size_bound: "co_response_size C \<le> 996"
  using response_fits by simp

lemma length_request_buffer: "length (request_buffer C request) = 1024"
  using request_fits by (simp add: request_buffer_def Let_def request_length)

lemma unat_sizes [simp]:
  "unat (word_of_nat (28 + co_response_size C) :: u32) = 28 + co_response_size C"
  "unat (word_of_nat (co_response_size C) :: u32) = co_response_size C"
  using response_size_bound
  by (simp_all add: unsigned_of_nat take_bit_nat_eq_self del: of_nat_add)

text \<open>Success, spelled out.\<close>

lemma read_reply_Ok:
  assumes len: "length buffer = 1024"
  shows "read_reply C corr returned buffer = Ok response \<longleftrightarrow>
    28 + co_response_size C \<le> unat returned
    \<and> co_response_size C \<le> unat (srb_length (dec_srb_io_control buffer))
    \<and> response = co_read_response C (drop 28 buffer)
    \<and> validate_response_header (co_code C) corr (dec_srb_io_control buffer)
        (co_response_header C response) = Ok ()
    \<and> unat (rs_struct_size (co_response_header C response)) = co_response_size C" (is "?l \<longleftrightarrow> ?r")
proof -
  let ?hdr = "dec_response_header (drop 28 buffer)"
  have hdr: "co_response_header C (co_read_response C (drop 28 buffer)) = ?hdr"
    using len response_size_bound by (intro header_first) simp
  have big: "24 \<le> co_response_size C" using response_has_header by simp
  have le: "returned < (52 :: u32) \<longleftrightarrow> unat returned < 52" 
    by (simp add: word_less_nat_alt)
  have le': "returned < (word_of_nat (28 + co_response_size C) :: u32)
      \<longleftrightarrow> unat returned < 28 + co_response_size C"
    unfolding word_less_nat_alt by (simp del: of_nat_add)
  have le'': "srb_length (dec_srb_io_control buffer) < word_of_nat (co_response_size C)
      \<longleftrightarrow> unat (srb_length (dec_srb_io_control buffer)) < co_response_size C"
    unfolding word_less_nat_alt by simp
  have eq: "rs_struct_size h = word_of_nat (co_response_size C)
      \<longleftrightarrow> unat (rs_struct_size h) = co_response_size C" for h :: response_header
    by (simp add: word_eq_iff_unsigned [where 'a = nat])
  show ?thesis
    using big by (cases rule: validate_result_cases [of "co_code C" corr "dec_srb_io_control buffer" ?hdr])
      (auto simp: read_reply_def Let_def le le' le'' hdr eq simp del: of_nat_add)
qed

lemma reads_response:
  assumes signature: "length (srb_signature control) = 8"
    and enc: "length (enc response) = co_response_size C"
      "\<And>xs. co_read_response C (enc response @ xs) = response"
  shows "reads_back C enc control returned rest request response"
proof -
  have len: "length (enc_srb_io_control control) = 28"
    by (rule srb_io_control_wire.length_enc) (simp add: signature)
  let ?k = "996 - co_response_size C"
  have out: "take 1024 (enc_srb_io_control control @ enc response @ rest) =
      enc_srb_io_control control @ enc response @ take ?k rest"
    using len enc(1) response_size_bound by simp
  define buffer where "buffer = overlay (request_buffer C request) (take 1024 (enc_srb_io_control control @ enc response @ rest))"
  obtain tail where tail: "buffer = enc_srb_io_control control @ enc response @ tail" "length buffer = 1024"
    using len enc(1) response_size_bound
    by (simp add: buffer_def out overlay_def length_request_buffer)
  have control: "dec_srb_io_control buffer = control"
    unfolding tail(1) by (rule srb_io_control_wire.dec_enc) (simp add: signature)
  have response: "co_read_response C (drop 28 buffer) = response"
    unfolding tail(1) using len enc(2) by simp
  have verdict: "read_reply C corr returned buffer = Ok r \<longleftrightarrow> r = response
      \<and> corr = corr \<and> 28 + co_response_size C \<le> unat returned
      \<and> co_response_size C \<le> unat (srb_length control)
      \<and> validate_response_header (co_code C) corr control (co_response_header C response) = Ok ()
      \<and> unat (rs_struct_size (co_response_header C response)) = co_response_size C" for corr r
    unfolding read_reply_Ok [OF tail(2)] control response by auto
  have "\<forall>r. reply_of C request (Ok (returned, take CONTROL_BUFFER_SIZE (enc_srb_io_control control @ enc response @ rest))) = Ok r
      \<longleftrightarrow> r = response \<and> accepted C request control returned response"
    unfolding reply_of_def sum.case prod.case CONTROL_BUFFER_SIZE_eq buffer_def [symmetric] verdict
      validate_response_header_Ok accepted_def answers_def Let_def by auto
  moreover have "(\<forall>r. x = Ok r \<longleftrightarrow> r = response \<and> a) \<Longrightarrow> (case x of Ok r \<Rightarrow> r = response \<and> a | Err _ \<Rightarrow> \<not> a)"
    for x :: "'r result" and a
    by (cases x) auto
  ultimately show ?thesis unfolding reads_back_def by blast
qed

text \<open>
  Nothing past the bytes the driver returned is interpreted: in particular not the echo of the
  request that the shared buffer still holds there.
\<close>

lemma read_reply_returned_only:
  assumes len: "length b = 1024" "length b' = 1024"
    and same: "take (unat returned) b = take (unat returned) b'"
  shows "read_reply C corr returned b = read_reply C corr returned b'"
proof (cases "unat returned < 52")
  case True
  then have "returned < (52 :: u32)" by (simp add: word_less_nat_alt)
  then show ?thesis by (simp add: read_reply_def)
next
  case False
  have pre: "take n b = take n b'" if "n \<le> unat returned" for n
    using same that by (metis min.absorb1 take_take)
  have control: "dec_srb_io_control b = dec_srb_io_control b'"
    using pre [of 28] False by (intro srb_io_control_wire.dec_prefix_cong [of 28]) simp_all
  have drop: "take (n - 28) (drop 28 b) = take (n - 28) (drop 28 b')" if "n \<le> unat returned" for n
    using pre [OF that] by (metis drop_take)
  have header: "dec_response_header (drop 28 b) = dec_response_header (drop 28 b')"
    using drop [of 52] False by (intro response_header_wire.dec_prefix_cong [of 24]) simp_all
  have body: "co_read_response C (drop 28 b) = co_read_response C (drop 28 b')"
    if "\<not> returned < word_of_nat (28 + co_response_size C)"
    using drop [of "28 + co_response_size C"] that
    by (intro read_prefix [of "co_response_size C"])
      (simp_all add: word_less_nat_alt linorder_not_less del: of_nat_add)
  show ?thesis
  proof (cases "returned < (word_of_nat (28 + co_response_size C) :: u32)")
    case True
    then show ?thesis by (simp add: read_reply_def Let_def control header del: of_nat_add)
  next
    case False
    from body [OF False] show ?thesis
      by (simp add: read_reply_def Let_def control header del: of_nat_add)
  qed
qed

lemma send_meets_spec: "wlp (send os a C request) (\<lambda>r t s'. send_spec a C request r t) s"
  unfolding send_eq device_io_control_def wlp_map
proof (rule wlp_os_callI)
  fix answer and s' :: "'c sys"
  show "send_spec a C request (reply_of C request answer)
      [Device_Io_Control (ad_handle a) IOCTL_SCSI_MINIPORT (request_buffer C request) answer]"
    using reply_of_Err_resolved [of C request answer]
    by (auto simp: send_spec_def reply_of_def error_exit_code_def read_reply_Ok
        length_request_buffer validate_response_header_Ok answers_def split: sum.splits)
qed

lemma wlp_sendI:
  "(\<And>answer s'. clock_le s s' \<Longrightarrow> Q (reply_of C request answer)
      [Device_Io_Control (ad_handle a) IOCTL_SCSI_MINIPORT (request_buffer C request) answer] s') \<Longrightarrow>
    wlp (send os a C request) Q s"
  unfolding send_eq device_io_control_def wlp_map by (rule wlp_os_callI)

end

lemmas control_op_simps = control_op_defs enc_reserve_request_def enc_operation_request_def
  enc_reserved_create_request_def enc_reserved_delete_request_def
  dec_query_version_response_def dec_operation_response_def dec_state_response_def

interpretation query_version: control_operation query_version_op
  by unfold_locales (simp_all add: control_op_simps field_at_take)

interpretation reserve_operation: control_operation reserve_operation_op
  by unfold_locales (simp_all add: control_op_simps field_at_take)

interpretation query_result: control_operation query_result_op
  by unfold_locales (simp_all add: control_op_simps field_at_take)

interpretation list_state: control_operation list_state_op
  by unfold_locales (simp_all add: control_op_defs state_response_wire.dec_take,
    simp_all add: dec_state_response_def)

interpretation create_reserved: control_operation create_reserved_op
  by unfold_locales (simp_all add: control_op_simps field_at_take)

interpretation delete_reserved: control_operation delete_reserved_op
  by unfold_locales (simp_all add: control_op_simps field_at_take)

section \<open>Properties\<close>

text \<open>
  A response is accepted exactly when the control header is the driver's, the response
  echoes protocol version, operation and correlation id of the request, and neither status has
  the error bit; a negative status is a driver rejection with that status.
\<close>

theorem response_header_validation:
  "validate_response_header code corr control header =
    (if srb_header_length control = 28 \<and> srb_signature control = SRB_SIGNATURE
     then if rs_protocol_version header = PROTOCOL_VERSION
             \<and> rs_operation header = operation_code code \<and> rs_correlation_id header = corr
       then if is_negative (rs_status header) then Err (Driver_Rejection (rs_status header))
         else if is_negative (srb_return_code control)
         then Err (Driver_Rejection (srb_return_code control))
         else Ok ()
       else Err (Msg (lit ''driver response did not match the request''))
     else Err (Msg (lit ''driver returned an invalid SRB control header'')))"
  by (auto simp: validate_response_header_def Let_def is_negative_mask)

text \<open>
  C27. Every control operation meets the specification of an exchange: one \<open>DeviceIoControl\<close>
  with the request's buffer; on success the driver returned at least the control header and the
  whole response, and the response read from those bytes carries the request's operation and
  correlation id, a non-negative status and its own exact size; a failure exits with status 1.
\<close>

theorem control_operations_meet_send_spec:
  "wlp (send os a query_version_op q1) (\<lambda>r t s'. send_spec a query_version_op q1 r t) s
   \<and> wlp (send os a reserve_operation_op q2) (\<lambda>r t s'. send_spec a reserve_operation_op q2 r t) s
   \<and> wlp (send os a query_result_op q3) (\<lambda>r t s'. send_spec a query_result_op q3 r t) s
   \<and> wlp (send os a list_state_op q4) (\<lambda>r t s'. send_spec a list_state_op q4 r t) s
   \<and> wlp (send os a create_reserved_op q5) (\<lambda>r t s'. send_spec a create_reserved_op q5 r t) s
   \<and> wlp (send os a delete_reserved_op q6) (\<lambda>r t s'. send_spec a delete_reserved_op q6 r t) s"
  by (intro conjI query_version.send_meets_spec reserve_operation.send_meets_spec
      query_result.send_meets_spec list_state.send_meets_spec create_reserved.send_meets_spec
      delete_reserved.send_meets_spec)

text \<open>
  Memory safety of the reply: the verdict on a control buffer depends only on the bytes the
  driver reports as returned. Stale bytes behind them, such as the echo of the request in the
  shared buffer, are never interpreted as a response.
\<close>

theorem reply_uses_returned_bytes_only:
  assumes "length b = CONTROL_BUFFER_SIZE" and "length b' = CONTROL_BUFFER_SIZE"
    and "take (unat returned) b = take (unat returned) b'"
  shows "read_reply query_version_op corr returned b = read_reply query_version_op corr returned b'
    \<and> read_reply reserve_operation_op corr returned b = read_reply reserve_operation_op corr returned b'
    \<and> read_reply query_result_op corr returned b = read_reply query_result_op corr returned b'
    \<and> read_reply list_state_op corr returned b = read_reply list_state_op corr returned b'
    \<and> read_reply create_reserved_op corr returned b = read_reply create_reserved_op corr returned b'
    \<and> read_reply delete_reserved_op corr returned b = read_reply delete_reserved_op corr returned b'"
  using assms [unfolded CONTROL_BUFFER_SIZE_eq]
  by (intro conjI query_version.read_reply_returned_only reserve_operation.read_reply_returned_only
      query_result.read_reply_returned_only list_state.read_reply_returned_only
      create_reserved.read_reply_returned_only delete_reserved.read_reply_returned_only)

theorem reply_uses_returned_bytes_only_witness:
  "read_reply list_state_op 1 52 (replicate 52 0 @ replicate 972 0)
   = read_reply list_state_op 1 52 (replicate 52 0 @ replicate 972 1)"
  using reply_uses_returned_bytes_only [of "replicate 52 0 @ replicate 972 0"
      "replicate 52 0 @ replicate 972 1" 52 1]
  by simp

text \<open>
  What is sent is what the driver reads: behind the control header the buffer holds the
  request, for every kind of request, and the control header names its operation.
\<close>

theorem driver_reads_the_request:
  "dec_request_header (drop srb_size (request_buffer query_version_op q1)) = q1
   \<and> dec_reserve_request (drop srb_size (request_buffer reserve_operation_op q2)) = q2
   \<and> dec_operation_request (drop srb_size (request_buffer query_result_op q3)) = q3
   \<and> dec_request_header (drop srb_size (request_buffer list_state_op q4)) = q4
   \<and> dec_reserved_create_request (drop srb_size (request_buffer create_reserved_op q5)) = q5
   \<and> dec_reserved_delete_request (drop srb_size (request_buffer delete_reserved_op q6)) = q6
   \<and> srb_control_code (dec_srb_io_control (request_buffer create_reserved_op q5))
       = operation_code Create_Reserved
   \<and> srb_control_code (dec_srb_io_control (request_buffer delete_reserved_op q6))
       = operation_code Delete_Reserved"
  by (simp add: request_buffer_def Let_def control_op_defs srb_io_control_wire.dec_enc
      control_header_wf, simp add: control_header_def)

text \<open>
  C28. And what the driver writes is what the client reads, for every operation, a mutation's response
  and an inventory alike. Of a reply that consists of a control header, a response in its wire format
  and any bytes behind it, the client makes exactly this response if the header is well formed and
  without an error, the bytes returned and the length in the header cover the response, and the response
  answers the request; and in every other case an error.
\<close>

theorem client_reads_the_response:
  assumes "length (srb_signature control) = 8" and "length (sr_disks inventory) = MAXIMUM_DISK_COUNT"
  shows "reads_back query_version_op enc_query_version_response control returned rest q1 version
    \<and> reads_back reserve_operation_op enc_operation_response control returned rest q2 response
    \<and> reads_back query_result_op enc_operation_response control returned rest q3 response
    \<and> reads_back list_state_op enc_state_response control returned rest q4 inventory
    \<and> reads_back create_reserved_op enc_operation_response control returned rest q5 response
    \<and> reads_back delete_reserved_op enc_operation_response control returned rest q6 response"
  by (intro conjI query_version.reads_response reserve_operation.reads_response query_result.reads_response
      list_state.reads_response create_reserved.reads_response delete_reserved.reads_response)
    (simp_all add: assms control_op_defs state_response_wire.length_enc state_response_wire.dec_enc)

definition sample_create_request :: reserved_create_request where
  "sample_create_request = \<lparr>
     rc_operation = \<lparr>
       oq_header = \<lparr>rq_struct_size = 64, rq_protocol_version = PROTOCOL_VERSION,
         rq_operation = operation_code Create_Reserved, rq_flags = 0, rq_correlation_id = 5\<rparr>,
       oq_adapter_instance = 123, oq_operation_id = 7\<rparr>,
     rc_size_bytes = 1048576, rc_logical_sector_size = 512, rc_media_kind = 1,
     rc_requested_drive_letter = 82, rc_reserved16 = 0, rc_reserved32 = 0\<rparr>"

definition sample_create_reply :: operation_response where
  "sample_create_reply = (sample_reply State_Succeeded)\<lparr>
     or_header := \<lparr>rs_struct_size = 64, rs_protocol_version = PROTOCOL_VERSION,
       rs_operation = operation_code Create_Reserved, rs_status = 0, rs_correlation_id = 5\<rparr>\<rparr>"

definition sample_inventory :: state_response where
  "sample_inventory = \<lparr>sr_header = \<lparr>rs_struct_size = 816, rs_protocol_version = PROTOCOL_VERSION,
       rs_operation = operation_code List_State, rs_status = 0, rs_correlation_id = 6\<rparr>,
     sr_adapter_instance = 123, sr_allocated_bytes = 1048576, sr_disk_count = 1, sr_pending_operations = 0,
     sr_disks = replicate 16 \<lparr>ds_disk = \<lparr>di_device_id = 9, di_path_id = 0, di_target_id = 0,
         di_lun = 3, di_reserved8 = 0, di_size_bytes = 1048576, di_logical_sector_size = 512,
         di_media_kind = 1, di_requested_drive_letter = 82, di_reserved16 = 0\<rparr>,
       ds_create_operation_id = 7, ds_state = 1, ds_reserved = 0\<rparr>\<rparr>"

definition sample_header :: request_header where
  "sample_header = \<lparr>rq_struct_size = 24, rq_protocol_version = PROTOCOL_VERSION,
     rq_operation = operation_code List_State, rq_flags = 0, rq_correlation_id = 6\<rparr>"

theorem client_reads_the_response_witness:
  "reply_of create_reserved_op sample_create_request
    (Ok (1024, take 1024 (enc_srb_io_control (control_header Create_Reserved)
       @ enc_operation_response sample_create_reply @ replicate 932 7))) = Ok sample_create_reply
   \<and> reply_of list_state_op sample_header
    (Ok (1024, take 1024 (enc_srb_io_control (control_header Create_Reserved)
       @ enc_state_response sample_inventory @ replicate 932 7))) = Ok sample_inventory"
proof -
  let ?control = "control_header Create_Reserved"
  have "length (srb_signature ?control) = 8" "length (sr_disks sample_inventory) = MAXIMUM_DISK_COUNT"
    by (simp_all add: control_header_wf sample_inventory_def MAXIMUM_DISK_COUNT_def)
  from client_reads_the_response [OF this, of 1024 "replicate 932 7" sample_header _ _ sample_create_reply _ sample_header]
  have "reads_back create_reserved_op enc_operation_response ?control 1024 (replicate 932 7)
      sample_create_request sample_create_reply"
    "reads_back list_state_op enc_state_response ?control 1024 (replicate 932 7) sample_header sample_inventory"
    by blast+
  moreover have "accepted create_reserved_op sample_create_request ?control 1024 sample_create_reply"
    "accepted list_state_op sample_header ?control 1024 sample_inventory"
    by (simp_all add: accepted_def answers_def control_header_def sample_create_request_def
        sample_create_reply_def sample_header_def sample_inventory_def create_reserved_op_def list_state_op_def)
  ultimately show ?thesis
    unfolding reads_back_def CONTROL_BUFFER_SIZE_eq by (auto split: sum.splits)
qed

end
