(* ===== verification/Args.thy ===== *)
theory Args
  imports Base
begin

text \<open>
  cli/src/args.rs: the command line. \<open>normalize_windows_args\<close> rewrites the Windows spelling of the
  options, clap (a parameter: its result is the record \<open>cli\<close>, what its groups guarantee is the
  predicate \<open>clap_groups\<close>) collects them, the \<open>FromStr\<close> implementations read the values, and
  \<open>into_command\<close> turns an accepted combination into a \<open>command\<close>.
\<close>

section \<open>Levels, letters and file systems\<close>

text \<open>\<open>tracing::level_filters::LevelFilter\<close>, ordered by verbosity.\<close>

datatype level_filter = Level_Off | Level_Error | Level_Warn | Level_Info | Level_Debug | Level_Trace

fun verbosity :: "level_filter \<Rightarrow> nat" where
  "verbosity Level_Off = 0"
| "verbosity Level_Error = 1"
| "verbosity Level_Warn = 2"
| "verbosity Level_Info = 3"
| "verbosity Level_Debug = 4"
| "verbosity Level_Trace = 5"

lemma verbosity_inj: "verbosity a = verbosity b \<longleftrightarrow> a = b"
  by (cases a; cases b) simp_all

instantiation level_filter :: linorder
begin

definition less_eq_level_filter :: "level_filter \<Rightarrow> level_filter \<Rightarrow> bool" where
  "less_eq_level_filter a b \<longleftrightarrow> verbosity a \<le> verbosity b"

definition less_level_filter :: "level_filter \<Rightarrow> level_filter \<Rightarrow> bool" where
  "less_level_filter a b \<longleftrightarrow> verbosity a < verbosity b"

instance
  by standard (auto simp: less_eq_level_filter_def less_level_filter_def verbosity_inj)

end

datatype file_system = Fat | Fat32 | Ntfs

definition default_file_system :: file_system where "default_file_system = Ntfs"

fun file_system_name :: "file_system \<Rightarrow> ustring" where
  "file_system_name Fat = lit ''FAT''"
| "file_system_name Fat32 = lit ''FAT32''"
| "file_system_name Ntfs = lit ''NTFS''"

definition parse_file_system :: "ustring \<Rightarrow> ustring + file_system" where
  "parse_file_system s = (let t = str_uppercase (str_trim s) in
     if t = lit ''FAT'' then Ok Fat
     else if t = lit ''FAT32'' then Ok Fat32
     else if t = lit ''NTFS'' then Ok Ntfs
     else Err (lit ''file system must be FAT, FAT32, or NTFS''))"

datatype media_kind = Fixed | Removable

fun media_kind_name :: "media_kind \<Rightarrow> ustring" where
  "media_kind_name Fixed = lit ''fixed''"
| "media_kind_name Removable = lit ''removable''"

text \<open>\<open>DriveLetter(char)\<close>.\<close>

datatype drive_letter = Drive_Letter nat

fun as_ascii :: "drive_letter \<Rightarrow> u8" where
  "as_ascii (Drive_Letter c) = word_of_nat c"

fun drive_letter_display :: "drive_letter \<Rightarrow> ustring" where
  "drive_letter_display (Drive_Letter c) = [c] @ lit '':''"

definition parse_drive_letter :: "ustring \<Rightarrow> ustring + drive_letter" where
  "parse_drive_letter s =
     (case trim_end_by (\<lambda>c. c = 58) (str_trim s) of
        [] \<Rightarrow> Err (lit ''drive letter is empty'')
      | letter # rest \<Rightarrow>
          if rest \<noteq> [] \<or> \<not> is_ascii_alphabetic letter
          then Err (lit ''drive letter must be one ASCII letter, such as R or R:'')
          else Ok (Drive_Letter (to_ascii_uppercase letter)))"

text \<open>The letters that parsing produces.\<close>

fun valid_letter :: "drive_letter \<Rightarrow> bool" where
  "valid_letter (Drive_Letter c) \<longleftrightarrow> is_ascii_uppercase c"

section \<open>Sizes\<close>

definition parse_u64 :: "ustring \<Rightarrow> u64 option" where
  "parse_u64 s = (if s \<noteq> [] \<and> list_all is_ascii_digit s \<and> dec_value s < 2 ^ 64
     then Some (word_of_nat (dec_value s)) else None)"

definition checked_mul :: "u64 \<Rightarrow> u64 \<Rightarrow> u64 option" where
  "checked_mul a b = (if unat a * unat b < 2 ^ 64 then Some (a * b) else None)"

text \<open>The \<open>match suffix\<close>, as a table.\<close>

definition size_units :: "(ustring \<times> u64) list" where
  "size_units =
    [(lit '''', 1), (lit ''B'', 1), (lit ''KB'', 1000), (lit ''KIB'', 1024),
     (lit ''MB'', 1000000), (lit ''MIB'', 1048576), (lit ''GB'', 1000000000),
     (lit ''GIB'', 1073741824), (lit ''TB'', 1000000000000), (lit ''TIB'', 1099511627776)]"

definition parse_byte_size :: "ustring \<Rightarrow> ustring + u64" where
  "parse_byte_size s =
     (let value = str_trim s;
          numeric = (\<lambda>c. is_ascii_digit c \<or> c = 95);
          number = filter (\<lambda>c. c \<noteq> 95) (takeWhile numeric value);
          suffix = dropWhile numeric value in
      if number = [] then Err (lit ''size must start with an integer'')
      else try_res (ok_or (parse_u64 number) (lit ''size is not a valid 64-bit integer'')) (\<lambda>amount.
        try_res (ok_or (map_of size_units (str_uppercase suffix))
            (lit ''unknown size suffix; use B, KB, KiB, MB, MiB, GB, GiB, TB, or TiB'')) (\<lambda>multiplier.
          ok_or (checked_mul amount multiplier) (lit ''size is too large''))))"

section \<open>Commands\<close>

definition MIN_DISK_SIZE :: u64 where "MIN_DISK_SIZE = 16 * 1024 * 1024"
definition MIN_FAT32_DISK_SIZE :: u64 where "MIN_FAT32_DISK_SIZE = 64 * 1024 * 1024"
definition MAX_DISK_SIZE :: u64 where "MAX_DISK_SIZE = 256 * 1024 * 1024"
definition LOGICAL_SECTOR_SIZE :: u64 where "LOGICAL_SECTOR_SIZE = 512"

record cli =
  cli_add :: bool
  cli_delete :: bool
  cli_force :: bool
  cli_list :: bool
  cli_json :: bool
  cli_id :: "u32 option"
  cli_adapter :: "u64 option"
  cli_hdd :: bool
  cli_removable :: bool
  cli_letter :: "drive_letter option"
  cli_size :: "u64 option"
  cli_file_system :: "file_system option"
  cli_log :: "level_filter option"

datatype command =
    List_Inventory bool
  | Delete_Id u64 u32 bool
  | Add drive_letter media_kind u64 file_system
  | Delete drive_letter bool

datatype validation_error =
    Unexpected_Options | Force_Without_Delete | Delete_Identity | Missing_Letter | Missing_Media
  | Missing_Size | Media_On_Delete | Size_On_Delete | File_System_On_Delete | Size_Too_Small
  | Fat32_Size_Too_Small | Size_Too_Large | Unaligned_Size

fun media_choice :: "bool \<Rightarrow> bool \<Rightarrow> validation_error + media_kind" where
  "media_choice True False = Ok Fixed"
| "media_choice False True = Ok Removable"
| "media_choice _ _ = Err Missing_Media"

definition chosen_file_system :: "cli \<Rightarrow> file_system" where
  "chosen_file_system c = (case cli_file_system c of None \<Rightarrow> default_file_system | Some fs \<Rightarrow> fs)"

definition add_command :: "cli \<Rightarrow> validation_error + command" where
  "add_command c =
     try_res (ok_or (cli_letter c) Missing_Letter) (\<lambda>letter.
     try_res (media_choice (cli_hdd c) (cli_removable c)) (\<lambda>media.
     try_res (ok_or (cli_size c) Missing_Size) (\<lambda>sz.
     let file_system = chosen_file_system c in
     if file_system = Fat32 \<and> sz < MIN_FAT32_DISK_SIZE then Err Fat32_Size_Too_Small
     else if sz < MIN_DISK_SIZE then Err Size_Too_Small
     else if MAX_DISK_SIZE < sz then Err Size_Too_Large
     else if sz mod LOGICAL_SECTOR_SIZE \<noteq> 0 then Err Unaligned_Size
     else Ok (Add letter media sz file_system))))"

definition delete_command :: "cli \<Rightarrow> validation_error + command" where
  "delete_command c =
     (if cli_hdd c \<or> cli_removable c then Err Media_On_Delete
      else if cli_size c \<noteq> None then Err Size_On_Delete
      else if cli_file_system c \<noteq> None then Err File_System_On_Delete
      else case (cli_letter c, cli_id c, cli_adapter c) of
        (Some letter, None, None) \<Rightarrow> Ok (Delete letter (cli_force c))
      | (None, Some ident, Some adapter) \<Rightarrow>
          if ident \<noteq> 0 \<and> adapter \<noteq> 0 then Ok (Delete_Id adapter ident (cli_force c))
          else Err Delete_Identity
      | (None, None, None) \<Rightarrow> Err Missing_Letter
      | _ \<Rightarrow> Err Delete_Identity)"

definition into_command :: "cli \<Rightarrow> validation_error + command" where
  "into_command c =
     (if cli_force c \<and> \<not> cli_delete c then Err Force_Without_Delete
      else if cli_list c then
        (if cli_letter c \<noteq> None \<or> cli_size c \<noteq> None \<or> cli_file_system c \<noteq> None \<or> cli_hdd c
            \<or> cli_removable c \<or> cli_id c \<noteq> None \<or> cli_adapter c \<noteq> None
         then Err Unexpected_Options
         else Ok (List_Inventory (cli_json c)))
      else if cli_json c \<or> cli_add c \<and> (cli_id c \<noteq> None \<or> cli_adapter c \<noteq> None)
      then Err Unexpected_Options
      else if cli_add c then add_command c
      else delete_command c)"

text \<open>
  The clap attributes: one operation is required and excludes the others, the media switches
  exclude each other, and logs are not mixed into JSON output.
\<close>

definition clap_groups :: "cli \<Rightarrow> bool" where
  "clap_groups c \<longleftrightarrow>
     length (filter (\<lambda>b. b) [cli_add c, cli_delete c, cli_list c]) = 1
     \<and> \<not> (cli_hdd c \<and> cli_removable c) \<and> \<not> (cli_json c \<and> cli_log c \<noteq> None)"

fun force_suffix :: "bool \<Rightarrow> ustring" where
  "force_suffix True = lit '' (force)''"
| "force_suffix False = []"

fun command_display :: "command \<Rightarrow> ustring" where
  "command_display (List_Inventory json) = lit ''list WispDisk allocations''"
| "command_display (Delete_Id adapter ident force) =
     lit ''delete WispDisk device '' @ dec_digits (unat ident) @ lit '' on adapter instance ''
     @ dec_digits (unat adapter) @ force_suffix force"
| "command_display (Add letter media sz fs) =
     lit ''add '' @ media_kind_name media @ lit '' disk at '' @ drive_letter_display letter
     @ lit '' with '' @ dec_digits (unat sz) @ lit '' bytes formatted as '' @ file_system_name fs"
| "command_display (Delete letter force) =
     lit ''delete virtual disk at '' @ drive_letter_display letter @ force_suffix force"

fun validation_message :: "validation_error \<Rightarrow> ustring" where
  "validation_message Unexpected_Options = lit ''options are not valid for the selected operation''"
| "validation_message Force_Without_Delete = lit ''/force is only valid with /del''"
| "validation_message Delete_Identity =
     lit ''delete requires either /letter or both nonzero /adapter and /id''"
| "validation_message Missing_Letter = lit ''/letter is required''"
| "validation_message Missing_Media = lit ''exactly one of /hdd or /rem is required with /add''"
| "validation_message Missing_Size = lit ''/size is required with /add''"
| "validation_message Media_On_Delete = lit ''/hdd and /rem are only valid with /add''"
| "validation_message Size_On_Delete = lit ''/size is only valid with /add''"
| "validation_message File_System_On_Delete = lit ''/fs is only valid with /add''"
| "validation_message Size_Too_Small = lit ''disk size must be at least 16 MiB''"
| "validation_message Fat32_Size_Too_Small =
     lit ''disk size must be at least 64 MiB for FAT32 formatting''"
| "validation_message Size_Too_Large = lit ''disk size must not exceed 256 MiB in this release''"
| "validation_message Unaligned_Size = lit ''disk size must be a multiple of 512 bytes''"

section \<open>Windows spelling of the options\<close>

text \<open>An \<open>OsString\<close>: text, or units that are not Unicode (\<open>to_str\<close> gives \<open>None\<close>).\<close>

datatype os_string = Unicode ustring | Not_Unicode "u16 list"

definition canonical_options :: "(ustring \<times> ustring) list" where
  "canonical_options =
    [(lit ''list'', lit ''list''), (lit ''json'', lit ''json''), (lit ''id'', lit ''id''),
     (lit ''adapter'', lit ''adapter''), (lit ''add'', lit ''add''), (lit ''del'', lit ''del''),
     (lit ''force'', lit ''force''), (lit ''hdd'', lit ''hdd''), (lit ''rem'', lit ''rem''),
     (lit ''letter'', lit ''letter''), (lit ''size'', lit ''size''), (lit ''fs'', lit ''fs''),
     (lit ''log'', lit ''log''), (lit ''help'', lit ''help''), (lit ''?'', lit ''help''),
     (lit ''version'', lit ''version'')]"

definition normalize_slash_option :: "ustring \<Rightarrow> ustring option" where
  "normalize_slash_option opt =
     (let (name, value) = (case split_once 58 opt of
            None \<Rightarrow> (opt, None) | Some (n, v) \<Rightarrow> (n, Some v)) in
      if str_lowercase name = lit ''timings'' then Some (lit ''--log=debug'')
      else map_option (\<lambda>canonical. lit ''--'' @ canonical
          @ (case value of None \<Rightarrow> [] | Some v \<Rightarrow> lit ''='' @ v))
        (map_of canonical_options (str_lowercase name)))"

fun normalize_one :: "os_string \<Rightarrow> os_string" where
  "normalize_one (Unicode (c # opt)) =
     (if c = 47
      then case normalize_slash_option opt of
          None \<Rightarrow> Unicode (c # opt)
        | Some t \<Rightarrow> Unicode t
      else Unicode (c # opt))"
| "normalize_one a = a"

definition normalize_windows_args :: "os_string list \<Rightarrow> os_string list" where
  "normalize_windows_args = map normalize_one"

section \<open>What is accepted\<close>

text \<open>
  The specification of the command line: when a set of options stands for a command.
\<close>

fun stands_for :: "cli \<Rightarrow> command \<Rightarrow> bool" where
  "stands_for c (List_Inventory json) \<longleftrightarrow>
     cli_list c \<and> cli_json c = json \<and> \<not> cli_force c \<and> cli_letter c = None \<and> cli_size c = None
     \<and> cli_file_system c = None \<and> \<not> cli_hdd c \<and> \<not> cli_removable c \<and> cli_id c = None
     \<and> cli_adapter c = None"
| "stands_for c (Add letter media sz fs) \<longleftrightarrow>
     cli_add c \<and> \<not> cli_json c \<and> \<not> cli_force c \<and> cli_id c = None \<and> cli_adapter c = None
     \<and> cli_letter c = Some letter \<and> (cli_hdd c \<longleftrightarrow> media = Fixed)
     \<and> (cli_removable c \<longleftrightarrow> media = Removable) \<and> cli_size c = Some sz
     \<and> fs = chosen_file_system c
     \<and> 2 ^ 24 \<le> unat sz \<and> unat sz \<le> 2 ^ 28 \<and> 512 dvd unat sz
     \<and> (fs = Fat32 \<longrightarrow> 2 ^ 26 \<le> unat sz)"
| "stands_for c (Delete letter force) \<longleftrightarrow>
     cli_delete c \<and> cli_force c = force \<and> \<not> cli_json c \<and> cli_letter c = Some letter
     \<and> cli_id c = None \<and> cli_adapter c = None \<and> \<not> cli_hdd c \<and> \<not> cli_removable c
     \<and> cli_size c = None \<and> cli_file_system c = None"
| "stands_for c (Delete_Id adapter ident force) \<longleftrightarrow>
     cli_delete c \<and> cli_force c = force \<and> \<not> cli_json c \<and> cli_letter c = None
     \<and> cli_id c = Some ident \<and> cli_adapter c = Some adapter \<and> ident \<noteq> 0 \<and> adapter \<noteq> 0
     \<and> \<not> cli_hdd c \<and> \<not> cli_removable c \<and> cli_size c = None \<and> cli_file_system c = None"

lemma size_limits:
  "sz < MIN_DISK_SIZE \<longleftrightarrow> \<not> 2 ^ 24 \<le> unat sz"
  "sz < MIN_FAT32_DISK_SIZE \<longleftrightarrow> \<not> 2 ^ 26 \<le> unat sz"
  "MAX_DISK_SIZE < sz \<longleftrightarrow> \<not> unat sz \<le> 2 ^ 28"
  "sz mod LOGICAL_SECTOR_SIZE = 0 \<longleftrightarrow> 512 dvd unat sz"
  by (auto simp: MIN_DISK_SIZE_def MIN_FAT32_DISK_SIZE_def MAX_DISK_SIZE_def
      LOGICAL_SECTOR_SIZE_def word_less_nat_alt unat_eq_zero [symmetric] unat_mod dvd_eq_mod_eq_0)

lemma add_command_Ok:
  assumes "\<not> (cli_hdd c \<and> cli_removable c)"
  shows "add_command c = Ok cmd \<longleftrightarrow> (\<exists>letter media sz fs. cmd = Add letter media sz fs
     \<and> cli_letter c = Some letter \<and> (cli_hdd c \<longleftrightarrow> media = Fixed)
     \<and> (cli_removable c \<longleftrightarrow> media = Removable) \<and> cli_size c = Some sz
     \<and> fs = chosen_file_system c
     \<and> 2 ^ 24 \<le> unat sz \<and> unat sz \<le> 2 ^ 28 \<and> 512 dvd unat sz
     \<and> (fs = Fat32 \<longrightarrow> 2 ^ 26 \<le> unat sz))"
proof -
  have media: "media_choice (cli_hdd c) (cli_removable c) = Ok m \<longleftrightarrow>
      (cli_hdd c \<longleftrightarrow> m = Fixed) \<and> (cli_removable c \<longleftrightarrow> m = Removable)" for m
    using assms by (cases "cli_hdd c"; cases "cli_removable c"; cases m) auto
  show ?thesis
    by (auto simp: add_command_def try_res_Ok_iff ok_or_Ok_iff media Let_def size_limits)
qed

lemma delete_command_Ok:
  "delete_command c = Ok cmd \<longleftrightarrow> \<not> cli_hdd c \<and> \<not> cli_removable c \<and> cli_size c = None
     \<and> cli_file_system c = None
     \<and> ((\<exists>letter. cmd = Delete letter (cli_force c) \<and> cli_letter c = Some letter
            \<and> cli_id c = None \<and> cli_adapter c = None)
        \<or> (\<exists>adapter ident. cmd = Delete_Id adapter ident (cli_force c) \<and> cli_letter c = None
            \<and> cli_id c = Some ident \<and> cli_adapter c = Some adapter \<and> ident \<noteq> 0 \<and> adapter \<noteq> 0))"
  by (cases "cli_letter c"; cases "cli_id c"; cases "cli_adapter c") (auto simp: delete_command_def)

text \<open>
  C30. The command line is accepted exactly when it stands for a command: among what clap lets
  through, \<open>into_command\<close> yields a command if and only if the options specify it, within the size
  limits (16 MiB, 64 MiB for FAT32, 256 MiB, whole sectors), with nonzero deletion identities
  and no option of another operation.
\<close>

theorem into_command_exact:
  assumes "clap_groups c"
  shows "into_command c = Ok cmd \<longleftrightarrow> stands_for c cmd"
proof -
  have one: "\<not> (cli_hdd c \<and> cli_removable c)"
      "(cli_add c \<and> \<not> cli_delete c \<and> \<not> cli_list c) \<or> (\<not> cli_add c \<and> cli_delete c \<and> \<not> cli_list c)
        \<or> (\<not> cli_add c \<and> \<not> cli_delete c \<and> cli_list c)"
    using assms by (auto simp: clap_groups_def split: if_splits)
  then show ?thesis
    by (cases cmd) (auto simp: into_command_def add_command_Ok delete_command_Ok)
qed

definition sample_cli :: cli where
  "sample_cli = \<lparr>cli_add = True, cli_delete = False, cli_force = False, cli_list = False,
     cli_json = False, cli_id = None, cli_adapter = None, cli_hdd = False, cli_removable = True,
     cli_letter = Some (Drive_Letter 82), cli_size = Some 134217728, cli_file_system = None,
     cli_log = None\<rparr>"

theorem into_command_exact_witness:
  "clap_groups sample_cli
   \<and> into_command sample_cli = Ok (Add (Drive_Letter 82) Removable 134217728 Ntfs)"
proof
  show groups: "clap_groups sample_cli" by (simp add: clap_groups_def sample_cli_def)
  show "into_command sample_cli = Ok (Add (Drive_Letter 82) Removable 134217728 Ntfs)"
    unfolding into_command_exact [OF groups] by (simp add: sample_cli_def chosen_file_system_def
      default_file_system_def)
qed

section \<open>Reading and printing values\<close>

lemma takeWhile_digits_unit:
  assumes "list_all (\<lambda>c. is_ascii_digit c) ds" and "u = [] \<or> \<not> is_ascii_digit (hd u) \<and> hd u \<noteq> 95"
  shows "takeWhile (\<lambda>c. is_ascii_digit c \<or> c = 95) (ds @ u) = ds"
    and "dropWhile (\<lambda>c. is_ascii_digit c \<or> c = 95) (ds @ u) = u"
  using assms by (induction ds) (cases u; auto)+

lemma digits_no_underscore: "list_all is_ascii_digit ds \<Longrightarrow> filter (\<lambda>c. c \<noteq> 95) ds = ds"
  by (induction ds) (auto simp: is_ascii_digit_def)

lemma digit_not_space: "is_ascii_digit c \<Longrightarrow> \<not> is_whitespace c"
  by (auto simp: is_ascii_digit_def is_whitespace_def)

lemma letter_not_space: "is_ascii_alphabetic c \<Longrightarrow> \<not> is_whitespace c"
  by (auto simp: ascii_defs is_whitespace_def)

lemma upper_alphabetic: "is_ascii_alphabetic (to_ascii_uppercase c) \<longleftrightarrow> is_ascii_alphabetic c"
  by (auto simp: ascii_defs)

lemma unit_alphabetic:
  assumes "map_of size_units (str_uppercase u) = Some m"
  shows "list_all is_ascii_alphabetic u"
proof -
  have table: "list_all (\<lambda>(n, _). list_all is_ascii_alphabetic n) size_units"
    by (simp add: size_units_def lit_def ascii_defs)
  from map_of_SomeD [OF assms] table have "list_all is_ascii_alphabetic (str_uppercase u)"
    by (auto simp: list_all_iff)
  then show ?thesis
    by (simp add: str_uppercase_def list_all_iff upper_alphabetic)
qed

text \<open>
  C31. A size is read exactly: decimal digits followed by a unit of the table, in any case,
  denote the product of the two, and the size is accepted if and only if that product, like the
  number itself, fits 64 bits; otherwise it is rejected, never wrapped around.
\<close>

theorem parse_byte_size_exact:
  assumes "map_of size_units (str_uppercase u) = Some multiplier"
  shows "parse_byte_size (dec_digits n @ u) =
    (if n < 2 ^ 64
     then if n * unat multiplier < 2 ^ 64 then Ok (word_of_nat (n * unat multiplier))
       else Err (lit ''size is too large'')
     else Err (lit ''size is not a valid 64-bit integer''))"
proof -
  have digits: "list_all is_ascii_digit (dec_digits n)"
    using dec_digits_are_digits by (simp add: list_all_iff)
  have alpha: "list_all is_ascii_alphabetic u" by (rule unit_alphabetic [OF assms])
  have trim: "str_trim (dec_digits n @ u) = dec_digits n @ u"
    unfolding str_trim_def
  proof (rule trim_by_all_not)
    show "\<forall>c \<in> set (dec_digits n @ u). \<not> is_whitespace c"
      using digits alpha by (auto simp: list_all_iff dest: digit_not_space letter_not_space)
  qed
  have unit: "u = [] \<or> \<not> is_ascii_digit (hd u) \<and> hd u \<noteq> 95"
    using alpha by (cases u) (auto simp: ascii_defs)
  have mult: "word_of_nat n * multiplier = (word_of_nat (n * unat multiplier) :: u64)" by simp
  show ?thesis
    by (auto simp: parse_byte_size_def Let_def trim takeWhile_digits_unit [OF digits unit]
        digits_no_underscore [OF digits] assms parse_u64_def digits checked_mul_def
        unsigned_of_nat take_bit_nat_eq_self)
qed

theorem parse_byte_size_exact_witness:
  "parse_byte_size (dec_digits 64 @ lit ''MiB'') = Ok 67108864"
  using parse_byte_size_exact [of "lit ''MiB''" 1048576 64]
  by (simp add: size_units_def lit_def str_uppercase_def ascii_defs)

lemma trim_end_singleton:
  "trim_end_by (\<lambda>c. c = x) t = [l] \<longleftrightarrow> l \<noteq> x \<and> (\<exists>k. t = l # replicate k x)"
proof
  assume trim: "trim_end_by (\<lambda>c. c = x) t = [l]"
  let ?r = "rev t"
  have "?r = takeWhile (\<lambda>c. c = x) ?r @ [l]"
    using trim takeWhile_dropWhile_id [of "\<lambda>c. c = x" ?r]
    by (simp add: trim_end_by_def rev_swap)
  moreover have "takeWhile (\<lambda>c. c = x) ?r = replicate (length (takeWhile (\<lambda>c. c = x) ?r)) x"
    by (auto simp: list_eq_iff_nth_eq dest: nth_mem set_takeWhileD)
  ultimately have "?r = replicate (length (takeWhile (\<lambda>c. c = x) ?r)) x @ [l]"
    by metis
  then have "t = l # replicate (length (takeWhile (\<lambda>c. c = x) ?r)) x"
    by (metis rev_append rev_replicate rev_rev_ident rev_singleton_conv append_Cons append_Nil)
  moreover have "l \<noteq> x"
    using trim hd_dropWhile [of "\<lambda>c. c = x" ?r] by (auto simp: trim_end_by_def rev_swap)
  ultimately show "l \<noteq> x \<and> (\<exists>k. t = l # replicate k x)" by blast
next
  assume "l \<noteq> x \<and> (\<exists>k. t = l # replicate k x)"
  then obtain k where "l \<noteq> x" "t = l # replicate k x" by blast
  moreover have "dropWhile (\<lambda>c. c = x) (replicate k x @ [l]) = [l]"
    using \<open>l \<noteq> x\<close> by (induction k) auto
  ultimately show "trim_end_by (\<lambda>c. c = x) t = [l]"
    by (simp add: trim_end_by_def)
qed

text \<open>
  A drive letter is read exactly: after trimming, one ASCII letter followed by any number of
  colons, in either case; the result is an upper-case letter, and printing it gives text that
  reads back as the same letter.
\<close>

theorem parse_drive_letter_exact:
  "(parse_drive_letter s = Ok d \<longleftrightarrow>
      (\<exists>l k. str_trim s = l # replicate k 58 \<and> is_ascii_alphabetic l
         \<and> d = Drive_Letter (to_ascii_uppercase l)))
   \<and> (valid_letter d = (parse_drive_letter (drive_letter_display d) = Ok d))"
proof -
  have exact: "parse_drive_letter s = Ok d \<longleftrightarrow>
      (\<exists>l k. str_trim s = l # replicate k 58 \<and> is_ascii_alphabetic l
         \<and> d = Drive_Letter (to_ascii_uppercase l))" for s d
  proof -
    have "parse_drive_letter s = Ok d \<longleftrightarrow> (\<exists>l. trim_end_by (\<lambda>c. c = 58) (str_trim s) = [l]
        \<and> is_ascii_alphabetic l \<and> d = Drive_Letter (to_ascii_uppercase l))"
      by (auto simp: parse_drive_letter_def split: list.splits)
    then show ?thesis
      by (auto simp: trim_end_singleton ascii_defs)
  qed
  have printed: "valid_letter d = (parse_drive_letter (drive_letter_display d) = Ok d)"
  proof (cases d)
    case (Drive_Letter c)
    have trim: "str_trim (c # [58]) = c # replicate 1 58" if "is_ascii_alphabetic c"
      using letter_not_space [OF that]
      by (simp add: str_trim_def trim_by_all_not is_whitespace_def)
    have upper: "is_ascii_uppercase c \<longleftrightarrow> is_ascii_alphabetic c \<and> to_ascii_uppercase c = c"
      by (auto simp: ascii_defs)
    have all: "is_ascii_uppercase (to_ascii_uppercase l)" if "is_ascii_alphabetic l" for l
      using that by (auto simp: ascii_defs)
    show ?thesis
      using trim upper all unfolding exact Drive_Letter
      by (auto simp: lit_def) (metis replicate_0 replicate_Suc)
  qed
  from exact printed show ?thesis by blast
qed

lemma canonical_name_no_colon:
  assumes "map_of canonical_options (str_lowercase n) = Some canon"
  shows "58 \<notin> set n" and "str_lowercase n \<noteq> lit ''timings''"
proof -
  have names: "list_all (\<lambda>(a, _). 58 \<notin> set a \<and> a \<noteq> lit ''timings'') canonical_options"
    by (simp add: canonical_options_def lit_def)
  from map_of_SomeD [OF assms] names
  have "58 \<notin> set (str_lowercase n)" "str_lowercase n \<noteq> lit ''timings''"
    by (auto simp: list_all_iff)
  moreover have "58 \<in> set n \<Longrightarrow> 58 \<in> set (str_lowercase n)"
    by (force simp: str_lowercase_def ascii_defs)
  ultimately show "58 \<notin> set n" "str_lowercase n \<noteq> lit ''timings''" by auto
qed

lemma normalize_one_dashes:
  "normalize_one a = a \<or> (\<exists>t. normalize_one a = Unicode (45 # 45 # t))"
  by (cases a rule: normalize_one.cases)
    (auto simp: normalize_slash_option_def lit_def Let_def split: option.splits prod.splits if_splits)

lemma normalize_one_idem: "normalize_one (normalize_one a) = normalize_one a"
  using normalize_one_dashes [of a] by auto

text \<open>
  The Windows spelling: an option of the table, in any case, becomes its long GNU option with
  its value, if any, kept verbatim; everything that is not such an option is left alone, and
  normalising twice changes nothing more.
\<close>

theorem normalize_windows_args_spelling:
  assumes "map_of canonical_options (str_lowercase n) = Some canon"
  shows "normalize_windows_args
      [Unicode (47 # n), Unicode (47 # n @ [58] @ v), Not_Unicode u]
    = [Unicode (lit ''--'' @ canon), Unicode (lit ''--'' @ canon @ [61] @ v), Not_Unicode u]
    \<and> normalize_windows_args (normalize_windows_args as) = normalize_windows_args as"
proof -
  note n = canonical_name_no_colon [OF assms]
  have none: "split_once 58 n = None" using n(1) by (simp add: split_once_None)
  have some: "split_once 58 (n @ 58 # v) = Some (n, v)" using n(1) by (simp add: split_once_Some)
  show ?thesis
    using assms n(2) none some
    by (simp add: normalize_windows_args_def normalize_slash_option_def normalize_one_idem lit_def)
qed

theorem normalize_windows_args_spelling_witness:
  "normalize_windows_args [Unicode (lit ''/Letter''), Unicode (lit ''/Letter:R''), Not_Unicode [0xD800]]
   = [Unicode (lit ''--letter''), Unicode (lit ''--letter=R''), Not_Unicode [0xD800]]"
  using normalize_windows_args_spelling [of "lit ''Letter''" "lit ''letter''" "lit ''R''" "[0xD800]"]
  by (simp add: canonical_options_def lit_def str_lowercase_def ascii_defs)

end
