(* ===== verification/Adapter.thy ===== *)
theory Adapter
  imports Transport Args
begin

text \<open>
  adapter/mod.rs and adapter/reserved_operation.rs: the typed requests of the driver's management
  interface, the reserved create and delete with their recovery, and the lazy scan of the SCSI
  ports for adapters. \<open>ReservedOperation\<close> is the record of its three methods; its deadline makes it
  an interpretation of \<open>bounded_attempt\<close>, so that every mutation terminates.
\<close>

section \<open>Requests\<close>

definition DEVICE_WAIT :: nat where "DEVICE_WAIT = 30 * 1000000000"
definition RETRY_INTERVAL :: nat where "RETRY_INTERVAL = 200 * 1000000"
definition SCSI_PORT_LIMIT :: nat where "SCSI_PORT_LIMIT = 256"
definition LOGICAL_SECTOR_SIZE_32 :: u32 where "LOGICAL_SECTOR_SIZE_32 = 512"

definition new_request_header :: "('q, 'r) control_op \<Rightarrow> ('w, request_header) sys_io" where
  "new_request_header C = map_io (\<lambda>correlation_id. \<lparr>
     rq_struct_size = word_of_nat (co_request_size C), rq_protocol_version = PROTOCOL_VERSION,
     rq_operation = operation_code (co_code C), rq_flags = 0,
     rq_correlation_id = correlation_id\<rparr>) fetch_correlation_id"

definition new_operation_request ::
  "('q, 'r) control_op \<Rightarrow> operation_handle \<Rightarrow> ('w, operation_request) sys_io" where
  "new_operation_request C h = map_io (\<lambda>header. \<lparr>oq_header = header,
     oq_adapter_instance = oh_instance h, oq_operation_id = oh_id h\<rparr>) (new_request_header C)"

definition check_version :: "query_version_response \<Rightarrow> query_version_response result" where
  "check_version r =
     (if qv_version_major r \<noteq> 0 \<or> qv_version_minor r < 2
      then Err (Msg (lit ''unsupported loaded driver version ''
        @ dec_digits (unat (qv_version_major r)) @ lit ''.'' @ dec_digits (unat (qv_version_minor r))))
      else if unat (qv_maximum_disk_count r) > MAXIMUM_DISK_COUNT
      then Err (Msg (lit ''driver reports a disk-count limit larger than the shared ABI''))
      else Ok r)"

definition query_version :: "'w os \<Rightarrow> adapter \<Rightarrow> ('w, query_version_response result) sys_io" where
  "query_version os a =
     bind_io (new_request_header query_version_op) (\<lambda>request.
       try_io (send os a query_version_op request) (\<lambda>response.
         return_io (check_version response)))"

definition require_recovery :: "'w os \<Rightarrow> adapter \<Rightarrow> ('w, unit result) sys_io" where
  "require_recovery os a = try_io (query_version os a) (\<lambda>v.
     ensure_io (qv_capabilities v AND CAP_OPERATION_RECOVERY \<noteq> 0)
       (Msg (lit ''loaded WispDisk driver lacks operation recovery; upgrade the driver before creating or deleting disks'')))"

definition reserve_operation :: "'w os \<Rightarrow> adapter \<Rightarrow> operation \<Rightarrow> ('w, operation_handle result) sys_io" where
  "reserve_operation os a mutation =
     try_io (require_recovery os a) (\<lambda>_.
     bind_io (new_request_header reserve_operation_op) (\<lambda>header.
     try_io (send os a reserve_operation_op
         \<lparr>rr_header = header, rr_mutation = operation_code mutation, rr_reserved = 0\<rparr>) (\<lambda>response.
       if or_mutation response \<noteq> operation_code mutation
       then fail_io (Msg (lit ''driver returned an invalid operation reservation''))
       else return_io (handle_of_response response))))"

definition query_operation ::
  "'w os \<Rightarrow> adapter \<Rightarrow> operation_handle \<Rightarrow> ('w, operation_response result) sys_io" where
  "query_operation os a h =
     bind_io (new_operation_request query_result_op h) (send os a query_result_op)"

definition adapter_state :: "'w os \<Rightarrow> adapter \<Rightarrow> ('w, state_response result) sys_io" where
  "adapter_state os a =
     bind_io (new_request_header list_state_op) (\<lambda>request.
       try_io (send os a list_state_op request) (\<lambda>response.
         if \<not> is_valid_state response
         then fail_io (Msg (lit ''driver returned invalid inventory''))
         else ok_io response))"

section \<open>A reserved mutation\<close>

text \<open>reserved_operation.rs; the deadline is fixed when the attempt is created.\<close>

definition wait_for_retry :: "'w os \<Rightarrow> nat \<Rightarrow> ('w, bool) sys_io" where
  "wait_for_retry os deadline = bind_io now (\<lambda>t.
     if t \<ge> deadline then return_io False
     else bind_io (sleep os (min RETRY_INTERVAL (deadline - t))) (\<lambda>_.
       map_io (\<lambda>t'. t' < deadline) now))"

definition reserved_attempt ::
  "'w os \<Rightarrow> adapter \<Rightarrow> ('q, operation_response) control_op \<Rightarrow> 'q \<Rightarrow> operation_handle \<Rightarrow> nat
     \<Rightarrow> ('w sys, os_event) recovery_attempt" where
  "reserved_attempt os a C request h deadline = \<lparr>
     ra_submit = send os a C request,
     ra_query = query_operation os a h,
     ra_wait_for_retry = wait_for_retry os deadline\<rparr>"

definition recover ::
  "'w os \<Rightarrow> adapter \<Rightarrow> ('q, operation_response) control_op \<Rightarrow> operation_handle \<Rightarrow> operation \<Rightarrow> 'q
     \<Rightarrow> ('w, operation_response result) sys_io" where
  "recover os a C h mutation request = bind_io now (\<lambda>t.
     resolve_operation h mutation (reserved_attempt os a C request h (t + DEVICE_WAIT)))"

record created_disk =
  cd_adapter_instance :: u64
  cd_device_id :: u32
  cd_path_id :: u8
  cd_target_id :: u8
  cd_lun :: u8

definition created_disk_of_response :: "operation_response \<Rightarrow> created_disk result" where
  "created_disk_of_response r =
     (if \<not> is_valid_created_disk r
      then Err (Msg (lit ''driver returned an invalid created disk identity''))
      else Ok \<lparr>cd_adapter_instance = or_adapter_instance r, cd_device_id = or_device_id r,
        cd_path_id = or_path_id r, cd_target_id = or_target_id r, cd_lun = or_lun r\<rparr>)"

fun protocol_media :: "media_kind \<Rightarrow> u32" where
  "protocol_media Fixed = media_code Media_Fixed"
| "protocol_media Removable = media_code Media_Removable"

definition create_message ::
  "operation_request \<Rightarrow> drive_letter \<Rightarrow> media_kind \<Rightarrow> u64 \<Rightarrow> reserved_create_request" where
  "create_message op letter media size_bytes = \<lparr>rc_operation = op, rc_size_bytes = size_bytes,
     rc_logical_sector_size = LOGICAL_SECTOR_SIZE_32, rc_media_kind = protocol_media media,
     rc_requested_drive_letter = ucast (as_ascii letter), rc_reserved16 = 0, rc_reserved32 = 0\<rparr>"

definition create_disk ::
  "'w os \<Rightarrow> adapter \<Rightarrow> drive_letter \<Rightarrow> media_kind \<Rightarrow> u64 \<Rightarrow> ('w, created_disk result) sys_io" where
  "create_disk os a letter media size_bytes =
     try_io (reserve_operation os a Create_Disk) (\<lambda>h.
     bind_io (new_operation_request create_reserved_op h) (\<lambda>op.
     try_io (recover os a create_reserved_op h Create_Disk
         (create_message op letter media size_bytes)) (\<lambda>response.
       return_io (map_err (Context (Unresolved_Outcome h)) (created_disk_of_response response)))))"

text \<open>\<open>any(|entry| entry.disk.device_id == device_id)\<close> over the live entries.\<close>

definition lists_device :: "state_response \<Rightarrow> u32 \<Rightarrow> bool" where
  "lists_device st device_id \<longleftrightarrow> list_ex (\<lambda>e. di_device_id (ds_disk e) = device_id) (live_disks st)"

definition delete_by_id :: "'w os \<Rightarrow> adapter \<Rightarrow> u64 \<Rightarrow> u32 \<Rightarrow> ('w, unit result) sys_io" where
  "delete_by_id os a inst device_id =
     try_io (reserve_operation os a Delete_Disk) (\<lambda>h.
     if oh_instance h \<noteq> inst
     then fail_io (Msg (lit ''adapter changed before deletion; refusing stale device ID ''
       @ dec_digits (unat device_id)))
     else bind_io (new_operation_request delete_reserved_op h) (\<lambda>op.
     try_io (recover os a delete_reserved_op h Delete_Disk
         \<lparr>rd_operation = op, rd_device_id = device_id, rd_reserved = 0\<rparr>) (\<lambda>_.
     try_io (context_io (Unresolved_Outcome h) (adapter_state os a)) (\<lambda>st.
       if sr_adapter_instance st \<noteq> oh_instance h \<or> lists_device st device_id
       then fail_io (Context (Unresolved_Outcome h) (Msg (lit ''delete operation ''
         @ dec_digits (unat (oh_id h)) @ lit '' completed but device ''
         @ dec_digits (unat device_id) @ lit '' removal could not be confirmed'')))
       else ok_io ()))))"

section \<open>Finding adapters\<close>

definition scsi_path :: "nat \<Rightarrow> ustring" where
  "scsi_path port = [92, 92, 46, 92] @ lit ''Scsi'' @ dec_digits port @ lit '':''"

text \<open>
  The closure of \<open>filter_map\<close> in \<open>adapters\<close>: a port that does not open, or whose driver does not
  answer a version query, yields nothing; the handle of the latter is closed again.
\<close>

definition probe_port :: "'w os \<Rightarrow> nat \<Rightarrow> ('w, adapter option) sys_io" where
  "probe_port os port =
     bind_io (open_device os (scsi_path port) (GENERIC_READ OR GENERIC_WRITE)) (\<lambda>r. case r of
       Err e \<Rightarrow> return_io None
     | Ok h \<Rightarrow> if port \<ge> 256 then bind_io (close_handle os h) (\<lambda>_. return_io None)
         else let a = \<lparr>ad_handle = h, ad_port_number = word_of_nat port\<rparr> in
           bind_io (query_version os a) (\<lambda>v. case v of
             Err e \<Rightarrow> bind_io (close_handle os h) (\<lambda>_. return_io None)
           | Ok response \<Rightarrow> return_io (Some a)))"

text \<open>
  A \<open>for\<close> loop over the lazy iterator: each adapter found is given to the body before the next
  port is probed. The body owns the adapter and ends the loop with \<open>Break\<close>.
\<close>

fun scan_adapters ::
  "'w os \<Rightarrow> nat list \<Rightarrow> (adapter \<Rightarrow> 'c \<Rightarrow> ('w, ('c, 'r) flow) sys_io) \<Rightarrow> 'c
     \<Rightarrow> ('w, ('c, 'r) flow) sys_io" where
  "scan_adapters os [] body c = return_io (Continue c)"
| "scan_adapters os (port # ports) body c =
     bind_io (probe_port os port) (\<lambda>found. case found of
       None \<Rightarrow> scan_adapters os ports body c
     | Some a \<Rightarrow> bind_io (body a c) (\<lambda>r. case r of
         Continue c' \<Rightarrow> scan_adapters os ports body c'
       | Break b \<Rightarrow> return_io (Break b)))"

definition for_adapters ::
  "'w os \<Rightarrow> (adapter \<Rightarrow> 'c \<Rightarrow> ('w, ('c, 'r) flow) sys_io) \<Rightarrow> 'c \<Rightarrow> ('w, ('c, 'r) flow) sys_io" where
  "for_adapters os body c = scan_adapters os [0..<SCSI_PORT_LIMIT] body c"

text \<open>\<open>adapters().next()\<close>.\<close>

definition first_adapter :: "'w os \<Rightarrow> ('w, adapter option) sys_io" where
  "first_adapter os = map_io (\<lambda>r. case r of Continue _ \<Rightarrow> None | Break a \<Rightarrow> Some a)
     (for_adapters os (\<lambda>a (_ :: unit). return_io (Break a)) ())"

definition wait_for_adapter :: "'w os \<Rightarrow> nat \<Rightarrow> ('w, adapter result) sys_io" where
  "wait_for_adapter os timeout = bind_io now (\<lambda>t.
     loop_io (\<lambda>_ :: unit. bind_io (first_adapter os) (\<lambda>found. case found of
         Some a \<Rightarrow> return_io (Break (Ok a))
       | None \<Rightarrow> bind_io now (\<lambda>t'.
           if t' \<ge> t + timeout
           then return_io (Break (Err (Msg (lit ''driver was installed, but its SCSI adapter did not appear within 30 seconds''))))
           else bind_io (sleep os RETRY_INTERVAL) (\<lambda>_. return_io (Continue ()))))) ())"

section \<open>Termination\<close>

lemma returns_requests [returns_intros]:
  "returns (new_request_header C)" "returns (new_operation_request C h)"
  unfolding new_request_header_def new_operation_request_def by (intro returns_intros)+

lemma returns_exchanges [returns_intros]:
  "returns (query_version os a)" "returns (require_recovery os a)"
  "returns (query_operation os a h)" "returns (adapter_state os a)"
  "returns (reserve_operation os a mutation)"
  unfolding query_version_def require_recovery_def query_operation_def adapter_state_def
    reserve_operation_def
  by (intro returns_intros)+

lemma wait_for_retry_progress:
  "wp (wait_for_retry os deadline) (\<lambda>again _ s'. clock_le s s'
     \<and> (again \<longrightarrow> deadline - clock s' < deadline - clock s)) s"
  unfolding wait_for_retry_def wp_rules
  by (auto simp: RETRY_INTERVAL_def wp_rules clock_le_def intro!: wp_sleepI)

text \<open>
  The deadline makes every reserved operation a bounded attempt: the time left decreases with
  each wait that allows another round.
\<close>

interpretation reserved: bounded_attempt "reserved_attempt os a C request h deadline"
    "\<lambda>s. t0 \<le> clock s" "\<lambda>s. deadline - clock s"
  for os a and C :: "('q, operation_response) control_op" and request h deadline t0
proof
  fix s :: "'a sys"
  assume t0: "t0 \<le> clock s"
  show "wp (ra_submit (reserved_attempt os a C request h deadline))
      (\<lambda>_ _ s'. t0 \<le> clock s' \<and> deadline - clock s' \<le> deadline - clock s) s"
    using t0 by (auto simp: reserved_attempt_def clock_le_def
        intro!: wp_mono [OF returnsD] returns_intros)
  show "wp (ra_query (reserved_attempt os a C request h deadline))
      (\<lambda>_ _ s'. t0 \<le> clock s' \<and> deadline - clock s' \<le> deadline - clock s) s"
    using t0 by (auto simp: reserved_attempt_def clock_le_def
        intro!: wp_mono [OF returnsD] returns_intros)
  show "wp (ra_wait_for_retry (reserved_attempt os a C request h deadline))
      (\<lambda>again _ s'. t0 \<le> clock s' \<and> (again \<longrightarrow> deadline - clock s' < deadline - clock s)) s"
    using t0 by (auto simp: reserved_attempt_def clock_le_def
        intro!: wp_mono [OF wait_for_retry_progress])
qed

lemma returns_recover [returns_intros]: "returns (recover os a C h mutation request)"
  unfolding recover_def
proof (rule returns_bind [OF returns_basic(2)])
  fix t
  show "returns (resolve_operation h mutation
      (reserved_attempt os a C request h (t + DEVICE_WAIT)))"
    unfolding returns_def clock_le_def
    by (intro allI reserved.resolve_operation_terminates order_refl)
qed

lemma returns_mutations [returns_intros]:
  "returns (create_disk os a letter media sz)" "returns (delete_by_id os a inst ident)"
  unfolding create_disk_def delete_by_id_def by (intro returns_intros)+

lemma returns_probe [returns_intros]: "returns (probe_port os port)"
  unfolding probe_port_def Let_def by (intro returns_intros)

lemma returns_scan [returns_intros]:
  "(\<And>a c. returns (body a c)) \<Longrightarrow> returns (scan_adapters os ports body c)"
  by (induction ports arbitrary: c) (auto intro!: returns_intros)

lemma returns_for_adapters [returns_intros]:
  "(\<And>a c. returns (body a c)) \<Longrightarrow> returns (for_adapters os body c)"
  unfolding for_adapters_def by (rule returns_scan)

lemma returns_first_adapter [returns_intros]: "returns (first_adapter os)"
  unfolding first_adapter_def by (intro returns_intros)

text \<open>A polling round that sleeps before it goes on leaves less time to its deadline.\<close>

lemma poll_round:
  assumes "returns m"
    and "\<And>x s. wp (k x) (\<lambda>r _ s'. clock_le s s' \<and>
      (case r of Continue _ \<Rightarrow> deadline - clock s' < deadline - clock s | Break _ \<Rightarrow> True)) s"
  shows "wp (bind_io m k) (\<lambda>r _ s'. clock_le s s' \<and>
      (case r of Continue _ \<Rightarrow> deadline - clock s' < deadline - clock s | Break _ \<Rightarrow> True)) s"
  unfolding wp_bind
proof (rule wp_mono [OF returnsD [OF assms(1)]])
  fix a t s'
  assume "clock_le s s'"
  then show "wp (k a) (\<lambda>r _ s''. clock_le s s'' \<and>
      (case r of Continue _ \<Rightarrow> deadline - clock s'' < deadline - clock s | Break _ \<Rightarrow> True)) s'"
    by (auto intro!: wp_mono [OF assms(2)] simp: clock_le_def split: flow.splits)
qed

lemma sleep_progress:
  "clock s < deadline \<Longrightarrow> wp (sleep os RETRY_INTERVAL)
     (\<lambda>_ _ s'. clock_le s s' \<and> deadline - clock s' < deadline - clock s) s"
  by (auto simp: clock_le_def RETRY_INTERVAL_def intro!: wp_sleepI)

lemma returns_wait_for_adapter [returns_intros]: "returns (wait_for_adapter os timeout)"
  unfolding wait_for_adapter_def
proof (rule returns_bind [OF returns_basic(2)])
  fix t :: nat
  show "returns (loop_io (\<lambda>_ :: unit. bind_io (first_adapter os) (\<lambda>found. case found of
         Some a \<Rightarrow> return_io (Break (Ok a))
       | None \<Rightarrow> bind_io now (\<lambda>t'.
           if t' \<ge> t + timeout
           then return_io (Break (Err (Msg (lit ''driver was installed, but its SCSI adapter did not appear within 30 seconds''))))
           else bind_io (sleep os RETRY_INTERVAL) (\<lambda>_. return_io (Continue ()))))) ())"
    by (rule returns_loop [where left = "\<lambda>s. t + timeout - clock s"], rule poll_round)
      (auto intro!: returns_intros sleep_progress simp: wp_rules split: option.split)
qed

section \<open>Waiting\<close>

fun is_sleep :: "os_event \<Rightarrow> bool" where
  "is_sleep (Sleep d) \<longleftrightarrow> True"
| "is_sleep _ \<longleftrightarrow> False"

lemma wlp_wait_for_retry:
  "wlp (wait_for_retry os deadline) (\<lambda>again t s'.
     if clock s < deadline
     then t = [Sleep (min RETRY_INTERVAL (deadline - clock s))]
       \<and> clock s + min RETRY_INTERVAL (deadline - clock s) \<le> clock s' \<and> again = (clock s' < deadline)
     else t = [] \<and> \<not> again) s"
  unfolding wait_for_retry_def
  by (auto simp: wlp_rules intro!: wlp_sleepI)

lemma no_sleeps: "list_all (\<lambda>ev. \<not> is_sleep ev) t \<longleftrightarrow> filter is_sleep t = []"
  by (simp add: filter_empty_conv list_all_iff)

lemma asking_does_not_sleep:
  "wlp (current_io (reserved_attempt os a C request h deadline) action)
     (\<lambda>c t s'. clock_le s s' \<and> filter is_sleep t = []) s"
proof -
  have "all_events (\<lambda>ev. \<not> is_sleep ev) (current_io (reserved_attempt os a C request h deadline) action)"
    by (cases action) (auto simp: current_io_def reserved_attempt_def query_operation_def
        new_operation_request_def new_request_header_def intro!: all_events_intros)
  moreover have "returns (current_io (reserved_attempt os a C request h deadline) action)"
    by (cases action) (auto simp: current_io_def reserved_attempt_def intro!: returns_intros)
  ultimately show ?thesis
    unfolding no_sleeps [symmetric] by (intro wlp_conj returns_wlp all_events_wlp)
qed

lemma recovery_step_waits:
  fixes s :: "'w sys" and C :: "('q, operation_response) control_op"
  defines "A os a request h t0 \<equiv> reserved_attempt os a C request h (t0 + DEVICE_WAIT)"
  assumes inv: "length (filter is_sleep T) * RETRY_INTERVAL \<le> clock s - t0" "t0 \<le> clock s"
    "length (filter is_sleep T) \<le> 150"
  shows "wlp (recovery_step (A os a request h t0) h mutation (action, errs))
    (\<lambda>r t s'. length (filter is_sleep (T @ t)) \<le> 150 \<and> (case r of
       Continue _ \<Rightarrow> length (filter is_sleep (T @ t)) * RETRY_INTERVAL \<le> clock s' - t0
         \<and> t0 \<le> clock s'
     | Break _ \<Rightarrow> True)) s"
  unfolding recovery_step.simps
proof (rule wlp_bindI)
  show "wlp (current_io (A os a request h t0) action)
      (\<lambda>c t s'. clock_le s s' \<and> filter is_sleep t = []) s"
    unfolding A_def by (rule asking_does_not_sleep)
next
  fix c t and s1 :: "'w sys"
  assume s1: "clock_le s s1 \<and> filter is_sleep t = []"
  let ?n = "length (filter is_sleep T)"
  have le: "?n * RETRY_INTERVAL \<le> clock s1 - t0" "t0 \<le> clock s1"
    using inv s1 by (auto simp: clock_le_def)
  have wait: "wlp (ra_wait_for_retry (A os a request h t0)) (\<lambda>again u s2.
      ?n + length (filter is_sleep u) \<le> 150 \<and> (again \<longrightarrow>
        (?n + length (filter is_sleep u)) * RETRY_INTERVAL \<le> clock s2 - t0 \<and> t0 \<le> clock s2)) s1"
    unfolding A_def reserved_attempt_def recovery_attempt.simps
    by (rule wlp_mono [OF wlp_wait_for_retry])
      (use le inv(3) in \<open>auto simp: DEVICE_WAIT_def RETRY_INTERVAL_def split: if_splits\<close>)
  show "wlp (case recovery_round h mutation action errs c of
        Return r \<Rightarrow> return_io (Break r)
      | Requery errs' \<Rightarrow> return_io (Continue (Query, errs'))
      | Retry action' errs' \<Rightarrow> bind_io (ra_wait_for_retry (A os a request h t0))
          (\<lambda>again. return_io (if again then Continue (action', errs')
             else Break (Err (unresolved_error errs' h)))))
     (\<lambda>r t' s'. length (filter is_sleep (T @ t @ t')) \<le> 150 \<and> (case r of
       Continue _ \<Rightarrow> length (filter is_sleep (T @ t @ t')) * RETRY_INTERVAL \<le> clock s' - t0
         \<and> t0 \<le> clock s'
     | Break _ \<Rightarrow> True)) s1"
  proof (cases "recovery_round h mutation action errs c")
    case (Retry action' errs')
    show ?thesis
      unfolding Retry round.case wlp_bind
      by (rule wlp_mono [OF wait]) (use s1 in \<open>auto simp: wlp_rules\<close>)
  qed (use s1 le inv in \<open>auto simp: wlp_rules\<close>)
qed

text \<open>
  C26. The recovery is bounded: a reserved mutation performs at most 150 waits (30 seconds of
  200 milliseconds), whatever the driver and the clock do, and it always returns, as do the
  create and delete built on it and the wait for a new adapter.
\<close>

theorem mutations_return_after_bounded_waits:
  "wp (recover os a C h mutation request) (\<lambda>r t s'. length (filter is_sleep t) \<le> 150) s
   \<and> returns (create_disk os a letter media sz) \<and> returns (delete_by_id os a inst ident)
   \<and> returns (wait_for_adapter os timeout)"
proof (intro conjI returns_mutations returns_wait_for_adapter)
  have "wlp (recover os a C h mutation request) (\<lambda>r t s'. length (filter is_sleep t) \<le> 150) s"
    unfolding recover_def resolve_operation_def wlp_rules append_Nil
  proof (rule wlp_loop0 [where I = "\<lambda>_ T u. length (filter is_sleep T) * RETRY_INTERVAL
        \<le> clock u - clock s \<and> clock s \<le> clock u \<and> length (filter is_sleep T) \<le> 150"])
    fix x :: "recovery_action \<times> recovery_errors" and T and u :: "'a sys"
    assume "length (filter is_sleep T) * RETRY_INTERVAL \<le> clock u - clock s
        \<and> clock s \<le> clock u \<and> length (filter is_sleep T) \<le> 150"
    then have inv: "length (filter is_sleep T) * RETRY_INTERVAL \<le> clock u - clock s"
      "clock s \<le> clock u" "length (filter is_sleep T) \<le> 150" by auto
    show "wlp (recovery_step (reserved_attempt os a C request h (clock s + DEVICE_WAIT)) h mutation x)
       (\<lambda>r t s'. case r of
          Continue x' \<Rightarrow> length (filter is_sleep (T @ t)) * RETRY_INTERVAL \<le> clock s' - clock s
            \<and> clock s \<le> clock s' \<and> length (filter is_sleep (T @ t)) \<le> 150
        | Break b \<Rightarrow> length (filter is_sleep (T @ t)) \<le> 150) u"
      using recovery_step_waits [OF inv, of os a C request h mutation "fst x" "snd x"]
      by (auto elim!: wlp_mono split: flow.splits)
  qed simp
  from wp_wlp [OF returnsD [OF returns_recover] this]
  show "wp (recover os a C h mutation request) (\<lambda>r t s'. length (filter is_sleep t) \<le> 150) s"
    by (rule wp_mono) simp
qed

section \<open>What a mutation achieves\<close>

lemma recover_settles: "wlp (recover os a C h mutation request) (\<lambda>r t s'. settled h mutation r) s"
  unfolding recover_def by (simp add: wlp_rules resolve_operation_settles)

text \<open>Every submission of one recovery is the same request; its other messages are queries.\<close>

lemma recover_requests:
  assumes "code \<noteq> Query_Result"
  shows "wlp (recover os a C h mutation request) (\<lambda>r t s'. \<exists>n.
     requests_of code t = (if co_code C = code then replicate n (request_buffer C request) else [])) s"
proof -
  let ?P = "\<lambda>ev. request_bytes code ev = [] \<or>
     co_code C = code \<and> request_bytes code ev = [request_buffer C request]"
  have "all_events ?P (recover os a C h mutation request)"
    unfolding recover_def resolve_operation_def
  proof (intro all_events_intros)
    fix t :: nat and x :: "recovery_action \<times> recovery_errors"
    have "operation_code code \<noteq> 2053" using assms by (cases code) simp_all
    then show "all_events ?P (recovery_step (reserved_attempt os a C request h (t + DEVICE_WAIT)) h mutation x)"
      by (cases x; cases "fst x")
        (auto simp: current_io_def reserved_attempt_def query_operation_def new_operation_request_def
          new_request_header_def wait_for_retry_def
          split: round.split if_splits intro!: all_events_intros)
  qed
  from all_events_wlp [OF this] show ?thesis
  proof (rule wlp_mono)
    fix t assume all: "list_all ?P t"
    show "\<exists>n. requests_of code t =
        (if co_code C = code then replicate n (request_buffer C request) else [])"
    proof (cases "co_code C = code")
      case True
      with all show ?thesis by (auto intro!: same_requests elim: list.pred_mono_strong)
    next
      case False
      with all show ?thesis by (simp flip: no_requests)
    qed
  qed
qed

lemma exchanges_mutate_nothing:
  assumes "code = Create_Reserved \<or> code = Delete_Reserved"
  shows "all_events (\<lambda>ev. request_bytes code ev = []) (query_version os a)"
    "all_events (\<lambda>ev. request_bytes code ev = []) (require_recovery os a)"
    "all_events (\<lambda>ev. request_bytes code ev = []) (reserve_operation os a mutation)"
    "all_events (\<lambda>ev. request_bytes code ev = []) (adapter_state os a)"
    "all_events (\<lambda>ev. request_bytes code ev = []) (query_operation os a h)"
  using assms
  by (auto simp: query_version_def require_recovery_def reserve_operation_def adapter_state_def
      query_operation_def new_operation_request_def new_request_header_def
      intro!: all_events_intros)

lemma no_requests_wlp:
  "all_events (\<lambda>ev. request_bytes code ev = []) m \<Longrightarrow> wlp m (\<lambda>_ t _. requests_of code t = []) s"
  by (drule all_events_wlp) (simp add: no_requests)

text \<open>What the errors before the mutation is sent amount to.\<close>

lemma plain_error:
  "wlp (send os a C request) (\<lambda>r _ _. case r of Err e \<Rightarrow> \<not> is_unresolved e | Ok _ \<Rightarrow> True) s"
  unfolding send_def device_io_control_def
  by (auto simp: wlp_rules reply_of_Err_resolved intro!: wlp_os_callI split: sum.split)

definition plainly :: "'a result \<Rightarrow> bool" where
  "plainly r = (case r of Err e \<Rightarrow> error_exit_code e = 1 | Ok _ \<Rightarrow> True)"

lemma plainly_simps [simp]:
  "plainly (Ok x)" "plainly (Err e) \<longleftrightarrow> \<not> is_unresolved e"
  by (simp_all add: plainly_def error_exit_code_def)

lemma send_plainly: "wlp (send os a C request) (\<lambda>r _ _. plainly r) s"
  by (rule wlp_mono [OF plain_error]) (auto split: sum.splits)

lemma check_version_plainly: "plainly (check_version r)"
  by (simp add: check_version_def)

lemma handle_of_response_plainly: "plainly (handle_of_response r)"
  by (simp add: handle_of_response_def)

lemma query_version_plainly: "wlp (query_version os a) (\<lambda>r _ _. plainly r) s"
  unfolding query_version_def new_request_header_def wlp_rules
  by (rule wlp_tryI [OF send_plainly]) (auto simp: wlp_rules check_version_plainly)

lemma require_recovery_plainly: "wlp (require_recovery os a) (\<lambda>r _ _. plainly r) s"
  unfolding require_recovery_def
  by (rule wlp_tryI [OF query_version_plainly]) (auto simp: wlp_rules)

lemma reserve_operation_plainly: "wlp (reserve_operation os a mutation) (\<lambda>r _ _. plainly r) s"
  unfolding reserve_operation_def new_request_header_def
  by (rule wlp_tryI [OF require_recovery_plainly])
    (auto simp: wlp_rules handle_of_response_plainly intro!: wlp_tryI [OF send_plainly])

lemma adapter_state_plainly: "wlp (adapter_state os a) (\<lambda>r _ _. plainly r) s"
  unfolding adapter_state_def new_request_header_def wlp_rules
  by (rule wlp_tryI [OF send_plainly]) (auto simp: wlp_rules)

text \<open>
  \<open>mutation_failed h mutation e\<close>: what an error says once the mutation may have been sent. It was
  rejected for good, it failed or was undone, or it is unresolved and the process exits with 3.
\<close>

definition mutation_failed :: "operation_handle \<Rightarrow> operation \<Rightarrow> error \<Rightarrow> bool" where
  "mutation_failed h mutation e \<longleftrightarrow> rejects_terminally e
     \<or> (\<exists>reply. refuses h mutation reply \<and> e = refusal h reply)
     \<or> downcast_unresolved e = Some h \<and> error_exit_code e = 3"

lemma settled_cases:
  "settled h mutation (Ok reply) \<longleftrightarrow> confirms h mutation reply"
  "settled h mutation (Err e) \<longleftrightarrow> mutation_failed h mutation e"
  by (auto simp: settled_def mutation_failed_def error_exit_code_def dest: downcast_unresolved_imp)

lemma unresolved_failed [simp]: "mutation_failed h mutation (Context (Unresolved_Outcome h) e)"
  by (simp add: mutation_failed_def error_exit_code_def)

lemma reserve_operation_effect:
  "wlp (reserve_operation os a mutation) (\<lambda>r t _. plainly r \<and> requests_of Create_Reserved t = []
     \<and> requests_of Delete_Reserved t = []) s"
  by (intro wlp_conj reserve_operation_plainly no_requests_wlp exchanges_mutate_nothing) auto

lemma recover_effect:
  "wlp (recover os a C h mutation request) (\<lambda>r t _. settled h mutation r
     \<and> (\<exists>n. requests_of Create_Reserved t =
          (if co_code C = Create_Reserved then replicate n (request_buffer C request) else []))
     \<and> (\<exists>n. requests_of Delete_Reserved t =
          (if co_code C = Delete_Reserved then replicate n (request_buffer C request) else []))) s"
  by (intro wlp_conj recover_settles recover_requests) simp_all

definition creates :: "operation_handle \<Rightarrow> drive_letter \<Rightarrow> media_kind \<Rightarrow> u64 \<Rightarrow> reserved_create_request \<Rightarrow> bool" where
  "creates h letter media sz q \<longleftrightarrow>
     oq_adapter_instance (rc_operation q) = oh_instance h \<and> oq_operation_id (rc_operation q) = oh_id h
     \<and> rc_size_bytes q = sz \<and> rc_media_kind q = protocol_media media
     \<and> rc_requested_drive_letter q = ucast (as_ascii letter) \<and> rc_logical_sector_size q = 512"

lemma wlp_create_disk:
  "wlp (create_disk os a letter media sz) (\<lambda>r t s'. \<exists>h q n.
      requests_of Create_Reserved t = replicate n (request_buffer create_reserved_op q)
      \<and> creates h letter media sz q \<and> requests_of Delete_Reserved t = []
      \<and> (case r of
          Ok d \<Rightarrow> \<exists>reply. confirms h Create_Disk reply \<and> is_valid_created_disk reply
            \<and> created_disk_of_response reply = Ok d
        | Err e \<Rightarrow> n = 0 \<and> error_exit_code e = 1 \<or> mutation_failed h Create_Disk e)) s"
  (is "wlp _ ?Q s")
proof -
  have creates: "creates h letter media sz (create_message \<lparr>oq_header = hd,
      oq_adapter_instance = oh_instance h, oq_operation_id = oh_id h\<rparr> letter media sz)" for h hd
    by (simp add: creates_def create_message_def LOGICAL_SECTOR_SIZE_32_def)
  have one: "\<exists>h q n. c = replicate n (request_buffer create_reserved_op q)
      \<and> creates h letter media sz q \<and> d = [] \<and> R h n"
    if "c = replicate n (request_buffer create_reserved_op q)" "creates h letter media sz q" "d = []" "R h n"
    for c d :: "u8 list list" and R h n q
    using that by blast
  show ?thesis
    unfolding create_disk_def new_operation_request_def new_request_header_def
  proof (rule wlp_tryI [OF reserve_operation_effect], goal_cases)
    case (1 e t s')
    then show ?case
      by (intro one [where n = 0, OF _ creates]) (simp_all add: error_exit_code_def)
  next
    case before: (2 h t s')
    show ?case
      unfolding wlp_rules
    proof (rule wlp_tryI [OF recover_effect], goal_cases)
      case (1 e u s'')
      then obtain n where "requests_of Create_Reserved u = replicate n (request_buffer create_reserved_op
        (create_message \<lparr>oq_header = \<lparr>rq_struct_size = word_of_nat (co_request_size create_reserved_op),
          rq_protocol_version = PROTOCOL_VERSION, rq_operation = operation_code (co_code create_reserved_op),
          rq_flags = 0, rq_correlation_id = next_correlation_id s'\<rparr>,
          oq_adapter_instance = oh_instance h, oq_operation_id = oh_id h\<rparr> letter media sz))"
        by auto
      with 1 before show ?case
        by (intro one [OF _ creates]) (auto simp: settled_cases)
    next
      case (2 reply u s'')
      then obtain n where "requests_of Create_Reserved u = replicate n (request_buffer create_reserved_op
        (create_message \<lparr>oq_header = \<lparr>rq_struct_size = word_of_nat (co_request_size create_reserved_op),
          rq_protocol_version = PROTOCOL_VERSION, rq_operation = operation_code (co_code create_reserved_op),
          rq_flags = 0, rq_correlation_id = next_correlation_id s'\<rparr>,
          oq_adapter_instance = oh_instance h, oq_operation_id = oh_id h\<rparr> letter media sz))"
        by auto
      with 2 before show ?case
        unfolding wlp_rules
        by (intro one [OF _ creates]) (auto simp: settled_cases created_disk_of_response_def)
    qed
  qed
qed

text \<open>
  Creating a disk: all create requests of a run are one and the same request, for the
  reserved handle and with the caller's size, medium and letter, and nothing is deleted. Success
  yields the identity of a reply that confirms this handle's create with a valid disk; a
  failure before any request was sent exits with status 1; a failure after that is a definite
  rejection, a definite failure, or unresolved with status 3.
\<close>

theorem create_disk_outcome:
  "wlp (create_disk os a letter media sz) (\<lambda>r t s'. \<exists>h q n.
      requests_of Create_Reserved t = replicate n (request_buffer create_reserved_op q)
      \<and> creates h letter media sz q \<and> requests_of Delete_Reserved t = []
      \<and> (case r of
          Ok d \<Rightarrow> \<exists>reply. confirms h Create_Disk reply \<and> is_valid_created_disk reply
            \<and> created_disk_of_response reply = Ok d
        | Err e \<Rightarrow> n = 0 \<and> error_exit_code e = 1 \<or> mutation_failed h Create_Disk e)) s"
  by (rule wlp_create_disk)

lemma adapter_state_effect:
  "wlp (context_io (Unresolved_Outcome h) (adapter_state os a)) (\<lambda>r t _.
     (case r of Err e \<Rightarrow> mutation_failed h mutation e | Ok st \<Rightarrow> is_valid_state st)
     \<and> requests_of Create_Reserved t = [] \<and> requests_of Delete_Reserved t = []) s"
proof -
  have "wlp (adapter_state os a) (\<lambda>r _ _. case r of Err e \<Rightarrow> True | Ok st \<Rightarrow> is_valid_state st) s"
    unfolding adapter_state_def new_request_header_def wlp_rules
    by (rule wlp_tryI [OF send_plainly]) (auto simp: wlp_rules)
  moreover have "wlp (adapter_state os a)
      (\<lambda>_ t _. requests_of Create_Reserved t = [] \<and> requests_of Delete_Reserved t = []) s"
    by (intro wlp_conj no_requests_wlp exchanges_mutate_nothing) auto
  ultimately show ?thesis
    unfolding wlp_context by (rule wlp_mono [OF wlp_conj]) (auto split: sum.splits)
qed

definition deletes :: "operation_handle \<Rightarrow> u32 \<Rightarrow> reserved_delete_request \<Rightarrow> bool" where
  "deletes h device_id q \<longleftrightarrow>
     oq_adapter_instance (rd_operation q) = oh_instance h \<and> oq_operation_id (rd_operation q) = oh_id h
     \<and> rd_device_id q = device_id"

lemma wlp_delete_by_id:
  "wlp (delete_by_id os a inst ident) (\<lambda>r t s'. \<exists>h q n.
      requests_of Delete_Reserved t = replicate n (request_buffer delete_reserved_op q)
      \<and> deletes h ident q \<and> (n = 0 \<or> oh_instance h = inst) \<and> requests_of Create_Reserved t = []
      \<and> (case r of
          Ok _ \<Rightarrow> (\<exists>reply. confirms h Delete_Disk reply)
            \<and> (\<exists>st. is_valid_state st \<and> sr_adapter_instance st = inst \<and> \<not> lists_device st ident)
        | Err e \<Rightarrow> n = 0 \<and> error_exit_code e = 1 \<or> mutation_failed h Delete_Disk e)) s"
proof -
  have deletes: "deletes h ident \<lparr>rd_operation = \<lparr>oq_header = hd, oq_adapter_instance = oh_instance h,
      oq_operation_id = oh_id h\<rparr>, rd_device_id = ident, rd_reserved = 0\<rparr>" for h hd
    by (simp add: deletes_def)
  have one: "\<exists>h q n. c = replicate n (request_buffer delete_reserved_op q)
      \<and> deletes h ident q \<and> (n = 0 \<or> oh_instance h = inst) \<and> d = [] \<and> R h n"
    if "c = replicate n (request_buffer delete_reserved_op q)" "deletes h ident q"
      "n = 0 \<or> oh_instance h = inst" "d = []" "R h n"
    for c d :: "u8 list list" and R h n q
    using that by blast
  show ?thesis
    unfolding delete_by_id_def new_operation_request_def new_request_header_def
  proof (rule wlp_tryI [OF reserve_operation_effect], goal_cases)
    case (1 e t s')
    then show ?case
      by (intro one [where n = 0, OF _ deletes]) (simp_all add: error_exit_code_def)
  next
    case before: (2 h t s')
    show ?case
      unfolding wlp_rules
    proof (simp only: if_bool_eq_conj, intro conjI impI, goal_cases)
      case 1
      with before show ?case
        by (intro one [where n = 0, OF _ deletes]) (simp_all add: error_exit_code_def)
    next
      case inst: 2
      show ?case
      proof (rule wlp_tryI [OF recover_effect], goal_cases)
        case (1 e u s'')
        with before inst show ?case
          by (elim conjE exE, intro one [OF _ deletes]) (auto simp: settled_cases)
      next
        case confirmed: (2 reply u s'')
        show ?case
        proof (rule wlp_tryI [OF adapter_state_effect [where mutation = Delete_Disk]], goal_cases)
          case (1 e v s3)
          with before inst confirmed show ?case
            by (elim conjE exE, intro one [OF _ deletes]) (auto simp: settled_cases)
        next
          case listed: (2 st v s3)
          show ?case
          proof (simp only: wlp_rules if_bool_eq_conj, intro conjI impI, goal_cases)
            case 1
            with before inst confirmed listed show ?case
              by (elim conjE exE, intro one [OF _ deletes]) (auto simp: settled_cases)
          next
            case 2
            with before inst confirmed listed show ?case
              by (elim conjE exE, intro one [OF _ deletes]) (auto simp: settled_cases)
          qed
        qed
      qed
    qed
  qed
qed

text \<open>
  Deleting a disk: a delete request is only ever sent for a handle reserved on the expected
  adapter instance, all of them are the same request for that handle and device, and nothing is
  created. Success means that the driver confirmed the delete and that a valid inventory of the
  same adapter instance no longer lists the device; everything else that follows a request is a
  definite failure or unresolved with status 3.
\<close>

theorem delete_by_id_outcome:
  "wlp (delete_by_id os a inst ident) (\<lambda>r t s'. \<exists>h q n.
      requests_of Delete_Reserved t = replicate n (request_buffer delete_reserved_op q)
      \<and> deletes h ident q \<and> (n = 0 \<or> oh_instance h = inst) \<and> requests_of Create_Reserved t = []
      \<and> (case r of
          Ok _ \<Rightarrow> (\<exists>reply. confirms h Delete_Disk reply)
            \<and> (\<exists>st. is_valid_state st \<and> sr_adapter_instance st = inst \<and> \<not> lists_device st ident)
        | Err e \<Rightarrow> n = 0 \<and> error_exit_code e = 1 \<or> mutation_failed h Delete_Disk e)) s"
  by (rule wlp_delete_by_id)

end
