(* ===== verification/Hearing.thy ===== *)
theory Hearing
  imports Adapter
begin

text \<open>
  What the client has learnt from the adapters: which ports of a scan have an adapter, and which
  answers of the driver it accepted in a run. The clients of adapter/ state their results with it.
\<close>

section \<open>What a client hears\<close>

text \<open>\<open>send\<close> succeeded with this response somewhere in the trace.\<close>

definition heard :: "handle \<Rightarrow> ('q, 'r) control_op \<Rightarrow> os_event list \<Rightarrow> 'r \<Rightarrow> bool" where
  "heard port C t response \<longleftrightarrow> (\<exists>request bytes out.
     Device_Io_Control port IOCTL_SCSI_MINIPORT (request_buffer C request) (Ok (bytes, out)) \<in> set t
     \<and> reply_of C request (Ok (bytes, out)) = Ok response)"

lemma heard_append [simp]: "heard port C (t @ t') response \<longleftrightarrow> heard port C t response \<or> heard port C t' response"
  by (auto simp: heard_def)

lemma heard_Nil [simp]: "\<not> heard port C [] response"
  by (simp add: heard_def)

lemma send_heard: "wlp (send os a C request) (\<lambda>r t s'. \<forall>response. r = Ok response \<longrightarrow> heard (ad_handle a) C t response) s"
proof -
  have "wlp (device_io_control os (ad_handle a) IOCTL_SCSI_MINIPORT (request_buffer C request) CONTROL_BUFFER_SIZE)
      (\<lambda>answer t s'. \<forall>response. reply_of C request answer = Ok response \<longrightarrow> heard (ad_handle a) C t response) s"
    unfolding device_io_control_def
    by (rule wlp_os_callI) (force simp: heard_def reply_of_def split: sum.splits)
  then show ?thesis by (simp add: send_def wlp_rules)
qed

lemma recover_heard:
  "wlp (recover os a C h mutation request) (\<lambda>r t s'. \<forall>x. r = Ok x \<longrightarrow>
     confirms h mutation x \<and> (heard (ad_handle a) C t x \<or> heard (ad_handle a) query_result_op t x)) s"
  unfolding recover_def resolve_operation_def wlp_rules append_Nil
proof (rule wlp_loop0 [where I = "\<lambda>_ _ _. True"])
  fix x :: "recovery_action \<times> recovery_errors" and T and u :: "'a sys"
  let ?A = "reserved_attempt os a C request h (clock s + DEVICE_WAIT)"
  let ?heard = "\<lambda>t x. heard (ad_handle a) C t x \<or> heard (ad_handle a) query_result_op t x"
  obtain action errs where x: "x = (action, errs)" by (cases x)
  have asked: "wlp (current_io ?A action) (\<lambda>c t s'. \<forall>r. c = Ok r \<longrightarrow> ?heard t r) u"
  proof (cases action)
    case Submit
    then show ?thesis
      by (simp add: current_io_def reserved_attempt_def) (rule wlp_mono [OF send_heard], blast)
  next
    case Query
    then show ?thesis
      by (simp add: current_io_def reserved_attempt_def query_operation_def new_operation_request_def
          new_request_header_def wlp_rules) (rule wlp_mono [OF send_heard], blast)
  qed
  show "wlp (recovery_step ?A h mutation x) (\<lambda>r t s'. case r of Continue x' \<Rightarrow> True
      | Break r \<Rightarrow> \<forall>x. r = Ok x \<longrightarrow> confirms h mutation x \<and> ?heard (T @ t) x) u"
    unfolding x recovery_step.simps
  proof (rule wlp_bindI [OF asked])
    fix c :: "operation_response result" and t and s1 :: "'a sys"
    assume c: "\<forall>r. c = Ok r \<longrightarrow> ?heard t r"
    have round: "confirms h mutation r \<and> ?heard t r" if "recovery_round h mutation action errs c = Return (Ok r)" for r
      using that c by (cases c) (auto simp: recovery_round_cases split: if_splits recovery_action.splits)
    show "wlp (case recovery_round h mutation action errs c of
          Return r \<Rightarrow> return_io (Break r)
        | Requery errs' \<Rightarrow> return_io (Continue (Query, errs'))
        | Retry action' errs' \<Rightarrow> bind_io (ra_wait_for_retry ?A)
            (\<lambda>again. return_io (if again then Continue (action', errs')
               else Break (Err (unresolved_error errs' h)))))
      (\<lambda>b t' s''. case b of Continue x' \<Rightarrow> True
      | Break r \<Rightarrow> \<forall>x. r = Ok x \<longrightarrow> confirms h mutation x \<and> ?heard (T @ t @ t') x) s1"
    proof (cases "recovery_round h mutation action errs c")
      case (Return r)
      with round show ?thesis by (auto simp: wlp_rules)
    next
      case (Retry action' errs')
      then show ?thesis
        by (simp add: wlp_rules) (auto intro!: wlpI)
    qed (simp add: wlp_rules)
  qed
qed simp

lemma reserve_heard:
  "wlp (reserve_operation os a mutation) (\<lambda>r t s'. \<forall>h. r = Ok h \<longrightarrow>
     (\<exists>x. heard (ad_handle a) reserve_operation_op t x \<and> or_mutation x = operation_code mutation
        \<and> h = \<lparr>oh_instance = or_adapter_instance x, oh_id = or_operation_id x\<rparr>)) s"
proof -
  have vacuous: "wlp m (\<lambda>r t s'. True) u" for m :: "('b sys, os_event, 'c) io" and u by (rule wlpI) simp
  show ?thesis
    unfolding reserve_operation_def new_request_header_def
    by (rule wlp_tryI [OF vacuous], simp, simp add: wlp_rules, rule wlp_tryI [OF send_heard])
      (auto simp: wlp_rules handle_of_response_def split: if_splits)
qed

lemma send_requests:
  assumes "control_operation C"
  shows "wlp (send os a C request) (\<lambda>r t s'. requests_of (co_code C) t = [request_buffer C request]) s"
  by (rule control_operation.wlp_sendI [OF assms]) simp

lemma recover_submits:
  fixes s :: "'w sys"
  assumes "control_operation C"
  shows "wlp (recover os a C h mutation request) (\<lambda>r t s'. requests_of (co_code C) t \<noteq> []) s"
  unfolding recover_def resolve_operation_def wlp_rules append_Nil
proof (rule wlp_loop0 [where I = "\<lambda>x T _. T = [] \<and> fst x = Submit \<or> requests_of (co_code C) T \<noteq> []"])
  fix x :: "recovery_action \<times> recovery_errors" and T and u :: "'w sys"
  assume I: "T = [] \<and> fst x = Submit \<or> requests_of (co_code C) T \<noteq> []"
  let ?A = "reserved_attempt os a C request h (clock s + DEVICE_WAIT)"
  obtain action errs where x: "x = (action, errs)" by (cases x)
  have asked: "wlp (current_io ?A action) (\<lambda>c t s'. requests_of (co_code C) (T @ t) \<noteq> []) u"
  proof (cases action)
    case Submit
    then show ?thesis
      by (simp add: current_io_def reserved_attempt_def) (rule wlp_mono [OF send_requests [OF assms]], simp)
  next
    case Query
    with I x show ?thesis by (auto intro: wlpI)
  qed
  show "wlp (recovery_step ?A h mutation x) (\<lambda>r t s'. case r of
        Continue x' \<Rightarrow> T @ t = [] \<and> fst x' = Submit \<or> requests_of (co_code C) (T @ t) \<noteq> []
      | Break r \<Rightarrow> requests_of (co_code C) (T @ t) \<noteq> []) u"
    unfolding x recovery_step.simps
  proof (rule wlp_bindI [OF asked])
    fix c :: "operation_response result" and t and s1 :: "'w sys"
    assume "requests_of (co_code C) (T @ t) \<noteq> []"
    then show "wlp (case recovery_round h mutation action errs c of
          Return r \<Rightarrow> return_io (Break r)
        | Requery errs' \<Rightarrow> return_io (Continue (Query, errs'))
        | Retry action' errs' \<Rightarrow> bind_io (ra_wait_for_retry ?A)
            (\<lambda>again. return_io (if again then Continue (action', errs')
               else Break (Err (unresolved_error errs' h)))))
      (\<lambda>r t' s''. case r of
        Continue x' \<Rightarrow> T @ t @ t' = [] \<and> fst x' = Submit \<or> requests_of (co_code C) (T @ t @ t') \<noteq> []
      | Break r \<Rightarrow> requests_of (co_code C) (T @ t @ t') \<noteq> []) s1"
      by (auto simp: wlp_rules split: round.split intro!: wlpI)
  qed
qed simp

section \<open>Confirmed mutations\<close>

text \<open>
  The creation of \<open>d\<close> as the client sees it: it reserved an operation, asked for exactly this disk
  under it, any number of times but at least once, and was told that it succeeded and made \<open>d\<close>.
\<close>

definition creation_confirmed ::
  "adapter \<Rightarrow> drive_letter \<Rightarrow> media_kind \<Rightarrow> u64 \<Rightarrow> created_disk \<Rightarrow> os_event list \<Rightarrow> bool" where
  "creation_confirmed a letter media sz d t \<longleftrightarrow> (\<exists>x y q n.
     heard (ad_handle a) reserve_operation_op t x \<and> or_mutation x = operation_code Create_Disk
     \<and> creates \<lparr>oh_instance = or_adapter_instance x, oh_id = or_operation_id x\<rparr> letter media sz q
     \<and> requests_of Create_Reserved t = replicate (Suc n) (request_buffer create_reserved_op q)
     \<and> (heard (ad_handle a) create_reserved_op t y \<or> heard (ad_handle a) query_result_op t y)
     \<and> confirms \<lparr>oh_instance = or_adapter_instance x, oh_id = or_operation_id x\<rparr> Create_Disk y
     \<and> created_disk_of_response y = Ok d)"

lemma creation_confirmedI:
  assumes "heard (ad_handle a) reserve_operation_op t x" "or_mutation x = operation_code Create_Disk"
    and "h = \<lparr>oh_instance = or_adapter_instance x, oh_id = or_operation_id x\<rparr>"
    and "creates h letter media sz q"
    and "requests_of Create_Reserved t = replicate (Suc n) (request_buffer create_reserved_op q)"
    and "heard (ad_handle a) create_reserved_op t y \<or> heard (ad_handle a) query_result_op t y"
    and "confirms h Create_Disk y" and "created_disk_of_response y = Ok d"
  shows "creation_confirmed a letter media sz d t"
  using assms unfolding creation_confirmed_def by blast

lemma creation_confirmed_around:
  assumes "creation_confirmed a letter media sz d t"
    and "requests_of Create_Reserved u = []" "requests_of Create_Reserved v = []"
  shows "creation_confirmed a letter media sz d (u @ t @ v)"
proof -
  from assms(1) obtain x y q n where c:
    "heard (ad_handle a) reserve_operation_op t x" "or_mutation x = operation_code Create_Disk"
    "creates \<lparr>oh_instance = or_adapter_instance x, oh_id = or_operation_id x\<rparr> letter media sz q"
    "requests_of Create_Reserved t = replicate (Suc n) (request_buffer create_reserved_op q)"
    "heard (ad_handle a) create_reserved_op t y \<or> heard (ad_handle a) query_result_op t y"
    "confirms \<lparr>oh_instance = or_adapter_instance x, oh_id = or_operation_id x\<rparr> Create_Disk y"
    "created_disk_of_response y = Ok d"
    unfolding creation_confirmed_def by blast
  with assms(2,3) show ?thesis
    unfolding creation_confirmed_def
    by (intro exI [of _ x] exI [of _ y] exI [of _ q] exI [of _ n]) auto
qed

lemma create_confirmed:
  "wlp (create_disk os a letter media sz) (\<lambda>r t s'. case r of
     Ok d \<Rightarrow> creation_confirmed a letter media sz d t | Err _ \<Rightarrow> True) s"
  unfolding create_disk_def
proof (rule wlp_tryI [OF wlp_conj [OF reserve_heard reserve_operation_effect]], simp,
    simp only: new_operation_request_def new_request_header_def wlp_rules append_Nil)
  fix h :: operation_handle and t and s1 :: "'a sys"
  assume "(\<forall>h'. Ok h = Ok h' \<longrightarrow> (\<exists>x. heard (ad_handle a) reserve_operation_op t x
      \<and> or_mutation x = operation_code Create_Disk
      \<and> h' = \<lparr>oh_instance = or_adapter_instance x, oh_id = or_operation_id x\<rparr>))
    \<and> plainly (Ok h) \<and> requests_of Create_Reserved t = [] \<and> requests_of Delete_Reserved t = []"
  then obtain x where x: "heard (ad_handle a) reserve_operation_op t x" "or_mutation x = operation_code Create_Disk"
    and h: "h = \<lparr>oh_instance = or_adapter_instance x, oh_id = or_operation_id x\<rparr>"
    and t: "requests_of Create_Reserved t = []" by auto
  let ?s1 = "s1\<lparr>next_correlation_id := next_correlation_id s1 + 1\<rparr>"
  let ?q = "create_message \<lparr>oq_header = \<lparr>rq_struct_size = word_of_nat (co_request_size create_reserved_op),
      rq_protocol_version = PROTOCOL_VERSION, rq_operation = operation_code (co_code create_reserved_op),
      rq_flags = 0, rq_correlation_id = next_correlation_id s1\<rparr>,
    oq_adapter_instance = oh_instance h, oq_operation_id = oh_id h\<rparr> letter media sz"
  have q: "creates h letter media sz ?q" by (simp add: creates_def create_message_def LOGICAL_SECTOR_SIZE_32_def)
  note recovered = wlp_conj [OF recover_heard wlp_conj [OF recover_effect
      recover_submits [OF create_reserved.control_operation_axioms]]]
  show "wlp (try_io (recover os a create_reserved_op h Create_Disk ?q) (\<lambda>response.
       return_io (map_err (Context (Unresolved_Outcome h)) (created_disk_of_response response))))
    (\<lambda>r t' s''. case r of Ok d \<Rightarrow> creation_confirmed a letter media sz d (t @ t') | Err _ \<Rightarrow> True) ?s1"
  proof (rule wlp_tryI [OF recovered], simp)
    fix y u and s2 :: "'a sys"
    assume u: "(\<forall>x. Ok y = Ok x \<longrightarrow> confirms h Create_Disk x
        \<and> (heard (ad_handle a) create_reserved_op u x \<or> heard (ad_handle a) query_result_op u x))
      \<and> (settled h Create_Disk (Ok y)
        \<and> (\<exists>n. requests_of Create_Reserved u = (if co_code create_reserved_op = Create_Reserved
             then replicate n (request_buffer create_reserved_op ?q) else []))
        \<and> (\<exists>n. requests_of Delete_Reserved u = (if co_code create_reserved_op = Delete_Reserved
             then replicate n (request_buffer create_reserved_op ?q) else [])))
      \<and> requests_of (co_code create_reserved_op) u \<noteq> []"
    then obtain n where n: "requests_of Create_Reserved u = replicate n (request_buffer create_reserved_op ?q)"
      and y: "confirms h Create_Disk y" "heard (ad_handle a) create_reserved_op u y \<or> heard (ad_handle a) query_result_op u y"
      and some: "requests_of Create_Reserved u \<noteq> []" by auto
    from n some obtain k where k: "n = Suc k" by (cases n) auto
    have "creation_confirmed a letter media sz d (t @ u)" if "created_disk_of_response y = Ok d" for d
      by (rule creation_confirmedI [where x = x and y = y and n = k, OF _ x(2) h q]) (use x y that t in \<open>auto simp: n k\<close>)
    then show "wlp (return_io (map_err (Context (Unresolved_Outcome h)) (created_disk_of_response y)))
      (\<lambda>r t' s'. case r of Ok d \<Rightarrow> creation_confirmed a letter media sz d (t @ u @ t') | Err _ \<Rightarrow> True) s2"
      by (auto simp: wlp_rules split: sum.split)
  qed
qed

lemma state_heard:
  "wlp (adapter_state os a) (\<lambda>r t s'. \<forall>st. r = Ok st \<longrightarrow> heard (ad_handle a) list_state_op t st) s"
  unfolding adapter_state_def new_request_header_def
  by (simp add: wlp_rules, rule wlp_tryI [OF send_heard]) (auto simp: wlp_rules)

text \<open>
  The deletion of a device as the client sees it: under an operation that it reserved for this, it
  asked for the deletion, was told that it succeeded, and then read an inventory without the device.
\<close>

definition deletion_confirmed :: "adapter \<Rightarrow> u64 \<Rightarrow> u32 \<Rightarrow> os_event list \<Rightarrow> bool" where
  "deletion_confirmed a inst ident t \<longleftrightarrow> (\<exists>x y st. heard (ad_handle a) reserve_operation_op t x
     \<and> or_mutation x = operation_code Delete_Disk \<and> or_adapter_instance x = inst
     \<and> requests_of Delete_Reserved t \<noteq> []
     \<and> (heard (ad_handle a) delete_reserved_op t y \<or> heard (ad_handle a) query_result_op t y)
     \<and> confirms \<lparr>oh_instance = inst, oh_id = or_operation_id x\<rparr> Delete_Disk y
     \<and> heard (ad_handle a) list_state_op t st \<and> sr_adapter_instance st = inst \<and> \<not> lists_device st ident)"

lemma deletion_confirmed_around:
  assumes "deletion_confirmed a inst ident t"
  shows "deletion_confirmed a inst ident (u @ t @ v)"
proof -
  from assms obtain x y st where c: "heard (ad_handle a) reserve_operation_op t x"
    "or_mutation x = operation_code Delete_Disk" "or_adapter_instance x = inst" "requests_of Delete_Reserved t \<noteq> []"
    "heard (ad_handle a) delete_reserved_op t y \<or> heard (ad_handle a) query_result_op t y"
    "confirms \<lparr>oh_instance = inst, oh_id = or_operation_id x\<rparr> Delete_Disk y"
    "heard (ad_handle a) list_state_op t st" "sr_adapter_instance st = inst" "\<not> lists_device st ident"
    unfolding deletion_confirmed_def by blast
  then show ?thesis
    unfolding deletion_confirmed_def by (intro exI [of _ x] exI [of _ y] exI [of _ st]) auto
qed

lemma wlp_ifI:
  "(b \<Longrightarrow> wlp m Q s) \<Longrightarrow> (\<not> b \<Longrightarrow> wlp n Q s) \<Longrightarrow> wlp (if b then m else n) Q s"
  by simp

lemma delete_confirmed:
  "wlp (delete_by_id os a inst ident) (\<lambda>r t s'. case r of
     Ok _ \<Rightarrow> deletion_confirmed a inst ident t | Err _ \<Rightarrow> True) s"
  unfolding delete_by_id_def
proof (rule wlp_tryI [OF reserve_heard], simp, rule wlp_ifI)
  fix h :: operation_handle and t and s1 :: "'a sys"
  assume "\<forall>h'. Ok h = Ok h' \<longrightarrow> (\<exists>x. heard (ad_handle a) reserve_operation_op t x
      \<and> or_mutation x = operation_code Delete_Disk
      \<and> h' = \<lparr>oh_instance = or_adapter_instance x, oh_id = or_operation_id x\<rparr>)" and inst: "\<not> oh_instance h \<noteq> inst"
  then obtain x where x: "heard (ad_handle a) reserve_operation_op t x" "or_mutation x = operation_code Delete_Disk"
    "or_adapter_instance x = inst" and h: "h = \<lparr>oh_instance = inst, oh_id = or_operation_id x\<rparr>" by auto
  note recovered = wlp_conj [OF recover_heard recover_submits [OF delete_reserved.control_operation_axioms]]
  show "wlp (bind_io (new_operation_request delete_reserved_op h) (\<lambda>op.
       try_io (recover os a delete_reserved_op h Delete_Disk \<lparr>rd_operation = op, rd_device_id = ident, rd_reserved = 0\<rparr>) (\<lambda>_.
       try_io (context_io (Unresolved_Outcome h) (adapter_state os a)) (\<lambda>st.
         if sr_adapter_instance st \<noteq> oh_instance h \<or> lists_device st ident
         then fail_io (Context (Unresolved_Outcome h) (Msg (lit ''delete operation ''
           @ dec_digits (unat (oh_id h)) @ lit '' completed but device ''
           @ dec_digits (unat ident) @ lit '' removal could not be confirmed'')))
         else ok_io ()))))
      (\<lambda>r t' s''. case r of Ok _ \<Rightarrow> deletion_confirmed a inst ident (t @ t') | Err _ \<Rightarrow> True) s1"
    unfolding new_operation_request_def new_request_header_def wlp_rules append_Nil
  proof (rule wlp_tryI [OF recovered], simp)
    fix y u and s2 :: "'a sys"
    assume u: "(\<forall>x. Ok y = Ok x \<longrightarrow> confirms h Delete_Disk x
        \<and> (heard (ad_handle a) delete_reserved_op u x \<or> heard (ad_handle a) query_result_op u x))
      \<and> requests_of (co_code delete_reserved_op) u \<noteq> []"
    have "deletion_confirmed a inst ident (t @ u @ v)"
      if "heard (ad_handle a) list_state_op v st" "sr_adapter_instance st = inst" "\<not> lists_device st ident" for st v
      unfolding deletion_confirmed_def
      by (intro exI [of _ x] exI [of _ y] exI [of _ st]) (use x u that h in auto)
    then show "wlp (try_io (context_io (Unresolved_Outcome h) (adapter_state os a)) (\<lambda>st.
         if sr_adapter_instance st \<noteq> oh_instance h \<or> lists_device st ident
         then fail_io (Context (Unresolved_Outcome h) (Msg (lit ''delete operation ''
           @ dec_digits (unat (oh_id h)) @ lit '' completed but device ''
           @ dec_digits (unat ident) @ lit '' removal could not be confirmed'')))
         else ok_io ()))
      (\<lambda>r t' s''. case r of Ok _ \<Rightarrow> deletion_confirmed a inst ident (t @ u @ t') | Err _ \<Rightarrow> True) s2"
      by (intro wlp_tryI [where P = "\<lambda>r t s'. \<forall>st. r = Ok st \<longrightarrow> heard (ad_handle a) list_state_op t st"])
        (auto simp: wlp_rules h intro!: wlp_mono [OF state_heard] split: sum.split)
  qed
qed (simp add: wlp_rules)

lemma wlp_case_sumI:
  "(\<And>e. x = Err e \<Longrightarrow> wlp (f e) Q s) \<Longrightarrow> (\<And>y. x = Ok y \<Longrightarrow> wlp (g y) Q s) \<Longrightarrow>
    wlp (case x of Err e \<Rightarrow> f e | Ok y \<Rightarrow> g y) Q s"
  by (cases x) auto

section \<open>Adapters that were found\<close>

text \<open>
  Probing a port: its device did not open; or the driver behind it did not answer the query of its
  version as it must, and was closed; or it is an adapter, with the handle that was opened.
\<close>

definition port_opened :: "nat \<Rightarrow> handle \<Rightarrow> os_event" where
  "port_opened port h = Create_File (utf16 (scsi_path port)) (GENERIC_READ OR GENERIC_WRITE) (Ok h)"

definition no_adapter :: "nat \<Rightarrow> os_event list \<Rightarrow> bool" where
  "no_adapter port t \<longleftrightarrow>
     (\<exists>code. t = [Create_File (utf16 (scsi_path port)) (GENERIC_READ OR GENERIC_WRITE) (Err code)])
     \<or> (\<exists>h q answer. t = [port_opened port h,
            Device_Io_Control h IOCTL_SCSI_MINIPORT (request_buffer query_version_op q) answer, Close_Handle h]
          \<and> \<not> is_ok (try_res (reply_of query_version_op q answer) check_version))"

definition adapter_found :: "nat \<Rightarrow> adapter \<Rightarrow> os_event list \<Rightarrow> bool" where
  "adapter_found port a t \<longleftrightarrow> unat (ad_port_number a) = port \<and> (\<exists>q answer. t = [port_opened port (ad_handle a),
        Device_Io_Control (ad_handle a) IOCTL_SCSI_MINIPORT (request_buffer query_version_op q) answer]
      \<and> is_ok (try_res (reply_of query_version_op q answer) check_version))"

lemma scsi_path_wide: "wide (scsi_path port) = Ok (utf16 (scsi_path port))"
  by (auto simp: wide_def scsi_path_def lit_def dest!: dec_digits_are_digits simp: is_ascii_digit_def)

lemma wlp_query_version:
  "wlp (query_version os a) (\<lambda>r t _. \<exists>q answer.
     t = [Device_Io_Control (ad_handle a) IOCTL_SCSI_MINIPORT (request_buffer query_version_op q) answer]
     \<and> r = try_res (reply_of query_version_op q answer) check_version) s"
proof -
  have checked: "try_io m (\<lambda>v. return_io (check_version v)) = map_io (\<lambda>x. try_res x check_version) m"
    for m :: "('a, query_version_response result) sys_io"
  proof -
    have "(case x of Err e \<Rightarrow> return_io (Err e) | Ok v \<Rightarrow> return_io (check_version v)) =
        (return_io (try_res x check_version) :: ('a, query_version_response result) sys_io)" for x
      by (cases x) simp_all
    then show ?thesis by (simp add: try_io_def map_io_def)
  qed
  have "wlp (send os a query_version_op q) (\<lambda>x t _. \<exists>q answer.
      t = [Device_Io_Control (ad_handle a) IOCTL_SCSI_MINIPORT (request_buffer query_version_op q) answer]
      \<and> try_res x check_version = try_res (reply_of query_version_op q answer) check_version) u" for q u
    by (rule query_version.wlp_sendI) blast
  then show ?thesis
    unfolding query_version_def new_request_header_def checked by (simp only: wlp_rules append_Nil)
qed

lemma wlp_probe_port:
  assumes "port < 256"
  shows "wlp (probe_port os port) (\<lambda>found t _. case found of
     None \<Rightarrow> no_adapter port t | Some a \<Rightarrow> adapter_found port a t) s"
proof -
  have unat: "unat (word_of_nat port :: u8) = port" using assms by (simp add: unsigned_of_nat take_bit_nat_eq_self)
  let ?a = "\<lambda>h. \<lparr>ad_handle = h, ad_port_number = word_of_nat port :: u8\<rparr>"
  have probed: "wlp (bind_io (query_version os (?a h)) (\<lambda>v. case v of
        Err e \<Rightarrow> bind_io (close_handle os h) (\<lambda>_. return_io None)
      | Ok response \<Rightarrow> return_io (Some (?a h))))
    (\<lambda>found t _. case found of None \<Rightarrow> no_adapter port (port_opened port h # t)
      | Some a \<Rightarrow> adapter_found port a (port_opened port h # t)) s'" for h s'
  proof (rule wlp_bindI [OF wlp_query_version], elim exE conjE)
    fix v t u and s2 :: "'a sys" and q answer
    assume t: "t = [Device_Io_Control (ad_handle (?a h)) IOCTL_SCSI_MINIPORT (request_buffer query_version_op q) answer]"
      and v: "v = try_res (reply_of query_version_op q answer) check_version"
    have "no_adapter port (port_opened port h # t @ [Close_Handle h])" if "\<not> is_ok v"
      unfolding no_adapter_def using t v that by auto
    moreover have "adapter_found port (?a h) (port_opened port h # t)" if "is_ok v"
      unfolding adapter_found_def using t v that unat by auto
    ultimately show "wlp (case v of Err e \<Rightarrow> bind_io (close_handle os h) (\<lambda>_. return_io None)
        | Ok response \<Rightarrow> return_io (Some (?a h)))
      (\<lambda>found t' _. case found of None \<Rightarrow> no_adapter port (port_opened port h # t @ t')
        | Some a \<Rightarrow> adapter_found port a (port_opened port h # t @ t')) s2"
      by (cases v) (auto simp: close_handle_def wlp_rules intro!: wlp_os_callI)
  qed
  have tail: "wlp (bind_io (query_version os (?a h)) (\<lambda>v. case v of
        Err e \<Rightarrow> bind_io (close_handle os h) (\<lambda>_. return_io None)
      | Ok response \<Rightarrow> return_io (Some (?a h))))
    (\<lambda>found t _. case found of
       None \<Rightarrow> no_adapter port ([Create_File (utf16 (scsi_path port)) (GENERIC_READ OR GENERIC_WRITE) (Ok h)] @ t)
     | Some a \<Rightarrow> adapter_found port a ([Create_File (utf16 (scsi_path port)) (GENERIC_READ OR GENERIC_WRITE) (Ok h)] @ t)) s'"
    for h s'
    using probed [of h s'] by (simp only: port_opened_def append_Cons append_Nil)
  have opened: "wlp (open_device os (scsi_path port) (GENERIC_READ OR GENERIC_WRITE)) (\<lambda>r t _. case r of
       Err _ \<Rightarrow> \<exists>code. t = [Create_File (utf16 (scsi_path port)) (GENERIC_READ OR GENERIC_WRITE) (Err code)]
     | Ok h \<Rightarrow> t = [Create_File (utf16 (scsi_path port)) (GENERIC_READ OR GENERIC_WRITE) (Ok h)]) s"
    unfolding open_device_def scsi_path_wide open_device_wide_def try_io_def
    by (auto simp: wlp_rules map_err_def intro!: wlp_os_callI split: sum.splits)
  show ?thesis
    unfolding probe_port_def Let_def
  proof (rule wlp_bindI [OF opened], rule wlp_case_sumI)
    fix r t and s' :: "'a sys" and h
    assume "case r of Err _ \<Rightarrow> \<exists>code. t = [Create_File (utf16 (scsi_path port)) (GENERIC_READ OR GENERIC_WRITE) (Err code)]
     | Ok h \<Rightarrow> t = [Create_File (utf16 (scsi_path port)) (GENERIC_READ OR GENERIC_WRITE) (Ok h)]" "r = Ok h"
    then have t: "t = [Create_File (utf16 (scsi_path port)) (GENERIC_READ OR GENERIC_WRITE) (Ok h)]" by simp
    show "wlp (if 256 \<le> port then bind_io (close_handle os h) (\<lambda>_. return_io None)
         else bind_io (query_version os (?a h)) (\<lambda>v. case v of
           Err e \<Rightarrow> bind_io (close_handle os h) (\<lambda>_. return_io None) | Ok response \<Rightarrow> return_io (Some (?a h))))
      (\<lambda>found t' _. case found of None \<Rightarrow> no_adapter port (t @ t') | Some a \<Rightarrow> adapter_found port a (t @ t')) s'"
      unfolding t by (rule wlp_ifI [OF _ tail]) (use assms in simp)
  qed (auto simp: wlp_rules no_adapter_def)
qed

text \<open>A scan, port by port: an invariant of the ports probed, the carried value and the trace.\<close>

lemma wlp_scan_ports:
  assumes none: "\<And>ps p c T t. I ps c T \<Longrightarrow> no_adapter p t \<Longrightarrow> I (ps @ [p]) c (T @ t)"
    and body: "\<And>ps p a c T t s. I ps c T \<Longrightarrow> adapter_found p a t \<Longrightarrow>
      wlp (body a c) (\<lambda>r u _. case r of Continue c' \<Rightarrow> I (ps @ [p]) c' (T @ t @ u) | Break b \<Rightarrow> B b (T @ t @ u)) s"
    and "I ps c T" and "list_all (\<lambda>p. p < 256) qs"
  shows "wlp (scan_adapters os qs body c)
    (\<lambda>r t _. case r of Continue c' \<Rightarrow> I (ps @ qs) c' (T @ t) | Break b \<Rightarrow> B b (T @ t)) s"
  using assms(3,4)
proof (induction qs arbitrary: ps c T s)
  case Nil
  then show ?case by (simp add: wlp_rules)
next
  case (Cons q qs)
  then have q: "q < 256" and qs: "list_all (\<lambda>p. p < 256) qs" by simp_all
  show ?case
    unfolding scan_adapters.simps
  proof (rule wlp_bindI [OF wlp_probe_port [OF q]])
    fix found t and s' :: "'b sys"
    assume found: "case found of None \<Rightarrow> no_adapter q t | Some a \<Rightarrow> adapter_found q a t"
    show "wlp (case found of None \<Rightarrow> scan_adapters os qs body c
       | Some a \<Rightarrow> bind_io (body a c) (\<lambda>r. case r of
           Continue c' \<Rightarrow> scan_adapters os qs body c' | Break b \<Rightarrow> return_io (Break b)))
      (\<lambda>r u _. case r of Continue c' \<Rightarrow> I (ps @ q # qs) c' (T @ t @ u) | Break b \<Rightarrow> B b (T @ t @ u)) s'"
    proof (cases found)
      case None
      with found none [OF Cons.prems(1)] have "I (ps @ [q]) c (T @ t)" by simp
      from Cons.IH [OF this qs] None show ?thesis by (simp cong: flow.case_cong)
    next
      case (Some a)
      with found have a: "adapter_found q a t" by simp
      have step: "wlp (case r of Continue c' \<Rightarrow> scan_adapters os qs body c' | Break b \<Rightarrow> return_io (Break b))
          (\<lambda>r' v _. case r' of Continue c' \<Rightarrow> I (ps @ q # qs) c' (T @ t @ u @ v) | Break b \<Rightarrow> B b (T @ t @ u @ v)) s''"
        if "case r of Continue c' \<Rightarrow> I (ps @ [q]) c' (T @ t @ u) | Break b \<Rightarrow> B b (T @ t @ u)" for r u and s'' :: "'b sys"
        using that Cons.IH [OF _ qs, of "ps @ [q]" _ "T @ t @ u"] by (cases r) (simp_all add: wlp_rules cong: flow.case_cong)
      show ?thesis
        unfolding Some option.case by (rule wlp_bindI [OF body [OF Cons.prems(1) a]]) (rule step)
    qed
  qed
qed

lemma wlp_for_adapters:
  assumes "\<And>ps p c T t. I ps c T \<Longrightarrow> no_adapter p t \<Longrightarrow> I (ps @ [p]) c (T @ t)"
    and "\<And>ps p a c T t s. I ps c T \<Longrightarrow> adapter_found p a t \<Longrightarrow>
      wlp (body a c) (\<lambda>r u _. case r of Continue c' \<Rightarrow> I (ps @ [p]) c' (T @ t @ u) | Break b \<Rightarrow> B b (T @ t @ u)) s"
    and "I [] c []"
  shows "wlp (for_adapters os body c)
    (\<lambda>r t _. case r of Continue c' \<Rightarrow> I [0..<256] c' t | Break b \<Rightarrow> B b t) s"
  unfolding for_adapters_def SCSI_PORT_LIMIT_def
  using wlp_scan_ports [of I body B "[]" c "[]" "[0..<256]" os s, OF assms(1,2,3)]
  by (simp add: list_all_iff cong: flow.case_cong)

text \<open>The adapter that a trace opened, with its port.\<close>

definition adapter_opened :: "adapter \<Rightarrow> os_event list \<Rightarrow> bool" where
  "adapter_opened a t \<longleftrightarrow> port_opened (unat (ad_port_number a)) (ad_handle a) \<in> set t"

lemma adapter_opened_append [simp]: "adapter_opened a (t @ u) \<longleftrightarrow> adapter_opened a t \<or> adapter_opened a u"
  by (auto simp: adapter_opened_def)

lemma adapter_found_opened: "adapter_found port a t \<Longrightarrow> adapter_opened a t"
  by (auto simp: adapter_found_def adapter_opened_def)

lemma wlp_first_adapter:
  "wlp (first_adapter os) (\<lambda>found t _. case found of Some a \<Rightarrow> adapter_opened a t | None \<Rightarrow> True) s"
  unfolding first_adapter_def wlp_map
  by (rule wlp_mono [OF wlp_for_adapters [where I = "\<lambda>_ _ _. True" and B = adapter_opened]])
    (auto simp: wlp_rules dest: adapter_found_opened split: flow.splits)

lemma wlp_wait_for_adapter:
  "wlp (wait_for_adapter os timeout) (\<lambda>r t _. case r of Ok a \<Rightarrow> adapter_opened a t | Err _ \<Rightarrow> True) s"
  unfolding wait_for_adapter_def wlp_rules append_Nil
proof (rule wlp_loop0 [where I = "\<lambda>_ _ _. True"])
  fix x :: unit and T and u :: "'a sys"
  show "wlp (bind_io (first_adapter os) (\<lambda>found. case found of
         Some a \<Rightarrow> return_io (Break (Ok a))
       | None \<Rightarrow> bind_io now (\<lambda>t'.
           if t' \<ge> clock s + timeout
           then return_io (Break (Err (Msg (lit ''driver was installed, but its SCSI adapter did not appear within 30 seconds''))))
           else bind_io (sleep os RETRY_INTERVAL) (\<lambda>_. return_io (Continue ())))))
    (\<lambda>r t _. case r of Continue _ \<Rightarrow> True
       | Break b \<Rightarrow> (case b of Ok a \<Rightarrow> adapter_opened a (T @ t) | Err _ \<Rightarrow> True)) u"
    by (rule wlp_bindI [OF wlp_first_adapter])
      (auto simp: wlp_rules intro!: wlp_sleepI split: option.splits)
qed simp

end
