(* ===== verification/Disks.thy ===== *)
theory Disks
  imports Hearing
begin

text \<open>
  disk/mod.rs and disk/interface_notification.rs: the identity of a physical disk. A disk is
  known by its SCSI location, which is read from the device itself; its \<open>PhysicalDrive\<close> number is
  looked up by enumerating the disk interfaces and is revalidated against the location before
  anything destructive. Sizes and offsets of the Windows structures are those of a 64-bit target.
\<close>

section \<open>Constants and structures\<close>

definition IOCTL_SCSI_GET_ADDRESS :: u32 where "IOCTL_SCSI_GET_ADDRESS = 0x41018"
definition IOCTL_STORAGE_GET_DEVICE_NUMBER :: u32 where
  "IOCTL_STORAGE_GET_DEVICE_NUMBER = 0x2D1080"
definition FILE_DEVICE_DISK :: u32 where "FILE_DEVICE_DISK = 7"
definition ERROR_NO_MORE_ITEMS :: u32 where "ERROR_NO_MORE_ITEMS = 259"
definition ERROR_INSUFFICIENT_BUFFER :: u32 where "ERROR_INSUFFICIENT_BUFFER = 122"

text \<open>\<open>SP_DEVICE_INTERFACE_DETAIL_DATA_W\<close>: eight bytes, the path starts at offset four.\<close>

definition detail_size :: nat where "detail_size = 8"
definition detail_path_offset :: nat where "detail_path_offset = 4"

record scsi_location =
  sl_port :: u8
  sl_path :: u8
  sl_target :: u8
  sl_lun :: u8

definition disk_location :: "adapter \<Rightarrow> disk_state \<Rightarrow> scsi_location" where
  "disk_location a entry = \<lparr>sl_port = ad_port_number a, sl_path = di_path_id (ds_disk entry),
     sl_target = di_target_id (ds_disk entry), sl_lun = di_lun (ds_disk entry)\<rparr>"

definition location_display :: "scsi_location \<Rightarrow> ustring" where
  "location_display l = dec_digits (unat (sl_port l)) @ lit '':'' @ dec_digits (unat (sl_path l))
     @ lit '':'' @ dec_digits (unat (sl_target l)) @ lit '':'' @ dec_digits (unat (sl_lun l))"

section \<open>Queries on an open device\<close>

text \<open>\<open>SCSI_ADDRESS\<close>: a length and the four bytes of the location.\<close>

definition read_scsi_address :: "u32 + (u32 \<times> u8 list) \<Rightarrow> scsi_location result" where
  "read_scsi_address answer = (case answer of
     Err code \<Rightarrow> Err (last_os_error ''query SCSI address'' code)
   | Ok (returned, out) \<Rightarrow>
       if unat returned < 8
       then Err (Msg (lit ''disk returned a truncated SCSI address ('' @ dec_digits (unat returned)
         @ lit '' bytes)''))
       else let address = overlay (u32_bytes 8 @ [0, 0, 0, 0]) out in
         Ok \<lparr>sl_port = u8_at 4 address, sl_path = u8_at 5 address, sl_target = u8_at 6 address,
           sl_lun = u8_at 7 address\<rparr>)"

definition scsi_location_of :: "'w os \<Rightarrow> handle \<Rightarrow> ('w, scsi_location result) sys_io" where
  "scsi_location_of os device =
     map_io read_scsi_address (device_io_control os device IOCTL_SCSI_GET_ADDRESS [] 8)"

text \<open>\<open>STORAGE_DEVICE_NUMBER\<close>: device type, number and partition number.\<close>

definition read_device_number :: "u32 + (u32 \<times> u8 list) \<Rightarrow> u32 result" where
  "read_device_number answer = (case answer of
     Err code \<Rightarrow> Err (last_os_error ''query disk-interface device number'' code)
   | Ok (returned, out) \<Rightarrow>
       if unat returned < 12
       then Err (Msg (lit ''disk interface returned a truncated device number (''
         @ dec_digits (unat returned) @ lit '' bytes)''))
       else let number = overlay (replicate 12 0) out in
         if u32_at 0 number \<noteq> FILE_DEVICE_DISK
         then Err (Msg (lit ''disk interface reported unexpected device type ''
           @ dec_digits (unat (u32_at 0 number))))
         else Ok (u32_at 4 number))"

definition storage_device_number :: "'w os \<Rightarrow> handle \<Rightarrow> ('w, u32 result) sys_io" where
  "storage_device_number os device =
     map_io read_device_number (device_io_control os device IOCTL_STORAGE_GET_DEVICE_NUMBER [] 12)"

section \<open>Finding the disk at a location\<close>

definition interface_detail ::
  "'w os \<Rightarrow> handle \<Rightarrow> u64 \<Rightarrow> nat \<Rightarrow> ('w, u32 option \<times> u32 \<times> wstr) sys_io" where
  "interface_detail os dset iface cap =
     os_call (os_interface_detail os dset iface cap) (Interface_Detail dset iface cap)"

text \<open>
  The second half of \<open>disk_interface_path\<close>: the buffer is rounded up to whole \<open>usize\<close> words, and
  the path is what lies behind its header up to a terminator.
\<close>

definition read_interface_path :: "'w os \<Rightarrow> handle \<Rightarrow> u64 \<Rightarrow> u32 \<Rightarrow> ('w, wstr result) sys_io" where
  "read_interface_path os dset iface required =
     try_io (ensure_io (unat required \<ge> detail_size)
       (Msg (lit ''SetupAPI returned an invalid disk-interface path size''))) (\<lambda>_.
     let storage_bytes = ((unat required + 7) div 8) * 8 in
     bind_io (interface_detail os dset iface storage_bytes) (\<lambda>(failed, _, units).
       case failed of
         Some code \<Rightarrow> fail_io (last_os_error ''read disk-interface path'' code)
       | None \<Rightarrow> return_io (map_err
           (Context (Ctx (lit ''SetupAPI returned an unterminated disk-interface path'')))
           (wide_from_buffer
             (overlay (replicate ((storage_bytes - detail_path_offset) div 2) 0) units)))))"

definition disk_interface_path :: "'w os \<Rightarrow> handle \<Rightarrow> u64 \<Rightarrow> ('w, wstr result) sys_io" where
  "disk_interface_path os dset iface =
     bind_io (interface_detail os dset iface 0) (\<lambda>(failed, required, _).
       if failed \<noteq> None \<and> failed \<noteq> Some ERROR_INSUFFICIENT_BUFFER
       then fail_io (Context (Ctx (lit ''query disk-interface path size''))
         (Io (Os_Error (the failed))))
       else read_interface_path os dset iface required)"

text \<open>
  One interface of the enumeration: the number of the disk behind it if its location is the
  expected one; any failure on the way (the \<open>continue\<close>s) makes it no match.
\<close>

definition probe_interface :: "'w os \<Rightarrow> handle \<Rightarrow> u64 \<Rightarrow> scsi_location \<Rightarrow> ('w, u32 option) sys_io" where
  "probe_interface os dset iface expected =
     bind_io (disk_interface_path os dset iface) (\<lambda>r. case r of
       Err _ \<Rightarrow> return_io None
     | Ok path \<Rightarrow> bind_io (open_device_wide os path 0) (\<lambda>r. case r of
         Err _ \<Rightarrow> return_io None
       | Ok disk \<Rightarrow> owning os disk (bind_io (scsi_location_of os disk) (\<lambda>r. case r of
           Err _ \<Rightarrow> return_io None
         | Ok actual \<Rightarrow> if actual \<noteq> expected then return_io None
             else bind_io (storage_device_number os disk) (\<lambda>r. case r of
               Err _ \<Rightarrow> return_io None
             | Ok number \<Rightarrow> return_io (Some number))))))"

definition multiple_disks :: "scsi_location \<Rightarrow> error" where
  "multiple_disks expected =
     Msg (lit ''multiple physical disks reported SCSI '' @ location_display expected)"

text \<open>The loop of \<open>find_physical_disk\<close>; it carries the next index and the number matched so far.\<close>

definition find_round ::
  "'w os \<Rightarrow> handle \<Rightarrow> scsi_location \<Rightarrow> nat \<times> u32 option
     \<Rightarrow> ('w, (nat \<times> u32 option, u32 option result) flow) sys_io" where
  "find_round os dset expected = (\<lambda>(index, matched).
     bind_io (os_call (os_enum_interfaces os dset index) (Enum_Interfaces dset index)) (\<lambda>r. case r of
       Err code \<Rightarrow> return_io (Break (if code = ERROR_NO_MORE_ITEMS then Ok matched
         else Err (Context (Ctx (lit ''enumerate disk interface'')) (Io (Os_Error code)))))
     | Ok iface \<Rightarrow> bind_io (probe_interface os dset iface expected) (\<lambda>found. case found of
         None \<Rightarrow> return_io (Continue (index + 1, matched))
       | Some number \<Rightarrow> (case matched of
           None \<Rightarrow> return_io (Continue (index + 1, Some number))
         | Some previous \<Rightarrow> if previous \<noteq> number
             then return_io (Break (Err (multiple_disks expected)))
             else return_io (Continue (index + 1, matched))))))"

definition destroy_device_list :: "'w os \<Rightarrow> handle \<Rightarrow> ('w, unit) sys_io" where
  "destroy_device_list os dset = os_call (os_destroy_device_list os dset) (\<lambda>_. Destroy_Device_List dset)"

definition find_physical_disk :: "'w os \<Rightarrow> scsi_location \<Rightarrow> ('w, u32 option result) sys_io" where
  "find_physical_disk os expected =
     bind_io (os_call (os_get_class_devs os Disk_Interfaces) (Get_Class_Devs Disk_Interfaces))
       (\<lambda>r. case r of
          Err code \<Rightarrow> fail_io (last_os_error ''enumerate present disk interfaces'' code)
        | Ok dset \<Rightarrow> bind_io (loop_io (find_round os dset expected) (0, None)) (\<lambda>result.
            bind_io (destroy_device_list os dset) (\<lambda>_. return_io result)))"

section \<open>Notification of arriving disks\<close>

text \<open>interface_notification.rs; dropping it unregisters before the event is closed.\<close>

record notification =
  nt_handle :: handle
  nt_event :: handle

definition WAIT_OBJECT_0 :: u32 where "WAIT_OBJECT_0 = 0"
definition WAIT_TIMEOUT :: u32 where "WAIT_TIMEOUT = 258"
definition CR_SUCCESS :: u32 where "CR_SUCCESS = 0"

definition notification_new :: "'w os \<Rightarrow> ('w, notification result) sys_io" where
  "notification_new os =
     bind_io (os_call (os_create_event os) Create_Event) (\<lambda>r. case r of
       Err code \<Rightarrow> fail_io (last_os_error ''create disk-arrival notification event'' code)
     | Ok event \<Rightarrow>
         bind_io (os_call (os_register_notification os event) (Register_Notification event))
           (\<lambda>(status, h). if status \<noteq> CR_SUCCESS
              then bind_io (close_handle os event) (\<lambda>_. fail_io (Msg
                (lit ''register for disk-interface arrival notifications: Configuration Manager error ''
                 @ dec_digits (unat status))))
              else ok_io \<lparr>nt_handle = h, nt_event = event\<rparr>))"

definition wait_result :: "u32 \<times> u32 \<Rightarrow> unit result" where
  "wait_result = (\<lambda>(waited, code). if waited = WAIT_OBJECT_0 \<or> waited = WAIT_TIMEOUT then Ok ()
     else Err (last_os_error ''wait for disk-interface arrival'' code))"

definition notification_wait :: "'w os \<Rightarrow> notification \<Rightarrow> nat \<Rightarrow> ('w, unit result) sys_io" where
  "notification_wait os n timeout =
     (let milliseconds = word_of_nat (min (timeout div 1000000) (2 ^ 32 - 1)) in
      map_io wait_result (os_call (os_wait_event os (nt_event n) milliseconds)
        (Wait_Event (nt_event n) milliseconds)))"

definition notification_drop :: "'w os \<Rightarrow> notification \<Rightarrow> ('w, unit) sys_io" where
  "notification_drop os n =
     bind_io (if nt_handle n \<noteq> 0
         then os_call (os_unregister_notification os (nt_handle n))
           (\<lambda>_. Unregister_Notification (nt_handle n))
         else return_io ())
       (\<lambda>_. close_handle os (nt_event n))"

section \<open>Waiting for disks\<close>

definition did_not_appear :: "scsi_location \<Rightarrow> error" where
  "did_not_appear l = Msg (lit ''new disk at SCSI '' @ location_display l
     @ lit '' did not appear within 30 seconds'')"

definition wait_for_physical_disk :: "'w os \<Rightarrow> scsi_location \<Rightarrow> nat \<Rightarrow> ('w, u32 result) sys_io" where
  "wait_for_physical_disk os location timeout =
     try_io (notification_new os) (\<lambda>n.
     bind_io now (\<lambda>t.
     bind_io (loop_io (\<lambda>_ :: unit.
         bind_io (find_physical_disk os location) (\<lambda>found. case found of
           Err e \<Rightarrow> return_io (Break (Err e))
         | Ok (Some number) \<Rightarrow> return_io (Break (Ok number))
         | Ok None \<Rightarrow> bind_io now (\<lambda>t'.
             if t' \<ge> t + timeout then return_io (Break (Err (did_not_appear location)))
             else bind_io (notification_wait os n (min (t + timeout - t') RETRY_INTERVAL))
               (\<lambda>r. return_io (case r of Err e \<Rightarrow> Break (Err e) | Ok _ \<Rightarrow> Continue ()))))) ())
       (\<lambda>result. bind_io (notification_drop os n) (\<lambda>_. return_io result))))"

definition physical_drive_path :: "u32 \<Rightarrow> ustring" where
  "physical_drive_path number = [92, 92, 46, 92] @ lit ''PhysicalDrive'' @ dec_digits (unat number)"

definition physical_disk_address :: "'w os \<Rightarrow> u32 \<Rightarrow> ('w, scsi_location result) sys_io" where
  "physical_disk_address os number =
     (let name = lit ''PhysicalDrive'' @ dec_digits (unat number) in
      try_io (io_context (lit ''open '' @ name) (open_device os (physical_drive_path number) 0))
        (\<lambda>disk. owning os disk (context_io (Ctx (lit ''query '' @ name @ lit '' SCSI address''))
          (scsi_location_of os disk))))"

definition changed_identity :: "u32 \<Rightarrow> error" where
  "changed_identity number = Msg (lit ''PhysicalDrive'' @ dec_digits (unat number)
     @ lit '' changed identity before initialization; refusing to format it'')"

definition verify_physical_disk_location ::
  "'w os \<Rightarrow> u32 \<Rightarrow> scsi_location \<Rightarrow> ('w, unit result) sys_io" where
  "verify_physical_disk_location os number expected =
     try_io (physical_disk_address os number) (\<lambda>actual.
       ensure_io (actual = expected) (changed_identity number))"

definition wait_for_physical_disk_absent ::
  "'w os \<Rightarrow> u32 \<Rightarrow> scsi_location \<Rightarrow> nat \<Rightarrow> ('w, unit result) sys_io" where
  "wait_for_physical_disk_absent os number location timeout = bind_io now (\<lambda>t.
     loop_io (\<lambda>_ :: unit. bind_io (physical_disk_address os number) (\<lambda>r.
       if r \<noteq> Ok location then return_io (Break (Ok ()))
       else bind_io now (\<lambda>t'. if t' \<ge> t + timeout
         then return_io (Break (Err (Msg (lit ''deleted disk at SCSI '' @ location_display location
           @ lit '' remained present for 30 seconds''))))
         else bind_io (sleep os RETRY_INTERVAL) (\<lambda>_. return_io (Continue ()))))) ())"

section \<open>Which disk is found\<close>

text \<open>
  Reading a trace of the search: the disk numbers that devices reported, and whether a number is
  only asked of a handle that has just reported the expected location.
\<close>

fun reported_numbers :: "os_event \<Rightarrow> u32 list" where
  "reported_numbers (Device_Io_Control h code inp answer) =
     (if code = IOCTL_STORAGE_GET_DEVICE_NUMBER
      then (case read_device_number answer of Ok n \<Rightarrow> [n] | Err _ \<Rightarrow> []) else [])"
| "reported_numbers _ = []"

definition numbers_of :: "os_event list \<Rightarrow> u32 list" where
  "numbers_of t = concat (map reported_numbers t)"

lemma numbers_of_simps [simp]:
  "numbers_of [] = []" "numbers_of (t @ u) = numbers_of t @ numbers_of u"
  "numbers_of (ev # t) = reported_numbers ev @ numbers_of t"
  by (simp_all add: numbers_of_def)

fun asked_of_match :: "scsi_location \<Rightarrow> handle option \<Rightarrow> os_event list \<Rightarrow> bool" where
  "asked_of_match expected at [] \<longleftrightarrow> True"
| "asked_of_match expected at (Device_Io_Control h code inp answer # t) \<longleftrightarrow>
     (if code = IOCTL_SCSI_GET_ADDRESS
      then asked_of_match expected (if read_scsi_address answer = Ok expected then Some h else None) t
      else if code = IOCTL_STORAGE_GET_DEVICE_NUMBER then at = Some h \<and> asked_of_match expected at t
      else asked_of_match expected at t)"
| "asked_of_match expected at (ev # t) \<longleftrightarrow> asked_of_match expected at t"

lemma asked_mono: "asked_of_match l None t \<Longrightarrow> asked_of_match l at t"
  by (induction l "None :: handle option" t arbitrary: "at" rule: asked_of_match.induct)
    (auto split: if_splits)

lemma asked_append:
  "asked_of_match l at t \<Longrightarrow> asked_of_match l None u \<Longrightarrow> asked_of_match l at (t @ u)"
  by (induction l "at" t rule: asked_of_match.induct) (auto intro: asked_mono split: if_splits)

definition searches :: "scsi_location \<Rightarrow> u32 option \<Rightarrow> os_event list \<Rightarrow> bool" where
  "searches expected found t \<longleftrightarrow> asked_of_match expected None t \<and> set (numbers_of t) = set_option found"

text \<open>Steps that neither read a location nor a number.\<close>

definition no_identity :: "os_event \<Rightarrow> bool" where
  "no_identity ev \<longleftrightarrow> (case ev of Device_Io_Control h code inp answer \<Rightarrow>
     code \<noteq> IOCTL_SCSI_GET_ADDRESS \<and> code \<noteq> IOCTL_STORAGE_GET_DEVICE_NUMBER | _ \<Rightarrow> True)"

lemma no_identity_trace:
  "list_all no_identity t \<Longrightarrow> asked_of_match l at (t @ u) = asked_of_match l at u \<and> numbers_of t = []"
proof (induction t)
  case (Cons ev t)
  then show ?case by (cases ev) (auto simp: no_identity_def)
qed simp

lemma no_identity_path: "all_events no_identity (disk_interface_path os dset iface)"
  unfolding disk_interface_path_def read_interface_path_def interface_detail_def Let_def
  by (intro all_events_intros; simp add: no_identity_def)

lemma wlp_probe_interface:
  "wlp (probe_interface os dset iface expected) (\<lambda>found t _. searches expected found t) s"
proof -
  have start: "searches expected found (t @ u)"
    if "list_all no_identity t" "searches expected found u" for found t u
    using that no_identity_trace [OF that(1)] by (simp add: searches_def)
  have devices: "IOCTL_SCSI_GET_ADDRESS \<noteq> IOCTL_STORAGE_GET_DEVICE_NUMBER"
    by (simp add: IOCTL_SCSI_GET_ADDRESS_def IOCTL_STORAGE_GET_DEVICE_NUMBER_def)
  have disk: "wlp (owning os disk (bind_io (scsi_location_of os disk) (\<lambda>r. case r of
           Err _ \<Rightarrow> return_io None
         | Ok actual \<Rightarrow> if actual \<noteq> expected then return_io None
             else bind_io (storage_device_number os disk) (\<lambda>r. case r of
               Err _ \<Rightarrow> return_io None | Ok number \<Rightarrow> return_io (Some number)))))
      (\<lambda>found u _. searches expected found u) s'" for disk s'
    unfolding owning_def scsi_location_of_def storage_device_number_def device_io_control_def close_handle_def
    using devices
    by (auto simp: wlp_rules searches_def split: sum.splits intro!: wlp_os_callI)
  show ?thesis
    unfolding probe_interface_def
  proof (rule wlp_bindI [OF all_events_wlp [OF no_identity_path]])
    fix r :: "wstr result" and t and s' :: "'a sys"
    assume t: "list_all no_identity t"
    have opened: "wlp (bind_io (open_device_wide os path 0) (\<lambda>r. case r of
         Err _ \<Rightarrow> return_io None
       | Ok disk \<Rightarrow> owning os disk (bind_io (scsi_location_of os disk) (\<lambda>r. case r of
           Err _ \<Rightarrow> return_io None
         | Ok actual \<Rightarrow> if actual \<noteq> expected then return_io None
             else bind_io (storage_device_number os disk) (\<lambda>r. case r of
               Err _ \<Rightarrow> return_io None | Ok number \<Rightarrow> return_io (Some number))))))
      (\<lambda>found u _. searches expected found (t @ u)) s'" for path
      unfolding open_device_wide_def wlp_bind wlp_map
      by (rule wlp_os_callI)
        (auto intro!: wlp_mono [OF disk] simp: no_identity_trace [OF t] wlp_rules searches_def map_err_def
           split: sum.split)
    show "wlp (case r of Err _ \<Rightarrow> return_io None | Ok path \<Rightarrow> bind_io (open_device_wide os path 0)
        (\<lambda>r. case r of Err _ \<Rightarrow> return_io None
       | Ok disk \<Rightarrow> owning os disk (bind_io (scsi_location_of os disk) (\<lambda>r. case r of
           Err _ \<Rightarrow> return_io None
         | Ok actual \<Rightarrow> if actual \<noteq> expected then return_io None
             else bind_io (storage_device_number os disk) (\<lambda>r. case r of
               Err _ \<Rightarrow> return_io None | Ok number \<Rightarrow> return_io (Some number))))))
      (\<lambda>found u _. searches expected found (t @ u)) s'"
      using opened start [OF t, of None "[]"]
      by (auto simp: wlp_rules searches_def split: sum.split)
  qed
qed

lemma wlp_find_physical_disk:
  "wlp (find_physical_disk os expected) (\<lambda>r t s'. asked_of_match expected None t
     \<and> (case r of Ok found \<Rightarrow> set (numbers_of t) = set_option found | Err _ \<Rightarrow> True)) s"
proof -
  have loop: "wlp (loop_io (find_round os dset expected) (0, None)) (\<lambda>r t s'. asked_of_match expected None t
     \<and> (case r of Ok found \<Rightarrow> set (numbers_of t) = set_option found | Err _ \<Rightarrow> True)) s'" for dset s'
  proof (rule wlp_loop0 [where I = "\<lambda>x T _. searches expected (snd x) T"])
    fix x :: "nat \<times> u32 option" and T and s1 :: "'a sys"
    assume T: "searches expected (snd x) T"
    obtain index matched where x: "x = (index, matched)" by (cases x)
    have probed: "wlp (bind_io (probe_interface os dset iface expected) (\<lambda>found. case found of
         None \<Rightarrow> return_io (Continue (index + 1, matched))
       | Some number \<Rightarrow> (case matched of
           None \<Rightarrow> return_io (Continue (index + 1, Some number))
         | Some previous \<Rightarrow> if previous \<noteq> number
             then return_io (Break (Err (multiple_disks expected)))
             else return_io (Continue (index + 1, matched)))))
      (\<lambda>r t _. case r of Continue x' \<Rightarrow> searches expected (snd x') (T @ ev # t)
         | Break b \<Rightarrow> asked_of_match expected None (T @ ev # t)
             \<and> (case b of Ok found \<Rightarrow> set (numbers_of (T @ ev # t)) = set_option found | Err _ \<Rightarrow> True)) s2"
      if "reported_numbers ev = []" "\<And>t. asked_of_match expected None (ev # t) = asked_of_match expected None t"
      for ev iface and s2 :: "'a sys"
      by (rule wlp_bindI [OF wlp_probe_interface])
        (use T x that in \<open>auto simp: wlp_rules searches_def asked_append split: option.split\<close>)
    show "wlp (find_round os dset expected x) (\<lambda>r t s'. case r of
         Continue x' \<Rightarrow> searches expected (snd x') (T @ t)
       | Break b \<Rightarrow> asked_of_match expected None (T @ t)
           \<and> (case b of Ok found \<Rightarrow> set (numbers_of (T @ t)) = set_option found | Err _ \<Rightarrow> True)) s1"
      unfolding find_round_def x prod.case
    proof (rule wlp_bindI [OF wlp_os_call_event])
      fix r t and s2 :: "'a sys"
      assume t: "t = [Enum_Interfaces dset index r]"
      show "wlp (case r of
          Err code \<Rightarrow> return_io (Break (if code = ERROR_NO_MORE_ITEMS then Ok matched
            else Err (Context (Ctx (lit ''enumerate disk interface'')) (Io (Os_Error code)))))
        | Ok iface \<Rightarrow> bind_io (probe_interface os dset iface expected) (\<lambda>found. case found of
            None \<Rightarrow> return_io (Continue (index + 1, matched))
          | Some number \<Rightarrow> (case matched of
              None \<Rightarrow> return_io (Continue (index + 1, Some number))
            | Some previous \<Rightarrow> if previous \<noteq> number
                then return_io (Break (Err (multiple_disks expected)))
                else return_io (Continue (index + 1, matched)))))
        (\<lambda>r t' s'. case r of
           Continue x' \<Rightarrow> searches expected (snd x') (T @ t @ t')
         | Break b \<Rightarrow> asked_of_match expected None (T @ t @ t')
             \<and> (case b of Ok found \<Rightarrow> set (numbers_of (T @ t @ t')) = set_option found | Err _ \<Rightarrow> True)) s2"
      proof (cases r)
        case (Inl code)
        then show ?thesis using T x t by (auto simp: wlp_rules searches_def asked_append)
      next
        case (Inr iface)
        show ?thesis unfolding Inr t sum.case append.simps by (rule probed) simp_all
      qed
    qed
  qed (simp add: searches_def)
  show ?thesis
    unfolding find_physical_disk_def wlp_bind
    by (rule wlp_os_callI)
      (auto simp: wlp_rules destroy_device_list_def asked_append split: sum.split
         intro!: wlp_mono [OF loop] wlp_os_callI)
qed

text \<open>
  Finding the disk at a SCSI location: a disk number is only ever asked of a device that has
  just reported exactly that location; the search answers with a number only if it is the one
  number all matching devices reported, and with none only if no device matched. Several numbers
  for one location are an error.
\<close>

theorem disk_at_location_is_unique:
  "wlp (find_physical_disk os expected) (\<lambda>r t s'. asked_of_match expected None t
     \<and> (case r of Ok found \<Rightarrow> set (numbers_of t) = set_option found | Err _ \<Rightarrow> True)) s"
  by (rule wlp_find_physical_disk)

section \<open>Bounded waiting\<close>

lemma returns_disk_queries [returns_intros]:
  "returns (scsi_location_of os h)" "returns (storage_device_number os h)"
  "returns (physical_disk_address os number)"
  "returns (verify_physical_disk_location os number location)"
  unfolding scsi_location_of_def storage_device_number_def physical_disk_address_def
    verify_physical_disk_location_def Let_def
  by (intro returns_intros)+

lemma returns_wait_absent [returns_intros]:
  "returns (wait_for_physical_disk_absent os number location timeout)"
  unfolding wait_for_physical_disk_absent_def
proof (rule returns_bind [OF returns_basic(2)])
  fix t :: nat
  show "returns (loop_io (\<lambda>_ :: unit. bind_io (physical_disk_address os number) (\<lambda>r.
       if r \<noteq> Ok location then return_io (Break (Ok ()))
       else bind_io now (\<lambda>t'. if t' \<ge> t + timeout
         then return_io (Break (Err (Msg (lit ''deleted disk at SCSI '' @ location_display location
           @ lit '' remained present for 30 seconds''))))
         else bind_io (sleep os RETRY_INTERVAL) (\<lambda>_. return_io (Continue ()))))) ())"
    by (rule returns_loop [where left = "\<lambda>s. t + timeout - clock s"], rule poll_round)
      (auto intro!: returns_intros sleep_progress simp: wp_rules)
qed

end
