(* ===== verification/Volumes.thy ===== *)
theory Volumes
  imports Disks
begin

text \<open>
  volume/mod.rs, volume/discovery.rs and volume/finder.rs: enumerating volumes, finding those of
  a disk with their mount points, and the lock, dismount, unmount and restore operations on one
  owned volume. The methods that take \<open>&mut self\<close> return the updated \<open>volume\<close> with their result.
\<close>

section \<open>Constants\<close>

definition IOCTL_VOLUME_GET_VOLUME_DISK_EXTENTS :: u32 where
  "IOCTL_VOLUME_GET_VOLUME_DISK_EXTENTS = 0x560000"
definition FSCTL_LOCK_VOLUME :: u32 where "FSCTL_LOCK_VOLUME = 0x90018"
definition FSCTL_UNLOCK_VOLUME :: u32 where "FSCTL_UNLOCK_VOLUME = 0x9001C"
definition FSCTL_DISMOUNT_VOLUME :: u32 where "FSCTL_DISMOUNT_VOLUME = 0x90020"
definition ERROR_NO_MORE_FILES :: u32 where "ERROR_NO_MORE_FILES = 18"
definition ERROR_MORE_DATA :: u32 where "ERROR_MORE_DATA = 234"

section \<open>Enumerating volumes\<close>

text \<open>\<open>VolumeFinder\<close>; the name buffer has 1024 units and is cleared before each step.\<close>

record volume_finder =
  vf_handle :: handle
  vf_name :: wstr
  vf_first :: bool
  vf_finished :: bool

definition finder_new :: "'w os \<Rightarrow> ('w, volume_finder result) sys_io" where
  "finder_new os = bind_io (os_call (os_find_first_volume os) Find_First_Volume) (\<lambda>r. return_io (case r of
     Err code \<Rightarrow> Err (last_os_error ''enumerate volumes'' code)
   | Ok (h, name) \<Rightarrow> Ok \<lparr>vf_handle = h, vf_name = overlay (replicate 1024 0) name,
       vf_first = True, vf_finished = False\<rparr>))"

text \<open>The name in the buffer; an unterminated one ends the enumeration.\<close>

definition finder_yield :: "volume_finder \<Rightarrow> wstr result option \<times> volume_finder" where
  "finder_yield f =
     (let name = map_err (Context (Ctx (lit ''unterminated volume name''))) (wide_from_buffer (vf_name f))
      in (Some name, if is_ok name then f else f\<lparr>vf_finished := True\<rparr>))"

definition finder_next ::
  "'w os \<Rightarrow> volume_finder \<Rightarrow> ('w, wstr result option \<times> volume_finder) sys_io" where
  "finder_next os f =
     (if vf_finished f then return_io (None, f)
      else if vf_first f then return_io (finder_yield (f\<lparr>vf_first := False\<rparr>))
      else bind_io (os_call (os_find_next_volume os (vf_handle f)) (Find_Next_Volume (vf_handle f)))
        (\<lambda>r. return_io (case r of
           Err code \<Rightarrow> (if code = ERROR_NO_MORE_FILES then None
               else Some (Err (Context (Ctx (lit ''enumerate next volume'')) (Io (Os_Error code)))),
             f\<lparr>vf_name := replicate 1024 0, vf_finished := True\<rparr>)
         | Ok name \<Rightarrow> finder_yield (f\<lparr>vf_name := overlay (replicate 1024 0) name\<rparr>))))"

definition finder_drop :: "'w os \<Rightarrow> volume_finder \<Rightarrow> ('w, unit) sys_io" where
  "finder_drop os f = os_call (os_find_volume_close os (vf_handle f)) (\<lambda>_. Find_Volume_Close (vf_handle f))"

section \<open>The disk of a volume\<close>

text \<open>
  \<open>VOLUME_DISK_EXTENTS\<close>: the count, padding, then the first \<open>DISK_EXTENT\<close>, which starts with the
  disk number; 32 bytes in all.
\<close>

definition read_disk_extents :: "u32 + (u32 \<times> u8 list) \<Rightarrow> u32 result" where
  "read_disk_extents answer = (case answer of
     Err code \<Rightarrow> Err (last_os_error ''resolve volume to a physical disk'' code)
   | Ok (returned, out) \<Rightarrow>
       if unat returned < 32
       then Err (Msg (lit ''volume returned truncated disk extents ('' @ dec_digits (unat returned)
         @ lit '' bytes)''))
       else let extents = overlay (replicate 1024 0) out in
         if u32_at 0 extents \<noteq> 1
         then Err (Msg (lit ''refusing to delete a volume spanning ''
           @ dec_digits (unat (u32_at 0 extents)) @ lit '' physical disks''))
         else Ok (u32_at 8 extents))"

definition disk_number :: "'w os \<Rightarrow> handle \<Rightarrow> ('w, u32 result) sys_io" where
  "disk_number os h = map_io read_disk_extents
     (device_io_control os h IOCTL_VOLUME_GET_VOLUME_DISK_EXTENTS [] 1024)"

text \<open>The device path is the volume name without its trailing backslash.\<close>

definition volume_device_path :: "wstr \<Rightarrow> wstr result" where
  "volume_device_path name =
     (if name \<noteq> [] \<and> last name = 92
      then let path = butlast name in
        if 0 \<in> set path then Err (Context (Ctx (lit ''encode volume device path''))
          (Msg (lit ''C string contains an interior NUL'')))
        else Ok path
      else Err (Msg (lit ''volume name is missing its trailing backslash'')))"

section \<open>The volumes of a disk\<close>

record volume_info =
  vi_name :: wstr
  vi_mount_points :: "wstr list"

definition get_volume_path_names ::
  "'w os \<Rightarrow> wstr \<Rightarrow> nat \<Rightarrow> ('w, u32 option \<times> u32 \<times> wstr) sys_io" where
  "get_volume_path_names os name cap =
     os_call (os_get_volume_path_names os name cap) (Get_Volume_Path_Names name cap)"

definition path_entries :: "wstr \<Rightarrow> wstr list result" where
  "path_entries paths = Ok (multisz_entries paths)"

text \<open>
  \<open>volume_paths\<close>: ask for the size, read, and reread once if the list grew in between. The code
  of the last error is what the first, failing call left behind.
\<close>

definition volume_paths :: "'w os \<Rightarrow> wstr \<Rightarrow> ('w, wstr list result) sys_io" where
  "volume_paths os name =
     bind_io (get_volume_path_names os name 0) (\<lambda>(failed, required, _).
     if required = 0
     then fail_io (last_os_error ''query volume mount points'' (case failed of None \<Rightarrow> 0 | Some c \<Rightarrow> c))
     else bind_io (get_volume_path_names os name (unat required)) (\<lambda>(failed, required', units).
       let paths = overlay (replicate (unat required) 0) units in
       case failed of
         None \<Rightarrow> return_io (path_entries paths)
       | Some code \<Rightarrow> if code \<noteq> ERROR_MORE_DATA
           then fail_io (Context (Ctx (lit ''read volume mount points'')) (Io (Os_Error code)))
           else bind_io (get_volume_path_names os name (unat required')) (\<lambda>(failed, _, units').
             case failed of
               Some code \<Rightarrow> fail_io (last_os_error ''reread volume mount points'' code)
             | None \<Rightarrow> return_io (path_entries
                 (overlay (take (unat required') (paths @ replicate (unat required') 0)) units')))))"

text \<open>Optical drives without a medium and volumes without disk extents are skipped.\<close>

definition is_skippable :: "error \<Rightarrow> bool" where
  "is_skippable e = (case downcast_io e of
     Some i \<Rightarrow> raw_os_error i = Some 1 \<or> raw_os_error i = Some 21
   | None \<Rightarrow> False)"

definition volume_of_disk :: "'w os \<Rightarrow> u32 \<Rightarrow> wstr \<Rightarrow> ('w, volume_info list result) sys_io" where
  "volume_of_disk os number name =
     try_io (return_io (volume_device_path name)) (\<lambda>path.
     try_io (io_context (lit ''open volume for disk identity query'') (open_device_wide os path 0)) (\<lambda>h.
     owning os h (bind_io (disk_number os h) (\<lambda>r. case r of
       Ok actual \<Rightarrow> if actual = number
         then try_io (volume_paths os name) (\<lambda>points.
           ok_io [\<lparr>vi_name = name, vi_mount_points = points\<rparr>])
         else ok_io []
     | Err e \<Rightarrow> if is_skippable e then ok_io [] else fail_io e))))"

text \<open>The \<open>for\<close> loop over the finder; it carries the finder and the volumes found so far.\<close>

definition volumes_round ::
  "'w os \<Rightarrow> u32 \<Rightarrow> volume_finder \<times> volume_info list
     \<Rightarrow> ('w, (volume_finder \<times> volume_info list, volume_info list result) flow) sys_io" where
  "volumes_round os number = (\<lambda>(f, found).
     bind_io (finder_next os f) (\<lambda>(item, f'). case item of
       None \<Rightarrow> return_io (Break (Ok found))
     | Some (Err e) \<Rightarrow> return_io (Break (Err e))
     | Some (Ok name) \<Rightarrow> bind_io (volume_of_disk os number name) (\<lambda>r. return_io (case r of
         Err e \<Rightarrow> Break (Err e)
       | Ok vs \<Rightarrow> Continue (f', found @ vs)))))"

definition volumes_for_disk :: "'w os \<Rightarrow> u32 \<Rightarrow> ('w, volume_info list result) sys_io" where
  "volumes_for_disk os number =
     try_io (finder_new os) (\<lambda>f.
     bind_io (loop_io (volumes_round os number) (f, [])) (\<lambda>result.
     bind_io (finder_drop os f) (\<lambda>_. return_io result)))"

section \<open>One owned volume\<close>

record volume =
  vo_name :: wstr
  vo_mount_points :: "wstr list"
  vo_handle :: handle
  vo_locked :: bool
  vo_removed :: "wstr list"

definition volume_open :: "'w os \<Rightarrow> volume_info \<Rightarrow> u32 \<Rightarrow> ('w, volume result) sys_io" where
  "volume_open os info expected_disk =
     try_io (return_io (volume_device_path (vi_name info))) (\<lambda>path.
     try_io (io_context (lit ''open target volume'')
         (open_device_wide os path (GENERIC_READ OR GENERIC_WRITE))) (\<lambda>h.
     bind_io (disk_number os h) (\<lambda>r.
       if r = Ok expected_disk
       then ok_io \<lparr>vo_name = vi_name info, vo_mount_points = vi_mount_points info, vo_handle = h,
         vo_locked = False, vo_removed = []\<rparr>
       else bind_io (close_handle os h) (\<lambda>_. fail_io (case r of
         Err e \<Rightarrow> e | Ok _ \<Rightarrow> Msg (lit ''volume changed disk identity before deletion''))))))"

definition control_error :: "u32 \<Rightarrow> ustring \<Rightarrow> u32 \<Rightarrow> error" where
  "control_error ioctl action code =
     Context (if ioctl = FSCTL_LOCK_VOLUME then Volume_Lock_Failure else Ctx action)
       (Io (Os_Error code))"

definition volume_control :: "'w os \<Rightarrow> handle \<Rightarrow> u32 \<Rightarrow> ustring \<Rightarrow> ('w, unit result) sys_io" where
  "volume_control os h ioctl action =
     map_io (\<lambda>answer. case answer of Err code \<Rightarrow> Err (control_error ioctl action code) | Ok _ \<Rightarrow> Ok ())
       (device_io_control os h ioctl [] 0)"

definition is_lock_refusal :: "error \<Rightarrow> bool" where
  "is_lock_refusal e \<longleftrightarrow> has_lock_failure e \<and>
     (case downcast_io e of Some i \<Rightarrow> raw_os_error i = Some 5 | None \<Rightarrow> False)"

text \<open>With force, a volume that cannot be locked is left unlocked (and a warning is logged).\<close>

definition volume_lock :: "'w os \<Rightarrow> volume \<Rightarrow> bool \<Rightarrow> ('w, volume \<times> unit result) sys_io" where
  "volume_lock os v force =
     map_io (\<lambda>r. case r of
         Ok _ \<Rightarrow> (v\<lparr>vo_locked := True\<rparr>, Ok ())
       | Err e \<Rightarrow> if force then (v, Ok ()) else (v, Err e))
       (volume_control os (vo_handle v) FSCTL_LOCK_VOLUME (lit ''lock target volume''))"

definition volume_dismount :: "'w os \<Rightarrow> volume \<Rightarrow> ('w, unit result) sys_io" where
  "volume_dismount os v =
     volume_control os (vo_handle v) FSCTL_DISMOUNT_VOLUME (lit ''dismount target volume'')"

definition volume_unlock :: "'w os \<Rightarrow> volume \<Rightarrow> ('w, volume \<times> unit result) sys_io" where
  "volume_unlock os v =
     map_io (\<lambda>r. case r of Ok _ \<Rightarrow> (v\<lparr>vo_locked := False\<rparr>, Ok ()) | Err e \<Rightarrow> (v, Err e))
       (volume_control os (vo_handle v) FSCTL_UNLOCK_VOLUME (lit ''unlock restored volume''))"

definition delete_mount_point :: "'w os \<Rightarrow> wstr \<Rightarrow> ('w, u32 option) sys_io" where
  "delete_mount_point os point = os_call (os_delete_mount_point os point) (Delete_Mount_Point point)"

definition set_mount_point :: "'w os \<Rightarrow> wstr \<Rightarrow> wstr \<Rightarrow> ('w, u32 option) sys_io" where
  "set_mount_point os point name =
     os_call (os_set_mount_point os point name) (Set_Mount_Point point name)"

fun remove_points :: "'w os \<Rightarrow> volume \<Rightarrow> wstr list \<Rightarrow> ('w, volume \<times> unit result) sys_io" where
  "remove_points os v [] = return_io (v, Ok ())"
| "remove_points os v (point # points) =
     bind_io (delete_mount_point os point) (\<lambda>r. case r of
       Some code \<Rightarrow> return_io (v, Err (last_os_error ''remove volume mount point'' code))
     | None \<Rightarrow> remove_points os (v\<lparr>vo_removed := vo_removed v @ [point]\<rparr>) points)"

definition volume_remove_mounts :: "'w os \<Rightarrow> volume \<Rightarrow> ('w, volume \<times> unit result) sys_io" where
  "volume_remove_mounts os v = remove_points os v (vo_mount_points v)"

text \<open>Both errors of a restoration, or the one there is.\<close>

definition both_errors :: "error option \<Rightarrow> error option \<Rightarrow> unit result" where
  "both_errors mount unlock = (case (mount, unlock) of
     (None, None) \<Rightarrow> Ok ()
   | (Some e, None) \<Rightarrow> Err e
   | (None, Some e) \<Rightarrow> Err e
   | (Some e, Some e') \<Rightarrow> Err (recovery_failed e (lit ''unlock also failed'') e'))"

definition err_of :: "unit result \<Rightarrow> error option" where
  "err_of r = (case r of Err e \<Rightarrow> Some e | Ok _ \<Rightarrow> None)"

definition restore_removed_mount ::
  "'w os \<Rightarrow> volume \<Rightarrow> nat \<Rightarrow> ('w, volume \<times> unit result) sys_io" where
  "restore_removed_mount os v index =
     (let release_lock = (index + 1 = length (vo_removed v) \<and> vo_locked v) in
      bind_io (set_mount_point os (vo_removed v ! index) (vo_name v)) (\<lambda>r.
      let mount_error = map_option (last_os_error
            (if release_lock then ''restore drive-letter mount point''
             else ''restore volume mount point'')) r in
      if release_lock
      then bind_io (volume_unlock os v) (\<lambda>(v', u). return_io (v', both_errors mount_error (err_of u)))
      else return_io (v, both_errors mount_error None)))"

text \<open>The running \<open>failure\<close> of the restoration loops.\<close>

definition add_failure :: "error option \<Rightarrow> unit result \<Rightarrow> error option" where
  "add_failure failure r = (case r of
     Ok _ \<Rightarrow> failure
   | Err e \<Rightarrow> Some (case failure of
       Some e' \<Rightarrow> recovery_failed e' (lit ''another mount restoration failed'') e
     | None \<Rightarrow> e))"

definition failure_result :: "error option \<Rightarrow> unit result" where
  "failure_result failure = (case failure of Some e \<Rightarrow> Err e | None \<Rightarrow> Ok ())"

fun restore_indices ::
  "'w os \<Rightarrow> volume \<Rightarrow> error option \<Rightarrow> nat list \<Rightarrow> ('w, volume \<times> unit result) sys_io" where
  "restore_indices os v failure [] = return_io (v, failure_result failure)"
| "restore_indices os v failure (index # rest) =
     bind_io (restore_removed_mount os v index) (\<lambda>(v', r).
       restore_indices os v' (add_failure failure r) rest)"

definition volume_restore_mounts :: "'w os \<Rightarrow> volume \<Rightarrow> ('w, volume \<times> unit result) sys_io" where
  "volume_restore_mounts os v = restore_indices os v None [0..<length (vo_removed v)]"

section \<open>Drive letters\<close>

definition drive_path :: "drive_letter \<Rightarrow> ustring" where
  "drive_path letter = [92, 92, 46, 92, unat (as_ascii letter)] @ lit '':''"

definition verify_mounted_drive ::
  "'w os \<Rightarrow> drive_letter \<Rightarrow> u32 \<Rightarrow> scsi_location \<Rightarrow> ('w, unit result) sys_io" where
  "verify_mounted_drive os letter expected_number expected_location =
     try_io (io_context (lit ''open newly formatted volume'')
         (open_device os (drive_path letter) GENERIC_READ)) (\<lambda>h.
     owning os h (try_io (disk_number os h) (\<lambda>actual.
       if actual \<noteq> expected_number
       then fail_io (Msg (lit ''new mount '' @ drive_letter_display letter
         @ lit '' resolved to PhysicalDrive'' @ dec_digits (unat actual)
         @ lit '', not the created PhysicalDrive'' @ dec_digits (unat expected_number)))
       else verify_physical_disk_location os actual expected_location)))"

definition get_volume_name :: "'w os \<Rightarrow> wstr \<Rightarrow> ('w, wstr result) sys_io" where
  "get_volume_name os mount_point =
     map_io (\<lambda>r. case r of
         Err code \<Rightarrow> Err (last_os_error ''resolve drive letter to a volume'' code)
       | Ok name \<Rightarrow> map_err (Context (Ctx (lit ''unterminated volume name for drive letter'')))
           (wide_from_buffer (overlay (replicate 128 0) name)))
       (os_call (os_get_volume_name os mount_point) (Get_Volume_Name mount_point))"

definition drive_letter_in_use :: "'w os \<Rightarrow> drive_letter \<Rightarrow> ('w, bool) sys_io" where
  "drive_letter_in_use os letter =
     map_io (\<lambda>drives. drives AND push_bit (unat (as_ascii letter - 65)) 1 \<noteq> 0)
       (os_call (os_get_logical_drives os) Get_Logical_Drives)"

definition ensure_drive_letter_available :: "'w os \<Rightarrow> drive_letter \<Rightarrow> ('w, unit result) sys_io" where
  "ensure_drive_letter_available os letter = bind_io (drive_letter_in_use os letter) (\<lambda>used.
     ensure_io (\<not> used) (Msg (lit ''drive letter '' @ drive_letter_display letter
       @ lit '' is already in use'')))"

definition wait_for_drive_state ::
  "'w os \<Rightarrow> drive_letter \<Rightarrow> bool \<Rightarrow> nat \<Rightarrow> ('w, unit result) sys_io" where
  "wait_for_drive_state os letter expected_present timeout = bind_io now (\<lambda>t.
     loop_io (\<lambda>_ :: unit. bind_io (drive_letter_in_use os letter) (\<lambda>used.
       if used = expected_present then return_io (Break (Ok ()))
       else bind_io now (\<lambda>t'. if t' \<ge> t + timeout
         then return_io (Break (Err (Msg (lit ''drive '' @ drive_letter_display letter
           @ lit '' did not '' @ (if expected_present then lit ''appear'' else lit ''disappear'')
           @ lit '' within 30 seconds''))))
         else bind_io (sleep os RETRY_INTERVAL) (\<lambda>_. return_io (Continue ()))))) ())"

definition mount_point :: "drive_letter \<Rightarrow> wstr result" where
  "mount_point letter =
     map_err (\<lambda>e. Context (Ctx (lit ''encode drive-letter mount point'')) (Io e))
       (wide ([unat (as_ascii letter)] @ lit '':'' @ [92]))"

section \<open>What happens to volumes\<close>

text \<open>
  The effects on volumes that a trace contains, with their success: the file-system controls on
  a volume handle and the changes of mount points.
\<close>

datatype volume_action =
    Locks handle bool
  | Dismounts handle bool
  | Unlocks handle bool
  | Unmounts wstr bool
  | Mounts wstr wstr bool

fun volume_actions :: "os_event \<Rightarrow> volume_action list" where
  "volume_actions (Device_Io_Control h ioctl input answer) =
     (if ioctl = FSCTL_LOCK_VOLUME then [Locks h (is_ok answer)]
      else if ioctl = FSCTL_DISMOUNT_VOLUME then [Dismounts h (is_ok answer)]
      else if ioctl = FSCTL_UNLOCK_VOLUME then [Unlocks h (is_ok answer)]
      else [])"
| "volume_actions (Delete_Mount_Point p r) = [Unmounts p (r = None)]"
| "volume_actions (Set_Mount_Point p name r) = [Mounts p name (r = None)]"
| "volume_actions _ = []"

definition actions_of :: "os_event list \<Rightarrow> volume_action list" where
  "actions_of t = concat (map volume_actions t)"

lemma actions_of_simps [simp]:
  "actions_of [] = []" "actions_of (t @ t') = actions_of t @ actions_of t'"
  "actions_of (ev # t) = volume_actions ev @ actions_of t"
  by (simp_all add: actions_of_def)

lemma fsctl_codes [simp]:
  "FSCTL_LOCK_VOLUME \<noteq> FSCTL_DISMOUNT_VOLUME" "FSCTL_LOCK_VOLUME \<noteq> FSCTL_UNLOCK_VOLUME"
  "FSCTL_DISMOUNT_VOLUME \<noteq> FSCTL_LOCK_VOLUME" "FSCTL_UNLOCK_VOLUME \<noteq> FSCTL_LOCK_VOLUME"
  "FSCTL_DISMOUNT_VOLUME \<noteq> FSCTL_UNLOCK_VOLUME" "FSCTL_UNLOCK_VOLUME \<noteq> FSCTL_DISMOUNT_VOLUME"
  by (simp_all add: FSCTL_LOCK_VOLUME_def FSCTL_DISMOUNT_VOLUME_def FSCTL_UNLOCK_VOLUME_def)

lemma is_ok_case [simp]: "is_ok (case r of Err e \<Rightarrow> Err (g e) | Ok x \<Rightarrow> Ok (k x)) = is_ok r"
  by (cases r) simp_all

lemma wlp_volume_control:
  assumes "\<And>answer s'. Q (case answer of Err code \<Rightarrow> Err (control_error ioctl action code)
      | Ok _ \<Rightarrow> Ok ()) [Device_Io_Control h ioctl [] answer] s'"
  shows "wlp (volume_control os h ioctl action) Q s"
  unfolding volume_control_def device_io_control_def wlp_map
  by (rule wlp_os_callI) (rule assms)

lemma control_error_plainly [simp]: "\<not> is_unresolved (control_error ioctl action code)"
  by (simp add: control_error_def)

lemma fsctl_no_request [simp]:
  "request_bytes code (Device_Io_Control h FSCTL_LOCK_VOLUME i a) = []"
  "request_bytes code (Device_Io_Control h FSCTL_DISMOUNT_VOLUME i a) = []"
  "request_bytes code (Device_Io_Control h FSCTL_UNLOCK_VOLUME i a) = []"
  by (simp_all add: IOCTL_SCSI_MINIPORT_def FSCTL_LOCK_VOLUME_def FSCTL_DISMOUNT_VOLUME_def
      FSCTL_UNLOCK_VOLUME_def)

lemma wlp_volume_lock:
  "wlp (volume_lock os v force) (\<lambda>x t _. \<exists>ok. actions_of t = [Locks (vo_handle v) ok]
     \<and> fst x = (if ok then v\<lparr>vo_locked := True\<rparr> else v) \<and> is_ok (snd x) = (ok \<or> force)
     \<and> plainly (snd x)) s"
  unfolding volume_lock_def wlp_map
proof (rule wlp_volume_control)
  fix answer :: "u32 + (u32 \<times> u8 list)"
  show "\<exists>ok. actions_of [Device_Io_Control (vo_handle v) FSCTL_LOCK_VOLUME [] answer]
        = [Locks (vo_handle v) ok]
      \<and> fst (case (case answer of Err code \<Rightarrow> Err (control_error FSCTL_LOCK_VOLUME (lit ''lock target volume'') code)
            | Ok _ \<Rightarrow> Ok ()) of
          Ok _ \<Rightarrow> (v\<lparr>vo_locked := True\<rparr>, Ok ())
        | Err e \<Rightarrow> if force then (v, Ok ()) else (v, Err e)) = (if ok then v\<lparr>vo_locked := True\<rparr> else v)
      \<and> is_ok (snd (case (case answer of Err code \<Rightarrow> Err (control_error FSCTL_LOCK_VOLUME (lit ''lock target volume'') code)
            | Ok _ \<Rightarrow> Ok ()) of
          Ok _ \<Rightarrow> (v\<lparr>vo_locked := True\<rparr>, Ok ())
        | Err e \<Rightarrow> if force then (v, Ok ()) else (v, Err e))) = (ok \<or> force)
      \<and> plainly (snd (case (case answer of Err code \<Rightarrow> Err (control_error FSCTL_LOCK_VOLUME (lit ''lock target volume'') code)
            | Ok _ \<Rightarrow> Ok ()) of
          Ok _ \<Rightarrow> (v\<lparr>vo_locked := True\<rparr>, Ok ())
        | Err e \<Rightarrow> if force then (v, Ok ()) else (v, Err e)))"
    by (cases answer) (simp_all add: ex_bool_eq)
qed

lemma wlp_volume_dismount:
  "wlp (volume_dismount os v) (\<lambda>r t _. actions_of t = [Dismounts (vo_handle v) (is_ok r)]
     \<and> plainly r) s"
  unfolding volume_dismount_def
  by (rule wlp_volume_control) (auto split: sum.split)

lemma wlp_volume_unlock:
  "wlp (volume_unlock os v) (\<lambda>x t _. actions_of t = [Unlocks (vo_handle v) (is_ok (snd x))]
     \<and> fst x = (if is_ok (snd x) then v\<lparr>vo_locked := False\<rparr> else v) \<and> plainly (snd x)) s"
  unfolding volume_unlock_def wlp_map
  by (rule wlp_volume_control) (auto split: sum.split)

text \<open>Removing mount points: a prefix is removed, in order, and remembered.\<close>

definition removes :: "wstr list \<Rightarrow> volume \<Rightarrow> volume \<times> unit result \<Rightarrow> os_event list \<Rightarrow> bool" where
  "removes points v x t \<longleftrightarrow> (\<exists>gone rest. points = gone @ rest
     \<and> fst x = v\<lparr>vo_removed := vo_removed v @ gone\<rparr> \<and> is_ok (snd x) = (rest = [])
     \<and> actions_of t = map (\<lambda>p. Unmounts p True) gone
         @ (case rest of [] \<Rightarrow> [] | p # _ \<Rightarrow> [Unmounts p False])
     \<and> plainly (snd x))"

lemma wlp_remove_points: "wlp (remove_points os v points) (\<lambda>x t _. removes points v x t) s"
proof (induction points arbitrary: v s)
  case Nil
  then show ?case by (simp add: wlp_rules removes_def)
next
  case (Cons p points)
  show ?case
    unfolding remove_points.simps delete_mount_point_def wlp_bind
  proof (rule wlp_os_callI)
    fix r and s' :: "'a sys"
    show "wlp (case r of
         Some code \<Rightarrow> return_io (v, Err (last_os_error ''remove volume mount point'' code))
       | None \<Rightarrow> remove_points os (v\<lparr>vo_removed := vo_removed v @ [p]\<rparr>) points)
      (\<lambda>x t' s''. removes (p # points) v x ([Delete_Mount_Point p r] @ t')) s'"
    proof (cases r)
      case (Some code)
      then show ?thesis
        by (simp add: wlp_rules removes_def) (rule exI [of _ "[]"], simp)
    next
      case None
      have "removes (p # points) v x (Delete_Mount_Point p None # t')"
        if "removes points (v\<lparr>vo_removed := vo_removed v @ [p]\<rparr>) x t'" for x t'
        using that unfolding removes_def by (elim exE) (rule exI [of _ "p # _"], force)
      with None show ?thesis
        by (auto intro: wlp_mono [OF Cons.IH])
    qed
  qed
qed

section \<open>Restoring mount points\<close>

definition plain_option :: "error option \<Rightarrow> bool" where
  "plain_option f = (case f of None \<Rightarrow> True | Some e \<Rightarrow> \<not> is_unresolved e)"

lemma both_errors_props:
  "is_ok (both_errors m u) \<longleftrightarrow> m = None \<and> u = None"
  "plain_option m \<Longrightarrow> plain_option u \<Longrightarrow> plainly (both_errors m u)"
  by (cases m; cases u; simp add: both_errors_def plain_option_def resolved_downcast)+

lemma err_of_props:
  "err_of r = None \<longleftrightarrow> is_ok r" "plainly r \<Longrightarrow> plain_option (err_of r)"
  by (cases r; simp add: err_of_def plain_option_def)+

lemma add_failure_props:
  "add_failure f r = None \<longleftrightarrow> f = None \<and> is_ok r"
  "plain_option f \<Longrightarrow> plainly r \<Longrightarrow> plain_option (add_failure f r)"
  by (cases r; cases f; simp add: add_failure_def plain_option_def resolved_downcast)+

lemma failure_result_props:
  "is_ok (failure_result f) \<longleftrightarrow> f = None" "plain_option f \<Longrightarrow> plainly (failure_result f)"
  by (cases f; simp add: failure_result_def plain_option_def)+

text \<open>One mount point: the mount is attempted, and the lock released with the last of them.\<close>

definition restores_one :: "volume \<Rightarrow> nat \<Rightarrow> volume \<times> unit result \<Rightarrow> os_event list \<Rightarrow> bool" where
  "restores_one v index x t \<longleftrightarrow> plainly (snd x) \<and>
     (let release = (index + 1 = length (vo_removed v) \<and> vo_locked v) in
      \<exists>ok us. actions_of t = Mounts (vo_removed v ! index) (vo_name v) ok
          # map (Unlocks (vo_handle v)) us
        \<and> length us = (if release then 1 else 0)
        \<and> is_ok (snd x) = (ok \<and> list_all (\<lambda>b. b) us) \<and> (\<not> release \<longrightarrow> fst x = v))"

lemma wlp_restore_removed_mount:
  "wlp (restore_removed_mount os v index) (\<lambda>x t _. restores_one v index x t) s"
proof -
  define rel where "rel \<longleftrightarrow> index + 1 = length (vo_removed v) \<and> vo_locked v"
  have plain: "plain_option (map_option (last_os_error op) r)" for op and r :: "u32 option"
    by (cases r) (simp_all add: plain_option_def)
  show ?thesis
    unfolding restore_removed_mount_def set_mount_point_def Let_def wlp_bind rel_def [symmetric]
  proof (rule wlp_os_callI)
    fix r :: "u32 option" and s' :: "'a sys"
    let ?m = "map_option (last_os_error (if rel then ''restore drive-letter mount point''
        else ''restore volume mount point'')) r"
    show "wlp (if rel then bind_io (volume_unlock os v) (\<lambda>(v', u). return_io (v', both_errors ?m (err_of u)))
         else return_io (v, both_errors ?m None))
       (\<lambda>x t' s''. restores_one v index x ([Set_Mount_Point (vo_removed v ! index) (vo_name v) r] @ t')) s'"
    proof (cases rel)
      case False
      then show ?thesis
        using plain by (auto simp: wlp_rules restores_one_def both_errors_props plain_option_def
            rel_def Let_def)
    next
      case True
      have "wlp (bind_io (volume_unlock os v) (\<lambda>(v', u). return_io (v', both_errors ?m (err_of u))))
        (\<lambda>x t' u. restores_one v index x ([Set_Mount_Point (vo_removed v ! index) (vo_name v) r] @ t')) s'"
        unfolding wlp_bind
      proof (rule wlp_mono [OF wlp_volume_unlock], elim conjE)
        fix x :: "volume \<times> unit result" and t and s'' :: "'a sys"
        assume t: "actions_of t = [Unlocks (vo_handle v) (is_ok (snd x))]" and x: "plainly (snd x)"
        show "wlp (case x of (v', u) \<Rightarrow> return_io (v', both_errors ?m (err_of u)))
            (\<lambda>y t' u. restores_one v index y
               ([Set_Mount_Point (vo_removed v ! index) (vo_name v) r] @ t @ t')) s''"
          using t x True plain
          by (auto simp: wlp_rules restores_one_def both_errors_props err_of_props rel_def Let_def
              split: prod.split intro!: exI [of _ "[is_ok (snd x)]"])
      qed
      with True show ?thesis by simp
    qed
  qed
qed

text \<open>From an index on: every remaining mount is attempted in order, then the lock is released.\<close>

definition restores_from ::
  "volume \<Rightarrow> nat \<Rightarrow> error option \<Rightarrow> volume \<times> unit result \<Rightarrow> os_event list \<Rightarrow> bool" where
  "restores_from v i failure x t \<longleftrightarrow> plainly (snd x) \<and>
     (\<exists>oks us. length oks = length (vo_removed v) - i
        \<and> actions_of t = map2 (\<lambda>p ok. Mounts p (vo_name v) ok) (drop i (vo_removed v)) oks
            @ map (Unlocks (vo_handle v)) us
        \<and> length us = (if i < length (vo_removed v) \<and> vo_locked v then 1 else 0)
        \<and> is_ok (snd x) = (failure = None \<and> list_all (\<lambda>b. b) (oks @ us)))"

lemma restores_step:
  assumes i: "i < length (vo_removed v)"
    and one: "restores_one v i y t" and rest: "restores_from v (Suc i) (add_failure failure (snd y)) x t'"
    and more: "Suc i < length (vo_removed v)"
  shows "restores_from v i failure x (t @ t')"
proof -
  from one more obtain ok where one: "actions_of t = [Mounts (vo_removed v ! i) (vo_name v) ok]"
      "is_ok (snd y) = ok"
    by (auto simp: restores_one_def Let_def)
  from rest obtain oks us where rest: "plainly (snd x)" "length oks = length (vo_removed v) - Suc i"
      "actions_of t' = map2 (\<lambda>p ok. Mounts p (vo_name v) ok) (drop (Suc i) (vo_removed v)) oks
        @ map (Unlocks (vo_handle v)) us"
      "length us = (if Suc i < length (vo_removed v) \<and> vo_locked v then 1 else 0)"
      "is_ok (snd x) = (add_failure failure (snd y) = None \<and> list_all (\<lambda>b. b) (oks @ us))"
    unfolding restores_from_def by blast
  show ?thesis
    unfolding restores_from_def
    by (intro conjI exI [of _ "ok # oks"] exI [of _ us])
      (use i more one rest in \<open>auto simp: add_failure_props Cons_nth_drop_Suc [symmetric]\<close>)
qed

lemma restores_last:
  assumes i: "Suc i = length (vo_removed v)" and failure: "plain_option failure"
    and one: "restores_one v i y t"
  shows "restores_from v i failure (fst y, failure_result (add_failure failure (snd y))) t"
proof -
  from one i obtain ok us where one: "plainly (snd y)"
      "actions_of t = Mounts (vo_removed v ! i) (vo_name v) ok # map (Unlocks (vo_handle v)) us"
      "length us = (if vo_locked v then 1 else 0)" "is_ok (snd y) = (ok \<and> list_all (\<lambda>b. b) us)"
    by (auto simp: restores_one_def Let_def)
  show ?thesis
    unfolding restores_from_def
    by (intro conjI exI [of _ "[ok]"] exI [of _ us])
      (use i one failure in \<open>auto simp: add_failure_props failure_result_props
         Cons_nth_drop_Suc [symmetric]\<close>)
qed

lemma wlp_restore_indices:
  "plain_option failure \<Longrightarrow> i \<le> length (vo_removed v) \<Longrightarrow>
    wlp (restore_indices os v failure [i..<length (vo_removed v)])
      (\<lambda>x t _. restores_from v i failure x t) s"
proof (induction "length (vo_removed v) - i" arbitrary: i failure s)
  case 0
  then show ?case
    by (auto simp: wlp_rules restores_from_def failure_result_props)
next
  case (Suc n i failure s)
  then have i: "i < length (vo_removed v)" by simp
  have "wlp (bind_io (restore_removed_mount os v i) (\<lambda>(v', r).
      restore_indices os v' (add_failure failure r) [Suc i..<length (vo_removed v)]))
    (\<lambda>x t _. restores_from v i failure x t) s"
    unfolding wlp_bind
  proof (rule wlp_mono [OF wlp_restore_removed_mount])
    fix y t and s' :: "'a sys"
    assume one: "restores_one v i y t"
    then have plain: "plain_option (add_failure failure (snd y))"
      using Suc.prems(1) by (simp add: add_failure_props restores_one_def)
    show "wlp (case y of (v', r) \<Rightarrow>
        restore_indices os v' (add_failure failure r) [Suc i..<length (vo_removed v)])
      (\<lambda>x t' _. restores_from v i failure x (t @ t')) s'"
    proof (cases "Suc i < length (vo_removed v)")
      case True
      then have "fst y = v" using one by (simp add: restores_one_def Let_def)
      moreover have "wlp (restore_indices os v (add_failure failure (snd y)) [Suc i..<length (vo_removed v)])
          (\<lambda>x t' _. restores_from v i failure x (t @ t')) s'"
        using Suc.hyps(2) True
        by (intro wlp_mono [OF Suc.hyps(1) [OF _ plain]]) (auto intro: restores_step [OF i one])
      ultimately show ?thesis by (cases y) simp
    next
      case False
      then have last: "Suc i = length (vo_removed v)" using i by simp
      have "wlp (restore_indices os (fst y) (add_failure failure (snd y)) [])
          (\<lambda>x t' _. restores_from v i failure x (t @ t')) s'"
        using restores_last [OF last Suc.prems(1) one] by (simp add: wlp_rules)
      with last show ?thesis by (cases y) simp
    qed
  qed
  with i show ?case by (simp add: upt_conv_Cons)
qed

lemma wlp_restore_mounts:
  "wlp (volume_restore_mounts os v) (\<lambda>x t _. restores_from v 0 None x t) s"
  unfolding volume_restore_mounts_def by (rule wlp_restore_indices) (simp_all add: plain_option_def)

text \<open>
  Restoring a volume attempts to mount every removed mount point again, in order and under
  the volume's own name, whatever fails on the way; a lock that is held is released exactly once,
  after the last of these attempts, and a lock that is not held is never released; the
  restoration succeeds exactly if every attempt and the release did.
\<close>

theorem restore_attempts_every_mount:
  "wlp (volume_restore_mounts os v) (\<lambda>x t s'. \<exists>oks us. length oks = length (vo_removed v)
     \<and> actions_of t = map2 (\<lambda>p ok. Mounts p (vo_name v) ok) (vo_removed v) oks
         @ map (Unlocks (vo_handle v)) us
     \<and> length us = (if vo_removed v \<noteq> [] \<and> vo_locked v then 1 else 0)
     \<and> is_ok (snd x) = list_all (\<lambda>b. b) (oks @ us)) s"
  by (rule wlp_mono [OF wlp_restore_mounts]) (auto simp: restores_from_def)

end
