(* ===== verification/Removal.thy ===== *)
theory Removal
  imports Volumes
begin

text \<open>
  disk/deletion.rs and disk/removal.rs: preparing all volumes of a disk, deleting the driver's
  allocation and restoring the volumes when that is known to be safe. \<open>DiskDeletion\<close> is its list of
  volumes; its \<open>&mut self\<close> methods return the updated list.
\<close>

section \<open>deletion.rs\<close>

fun drop_volumes :: "'w os \<Rightarrow> volume list \<Rightarrow> ('w, unit) sys_io" where
  "drop_volumes os [] = return_io ()"
| "drop_volumes os (v # vs) = bind_io (close_handle os (vo_handle v)) (\<lambda>_. drop_volumes os vs)"

fun open_volumes ::
  "'w os \<Rightarrow> u32 \<Rightarrow> volume_info list \<Rightarrow> volume list \<Rightarrow> ('w, volume list result) sys_io" where
  "open_volumes os number [] opened = ok_io opened"
| "open_volumes os number (info # infos) opened =
     bind_io (volume_open os info number) (\<lambda>r. case r of
       Err e \<Rightarrow> bind_io (drop_volumes os opened) (\<lambda>_. fail_io e)
     | Ok v \<Rightarrow> open_volumes os number infos (opened @ [v]))"

definition deletion_open :: "'w os \<Rightarrow> u32 \<Rightarrow> scsi_location \<Rightarrow> ('w, volume list result) sys_io" where
  "deletion_open os number location =
     try_io (volumes_for_disk os number) (\<lambda>infos.
     try_io (open_volumes os number infos []) (\<lambda>volumes.
     bind_io (verify_physical_disk_location os number location) (\<lambda>r. case r of
       Err e \<Rightarrow> bind_io (drop_volumes os volumes) (\<lambda>_. fail_io e)
     | Ok _ \<Rightarrow> ok_io volumes)))"

text \<open>A loop over the volumes with an operation that updates each, stopping at the first error.\<close>

fun each_volume ::
  "(volume \<Rightarrow> ('w, volume \<times> unit result) sys_io) \<Rightarrow> volume list
     \<Rightarrow> ('w, volume list \<times> unit result) sys_io" where
  "each_volume f [] = return_io ([], Ok ())"
| "each_volume f (v # vs) =
     bind_io (f v) (\<lambda>(v', r). case r of
       Err e \<Rightarrow> return_io (v' # vs, Err e)
     | Ok _ \<Rightarrow> map_io (\<lambda>(vs', r'). (v' # vs', r')) (each_volume f vs))"

definition deletion_lock :: "'w os \<Rightarrow> volume list \<Rightarrow> bool \<Rightarrow> ('w, volume list \<times> unit result) sys_io" where
  "deletion_lock os volumes force = each_volume (\<lambda>v. volume_lock os v force) volumes"

definition deletion_dismount :: "'w os \<Rightarrow> volume list \<Rightarrow> ('w, unit result) sys_io" where
  "deletion_dismount os volumes = for_io (volume_dismount os) volumes"

definition deletion_remove_mounts :: "'w os \<Rightarrow> volume list \<Rightarrow> ('w, volume list \<times> unit result) sys_io" where
  "deletion_remove_mounts os volumes = each_volume (volume_remove_mounts os) volumes"

text \<open>Restoration goes through all volumes and collects the failures.\<close>

fun restore_volumes ::
  "'w os \<Rightarrow> error option \<Rightarrow> volume list \<Rightarrow> ('w, volume list \<times> unit result) sys_io" where
  "restore_volumes os failure [] = return_io ([], failure_result failure)"
| "restore_volumes os failure (v # vs) =
     bind_io (volume_restore_mounts os v) (\<lambda>(v', r).
     map_io (\<lambda>(vs', r'). (v' # vs', r')) (restore_volumes os (add_failure failure r) vs))"

definition deletion_restore :: "'w os \<Rightarrow> volume list \<Rightarrow> ('w, volume list \<times> unit result) sys_io" where
  "deletion_restore os volumes = restore_volumes os None volumes"

section \<open>removal.rs: one allocation\<close>

text \<open>The closure \<open>prepared\<close> of \<open>delete_allocation\<close>: lock, dismount, remove the mounts.\<close>

definition prepare_deletion ::
  "'w os \<Rightarrow> volume list \<Rightarrow> bool \<Rightarrow> ('w, volume list \<times> unit result) sys_io" where
  "prepare_deletion os volumes force =
     bind_io (deletion_lock os volumes force) (\<lambda>(locked, r). case r of
       Err e \<Rightarrow> return_io (locked, Err e)
     | Ok _ \<Rightarrow> bind_io (deletion_dismount os locked) (\<lambda>r. case r of
         Err e \<Rightarrow> return_io (locked, Err e)
       | Ok _ \<Rightarrow> deletion_remove_mounts os locked))"

definition lists_online :: "state_response \<Rightarrow> u32 \<Rightarrow> bool" where
  "lists_online st ident \<longleftrightarrow>
     list_ex (\<lambda>e. di_device_id (ds_disk e) = ident \<and> ds_state e = 1) (live_disks st)"

text \<open>
  \<open>still_online\<close>: only asked when the error is not an unresolved outcome; a state that cannot be
  read counts as not online.
\<close>

definition still_online :: "'w os \<Rightarrow> adapter \<Rightarrow> u64 \<Rightarrow> u32 \<Rightarrow> error \<Rightarrow> ('w, bool) sys_io" where
  "still_online os a inst ident e =
     (if downcast_unresolved e \<noteq> None then return_io False
      else map_io (\<lambda>r. case r of
          Err _ \<Rightarrow> False
        | Ok st \<Rightarrow> sr_adapter_instance st = inst \<and> lists_online st ident)
        (adapter_state os a))"

definition not_confirmed :: "u32 \<Rightarrow> error_context" where
  "not_confirmed ident = Ctx (lit ''device '' @ dec_digits (unat ident)
     @ lit '' removal is not confirmed; inspect /list /json before retrying'')"

text \<open>The end of \<open>delete_allocation\<close>, from the open \<open>DiskDeletion\<close> on; it is dropped on all paths.\<close>

definition delete_prepared ::
  "'w os \<Rightarrow> adapter \<Rightarrow> u64 \<Rightarrow> u32 \<Rightarrow> bool \<Rightarrow> u32 \<Rightarrow> scsi_location \<Rightarrow> volume list
     \<Rightarrow> ('w, unit result) sys_io" where
  "delete_prepared os a inst ident force number location volumes =
     bind_io (prepare_deletion os volumes force) (\<lambda>(vs, prepared). case prepared of
       Err e \<Rightarrow>
         bind_io (deletion_restore os vs) (\<lambda>(vs', r).
         bind_io (drop_volumes os vs') (\<lambda>_. fail_io (case r of
           Ok _ \<Rightarrow> e
         | Err e' \<Rightarrow> recovery_failed e (lit ''volume restoration also failed'') e')))
     | Ok _ \<Rightarrow>
         bind_io (delete_by_id os a inst ident) (\<lambda>deleted. case deleted of
           Err e \<Rightarrow>
             bind_io (still_online os a inst ident e) (\<lambda>online.
             if online
             then bind_io (deletion_restore os vs) (\<lambda>(vs', r).
               bind_io (drop_volumes os vs') (\<lambda>_. fail_io (case r of
                 Ok _ \<Rightarrow> Context (Ctx (lit ''deletion rejected; original mount points restored'')) e
               | Err e' \<Rightarrow> recovery_failed e (lit ''mount restoration also failed'') e')))
             else bind_io (drop_volumes os vs) (\<lambda>_. fail_io (Context (not_confirmed ident) e)))
         | Ok _ \<Rightarrow>
             bind_io (drop_volumes os vs) (\<lambda>_.
             context_io (Ctx (lit ''driver allocation for device '' @ dec_digits (unat ident)
                 @ lit '' was removed, but Windows disappearance was not confirmed''))
               (wait_for_physical_disk_absent os number location DEVICE_WAIT))))"

definition delete_allocation ::
  "'w os \<Rightarrow> adapter \<Rightarrow> u64 \<Rightarrow> u32 \<Rightarrow> bool \<Rightarrow> ('w, unit result) sys_io" where
  "delete_allocation os a inst ident force =
     try_io (adapter_state os a) (\<lambda>st.
     if sr_adapter_instance st \<noteq> inst
     then fail_io (Msg (lit ''adapter instance changed before deletion''))
     else try_io (return_io (ok_or (find (\<lambda>e. di_device_id (ds_disk e) = ident) (live_disks st))
         (Msg (lit ''device ID is absent; refresh /list'')))) (\<lambda>entry.
     if ds_state entry \<noteq> 1
     then fail_io (Msg (lit ''device '' @ dec_digits (unat ident)
       @ lit '' is already stopping; query inventory until removal completes''))
     else let location = disk_location a entry in
     try_io (wait_for_physical_disk os location DEVICE_WAIT) (\<lambda>number.
     try_io (deletion_open os number location) (\<lambda>volumes.
       delete_prepared os a inst ident force number location volumes))))"

section \<open>removal.rs: by identity and by letter\<close>

text \<open>The scan for the adapter that claims the instance; an adapter not kept is dropped.\<close>

definition identity_round ::
  "'w os \<Rightarrow> u64 \<Rightarrow> adapter \<Rightarrow> adapter option \<Rightarrow> ('w, (adapter option, error) flow) sys_io" where
  "identity_round os inst a matched =
     (let give_up = (\<lambda>e. bind_io (close_handle os (ad_handle a)) (\<lambda>_.
            bind_io (case matched of Some m \<Rightarrow> close_handle os (ad_handle m) | None \<Rightarrow> return_io ())
              (\<lambda>_. return_io (Break e)))) in
      bind_io (require_recovery os a) (\<lambda>r. case r of
        Err e \<Rightarrow> give_up e
      | Ok _ \<Rightarrow> bind_io (adapter_state os a) (\<lambda>r. case r of
          Err e \<Rightarrow> give_up e
        | Ok st \<Rightarrow>
            if sr_adapter_instance st = inst
            then (case matched of
                Some _ \<Rightarrow> give_up (Msg (lit ''multiple adapters claim instance ''
                  @ dec_digits (unat inst)))
              | None \<Rightarrow> return_io (Continue (Some a)))
            else bind_io (close_handle os (ad_handle a)) (\<lambda>_. return_io (Continue matched)))))"

definition delete_by_identity :: "'w os \<Rightarrow> u64 \<Rightarrow> u32 \<Rightarrow> bool \<Rightarrow> ('w, unit result) sys_io" where
  "delete_by_identity os inst ident force =
     bind_io (for_adapters os (identity_round os inst) None) (\<lambda>r. case r of
       Break e \<Rightarrow> fail_io e
     | Continue None \<Rightarrow>
         fail_io (Msg (lit ''adapter instance is absent or stale; refresh /list before deletion''))
     | Continue (Some a) \<Rightarrow> owning os (ad_handle a)
         (try_io (delete_allocation os a inst ident force) (\<lambda>_.
          bind_io (println (lit ''deleted WispDisk device '' @ dec_digits (unat ident)
            @ lit '' (adapter instance '' @ dec_digits (unat inst) @ lit '')'')) (\<lambda>_. ok_io ()))))"

text \<open>The entries of an inventory at the address of the drive, checked to be at most one.\<close>

fun match_entries ::
  "drive_letter \<Rightarrow> scsi_location \<Rightarrow> u64 \<Rightarrow> disk_state list \<Rightarrow> (u64 \<times> u32) option
     \<Rightarrow> (u64 \<times> u32) option result" where
  "match_entries letter address inst [] matched = Ok matched"
| "match_entries letter address inst (entry # entries) matched =
     (if di_path_id (ds_disk entry) = sl_path address \<and> di_target_id (ds_disk entry) = sl_target address
         \<and> di_lun (ds_disk entry) = sl_lun address
      then if matched \<noteq> None
        then Err (Msg (lit ''multiple WispDisk LUNs claim drive '' @ drive_letter_display letter))
        else match_entries letter address inst entries (Some (inst, di_device_id (ds_disk entry)))
      else match_entries letter address inst entries matched)"

definition letter_round ::
  "'w os \<Rightarrow> drive_letter \<Rightarrow> scsi_location \<Rightarrow> adapter \<Rightarrow> (u64 \<times> u32) option
     \<Rightarrow> ('w, ((u64 \<times> u32) option, error) flow) sys_io" where
  "letter_round os letter address a matched =
     owning os (ad_handle a)
       (if ad_port_number a \<noteq> sl_port address then return_io (Continue matched)
        else bind_io (try_io (require_recovery os a) (\<lambda>_. try_io (adapter_state os a) (\<lambda>st.
            return_io (match_entries letter address (sr_adapter_instance st) (live_disks st) matched))))
          (\<lambda>r. return_io (case r of Err e \<Rightarrow> Break e | Ok matched' \<Rightarrow> Continue matched')))"

definition drive_identity :: "'w os \<Rightarrow> drive_letter \<Rightarrow> ('w, scsi_location result) sys_io" where
  "drive_identity os letter =
     try_io (return_io (mount_point letter)) (\<lambda>point.
     try_io (get_volume_name os point) (\<lambda>_.
     try_io (io_context (lit ''open target volume for identity'')
         (open_device os (drive_path letter) GENERIC_READ)) (\<lambda>h.
     owning os h (try_io (disk_number os h) (physical_disk_address os)))))"

definition delete_disk :: "'w os \<Rightarrow> drive_letter \<Rightarrow> bool \<Rightarrow> ('w, unit result) sys_io" where
  "delete_disk os letter force =
     bind_io (drive_letter_in_use os letter) (\<lambda>used.
     if \<not> used
     then fail_io (Msg (lit ''drive '' @ drive_letter_display letter @ lit '' is not mounted''))
     else try_io (drive_identity os letter) (\<lambda>address.
     bind_io (for_adapters os (letter_round os letter address) None) (\<lambda>r. case r of
       Break e \<Rightarrow> fail_io e
     | Continue None \<Rightarrow> fail_io (Msg (lit ''volume is not uniquely owned by WispDisk''))
     | Continue (Some (inst, ident)) \<Rightarrow>
         try_io (delete_by_identity os inst ident force) (\<lambda>_.
           wait_for_drive_state os letter False DEVICE_WAIT))))"

section \<open>Quiet events\<close>

text \<open>Events that neither touch a volume nor ask the driver for a mutation.\<close>

definition quiet :: "os_event \<Rightarrow> bool" where
  "quiet ev \<longleftrightarrow> volume_actions ev = [] \<and> request_bytes Delete_Reserved ev = []
     \<and> request_bytes Create_Reserved ev = []"

lemma quiet_simps [simp]:
  "quiet (Create_File p acc r)" "quiet (Close_Handle h)" "quiet (Get_Logical_Drives drives)"
  "quiet (Find_First_Volume ff)" "quiet (Find_Next_Volume h fn)" "quiet (Find_Volume_Close h)"
  "quiet (Get_Volume_Path_Names n c pn)" "quiet (Get_Volume_Name n vn)"
  "quiet (Get_Class_Devs k cd)" "quiet (Destroy_Device_List h)" "quiet (Enum_Interfaces h i ei)"
  "quiet (Interface_Detail h dev c idt)" "quiet (Create_Event ce)" "quiet (Register_Notification h rn)"
  "quiet (Unregister_Notification h)" "quiet (Wait_Event h m we)" "quiet (Sleep d)" "quiet (Print u)"
  "quiet (Storage se)" "quiet (Setup si)" "quiet (Etw te)" "quiet (Eprint u)"
  by (simp_all add: quiet_def)

lemma quiet_controls [simp]:
  "quiet (Device_Io_Control h IOCTL_SCSI_GET_ADDRESS i answer)"
  "quiet (Device_Io_Control h IOCTL_STORAGE_GET_DEVICE_NUMBER i answer)"
  "quiet (Device_Io_Control h IOCTL_VOLUME_GET_VOLUME_DISK_EXTENTS i answer)"
  by (simp_all add: quiet_def IOCTL_SCSI_GET_ADDRESS_def IOCTL_STORAGE_GET_DEVICE_NUMBER_def
      IOCTL_VOLUME_GET_VOLUME_DISK_EXTENTS_def IOCTL_SCSI_MINIPORT_def FSCTL_LOCK_VOLUME_def
      FSCTL_UNLOCK_VOLUME_def FSCTL_DISMOUNT_VOLUME_def)

lemma quiet_request [simp]:
  "quiet (Device_Io_Control h IOCTL_SCSI_MINIPORT (request_buffer C q) answer) \<longleftrightarrow>
    co_code C \<noteq> Delete_Reserved \<and> co_code C \<noteq> Create_Reserved"
  by (auto simp: quiet_def IOCTL_SCSI_MINIPORT_def FSCTL_LOCK_VOLUME_def FSCTL_UNLOCK_VOLUME_def
      FSCTL_DISMOUNT_VOLUME_def) (cases "co_code C"; simp)+

lemma quiet_trace:
  assumes "list_all quiet t"
  shows "actions_of t = []" "requests_of Delete_Reserved t = []" "requests_of Create_Reserved t = []"
  using assms by (induction t) (auto simp: quiet_def)

lemma quiet_exchanges [all_events_intros]:
  "all_events quiet (query_version os a)" "all_events quiet (require_recovery os a)"
  "all_events quiet (adapter_state os a)"
  by (auto simp: query_version_def require_recovery_def adapter_state_def new_request_header_def
      intro!: all_events_intros)

lemma quiet_disk_queries [all_events_intros]:
  "all_events quiet (scsi_location_of os h)" "all_events quiet (storage_device_number os h)"
  "all_events quiet (physical_disk_address os number)"
  "all_events quiet (verify_physical_disk_location os number location)"
  unfolding scsi_location_of_def storage_device_number_def physical_disk_address_def
    verify_physical_disk_location_def Let_def
  by (intro all_events_intros; simp)+

lemma quiet_interface_path [all_events_intros]:
  "all_events quiet (disk_interface_path os dset iface)"
  unfolding disk_interface_path_def read_interface_path_def interface_detail_def Let_def
  by (intro all_events_intros; simp)

lemma quiet_find [all_events_intros]: "all_events quiet (find_physical_disk os expected)"
  unfolding find_physical_disk_def find_round_def probe_interface_def destroy_device_list_def
  by (intro all_events_intros; simp)

lemma quiet_notification [all_events_intros]:
  "all_events quiet (notification_new os)" "all_events quiet (notification_wait os n timeout)"
  "all_events quiet (notification_drop os n)"
  unfolding notification_new_def notification_wait_def notification_drop_def Let_def
  by (intro all_events_intros; simp)+

lemma quiet_waits [all_events_intros]:
  "all_events quiet (wait_for_physical_disk os location timeout)"
  "all_events quiet (wait_for_physical_disk_absent os number location timeout)"
  unfolding wait_for_physical_disk_def wait_for_physical_disk_absent_def
  by (intro all_events_intros; simp)+

lemma quiet_volumes [all_events_intros]:
  "all_events quiet (finder_new os)" "all_events quiet (finder_next os f)"
  "all_events quiet (finder_drop os f)" "all_events quiet (disk_number os h)"
  "all_events quiet (volume_paths os name)" "all_events quiet (volume_open os info number)"
  unfolding finder_new_def finder_next_def finder_drop_def disk_number_def volume_paths_def
    volume_open_def get_volume_path_names_def Let_def
  by (intro all_events_intros; simp)+

lemma quiet_volumes_for_disk [all_events_intros]: "all_events quiet (volumes_for_disk os number)"
  unfolding volumes_for_disk_def volumes_round_def volume_of_disk_def
  by (intro all_events_intros; simp)

lemma quiet_drop_volumes [all_events_intros]: "all_events quiet (drop_volumes os vs)"
  by (induction vs) (auto intro!: all_events_intros)

lemma quiet_open_volumes [all_events_intros]: "all_events quiet (open_volumes os number infos vs)"
  by (induction infos arbitrary: vs) (auto intro!: all_events_intros)

lemma quiet_deletion_open [all_events_intros]: "all_events quiet (deletion_open os number location)"
  unfolding deletion_open_def by (intro all_events_intros; simp)

section \<open>Preparing the volumes\<close>

fun succeeded :: "volume_action \<Rightarrow> bool" where
  "succeeded (Locks h ok) \<longleftrightarrow> ok"
| "succeeded (Dismounts h ok) \<longleftrightarrow> ok"
| "succeeded (Unlocks h ok) \<longleftrightarrow> ok"
| "succeeded (Unmounts p ok) \<longleftrightarrow> ok"
| "succeeded (Mounts p n ok) \<longleftrightarrow> ok"

fun is_locking :: "volume_action \<Rightarrow> bool" where
  "is_locking (Locks h ok) \<longleftrightarrow> True" | "is_locking _ \<longleftrightarrow> False"

fun is_dismounting :: "volume_action \<Rightarrow> bool" where
  "is_dismounting (Dismounts h ok) \<longleftrightarrow> True" | "is_dismounting _ \<longleftrightarrow> False"

fun is_unmounting :: "volume_action \<Rightarrow> bool" where
  "is_unmounting (Unmounts p ok) \<longleftrightarrow> True" | "is_unmounting _ \<longleftrightarrow> False"

fun is_mounting :: "volume_action \<Rightarrow> bool" where
  "is_mounting (Mounts p n ok) \<longleftrightarrow> True" | "is_mounting _ \<longleftrightarrow> False"

text \<open>Locking: one attempt per volume up to the first refusal; nothing else changes.\<close>

definition locks_all :: "bool \<Rightarrow> volume list \<Rightarrow> volume list \<times> unit result \<Rightarrow> os_event list \<Rightarrow> bool" where
  "locks_all force vs x t \<longleftrightarrow> plainly (snd x) \<and> list_all is_locking (actions_of t)
     \<and> map vo_handle (fst x) = map vo_handle vs \<and> map vo_removed (fst x) = map vo_removed vs
     \<and> map vo_mount_points (fst x) = map vo_mount_points vs \<and> map vo_name (fst x) = map vo_name vs
     \<and> (is_ok (snd x) \<longrightarrow> (\<exists>oks. actions_of t = map2 (\<lambda>v ok. Locks (vo_handle v) ok) vs oks
          \<and> length oks = length vs \<and> (force \<or> list_all (\<lambda>b. b) oks)))"

lemma wlp_deletion_lock: "wlp (deletion_lock os vs force) (\<lambda>x t _. locks_all force vs x t) s"
  unfolding deletion_lock_def
proof (induction vs arbitrary: s)
  case Nil
  then show ?case by (simp add: wlp_rules locks_all_def)
next
  case (Cons v vs)
  show ?case
    unfolding each_volume.simps wlp_bind
  proof (rule wlp_mono [OF wlp_volume_lock], elim exE conjE)
    fix y :: "volume \<times> unit result" and t ok and s' :: "'a sys"
    assume y: "actions_of t = [Locks (vo_handle v) ok]"
      "fst y = (if ok then v\<lparr>vo_locked := True\<rparr> else v)" "is_ok (snd y) = (ok \<or> force)"
      "plainly (snd y)"
    show "wlp (case y of (v', r) \<Rightarrow> (case r of
         Err e \<Rightarrow> return_io (v' # vs, Err e)
       | Ok _ \<Rightarrow> map_io (\<lambda>(vs', r'). (v' # vs', r')) (each_volume (\<lambda>v. volume_lock os v force) vs)))
      (\<lambda>x t' _. locks_all force (v # vs) x (t @ t')) s'"
    proof (cases "snd y")
      case (Inl e)
      with y show ?thesis
        by (cases y) (auto simp: wlp_rules locks_all_def split: if_splits)
    next
      case (Inr u)
      with y have ok: "ok \<or> force" by simp
      have step: "locks_all force (v # vs) (fst y # fst x, snd x) (t @ t')" if "locks_all force vs x t'" for x t'
        using that y ok unfolding locks_all_def
        by (auto intro: exI [of _ "ok # _"])
      have "wlp (map_io (\<lambda>(vs', r'). (fst y # vs', r')) (each_volume (\<lambda>v. volume_lock os v force) vs))
          (\<lambda>x t' _. locks_all force (v # vs) x (t @ t')) s'"
        unfolding wlp_map
        by (rule wlp_mono [OF Cons.IH]) (simp add: case_prod_beta step)
      with Inr show ?thesis by (cases y) simp
    qed
  qed
qed

lemma wlp_deletion_dismount:
  "wlp (deletion_dismount os vs) (\<lambda>r t _. plainly r \<and> list_all is_dismounting (actions_of t)
     \<and> (is_ok r \<longrightarrow> actions_of t = map (\<lambda>v. Dismounts (vo_handle v) True) vs)) s"
  unfolding deletion_dismount_def
proof (induction vs arbitrary: s)
  case Nil
  then show ?case by (simp add: wlp_rules)
next
  case (Cons v vs)
  show ?case
    unfolding for_io.simps
  proof (rule wlp_tryI [OF wlp_volume_dismount], goal_cases)
    case (1 e t s')
    then show ?case by simp
  next
    case (2 u t s')
    then show ?case by (intro wlp_mono [OF Cons.IH]) auto
  qed
qed

text \<open>
  Removing mount points: what is recorded as removed is what was removed, also on failure.
\<close>

definition unmounted :: "volume_action list \<Rightarrow> wstr list" where
  "unmounted acts = concat (map (\<lambda>a. case a of Unmounts p True \<Rightarrow> [p] | _ \<Rightarrow> []) acts)"

lemma unmounted_simps [simp]:
  "unmounted [] = []" "unmounted (a @ b) = unmounted a @ unmounted b"
  "unmounted (Unmounts p True # a) = p # unmounted a" "unmounted (Unmounts p False # a) = unmounted a"
  "unmounted (map (\<lambda>p. Unmounts p True) ps) = ps"
  by (simp_all add: unmounted_def comp_def)

lemma unmounted_other [simp]:
  "list_all is_locking a \<Longrightarrow> unmounted a = []" "list_all is_dismounting b \<Longrightarrow> unmounted b = []"
  "list_all is_mounting c \<Longrightarrow> unmounted c = []"
proof -
  show "list_all is_locking a \<Longrightarrow> unmounted a = []"
    by (induction a) (auto simp: unmounted_def split: volume_action.splits)
  show "list_all is_dismounting b \<Longrightarrow> unmounted b = []"
    by (induction b) (auto simp: unmounted_def split: volume_action.splits)
  show "list_all is_mounting c \<Longrightarrow> unmounted c = []"
    by (induction c) (auto simp: unmounted_def split: volume_action.splits)
qed

definition unmounts_all :: "volume list \<Rightarrow> volume list \<times> unit result \<Rightarrow> os_event list \<Rightarrow> bool" where
  "unmounts_all vs x t \<longleftrightarrow> plainly (snd x) \<and> list_all is_unmounting (actions_of t)
     \<and> map vo_handle (fst x) = map vo_handle vs \<and> map vo_locked (fst x) = map vo_locked vs
     \<and> map vo_name (fst x) = map vo_name vs
     \<and> (list_all (\<lambda>v. vo_removed v = []) vs \<longrightarrow>
          concat (map vo_removed (fst x)) = unmounted (actions_of t))
     \<and> (is_ok (snd x) \<longrightarrow> list_all succeeded (actions_of t)
          \<and> unmounted (actions_of t) = concat (map vo_mount_points vs))"

lemma removes_facts:
  assumes "removes (vo_mount_points v) v x t"
  shows "plainly (snd x) \<and> list_all is_unmounting (actions_of t) \<and> vo_handle (fst x) = vo_handle v
    \<and> vo_locked (fst x) = vo_locked v \<and> vo_name (fst x) = vo_name v
    \<and> vo_removed (fst x) = vo_removed v @ unmounted (actions_of t)
    \<and> (is_ok (snd x) \<longrightarrow> list_all succeeded (actions_of t)
         \<and> unmounted (actions_of t) = vo_mount_points v)"
proof -
  from assms obtain gone rest where r: "vo_mount_points v = gone @ rest"
    "fst x = v\<lparr>vo_removed := vo_removed v @ gone\<rparr>" "is_ok (snd x) = (rest = [])" "plainly (snd x)"
    "actions_of t = map (\<lambda>p. Unmounts p True) gone @ (case rest of [] \<Rightarrow> [] | p # _ \<Rightarrow> [Unmounts p False])"
    unfolding removes_def by blast
  then show ?thesis
    by (cases rest) (auto simp: list_all_iff)
qed

lemma concat_removed_fresh: "list_all (\<lambda>v. vo_removed v = []) vs \<Longrightarrow> concat (map vo_removed vs) = []"
  by (induction vs) auto

lemma wlp_deletion_remove_mounts:
  "wlp (deletion_remove_mounts os vs) (\<lambda>x t _. unmounts_all vs x t) s"
  unfolding deletion_remove_mounts_def
proof (induction vs arbitrary: s)
  case Nil
  then show ?case by (simp add: wlp_rules unmounts_all_def)
next
  case (Cons v vs)
  show ?case
    unfolding each_volume.simps wlp_bind volume_remove_mounts_def
  proof (rule wlp_mono [OF wlp_remove_points])
    fix y t and s' :: "'a sys"
    assume "removes (vo_mount_points v) v y t"
    then have y: "plainly (snd y)" "list_all is_unmounting (actions_of t)"
      "vo_handle (fst y) = vo_handle v" "vo_locked (fst y) = vo_locked v" "vo_name (fst y) = vo_name v"
      "vo_removed (fst y) = vo_removed v @ unmounted (actions_of t)"
      "is_ok (snd y) \<Longrightarrow> list_all succeeded (actions_of t) \<and> unmounted (actions_of t) = vo_mount_points v"
      by (auto dest: removes_facts)
    show "wlp (case y of (v', r) \<Rightarrow> (case r of
         Err e \<Rightarrow> return_io (v' # vs, Err e)
       | Ok _ \<Rightarrow> map_io (\<lambda>(vs', r'). (v' # vs', r'))
           (each_volume (\<lambda>v. remove_points os v (vo_mount_points v)) vs)))
      (\<lambda>x t' _. unmounts_all (v # vs) x (t @ t')) s'"
    proof (cases "snd y")
      case (Inl e)
      with y show ?thesis
        by (cases y) (auto simp: wlp_rules unmounts_all_def concat_removed_fresh)
    next
      case (Inr u)
      have step: "unmounts_all (v # vs) (fst y # fst x, snd x) (t @ t')" if "unmounts_all vs x t'" for x t'
        using that y Inr unfolding unmounts_all_def by auto
      have "wlp (map_io (\<lambda>(vs', r'). (fst y # vs', r'))
          (each_volume (\<lambda>v. remove_points os v (vo_mount_points v)) vs))
          (\<lambda>x t' _. unmounts_all (v # vs) x (t @ t')) s'"
        unfolding wlp_map
        by (rule wlp_mono [OF Cons.IH [unfolded volume_remove_mounts_def]])
          (simp add: case_prod_beta step)
      with Inr show ?thesis by (cases y) simp
    qed
  qed
qed

text \<open>The whole preparation: all locks, then all dismounts, then the mount points.\<close>

definition prepares :: "bool \<Rightarrow> volume list \<Rightarrow> volume list \<times> unit result \<Rightarrow> os_event list \<Rightarrow> bool" where
  "prepares force vs x t \<longleftrightarrow> plainly (snd x)
     \<and> map vo_handle (fst x) = map vo_handle vs \<and> map vo_name (fst x) = map vo_name vs
     \<and> (list_all (\<lambda>v. vo_removed v = []) vs \<longrightarrow>
          concat (map vo_removed (fst x)) = unmounted (actions_of t))
     \<and> (\<exists>ls ds us. actions_of t = ls @ ds @ us
          \<and> list_all is_locking ls \<and> list_all is_dismounting ds \<and> list_all is_unmounting us
          \<and> (ds @ us = [] \<or> (\<exists>oks. ls = map2 (\<lambda>v ok. Locks (vo_handle v) ok) vs oks
               \<and> length oks = length vs \<and> (force \<or> list_all (\<lambda>b. b) oks)))
          \<and> (us = [] \<or> ds = map (\<lambda>v. Dismounts (vo_handle v) True) vs)
          \<and> (case snd x of
               Ok _ \<Rightarrow> (\<exists>oks. ls = map2 (\<lambda>v ok. Locks (vo_handle v) ok) vs oks
                   \<and> length oks = length vs \<and> (force \<or> list_all (\<lambda>b. b) oks))
                 \<and> ds = map (\<lambda>v. Dismounts (vo_handle v) True) vs \<and> list_all succeeded us
                 \<and> unmounted us = concat (map vo_mount_points vs)
             | Err _ \<Rightarrow> True))"

lemma fresh_removed:
  "map vo_removed vs = map vo_removed ws \<Longrightarrow>
    list_all (\<lambda>v. vo_removed v = []) vs = list_all (\<lambda>v. vo_removed v = []) ws"
  by (metis (mono_tags, lifting) list.pred_cong list.pred_map comp_apply)

lemma prepares_lock_failed:
  assumes "locks_all force vs (locked, Err e) t"
  shows "prepares force vs (locked, Err e) t"
  using assms unfolding locks_all_def prepares_def
  by (auto dest: fresh_removed concat_removed_fresh)
    (rule exI [of _ "actions_of t"], rule exI [of _ "[]"], rule exI [of _ "[]"], simp)

lemma locks_all_Ok:
  assumes "locks_all force vs (locked, Ok u) t"
  obtains oks where "actions_of t = map2 (\<lambda>v ok. Locks (vo_handle v) ok) vs oks"
    "length oks = length vs" "force \<or> list_all (\<lambda>b. b) oks" "list_all is_locking (actions_of t)"
    "map vo_handle locked = map vo_handle vs" "map vo_name locked = map vo_name vs"
    "map vo_removed locked = map vo_removed vs" "map vo_mount_points locked = map vo_mount_points vs"
  using assms unfolding locks_all_def by auto

lemma map_handles: "map vo_handle locked = map vo_handle vs \<Longrightarrow>
    map (\<lambda>v. Dismounts (vo_handle v) True) locked = map (\<lambda>v. Dismounts (vo_handle v) True) vs"
  by (drule arg_cong [where f = "map (\<lambda>h. Dismounts h True)"]) (simp add: comp_def)

lemma wlp_prepare_deletion:
  "wlp (prepare_deletion os vs force) (\<lambda>x t _. prepares force vs x t) s"
  unfolding prepare_deletion_def
proof (rule wlp_bindI [OF wlp_deletion_lock])
  fix x t and s' :: "'a sys"
  assume lock: "locks_all force vs x t"
  obtain locked r where x: "x = (locked, r)" by (cases x)
  show "wlp (case x of (locked, r) \<Rightarrow> (case r of
        Err e \<Rightarrow> return_io (locked, Err e)
      | Ok _ \<Rightarrow> bind_io (deletion_dismount os locked) (\<lambda>r. case r of
          Err e \<Rightarrow> return_io (locked, Err e) | Ok _ \<Rightarrow> deletion_remove_mounts os locked)))
    (\<lambda>y t' _. prepares force vs y (t @ t')) s'"
  proof (cases r)
    case (Inl e)
    with lock x prepares_lock_failed show ?thesis by (simp add: wlp_rules)
  next
    case (Inr u)
    from lock [unfolded x Inr] obtain oks
      where l: "actions_of t = map2 (\<lambda>v ok. Locks (vo_handle v) ok) vs oks"
        "length oks = length vs" "force \<or> list_all (\<lambda>b. b) oks" "list_all is_locking (actions_of t)"
        "map vo_handle locked = map vo_handle vs" "map vo_name locked = map vo_name vs"
        "map vo_removed locked = map vo_removed vs"
        "map vo_mount_points locked = map vo_mount_points vs"
      by (rule locks_all_Ok)
    note fresh = fresh_removed [OF l(7)]
    have "wlp (bind_io (deletion_dismount os locked) (\<lambda>r. case r of
          Err e \<Rightarrow> return_io (locked, Err e) | Ok _ \<Rightarrow> deletion_remove_mounts os locked))
        (\<lambda>y t' _. prepares force vs y (t @ t')) s'"
    proof (rule wlp_bindI [OF wlp_deletion_dismount], elim conjE)
      fix r :: "unit result" and d and s2 :: "'a sys"
      assume d: "plainly r" "list_all is_dismounting (actions_of d)"
        "is_ok r \<longrightarrow> actions_of d = map (\<lambda>v. Dismounts (vo_handle v) True) locked"
      show "wlp (case r of Err e \<Rightarrow> return_io (locked, Err e) | Ok _ \<Rightarrow> deletion_remove_mounts os locked)
          (\<lambda>y t' _. prepares force vs y (t @ d @ t')) s2"
      proof (cases r)
        case (Inl e)
        have "\<exists>ls ds us. actions_of (t @ d) = ls @ ds @ us
          \<and> list_all is_locking ls \<and> list_all is_dismounting ds \<and> list_all is_unmounting us
          \<and> (ds @ us = [] \<or> (\<exists>oks. ls = map2 (\<lambda>v ok. Locks (vo_handle v) ok) vs oks
               \<and> length oks = length vs \<and> (force \<or> list_all (\<lambda>b. b) oks)))
          \<and> (us = [] \<or> ds = map (\<lambda>v. Dismounts (vo_handle v) True) vs)"
          by (rule exI [of _ "actions_of t"], rule exI [of _ "actions_of d"], rule exI [of _ "[]"])
            (use l d in auto)
        then show ?thesis
          using Inl l d fresh by (auto simp: wlp_rules prepares_def concat_removed_fresh)
      next
        case (Inr w)
        then have d': "actions_of d = map (\<lambda>v. Dismounts (vo_handle v) True) vs"
          using d(3) map_handles [OF l(5)] by simp
        have "prepares force vs y (t @ d @ t')" if u: "unmounts_all locked y t'" for y t'
        proof -
          have "\<exists>ls ds us. actions_of (t @ d @ t') = ls @ ds @ us
            \<and> list_all is_locking ls \<and> list_all is_dismounting ds \<and> list_all is_unmounting us
            \<and> (ds @ us = [] \<or> (\<exists>oks. ls = map2 (\<lambda>v ok. Locks (vo_handle v) ok) vs oks
                 \<and> length oks = length vs \<and> (force \<or> list_all (\<lambda>b. b) oks)))
            \<and> (us = [] \<or> ds = map (\<lambda>v. Dismounts (vo_handle v) True) vs)
            \<and> (case snd y of
                 Ok _ \<Rightarrow> (\<exists>oks. ls = map2 (\<lambda>v ok. Locks (vo_handle v) ok) vs oks
                     \<and> length oks = length vs \<and> (force \<or> list_all (\<lambda>b. b) oks))
                   \<and> ds = map (\<lambda>v. Dismounts (vo_handle v) True) vs \<and> list_all succeeded us
                   \<and> unmounted us = concat (map vo_mount_points vs)
               | Err _ \<Rightarrow> True)"
            by (rule exI [of _ "actions_of t"], rule exI [of _ "actions_of d"],
                rule exI [of _ "actions_of t'"])
              (use l d d' u in \<open>auto simp: unmounts_all_def split: sum.split\<close>)
          with u l d d' fresh show ?thesis
            by (auto simp: prepares_def unmounts_all_def)
        qed
        then show ?thesis
          using Inr by (auto intro: wlp_mono [OF wlp_deletion_remove_mounts])
      qed
    qed
    with x Inr show ?thesis by simp
  qed
qed

section \<open>Restoring the volumes\<close>

fun is_unlocking :: "volume_action \<Rightarrow> bool" where
  "is_unlocking (Unlocks h ok) \<longleftrightarrow> True" | "is_unlocking _ \<longleftrightarrow> False"

text \<open>The mounts that were attempted, as pairs of mount point and volume name.\<close>

definition mounted :: "volume_action list \<Rightarrow> (wstr \<times> wstr) list" where
  "mounted acts = concat (map (\<lambda>a. case a of Mounts p n ok \<Rightarrow> [(p, n)] | _ \<Rightarrow> []) acts)"

lemma mounted_simps [simp]:
  "mounted [] = []" "mounted (a @ b) = mounted a @ mounted b"
  "mounted (map (Unlocks h) us) = []"
  by (simp_all add: mounted_def comp_def)

lemma mounted_map2 [simp]:
  "length oks = length ps \<Longrightarrow> mounted (map2 (\<lambda>p ok. Mounts p n ok) ps oks) = map (\<lambda>p. (p, n)) ps"
  by (induction ps oks rule: list_induct2') (simp_all add: mounted_def)

lemma mounted_other [simp]:
  "list_all is_locking a \<Longrightarrow> mounted a = []" "list_all is_dismounting b \<Longrightarrow> mounted b = []"
  "list_all is_unmounting c \<Longrightarrow> mounted c = []"
proof -
  show "list_all is_locking a \<Longrightarrow> mounted a = []"
    by (induction a) (auto simp: mounted_def split: volume_action.splits)
  show "list_all is_dismounting b \<Longrightarrow> mounted b = []"
    by (induction b) (auto simp: mounted_def split: volume_action.splits)
  show "list_all is_unmounting c \<Longrightarrow> mounted c = []"
    by (induction c) (auto simp: mounted_def split: volume_action.splits)
qed

lemma unmounted_restoring:
  "list_all (\<lambda>a. is_mounting a \<or> is_unlocking a) acts \<Longrightarrow> unmounted acts = []"
  by (induction acts) (auto simp: unmounted_def split: volume_action.splits)

lemma restoring_map2:
  "list_all (\<lambda>a. is_mounting a \<or> is_unlocking a) (map2 (\<lambda>p ok. Mounts p n ok) ps oks)"
  by (induction ps oks rule: list_induct2') simp_all

lemma restoring_unlocks: "list_all (\<lambda>a. is_mounting a \<or> is_unlocking a) (map (Unlocks h) us)"
  by (induction us) simp_all

definition restores_all :: "error option \<Rightarrow> volume list \<Rightarrow> unit result \<Rightarrow> os_event list \<Rightarrow> bool" where
  "restores_all failure vs r t \<longleftrightarrow> plainly r
     \<and> list_all (\<lambda>a. is_mounting a \<or> is_unlocking a) (actions_of t)
     \<and> mounted (actions_of t) = concat (map (\<lambda>v. map (\<lambda>p. (p, vo_name v)) (vo_removed v)) vs)"

lemma wlp_restore_volumes:
  "plain_option failure \<Longrightarrow>
    wlp (restore_volumes os failure vs) (\<lambda>x t _. restores_all failure vs (snd x) t) s"
proof (induction vs arbitrary: failure s)
  case Nil
  then show ?case by (simp add: wlp_rules restores_all_def failure_result_props)
next
  case (Cons v vs)
  show ?case
    unfolding restore_volumes.simps
  proof (rule wlp_bindI [OF wlp_restore_mounts])
    fix y t and s' :: "'a sys"
    assume y: "restores_from v 0 None y t"
    then obtain oks us where t: "length oks = length (vo_removed v)"
      "actions_of t = map2 (\<lambda>p ok. Mounts p (vo_name v) ok) (vo_removed v) oks
        @ map (Unlocks (vo_handle v)) us"
      by (auto simp: restores_from_def)
    have plain: "plain_option (add_failure failure (snd y))"
      using y Cons.prems by (simp add: restores_from_def add_failure_props)
    have step: "restores_all failure (v # vs) r (t @ t')"
      if "restores_all (add_failure failure (snd y)) vs r t'" for r t'
      using that t by (simp add: restores_all_def restoring_map2 restoring_unlocks)
    have "wlp (map_io (\<lambda>(vs', r'). (fst y # vs', r'))
          (restore_volumes os (add_failure failure (snd y)) vs))
        (\<lambda>x t' _. restores_all failure (v # vs) (snd x) (t @ t')) s'"
      unfolding wlp_map
      by (rule wlp_mono [OF Cons.IH [OF plain]]) (simp add: case_prod_beta step)
    then show "wlp (case y of (v', r) \<Rightarrow>
          map_io (\<lambda>(vs', r'). (v' # vs', r')) (restore_volumes os (add_failure failure r) vs))
        (\<lambda>x t' _. restores_all failure (v # vs) (snd x) (t @ t')) s'"
      by (simp add: case_prod_beta)
  qed
qed

lemma wlp_deletion_restore:
  "wlp (deletion_restore os vs) (\<lambda>x t _. restores_all None vs (snd x) t) s"
  unfolding deletion_restore_def by (rule wlp_restore_volumes) (simp add: plain_option_def)

lemma restored_points:
  "restores_all f vs r t \<Longrightarrow> map fst (mounted (actions_of t)) = concat (map vo_removed vs)"
  by (simp add: restores_all_def map_concat comp_def)

section \<open>The deletion of an allocation\<close>

lemma mutations_leave_volumes [all_events_intros]:
  "all_events (\<lambda>ev. volume_actions ev = []) (delete_by_id os a inst ident)"
proof -
  have code: "IOCTL_SCSI_MINIPORT \<noteq> FSCTL_LOCK_VOLUME" "IOCTL_SCSI_MINIPORT \<noteq> FSCTL_UNLOCK_VOLUME"
      "IOCTL_SCSI_MINIPORT \<noteq> FSCTL_DISMOUNT_VOLUME"
    by (simp_all add: IOCTL_SCSI_MINIPORT_def FSCTL_LOCK_VOLUME_def FSCTL_UNLOCK_VOLUME_def
        FSCTL_DISMOUNT_VOLUME_def)
  have query: "all_events (\<lambda>ev. volume_actions ev = []) (query_operation os a h)" for h
    by (auto simp: query_operation_def new_operation_request_def new_request_header_def code
        intro!: all_events_intros)
  have step: "all_events (\<lambda>ev. volume_actions ev = [])
      (recovery_step (reserved_attempt os a C request h deadline) h mutation x)"
    for C :: "('q, operation_response) control_op" and request h deadline mutation x
    by (cases x; cases "fst x")
      (auto simp: current_io_def reserved_attempt_def wait_for_retry_def code
        split: round.split intro!: all_events_intros query)
  show ?thesis
    by (auto simp: delete_by_id_def reserve_operation_def require_recovery_def query_version_def
        new_operation_request_def new_request_header_def adapter_state_def recover_def
        resolve_operation_def code intro!: all_events_intros step)
qed

lemma leaves_volumes: "list_all (\<lambda>ev. volume_actions ev = []) t \<longleftrightarrow> actions_of t = []"
  by (induction t) auto

lemma wlp_still_online:
  "wlp (still_online os a inst ident e) (\<lambda>online t _. list_all quiet t
     \<and> (online \<longrightarrow> downcast_unresolved e = None)) s"
proof -
  have "all_events quiet (still_online os a inst ident e)"
    unfolding still_online_def by (intro all_events_intros)
  then have "wlp (still_online os a inst ident e) (\<lambda>_ t _. list_all quiet t) s"
    by (rule all_events_wlp)
  moreover have "wlp (still_online os a inst ident e)
      (\<lambda>online _ _. online \<longrightarrow> downcast_unresolved e = None) s"
    by (auto simp: still_online_def wlp_rules) (simp add: wlp_def)
  ultimately show ?thesis by (rule wlp_conj)
qed

text \<open>
  \<open>fully_prepared\<close>: the lock of every volume was tried and succeeded (or force was given), then every
  volume was dismounted, then every mount point of each was removed, all with success.
  \<open>prepared_first\<close>: this is what happened to the volumes before the first delete request, and after
  it they are at most restored. \<open>restores_exactly\<close>: a restoration is attempted for all removed mount
  points or for none, and for none when the deletion succeeded or its outcome is unresolved.
\<close>

definition fully_prepared :: "bool \<Rightarrow> volume list \<Rightarrow> volume_action list \<Rightarrow> bool" where
  "fully_prepared force vs acts \<longleftrightarrow> (\<exists>oks.
     acts = map2 (\<lambda>v ok. Locks (vo_handle v) ok) vs oks @ map (\<lambda>v. Dismounts (vo_handle v) True) vs
       @ map (\<lambda>p. Unmounts p True) (concat (map vo_mount_points vs))
     \<and> length oks = length vs \<and> (force \<or> list_all (\<lambda>b. b) oks))"

definition prepared_first :: "bool \<Rightarrow> volume list \<Rightarrow> os_event list \<Rightarrow> bool" where
  "prepared_first force vs t \<longleftrightarrow> requests_of Delete_Reserved t = [] \<or> (\<exists>t1 t2. t = t1 @ t2
     \<and> requests_of Delete_Reserved t1 = [] \<and> fully_prepared force vs (actions_of t1)
     \<and> list_all (\<lambda>a. is_mounting a \<or> is_unlocking a) (actions_of t2))"

lemma all_unmounted:
  "list_all is_unmounting us \<Longrightarrow> list_all succeeded us \<Longrightarrow> us = map (\<lambda>p. Unmounts p True) (unmounted us)"
proof (induction us)
  case (Cons a us)
  then show ?case by (cases a) auto
qed simp

definition restores_exactly :: "unit result \<Rightarrow> os_event list \<Rightarrow> bool" where
  "restores_exactly r t \<longleftrightarrow> (let acts = actions_of t in
     (mounted acts = [] \<or> map fst (mounted acts) = unmounted acts)
     \<and> (case r of Ok _ \<Rightarrow> mounted acts = []
         | Err e \<Rightarrow> downcast_unresolved e = None \<or> mounted acts = []))"

lemma quiet_prefix:
  "list_all quiet q \<Longrightarrow> restores_exactly r t \<Longrightarrow> restores_exactly r (q @ t)"
  using quiet_trace [of q] by (simp add: restores_exactly_def Let_def)

lemma quiet_alone: "list_all quiet q \<Longrightarrow> restores_exactly r q"
  using quiet_trace [of q] by (auto simp: restores_exactly_def Let_def split: sum.split)

lemma prepares_quiet_requests:
  "wlp (prepare_deletion os vs force) (\<lambda>_ t _. requests_of code t = []) s"
proof -
  have lock: "all_events (\<lambda>ev. request_bytes code ev = []) (volume_lock os v force)"
    "all_events (\<lambda>ev. request_bytes code ev = []) (volume_dismount os v)"
    "all_events (\<lambda>ev. request_bytes code ev = []) (remove_points os v ps)" for v ps
    unfolding volume_lock_def volume_dismount_def volume_control_def
    by (intro all_events_intros; simp del: request_bytes.simps)+
      (induction ps arbitrary: v; auto simp: delete_mount_point_def intro!: all_events_intros)
  have each: "all_events (\<lambda>ev. request_bytes code ev = []) (each_volume f vs)"
    if "\<And>v. all_events (\<lambda>ev. request_bytes code ev = []) (f v)"
    for f :: "volume \<Rightarrow> ('a, volume \<times> unit result) sys_io" and vs
    using that by (induction vs) (auto intro!: all_events_intros)
  have "all_events (\<lambda>ev. request_bytes code ev = []) (prepare_deletion os vs force)"
    unfolding prepare_deletion_def deletion_lock_def deletion_dismount_def deletion_remove_mounts_def
      volume_remove_mounts_def
    by (intro all_events_intros each lock)
  then show ?thesis by (rule no_requests_wlp)
qed

lemma restore_quiet_requests:
  "wlp (deletion_restore os vs) (\<lambda>_ t _. requests_of code t = []) s"
proof -
  have one: "all_events (\<lambda>ev. request_bytes code ev = []) (restore_removed_mount os v i)" for v i
    unfolding restore_removed_mount_def set_mount_point_def volume_unlock_def volume_control_def Let_def
    by (intro all_events_intros; simp del: request_bytes.simps add: request_bytes.simps(2-))
  have indices: "all_events (\<lambda>ev. request_bytes code ev = []) (restore_indices os v f idx)"
    for v f idx
    by (induction idx arbitrary: v f) (auto intro!: all_events_intros one)
  have "all_events (\<lambda>ev. request_bytes code ev = []) (restore_volumes os f vs)"
    for f by (induction vs arbitrary: f)
      (auto simp: volume_restore_mounts_def intro!: all_events_intros indices)
  then show ?thesis unfolding deletion_restore_def by (rule no_requests_wlp)
qed

lemma quiet_wlp: "all_events quiet m \<Longrightarrow> wlp m (\<lambda>_ t _. list_all quiet t) s"
  by (rule all_events_wlp)

lemma prepares_facts:
  assumes p: "prepares force vs x t" and fresh: "list_all (\<lambda>v. vo_removed v = []) vs"
  shows "plainly (snd x)" "mounted (actions_of t) = []"
    "unmounted (actions_of t) = concat (map vo_removed (fst x))"
    "is_ok (snd x) \<Longrightarrow> fully_prepared force vs (actions_of t)"
proof -
  from p fresh show "plainly (snd x)" "unmounted (actions_of t) = concat (map vo_removed (fst x))"
    by (simp_all add: prepares_def)
  from p obtain ls ds us where a: "actions_of t = ls @ ds @ us" "list_all is_locking ls"
    "list_all is_dismounting ds" "list_all is_unmounting us"
    and ok: "is_ok (snd x) \<Longrightarrow> (\<exists>oks. ls = map2 (\<lambda>v ok. Locks (vo_handle v) ok) vs oks
        \<and> length oks = length vs \<and> (force \<or> list_all (\<lambda>b. b) oks))
      \<and> ds = map (\<lambda>v. Dismounts (vo_handle v) True) vs \<and> list_all succeeded us
      \<and> unmounted us = concat (map vo_mount_points vs)"
    unfolding prepares_def by (cases "snd x") auto
  then show "mounted (actions_of t) = []" by simp
  assume "is_ok (snd x)"
  note complete = ok [OF this]
  with all_unmounted [OF a(4)] have "us = map (\<lambda>p. Unmounts p True) (concat (map vo_mount_points vs))" by simp
  with complete a(1) show "fully_prepared force vs (actions_of t)"
    unfolding fully_prepared_def by blast
qed

text \<open>A restoration of everything that was removed, or nothing done to a volume.\<close>

lemma restores_allI:
  "unmounted a = concat (map vo_removed vs) \<Longrightarrow> mounted a = [] \<Longrightarrow> restores_all None vs r u \<Longrightarrow>
    mounted (a @ actions_of u) = [] \<or> map fst (mounted (a @ actions_of u)) = unmounted (a @ actions_of u)"
  using restored_points [of None vs r u]
  by (simp add: restores_all_def unmounted_restoring)

lemma restore_effect:
  "wlp (bind_io (deletion_restore os vs) (\<lambda>x. bind_io (drop_volumes os (fst x)) (\<lambda>_. fail_io (f (snd x)))))
     (\<lambda>r t _. \<exists>x. r = Err (f x) \<and> plainly x \<and> requests_of Delete_Reserved t = []
        \<and> restores_all None vs x t) s"
proof (rule wlp_bindI [OF wlp_conj [OF wlp_deletion_restore restore_quiet_requests]], elim conjE)
  fix x :: "volume list \<times> unit result" and t and s' :: "'a sys"
  assume x: "restores_all None vs (snd x) t" and req: "requests_of Delete_Reserved t = []"
  have drop: "restores_all None vs (snd x) (t @ u)" if "list_all quiet u" for u
    using x quiet_trace [OF that] by (simp add: restores_all_def)
  from x have "plainly (snd x)" by (simp add: restores_all_def)
  with req drop show "wlp (bind_io (drop_volumes os (fst x)) (\<lambda>_. fail_io (f (snd x))))
      (\<lambda>r t' _. \<exists>x. r = Err (f x) \<and> plainly x \<and> requests_of Delete_Reserved (t @ t') = []
        \<and> restores_all None vs x (t @ t')) s'"
    by (auto simp: wlp_rules quiet_trace intro!: wlp_mono [OF quiet_wlp [OF quiet_drop_volumes]])
qed

lemma mutation_trace:
  "wlp (delete_by_id os a inst ident) (\<lambda>_ t _. actions_of t = []) s"
  by (rule wlp_mono [OF all_events_wlp [OF mutations_leave_volumes]]) (simp add: leaves_volumes)

lemma prepared_firstI:
  "requests_of Delete_Reserved t = [] \<Longrightarrow> fully_prepared force ws (actions_of t) \<Longrightarrow>
    list_all (\<lambda>a. is_mounting a \<or> is_unlocking a) (actions_of u) \<Longrightarrow> prepared_first force ws (t @ u)"
  unfolding prepared_first_def by blast

lemma wlp_after_prepared:
  assumes req: "requests_of Delete_Reserved t = []"
    and acts: "fully_prepared force ws (actions_of t)"
      "mounted (actions_of t) = []" "unmounted (actions_of t) = concat (map vo_removed vs)"
  shows "wlp (bind_io (delete_by_id os a inst ident) (\<lambda>deleted. case deleted of
       Err e \<Rightarrow> bind_io (still_online os a inst ident e) (\<lambda>online.
         if online then bind_io (deletion_restore os vs) (\<lambda>x. bind_io (drop_volumes os (fst x))
           (\<lambda>_. fail_io (case snd x of
             Ok _ \<Rightarrow> Context (Ctx (lit ''deletion rejected; original mount points restored'')) e
           | Err e' \<Rightarrow> recovery_failed e (lit ''mount restoration also failed'') e')))
         else bind_io (drop_volumes os vs) (\<lambda>_. fail_io (Context (not_confirmed ident) e)))
     | Ok _ \<Rightarrow> bind_io (drop_volumes os vs) (\<lambda>_. context_io c
         (wait_for_physical_disk_absent os number location timeout))))
    (\<lambda>r t' _. prepared_first force ws (t @ t') \<and> restores_exactly r (t @ t')) s"
proof (rule wlp_bindI [OF mutation_trace])
  have none: "prepared_first force ws (t @ u) \<and> restores_exactly r (t @ u)" if "actions_of u = []" for r u
    using that req acts
    by (auto simp: restores_exactly_def Let_def intro!: prepared_firstI split: sum.split)
  have restored: "prepared_first force ws (t @ u @ v) \<and> restores_exactly (Err e) (t @ u @ v)"
    if "actions_of u = []" "restores_all None vs r v" "downcast_unresolved e = None" for r u v e
    using that req acts restores_allI [OF acts(3,2) that(2)]
    by (auto simp: restores_exactly_def Let_def restores_all_def intro!: prepared_firstI)
  have silent: "wlp m (\<lambda>r t' _. prepared_first force ws (t @ u @ t') \<and> restores_exactly r (t @ u @ t')) s'"
    if "actions_of u = []" "all_events quiet m" for m :: "('a, unit result) sys_io" and u s'
    by (rule wlp_mono [OF quiet_wlp [OF that(2)]]) (simp add: none quiet_trace that(1))
  fix deleted :: "unit result" and d and s' :: "'a sys"
  assume d: "actions_of d = []"
  show "wlp (case deleted of
       Err e \<Rightarrow> bind_io (still_online os a inst ident e) (\<lambda>online.
         if online then bind_io (deletion_restore os vs) (\<lambda>x. bind_io (drop_volumes os (fst x))
           (\<lambda>_. fail_io (case snd x of
             Ok _ \<Rightarrow> Context (Ctx (lit ''deletion rejected; original mount points restored'')) e
           | Err e' \<Rightarrow> recovery_failed e (lit ''mount restoration also failed'') e')))
         else bind_io (drop_volumes os vs) (\<lambda>_. fail_io (Context (not_confirmed ident) e)))
     | Ok _ \<Rightarrow> bind_io (drop_volumes os vs) (\<lambda>_. context_io c
         (wait_for_physical_disk_absent os number location timeout)))
    (\<lambda>r t' _. prepared_first force ws (t @ d @ t') \<and> restores_exactly r (t @ d @ t')) s'"
  proof (cases deleted)
    case (Inr u)
    show ?thesis unfolding Inr by simp (intro silent d all_events_intros)
  next
    case (Inl e)
    have "wlp (bind_io (still_online os a inst ident e) (\<lambda>online.
         if online then bind_io (deletion_restore os vs) (\<lambda>x. bind_io (drop_volumes os (fst x))
           (\<lambda>_. fail_io (case snd x of
             Ok _ \<Rightarrow> Context (Ctx (lit ''deletion rejected; original mount points restored'')) e
           | Err e' \<Rightarrow> recovery_failed e (lit ''mount restoration also failed'') e')))
         else bind_io (drop_volumes os vs) (\<lambda>_. fail_io (Context (not_confirmed ident) e))))
      (\<lambda>r t' _. prepared_first force ws (t @ d @ t') \<and> restores_exactly r (t @ d @ t')) s'"
    proof (rule wlp_bindI [OF wlp_still_online], elim conjE)
      fix online :: bool and q and s2 :: "'a sys"
      assume q: "list_all quiet q" and on: "online \<longrightarrow> downcast_unresolved e = None"
      have dq: "actions_of (d @ q) = []" using d quiet_trace [OF q] by simp
      have res: "downcast_unresolved (case y of
             Ok _ \<Rightarrow> Context (Ctx (lit ''deletion rejected; original mount points restored'')) e
           | Err e' \<Rightarrow> recovery_failed e (lit ''mount restoration also failed'') e') = None"
        if online for y :: "unit result"
        using on that by (cases y) simp_all
      show "wlp (if online then bind_io (deletion_restore os vs) (\<lambda>x. bind_io (drop_volumes os (fst x))
           (\<lambda>_. fail_io (case snd x of
             Ok _ \<Rightarrow> Context (Ctx (lit ''deletion rejected; original mount points restored'')) e
           | Err e' \<Rightarrow> recovery_failed e (lit ''mount restoration also failed'') e')))
         else bind_io (drop_volumes os vs) (\<lambda>_. fail_io (Context (not_confirmed ident) e)))
        (\<lambda>r t' _. prepared_first force ws (t @ d @ q @ t') \<and> restores_exactly r (t @ d @ q @ t')) s2"
      proof (cases online)
        case True
        let ?e = "\<lambda>y :: unit result. case y of
             Ok _ \<Rightarrow> Context (Ctx (lit ''deletion rejected; original mount points restored'')) e
           | Err e' \<Rightarrow> recovery_failed e (lit ''mount restoration also failed'') e'"
        have restores: "prepared_first force ws (t @ d @ q @ v) \<and> restores_exactly (Err (?e y)) (t @ d @ q @ v)"
          if "restores_all None vs y v" for y v
          using restored [OF dq that res [OF True]] by simp
        show ?thesis
          unfolding if_P [OF True]
          by (rule wlp_mono [OF restore_effect]) (elim exE conjE, simp only: restores)
      next
        case False
        show ?thesis
          unfolding if_not_P [OF False]
          by (rule wlp_mono [OF silent [OF dq]]) (auto intro!: all_events_intros)
      qed
    qed
    then show ?thesis by (simp add: Inl)
  qed
qed

lemma wlp_delete_prepared:
  assumes fresh: "list_all (\<lambda>v. vo_removed v = []) volumes"
  shows "wlp (delete_prepared os a inst ident force number location volumes)
    (\<lambda>r t _. prepared_first force volumes t \<and> restores_exactly r t) s"
  unfolding delete_prepared_def case_prod_beta
proof (rule wlp_bindI [OF wlp_conj [OF wlp_prepare_deletion prepares_quiet_requests]], elim conjE)
  fix x :: "volume list \<times> unit result" and t and s' :: "'a sys"
  assume x: "prepares force volumes x t" and req: "requests_of Delete_Reserved t = []"
  note p = prepares_facts [OF x fresh]
  obtain vs prepared where vs: "x = (vs, prepared)" by (cases x)
  show "wlp (case snd x of
       Err e \<Rightarrow> bind_io (deletion_restore os (fst x)) (\<lambda>xa. bind_io (drop_volumes os (fst xa))
         (\<lambda>_. fail_io (case snd xa of Err e' \<Rightarrow> recovery_failed e (lit ''volume restoration also failed'') e'
            | Ok _ \<Rightarrow> e)))
     | Ok _ \<Rightarrow> bind_io (delete_by_id os a inst ident) (\<lambda>deleted. case deleted of
         Err e \<Rightarrow> bind_io (still_online os a inst ident e) (\<lambda>online.
           if online then bind_io (deletion_restore os (fst x)) (\<lambda>xa. bind_io (drop_volumes os (fst xa))
             (\<lambda>_. fail_io (case snd xa of Err e' \<Rightarrow> recovery_failed e (lit ''mount restoration also failed'') e'
                | Ok _ \<Rightarrow> Context (Ctx (lit ''deletion rejected; original mount points restored'')) e)))
           else bind_io (drop_volumes os (fst x)) (\<lambda>_. fail_io (Context (not_confirmed ident) e)))
       | Ok _ \<Rightarrow> bind_io (drop_volumes os (fst x)) (\<lambda>_. context_io (Ctx (lit ''driver allocation for device ''
           @ dec_digits (unat ident) @ lit '' was removed, but Windows disappearance was not confirmed''))
         (wait_for_physical_disk_absent os number location DEVICE_WAIT))))
    (\<lambda>r t' _. prepared_first force volumes (t @ t') \<and> restores_exactly r (t @ t')) s'"
  proof (cases prepared)
    case (Inl e)
    with p vs have "\<not> is_unresolved e" by simp
    then have res: "downcast_unresolved (case y of Err e' \<Rightarrow>
        recovery_failed e (lit ''volume restoration also failed'') e' | Ok _ \<Rightarrow> e) = None" for y :: "unit result"
      by (cases y) (simp_all add: resolved_downcast)
    show ?thesis
      unfolding vs Inl
      by simp (rule wlp_mono [OF restore_effect], elim exE conjE, intro conjI,
        use p vs req res restores_allI in \<open>auto simp: prepared_first_def restores_exactly_def Let_def\<close>)
  next
    case (Inr u)
    with p vs have "fully_prepared force volumes (actions_of t)" by simp
    note after = wlp_after_prepared [OF req this p(2,3) [unfolded vs fst_conv]]
    show ?thesis unfolding vs Inr fst_conv snd_conv sum.case by (rule after)
  qed
qed

section \<open>Opening the volumes of the disk\<close>

text \<open>
  What a trace shows: the extents read through a handle name a single disk, and a device opened
  under the \<open>PhysicalDrive\<close> number reports a SCSI location.
\<close>

definition shows_disk :: "handle \<Rightarrow> u32 \<Rightarrow> os_event list \<Rightarrow> bool" where
  "shows_disk h number t \<longleftrightarrow> (\<exists>answer.
     Device_Io_Control h IOCTL_VOLUME_GET_VOLUME_DISK_EXTENTS [] answer \<in> set t
     \<and> read_disk_extents answer = Ok number)"

definition shows_location :: "u32 \<Rightarrow> scsi_location \<Rightarrow> os_event list \<Rightarrow> bool" where
  "shows_location number location t \<longleftrightarrow> (\<exists>h answer.
     Create_File (utf16 (physical_drive_path number)) 0 (Ok h) \<in> set t
     \<and> Device_Io_Control h IOCTL_SCSI_GET_ADDRESS [] answer \<in> set t
     \<and> read_scsi_address answer = Ok location)"

lemma shows_append:
  "shows_disk h number t \<Longrightarrow> shows_disk h number (t @ u)"
  "shows_disk h number u \<Longrightarrow> shows_disk h number (t @ u)"
  "shows_location number location t \<Longrightarrow> shows_location number location (t @ u)"
  "shows_location number location u \<Longrightarrow> shows_location number location (t @ u)"
  by (auto simp: shows_disk_def shows_location_def)

lemma wlp_any: "wlp m (\<lambda>_ _ _. True) s"
  by (simp add: wlp_def)

lemma wlp_run: "wlp m (\<lambda>a t s'. m s = Some (a, t, s')) s"
  by (simp add: wlp_def)

lemma wlp_fails [simp]:
  "wlp (bind_io m (\<lambda>_. fail_io e)) (\<lambda>r t s'. case r of Err _ \<Rightarrow> True | Ok v \<Rightarrow> Q v t s') s"
  unfolding wlp_rules by (rule wlp_mono [OF wlp_any]) simp

lemma wlp_disk_number:
  "wlp (disk_number os h) (\<lambda>r t _. case r of Ok n \<Rightarrow> shows_disk h n t | Err _ \<Rightarrow> True) s"
  unfolding disk_number_def device_io_control_def wlp_map
  by (rule wlp_os_callI) (auto simp: shows_disk_def split: sum.split)

lemma wlp_open_device_wide:
  "wlp (open_device_wide os p acc) (\<lambda>r t _. case r of Ok h \<Rightarrow> t = [Create_File p acc (Ok h)]
     | Err _ \<Rightarrow> True) s"
  unfolding open_device_wide_def wlp_map
  by (rule wlp_os_callI) (auto simp: map_err_def split: sum.split)

lemma physical_drive_path_wide: "wide (physical_drive_path number) = Ok (utf16 (physical_drive_path number))"
  by (auto simp: wide_def physical_drive_path_def lit_def dest!: dec_digits_are_digits simp: is_ascii_digit_def)

lemma wlp_physical_disk_address:
  "wlp (physical_disk_address os number)
     (\<lambda>r t _. case r of Ok l \<Rightarrow> shows_location number l t | Err _ \<Rightarrow> True) s"
  unfolding physical_disk_address_def Let_def open_device_def physical_drive_path_wide io_context_def
    owning_def scsi_location_of_def device_io_control_def close_handle_def try_io_def
  by (auto simp: wlp_rules shows_location_def intro!: wlp_mono [OF wlp_open_device_wide] wlp_os_callI
      split: sum.splits)

lemma wlp_verify_location:
  "wlp (verify_physical_disk_location os number location)
     (\<lambda>r t _. case r of Ok _ \<Rightarrow> shows_location number location t | Err _ \<Rightarrow> True) s"
  unfolding verify_physical_disk_location_def wlp_try
  by (rule wlp_mono [OF wlp_physical_disk_address]) (auto simp: wlp_rules split: sum.splits)

text \<open>
  The enumeration of volumes, as the trace shows it: the names that Windows gave; for each of them
  the extents read, and the mount points when they name the disk. \<open>volumes_found\<close>: these are all
  volumes of the disk. The enumeration went on to its end, and every volume left out is on another
  disk or has no extents.
\<close>

fun named :: "os_event \<Rightarrow> wstr list" where
  "named (Find_First_Volume (Ok (h, units))) = [units]"
| "named (Find_Next_Volume h (Ok units)) = [units]"
| "named _ = []"

definition names_in :: "wstr \<Rightarrow> wstr list" where
  "names_in buffer = (case wide_from_buffer buffer of Ok name \<Rightarrow> [name] | Err _ \<Rightarrow> [])"

definition volume_names :: "os_event list \<Rightarrow> wstr list" where
  "volume_names t = concat (map (\<lambda>units. names_in (overlay (replicate 1024 0) units)) (concat (map named t)))"

lemma volume_names_simps [simp]:
  "volume_names [] = []" "volume_names (t @ u) = volume_names t @ volume_names u"
  "volume_names [Find_First_Volume (Ok (h, units))] = names_in (overlay (replicate 1024 0) units)"
  "volume_names [Find_Next_Volume h (Ok units)] = names_in (overlay (replicate 1024 0) units)"
  by (simp_all add: volume_names_def)

lemma volume_names_none: "list_all (\<lambda>ev. named ev = []) t \<Longrightarrow> volume_names t = []"
  by (induction t) (simp_all add: volume_names_def)

definition points_read :: "wstr \<Rightarrow> wstr list \<Rightarrow> os_event list \<Rightarrow> bool" where
  "points_read name points t \<longleftrightarrow> (\<exists>base need units.
     Get_Volume_Path_Names name (length base) (None, need, units) \<in> set t
     \<and> points = multisz_entries (overlay base units))"

definition volume_checked :: "u32 \<Rightarrow> wstr \<Rightarrow> volume_info list \<Rightarrow> os_event list \<Rightarrow> bool" where
  "volume_checked number name infos t \<longleftrightarrow> (\<exists>path h answer. volume_device_path name = Ok path
     \<and> Create_File path 0 (Ok h) \<in> set t
     \<and> Device_Io_Control h IOCTL_VOLUME_GET_VOLUME_DISK_EXTENTS [] answer \<in> set t
     \<and> (case read_disk_extents answer of
          Ok actual \<Rightarrow> if actual = number
            then \<exists>points. infos = [\<lparr>vi_name = name, vi_mount_points = points\<rparr>] \<and> points_read name points t
            else infos = []
        | Err e \<Rightarrow> is_skippable e \<and> infos = []))"

definition volumes_found :: "u32 \<Rightarrow> volume_info list \<Rightarrow> os_event list \<Rightarrow> bool" where
  "volumes_found number infos t \<longleftrightarrow> (\<exists>out h. volume_names t = map fst out \<and> infos = concat (map snd out)
     \<and> list_all (\<lambda>(name, is). volume_checked number name is t) out
     \<and> Find_Next_Volume h (Err ERROR_NO_MORE_FILES) \<in> set t)"

lemma volume_checked_append:
  "volume_checked number name infos t \<Longrightarrow> volume_checked number name infos (t @ u)"
  "volume_checked number name infos u \<Longrightarrow> volume_checked number name infos (t @ u)"
  by (fastforce simp: volume_checked_def points_read_def split: sum.splits if_splits)+

lemma wlp_volume_paths:
  "wlp (volume_paths os name) (\<lambda>r t _. case r of Ok points \<Rightarrow> points_read name points t | Err _ \<Rightarrow> True) s"
proof -
  have here: "points_read name (multisz_entries (overlay base units)) (t @ [Get_Volume_Path_Names name k (None, need, units)] @ u)"
    if "length base = k" for base units t k need u
    unfolding points_read_def that [symmetric] by auto
  have [simp]: "min i j + (j - i) = j" for i j :: nat by simp
  show ?thesis
    unfolding volume_paths_def get_volume_path_names_def path_entries_def Let_def
    by (auto simp: wlp_rules intro!: wlp_os_callI here here [where t = "[_]" and u = "[]", simplified]
        here [where t = "[_, _]" and u = "[]", simplified] split: option.split)
qed

lemma wlp_volume_of_disk:
  "wlp (volume_of_disk os number name) (\<lambda>r t _. volume_names t = []
     \<and> (case r of Ok infos \<Rightarrow> volume_checked number name infos t | Err _ \<Rightarrow> True)) s"
proof (rule wlp_conj)
  have "all_events (\<lambda>ev. named ev = []) (volume_of_disk os number name)"
    unfolding volume_of_disk_def disk_number_def volume_paths_def get_volume_path_names_def Let_def
    by (intro all_events_intros; simp)
  from all_events_wlp [OF this] show "wlp (volume_of_disk os number name) (\<lambda>_ t _. volume_names t = []) s"
    by (rule wlp_mono) (rule volume_names_none)
next
  show "wlp (volume_of_disk os number name) (\<lambda>r t _. case r of
      Ok infos \<Rightarrow> volume_checked number name infos t | Err _ \<Rightarrow> True) s"
  proof (cases "volume_device_path name")
    case (Inl e)
    then show ?thesis by (simp add: volume_of_disk_def wlp_try wlp_rules)
  next
    case (Inr path)
    have extents: "wlp (disk_number os h) (\<lambda>r t _. \<exists>answer.
        t = [Device_Io_Control h IOCTL_VOLUME_GET_VOLUME_DISK_EXTENTS [] answer] \<and> r = read_disk_extents answer) u" for h u
      unfolding disk_number_def device_io_control_def wlp_map by (rule wlp_os_callI) blast
    let ?rest = "\<lambda>r. case r of
         Ok actual \<Rightarrow> if actual = number
           then try_io (volume_paths os name) (\<lambda>points. ok_io [\<lparr>vi_name = name, vi_mount_points = points\<rparr>])
           else ok_io []
       | Err e \<Rightarrow> if is_skippable e then ok_io [] else fail_io e"
    have opened: "wlp (owning os h (bind_io (disk_number os h) ?rest)) (\<lambda>r t _. case r of
        Ok infos \<Rightarrow> volume_checked number name infos (Create_File path 0 (Ok h) # t) | Err _ \<Rightarrow> True) u" for h u
      unfolding owning_def
    proof (rule wlp_bindI [where P = "\<lambda>r t _. case r of
        Ok infos \<Rightarrow> volume_checked number name infos (Create_File path 0 (Ok h) # t) | Err _ \<Rightarrow> True"])
      show "wlp (bind_io (disk_number os h) ?rest) (\<lambda>r t _. case r of
        Ok infos \<Rightarrow> volume_checked number name infos (Create_File path 0 (Ok h) # t) | Err _ \<Rightarrow> True) u"
      proof (rule wlp_bindI [OF extents], elim exE conjE)
        fix r t and v :: "'a sys" and answer
        assume t: "t = [Device_Io_Control h IOCTL_VOLUME_GET_VOLUME_DISK_EXTENTS [] answer]"
          and r: "r = read_disk_extents answer"
        have checked: "volume_checked number name infos (Create_File path 0 (Ok h) # t @ w)"
          if "case r of Ok actual \<Rightarrow> if actual = number
              then \<exists>points. infos = [\<lparr>vi_name = name, vi_mount_points = points\<rparr>] \<and> points_read name points w
              else infos = [] | Err e \<Rightarrow> is_skippable e \<and> infos = []" for infos w
          unfolding volume_checked_def
          by (intro exI [of _ path] exI [of _ h] exI [of _ answer])
            (use that Inr in \<open>auto simp: t r points_read_def split: sum.splits if_splits\<close>)
        show "wlp (?rest r) (\<lambda>r w _. case r of
            Ok infos \<Rightarrow> volume_checked number name infos (Create_File path 0 (Ok h) # t @ w) | Err _ \<Rightarrow> True) v"
          by (cases r) (auto simp: wlp_rules intro!: checked checked [where w = "[]", simplified] wlp_tryI [OF wlp_volume_paths] split: sum.splits)
      qed
    next
      fix r t and v :: "'a sys"
      assume "case r of Ok infos \<Rightarrow> volume_checked number name infos (Create_File path 0 (Ok h) # t) | Err _ \<Rightarrow> True"
      then show "wlp (bind_io (close_handle os h) (\<lambda>_. return_io r)) (\<lambda>r u _. case r of
          Ok infos \<Rightarrow> volume_checked number name infos (Create_File path 0 (Ok h) # t @ u) | Err _ \<Rightarrow> True) v"
        using volume_checked_append(1) [of number name _ "Create_File path 0 (Ok h) # t"]
        by (auto simp: wlp_rules intro: wlp_mono [OF wlp_any] split: sum.splits)
    qed
    have handle: "wlp (io_context c (open_device_wide os path 0)) (\<lambda>r t _. case r of
        Ok h \<Rightarrow> t = [Create_File path 0 (Ok h)] | Err _ \<Rightarrow> True) u" for c u
      unfolding io_context_def wlp_map
      by (rule wlp_mono [OF wlp_open_device_wide]) (auto split: sum.splits)
    show ?thesis
      unfolding volume_of_disk_def Inr
      by (simp add: wlp_try wlp_rules)
        (rule wlp_mono [OF handle], auto simp: wlp_rules intro!: wlp_mono [OF opened] split: sum.splits)
  qed
qed

text \<open>The loop: the names given so far are those checked and the one that is still in the buffer.\<close>

definition enumerating :: "u32 \<Rightarrow> volume_finder \<times> volume_info list \<Rightarrow> os_event list \<Rightarrow> bool" where
  "enumerating number x t \<longleftrightarrow> \<not> vf_finished (fst x) \<and> (\<exists>out.
     volume_names t = map fst out @ (if vf_first (fst x) then names_in (vf_name (fst x)) else [])
     \<and> snd x = concat (map snd out) \<and> list_all (\<lambda>(name, is). volume_checked number name is t) out)"

lemma wlp_finder_next:
  assumes "enumerating number (f, found) T"
  shows "wlp (finder_next os f) (\<lambda>y t _. case y of (item, f') \<Rightarrow> (case item of
       None \<Rightarrow> volumes_found number found (T @ t)
     | Some (Err _) \<Rightarrow> True
     | Some (Ok name) \<Rightarrow> \<not> vf_finished f' \<and> \<not> vf_first f' \<and> (\<exists>out.
         volume_names (T @ t) = map fst out @ [name] \<and> found = concat (map snd out)
         \<and> list_all (\<lambda>(name, is). volume_checked number name is (T @ t)) out))) s"
proof -
  from assms obtain out where going: "\<not> vf_finished f"
    and names: "volume_names T = map fst out @ (if vf_first f then names_in (vf_name f) else [])"
    and found: "found = concat (map snd out)"
    and checked: "list_all (\<lambda>(name, is). volume_checked number name is T) out"
    unfolding enumerating_def by auto
  have more: "list_all (\<lambda>(name, is). volume_checked number name is (T @ t)) out" for t
    using checked by (rule list.pred_mono_strong) (auto intro: volume_checked_append)
  show ?thesis
  proof (cases "vf_first f")
    case True
    with going names found checked show ?thesis
      by (cases "wide_from_buffer (vf_name f)")
        (auto simp: finder_next_def finder_yield_def wlp_rules names_in_def map_err_def)
  next
    case False
    have last: "volumes_found number found (T @ [Find_Next_Volume h (Err ERROR_NO_MORE_FILES)])" for h
      unfolding volumes_found_def
      using names False found more by (intro exI [of _ out] exI [of _ h]) (simp add: volume_names_def)
    have next_name: "\<exists>out. volume_names (T @ [Find_Next_Volume h (Ok units)]) = map fst out @ [name]
         \<and> found = concat (map snd out)
         \<and> list_all (\<lambda>(name, is). volume_checked number name is (T @ [Find_Next_Volume h (Ok units)])) out"
      if "wide_from_buffer (overlay (replicate 1024 0) units) = Ok name" for h units name
      using names False found more that by (intro exI [of _ out]) (simp add: names_in_def)
    show ?thesis
      unfolding finder_next_def using going False
      by (auto simp: wlp_rules finder_yield_def map_err_def last intro!: wlp_os_callI next_name [simplified]
          split: sum.splits option.splits)
  qed
qed

lemma wlp_volumes_round:
  assumes I: "enumerating number x T"
  shows "wlp (volumes_round os number x) (\<lambda>r t _. case r of
       Continue x' \<Rightarrow> enumerating number x' (T @ t)
     | Break b \<Rightarrow> (case b of Ok infos \<Rightarrow> volumes_found number infos (T @ t) | Err _ \<Rightarrow> True)) s"
proof -
  obtain f found where x: "x = (f, found)" by (cases x)
  show ?thesis
    unfolding x volumes_round_def prod.case
  proof (rule wlp_bindI [OF wlp_finder_next [OF I [unfolded x]]])
    fix y :: "wstr result option \<times> volume_finder" and t and v :: "'a sys"
    assume y: "case y of (item, f') \<Rightarrow> (case item of
       None \<Rightarrow> volumes_found number found (T @ t)
     | Some (Err _) \<Rightarrow> True
     | Some (Ok name) \<Rightarrow> \<not> vf_finished f' \<and> \<not> vf_first f' \<and> (\<exists>out.
         volume_names (T @ t) = map fst out @ [name] \<and> found = concat (map snd out)
         \<and> list_all (\<lambda>(name, is). volume_checked number name is (T @ t)) out))"
    obtain item f' where yy: "y = (item, f')" by (cases y)
    have one: "enumerating number (f', found @ is) (T @ t @ w)"
      if name: "item = Some (Ok name)" and w: "volume_names w = []" "volume_checked number name is w" for name "is" w
    proof -
      from y [unfolded yy name] obtain out where out: "\<not> vf_finished f'" "\<not> vf_first f'"
        "volume_names (T @ t) = map fst out @ [name]" "found = concat (map snd out)"
        "list_all (\<lambda>(name, is). volume_checked number name is (T @ t)) out" by auto
      have "list_all (\<lambda>(name, is). volume_checked number name is ((T @ t) @ w)) (out @ [(name, is)])"
        using out(5) w(2) by (auto simp: list_all_iff simp del: append_assoc intro: volume_checked_append)
      then show ?thesis
        unfolding enumerating_def using out w(1) by (intro conjI exI [of _ "out @ [(name, is)]"]) simp_all
    qed
    show "wlp (case y of (item, f') \<Rightarrow> (case item of
         None \<Rightarrow> return_io (Break (Ok found))
       | Some (Err e) \<Rightarrow> return_io (Break (Err e))
       | Some (Ok name) \<Rightarrow> bind_io (volume_of_disk os number name) (\<lambda>r. return_io (case r of
           Err e \<Rightarrow> Break (Err e) | Ok vs \<Rightarrow> Continue (f', found @ vs)))))
      (\<lambda>r u _. case r of
         Continue x' \<Rightarrow> enumerating number x' (T @ t @ u)
       | Break b \<Rightarrow> (case b of Ok infos \<Rightarrow> volumes_found number infos (T @ t @ u) | Err _ \<Rightarrow> True)) v"
      using y one unfolding yy
      by (auto simp: wlp_rules intro!: wlp_mono [OF wlp_volume_of_disk] split: option.splits sum.splits)
  qed
qed

lemma volumes_found_more:
  "volumes_found number infos t \<Longrightarrow> volume_names u = [] \<Longrightarrow> volumes_found number infos (t @ u)"
  unfolding volumes_found_def
  by (elim exE conjE, rule_tac x = out in exI, rule_tac x = h in exI)
    (auto simp: list_all_iff intro: volume_checked_append)

lemma wlp_volumes_for_disk:
  "wlp (volumes_for_disk os number) (\<lambda>r t _. case r of Ok infos \<Rightarrow> volumes_found number infos t | Err _ \<Rightarrow> True) s"
proof -
  have started: "wlp (finder_new os) (\<lambda>r t _. case r of Ok f \<Rightarrow> enumerating number (f, []) t | Err _ \<Rightarrow> True) s"
    unfolding finder_new_def
    by (auto simp: wlp_rules enumerating_def intro!: wlp_os_callI split: sum.splits)
  show ?thesis
    unfolding volumes_for_disk_def
  proof (rule wlp_tryI [OF started], simp)
    fix f t and u :: "'a sys"
    assume "case Ok f of Ok f \<Rightarrow> enumerating number (f, []) t | Err _ \<Rightarrow> True"
    then have I: "enumerating number (f, []) t" by simp
    have loop: "wlp (loop_io (volumes_round os number) (f, [])) (\<lambda>b u _. case b of
        Ok infos \<Rightarrow> volumes_found number infos (t @ u) | Err _ \<Rightarrow> True) u"
      by (rule wlp_loop [where I = "\<lambda>x T _. enumerating number x T" and T = t, OF wlp_volumes_round I])
    show "wlp (bind_io (loop_io (volumes_round os number) (f, [])) (\<lambda>result.
        bind_io (finder_drop os f) (\<lambda>_. return_io result)))
      (\<lambda>r u _. case r of Ok infos \<Rightarrow> volumes_found number infos (t @ u) | Err _ \<Rightarrow> True) u"
    proof (rule wlp_bindI [OF loop])
      fix b w and v :: "'a sys"
      assume "case b of Ok infos \<Rightarrow> volumes_found number infos (t @ w) | Err _ \<Rightarrow> True"
      then show "wlp (bind_io (finder_drop os f) (\<lambda>_. return_io b)) (\<lambda>r x _. case r of
          Ok infos \<Rightarrow> volumes_found number infos (t @ w @ x) | Err _ \<Rightarrow> True) v"
        using volumes_found_more [of number _ "t @ w"]
        by (auto simp: wlp_rules finder_drop_def volume_names_def intro!: wlp_os_callI split: sum.splits)
    qed
  qed
qed

text \<open>A volume as \<open>volume_open\<close> returns it: of the disk, not locked, no mount removed.\<close>

definition opened_on :: "u32 \<Rightarrow> os_event list \<Rightarrow> volume \<Rightarrow> bool" where
  "opened_on number t v \<longleftrightarrow> shows_disk (vo_handle v) number t \<and> vo_removed v = [] \<and> \<not> vo_locked v"

lemma opened_on_append:
  "opened_on number t v \<Longrightarrow> opened_on number (t @ u) v"
  "opened_on number u v \<Longrightarrow> opened_on number (t @ u) v"
  by (auto simp: opened_on_def shows_append)

lemma wlp_volume_open:
  "wlp (volume_open os info number) (\<lambda>r t _. case r of
     Ok v \<Rightarrow> opened_on number t v \<and> vo_name v = vi_name info \<and> vo_mount_points v = vi_mount_points info
   | Err _ \<Rightarrow> True) s"
proof -
  have "wlp (bind_io (disk_number os h) (\<lambda>r.
       if r = Ok number
       then ok_io \<lparr>vo_name = vi_name info, vo_mount_points = vi_mount_points info, vo_handle = h,
         vo_locked = False, vo_removed = []\<rparr>
       else bind_io (close_handle os h) (\<lambda>_. fail_io (case r of
         Err e \<Rightarrow> e | Ok _ \<Rightarrow> Msg (lit ''volume changed disk identity before deletion'')))))
    (\<lambda>r u _. case r of
       Ok v \<Rightarrow> opened_on number (t @ u) v \<and> vo_name v = vi_name info
         \<and> vo_mount_points v = vi_mount_points info
     | Err _ \<Rightarrow> True) s'" for h t s'
    by (rule wlp_bindI [OF wlp_disk_number])
      (auto simp: wlp_rules opened_on_def shows_append close_handle_def intro!: wlp_os_callI)
  note tail = this
  show ?thesis
    unfolding volume_open_def
  proof (rule wlp_tryI [OF wlp_any], goal_cases)
    case (2 path t s')
    show ?case
    proof (rule wlp_tryI [OF wlp_any], goal_cases)
      case (2 h u s'')
      then show ?case using tail [where t = "t @ u", unfolded append_assoc] by simp
    qed simp
  qed simp
qed

lemma wlp_open_volumes:
  "list_all (opened_on number t) vs \<Longrightarrow> wlp (open_volumes os number infos vs) (\<lambda>r u _. case r of
     Ok ws \<Rightarrow> list_all (opened_on number (t @ u)) ws \<and> map vo_name ws = map vo_name vs @ map vi_name infos
       \<and> map vo_mount_points ws = map vo_mount_points vs @ map vi_mount_points infos
   | Err _ \<Rightarrow> True) s"
proof (induction infos arbitrary: vs t s)
  case Nil
  then show ?case by (simp add: wlp_rules)
next
  case (Cons info infos)
  show ?case
    unfolding open_volumes.simps
  proof (rule wlp_bindI [OF wlp_volume_open])
    fix r :: "volume result" and u and s' :: "'a sys"
    assume r: "case r of Ok v \<Rightarrow> opened_on number u v \<and> vo_name v = vi_name info
        \<and> vo_mount_points v = vi_mount_points info | Err _ \<Rightarrow> True"
    show "wlp (case r of
         Err e \<Rightarrow> bind_io (drop_volumes os vs) (\<lambda>_. fail_io e)
       | Ok v \<Rightarrow> open_volumes os number infos (vs @ [v]))
      (\<lambda>r u' _. case r of
         Ok ws \<Rightarrow> list_all (opened_on number (t @ u @ u')) ws
           \<and> map vo_name ws = map vo_name vs @ map vi_name (info # infos)
           \<and> map vo_mount_points ws = map vo_mount_points vs @ map vi_mount_points (info # infos)
       | Err _ \<Rightarrow> True) s'"
    proof (cases r)
      case (Inl e)
      then show ?thesis by simp
    next
      case (Inr v)
      with r Cons.prems have "list_all (opened_on number (t @ u)) (vs @ [v])"
        by (auto simp: list_all_iff opened_on_append)
      from Cons.IH [OF this] r Inr show ?thesis by (simp cong: sum.case_cong)
    qed
  qed
qed

text \<open>All volumes of the disk, opened on it, and the disk is at the location.\<close>

definition opened_all :: "u32 \<Rightarrow> scsi_location \<Rightarrow> volume list \<Rightarrow> os_event list \<Rightarrow> bool" where
  "opened_all number location vs t \<longleftrightarrow> (\<exists>infos t1 t2. t = t1 @ t2 \<and> volumes_found number infos t1
     \<and> map vo_name vs = map vi_name infos \<and> map vo_mount_points vs = map vi_mount_points infos
     \<and> list_all (opened_on number t2) vs \<and> shows_location number location t2)"

lemma wlp_deletion_open_all:
  "wlp (deletion_open os number location) (\<lambda>r t s'. case r of
     Ok vs \<Rightarrow> opened_all number location vs t | Err _ \<Rightarrow> True) s"
proof -
  have tail: "wlp (bind_io (verify_physical_disk_location os number location) (\<lambda>r. case r of
       Err e \<Rightarrow> bind_io (drop_volumes os vs) (\<lambda>_. fail_io e) | Ok _ \<Rightarrow> ok_io vs))
    (\<lambda>r u _. case r of Ok vs \<Rightarrow> opened_all number location vs (t1 @ t @ u) | Err _ \<Rightarrow> True) s'"
    if "volumes_found number infos t1" "list_all (opened_on number t) vs" "map vo_name vs = map vi_name infos"
      "map vo_mount_points vs = map vi_mount_points infos" for infos t1 vs t s'
  proof -
    have "opened_all number location vs (t1 @ t @ u)" if "shows_location number location u" for u
      unfolding opened_all_def
      by (intro exI [of _ infos] exI [of _ t1] exI [of _ "t @ u"])
        (use that \<open>volumes_found number infos t1\<close> \<open>list_all (opened_on number t) vs\<close>
          \<open>map vo_name vs = map vi_name infos\<close> \<open>map vo_mount_points vs = map vi_mount_points infos\<close> in
          \<open>auto simp: shows_append opened_on_append list_all_iff\<close>)
    then show ?thesis
      by (intro wlp_bindI [OF wlp_verify_location]) (auto simp: wlp_ok_fail split: sum.splits)
  qed
  show ?thesis
    unfolding deletion_open_def
  proof (rule wlp_tryI [OF wlp_volumes_for_disk], goal_cases)
    case (2 infos t s')
    show ?case
    proof (rule wlp_tryI [OF wlp_open_volumes [where t = "[]" and vs = "[]"]], goal_cases)
      case (3 vs u s'')
      with 2 show ?case using tail [of infos t u vs] by simp
    qed simp_all
  qed simp
qed

lemma wlp_deletion_open:
  "wlp (deletion_open os number location) (\<lambda>r t s'. case r of
     Ok vs \<Rightarrow> list_all (opened_on number t) vs \<and> shows_location number location t
   | Err _ \<Rightarrow> True) s"
  by (rule wlp_mono [OF wlp_deletion_open_all])
    (auto simp: opened_all_def list_all_iff shows_append opened_on_append split: sum.splits)

text \<open>
  C23. Opening the volumes of a disk for deletion: every volume that is handed on was opened
  unlocked and with all its mounts in place, and its own extents, read through the handle that is
  kept, name the disk and no other; and after all of them are open the disk number still belongs
  to the SCSI location that is to be deleted.
\<close>

theorem deletion_open_verifies_disk:
  "wlp (deletion_open os number location) (\<lambda>r t s'. case r of
     Ok vs \<Rightarrow> list_all (opened_on number t) vs \<and> shows_location number location t
   | Err _ \<Rightarrow> True) s"
  by (rule wlp_deletion_open)

lemma deletion_open_fresh:
  "wlp (deletion_open os number location) (\<lambda>r _ _. case r of
     Ok vs \<Rightarrow> list_all (\<lambda>v. vo_removed v = []) vs | Err _ \<Rightarrow> True) s"
  by (rule wlp_mono [OF wlp_deletion_open])
    (auto simp: opened_on_def list_all_iff split: sum.splits)

section \<open>The whole deletion\<close>

text \<open>
  C15. Preparing the volumes of a disk for deletion: first locks, then dismounts, then removals of
  mount points. A dismount or a removal is only attempted when every volume's lock was tried and
  succeeded (or force is given), and a removal only when every volume was dismounted. The
  preparation succeeds only when each volume was dismounted and exactly the mount points of all
  volumes were removed, and the removed ones are remembered for the restoration.
\<close>

theorem preparation_order:
  "wlp (prepare_deletion os vs force) (\<lambda>x t s'. \<exists>ls ds us. actions_of t = ls @ ds @ us
     \<and> list_all is_locking ls \<and> list_all is_dismounting ds \<and> list_all is_unmounting us
     \<and> (ds @ us = [] \<or> (\<exists>oks. ls = map2 (\<lambda>v ok. Locks (vo_handle v) ok) vs oks
          \<and> length oks = length vs \<and> (force \<or> list_all (\<lambda>b. b) oks)))
     \<and> (us = [] \<or> ds = map (\<lambda>v. Dismounts (vo_handle v) True) vs)
     \<and> (case snd x of
          Ok _ \<Rightarrow> ds = map (\<lambda>v. Dismounts (vo_handle v) True) vs \<and> list_all succeeded us
            \<and> unmounted us = concat (map vo_mount_points vs)
        | Err _ \<Rightarrow> True)
     \<and> (list_ex (\<lambda>v. vo_removed v \<noteq> []) vs
        \<or> concat (map vo_removed (fst x)) = unmounted (actions_of t))) s"
proof (rule wlp_mono [OF wlp_prepare_deletion])
  fix x t and s' :: "'a sys"
  assume x: "prepares force vs x t"
  then obtain ls ds us where a: "actions_of t = ls @ ds @ us"
     "list_all is_locking ls \<and> list_all is_dismounting ds \<and> list_all is_unmounting us"
     "ds @ us = [] \<or> (\<exists>oks. ls = map2 (\<lambda>v ok. Locks (vo_handle v) ok) vs oks
          \<and> length oks = length vs \<and> (force \<or> list_all (\<lambda>b. b) oks))"
     "us = [] \<or> ds = map (\<lambda>v. Dismounts (vo_handle v) True) vs"
     "case snd x of Ok _ \<Rightarrow> ds = map (\<lambda>v. Dismounts (vo_handle v) True) vs \<and> list_all succeeded us
        \<and> unmounted us = concat (map vo_mount_points vs) | Err _ \<Rightarrow> True"
    unfolding prepares_def by (cases "snd x") auto
  have "list_ex (\<lambda>v. vo_removed v \<noteq> []) vs \<or> concat (map vo_removed (fst x)) = unmounted (actions_of t)"
    using x by (auto simp: prepares_def list_all_iff list_ex_iff)
  with a show "\<exists>ls ds us. actions_of t = ls @ ds @ us
     \<and> list_all is_locking ls \<and> list_all is_dismounting ds \<and> list_all is_unmounting us
     \<and> (ds @ us = [] \<or> (\<exists>oks. ls = map2 (\<lambda>v ok. Locks (vo_handle v) ok) vs oks
          \<and> length oks = length vs \<and> (force \<or> list_all (\<lambda>b. b) oks)))
     \<and> (us = [] \<or> ds = map (\<lambda>v. Dismounts (vo_handle v) True) vs)
     \<and> (case snd x of
          Ok _ \<Rightarrow> ds = map (\<lambda>v. Dismounts (vo_handle v) True) vs \<and> list_all succeeded us
            \<and> unmounted us = concat (map vo_mount_points vs)
        | Err _ \<Rightarrow> True)
     \<and> (list_ex (\<lambda>v. vo_removed v \<noteq> []) vs
        \<or> concat (map vo_removed (fst x)) = unmounted (actions_of t))"
    by blast
qed

text \<open>Quiet steps before the preparation change nothing of it.\<close>

lemma quiet_try:
  fixes f :: "'b \<Rightarrow> ('w, unit result) sys_io"
  assumes m: "all_events quiet m" and P: "wlp m P s"
    and f: "\<And>a t s'. P (Ok a) t s' \<Longrightarrow> wlp (f a) (\<lambda>r t _. restores_exactly r t) s'"
  shows "wlp (try_io m f) (\<lambda>r t _. restores_exactly r t) s"
proof (rule wlp_tryI [OF wlp_conj [OF quiet_wlp [OF m] P]], elim conjE)
  fix a q and s' :: "'w sys"
  assume q: "list_all quiet q \<and> P (Ok a) q s'"
  then show "wlp (f a) (\<lambda>r t _. restores_exactly r (q @ t)) s'"
    using quiet_prefix [of q] by (intro wlp_mono [OF f]) auto
qed (auto intro: quiet_alone)

lemma wlp_allocation_restores:
  "wlp (delete_allocation os a inst ident force) (\<lambda>r t _. restores_exactly r t) s"
proof -
  have failed: "wlp (fail_io e) (\<lambda>r t _. restores_exactly r t) u" for e :: error and u :: "'a sys"
    by (simp add: wlp_rules quiet_alone)
  show ?thesis
    unfolding delete_allocation_def Let_def
    by (intro quiet_try [OF quiet_exchanges(3) wlp_any] quiet_try [OF all_events_return wlp_any]
        quiet_try [OF quiet_waits(1) wlp_any] quiet_try [OF quiet_deletion_open deletion_open_fresh]
        wlp_ifI failed wlp_mono [OF wlp_delete_prepared]) simp_all
qed

text \<open>
  What must have happened before a delete request: the adapter answered an inventory in which the
  disk is online; all volumes of the disk at that location were found and opened, and their disk is
  the one at the location; and all of them were prepared.
\<close>

definition target_listed :: "adapter \<Rightarrow> u64 \<Rightarrow> u32 \<Rightarrow> scsi_location \<Rightarrow> os_event list \<Rightarrow> bool" where
  "target_listed a inst ident location t \<longleftrightarrow> (\<exists>st entry. heard (ad_handle a) list_state_op t st
     \<and> sr_adapter_instance st = inst \<and> entry \<in> set (live_disks st)
     \<and> di_device_id (ds_disk entry) = ident \<and> ds_state entry = 1 \<and> location = disk_location a entry)"

definition deletes_prepared :: "adapter \<Rightarrow> u64 \<Rightarrow> u32 \<Rightarrow> bool \<Rightarrow> os_event list \<Rightarrow> bool" where
  "deletes_prepared a inst ident force t \<longleftrightarrow> requests_of Delete_Reserved t = []
     \<or> (\<exists>location number vs t0 t1 t2 t3. t = t0 @ t1 @ t2 @ t3
          \<and> requests_of Delete_Reserved (t0 @ t1 @ t2) = []
          \<and> target_listed a inst ident location t0 \<and> opened_all number location vs t1
          \<and> actions_of (t0 @ t1) = [] \<and> fully_prepared force vs (actions_of t2)
          \<and> list_all (\<lambda>a. is_mounting a \<or> is_unlocking a) (actions_of t3))"

lemma prepared_deletes:
  assumes "prepared_first force vs t" and "opened_all number location vs u"
    and "target_listed a inst ident location q" and "list_all quiet (q @ u)"
  shows "deletes_prepared a inst ident force (q @ u @ t)"
proof (cases "requests_of Delete_Reserved t = []")
  case True
  with quiet_trace [OF assms(4)] show ?thesis by (simp add: deletes_prepared_def)
next
  case False
  with assms(1) obtain t1 t2 where t: "t = t1 @ t2" "requests_of Delete_Reserved t1 = []"
    "fully_prepared force vs (actions_of t1)" "list_all (\<lambda>a. is_mounting a \<or> is_unlocking a) (actions_of t2)"
    unfolding prepared_first_def by blast
  then show ?thesis
    unfolding deletes_prepared_def using assms(2,3) quiet_trace [OF assms(4)]
    by (intro disjI2 exI [of _ location] exI [of _ number] exI [of _ vs] exI [of _ q] exI [of _ u]
        exI [of _ t1] exI [of _ t2]) simp
qed

lemma wlp_delete_allocation:
  "wlp (delete_allocation os a inst ident force) (\<lambda>_ t _. deletes_prepared a inst ident force t) s"
proof -
  have none: "deletes_prepared a inst ident force t" if "list_all quiet t" for t
    using quiet_trace [OF that] by (simp add: deletes_prepared_def)
  have refused: "wlp (fail_io e) (\<lambda>_ t _. deletes_prepared a inst ident force (q @ t)) u"
    if "list_all quiet q" for q and e :: error and u :: "'a sys"
    using none [OF that] by (simp add: wlp_rules)
  show ?thesis
    unfolding delete_allocation_def Let_def
  proof (rule wlp_tryI [OF wlp_conj [OF quiet_wlp [OF quiet_exchanges(3)] state_heard]], goal_cases)
    case (2 st q u)
    then have q: "list_all quiet q" and st: "heard (ad_handle a) list_state_op q st" by auto
    show ?case
    proof (intro wlp_ifI refused q, rule wlp_tryI [OF wlp_run], goal_cases)
      case (2 entry t u')
      then have t: "t = []"
        and entry: "find (\<lambda>e. di_device_id (ds_disk e) = ident) (live_disks st) = Some entry"
        by (auto simp: return_io_def ok_or_def split: option.splits)
      have found: "entry \<in> set (live_disks st)" "di_device_id (ds_disk entry) = ident"
        using entry by (auto simp: find_Some_iff)
      show ?case
        unfolding t append_Nil
      proof (intro wlp_ifI refused q, rule wlp_tryI [OF quiet_wlp [OF quiet_waits(1)]], goal_cases)
        case (2 number t u2)
        then have qt: "list_all quiet (q @ t)" using q by simp
        show ?case
        proof (rule wlp_tryI [OF wlp_conj [OF quiet_wlp [OF quiet_deletion_open] wlp_deletion_open_all]], goal_cases)
          case (2 vs v u3)
          then have v: "list_all quiet v" "opened_all number (disk_location a entry) vs v" by auto
          have "list_all (\<lambda>v. vo_removed v = []) vs"
            using v(2) by (auto simp: opened_all_def opened_on_def list_all_iff)
          then have "wlp (delete_prepared os a inst ident force number (disk_location a entry) vs)
              (\<lambda>r t _. prepared_first force vs t \<and> restores_exactly r t) u3"
            by (rule wlp_delete_prepared)
          moreover have "target_listed a inst ident (disk_location a entry) (q @ t)"
            unfolding target_listed_def
            using st found \<open>\<not> sr_adapter_instance st \<noteq> inst\<close> \<open>\<not> ds_state entry \<noteq> 1\<close> by auto
          note prepared_deletes [OF _ v(2) this]
          ultimately show ?case
            using qt v(1) by (elim wlp_mono) simp
        qed (use qt none in simp)
      qed (use q none in simp)
    qed (use q none in \<open>simp add: return_io_def\<close>)
  qed (use none in simp)
qed

text \<open>
  C24. Restoration is all or nothing, and never after the disk may be gone: deleting an allocation
  attempts to mount again either every mount point it removed, each in the order of removal, or
  none; none after a success, and none when the outcome of the deletion is unresolved.
\<close>

theorem restoration_all_or_nothing:
  "wlp (delete_allocation os a inst ident force) (\<lambda>r t s'.
     (mounted (actions_of t) = [] \<or> map fst (mounted (actions_of t)) = unmounted (actions_of t))
     \<and> (case r of
          Ok _ \<Rightarrow> mounted (actions_of t) = []
        | Err e \<Rightarrow> downcast_unresolved e = None \<or> mounted (actions_of t) = [])) s"
  by (rule wlp_mono [OF wlp_allocation_restores]) (simp add: restores_exactly_def Let_def)

section \<open>What a deletion asks of the driver\<close>

text \<open>
  All delete requests of a run are one request for the device, on the adapter instance that was
  asked for, and nothing is created.
\<close>

definition deletes_only :: "u64 \<Rightarrow> u32 \<Rightarrow> os_event list \<Rightarrow> bool" where
  "deletes_only inst ident t \<longleftrightarrow> requests_of Create_Reserved t = []
     \<and> (\<exists>h q n. requests_of Delete_Reserved t = replicate n (request_buffer delete_reserved_op q)
          \<and> deletes h ident q \<and> oh_instance h = inst)"

definition asks_nothing :: "os_event list \<Rightarrow> bool" where
  "asks_nothing t \<longleftrightarrow> requests_of Create_Reserved t = [] \<and> requests_of Delete_Reserved t = []"

lemma asks_nothing_quiet: "list_all quiet t \<Longrightarrow> asks_nothing t"
  by (simp add: asks_nothing_def quiet_trace)

lemma some_delete: "\<exists>h q. deletes h ident q \<and> oh_instance h = inst"
  by (rule exI [of _ "\<lparr>oh_instance = inst, oh_id = 0\<rparr>"],
      rule exI [of _ "\<lparr>rd_operation = \<lparr>oq_header = undefined, oq_adapter_instance = inst, oq_operation_id = 0\<rparr>,
        rd_device_id = ident, rd_reserved = 0\<rparr>"])
    (simp add: deletes_def)

lemma deletes_only_nothing: "asks_nothing t \<Longrightarrow> deletes_only inst ident t"
  unfolding deletes_only_def asks_nothing_def using some_delete [of ident inst]
  by (metis replicate_0)

lemma deletes_only_around:
  "asks_nothing t \<Longrightarrow> asks_nothing v \<Longrightarrow> deletes_only inst ident u \<Longrightarrow> deletes_only inst ident (t @ u @ v)"
  by (simp add: deletes_only_def asks_nothing_def)

lemma wlp_asks_nothing:
  "wlp (prepare_deletion os vs force) (\<lambda>_ t _. asks_nothing t) s"
  "wlp (deletion_restore os vs) (\<lambda>_ t _. asks_nothing t) s"
  unfolding asks_nothing_def
  by (intro wlp_conj prepares_quiet_requests restore_quiet_requests)+

lemma wlp_quiet_asks: "all_events quiet m \<Longrightarrow> wlp m (\<lambda>_ t _. asks_nothing t) s"
  by (erule wlp_mono [OF quiet_wlp], rule asks_nothing_quiet)

lemma wlp_asks_bind:
  "wlp m (\<lambda>_ t _. asks_nothing t) s \<Longrightarrow> (\<And>a s. wlp (f a) (\<lambda>_ t _. asks_nothing t) s) \<Longrightarrow>
    wlp (bind_io m f) (\<lambda>_ t _. asks_nothing t) s"
  unfolding wlp_bind by (erule wlp_mono) (auto simp: asks_nothing_def intro: wlp_mono)

lemma wlp_delete_by_id_requests:
  "wlp (delete_by_id os a inst ident) (\<lambda>_ t _. deletes_only inst ident t) s"
proof (rule wlp_mono [OF wlp_delete_by_id], elim exE conjE)
  fix r t s' h q n
  assume "requests_of Delete_Reserved t = replicate n (request_buffer delete_reserved_op q)"
    "deletes h ident q" "n = 0 \<or> oh_instance h = inst" "requests_of Create_Reserved t = []"
  then show "deletes_only inst ident t"
    by (cases "n = 0") (simp add: asks_nothing_def deletes_only_nothing, auto simp: deletes_only_def)
qed

lemma wlp_deletes_only_try:
  assumes "wlp m (\<lambda>_ t _. asks_nothing t) s"
    and "\<And>a s. wlp (f a) (\<lambda>_ t _. deletes_only inst ident t) s"
  shows "wlp (try_io m f) (\<lambda>_ t _. deletes_only inst ident t) s"
proof (rule wlp_tryI [OF assms(1)], goal_cases)
  case (2 a t s')
  then show ?case
    by (intro wlp_mono [OF assms(2)]) (simp add: deletes_only_def asks_nothing_def)
qed (rule deletes_only_nothing)

lemma wlp_deletes_only_first:
  assumes "wlp m (\<lambda>_ t _. asks_nothing t) s"
    and "\<And>a s. wlp (f a) (\<lambda>_ t _. deletes_only inst ident t) s"
  shows "wlp (bind_io m f) (\<lambda>_ t _. deletes_only inst ident t) s"
proof (rule wlp_bindI [OF assms(1)])
  fix a t s' assume "asks_nothing t"
  then show "wlp (f a) (\<lambda>_ u _. deletes_only inst ident (t @ u)) s'"
    by (intro wlp_mono [OF assms(2)]) (simp add: deletes_only_def asks_nothing_def)
qed

lemma wlp_nothing_deleted:
  "wlp m (\<lambda>_ t _. asks_nothing t) s \<Longrightarrow> wlp m (\<lambda>_ t _. deletes_only inst ident t) s"
  by (erule wlp_mono, rule deletes_only_nothing)

lemma wlp_deletes_only_bind:
  assumes "wlp m (\<lambda>_ t _. deletes_only inst ident t) s"
    and "\<And>a s. wlp (f a) (\<lambda>_ t _. asks_nothing t) s"
  shows "wlp (bind_io m f) (\<lambda>_ t _. deletes_only inst ident t) s"
proof (rule wlp_bindI [OF assms(1)])
  fix a t s' assume "deletes_only inst ident t"
  then show "wlp (f a) (\<lambda>_ u _. deletes_only inst ident (t @ u)) s'"
    by (intro wlp_mono [OF assms(2)]) (simp add: deletes_only_def asks_nothing_def)
qed

lemma wlp_delete_allocation_requests:
  "wlp (delete_allocation os a inst ident force) (\<lambda>_ t _. deletes_only inst ident t) s"
proof -
  have restored: "wlp (bind_io (deletion_restore os vs) (\<lambda>x. bind_io (drop_volumes os (fst x))
      (\<lambda>_. fail_io (f (snd x))))) (\<lambda>_ t _. asks_nothing t) s'"
    for vs and f :: "unit result \<Rightarrow> error" and s' :: "'a sys"
    by (intro wlp_asks_bind wlp_asks_nothing(2) wlp_quiet_asks all_events_intros)
  have still: "all_events quiet (still_online os a inst ident e)" for e
    unfolding still_online_def by (intro all_events_intros)
  have prepared: "wlp (delete_prepared os a inst ident force number location volumes)
      (\<lambda>_ t _. deletes_only inst ident t) s'" for number location volumes s'
    unfolding delete_prepared_def case_prod_beta
    by (intro wlp_deletes_only_first [OF wlp_asks_nothing(1)] wlp_case_sumI
        wlp_nothing_deleted [OF restored] wlp_deletes_only_bind [OF wlp_delete_by_id_requests]
        wlp_asks_bind wlp_quiet_asks [OF still] wlp_ifI restored wlp_quiet_asks) (intro all_events_intros)+
  show ?thesis
    unfolding delete_allocation_def Let_def
    by (intro wlp_deletes_only_try wlp_quiet_asks quiet_exchanges quiet_waits quiet_deletion_open prepared
        wlp_ifI wlp_nothing_deleted all_events_return all_events_ok_fail)
qed

text \<open>A deletion that succeeds is confirmed: the driver said so, and its inventory is without the device.\<close>

lemma wlp_allocation_confirms:
  "wlp (delete_allocation os a inst ident force) (\<lambda>r t s'. case r of
     Ok _ \<Rightarrow> deletion_confirmed a inst ident t | Err _ \<Rightarrow> True) s"
proof -
  let ?Q = "\<lambda>(r :: unit result) t. case r of Ok _ \<Rightarrow> deletion_confirmed a inst ident t | Err _ \<Rightarrow> True"
  have more: "?Q r (q @ t)" if "?Q r t" for r q t
    using that deletion_confirmed_around [of a inst ident t q "[]"] by (cases r) simp_all
  have first: "wlp (bind_io m f) (\<lambda>r t _. ?Q r t) u" if "\<And>x v. wlp (f x) (\<lambda>r t _. ?Q r t) v"
    for m :: "('a, 'b) sys_io" and f :: "'b \<Rightarrow> ('a, unit result) sys_io" and u
    by (rule wlp_bindI [OF wlp_any]) (rule wlp_mono [OF that], rule more)
  have failed: "wlp (fail_io e) (\<lambda>r t _. ?Q r t) u" for e :: error and u :: "'a sys" by (simp add: wlp_rules)
  have gone: "wlp (bind_io (drop_volumes os vs) (\<lambda>_. context_io c (wait_for_physical_disk_absent os number location w)))
      (\<lambda>r t _. ?Q r (d @ t)) u" if "deletion_confirmed a inst ident d" for vs c number location w d u
    by (rule wlp_mono [OF wlp_any])
      (use deletion_confirmed_around [OF that, of "[]"] in \<open>auto split: sum.split\<close>)
  have deleted: "wlp (bind_io (delete_by_id os a inst ident) (\<lambda>deleted. case deleted of
        Err e \<Rightarrow> bind_io (still_online os a inst ident e) (\<lambda>online.
          if online then bind_io (deletion_restore os vs) (\<lambda>x. bind_io (drop_volumes os (fst x)) (\<lambda>_. fail_io (g e x)))
          else bind_io (drop_volumes os vs) (\<lambda>_. fail_io (h e)))
      | Ok _ \<Rightarrow> bind_io (drop_volumes os vs) (\<lambda>_. context_io c (wait_for_physical_disk_absent os number location w))))
      (\<lambda>r t _. ?Q r t) u" for vs g h c number location w u
  proof (rule wlp_bindI [OF delete_confirmed], rule wlp_case_sumI)
    fix deleted :: "unit result" and d and v :: "'a sys" and e
    have "wlp (bind_io (still_online os a inst ident e) (\<lambda>online.
          if online then bind_io (deletion_restore os vs) (\<lambda>x. bind_io (drop_volumes os (fst x)) (\<lambda>_. fail_io (g e x)))
          else bind_io (drop_volumes os vs) (\<lambda>_. fail_io (h e)))) (\<lambda>r t _. ?Q r t) v"
      by (intro wlp_ifI first failed)
    then show "wlp (bind_io (still_online os a inst ident e) (\<lambda>online.
          if online then bind_io (deletion_restore os vs) (\<lambda>x. bind_io (drop_volumes os (fst x)) (\<lambda>_. fail_io (g e x)))
          else bind_io (drop_volumes os vs) (\<lambda>_. fail_io (h e)))) (\<lambda>r t _. ?Q r (d @ t)) v"
      by (rule wlp_mono) (rule more)
  qed (rule gone, simp)
  show ?thesis
    unfolding delete_allocation_def Let_def try_io_def delete_prepared_def case_prod_beta
    by (intro first wlp_case_sumI wlp_ifI failed failed [unfolded fail_io_def] deleted)
qed


end
