(* ===== verification/Provisioning.thy ===== *)
theory Provisioning
  imports Removal
begin

text \<open>
  disk/provisioning.rs: preparing and formatting a new disk through Storage WMI. The provider is
  part of the operating-system parameter; its rows arrive as the records of System.thy, and a
  failing call carries the text of the \<open>WMIError\<close>. \<open>StorageWmi\<close> holds nothing but the connection,
  so its methods take the operating system alone.
\<close>

section \<open>Constants and names\<close>

definition PARTITION_STYLE_RAW :: u16 where "PARTITION_STYLE_RAW = 0"
definition PARTITION_STYLE_MBR :: u16 where "PARTITION_STYLE_MBR = 1"
definition MBR_TYPE_FAT16 :: u16 where "MBR_TYPE_FAT16 = 4"
definition MBR_TYPE_IFS :: u16 where "MBR_TYPE_IFS = 7"
definition MBR_TYPE_FAT32 :: u16 where "MBR_TYPE_FAT32 = 12"

fun wmi_file_system :: "file_system \<Rightarrow> ustring" where
  "wmi_file_system Fat = lit ''FAT''"
| "wmi_file_system Fat32 = lit ''FAT32''"
| "wmi_file_system Ntfs = lit ''NTFS''"

fun mbr_type :: "file_system \<Rightarrow> u16" where
  "mbr_type Fat = MBR_TYPE_FAT16"
| "mbr_type Fat32 = MBR_TYPE_FAT32"
| "mbr_type Ntfs = MBR_TYPE_IFS"

fun volume_label :: "file_system \<Rightarrow> u32 \<Rightarrow> ustring" where
  "volume_label Fat device_id = lit ''WD-'' @ hex_fixed 8 (unat device_id)"
| "volume_label Fat32 device_id = lit ''WD-'' @ hex_fixed 8 (unat device_id)"
| "volume_label Ntfs device_id = lit ''WispDisk-'' @ hex_fixed 8 (unat device_id)"

definition wmi_drive_letter :: "ustring option \<Rightarrow> nat option" where
  "wmi_drive_letter value = (case value of
     None \<Rightarrow> None
   | Some v \<Rightarrow> (case trim_end_by (\<lambda>c. c = 58) (trim_by (\<lambda>c. c = 0) v) of
       [] \<Rightarrow> None
     | letter # rest \<Rightarrow> if rest \<noteq> [] \<or> \<not> is_ascii_alphabetic letter then None
         else Some (to_ascii_uppercase letter)))"

definition volume_has_drive_letter :: "msft_volume \<Rightarrow> nat \<Rightarrow> bool" where
  "volume_has_drive_letter v expected = (case wmi_drive_letter (mv_drive_letter v) of
     None \<Rightarrow> False
   | Some actual \<Rightarrow> eq_ignore_ascii_case [actual] [expected])"

definition volume_query :: "nat \<Rightarrow> ustring" where
  "volume_query letter = lit ''SELECT __Path, DriveLetter FROM MSFT_Volume WHERE DriveLetter = ''
     @ [39, letter, 39]"

definition storage_status_name :: "u32 \<Rightarrow> string" where
  "storage_status_name status =
     (case map_of [(1, ''not supported''), (2, ''unspecified error''), (3, ''timeout''), (4, ''failed''),
        (5, ''invalid parameter''), (6, ''disk in use''), (7, ''unsupported process architecture''),
        (4096, ''operation started as an asynchronous job''), (4097, ''size not supported''),
        (40000, ''not enough free space''), (40001, ''access denied''),
        (40002, ''insufficient resources''), (40003, ''provider cache out of date''),
        (40004, ''unexpected I/O error''), (41000, ''disk not initialized''),
        (41001, ''disk already initialized''), (41002, ''disk read-only''), (41003, ''disk offline''),
        (41004, ''partition limit reached''), (42002, ''access path already in use''),
        (42007, ''invalid access path''), (43000, ''invalid allocation unit size''),
        (43001, ''file system not supported''), (43002, ''quick format unavailable''),
        (43005, ''allocation unit incompatible with sector size''), (43006, ''volume read-only'')]
        status of
      Some name \<Rightarrow> name
    | None \<Rightarrow> ''unrecognized storage-provider status'')"

definition check_storage_method :: "ustring \<Rightarrow> u32 \<Rightarrow> unit result" where
  "check_storage_method action return_value =
     (if return_value = 0 then Ok ()
      else Err (Msg (action @ lit '': Windows Storage WMI returned '' @ dec_digits (unat return_value)
        @ lit '' ('' @ lit (storage_status_name return_value) @ lit '')'')))"

section \<open>StorageWmi\<close>

definition wmi_connect :: "'w os \<Rightarrow> ('w, unit result) sys_io" where
  "wmi_connect os = map_io (\<lambda>r. case r of
       Some e \<Rightarrow> Err (Context (Ctx (lit ''connect to the Windows Storage WMI provider'')) (Msg e))
     | None \<Rightarrow> Ok ())
     (os_call (wm_connect (os_wmi os)) (Storage \<circ> Wmi_Connect))"

definition wmi_context :: "ustring \<Rightarrow> ustring + 'a \<Rightarrow> 'a result" where
  "wmi_context t = map_err (\<lambda>e. Context (Ctx t) (Msg e))"

definition exec_method ::
  "'w os \<Rightarrow> ustring \<Rightarrow> string \<Rightarrow> wmi_input \<Rightarrow> ustring \<Rightarrow> ('w, unit result) sys_io" where
  "exec_method os path method input action =
     map_io (\<lambda>r. try_res (wmi_context action r) (check_storage_method action))
       (os_call (wm_method (os_wmi os) path method input) (Storage \<circ> Wmi_Method path method input))"

definition disk_query :: "u32 \<Rightarrow> ustring" where
  "disk_query number =
     lit ''SELECT __Path, Number, Size, PartitionStyle, IsBoot, IsSystem, IsOffline, IsReadOnly FROM MSFT_Disk WHERE Number = ''
     @ dec_digits (unat number)"

definition get_disk :: "'w os \<Rightarrow> u32 \<Rightarrow> ('w, msft_disk result) sys_io" where
  "get_disk os number =
     map_io (\<lambda>r. try_res (wmi_context (lit ''query the new disk'') r) (\<lambda>disks.
       case disks of
         [disk] \<Rightarrow> if md_number disk \<noteq> number
           then Err (Msg (lit ''WMI returned disk '' @ dec_digits (unat (md_number disk))
             @ lit '' for PhysicalDrive'' @ dec_digits (unat number) @ lit ''; refusing to continue''))
           else Ok disk
       | _ \<Rightarrow> Err (Msg (lit ''expected one WMI disk for PhysicalDrive'' @ dec_digits (unat number)
           @ lit '', found '' @ dec_digits (length disks)))))
       (os_call (wm_disks (os_wmi os) (disk_query number)) (Storage \<circ> Wmi_Disks (disk_query number)))"

definition online_disk :: "'w os \<Rightarrow> msft_disk \<Rightarrow> ('w, unit result) sys_io" where
  "online_disk os disk = exec_method os (md_path disk) ''Online'' [] (lit ''bring the new disk online'')"

definition set_disk_read_only :: "'w os \<Rightarrow> msft_disk \<Rightarrow> bool \<Rightarrow> ('w, unit result) sys_io" where
  "set_disk_read_only os disk read_only = exec_method os (md_path disk) ''SetAttributes''
     [(''IsReadOnly'', Wmi_Bool read_only)] (lit ''set the new disk writable'')"

definition initialize_mbr :: "'w os \<Rightarrow> msft_disk \<Rightarrow> ('w, unit result) sys_io" where
  "initialize_mbr os disk =
     (if md_partition_style disk \<noteq> PARTITION_STYLE_RAW
      then fail_io (Msg (lit ''refusing to initialize PhysicalDrive'' @ dec_digits (unat (md_number disk))
        @ lit '' because WMI reports partition style '' @ dec_digits (unat (md_partition_style disk))
        @ lit '' instead of RAW''))
      else exec_method os (md_path disk) ''Initialize''
        [(''PartitionStyle'', Wmi_Number PARTITION_STYLE_MBR)] (lit ''initialize the new disk as MBR''))"

definition create_max_partition ::
  "'w os \<Rightarrow> msft_disk \<Rightarrow> nat \<Rightarrow> file_system \<Rightarrow> ('w, msft_partition result) sys_io" where
  "create_max_partition os disk letter file_system =
     (let input = [(''UseMaximumSize'', Wmi_Bool True), (''DriveLetter'', Wmi_Text [letter]),
        (''MbrType'', Wmi_Number (mbr_type file_system))] in
      map_io (\<lambda>r. try_res (wmi_context (lit ''create the WispDisk partition'') r) (\<lambda>(status, created).
          try_res (check_storage_method (lit ''create the WispDisk partition'') status) (\<lambda>_.
          ok_or created
            (Msg (lit ''Windows Storage WMI created the partition but returned no partition object'')))))
        (os_call (wm_create_partition (os_wmi os) (md_path disk) input)
          (Storage \<circ> Wmi_Create_Partition (md_path disk) input)))"

definition partition_query :: "u32 \<Rightarrow> ustring" where
  "partition_query number =
     lit ''SELECT __Path, DiskNumber, PartitionNumber, DriveLetter, Offset, Size, IsBoot, IsSystem FROM MSFT_Partition WHERE DiskNumber = ''
     @ dec_digits (unat number)"

definition get_partitions :: "'w os \<Rightarrow> u32 \<Rightarrow> ('w, msft_partition list result) sys_io" where
  "get_partitions os number =
     map_io (\<lambda>r. try_res (wmi_context (lit ''query the new partition'') r) (\<lambda>partitions.
       if list_ex (\<lambda>p. mp_disk_number p \<noteq> number) partitions
       then Err (Msg (lit ''WMI returned a partition belonging to a different disk''))
       else Ok partitions))
       (os_call (wm_partitions (os_wmi os) (partition_query number))
         (Storage \<circ> Wmi_Partitions (partition_query number)))"

text \<open>The verdict on the one partition that a removable disk may already have.\<close>

definition usable_partition :: "msft_disk \<Rightarrow> msft_partition \<Rightarrow> (msft_partition \<times> bool) result" where
  "usable_partition disk p =
     (if mp_offset p \<noteq> 0 \<or> mp_size p \<noteq> md_size disk
      then Err (Msg (lit ''refusing to use removable PhysicalDrive'' @ dec_digits (unat (md_number disk))
        @ lit '' partition '' @ dec_digits (unat (mp_partition_number p))
        @ lit '' because it does not span the whole medium''))
      else if mp_is_boot p \<or> mp_is_system p
      then Err (Msg (lit ''refusing to use a boot or system partition on PhysicalDrive''
        @ dec_digits (unat (md_number disk))))
      else Ok (p, False))"

definition get_or_create_removable_partition ::
  "'w os \<Rightarrow> msft_disk \<Rightarrow> nat \<Rightarrow> file_system \<Rightarrow> ('w, (msft_partition \<times> bool) result) sys_io" where
  "get_or_create_removable_partition os disk letter file_system =
     try_io (get_partitions os (md_number disk)) (\<lambda>partitions. case partitions of
       [] \<Rightarrow> map_io (\<lambda>r. try_res r (\<lambda>p. Ok (p, True))) (create_max_partition os disk letter file_system)
     | [p] \<Rightarrow> return_io (usable_partition disk p)
     | _ \<Rightarrow> fail_io (Msg (lit ''refusing to use removable PhysicalDrive''
         @ dec_digits (unat (md_number disk)) @ lit '' because WMI reports ''
         @ dec_digits (length partitions) @ lit '' partitions'')))"

definition assign_drive_letter :: "'w os \<Rightarrow> msft_partition \<Rightarrow> nat \<Rightarrow> ('w, unit result) sys_io" where
  "assign_drive_letter os p letter =
     (let assign = exec_method os (mp_path p) ''AddAccessPath''
        [(''AccessPath'', Wmi_Text ([letter] @ lit '':''))] (lit ''assign the requested drive letter'') in
      case wmi_drive_letter (mp_drive_letter p) of
        None \<Rightarrow> assign
      | Some current \<Rightarrow> if eq_ignore_ascii_case [current] [letter] then ok_io ()
          else try_io (exec_method os (mp_path p) ''RemoveAccessPath''
              [(''AccessPath'', Wmi_Text ([current] @ lit '':''))]
              (lit ''remove the automatically assigned drive letter''))
            (\<lambda>_. assign))"

text \<open>One round of \<open>wait_for_volume\<close>, after the query: the matching volumes decide.\<close>

definition select_volume :: "nat \<Rightarrow> msft_volume list \<Rightarrow> msft_volume option result" where
  "select_volume letter volumes = (case filter (\<lambda>v. volume_has_drive_letter v letter) volumes of
     [] \<Rightarrow> Ok None
   | [v] \<Rightarrow> Ok (Some v)
   | _ \<Rightarrow> Err (Msg (lit ''WMI returned multiple volumes for drive '' @ [letter] @ lit '':'')))"

definition query_volumes :: "'w os \<Rightarrow> nat \<Rightarrow> ('w, msft_volume list result) sys_io" where
  "query_volumes os letter = map_io (wmi_context (lit ''query the new volume''))
     (os_call (wm_volumes (os_wmi os) (volume_query letter)) (Storage \<circ> Wmi_Volumes (volume_query letter)))"

definition wait_for_volume :: "'w os \<Rightarrow> nat \<Rightarrow> ('w, msft_volume result) sys_io" where
  "wait_for_volume os letter = bind_io now (\<lambda>t.
     loop_io (\<lambda>_ :: unit. bind_io (query_volumes os letter) (\<lambda>r.
       case try_res r (select_volume letter) of
         Err e \<Rightarrow> return_io (Break (Err e))
       | Ok (Some v) \<Rightarrow> return_io (Break (Ok v))
       | Ok None \<Rightarrow> bind_io now (\<lambda>t'. if t' \<ge> t + DEVICE_WAIT
           then return_io (Break (Err (Msg (lit ''drive '' @ [letter]
             @ lit '': did not appear in WMI within 30 seconds''))))
           else bind_io (sleep os RETRY_INTERVAL) (\<lambda>_. return_io (Continue ()))))) ())"

definition format_volume ::
  "'w os \<Rightarrow> msft_volume \<Rightarrow> ustring \<Rightarrow> bool \<Rightarrow> bool \<Rightarrow> file_system \<Rightarrow> ('w, unit result) sys_io" where
  "format_volume os v label quick force file_system =
     exec_method os (mv_path v) ''Format''
       [(''FileSystem'', Wmi_Text (wmi_file_system file_system)), (''FileSystemLabel'', Wmi_Text label),
        (''Full'', Wmi_Bool (\<not> quick)), (''Force'', Wmi_Bool force)]
       (lit ''format the WispDisk volume as '' @ file_system_name file_system)"

section \<open>The whole preparation\<close>

definition check_new_disk :: "msft_disk \<Rightarrow> u64 \<Rightarrow> unit result" where
  "check_new_disk disk expected_size =
     (if md_is_system disk \<or> md_is_boot disk
      then Err (Msg (lit ''refusing to initialize a boot or system disk''))
      else if md_size disk \<noteq> expected_size
      then Err (Msg (lit ''disk size changed before initialization: expected ''
        @ dec_digits (unat expected_size) @ lit '', got '' @ dec_digits (unat (md_size disk))))
      else Ok ())"

text \<open>Partitioning by the style of the disk; the flag tells whether the letter is assigned.\<close>

definition prepare_partition ::
  "'w os \<Rightarrow> msft_disk \<Rightarrow> nat \<Rightarrow> media_kind \<Rightarrow> file_system \<Rightarrow> ('w, (msft_partition \<times> bool) result) sys_io" where
  "prepare_partition os disk letter media file_system =
     (if md_partition_style disk = PARTITION_STYLE_RAW
      then try_io (initialize_mbr os disk) (\<lambda>_.
        map_io (\<lambda>r. try_res r (\<lambda>p. Ok (p, True))) (create_max_partition os disk letter file_system))
      else if md_partition_style disk = PARTITION_STYLE_MBR \<and> media = Removable
      then get_or_create_removable_partition os disk letter file_system
      else fail_io (Msg (lit ''refusing to prepare PhysicalDrive'' @ dec_digits (unat (md_number disk))
        @ lit '' because WMI reports unexpected partition style ''
        @ dec_digits (unat (md_partition_style disk)))))"

definition when_io :: "bool \<Rightarrow> ('w, unit result) sys_io \<Rightarrow> ('w, unit result) sys_io" where
  "when_io b m = (if b then m else ok_io ())"

definition initialize_and_format ::
  "'w os \<Rightarrow> u32 \<Rightarrow> drive_letter \<Rightarrow> media_kind \<Rightarrow> u64 \<Rightarrow> u32 \<Rightarrow> scsi_location \<Rightarrow> file_system
     \<Rightarrow> ('w, unit result) sys_io" where
  "initialize_and_format os number drive media expected_size device_id expected_location file_system =
     try_io (ensure_drive_letter_available os drive) (\<lambda>_.
     let letter = to_ascii_uppercase (unat (as_ascii drive)) in
     try_io (wmi_connect os) (\<lambda>_.
     try_io (get_disk os number) (\<lambda>disk.
     try_io (return_io (check_new_disk disk expected_size)) (\<lambda>_.
     try_io (when_io (md_is_offline disk) (online_disk os disk)) (\<lambda>_.
     try_io (when_io (md_is_read_only disk) (set_disk_read_only os disk False)) (\<lambda>_.
     try_io (prepare_partition os disk letter media file_system) (\<lambda>prepared.
     try_io (when_io (\<not> snd prepared) (assign_drive_letter os (fst prepared) letter)) (\<lambda>_.
     try_io (wait_for_volume os letter) (\<lambda>v.
     try_io (verify_physical_disk_location os number expected_location) (\<lambda>_.
     format_volume os v (volume_label file_system device_id) True True file_system))))))))))"

section \<open>Changes to the disk\<close>

text \<open>The events that change a disk, and the one that formats it.\<close>

fun is_change :: "os_event \<Rightarrow> bool" where
  "is_change (Storage (Wmi_Method path mtd inp r)) \<longleftrightarrow> True"
| "is_change (Storage (Wmi_Create_Partition path inp r)) \<longleftrightarrow> True"
| "is_change _ \<longleftrightarrow> False"

fun is_format :: "os_event \<Rightarrow> bool" where
  "is_format (Storage (Wmi_Method path mtd inp r)) \<longleftrightarrow> mtd = ''Format''"
| "is_format _ \<longleftrightarrow> False"

abbreviation keeps :: "os_event \<Rightarrow> bool" where "keeps ev \<equiv> \<not> is_change ev"
abbreviation no_format :: "os_event \<Rightarrow> bool" where "no_format ev \<equiv> \<not> is_format ev"

lemma keeps_queries [all_events_intros]:
  "all_events keeps (ensure_drive_letter_available os drive)" "all_events keeps (wmi_connect os)"
  "all_events keeps (get_disk os number)" "all_events keeps (get_partitions os number)"
  "all_events keeps (query_volumes os letter)"
  "all_events keeps (verify_physical_disk_location os number location)"
  unfolding ensure_drive_letter_available_def drive_letter_in_use_def wmi_connect_def get_disk_def
    get_partitions_def query_volumes_def verify_physical_disk_location_def physical_disk_address_def
    scsi_location_of_def Let_def
  by (intro all_events_intros; simp)+

lemma keeps_wait [all_events_intros]: "all_events keeps (wait_for_volume os letter)"
  unfolding wait_for_volume_def by (intro all_events_intros; simp)

lemma format_changes: "is_format ev \<Longrightarrow> is_change ev"
  by (cases ev rule: is_format.cases) simp_all

lemma change_no_format: "all_events keeps m \<Longrightarrow> all_events no_format m"
  by (erule all_events_mono) (blast dest: format_changes)

lemma no_format_exec [all_events_intros]:
  "mtd \<noteq> ''Format'' \<Longrightarrow> all_events no_format (exec_method os path mtd inp action)"
  unfolding exec_method_def by (intro all_events_intros) simp

lemma no_format_create [all_events_intros]:
  "all_events no_format (create_max_partition os disk letter file_system)"
  unfolding create_max_partition_def Let_def by (intro all_events_intros) simp

lemma no_format_prepare [all_events_intros]:
  "all_events no_format (online_disk os disk)" "all_events no_format (set_disk_read_only os disk ro)"
  "all_events no_format (prepare_partition os disk letter media file_system)"
  "all_events no_format (assign_drive_letter os p letter)"
  "all_events no_format m \<Longrightarrow> all_events no_format (when_io b m)"
  unfolding online_disk_def set_disk_read_only_def prepare_partition_def initialize_mbr_def
    get_or_create_removable_partition_def assign_drive_letter_def when_io_def Let_def
  by (auto intro!: all_events_intros change_no_format [OF keeps_queries(4)] split: list.split)

text \<open>
  \<open>formats_checked\<close>: the trace formats nothing, or it ends with formatting the only volume that
  the last volume query found for the letter, and between that query and the format the disk
  number was seen at the expected location again.
\<close>

definition formats_checked ::
  "u32 \<Rightarrow> scsi_location \<Rightarrow> nat \<Rightarrow> wmi_input \<Rightarrow> os_event list \<Rightarrow> bool" where
  "formats_checked number location letter input t \<longleftrightarrow> list_all no_format t \<or>
     (\<exists>t1 rows v ver answer. t = t1 @ Storage (Wmi_Volumes (volume_query letter) (Ok rows)) # ver
          @ [Storage (Wmi_Method (mv_path v) ''Format'' input answer)]
        \<and> filter (\<lambda>v. volume_has_drive_letter v letter) rows = [v]
        \<and> list_all no_format t1 \<and> list_all keeps ver \<and> shows_location number location ver)"

lemma formats_checked_prefix:
  assumes q: "list_all no_format q" and t: "formats_checked number location letter input t"
  shows "formats_checked number location letter input (q @ t)"
proof (cases "list_all no_format t")
  case False
  with t obtain t1 rows v ver answer where
    "t = t1 @ Storage (Wmi_Volumes (volume_query letter) (Ok rows)) # ver
          @ [Storage (Wmi_Method (mv_path v) ''Format'' input answer)]"
    "filter (\<lambda>v. volume_has_drive_letter v letter) rows = [v]"
    "list_all no_format t1" "list_all keeps ver" "shows_location number location ver"
    unfolding formats_checked_def by blast
  with q show ?thesis
    unfolding formats_checked_def
    by (intro disjI2 exI [of _ "q @ t1"] exI [of _ rows] exI [of _ v] exI [of _ ver] exI [of _ answer]) simp
qed (use q in \<open>simp add: formats_checked_def\<close>)

lemma formats_try:
  assumes m: "all_events no_format m"
    and f: "\<And>a s. wlp (f a) (\<lambda>r t _. formats_checked number location letter input t) s"
  shows "wlp (try_io m f) (\<lambda>r t _. formats_checked number location letter input t) s"
proof (rule wlp_tryI [OF all_events_wlp [OF m]], goal_cases)
  case (1 e t s')
  then show ?case by (simp add: formats_checked_def)
next
  case (2 a t s')
  show ?case by (rule wlp_mono [OF f]) (rule formats_checked_prefix [OF 2])
qed

text \<open>The wait ends with a query whose answer it selected from.\<close>

lemma wlp_wait_for_volume:
  "wlp (wait_for_volume os letter) (\<lambda>r t _. list_all no_format t \<and> (case r of
     Err _ \<Rightarrow> True
   | Ok v \<Rightarrow> \<exists>t1 rows. t = t1 @ [Storage (Wmi_Volumes (volume_query letter) (Ok rows))]
       \<and> filter (\<lambda>v. volume_has_drive_letter v letter) rows = [v])) s"
proof (rule wlp_conj [OF all_events_wlp [OF change_no_format [OF keeps_wait]]])
  have select: "filter (\<lambda>v. volume_has_drive_letter v letter) rows = [v]"
    if "select_volume letter rows = Ok (Some v)" for rows v
    using that by (auto simp: select_volume_def split: list.splits)
  show "wlp (wait_for_volume os letter) (\<lambda>r t _. case r of
     Err _ \<Rightarrow> True
   | Ok v \<Rightarrow> \<exists>t1 rows. t = t1 @ [Storage (Wmi_Volumes (volume_query letter) (Ok rows))]
       \<and> filter (\<lambda>v. volume_has_drive_letter v letter) rows = [v]) s"
    unfolding wait_for_volume_def wlp_rules append_Nil
  proof (rule wlp_loop0 [where I = "\<lambda>_ _ _. True"], goal_cases)
    case (1 u T s')
    show ?case
      unfolding query_volumes_def wlp_rules
      by (rule wlp_os_callI)
        (auto simp: wlp_rules wmi_context_def map_err_def try_res_Ok_iff select
           intro!: wlp_mono [OF wlp_any] split: sum.splits option.splits flow.splits)
  qed simp
qed

definition format_input :: "file_system \<Rightarrow> u32 \<Rightarrow> wmi_input" where
  "format_input file_system device_id =
     [(''FileSystem'', Wmi_Text (wmi_file_system file_system)),
      (''FileSystemLabel'', Wmi_Text (volume_label file_system device_id)),
      (''Full'', Wmi_Bool False), (''Force'', Wmi_Bool True)]"

lemma wlp_format_volume:
  "wlp (format_volume os v (volume_label file_system device_id) True True file_system)
     (\<lambda>r t _. \<exists>answer. t = [Storage (Wmi_Method (mv_path v) ''Format'' (format_input file_system device_id) answer)]
        \<and> is_ok r = (answer = Ok 0)) s"
  unfolding format_volume_def exec_method_def wlp_map format_input_def
  by (rule wlp_os_callI)
    (auto simp: wmi_context_def map_err_def check_storage_method_def split: sum.splits)

lemma wlp_verified_format:
  "wlp (try_io (verify_physical_disk_location os number location) (\<lambda>_.
       format_volume os v (volume_label file_system device_id) True True file_system))
     (\<lambda>r t _. list_all no_format t \<and> \<not> is_ok r \<or> (\<exists>ver answer. list_all keeps ver
        \<and> shows_location number location ver \<and> is_ok r = (answer = Ok 0)
        \<and> t = ver @ [Storage (Wmi_Method (mv_path v) ''Format'' (format_input file_system device_id) answer)])) s"
proof (rule wlp_tryI [OF wlp_conj [OF all_events_wlp [OF keeps_queries(6)] wlp_verify_location]], goal_cases)
  case (1 e t s')
  then have "list_all no_format t"
    by (auto simp: list_all_iff dest: format_changes)
  then show ?case by simp
next
  case (2 a t s')
  then show ?case
    by (intro wlp_mono [OF wlp_format_volume]) auto
qed

lemma wlp_formats_checked:
  "wlp (initialize_and_format os number drive media expected_size device_id location file_system)
     (\<lambda>r t _. formats_checked number location (to_ascii_uppercase (unat (as_ascii drive)))
        (format_input file_system device_id) t) s"
proof -
  define letter where "letter = to_ascii_uppercase (unat (as_ascii drive))"
  have last: "wlp (try_io (wait_for_volume os letter) (\<lambda>v.
       try_io (verify_physical_disk_location os number location) (\<lambda>_.
       format_volume os v (volume_label file_system device_id) True True file_system)))
     (\<lambda>r t _. formats_checked number location letter (format_input file_system device_id) t) s'" for s'
  proof (rule wlp_tryI [OF wlp_wait_for_volume], goal_cases)
    case (1 e t s')
    then show ?case by (simp add: formats_checked_def)
  next
    case (2 v t s')
    then obtain t1 rows where t: "t = t1 @ [Storage (Wmi_Volumes (volume_query letter) (Ok rows))]"
      "list_all no_format t1" "filter (\<lambda>v. volume_has_drive_letter v letter) rows = [v]"
      by auto
    show ?case
    proof (rule wlp_mono [OF wlp_verified_format], elim disjE exE conjE)
      fix r u s'' assume "list_all no_format u"
      with t show "formats_checked number location letter (format_input file_system device_id) (t @ u)"
        by (simp add: formats_checked_def)
    next
      fix r u s'' ver answer
      assume u: "list_all keeps ver" "shows_location number location ver"
        "u = ver @ [Storage (Wmi_Method (mv_path v) ''Format'' (format_input file_system device_id) answer)]"
      with t show "formats_checked number location letter (format_input file_system device_id) (t @ u)"
        unfolding formats_checked_def
        by (intro disjI2 exI [of _ t1] exI [of _ rows] exI [of _ v] exI [of _ ver] exI [of _ answer]) simp
    qed
  qed
  show ?thesis
    unfolding initialize_and_format_def Let_def letter_def [symmetric]
    by (intro formats_try last; intro all_events_intros change_no_format [OF keeps_queries(1)]
        change_no_format [OF keeps_queries(2)] change_no_format [OF keeps_queries(3)])
qed

text \<open>
  C21. Formatting a new disk: the format is the last step, of the one volume that the last query
  found for the drive letter, and only after the disk number was seen at the expected SCSI
  location again, with no change between that query and the format.
\<close>

theorem format_follows_revalidation:
  "wlp (initialize_and_format os number drive media expected_size device_id location file_system)
     (\<lambda>r t s'. list_all no_format t \<or> (\<exists>t1 rows v ver answer.
        t = t1 @ Storage (Wmi_Volumes
              (volume_query (to_ascii_uppercase (unat (as_ascii drive)))) (Ok rows)) # ver
            @ [Storage (Wmi_Method (mv_path v) ''Format'' (format_input file_system device_id) answer)]
        \<and> filter (\<lambda>v. volume_has_drive_letter v (to_ascii_uppercase (unat (as_ascii drive)))) rows = [v]
        \<and> list_all no_format t1 \<and> list_all keeps ver \<and> shows_location number location ver)) s"
  using wlp_formats_checked [of os number drive media expected_size device_id location file_system s]
  by (simp add: formats_checked_def)

text \<open>The row of the new disk: not a boot or system disk, and of the size that was created.\<close>

definition safe_disk :: "u32 \<Rightarrow> u64 \<Rightarrow> msft_disk \<Rightarrow> bool" where
  "safe_disk number expected_size disk \<longleftrightarrow> md_number disk = number \<and> \<not> md_is_boot disk
     \<and> \<not> md_is_system disk \<and> md_size disk = expected_size"

definition changes_checked :: "u32 \<Rightarrow> u64 \<Rightarrow> os_event list \<Rightarrow> bool" where
  "changes_checked number expected_size t \<longleftrightarrow> list_all keeps t \<or> (\<exists>t1 disk t2.
     t = t1 @ Storage (Wmi_Disks (disk_query number) (Ok [disk])) # t2
     \<and> list_all keeps t1 \<and> safe_disk number expected_size disk)"

lemma changes_checked_prefix:
  "list_all keeps q \<Longrightarrow> changes_checked number sz t \<Longrightarrow> changes_checked number sz (q @ t)"
  unfolding changes_checked_def
  by (elim disjE exE conjE) (simp, rule disjI2, rule_tac x = "q @ t1" in exI, auto)

lemma changes_try:
  assumes m: "all_events keeps m"
    and f: "\<And>a s. wlp (f a) (\<lambda>r t _. changes_checked number sz t) s"
  shows "wlp (try_io m f) (\<lambda>r t _. changes_checked number sz t) s"
proof (rule wlp_tryI [OF all_events_wlp [OF m]], goal_cases)
  case (1 e t s')
  then show ?case by (simp add: changes_checked_def)
next
  case (2 a t s')
  show ?case by (rule wlp_mono [OF f]) (rule changes_checked_prefix [OF 2])
qed

lemma wlp_get_disk:
  "wlp (get_disk os number) (\<lambda>r t _. list_all keeps t \<and> (case r of Err _ \<Rightarrow> True
     | Ok disk \<Rightarrow> t = [Storage (Wmi_Disks (disk_query number) (Ok [disk]))] \<and> md_number disk = number)) s"
  unfolding get_disk_def wlp_map
  by (rule wlp_os_callI)
    (auto simp: try_res_Ok_iff wmi_context_def map_err_def split: sum.split list.splits if_splits)

lemma wlp_changes_checked:
  "wlp (initialize_and_format os number drive media sz device_id location file_system)
     (\<lambda>r t _. changes_checked number sz t) s"
proof -
  have checked: "wlp (try_io (get_disk os number) (\<lambda>disk.
       try_io (return_io (check_new_disk disk sz)) (\<lambda>_. f disk)))
     (\<lambda>r t _. changes_checked number sz t) s'"
    for f :: "msft_disk \<Rightarrow> ('a, unit result) sys_io" and s'
  proof (rule wlp_tryI [OF wlp_get_disk], goal_cases)
    case (1 e t s')
    then show ?case by (simp add: changes_checked_def)
  next
    case (2 disk t s')
    show ?case
    proof (cases "check_new_disk disk sz")
      case (Inl e)
      with 2 show ?thesis by (simp add: wlp_try wlp_return changes_checked_def)
    next
      case (Inr u)
      then have "safe_disk number sz disk"
        using 2 by (auto simp: check_new_disk_def safe_disk_def split: if_splits)
      with 2 have "changes_checked number sz (t @ t')" for t'
        unfolding changes_checked_def by (intro disjI2 exI [of _ "[]"]) auto
      then show ?thesis
        using Inr by (auto simp: wlp_try wlp_return intro: wlp_mono [OF wlp_any])
    qed
  qed
  show ?thesis
    unfolding initialize_and_format_def Let_def
    by (intro changes_try [OF keeps_queries(1)] changes_try [OF keeps_queries(2)] checked)
qed

text \<open>
  C22. Nothing is changed on a disk that is not the new one: the first change comes after the one
  disk row for the number was read, and that row is neither a boot nor a system disk and has
  exactly the size that was asked for.
\<close>

theorem only_the_new_disk_is_changed:
  "wlp (initialize_and_format os number drive media sz device_id location file_system)
     (\<lambda>r t s'. list_all keeps t \<or> (\<exists>t1 disk t2.
        t = t1 @ Storage (Wmi_Disks (disk_query number) (Ok [disk])) # t2
        \<and> list_all keeps t1 \<and> safe_disk number sz disk)) s"
  using wlp_changes_checked [of os number drive media sz device_id location file_system s]
  by (simp add: changes_checked_def)

text \<open>
  \<open>keeps_existing\<close>: what preparing the partition may have changed, and which partition it hands on.
\<close>

definition keeps_existing ::
  "msft_disk \<Rightarrow> media_kind \<Rightarrow> (msft_partition \<times> bool) result \<Rightarrow> os_event list \<Rightarrow> bool" where
  "keeps_existing disk media r t \<longleftrightarrow>
     (list_all keeps t \<or> md_partition_style disk = PARTITION_STYLE_RAW
        \<or> md_partition_style disk = PARTITION_STYLE_MBR \<and> media = Removable
          \<and> (\<exists>t2. t = Storage (Wmi_Partitions (partition_query (md_number disk)) (Ok [])) # t2))
     \<and> (case r of
          Ok x \<Rightarrow> snd x \<or> media = Removable
            \<and> t = [Storage (Wmi_Partitions (partition_query (md_number disk)) (Ok [fst x]))]
            \<and> mp_disk_number (fst x) = md_number disk \<and> mp_offset (fst x) = 0
            \<and> mp_size (fst x) = md_size disk \<and> \<not> mp_is_boot (fst x) \<and> \<not> mp_is_system (fst x)
        | Err _ \<Rightarrow> True)"

lemma wlp_created:
  "wlp (map_io (\<lambda>r. try_res r (\<lambda>p. Ok (p, True))) m)
     (\<lambda>r t s'. case r of Ok x \<Rightarrow> snd x | Err _ \<Rightarrow> True) s"
  unfolding wlp_map by (rule wlp_mono [OF wlp_any]) (auto simp: try_res_def split: sum.split)

lemma usable_partition_Ok:
  "usable_partition disk p = Ok x \<Longrightarrow> x = (p, False) \<and> mp_offset p = 0 \<and> mp_size p = md_size disk
     \<and> \<not> mp_is_boot p \<and> \<not> mp_is_system p"
  by (auto simp: usable_partition_def split: if_splits)

lemma wlp_get_partitions:
  "wlp (get_partitions os number) (\<lambda>r t _. list_all keeps t \<and> (case r of Err _ \<Rightarrow> True
     | Ok ps \<Rightarrow> t = [Storage (Wmi_Partitions (partition_query number) (Ok ps))]
         \<and> list_all (\<lambda>p. mp_disk_number p = number) ps)) s"
  unfolding get_partitions_def wlp_map
  by (rule wlp_os_callI)
    (auto simp: try_res_Ok_iff wmi_context_def map_err_def list_ex_iff list_all_iff
      split: sum.split if_splits)

lemma wlp_prepare_partition:
  "wlp (prepare_partition os disk letter media file_system) (\<lambda>r t s'. keeps_existing disk media r t) s"
proof -
  consider (raw) "md_partition_style disk = PARTITION_STYLE_RAW"
    | (removable) "md_partition_style disk \<noteq> PARTITION_STYLE_RAW"
        "md_partition_style disk = PARTITION_STYLE_MBR \<and> media = Removable"
    | (other) "md_partition_style disk \<noteq> PARTITION_STYLE_RAW"
        "\<not> (md_partition_style disk = PARTITION_STYLE_MBR \<and> media = Removable)"
    by blast
  then show ?thesis
  proof cases
    case raw
    have "keeps_existing disk media r t" if "case r of Ok x \<Rightarrow> snd x | Err _ \<Rightarrow> True" for r t
      using raw that by (auto simp: keeps_existing_def split: sum.splits)
    with raw show ?thesis
      unfolding prepare_partition_def if_P [OF raw]
      by (intro wlp_tryI [OF wlp_any] wlp_mono [OF wlp_created]) auto
  next
    case removable
    show ?thesis
      unfolding prepare_partition_def if_not_P [OF removable(1)] if_P [OF removable(2)]
        get_or_create_removable_partition_def
    proof (rule wlp_tryI [OF wlp_get_partitions], goal_cases)
      case (1 e t s')
      then show ?case by (simp add: keeps_existing_def)
    next
      case (2 ps t s')
      then have t: "t = [Storage (Wmi_Partitions (partition_query (md_number disk)) (Ok ps))]"
        "list_all (\<lambda>p. mp_disk_number p = md_number disk) ps" by auto
      consider "ps = []" | p where "ps = [p]" | p q qs where "ps = p # q # qs"
        by (metis list.exhaust)
      then show ?case
      proof cases
        case 1
        have "keeps_existing disk media r (t @ u)" if "case r of Ok x \<Rightarrow> snd x | Err _ \<Rightarrow> True" for r u
          using removable(2) t 1 that by (auto simp: keeps_existing_def split: sum.splits)
        with 1 show ?thesis by (auto intro: wlp_mono [OF wlp_created])
      next
        case (2 p)
        with t removable(2) show ?thesis
          by (auto simp: wlp_rules keeps_existing_def dest!: usable_partition_Ok split: sum.split)
      next
        case (3 p q qs)
        with t show ?thesis by (simp add: wlp_rules keeps_existing_def)
      qed
    qed
  next
    case other
    then show ?thesis
      by (auto simp: prepare_partition_def wlp_rules keeps_existing_def)
  qed
qed

text \<open>
  Preparing the partition never overwrites one that is there: a disk is only initialized when
  it is raw, a partition is only created on a raw disk or on a removable MBR disk whose partition
  query came back empty, and an existing partition is used only on removable media, when it is
  the only one, spans the whole medium and is neither a boot nor a system partition.
\<close>

theorem existing_partitions_are_kept:
  "wlp (prepare_partition os disk letter media file_system) (\<lambda>r t s'.
     (list_all keeps t \<or> md_partition_style disk = PARTITION_STYLE_RAW
        \<or> md_partition_style disk = PARTITION_STYLE_MBR \<and> media = Removable
          \<and> (\<exists>t2. t = Storage (Wmi_Partitions (partition_query (md_number disk)) (Ok [])) # t2))
     \<and> (case r of
          Ok x \<Rightarrow> snd x \<or> media = Removable
            \<and> t = [Storage (Wmi_Partitions (partition_query (md_number disk)) (Ok [fst x]))]
            \<and> mp_disk_number (fst x) = md_number disk \<and> mp_offset (fst x) = 0
            \<and> mp_size (fst x) = md_size disk \<and> \<not> mp_is_boot (fst x) \<and> \<not> mp_is_system (fst x)
        | Err _ \<Rightarrow> True)) s"
  using wlp_prepare_partition [of os disk letter media file_system s]
  by (simp add: keeps_existing_def)

section \<open>Waiting\<close>

lemma returns_provisioning [returns_intros]:
  "returns (query_volumes os letter)" "returns (drive_letter_in_use os drive)"
  unfolding query_volumes_def drive_letter_in_use_def by (intro returns_intros)+

lemma returns_wait_for_volume [returns_intros]: "returns (wait_for_volume os letter)"
  unfolding wait_for_volume_def
proof (rule returns_bind [OF returns_basic(2)])
  fix t :: nat
  show "returns (loop_io (\<lambda>_ :: unit. bind_io (query_volumes os letter) (\<lambda>r.
       case try_res r (select_volume letter) of
         Err e \<Rightarrow> return_io (Break (Err e))
       | Ok (Some v) \<Rightarrow> return_io (Break (Ok v))
       | Ok None \<Rightarrow> bind_io now (\<lambda>t'. if t' \<ge> t + DEVICE_WAIT
           then return_io (Break (Err (Msg (lit ''drive '' @ [letter]
             @ lit '': did not appear in WMI within 30 seconds''))))
           else bind_io (sleep os RETRY_INTERVAL) (\<lambda>_. return_io (Continue ()))))) ())"
    by (rule returns_loop [where left = "\<lambda>s. t + DEVICE_WAIT - clock s"], rule poll_round)
      (auto intro!: returns_intros sleep_progress simp: wp_rules split: sum.split option.split)
qed

lemma returns_wait_for_drive_state [returns_intros]:
  "returns (wait_for_drive_state os drive present timeout)"
  unfolding wait_for_drive_state_def
proof (rule returns_bind [OF returns_basic(2)])
  fix t :: nat
  show "returns (loop_io (\<lambda>_ :: unit. bind_io (drive_letter_in_use os drive) (\<lambda>used.
       if used = present then return_io (Break (Ok ()))
       else bind_io now (\<lambda>t'. if t' \<ge> t + timeout
         then return_io (Break (Err (Msg (lit ''drive '' @ drive_letter_display drive
           @ lit '' did not '' @ (if present then lit ''appear'' else lit ''disappear'')
           @ lit '' within 30 seconds''))))
         else bind_io (sleep os RETRY_INTERVAL) (\<lambda>_. return_io (Continue ()))))) ())"
    by (rule returns_loop [where left = "\<lambda>s. t + timeout - clock s"], rule poll_round)
      (auto intro!: returns_intros sleep_progress simp: wp_rules)
qed

text \<open>
  The three waits of the disk workflow that poll return: for the formatted volume, for the
  drive letter to appear or to vanish, and for the removed disk to disappear. Every round that
  goes on sleeps the retry interval, so the deadline is passed after finitely many rounds, however
  slow or wrong the answers of Windows are.
\<close>

theorem polling_waits_return:
  "returns (wait_for_volume os c) \<and> returns (wait_for_drive_state os letter present timeout)
   \<and> returns (wait_for_physical_disk_absent os number location timeout)"
  by (intro conjI returns_intros)

end
