(* ===== verification/Install.thy ===== *)
theory Install
  imports Disks
begin

text \<open>
  adapter/install.rs and payload.rs: extracting the embedded driver package and installing it on
  a root-enumerated device. Paths are their UTF-16 units. The embedded files, their presence and
  the crate version are fixed when the CLI is built, so they are a parameter.
\<close>

section \<open>The embedded package\<close>

record package =
  pk_embedded :: bool
  pk_version :: ustring
  pk_sys :: "u8 list"
  pk_inf :: "u8 list"
  pk_cat :: "u8 list"

definition ROOT_HARDWARE_ID :: ustring where "ROOT_HARDWARE_ID = lit ''ROOT'' @ [92] @ lit ''WISPDISK''"
definition ERROR_INVALID_DATA :: u32 where "ERROR_INVALID_DATA = 13"
definition DIF_REMOVE :: u32 where "DIF_REMOVE = 5"
definition DIF_REGISTERDEVICE :: u32 where "DIF_REGISTERDEVICE = 0x19"

text \<open>
  \<open>Path::join\<close> with a relative part: a separator is added unless the base is empty, ends in one
  or is just a drive such as \<open>C:\<close>.
\<close>

definition path_join :: "wstr \<Rightarrow> ustring \<Rightarrow> wstr" where
  "path_join base part =
     (if base = [] \<or> last base = 92 \<or> last base = 47 \<or> length base = 2 \<and> last base = 58
      then base @ utf16 part else base @ 92 # utf16 part)"

text \<open>\<open>wide\<close> of a string that is already UTF-16.\<close>

definition wide_units :: "wstr \<Rightarrow> io_error + wstr" where
  "wide_units s = (if 0 \<in> set s then Err Invalid_Input else Ok s)"

definition path_error :: "ustring \<Rightarrow> wstr \<Rightarrow> io_error \<Rightarrow> error" where
  "path_error action path e = Context (Ctx (action @ utf16_lossy path)) (Io e)"

definition unit_of :: "(io_error \<Rightarrow> error) \<Rightarrow> io_error option \<Rightarrow> unit result" where
  "unit_of f r = (case r of Some e \<Rightarrow> Err (f e) | None \<Rightarrow> Ok ())"

definition write_package_file :: "'w os \<Rightarrow> wstr \<Rightarrow> u8 list \<Rightarrow> ('w, unit result) sys_io" where
  "write_package_file os path contents =
     (if contents = []
      then fail_io (Msg (lit ''embedded package file '' @ utf16_lossy path @ lit '' is empty''))
      else map_io (unit_of (path_error (lit ''extract driver package at '') path))
        (os_call (su_write_file (os_setup os) path contents) (Setup \<circ> Write_File path contents)))"

definition package_directory :: "package \<Rightarrow> wstr option \<Rightarrow> wstr" where
  "package_directory pk program_data =
     path_join (path_join (path_join
       (case program_data of Some p \<Rightarrow> p | None \<Rightarrow> utf16 (lit ''C:'' @ [92] @ lit ''ProgramData''))
       (lit ''WispDisk'')) (lit ''Driver'')) (pk_version pk)"

definition extract_embedded :: "package \<Rightarrow> 'w os \<Rightarrow> ('w, wstr result) sys_io" where
  "extract_embedded pk os =
     bind_io (os_call (su_program_data (os_setup os)) (Setup \<circ> Program_Data)) (\<lambda>program_data.
     let directory = package_directory pk program_data;
         inf_path = path_join directory (lit ''WispDisk.inf'') in
     try_io (map_io (unit_of (path_error (lit ''create driver-package directory at '') directory))
         (os_call (su_create_directories (os_setup os) directory) (Setup \<circ> Create_Directories directory))) (\<lambda>_.
     try_io (write_package_file os (path_join directory (lit ''WispDisk.sys'')) (pk_sys pk)) (\<lambda>_.
     try_io (write_package_file os inf_path (pk_inf pk)) (\<lambda>_.
     try_io (write_package_file os (path_join directory (lit ''WispDisk.cat'')) (pk_cat pk)) (\<lambda>_.
     map_io (map_err (path_error (lit ''resolve extracted INF at '') inf_path))
       (os_call (su_canonicalize (os_setup os) inf_path) (Setup \<circ> Canonicalize inf_path)))))))"

section \<open>The root device\<close>

text \<open>The hardware IDs of a device, read into a buffer of 512 units.\<close>

definition read_hardware_id :: "ustring \<Rightarrow> u32 + (u32 \<times> wstr) \<Rightarrow> bool result" where
  "read_hardware_id expected answer = (case answer of
     Err code \<Rightarrow> if code = ERROR_INVALID_DATA then Ok False
       else Err (Context (Ctx (lit ''read adapter hardware id'')) (Io (Os_Error code)))
   | Ok (required, units) \<Rightarrow>
       Ok (list_ex (\<lambda>v. eq_ignore_ascii_case (utf16_lossy v) expected)
         (multisz_entries (take (min (unat required div 2) 512) (overlay (replicate 512 0) units)))))"

definition device_has_hardware_id ::
  "'w os \<Rightarrow> handle \<Rightarrow> u64 \<Rightarrow> ustring \<Rightarrow> ('w, bool result) sys_io" where
  "device_has_hardware_id os dset dev expected =
     map_io (read_hardware_id expected)
       (os_call (su_get_hardware_id (os_setup os) dset dev) (Setup \<circ> Get_Hardware_Id dset dev))"

definition exists_round :: "'w os \<Rightarrow> handle \<Rightarrow> nat \<Rightarrow> ('w, (nat, bool result) flow) sys_io" where
  "exists_round os dset index =
     bind_io (os_call (su_enum_device_info (os_setup os) dset index) (Setup \<circ> Enum_Device_Info dset index))
       (\<lambda>r. case r of
          Err code \<Rightarrow> return_io (Break (if code = ERROR_NO_MORE_ITEMS then Ok False
            else Err (Context (Ctx (lit ''enumerate SCSI adapter'')) (Io (Os_Error code)))))
        | Ok dev \<Rightarrow> bind_io (device_has_hardware_id os dset dev ROOT_HARDWARE_ID) (\<lambda>r.
            return_io (case r of
              Err e \<Rightarrow> Break (Err e)
            | Ok found \<Rightarrow> if found then Break (Ok True) else Continue (index + 1))))"

definition device_exists :: "'w os \<Rightarrow> ('w, bool result) sys_io" where
  "device_exists os =
     bind_io (os_call (os_get_class_devs os Scsi_Adapters) (Get_Class_Devs Scsi_Adapters)) (\<lambda>r. case r of
       Err code \<Rightarrow> fail_io (last_os_error ''enumerate SCSI adapters'' code)
     | Ok dset \<Rightarrow> bind_io (loop_io (exists_round os dset) 0) (\<lambda>result.
         bind_io (destroy_device_list os dset) (\<lambda>_. return_io result)))"

text \<open>\<open>CreatedDevice\<close>: the set that owns the device and the device in it.\<close>

type_synonym created_device = "handle \<times> u64"

definition failed_as :: "string \<Rightarrow> u32 option \<Rightarrow> unit result" where
  "failed_as action r = (case r of Some code \<Rightarrow> Err (last_os_error action code) | None \<Rightarrow> Ok ())"

definition create_device :: "'w os \<Rightarrow> handle \<Rightarrow> ('w, created_device result) sys_io" where
  "create_device os dset =
     try_io (return_io (map_err Io (wide (lit ''SCSIAdapter'')))) (\<lambda>class_name.
     bind_io (os_call (su_create_device_info (os_setup os) dset class_name)
         (Setup \<circ> Create_Device_Info dset class_name)) (\<lambda>r. case r of
       Err code \<Rightarrow> fail_io (last_os_error ''create WispDisk root device'' code)
     | Ok dev \<Rightarrow>
         try_io (return_io (map_err Io (wide ROOT_HARDWARE_ID))) (\<lambda>hardware_id.
         let multi_sz = hardware_id @ [0, 0] in
         try_io (map_io (failed_as ''set WispDisk root-device hardware id'')
           (os_call (su_set_hardware_id (os_setup os) dset dev multi_sz)
             (Setup \<circ> Set_Hardware_Id dset dev multi_sz))) (\<lambda>_.
         try_io (map_io (failed_as ''register WispDisk root device'')
           (os_call (su_class_installer (os_setup os) DIF_REGISTERDEVICE dset dev)
             (Setup \<circ> Class_Installer DIF_REGISTERDEVICE dset dev))) (\<lambda>_.
         ok_io (dset, dev))))))"

definition create_if_missing :: "'w os \<Rightarrow> ('w, created_device option result) sys_io" where
  "create_if_missing os =
     try_io (device_exists os) (\<lambda>found.
     if found then ok_io None
     else bind_io (os_call (su_create_device_list (os_setup os)) (Setup \<circ> Create_Device_List)) (\<lambda>r. case r of
         Err code \<Rightarrow> fail_io (last_os_error ''create device-information set'' code)
       | Ok dset \<Rightarrow> bind_io (create_device os dset) (\<lambda>r. case r of
           Err e \<Rightarrow> bind_io (destroy_device_list os dset) (\<lambda>_. fail_io e)
         | Ok d \<Rightarrow> ok_io (Some d))))"

definition remove_device :: "'w os \<Rightarrow> created_device \<Rightarrow> ('w, unit result) sys_io" where
  "remove_device os d =
     map_io (failed_as ''remove newly created WispDisk root device'')
       (os_call (su_class_installer (os_setup os) DIF_REMOVE (fst d) (snd d))
         (Setup \<circ> Class_Installer DIF_REMOVE (fst d) (snd d)))"

section \<open>Installation\<close>

definition drop_created :: "'w os \<Rightarrow> created_device option \<Rightarrow> ('w, unit) sys_io" where
  "drop_created os created = (case created of
     None \<Rightarrow> return_io () | Some d \<Rightarrow> destroy_device_list os (fst d))"

text \<open>After the device exists: bind the driver, and undo a device created here if that fails.\<close>

definition bind_driver :: "'w os \<Rightarrow> wstr \<Rightarrow> created_device option \<Rightarrow> ('w, unit result) sys_io" where
  "bind_driver os inf_path created =
     try_io (return_io (map_err Io (wide ROOT_HARDWARE_ID))) (\<lambda>hardware_id.
     bind_io (os_call (su_update_driver (os_setup os) hardware_id inf_path)
         (Setup \<circ> Update_Driver hardware_id inf_path)) (\<lambda>x. case fst x of
       Some code \<Rightarrow> let e = last_os_error ''bind and start WispDisk driver'' code in
         (case created of
            None \<Rightarrow> fail_io e
          | Some d \<Rightarrow> bind_io (remove_device os d) (\<lambda>r. fail_io (case r of
              Err recovery \<Rightarrow> recovery_failed e
                (lit ''removing the newly created root device also failed'') recovery
            | Ok _ \<Rightarrow> e)))
     | None \<Rightarrow> ensure_io (\<not> snd x)
         (Msg (lit ''Windows installed the driver package but requires a reboot before it can start''))))"

definition install_package :: "'w os \<Rightarrow> wstr \<Rightarrow> ('w, unit result) sys_io" where
  "install_package os path =
     try_io (return_io (map_err (\<lambda>e. Context (Ctx (lit ''encode driver INF path'')) (Io e))
       (wide_units path))) (\<lambda>inf_path.
     bind_io (os_call (su_install_driver (os_setup os) inf_path) (Setup \<circ> Install_Driver inf_path)) (\<lambda>x. case fst x of
       Some code \<Rightarrow> fail_io (last_os_error
         ''stage driver package (is this console elevated, and is the package signed?)'' code)
     | None \<Rightarrow> try_io (create_if_missing os) (\<lambda>created.
         bind_io (bind_driver os inf_path created) (\<lambda>r.
         bind_io (drop_created os created) (\<lambda>_. return_io r)))))"

definition install_embedded_driver :: "package \<Rightarrow> 'w os \<Rightarrow> ('w, unit result) sys_io" where
  "install_embedded_driver pk os = try_io (extract_embedded pk os) (install_package os)"

section \<open>The root device in a trace\<close>

fun registered_of :: "os_event \<Rightarrow> created_device list" where
  "registered_of (Setup (Class_Installer code dset dev r)) =
     (if code = DIF_REGISTERDEVICE \<and> r = None then [(dset, dev)] else [])"
| "registered_of _ = []"

fun removed_of :: "os_event \<Rightarrow> created_device list" where
  "removed_of (Setup (Class_Installer code dset dev r)) = (if code = DIF_REMOVE then [(dset, dev)] else [])"
| "removed_of _ = []"

fun written_of :: "os_event \<Rightarrow> (wstr \<times> u8 list) list" where
  "written_of (Setup (Write_File path contents r)) = (if r = None then [(path, contents)] else [])"
| "written_of _ = []"

fun bind_failed :: "os_event \<Rightarrow> bool" where
  "bind_failed (Setup (Update_Driver hw path (Some code, reboot))) \<longleftrightarrow> True"
| "bind_failed _ \<longleftrightarrow> False"

fun shows_root_device :: "os_event \<Rightarrow> bool" where
  "shows_root_device (Setup (Get_Hardware_Id dset dev answer)) \<longleftrightarrow>
     read_hardware_id ROOT_HARDWARE_ID answer = Ok True"
| "shows_root_device _ \<longleftrightarrow> False"

definition each :: "('e \<Rightarrow> 'a list) \<Rightarrow> 'e list \<Rightarrow> 'a list" where
  "each f t = concat (map f t)"

lemma each_simps [simp]:
  "each f [] = []" "each f (t @ u) = each f t @ each f u" "each f (ev # t) = f ev @ each f t"
  by (simp_all add: each_def)

text \<open>Events that neither register nor remove a device nor fail to bind the driver.\<close>

definition neutral :: "os_event \<Rightarrow> bool" where
  "neutral ev \<longleftrightarrow> registered_of ev = [] \<and> removed_of ev = [] \<and> \<not> bind_failed ev"

lemma neutral_trace:
  assumes "list_all neutral t"
  shows "each registered_of t = []" "each removed_of t = []" "\<not> list_ex bind_failed t"
  using assms by (induction t) (auto simp: neutral_def)

lemma neutral_extract [all_events_intros]:
  "all_events neutral (write_package_file os path contents)" "all_events neutral (extract_embedded pk os)"
proof -
  show w: "all_events neutral (write_package_file os path contents)" for path contents
    unfolding write_package_file_def by (intro all_events_intros) (simp add: neutral_def)
  show "all_events neutral (extract_embedded pk os)"
    unfolding extract_embedded_def Let_def by (intro all_events_intros w; simp add: neutral_def)
qed

lemma wlp_device_exists:
  "wlp (device_exists os) (\<lambda>r t _. list_all neutral t \<and> (r = Ok True \<or> list_all (\<lambda>ev. \<not> shows_root_device ev) t)) s"
proof -
  have loop: "wlp (loop_io (exists_round os dset) 0) (\<lambda>r t _. list_all neutral t
      \<and> (r = Ok True \<or> list_all (\<lambda>ev. \<not> shows_root_device ev) t)) s'" for dset s'
  proof (rule wlp_loop0 [where I = "\<lambda>_ T _. list_all neutral T \<and> list_all (\<lambda>ev. \<not> shows_root_device ev) T"],
      goal_cases)
    case (1 index T u)
    then show ?case
      unfolding exists_round_def device_has_hardware_id_def wlp_rules
      by (auto intro!: wlp_os_callI simp: wlp_rules neutral_def split: sum.split)
  qed simp
  show ?thesis
    unfolding device_exists_def destroy_device_list_def wlp_rules
    by (auto intro!: wlp_os_callI wlp_mono [OF loop] simp: wlp_rules neutral_def split: sum.split)
qed

lemma wlp_create_if_missing:
  "wlp (create_if_missing os) (\<lambda>r t _. each removed_of t = [] \<and> \<not> list_ex bind_failed t
     \<and> each registered_of t = (case r of Ok (Some d) \<Rightarrow> [d] | _ \<Rightarrow> [])
     \<and> (r = Ok None \<or> list_all (\<lambda>ev. \<not> shows_root_device ev) t)) s"
  unfolding create_if_missing_def
proof (rule wlp_tryI [OF wlp_device_exists], goal_cases)
  case (1 e t s')
  then show ?case by (auto simp: neutral_trace)
next
  case (2 found t s')
  show ?case
  proof (cases found)
    case True
    with 2 show ?thesis by (auto simp: wlp_rules neutral_trace)
  next
    case False
    with 2 show ?thesis
      unfolding create_device_def destroy_device_list_def failed_as_def
      by (auto intro!: wlp_os_callI simp: wlp_rules wlp_try neutral_trace wide_def map_err_def
          ROOT_HARDWARE_ID_def lit_def DIF_REGISTERDEVICE_def DIF_REMOVE_def Let_def
          split: sum.splits option.splits)
  qed
qed

lemma wlp_bind_driver:
  "wlp (bind_driver os path created) (\<lambda>r t _. each registered_of t = []
     \<and> each removed_of t = (if list_ex bind_failed t then (case created of Some d \<Rightarrow> [d] | None \<Rightarrow> []) else [])
     \<and> list_all (\<lambda>ev. \<not> shows_root_device ev) t
     \<and> (case r of Ok _ \<Rightarrow> \<not> list_ex bind_failed t | Err _ \<Rightarrow> True)) s"
  unfolding bind_driver_def remove_device_def Let_def
  by (auto intro!: wlp_os_callI simp: wlp_rules wlp_try DIF_REGISTERDEVICE_def DIF_REMOVE_def
      split: sum.split option.split)

text \<open>
  \<open>rolls_back\<close>: a device is only registered when none with the hardware ID was seen, and it is
  removed again exactly when binding the driver failed.
\<close>

definition rolls_back :: "os_event list \<Rightarrow> bool" where
  "rolls_back t \<longleftrightarrow>
     each removed_of t = (if list_ex bind_failed t then each registered_of t else [])
     \<and> length (each registered_of t) \<le> 1
     \<and> (each registered_of t = [] \<or> list_all (\<lambda>ev. \<not> shows_root_device ev) t)"

lemma neutral_rolls_back: "list_all neutral t \<Longrightarrow> rolls_back t"
  by (simp add: rolls_back_def neutral_trace)

lemma wlp_install_package:
  "wlp (install_package os path) (\<lambda>r t _. rolls_back t
     \<and> (case r of Ok _ \<Rightarrow> \<not> list_ex bind_failed t | Err _ \<Rightarrow> True)) s"
proof -
  have prefix: "wlp (try_io (create_if_missing os) (\<lambda>created.
         bind_io (bind_driver os w created) (\<lambda>r.
         bind_io (drop_created os created) (\<lambda>_. return_io r))))
     (\<lambda>r t _. rolls_back t \<and> (case r of Ok _ \<Rightarrow> \<not> list_ex bind_failed t | Err _ \<Rightarrow> True)) s'" for w s'
  proof (rule wlp_tryI [OF wlp_create_if_missing], goal_cases)
    case (1 e t s')
    then show ?case by (simp add: rolls_back_def)
  next
    case (2 created t s')
    show ?case
    proof (rule wlp_bindI [OF wlp_bind_driver], goal_cases)
      case (1 r u s'')
      have dropped: "wlp (drop_created os created) (\<lambda>_ v _. list_all neutral v
          \<and> list_all (\<lambda>ev. \<not> shows_root_device ev) v) s''"
        unfolding drop_created_def destroy_device_list_def
        by (auto simp: wlp_rules neutral_def intro!: wlp_os_callI split: option.split)
      show ?case
        unfolding wlp_rules append_Nil2
      proof (rule wlp_mono [OF dropped], elim conjE)
        fix x v s3 assume v: "list_all neutral v" "list_all (\<lambda>ev. \<not> shows_root_device ev) v"
        show "rolls_back (t @ u @ v)
            \<and> (case r of Ok _ \<Rightarrow> \<not> list_ex bind_failed (t @ u @ v) | Err _ \<Rightarrow> True)"
          using 1 2 v neutral_trace [OF v(1)]
          by (cases created) (auto simp: rolls_back_def split: sum.splits)
      qed
    qed
  qed
  have silent: "rolls_back (ev # t)" if "neutral ev" "\<not> shows_root_device ev" "rolls_back t" for ev t
    using that by (simp add: rolls_back_def neutral_def)
  show ?thesis
  proof (cases "wide_units path")
    case (Inl e)
    then show ?thesis
      by (simp add: install_package_def wlp_try wlp_return map_err_def rolls_back_def)
  next
    case (Inr w)
    have install: "wlp (bind_io (os_call (su_install_driver (os_setup os) w) (Setup \<circ> Install_Driver w))
        (\<lambda>x. case fst x of
           Some code \<Rightarrow> fail_io (f code)
         | None \<Rightarrow> try_io (create_if_missing os) (\<lambda>created.
             bind_io (bind_driver os w created) (\<lambda>r.
             bind_io (drop_created os created) (\<lambda>_. return_io r)))))
      (\<lambda>r t _. rolls_back t \<and> (case r of Ok _ \<Rightarrow> \<not> list_ex bind_failed t | Err _ \<Rightarrow> True)) s'" for f s'
    proof (rule wlp_bindI [OF wlp_os_call_event])
      fix x t and s'' :: "'a sys"
      assume t: "t = [(Setup \<circ> Install_Driver w) x]"
      have ev: "neutral (Setup (Install_Driver w x))" by (simp add: neutral_def)
      show "wlp (case fst x of
           Some code \<Rightarrow> fail_io (f code)
         | None \<Rightarrow> try_io (create_if_missing os) (\<lambda>created.
             bind_io (bind_driver os w created) (\<lambda>r.
             bind_io (drop_created os created) (\<lambda>_. return_io r))))
        (\<lambda>r t' _. rolls_back (t @ t')
           \<and> (case r of Ok _ \<Rightarrow> \<not> list_ex bind_failed (t @ t') | Err _ \<Rightarrow> True)) s''"
      proof (cases "fst x")
        case None
        then show ?thesis
          using ev t by (auto intro!: wlp_mono [OF prefix] silent simp: neutral_def split: sum.splits)
      next
        case (Some code)
        with ev t show ?thesis by (simp add: wlp_rules neutral_rolls_back)
      qed
    qed
    show ?thesis
      unfolding install_package_def wlp_try wlp_return Inr map_err_simps sum.case append_Nil
      by (rule install [unfolded wlp_try wlp_return])
  qed
qed

text \<open>Extraction: success means that all three files were written, none of them empty.\<close>

definition package_files :: "package \<Rightarrow> wstr option \<Rightarrow> (wstr \<times> u8 list) list" where
  "package_files pk program_data = (let directory = package_directory pk program_data in
     [(path_join directory (lit ''WispDisk.sys''), pk_sys pk),
      (path_join directory (lit ''WispDisk.inf''), pk_inf pk),
      (path_join directory (lit ''WispDisk.cat''), pk_cat pk)])"

lemma wlp_write_package_file:
  "wlp (write_package_file os path contents) (\<lambda>r t _. case r of
     Ok _ \<Rightarrow> each written_of t = [(path, contents)] \<and> contents \<noteq> [] | Err _ \<Rightarrow> True) s"
  unfolding write_package_file_def
  by (auto simp: wlp_rules unit_of_def intro!: wlp_os_callI split: option.split)

lemma wlp_extract_embedded:
  "wlp (extract_embedded pk os) (\<lambda>r t _. case r of
     Ok _ \<Rightarrow> \<exists>pd. each written_of t = package_files pk pd
       \<and> list_all (\<lambda>f. snd f \<noteq> []) (package_files pk pd)
   | Err _ \<Rightarrow> True) s"
proof -
  have quiet: "wlp (map_io g (os_call f ev)) (\<lambda>r t _. each written_of t = []) s'"
    if "\<And>x. written_of (ev x) = []"
    for g :: "'b \<Rightarrow> 'c" and f and ev and s' :: "'a sys"
    unfolding wlp_map by (rule wlp_os_callI) (simp add: that)
  show ?thesis
    unfolding extract_embedded_def Let_def
  proof (rule wlp_bindI [OF wlp_os_call_event], goal_cases)
    case (1 pd t s')
    show ?case
    proof (rule wlp_tryI [OF quiet], goal_cases)
      case (3 a t1 s1)
      note p1 = 3
      show ?case
      proof (rule wlp_tryI [OF wlp_write_package_file], goal_cases)
        case (2 a t2 s2)
        note p2 = 2
        show ?case
        proof (rule wlp_tryI [OF wlp_write_package_file], goal_cases)
          case (2 a t3 s3)
          note p3 = 2
          show ?case
          proof (rule wlp_tryI [OF wlp_write_package_file], goal_cases)
            case (2 a t4 s4)
            then show ?case
              by (intro wlp_mono [OF quiet]) (use 1 p1 p2 p3 in
                \<open>auto simp: package_files_def Let_def split: sum.split intro!: exI [of _ pd]\<close>)
          qed simp
        qed simp
      qed simp
    qed simp_all
  qed
qed

lemma extract_shows_nothing:
  "all_events (\<lambda>ev. \<not> shows_root_device ev) (extract_embedded pk os)"
  unfolding extract_embedded_def write_package_file_def Let_def by (intro all_events_intros; simp)

text \<open>
  C32. Installing the embedded driver registers a root device at most once, and only when no
  present device carries its hardware ID; the device is removed again exactly when it was
  registered here and binding the driver failed. Success means that the driver was bound and
  that exactly the three package files, none of them empty, were written.
\<close>

theorem installation_rolls_back:
  "wlp (install_embedded_driver pk os) (\<lambda>r t s'.
     each removed_of t = (if list_ex bind_failed t then each registered_of t else [])
     \<and> length (each registered_of t) \<le> 1
     \<and> (each registered_of t = [] \<or> list_all (\<lambda>ev. \<not> shows_root_device ev) t)
     \<and> (case r of
          Ok _ \<Rightarrow> \<not> list_ex bind_failed t \<and> (\<exists>pd t1 t2. t = t1 @ t2
            \<and> each written_of t1 = package_files pk pd
            \<and> list_all (\<lambda>f. snd f \<noteq> []) (package_files pk pd))
        | Err _ \<Rightarrow> True)) s"
  unfolding install_embedded_driver_def
proof (rule wlp_tryI [OF wlp_conj [OF wlp_conj [OF all_events_wlp [OF neutral_extract(2)]
        all_events_wlp [OF extract_shows_nothing]] wlp_extract_embedded]], goal_cases)
  case (1 e t s')
  then show ?case by (simp add: neutral_trace)
next
  case (2 a t s')
  show ?case
  proof (rule wlp_mono [OF wlp_install_package], goal_cases)
    case (1 r u s'')
    with 2 neutral_trace [of t] show ?case
      by (auto simp: rolls_back_def split: sum.split)
  qed
qed

end
