(* ===== verification/Creation.thy ===== *)
theory Creation
  imports Provisioning Install
begin

text \<open>
  disk/creation.rs: creating a disk, initializing it, and rolling the allocation back when the
  initialization fails.
\<close>

section \<open>Operations\<close>

definition expected_location :: "adapter \<Rightarrow> created_disk \<Rightarrow> scsi_location" where
  "expected_location a d = \<lparr>sl_port = ad_port_number a, sl_path = cd_path_id d,
     sl_target = cd_target_id d, sl_lun = cd_lun d\<rparr>"

definition ensure_adapter :: "package \<Rightarrow> 'w os \<Rightarrow> ('w, adapter result) sys_io" where
  "ensure_adapter pk os = bind_io (first_adapter os) (\<lambda>found. case found of
     Some a \<Rightarrow> ok_io a
   | None \<Rightarrow> try_io (install_embedded_driver pk os) (\<lambda>_. wait_for_adapter os DEVICE_WAIT))"

definition initialize_created_disk ::
  "'w os \<Rightarrow> adapter \<Rightarrow> created_disk \<Rightarrow> drive_letter \<Rightarrow> media_kind \<Rightarrow> u64 \<Rightarrow> file_system
     \<Rightarrow> ('w, unit result) sys_io" where
  "initialize_created_disk os a d letter media size_bytes file_system =
     try_io (ensure_drive_letter_available os letter) (\<lambda>_.
     let location = expected_location a d in
     try_io (wait_for_physical_disk os location DEVICE_WAIT) (\<lambda>number.
     try_io (verify_physical_disk_location os number location) (\<lambda>_.
     try_io (initialize_and_format os number letter media size_bytes (cd_device_id d) location file_system) (\<lambda>_.
     try_io (wait_for_drive_state os letter True DEVICE_WAIT) (\<lambda>_.
     verify_mounted_drive os letter number location)))))"

text \<open>The retry loop of the rollback: only a refused lock is tried again, until the deadline.\<close>

definition rollback_round ::
  "'w os \<Rightarrow> adapter \<Rightarrow> created_disk \<Rightarrow> nat \<Rightarrow> unit \<Rightarrow> ('w, (unit, unit result) flow) sys_io" where
  "rollback_round os a d deadline x =
     bind_io (delete_allocation os a (cd_adapter_instance d) (cd_device_id d) False) (\<lambda>r. case r of
       Ok _ \<Rightarrow> return_io (Break r)
     | Err e \<Rightarrow> if is_lock_refusal e
         then bind_io now (\<lambda>t. if t < deadline
           then bind_io (sleep os RETRY_INTERVAL) (\<lambda>_. return_io (Continue ()))
           else return_io (Break r))
         else return_io (Break r))"

definition rollback_error :: "created_disk \<Rightarrow> error \<Rightarrow> unit result \<Rightarrow> error" where
  "rollback_error d e r = (case r of
     Ok _ \<Rightarrow> Context (Ctx (lit ''failed to initialize the new disk; the driver allocation was rolled back'')) e
   | Err e' \<Rightarrow> recovery_failed e
       (lit ''failed to initialize device '' @ dec_digits (unat (cd_device_id d))
        @ lit '' on adapter instance '' @ dec_digits (unat (cd_adapter_instance d))
        @ lit ''; driver rollback also failed'') e')"

definition rollback_created_disk ::
  "'w os \<Rightarrow> adapter \<Rightarrow> created_disk \<Rightarrow> error \<Rightarrow> ('w, error) sys_io" where
  "rollback_created_disk os a d e =
     bind_io now (\<lambda>t.
     map_io (rollback_error d e) (loop_io (rollback_round os a d (t + DEVICE_WAIT)) ()))"

definition check_capabilities :: "query_version_response \<Rightarrow> media_kind \<Rightarrow> unit result" where
  "check_capabilities version media =
     (let required = CAP_CREATE_DELETE OR CAP_READ_WRITE in
      if qv_capabilities version AND required \<noteq> required
      then Err (Msg (lit ''loaded driver lacks required capabilities (reported 0x''
        @ hex_fixed 8 (unat (qv_capabilities version)) @ lit '')''))
      else if media = Removable \<and> qv_capabilities version AND CAP_REMOVABLE = 0
      then Err (Msg (lit ''loaded driver does not support removable-media disks''))
      else Ok ())"

definition created_message :: "media_kind \<Rightarrow> drive_letter \<Rightarrow> u64 \<Rightarrow> file_system \<Rightarrow> u32 \<Rightarrow> ustring" where
  "created_message media letter size_bytes file_system device_id =
     lit ''created '' @ media_kind_name media @ lit '' WispDisk '' @ drive_letter_display letter
     @ lit '' ('' @ dec_digits (unat size_bytes) @ lit '' bytes, '' @ file_system_name file_system
     @ lit '', device id '' @ dec_digits (unat device_id) @ lit '')''"

text \<open>\<open>add_disk\<close> once the disk exists.\<close>

definition finish_created_disk ::
  "'w os \<Rightarrow> adapter \<Rightarrow> created_disk \<Rightarrow> drive_letter \<Rightarrow> media_kind \<Rightarrow> u64 \<Rightarrow> file_system
     \<Rightarrow> ('w, unit result) sys_io" where
  "finish_created_disk os a d letter media size_bytes file_system =
     bind_io (initialize_created_disk os a d letter media size_bytes file_system) (\<lambda>r. case r of
       Err e \<Rightarrow> map_io Err (rollback_created_disk os a d e)
     | Ok _ \<Rightarrow> bind_io (println (created_message media letter size_bytes file_system (cd_device_id d)))
         (\<lambda>_. ok_io ()))"

definition add_disk ::
  "package \<Rightarrow> 'w os \<Rightarrow> drive_letter \<Rightarrow> media_kind \<Rightarrow> u64 \<Rightarrow> file_system \<Rightarrow> ('w, unit result) sys_io" where
  "add_disk pk os letter media size_bytes file_system =
     try_io (ensure_drive_letter_available os letter) (\<lambda>_.
     try_io (ensure_adapter pk os) (\<lambda>a. owning os (ad_handle a)
       (try_io (query_version os a) (\<lambda>version.
        try_io (return_io (check_capabilities version media)) (\<lambda>_.
        try_io (require_recovery os a) (\<lambda>_.
        try_io (create_disk os a letter media size_bytes) (\<lambda>d.
          finish_created_disk os a d letter media size_bytes file_system)))))))"

section \<open>Failures that leave nothing unresolved\<close>

text \<open>
  \<open>definite m\<close>: no failure of \<open>m\<close> is an unresolved mutation. Everything that initializes a disk
  is definite, since it asks the driver for no mutation.
\<close>

definition definite :: "('w, 'a result) sys_io \<Rightarrow> bool" where
  "definite m \<longleftrightarrow> (\<forall>s. wlp m (\<lambda>r _ _. plainly r) s)"

definition definite_round :: "('w, ('c, 'a result) flow) sys_io \<Rightarrow> bool" where
  "definite_round m \<longleftrightarrow> (\<forall>s. wlp m (\<lambda>r _ _. case r of Continue _ \<Rightarrow> True | Break b \<Rightarrow> plainly b) s)"

named_theorems definite_intros \<open>definite failure of the combinators and the operations\<close>

lemma definite_basic [definite_intros]:
  "plainly r \<Longrightarrow> definite (return_io r)" "definite (ok_io a)"
  "\<not> is_unresolved e \<Longrightarrow> definite (fail_io e)"
  "\<not> is_unresolved e \<Longrightarrow> definite (ensure_io b e)"
  "(\<And>a. plainly (g a)) \<Longrightarrow> definite (map_io g m)"
  by (simp_all add: definite_def wlp_rules wlp_mono [OF wlp_any])

lemma definite_bind [definite_intros]: "(\<And>a. definite (f a)) \<Longrightarrow> definite (bind_io m f)"
  unfolding definite_def wlp_bind by (blast intro: wlp_mono [OF wlp_any])

lemma definite_try [definite_intros]:
  "definite m \<Longrightarrow> (\<And>a. definite (f a)) \<Longrightarrow> definite (try_io m f)"
  unfolding definite_def by (auto intro: wlp_tryI)

lemma definite_if [definite_intros]:
  "(b \<Longrightarrow> definite m) \<Longrightarrow> (\<not> b \<Longrightarrow> definite n) \<Longrightarrow> definite (if b then m else n)"
  by simp

lemma definite_case_sum [definite_intros]:
  "(\<And>e. x = Err e \<Longrightarrow> definite (g e)) \<Longrightarrow> (\<And>y. x = Ok y \<Longrightarrow> definite (f y)) \<Longrightarrow>
    definite (case x of Err e \<Rightarrow> g e | Ok y \<Rightarrow> f y)"
  by (cases x) auto

lemma definite_case_option [definite_intros]:
  "definite m \<Longrightarrow> (\<And>y. definite (f y)) \<Longrightarrow> definite (case x of None \<Rightarrow> m | Some y \<Rightarrow> f y)"
  by (cases x) auto

lemma definite_case_list [definite_intros]:
  "definite m \<Longrightarrow> (\<And>y ys. definite (f y ys)) \<Longrightarrow> definite (case x of [] \<Rightarrow> m | y # ys \<Rightarrow> f y ys)"
  by (cases x) auto

lemma definite_case_prod [definite_intros]:
  "(\<And>a b. definite (f a b)) \<Longrightarrow> definite (case x of (a, b) \<Rightarrow> f a b)"
  by (cases x) auto

lemma definite_context [definite_intros]: "definite m \<Longrightarrow> definite (context_io (Ctx c) m)"
  unfolding definite_def wlp_context
  by (rule allI, drule spec, erule wlp_mono) (auto simp: map_err_def split: sum.splits)

lemma definite_io_context [definite_intros]: "definite (io_context c m)"
  unfolding io_context_def by (intro definite_intros) (simp add: map_err_def split: sum.split)

lemma definite_owning [definite_intros]: "definite m \<Longrightarrow> definite (owning os h m)"
  unfolding owning_def definite_def wlp_rules
  by (rule allI, drule spec, erule wlp_mono) (rule wlp_mono [OF wlp_any])

lemma definite_loop [definite_intros]:
  assumes "\<And>x. definite_round (body x)"
  shows "definite (loop_io body x)"
  unfolding definite_def
proof
  fix s
  show "wlp (loop_io body x) (\<lambda>r _ _. plainly r) s"
    by (rule wlp_loop0 [where I = "\<lambda>_ _ _. True"])
      (use assms in \<open>auto simp: definite_round_def\<close>)
qed

lemma definite_keep: "definite m \<Longrightarrow> definite (bind_io m (\<lambda>a. bind_io (n a) (\<lambda>_. return_io a)))"
  unfolding definite_def wlp_rules
  by (rule allI, drule spec, erule wlp_mono) (rule wlp_mono [OF wlp_any])

lemma definite_round_of:
  fixes k :: "'b result \<Rightarrow> ('w, ('c, 'd result) flow) sys_io"
  assumes "definite m" and "\<And>e. \<not> is_unresolved e \<Longrightarrow> definite_round (k (Err e))"
    and "\<And>y. definite_round (k (Ok y))"
  shows "definite_round (bind_io m k)"
  unfolding definite_round_def
proof
  fix s
  show "wlp (bind_io m k) (\<lambda>r _ _. case r of Continue _ \<Rightarrow> True | Break b \<Rightarrow> plainly b) s"
  proof (rule wlp_bindI)
    show "wlp m (\<lambda>r _ _. plainly r) s" using assms(1) by (simp add: definite_def)
    fix a :: "'b result" and t and s' :: "'w sys"
    assume "plainly a"
    then show "wlp (k a) (\<lambda>r _ _. case r of Continue _ \<Rightarrow> True | Break b \<Rightarrow> plainly b) s'"
      using assms(2,3) by (cases a) (auto simp: definite_round_def)
  qed
qed

lemma definite_round_step:
  "definite m \<Longrightarrow> definite_round (bind_io m (\<lambda>r. return_io (case r of
     Err e \<Rightarrow> Break (Err e) | Ok _ \<Rightarrow> Continue x)))"
  by (rule definite_round_of) (simp_all add: definite_round_def wlp_rules)

lemma definite_round_basic [definite_intros]:
  "definite_round (return_io (Continue x))" "plainly b \<Longrightarrow> definite_round (return_io (Break b))"
  "(\<And>a. definite_round (f a)) \<Longrightarrow> definite_round (bind_io m f)"
  unfolding definite_round_def wlp_rules by (auto intro: wlp_mono [OF wlp_any])

lemma definite_round_cases [definite_intros]:
  "(b \<Longrightarrow> definite_round m1) \<Longrightarrow> (\<not> b \<Longrightarrow> definite_round m2) \<Longrightarrow> definite_round (if b then m1 else m2)"
  "definite_round m1 \<Longrightarrow> (\<And>y. definite_round (g y)) \<Longrightarrow>
    definite_round (case x of None \<Rightarrow> m1 | Some y \<Rightarrow> g y)"
  "(\<And>e. z = Err e \<Longrightarrow> definite_round (k e)) \<Longrightarrow> (\<And>y. z = Ok y \<Longrightarrow> definite_round (j y)) \<Longrightarrow>
    definite_round (case z of Err e \<Rightarrow> k e | Ok y \<Rightarrow> j y)"
  by (auto split: option.split sum.split)

lemma plainly_try [intro]: "plainly r \<Longrightarrow> (\<And>a. plainly (f a)) \<Longrightarrow> plainly (try_res r f)"
  by (cases r) auto

lemma plainly_reads [simp]:
  "plainly (read_scsi_address answer)" "plainly (read_device_number num)"
  "plainly (read_disk_extents ext)" "plainly (wait_result w)" "plainly (wmi_context t x)"
  "plainly (check_storage_method action status)" "plainly (check_new_disk disk sz)"
  "plainly (usable_partition disk p)" "plainly (select_volume c vs)"
  unfolding read_scsi_address_def read_device_number_def read_disk_extents_def wait_result_def
    wmi_context_def check_storage_method_def check_new_disk_def usable_partition_def select_volume_def
  by (auto simp: Let_def map_err_def split: sum.split prod.split list.split)

lemma definite_disks [definite_intros]:
  "definite (verify_physical_disk_location os number location)" "definite (disk_number os h)"
  "definite (verify_mounted_drive os letter number location)"
  "definite (notification_new os)" "definite (notification_wait os n timeout)"
  unfolding verify_mounted_drive_def verify_physical_disk_location_def physical_disk_address_def
    scsi_location_of_def disk_number_def notification_new_def notification_wait_def Let_def changed_identity_def
  by (intro definite_intros; simp)+

lemma definite_find [definite_intros]: "definite (find_physical_disk os expected)"
proof -
  have probes: "definite_round (find_round os dset expected x)" for dset x
    unfolding find_round_def multiple_disks_def
    by (cases x) (auto intro!: definite_intros)
  show ?thesis
    unfolding find_physical_disk_def
    by (intro definite_keep [OF definite_loop] definite_bind definite_case_sum probes definite_basic) simp
qed

lemma definite_waits [definite_intros]:
  "definite (wait_for_physical_disk os location timeout)"
  "definite (wait_for_drive_state os letter present timeout)"
  "definite (ensure_drive_letter_available os letter)" "definite (wait_for_volume os c)"
proof -
  show "definite (wait_for_physical_disk os location timeout)"
    unfolding wait_for_physical_disk_def did_not_appear_def
    by (intro definite_try definite_disks definite_bind definite_keep definite_loop
        definite_round_of [OF definite_find])
      (auto intro!: definite_round_step definite_disks definite_round_cases
         definite_round_basic(1,2) definite_round_basic(3) [where m = now] split: option.split)
  show "definite (wait_for_drive_state os letter present timeout)"
    unfolding wait_for_drive_state_def by (intro definite_intros) simp_all
  show "definite (ensure_drive_letter_available os letter)"
    unfolding ensure_drive_letter_available_def by (intro definite_intros) simp_all
  show "definite (wait_for_volume os c)"
  proof -
    have query: "definite (query_volumes os c)"
      unfolding query_volumes_def by (intro definite_intros) simp
    have select: "\<not> is_unresolved e" if "select_volume c vs = Err e" for vs e
      using plainly_reads(9) [of c vs] that by simp
    show ?thesis
      unfolding wait_for_volume_def
      by (intro definite_bind definite_loop definite_round_of [OF query])
        (auto intro!: definite_intros select split: sum.split option.split)
  qed
qed

lemma definite_provisioning [definite_intros]:
  "definite (wmi_connect os)" "definite (exec_method os path mtd inp action)"
  "definite (get_disk os number)" "definite (get_partitions os number)"
  "definite (create_max_partition os disk c file_system)"
  "definite (prepare_partition os disk c media file_system)"
  "definite (assign_drive_letter os p c)"
  "definite m \<Longrightarrow> definite (when_io b m)"
proof -
  show exec: "definite (exec_method os path mtd inp action)" for path mtd inp action
    unfolding exec_method_def by (intro definite_intros) auto
  show create: "definite (create_max_partition os disk c file_system)"
    unfolding create_max_partition_def Let_def
    by (intro definite_intros plainly_try) (auto simp: ok_or_def split: option.split)
  show parts: "definite (get_partitions os number)" for number
    unfolding get_partitions_def by (intro definite_intros plainly_try) simp_all
  show "definite (wmi_connect os)"
    unfolding wmi_connect_def by (intro definite_intros) (simp split: option.split)
  show "definite (get_disk os number)"
    unfolding get_disk_def by (intro definite_intros plainly_try) (simp_all split: list.split)
  have created: "definite (map_io (\<lambda>r. try_res r (\<lambda>p. Ok (p, True))) m)"
    if "definite m" for m :: "('a, msft_partition result) sys_io"
    using that unfolding definite_def wlp_map
    by (intro allI, drule_tac x = x in spec, elim wlp_mono) auto
  show "definite (prepare_partition os disk c media file_system)"
    unfolding prepare_partition_def initialize_mbr_def get_or_create_removable_partition_def
    by (intro definite_intros exec parts created create; simp)
  show "definite (assign_drive_letter os p c)"
    unfolding assign_drive_letter_def Let_def by (intro definite_intros exec)
  show "definite (when_io b m)" if "definite m"
    unfolding when_io_def using that by (intro definite_intros)
qed

lemma definite_initialization:
  "definite (initialize_created_disk os a d letter media sz file_system)"
  unfolding initialize_created_disk_def initialize_and_format_def online_disk_def set_disk_read_only_def
    format_volume_def Let_def
  by (intro definite_intros) simp

section \<open>What a creation asks of the driver\<close>

lemma quiet_storage [all_events_intros]:
  "all_events quiet (wmi_connect os)" "all_events quiet (exec_method os path mtd inp action)"
  "all_events quiet (get_disk os number)" "all_events quiet (get_partitions os number)"
  "all_events quiet (create_max_partition os disk c file_system)" "all_events quiet (query_volumes os c)"
  unfolding wmi_connect_def exec_method_def get_disk_def get_partitions_def create_max_partition_def
    query_volumes_def Let_def
  by (intro all_events_intros; simp)+

lemma quiet_initialization [all_events_intros]:
  "all_events quiet (drive_letter_in_use os letter)"
  "all_events quiet (ensure_drive_letter_available os letter)"
  "all_events quiet (prepare_partition os disk c media file_system)"
  "all_events quiet (assign_drive_letter os p c)" "all_events quiet (wait_for_volume os c)"
  "all_events quiet (wait_for_drive_state os letter present timeout)"
  "all_events quiet (verify_mounted_drive os letter number location)"
  unfolding drive_letter_in_use_def ensure_drive_letter_available_def prepare_partition_def
    initialize_mbr_def get_or_create_removable_partition_def assign_drive_letter_def
    wait_for_volume_def wait_for_drive_state_def verify_mounted_drive_def Let_def
  by (intro all_events_intros; simp split: list.split; intro conjI allI impI all_events_intros; simp)+

lemma quiet_initialize_and_format [all_events_intros]:
  "all_events quiet (initialize_and_format os number letter media sz device_id location file_system)"
  unfolding initialize_and_format_def online_disk_def set_disk_read_only_def format_volume_def
    when_io_def Let_def
  by (intro all_events_intros)

lemma quiet_initialize_created_disk [all_events_intros]:
  "all_events quiet (initialize_created_disk os a d letter media sz file_system)"
  unfolding initialize_created_disk_def Let_def by (intro all_events_intros)

text \<open>A drive that is verified: opened under its letter, on the disk, at the location.\<close>

definition drive_verified :: "drive_letter \<Rightarrow> u32 \<Rightarrow> scsi_location \<Rightarrow> os_event list \<Rightarrow> bool" where
  "drive_verified letter number location t \<longleftrightarrow> (\<exists>path h. wide (drive_path letter) = Ok path
     \<and> Create_File path GENERIC_READ (Ok h) \<in> set t \<and> shows_disk h number t
     \<and> shows_location number location t)"

lemma wlp_verify_mounted_drive:
  "wlp (verify_mounted_drive os letter number location) (\<lambda>r t _. case r of
     Ok _ \<Rightarrow> drive_verified letter number location t | Err _ \<Rightarrow> True) s"
proof (cases "wide (drive_path letter)")
  case (Inl e)
  then show ?thesis
    by (simp add: verify_mounted_drive_def open_device_def io_context_def wlp_try wlp_map wlp_return
        map_err_def)
next
  case (Inr path)
  have opened: "wlp (owning os h (try_io (disk_number os h) (\<lambda>actual.
       if actual \<noteq> number then fail_io (e actual)
       else verify_physical_disk_location os actual location)))
     (\<lambda>r t _. case r of Ok _ \<Rightarrow> shows_disk h number t \<and> shows_location number location t | Err _ \<Rightarrow> True) s'"
    for h e and s' :: "'a sys"
    unfolding owning_def
  proof (rule wlp_bindI [where P = "\<lambda>r t _. case r of
       Ok _ \<Rightarrow> shows_disk h number t \<and> shows_location number location t | Err _ \<Rightarrow> True"], goal_cases)
    case 1
    show ?case
    proof (rule wlp_tryI [OF wlp_disk_number], goal_cases)
      case (2 actual t u)
      then show ?case
        by (auto simp: wlp_rules shows_append intro!: wlp_mono [OF wlp_verify_location] split: sum.split)
    qed simp
  next
    case (2 r t u)
    then show ?case
      by (auto simp: wlp_rules shows_append intro!: wlp_mono [OF wlp_any] split: sum.splits)
  qed
  have handle: "wlp (io_context u (open_device os (drive_path letter) GENERIC_READ)) (\<lambda>r t _. case r of
       Ok h \<Rightarrow> t = [Create_File path GENERIC_READ (Ok h)] | Err _ \<Rightarrow> True) s" for u
    unfolding io_context_def open_device_def Inr wlp_map wlp_try wlp_return sum.case append_Nil
    by (rule wlp_mono [OF wlp_open_device_wide]) (auto split: sum.splits)
  show ?thesis
    unfolding verify_mounted_drive_def
  proof (rule wlp_tryI [OF handle], goal_cases)
    case (2 h t s')
    then have t: "t = [Create_File path GENERIC_READ (Ok h)]" by simp
    have "drive_verified letter number location (t @ u)"
      if "shows_disk h number u" "shows_location number location u" for u
      unfolding drive_verified_def
      by (intro exI [of _ path] exI [of _ h] conjI Inr shows_append(2,4) that) (simp add: t)
    then show ?case
      by (intro wlp_mono [OF opened]) (auto split: sum.splits)
  qed simp
qed

text \<open>
  Success of the initialization. The disk number was looked at before anything on it was changed;
  the only volume that Windows lists for the letter was formatted, right after the number was seen
  at the location of the new disk again; and after that the letter opened a volume of the same
  number, which was still at that location.
\<close>

definition formatted ::
  "u32 \<Rightarrow> scsi_location \<Rightarrow> nat \<Rightarrow> file_system \<Rightarrow> u32 \<Rightarrow> os_event list \<Rightarrow> bool" where
  "formatted number location letter file_system device_id t \<longleftrightarrow> (\<exists>t1 rows v ver.
     t = t1 @ Storage (Wmi_Volumes (volume_query letter) (Ok rows)) # ver
       @ [Storage (Wmi_Method (mv_path v) ''Format'' (format_input file_system device_id) (Ok 0))]
     \<and> filter (\<lambda>v. volume_has_drive_letter v letter) rows = [v]
     \<and> list_all no_format t1 \<and> list_all keeps ver \<and> shows_location number location ver)"

definition drive_ready ::
  "created_disk \<Rightarrow> adapter \<Rightarrow> drive_letter \<Rightarrow> u64 \<Rightarrow> file_system \<Rightarrow> os_event list \<Rightarrow> bool" where
  "drive_ready d a letter sz file_system t \<longleftrightarrow> (\<exists>number t1 t2 t3. t = t1 @ t2 @ t3
     \<and> changes_checked number sz t2
     \<and> formatted number (expected_location a d) (to_ascii_uppercase (unat (as_ascii letter)))
         file_system (cd_device_id d) t2
     \<and> drive_verified letter number (expected_location a d) t3)"

lemma drive_verified_append:
  "drive_verified letter number location t \<Longrightarrow> drive_verified letter number location (u @ t)"
  "drive_verified letter number location t \<Longrightarrow> drive_verified letter number location (t @ u)"
  unfolding drive_verified_def
  by (metis Un_iff set_append shows_append(2,4)) (metis Un_iff set_append shows_append(1,3))

lemma drive_ready_around:
  assumes "drive_ready d a letter sz file_system t"
  shows "drive_ready d a letter sz file_system (u @ t @ v)"
proof -
  from assms obtain number t1 t2 t3 where t: "t = t1 @ t2 @ t3" "changes_checked number sz t2"
    "formatted number (expected_location a d) (to_ascii_uppercase (unat (as_ascii letter)))
       file_system (cd_device_id d) t2"
    "drive_verified letter number (expected_location a d) t3"
    unfolding drive_ready_def by blast
  with drive_verified_append(2) [OF t(4)] show ?thesis
    unfolding drive_ready_def
    by (intro exI [of _ number] exI [of _ "u @ t1"] exI [of _ t2] exI [of _ "t3 @ v"]) simp
qed

lemmas drive_ready_append = drive_ready_around [where v = "[]", simplified] drive_ready_around [where u = "[]", simplified]

lemma wlp_format_called:
  "wlp (initialize_and_format os number letter media sz device_id location file_system) (\<lambda>r t _. case r of
     Ok _ \<Rightarrow> \<exists>path. Storage (Wmi_Method path ''Format'' (format_input file_system device_id) (Ok 0)) \<in> set t
   | Err _ \<Rightarrow> True) s"
proof -
  have step: "wlp (try_io m f) (\<lambda>r t _. case r of Ok _ \<Rightarrow> \<exists>path. ev path \<in> set t | Err _ \<Rightarrow> True) s'"
    if "\<And>a s. wlp (f a) (\<lambda>r t _. case r of Ok _ \<Rightarrow> \<exists>path. ev path \<in> set t | Err _ \<Rightarrow> True) s"
    for m :: "('a, 'b result) sys_io" and f :: "'b \<Rightarrow> ('a, unit result) sys_io"
      and ev :: "ustring \<Rightarrow> os_event" and s'
    by (rule wlp_tryI [OF wlp_any]) (auto intro!: wlp_mono [OF that] split: sum.splits)
  have last: "wlp (format_volume os v (volume_label file_system device_id) True True file_system)
      (\<lambda>r t _. case r of Ok _ \<Rightarrow>
         \<exists>path. Storage (Wmi_Method path ''Format'' (format_input file_system device_id) (Ok 0)) \<in> set t
       | Err _ \<Rightarrow> True) s'" for v s'
    by (rule wlp_mono [OF wlp_format_volume]) (auto split: sum.split)
  show ?thesis
    unfolding initialize_and_format_def Let_def by (intro step last)
qed

lemma formatted_success:
  assumes "formats_checked number location letter (format_input file_system device_id) t"
    and "Storage (Wmi_Method path ''Format'' (format_input file_system device_id) (Ok 0)) \<in> set t"
  shows "formatted number location letter file_system device_id t"
proof -
  let ?formatted = "Storage (Wmi_Method path ''Format'' (format_input file_system device_id) (Ok 0))"
  have formats: "is_format ?formatted" by simp
  with assms(2) have "\<not> list_all no_format t" unfolding list_all_iff by blast
  with assms(1) obtain t1 rows v ver answer where
    t: "t = t1 @ Storage (Wmi_Volumes (volume_query letter) (Ok rows)) # ver
          @ [Storage (Wmi_Method (mv_path v) ''Format'' (format_input file_system device_id) answer)]"
      "filter (\<lambda>v. volume_has_drive_letter v letter) rows = [v]"
      "list_all no_format t1" "list_all keeps ver" "shows_location number location ver"
    unfolding formats_checked_def by blast
  have "?formatted \<notin> set t1" "?formatted \<notin> set ver"
    using t(3,4) by (auto simp: list_all_iff)
  with assms(2) t(1) have "answer = Ok 0" by auto
  with t show ?thesis unfolding formatted_def by blast
qed

lemma wlp_format_success:
  "wlp (initialize_and_format os number letter media sz device_id location file_system) (\<lambda>r t _. case r of
     Ok _ \<Rightarrow> changes_checked number sz t
       \<and> formatted number location (to_ascii_uppercase (unat (as_ascii letter))) file_system device_id t
   | Err _ \<Rightarrow> True) s"
  by (rule wlp_mono [OF wlp_conj [OF wlp_changes_checked wlp_conj [OF wlp_formats_checked wlp_format_called]]])
    (auto intro: formatted_success split: sum.splits)

lemma wlp_initialize_created_disk:
  "wlp (initialize_created_disk os a d letter media sz file_system) (\<lambda>r t _. list_all quiet t
     \<and> (case r of Ok _ \<Rightarrow> drive_ready d a letter sz file_system t | Err e \<Rightarrow> \<not> is_unresolved e)) s"
proof -
  have ready: "wlp (initialize_created_disk os a d letter media sz file_system) (\<lambda>r t _. case r of
       Ok _ \<Rightarrow> drive_ready d a letter sz file_system t | Err e \<Rightarrow> True) s"
    unfolding initialize_created_disk_def Let_def
  proof (rule wlp_tryI [OF wlp_any], goal_cases)
    case (2 x1 t1 s1)
    show ?case
    proof (rule wlp_tryI [OF wlp_any], goal_cases)
      case (2 number t2 s2)
      show ?case
      proof (rule wlp_tryI [OF wlp_any], goal_cases)
        case (2 x3 t3 s3)
        show ?case
        proof (rule wlp_tryI [OF wlp_format_success], goal_cases)
          case (2 x4 t4 s4)
          then have "drive_ready d a letter sz file_system (t1 @ t2 @ t3 @ t4 @ t5 @ u)"
            if "drive_verified letter number (expected_location a d) u" for t5 u
            unfolding drive_ready_def
            by (intro exI [of _ number] exI [of _ "t1 @ t2 @ t3"] exI [of _ t4] exI [of _ "t5 @ u"])
              (use that in \<open>auto intro: drive_verified_append(1)\<close>)
          note verified = this
          show ?case
          proof (rule wlp_tryI [OF wlp_any], goal_cases)
            case (2 x5 t5 s5)
            show ?case
              by (rule wlp_mono [OF wlp_verify_mounted_drive]) (auto intro!: verified split: sum.splits)
          qed simp
        qed simp
      qed simp
    qed simp
  qed simp
  have plain: "wlp (initialize_created_disk os a d letter media sz file_system) (\<lambda>r _ _. plainly r) s"
    using definite_initialization [of os a d letter media sz file_system] unfolding definite_def by blast
  show ?thesis
    by (rule wlp_mono [OF wlp_conj [OF quiet_wlp [OF quiet_initialize_created_disk] wlp_conj [OF ready plain]]])
      (auto split: sum.splits)
qed

section \<open>The rollback\<close>

text \<open>
  One attempt of the rollback: a whole run of \<open>delete_allocation\<close> for this disk, never forced, with what
  the deletion of an allocation guarantees. \<open>rolled_back\<close>: attempts that ended with a refused lock,
  each followed by a wait, and the attempt that decided; a refusal decides only after the deadline.
\<close>

definition rollback_attempt ::
  "'w os \<Rightarrow> adapter \<Rightarrow> created_disk \<Rightarrow> unit result \<Rightarrow> os_event list \<Rightarrow> bool" where
  "rollback_attempt os a d r t \<longleftrightarrow>
     (\<exists>u u'. delete_allocation os a (cd_adapter_instance d) (cd_device_id d) False u = Some (r, t, u'))
     \<and> deletes_prepared a (cd_adapter_instance d) (cd_device_id d) False t
     \<and> deletes_only (cd_adapter_instance d) (cd_device_id d) t
     \<and> (case r of Ok _ \<Rightarrow> deletion_confirmed a (cd_adapter_instance d) (cd_device_id d) t | Err _ \<Rightarrow> True)"

definition attempts_refused :: "'w os \<Rightarrow> adapter \<Rightarrow> created_disk \<Rightarrow> os_event list \<Rightarrow> bool" where
  "attempts_refused os a d t \<longleftrightarrow> (\<exists>refused.
     t = concat (map (\<lambda>(e, u). u @ [Sleep RETRY_INTERVAL]) refused)
     \<and> list_all (\<lambda>(e, u). is_lock_refusal e \<and> rollback_attempt os a d (Err e) u) refused)"

definition rolled_back ::
  "'w os \<Rightarrow> adapter \<Rightarrow> created_disk \<Rightarrow> nat \<Rightarrow> unit result \<Rightarrow> os_event list \<Rightarrow> 'w sys \<Rightarrow> bool" where
  "rolled_back os a d deadline r t s' \<longleftrightarrow> (\<exists>t1 t2. t = t1 @ t2 \<and> attempts_refused os a d t1
     \<and> rollback_attempt os a d r t2
     \<and> (case r of Err e \<Rightarrow> is_lock_refusal e \<longrightarrow> deadline \<le> clock s' | Ok _ \<Rightarrow> True))"

lemma attempts_refused_more:
  assumes "attempts_refused os a d t" "is_lock_refusal e" "rollback_attempt os a d (Err e) u"
  shows "attempts_refused os a d (t @ u @ [Sleep RETRY_INTERVAL])"
proof -
  from assms(1) obtain refused where "t = concat (map (\<lambda>(e, u). u @ [Sleep RETRY_INTERVAL]) refused)"
    "list_all (\<lambda>(e, u). is_lock_refusal e \<and> rollback_attempt os a d (Err e) u) refused"
    unfolding attempts_refused_def by blast
  with assms(2,3) show ?thesis
    unfolding attempts_refused_def by (intro exI [of _ "refused @ [(e, u)]"]) simp
qed

lemma wlp_rollback_attempt:
  "wlp (delete_allocation os a (cd_adapter_instance d) (cd_device_id d) False)
     (\<lambda>r t _. rollback_attempt os a d r t) s"
  unfolding rollback_attempt_def
  by (rule wlp_mono [OF wlp_conj [OF wlp_run wlp_conj [OF wlp_delete_allocation
        wlp_conj [OF wlp_delete_allocation_requests wlp_allocation_confirms]]]]) blast

lemma wlp_rollback_loop:
  "wlp (loop_io (rollback_round os a d deadline) ()) (\<lambda>r t s'. rolled_back os a d deadline r t s') s"
proof (rule wlp_loop0 [where I = "\<lambda>_ T _. attempts_refused os a d T"])
  fix x T and u :: "'a sys"
  assume T: "attempts_refused os a d T"
  show "wlp (rollback_round os a d deadline x) (\<lambda>r t s'. case r of
      Continue _ \<Rightarrow> attempts_refused os a d (T @ t) | Break b \<Rightarrow> rolled_back os a d deadline b (T @ t) s') u"
    unfolding rollback_round_def
  proof (rule wlp_bindI [OF wlp_rollback_attempt])
    fix r :: "unit result" and t and v :: "'a sys"
    assume t: "rollback_attempt os a d r t"
    have settled: "rolled_back os a d deadline r (T @ t) w"
      if "case r of Err e \<Rightarrow> is_lock_refusal e \<longrightarrow> deadline \<le> clock w | Ok _ \<Rightarrow> True" for w
      unfolding rolled_back_def using T t that by blast
    show "wlp (case r of
         Ok _ \<Rightarrow> return_io (Break r)
       | Err e \<Rightarrow> if is_lock_refusal e
           then bind_io now (\<lambda>t. if t < deadline
             then bind_io (sleep os RETRY_INTERVAL) (\<lambda>_. return_io (Continue ()))
             else return_io (Break r))
           else return_io (Break r))
      (\<lambda>r t' s'. case r of Continue _ \<Rightarrow> attempts_refused os a d (T @ t @ t')
         | Break b \<Rightarrow> rolled_back os a d deadline b (T @ t @ t') s') v"
      using settled attempts_refused_more [OF T] t
      by (cases r) (auto simp: wlp_rules intro!: wlp_sleepI)
  qed
qed (simp add: attempts_refused_def exI [of _ "[]"])

lemma rollback_exit_code:
  "\<not> is_unresolved e \<Longrightarrow> error_exit_code (rollback_error d e rb) =
     (case rb of Ok _ \<Rightarrow> 1 | Err e' \<Rightarrow> error_exit_code e')"
  by (cases rb) (simp_all add: rollback_error_def error_exit_code_def resolved_downcast)

text \<open>\<open>rolled_back_after e0\<close>: the outcome of \<open>add_disk\<close> once the initialization has failed with \<open>e0\<close>.\<close>

definition rolled_back_after ::
  "'w os \<Rightarrow> adapter \<Rightarrow> created_disk \<Rightarrow> nat \<Rightarrow> error \<Rightarrow> error \<Rightarrow> os_event list \<Rightarrow> 'w sys \<Rightarrow> bool" where
  "rolled_back_after os a d deadline e0 e t s' \<longleftrightarrow> (\<exists>rb. rolled_back os a d deadline rb t s'
     \<and> e = rollback_error d e0 rb
     \<and> error_exit_code e = (case rb of Ok _ \<Rightarrow> 1 | Err e' \<Rightarrow> error_exit_code e'))"

lemma wlp_rollback:
  "\<not> is_unresolved e0 \<Longrightarrow> wlp (rollback_created_disk os a d e0)
     (\<lambda>e t s'. rolled_back_after os a d (clock s + DEVICE_WAIT) e0 e t s') s"
  unfolding rollback_created_disk_def wlp_rules append_Nil
  by (rule wlp_mono [OF wlp_rollback_loop]) (auto simp: rolled_back_after_def rollback_exit_code)

lemma wlp_finish_created_disk:
  "wlp (finish_created_disk os a d letter media sz file_system) (\<lambda>r t s'. case r of
     Ok _ \<Rightarrow> list_all quiet t \<and> drive_ready d a letter sz file_system t
   | Err e \<Rightarrow> \<exists>e0 t1 s1 t2.
       initialize_created_disk os a d letter media sz file_system s = Some (Err e0, t1, s1)
       \<and> \<not> is_unresolved e0 \<and> list_all quiet t1 \<and> t = t1 @ t2
       \<and> rolled_back_after os a d (clock s1 + DEVICE_WAIT) e0 e t2 s') s"
  unfolding finish_created_disk_def
proof (rule wlp_bindI [OF wlp_conj [OF wlp_run wlp_initialize_created_disk]], elim conjE)
  fix r :: "unit result" and t and s1 :: "'a sys"
  assume run: "initialize_created_disk os a d letter media sz file_system s = Some (r, t, s1)"
    and t: "list_all quiet t"
    and r: "case r of Ok _ \<Rightarrow> drive_ready d a letter sz file_system t | Err e \<Rightarrow> \<not> is_unresolved e"
  show "wlp (case r of
       Err e \<Rightarrow> map_io Err (rollback_created_disk os a d e)
     | Ok _ \<Rightarrow> bind_io (println (created_message media letter sz file_system (cd_device_id d))) (\<lambda>_. ok_io ()))
    (\<lambda>r t' s'. case r of
       Ok _ \<Rightarrow> list_all quiet (t @ t') \<and> drive_ready d a letter sz file_system (t @ t')
     | Err e \<Rightarrow> \<exists>e0 t1 s1 t2.
         initialize_created_disk os a d letter media sz file_system s = Some (Err e0, t1, s1)
         \<and> \<not> is_unresolved e0 \<and> list_all quiet t1 \<and> t @ t' = t1 @ t2
         \<and> rolled_back_after os a d (clock s1 + DEVICE_WAIT) e0 e t2 s') s1"
  proof (cases r)
    case (Inr u)
    with r have "drive_ready d a letter sz file_system (t @ v)" for v
      by (simp add: drive_ready_append)
    with t Inr show ?thesis by (simp add: wlp_rules)
  next
    case (Inl e0)
    with r have e0: "\<not> is_unresolved e0" by simp
    show ?thesis
      unfolding Inl sum.case wlp_map
      by (rule wlp_mono [OF wlp_rollback [OF e0]]) (use run t e0 Inl in blast)
  qed
qed

text \<open>
  C13. What happens to a created disk. On success nothing is asked of the driver and no volume is
  touched, the only volume that Windows lists for the letter was formatted while the disk number was
  at the location that the driver gave, and the letter was then seen to open a volume of that number
  at that location. When the initialization fails, a rollback follows: whole runs of
  \<open>delete_allocation\<close>, unforced, for exactly this disk of this adapter instance, repeated after a wait
  as long as a lock is refused and the deadline has not passed. Each asks for the deletion only after
  all volumes of the disk were locked, dismounted and unmounted, and succeeds only when the driver
  confirmed the deletion and its inventory no longer has the device. The error is that of the
  initialization with the result of the rollback, and the exit status is 1 when the rollback
  succeeded and otherwise the rollback's.
\<close>

theorem creation_is_finished_or_rolled_back:
  "wlp (finish_created_disk os a d letter media sz file_system) (\<lambda>r t s'. case r of
     Ok _ \<Rightarrow> asks_nothing t \<and> actions_of t = [] \<and> drive_ready d a letter sz file_system t
   | Err e \<Rightarrow> \<exists>e0 t1 s1 refused t2 rb.
       initialize_created_disk os a d letter media sz file_system s = Some (Err e0, t1, s1)
       \<and> asks_nothing t1 \<and> actions_of t1 = []
       \<and> t = t1 @ concat (map (\<lambda>(e', u). u @ [Sleep RETRY_INTERVAL]) refused) @ t2
       \<and> list_all (\<lambda>(e', u). is_lock_refusal e' \<and> rollback_attempt os a d (Err e') u) refused
       \<and> rollback_attempt os a d rb t2
       \<and> (case rb of Ok _ \<Rightarrow> True | Err e' \<Rightarrow> if is_lock_refusal e' then clock s1 + DEVICE_WAIT \<le> clock s' else True)
       \<and> e = rollback_error d e0 rb
       \<and> error_exit_code e = (case rb of Ok _ \<Rightarrow> 1 | Err e' \<Rightarrow> error_exit_code e')) s"
proof (rule wlp_mono [OF wlp_finish_created_disk], goal_cases)
  case (1 r t s')
  show ?case
  proof (cases r)
    case (Inl e)
    with 1 obtain e0 t1 s1 v rb where run:
      "initialize_created_disk os a d letter media sz file_system s = Some (Err e0, t1, s1)"
      and t1: "list_all quiet t1" and t: "t = t1 @ v"
      and v: "rolled_back os a d (clock s1 + DEVICE_WAIT) rb v s'"
      and e: "e = rollback_error d e0 rb" "error_exit_code e = (case rb of Ok _ \<Rightarrow> 1 | Err e' \<Rightarrow> error_exit_code e')"
      by (auto simp: rolled_back_after_def)
    from v obtain refused t2 where
      "v = concat (map (\<lambda>(e, u). u @ [Sleep RETRY_INTERVAL]) refused) @ t2"
      "list_all (\<lambda>(e, u). is_lock_refusal e \<and> rollback_attempt os a d (Err e) u) refused"
      "rollback_attempt os a d rb t2"
      "case rb of Err e \<Rightarrow> is_lock_refusal e \<longrightarrow> clock s1 + DEVICE_WAIT \<le> clock s' | Ok _ \<Rightarrow> True"
      unfolding rolled_back_def attempts_refused_def by blast
    with run t e asks_nothing_quiet [OF t1] quiet_trace(1) [OF t1] show ?thesis
      unfolding Inl sum.case
      by (intro exI [of _ e0] exI [of _ t1] exI [of _ s1] exI [of _ refused] exI [of _ t2] exI [of _ rb])
        (auto split: sum.splits)
  next
    case (Inr u)
    with 1 show ?thesis by (simp add: asks_nothing_quiet quiet_trace)
  qed
qed

section \<open>The whole command\<close>

lemma quiet_install [all_events_intros]: "all_events quiet (install_embedded_driver pk os)"
proof -
  have exists: "all_events quiet (device_exists os)"
    unfolding device_exists_def exists_round_def device_has_hardware_id_def destroy_device_list_def
    by (intro all_events_intros; simp)
  have create: "all_events quiet (create_if_missing os)"
    unfolding create_if_missing_def create_device_def destroy_device_list_def Let_def
    by (intro all_events_intros exists; simp)
  have bind: "all_events quiet (bind_driver os path created)" for path created
    unfolding bind_driver_def remove_device_def Let_def by (intro all_events_intros; simp)
  have files: "all_events quiet (write_package_file os path contents)" for path contents
    unfolding write_package_file_def by (intro all_events_intros; simp)
  show ?thesis
    unfolding install_embedded_driver_def install_package_def extract_embedded_def drop_created_def
      destroy_device_list_def Let_def
    by (intro all_events_intros create bind files; simp)
qed

lemma quiet_scan [all_events_intros]: "all_events quiet (first_adapter os)"
proof -
  have probe: "all_events quiet (probe_port os port)" for port
    unfolding probe_port_def Let_def by (intro all_events_intros; simp)
  have "all_events quiet (scan_adapters os ports (\<lambda>a (_ :: unit). return_io (Break a)) c)" for ports c
    by (induction ports arbitrary: c) (auto intro!: all_events_intros probe)
  then show ?thesis
    unfolding first_adapter_def for_adapters_def by (intro all_events_map)
qed

lemma quiet_ensure_adapter [all_events_intros]: "all_events quiet (ensure_adapter pk os)"
  unfolding ensure_adapter_def wait_for_adapter_def by (intro all_events_intros; simp)

text \<open>
  \<open>asks_for letter media sz t\<close>: the creations asked for are one request, submitted any number of
  times. \<open>deletion_of inst ident\<close>: a request to delete this device of this adapter instance.
\<close>

definition asks_for :: "drive_letter \<Rightarrow> media_kind \<Rightarrow> u64 \<Rightarrow> os_event list \<Rightarrow> bool" where
  "asks_for letter media sz t \<longleftrightarrow> (\<exists>h q n. creates h letter media sz q
     \<and> requests_of Create_Reserved t = replicate n (request_buffer create_reserved_op q))"

definition deletion_of :: "u64 \<Rightarrow> u32 \<Rightarrow> u8 list \<Rightarrow> bool" where
  "deletion_of inst ident buffer \<longleftrightarrow> (\<exists>h q. buffer = request_buffer delete_reserved_op q
     \<and> deletes h ident q \<and> oh_instance h = inst)"

text \<open>
  What \<open>/add\<close> promises. Success: an adapter was opened at its port, it confirmed the creation of a
  disk that was asked for in this run, nothing was deleted, and that very disk is ready under the
  letter. Failure: nothing was deleted, or only the disk whose creation was confirmed in this run.
\<close>

definition adds ::
  "drive_letter \<Rightarrow> media_kind \<Rightarrow> u64 \<Rightarrow> file_system \<Rightarrow> unit result \<Rightarrow> os_event list \<Rightarrow> bool" where
  "adds letter media sz file_system r t \<longleftrightarrow> asks_for letter media sz t
     \<and> (case r of
          Ok _ \<Rightarrow> requests_of Delete_Reserved t = [] \<and> (\<exists>a d. adapter_opened a t
            \<and> creation_confirmed a letter media sz d t \<and> drive_ready d a letter sz file_system t)
        | Err _ \<Rightarrow> requests_of Delete_Reserved t = [] \<or> (\<exists>a d. adapter_opened a t
            \<and> creation_confirmed a letter media sz d t
            \<and> list_all (deletion_of (cd_adapter_instance d) (cd_device_id d)) (requests_of Delete_Reserved t)))"

lemma asks_for_nothing: "requests_of Create_Reserved t = [] \<Longrightarrow> asks_for letter media sz t"
  unfolding asks_for_def
  by (rule exI [of _ "\<lparr>oh_instance = i, oh_id = k\<rparr>" for i k],
      rule exI [of _ "create_message \<lparr>oq_header = hd, oq_adapter_instance = i, oq_operation_id = k\<rparr> letter media sz" for hd i k],
      rule exI [of _ 0])
    (simp add: creates_def create_message_def LOGICAL_SECTOR_SIZE_32_def)

lemma asks_for_append:
  "requests_of Create_Reserved t = [] \<Longrightarrow> asks_for letter media sz (t @ u) = asks_for letter media sz u"
  "requests_of Create_Reserved t = [] \<Longrightarrow> asks_for letter media sz (u @ t) = asks_for letter media sz u"
  by (simp_all add: asks_for_def)

lemma adds_nothing: "list_all quiet t \<Longrightarrow> adds letter media sz file_system (Err e) t"
  by (simp add: adds_def asks_for_nothing quiet_trace)

lemma adds_around:
  assumes "list_all quiet t" "list_all quiet v" "adds letter media sz file_system r u"
  shows "adds letter media sz file_system r (t @ u @ v)"
proof -
  note q = quiet_trace [OF assms(1)] quiet_trace [OF assms(2)]
  note around = creation_confirmed_around [OF _ q(3,6)] drive_ready_around [where u = t and v = v]
  show ?thesis
    using assms(3) q around unfolding adds_def
    by (cases r) (auto simp: asks_for_append, blast+)
qed

lemmas adds_append = adds_around [where v = "[]", simplified] adds_around [where t = "[]", simplified]

lemma deletions_of_attempts:
  "deletes_only inst ident t \<Longrightarrow> requests_of Create_Reserved t = []
     \<and> list_all (deletion_of inst ident) (requests_of Delete_Reserved t)"
  unfolding deletes_only_def by (elim conjE exE) (simp add: list_all_iff deletion_of_def, blast)

lemma rolled_back_requests:
  assumes "rolled_back_after os a d deadline e0 e t s'"
  shows "requests_of Create_Reserved t = []"
    "list_all (deletion_of (cd_adapter_instance d) (cd_device_id d)) (requests_of Delete_Reserved t)"
proof -
  let ?R = "\<lambda>t. requests_of Create_Reserved t = []
    \<and> list_all (deletion_of (cd_adapter_instance d) (cd_device_id d)) (requests_of Delete_Reserved t)"
  have one: "?R u" if "rollback_attempt os a d r u" for r u
    using that by (intro deletions_of_attempts) (simp add: rollback_attempt_def)
  have all: "?R (concat (map (\<lambda>(e, u). u @ [Sleep RETRY_INTERVAL]) refused))"
    if "list_all (\<lambda>(e, u). is_lock_refusal e \<and> rollback_attempt os a d (Err e) u) refused" for refused
    using that by (induction refused) (auto dest: one)
  from assms have "?R t"
    unfolding rolled_back_after_def rolled_back_def attempts_refused_def by (auto dest: one all)
  then show "requests_of Create_Reserved t = []"
    "list_all (deletion_of (cd_adapter_instance d) (cd_device_id d)) (requests_of Delete_Reserved t)" by simp_all
qed

lemma wlp_finish_requests:
  "wlp (finish_created_disk os a d letter media sz file_system) (\<lambda>r t _.
     requests_of Create_Reserved t = []
     \<and> list_all (deletion_of (cd_adapter_instance d) (cd_device_id d)) (requests_of Delete_Reserved t)
     \<and> (case r of
          Ok _ \<Rightarrow> requests_of Delete_Reserved t = [] \<and> drive_ready d a letter sz file_system t
        | Err _ \<Rightarrow> True)) s"
  by (rule wlp_mono [OF wlp_finish_created_disk])
    (auto simp: quiet_trace rolled_back_requests split: sum.splits)

lemma adds_created:
  assumes a: "adapter_opened a v" and v: "list_all quiet v"
    and t: "creation_confirmed a letter media sz d t" "requests_of Delete_Reserved t = []"
    and u: "requests_of Create_Reserved u = []"
      "list_all (deletion_of (cd_adapter_instance d) (cd_device_id d)) (requests_of Delete_Reserved u)"
      "case r of Ok _ \<Rightarrow> requests_of Delete_Reserved u = [] \<and> drive_ready d a letter sz file_system u | Err _ \<Rightarrow> True"
  shows "adds letter media sz file_system r (v @ t @ u)"
proof -
  have "asks_for letter media sz t" using t(1) unfolding creation_confirmed_def asks_for_def by blast
  moreover note creation_confirmed_around [OF t(1) quiet_trace(3) [OF v] u(1)]
  moreover have "drive_ready d a letter sz file_system (v @ t @ u)" if "drive_ready d a letter sz file_system u"
    using drive_ready_append(1) [OF that, of "v @ t"] by simp
  ultimately show ?thesis
    using a t(2) u quiet_trace [OF v] unfolding adds_def
    by (auto simp: asks_for_append split: sum.splits)
qed

lemma wlp_ensure_adapter:
  "wlp (ensure_adapter pk os) (\<lambda>r t _. list_all quiet t
     \<and> (case r of Ok a \<Rightarrow> adapter_opened a t | Err _ \<Rightarrow> True)) s"
proof (rule wlp_conj [OF quiet_wlp [OF quiet_ensure_adapter]])
  have fresh: "wlp (try_io (install_embedded_driver pk os) (\<lambda>_. wait_for_adapter os DEVICE_WAIT))
      (\<lambda>r t _. case r of Ok a \<Rightarrow> adapter_opened a (q @ t) | Err _ \<Rightarrow> True) u" for q u
    by (rule wlp_tryI [OF wlp_any], simp, rule wlp_mono [OF wlp_wait_for_adapter]) (auto split: sum.splits)
  show "wlp (ensure_adapter pk os) (\<lambda>r t _. case r of Ok a \<Rightarrow> adapter_opened a t | Err _ \<Rightarrow> True) s"
    unfolding ensure_adapter_def
    by (rule wlp_bindI [OF wlp_first_adapter]) (auto simp: wlp_rules intro: fresh split: option.splits)
qed

text \<open>Quiet steps, with the adapter already opened, change nothing of what follows.\<close>

lemma wlp_adds_try:
  fixes m :: "('w, 'b result) sys_io"
  assumes m: "all_events quiet m" and T: "list_all quiet T"
    and f: "\<And>a T s. list_all quiet T \<Longrightarrow> P T \<Longrightarrow> wlp (f a) (\<lambda>r t _. adds letter media sz file_system r (T @ t)) s"
    and P: "P T" "\<And>T t. P T \<Longrightarrow> P (T @ t)"
  shows "wlp (try_io m f) (\<lambda>r t _. adds letter media sz file_system r (T @ t)) s"
proof (rule wlp_tryI [OF quiet_wlp [OF m]])
  fix a t and u :: "'w sys"
  assume "list_all quiet t"
  with f [of "T @ t" a u] T P show "wlp (f a) (\<lambda>r t' _. adds letter media sz file_system r (T @ t @ t')) u" by simp
qed (use T in \<open>auto intro: adds_nothing\<close>)

lemma wlp_create_and_finish:
  assumes T: "list_all quiet T" "adapter_opened a T"
  shows "wlp (try_io (create_disk os a letter media sz) (\<lambda>d.
      finish_created_disk os a d letter media sz file_system))
    (\<lambda>r t _. adds letter media sz file_system r (T @ t)) s"
proof (rule wlp_tryI [OF wlp_conj [OF wlp_create_disk create_confirmed]], goal_cases)
  case (1 e t s')
  then have "asks_for letter media sz t" "requests_of Delete_Reserved t = []"
    unfolding asks_for_def by blast+
  then show ?case using quiet_trace [OF T(1)] by (simp add: adds_def asks_for_append)
next
  case (2 d t s')
  then have t: "creation_confirmed a letter media sz d t" "requests_of Delete_Reserved t = []" by auto
  show ?case
    by (rule wlp_mono [OF wlp_finish_requests]) (use adds_created [OF T(2,1) t] in blast)
qed

lemma wlp_add_disk:
  "wlp (add_disk pk os letter media sz file_system) (\<lambda>r t _. adds letter media sz file_system r t) s"
proof -
  have owned: "wlp (owning os h m) (\<lambda>r t _. adds letter media sz file_system r (T @ t)) u"
    if "wlp m (\<lambda>r t _. adds letter media sz file_system r (T @ t)) u"
    for h and m :: "('a, unit result) sys_io" and u T
    unfolding owning_def wlp_rules close_handle_def
    by (rule wlp_mono [OF that], rule wlp_os_callI) (use adds_append(2) in force)
  have opened: "wlp (try_io (query_version os a) (\<lambda>version.
        try_io (return_io (check_capabilities version media)) (\<lambda>_.
        try_io (require_recovery os a) (\<lambda>_.
        try_io (create_disk os a letter media sz) (\<lambda>d.
          finish_created_disk os a d letter media sz file_system)))))
      (\<lambda>r t _. adds letter media sz file_system r (T @ t)) u"
    if "list_all quiet T" "adapter_opened a T" for a T u
    by (intro wlp_adds_try [where P = "adapter_opened a"] wlp_create_and_finish all_events_intros that) simp_all
  show ?thesis
    unfolding add_disk_def
  proof (rule wlp_tryI [OF quiet_wlp [OF quiet_initialization(2)]], goal_cases)
    case (2 x t s')
    show ?case
    proof (rule wlp_tryI [OF wlp_ensure_adapter], goal_cases)
      case (1 e t' s'')
      with 2 show ?case using adds_nothing [of "t @ t'"] by simp
    next
      case (2 a t' s'')
      with \<open>list_all quiet t\<close> have "list_all quiet (t @ t')" "adapter_opened a (t @ t')" by simp_all
      from owned [OF opened [OF this]] show ?case by simp
    qed
  qed (rule adds_nothing)
qed

text \<open>
  C25. \<open>/add\<close> as a whole, whatever Windows and the driver answer: every creation it asks for is one
  and the same request, for the letter, the medium and exactly the size asked for. It succeeds
  only when an adapter that was opened at its port reserved an operation, was asked at least once for
  the disk under it and confirmed that this operation created a disk; nothing was deleted; and that
  disk, at its SCSI location behind this adapter, was found not to be a system disk and to have the
  size asked for, its volume was formatted, and the letter was seen to open a volume of it. When it
  fails, it has asked for no deletion but that of the disk whose creation was confirmed in this run.
\<close>

theorem add_disk_outcome:
  "wlp (add_disk pk os letter media sz file_system) (\<lambda>r t s'.
     asks_for letter media sz t
     \<and> (case r of
          Ok _ \<Rightarrow> requests_of Delete_Reserved t = [] \<and> (\<exists>a d. adapter_opened a t
            \<and> creation_confirmed a letter media sz d t \<and> drive_ready d a letter sz file_system t)
        | Err _ \<Rightarrow> requests_of Delete_Reserved t = [] \<or> (\<exists>a d. adapter_opened a t
            \<and> creation_confirmed a letter media sz d t
            \<and> list_all (deletion_of (cd_adapter_instance d) (cd_device_id d)) (requests_of Delete_Reserved t)))) s"
  using wlp_add_disk [unfolded adds_def] .

end
