(* ===== verification/Inventory.thy ===== *)
theory Inventory
  imports Removal
begin

text \<open>
  inventory.rs: collecting and presenting the driver's inventory with the disks and mount points
  that Windows reports for it. The value handed to \<open>serde_json\<close> is a \<open>json\<close>; its pretty printer
  is a parameter, as are the Unicode tables behind the \<open>Debug\<close> of a string.
\<close>

section \<open>The inventory\<close>

datatype inventory_disk_state = Inventory_Online | Inventory_Stopping | Inventory_Unknown

definition inventory_state :: "u32 \<Rightarrow> inventory_disk_state" where
  "inventory_state code = (if code = 1 then Inventory_Online
     else if code = 2 then Inventory_Stopping else Inventory_Unknown)"

fun inventory_state_name :: "inventory_disk_state \<Rightarrow> ustring" where
  "inventory_state_name Inventory_Online = lit ''online''"
| "inventory_state_name Inventory_Stopping = lit ''stopping''"
| "inventory_state_name Inventory_Unknown = lit ''unknown''"

record inventory_disk =
  id_device_id :: u32
  id_state :: inventory_disk_state
  id_size_bytes :: u64
  id_media :: media_kind
  id_requested_letter :: ustring
  id_create_operation_id :: ustring
  id_path :: u8
  id_target :: u8
  id_lun :: u8
  id_physical_disk :: "u32 option"
  id_mount_points :: "ustring list option"

record inventory_adapter =
  ia_adapter_instance :: ustring
  ia_port :: u8
  ia_allocated_bytes :: u64
  ia_pending_operations :: u32
  ia_disks :: "inventory_disk list"

text \<open>\<open>char::from_u32\<close> of a 16-bit unit: a surrogate is no character.\<close>

definition requested_letter :: "u16 \<Rightarrow> ustring" where
  "requested_letter u = (if unat u div 0x800 = 0x1B then lit ''?'' else [unat u])"

definition discover_mount_points :: "'w os \<Rightarrow> u32 \<Rightarrow> ('w, ustring list option) sys_io" where
  "discover_mount_points os number = map_io (\<lambda>r. case r of
       Err e \<Rightarrow> None
     | Ok volumes \<Rightarrow> Some (map utf16_lossy (concat (map vi_mount_points volumes))))
     (volumes_for_disk os number)"

text \<open>The fields that come from the driver's entry; the rest is what Windows says.\<close>

definition inventory_disk_of ::
  "disk_state \<Rightarrow> u32 option \<Rightarrow> ustring list option \<Rightarrow> inventory_disk" where
  "inventory_disk_of entry number mounts = \<lparr>
     id_device_id = di_device_id (ds_disk entry),
     id_state = inventory_state (ds_state entry),
     id_size_bytes = di_size_bytes (ds_disk entry),
     id_media = (if di_media_kind (ds_disk entry) = media_code Media_Removable then Removable else Fixed),
     id_requested_letter = requested_letter (di_requested_drive_letter (ds_disk entry)),
     id_create_operation_id = dec_digits (unat (ds_create_operation_id entry)),
     id_path = di_path_id (ds_disk entry),
     id_target = di_target_id (ds_disk entry),
     id_lun = di_lun (ds_disk entry),
     id_physical_disk = number,
     id_mount_points = mounts\<rparr>"

definition collect_disk :: "'w os \<Rightarrow> adapter \<Rightarrow> disk_state \<Rightarrow> ('w, inventory_disk result) sys_io" where
  "collect_disk os a entry =
     try_io (find_physical_disk os (disk_location a entry)) (\<lambda>number.
     bind_io (case number of None \<Rightarrow> return_io None | Some n \<Rightarrow> discover_mount_points os n)
       (\<lambda>mounts. ok_io (inventory_disk_of entry number mounts)))"

definition collect_adapter :: "'w os \<Rightarrow> adapter \<Rightarrow> ('w, inventory_adapter result) sys_io" where
  "collect_adapter os a =
     try_io (require_recovery os a) (\<lambda>_.
     try_io (adapter_state os a) (\<lambda>st.
     try_io (collect_io (collect_disk os a) (live_disks st)) (\<lambda>disks.
     ok_io \<lparr>ia_adapter_instance = dec_digits (unat (sr_adapter_instance st)),
       ia_port = ad_port_number a, ia_allocated_bytes = sr_allocated_bytes st,
       ia_pending_operations = sr_pending_operations st, ia_disks = disks\<rparr>)))"

text \<open>
  The fallible \<open>collect\<close> over the lazy iterator stops at the first failure; the adapter is dropped
  at the end of the closure.
\<close>

definition inventory_round ::
  "'w os \<Rightarrow> adapter \<Rightarrow> inventory_adapter list \<Rightarrow> ('w, (inventory_adapter list, error) flow) sys_io" where
  "inventory_round os a found = map_io (\<lambda>r. case r of
       Err e \<Rightarrow> Break e
     | Ok x \<Rightarrow> Continue (found @ [x]))
     (owning os (ad_handle a) (collect_adapter os a))"

definition collect_inventory :: "'w os \<Rightarrow> ('w, inventory_adapter list result) sys_io" where
  "collect_inventory os = map_io (\<lambda>r. case r of Break e \<Rightarrow> Err e | Continue found \<Rightarrow> Ok found)
     (for_adapters os (inventory_round os) [])"

section \<open>As text\<close>

text \<open>
  \<open>Debug\<close> of a string: ASCII as the library escapes it; \<open>printable\<close> says which other characters
  stand for themselves.
\<close>

definition hex_lower :: "nat \<Rightarrow> nat" where
  "hex_lower d = (if d < 10 then 48 + d else 87 + d)"

fun hex_digits :: "nat \<Rightarrow> ustring" where
  "hex_digits n = (if n < 16 then [hex_lower n] else hex_digits (n div 16) @ [hex_lower (n mod 16)])"

declare hex_digits.simps [simp del]

definition debug_char :: "(nat \<Rightarrow> bool) \<Rightarrow> nat \<Rightarrow> ustring" where
  "debug_char printable c =
     (if c = 0 then [92, 48]
      else if c = 9 then [92, 116]
      else if c = 10 then [92, 110]
      else if c = 13 then [92, 114]
      else if c = 34 \<or> c = 92 then [92, c]
      else if 32 \<le> c \<and> c < 127 \<or> 127 < c \<and> printable c then [c]
      else [92, 117, 123] @ hex_digits c @ [125])"

definition debug_string :: "(nat \<Rightarrow> bool) \<Rightarrow> ustring \<Rightarrow> ustring" where
  "debug_string printable s = [34] @ concat (map (debug_char printable) s) @ [34]"

fun join_with :: "ustring \<Rightarrow> ustring list \<Rightarrow> ustring" where
  "join_with sep [] = []"
| "join_with sep [x] = x"
| "join_with sep (x # y # ys) = x @ sep @ join_with sep (y # ys)"

definition debug_mounts :: "(nat \<Rightarrow> bool) \<Rightarrow> ustring list option \<Rightarrow> ustring" where
  "debug_mounts printable mounts = (case mounts of
     None \<Rightarrow> lit ''None''
   | Some points \<Rightarrow> lit ''Some([''
       @ join_with (lit '', '') (map (debug_string printable) points) @ lit ''])'')"

definition disk_display :: "(nat \<Rightarrow> bool) \<Rightarrow> inventory_disk \<Rightarrow> ustring" where
  "disk_display printable d =
     lit ''  id '' @ dec_digits (unat (id_device_id d)) @ lit '' '' @ inventory_state_name (id_state d)
     @ lit '' '' @ dec_digits (unat (id_size_bytes d)) @ lit '' bytes '' @ media_kind_name (id_media d)
     @ lit '' requested '' @ id_requested_letter d
     @ lit '': mounts '' @ debug_mounts printable (id_mount_points d)"

definition adapter_display :: "(nat \<Rightarrow> bool) \<Rightarrow> inventory_adapter \<Rightarrow> ustring" where
  "adapter_display printable x =
     lit ''adapter '' @ ia_adapter_instance x @ lit '' (Scsi'' @ dec_digits (unat (ia_port x)) @ lit ''): ''
     @ dec_digits (unat (ia_allocated_bytes x)) @ lit '' allocated bytes, ''
     @ dec_digits (unat (ia_pending_operations x)) @ lit '' pending operations''
     @ concat (map (\<lambda>d. 10 # disk_display printable d) (ia_disks x))"

section \<open>As JSON\<close>

datatype json =
    JNull
  | JNumber nat
  | JString ustring
  | JArray "json list"
  | JObject "(string \<times> json) list"

definition disk_json :: "inventory_disk \<Rightarrow> json" where
  "disk_json d = JObject [
     (''device_id'', JNumber (unat (id_device_id d))),
     (''state'', JString (inventory_state_name (id_state d))),
     (''size_bytes'', JNumber (unat (id_size_bytes d))),
     (''media'', JString (media_kind_name (id_media d))),
     (''requested_letter'', JString (id_requested_letter d)),
     (''create_operation_id'', JString (id_create_operation_id d)),
     (''path'', JNumber (unat (id_path d))),
     (''target'', JNumber (unat (id_target d))),
     (''lun'', JNumber (unat (id_lun d))),
     (''physical_disk'', case id_physical_disk d of None \<Rightarrow> JNull | Some n \<Rightarrow> JNumber (unat n)),
     (''mount_points'', case id_mount_points d of None \<Rightarrow> JNull | Some ps \<Rightarrow> JArray (map JString ps))]"

definition adapter_json :: "inventory_adapter \<Rightarrow> json" where
  "adapter_json x = JObject [
     (''adapter_instance'', JString (ia_adapter_instance x)),
     (''port'', JNumber (unat (ia_port x))),
     (''allocated_bytes'', JNumber (unat (ia_allocated_bytes x))),
     (''pending_operations'', JNumber (unat (ia_pending_operations x))),
     (''disks'', JArray (map disk_json (ia_disks x)))]"

definition inventory_json :: "inventory_adapter list \<Rightarrow> json" where
  "inventory_json xs = JArray (map adapter_json xs)"

section \<open>The listing\<close>

fun print_lines :: "ustring list \<Rightarrow> ('w, unit) sys_io" where
  "print_lines [] = return_io ()"
| "print_lines (l # ls) = bind_io (println l) (\<lambda>_. print_lines ls)"

definition list_inventory ::
  "(json \<Rightarrow> ustring + ustring) \<Rightarrow> (nat \<Rightarrow> bool) \<Rightarrow> 'w os \<Rightarrow> bool \<Rightarrow> ('w, unit result) sys_io" where
  "list_inventory pretty printable os json =
     try_io (collect_inventory os) (\<lambda>inventory.
     if json then try_io (return_io (map_err Msg (pretty (inventory_json inventory))))
       (\<lambda>t. bind_io (println t) (\<lambda>_. ok_io ()))
     else if inventory = []
     then bind_io (println (lit ''no WispDisk adapters'')) (\<lambda>_. ok_io ())
     else bind_io (print_lines (map (adapter_display printable) inventory)) (\<lambda>_. ok_io ()))"

section \<open>The JSON document\<close>

text \<open>The types of the document that \<open>/list /json\<close> prints.\<close>

datatype shape =
    Number_Below nat
  | Text
  | Nullable shape
  | List_Of shape
  | Fields "(string \<times> shape) list"

fun conforms :: "shape \<Rightarrow> json \<Rightarrow> bool"
  and fields_conform :: "(string \<times> shape) list \<Rightarrow> (string \<times> json) list \<Rightarrow> bool" where
  "conforms (Number_Below n) (JNumber k) \<longleftrightarrow> k < n"
| "conforms Text (JString t) \<longleftrightarrow> True"
| "conforms (Nullable sh) j \<longleftrightarrow> j = JNull \<or> conforms sh j"
| "conforms (List_Of sh) (JArray js) \<longleftrightarrow> list_all (conforms sh) js"
| "conforms (Fields fs) (JObject gs) \<longleftrightarrow> fields_conform fs gs"
| "conforms _ _ \<longleftrightarrow> False"
| "fields_conform [] [] \<longleftrightarrow> True"
| "fields_conform ((n, sh) # fs) ((m, j) # gs) \<longleftrightarrow> n = m \<and> conforms sh j \<and> fields_conform fs gs"
| "fields_conform _ _ \<longleftrightarrow> False"

definition disk_shape :: shape where
  "disk_shape = Fields [(''device_id'', Number_Below (2 ^ 32)), (''state'', Text),
     (''size_bytes'', Number_Below (2 ^ 64)), (''media'', Text), (''requested_letter'', Text),
     (''create_operation_id'', Text), (''path'', Number_Below 256), (''target'', Number_Below 256),
     (''lun'', Number_Below 256), (''physical_disk'', Nullable (Number_Below (2 ^ 32))),
     (''mount_points'', Nullable (List_Of Text))]"

definition inventory_shape :: shape where
  "inventory_shape = List_Of (Fields [(''adapter_instance'', Text), (''port'', Number_Below 256),
     (''allocated_bytes'', Number_Below (2 ^ 64)), (''pending_operations'', Number_Below (2 ^ 32)),
     (''disks'', List_Of disk_shape)])"

lemma unat_bounds:
  "unat (a :: u8) < 256" "unat (b :: u32) < 4294967296" "unat (c :: u64) < 18446744073709551616"
  using unsigned_less [of a, where 'a = nat] unsigned_less [of b, where 'a = nat]
    unsigned_less [of c, where 'a = nat] by simp_all

lemma disk_json_conforms: "conforms disk_shape (disk_json d)"
  by (simp add: disk_shape_def disk_json_def unat_bounds list_all_iff split: option.split)

lemma inventory_json_conforms: "conforms inventory_shape (inventory_json xs)"
  by (simp add: inventory_shape_def inventory_json_def adapter_json_def unat_bounds list_all_iff
      disk_json_conforms)

lemma inventory_state_name_inj: "inventory_state_name x = inventory_state_name y \<Longrightarrow> x = y"
  by (cases x; cases y) simp_all

lemma media_kind_name_inj: "media_kind_name x = media_kind_name y \<Longrightarrow> x = y"
  by (cases x; cases y) simp_all

lemma map_JString_inj [simp]: "map JString xs = map JString ys \<longleftrightarrow> xs = ys"
  by (rule inj_map_eq_map [OF injI]) simp

lemma unat_inj [simp]: "unat x = unat y \<longleftrightarrow> x = y"
  by (auto dest: unsigned_word_eqI)

lemma disk_json_inj: "disk_json x = disk_json y \<Longrightarrow> x = y"
  by (auto simp: disk_json_def dest: inventory_state_name_inj media_kind_name_inj
      intro!: inventory_disk.equality split: option.splits)

lemma adapter_json_inj: "adapter_json x = adapter_json y \<Longrightarrow> x = y"
  by (auto simp: adapter_json_def inj_map_eq_map [OF injI [OF disk_json_inj]]
      intro!: inventory_adapter.equality)

text \<open>
  C36. The JSON listing is typed and loses nothing: it is a list of adapters with exactly the
  documented fields, numbers within the ranges of their Rust types and the 64-bit identities as
  strings, and two inventories with the same document are the same inventory.
\<close>

theorem inventory_json_is_faithful:
  "conforms inventory_shape (inventory_json xs) \<and> (inventory_json xs = inventory_json ys \<longleftrightarrow> xs = ys)"
  by (simp add: inventory_json_conforms)
    (simp add: inventory_json_def inj_map_eq_map [OF injI [OF adapter_json_inj]])

section \<open>What a listing reports\<close>

lemma wlp_collect_disk:
  "wlp (collect_disk os a entry) (\<lambda>r t s'. \<exists>found t1 s1.
     find_physical_disk os (disk_location a entry) s = Some (found, t1, s1)
     \<and> (case found of
          Err e \<Rightarrow> r = Err e
        | Ok number \<Rightarrow> \<exists>mounts. r = Ok (inventory_disk_of entry number mounts)
            \<and> (number = None \<longrightarrow> mounts = None))) s"
  unfolding collect_disk_def
  by (rule wlp_tryI [OF wlp_run])
    (auto simp: wlp_rules discover_mount_points_def intro: wlp_mono [OF wlp_any] split: option.split)

text \<open>
  \<open>disk_reported os a entry d t\<close>: the calls \<open>t\<close> searched Windows for the disk at the location of the
  entry, and its mount points when it was found, and \<open>d\<close> is the entry with just these answers.
\<close>

definition disk_reported :: "'w os \<Rightarrow> adapter \<Rightarrow> disk_state \<Rightarrow> inventory_disk \<Rightarrow> os_event list \<Rightarrow> bool" where
  "disk_reported os a entry d t \<longleftrightarrow> (\<exists>number mounts t1 t2 s s'. t = t1 @ t2
     \<and> find_physical_disk os (disk_location a entry) s = Some (Ok number, t1, s')
     \<and> (case number of
          None \<Rightarrow> mounts = None \<and> t2 = []
        | Some n \<Rightarrow> \<exists>u u'. discover_mount_points os n u = Some (mounts, t2, u'))
     \<and> d = inventory_disk_of entry number mounts)"

fun disks_reported ::
  "'w os \<Rightarrow> adapter \<Rightarrow> disk_state list \<Rightarrow> inventory_disk list \<Rightarrow> os_event list \<Rightarrow> bool" where
  "disks_reported os a [] [] t \<longleftrightarrow> t = []"
| "disks_reported os a (entry # entries) (d # ds) t \<longleftrightarrow>
     (\<exists>t1 t2. t = t1 @ t2 \<and> disk_reported os a entry d t1 \<and> disks_reported os a entries ds t2)"
| "disks_reported os a _ _ t \<longleftrightarrow> False"

lemma wlp_disk_reported:
  "wlp (collect_disk os a entry) (\<lambda>r t _. case r of Ok d \<Rightarrow> disk_reported os a entry d t | Err _ \<Rightarrow> True) s"
  unfolding collect_disk_def
proof (rule wlp_tryI [OF wlp_run], simp)
  fix number t and u :: "'a sys"
  assume run: "find_physical_disk os (disk_location a entry) s = Some (Ok number, t, u)"
  show "wlp (bind_io (case number of None \<Rightarrow> return_io None | Some n \<Rightarrow> discover_mount_points os n)
      (\<lambda>mounts. ok_io (inventory_disk_of entry number mounts)))
    (\<lambda>r t' _. case r of Ok d \<Rightarrow> disk_reported os a entry d (t @ t') | Err _ \<Rightarrow> True) u"
  proof (cases number)
    case None
    have "disk_reported os a entry (inventory_disk_of entry None None) t"
      unfolding disk_reported_def
      by (intro exI [of _ None] exI [of _ t] exI [of _ "[]"] exI [of _ s] exI [of _ u])
        (use run None in simp)
    then show ?thesis by (simp add: None wlp_rules)
  next
    case (Some n)
    have "disk_reported os a entry (inventory_disk_of entry number mounts) (t @ v)"
      if "discover_mount_points os n u = Some (mounts, v, u')" for mounts v u'
      unfolding disk_reported_def
      by (intro exI [of _ number] exI [of _ mounts] exI [of _ t] exI [of _ v] exI [of _ s] exI [of _ u])
        (use run that Some in auto)
    then show ?thesis
      unfolding Some option.case by (intro wlp_bindI [OF wlp_run]) (simp add: wlp_rules)
  qed
qed

lemma wlp_disks_reported:
  "wlp (collect_io (collect_disk os a) entries) (\<lambda>r t _. case r of
     Ok disks \<Rightarrow> disks_reported os a entries disks t | Err _ \<Rightarrow> True) s"
proof (induction entries arbitrary: s)
  case Nil
  then show ?case by (simp add: wlp_rules)
next
  case (Cons entry entries)
  have rest: "wlp (try_io (collect_io (collect_disk os a) entries) (\<lambda>ds. ok_io (d # ds)))
      (\<lambda>r t' _. case r of Ok disks \<Rightarrow> disks_reported os a (entry # entries) disks (t @ t') | Err _ \<Rightarrow> True) u"
    if "disk_reported os a entry d t" for d t u
    by (rule wlp_tryI [OF Cons.IH]) (use that in \<open>auto simp: wlp_rules\<close>)
  show ?case
    by (auto intro!: wlp_tryI [OF wlp_disk_reported] rest)
qed

lemma wlp_adapter_state_valid:
  "wlp (adapter_state os a) (\<lambda>r _ _. case r of Ok st \<Rightarrow> is_valid_state st | Err _ \<Rightarrow> True) s"
  unfolding adapter_state_def new_request_header_def wlp_rules
  by (rule wlp_tryI [OF wlp_any]) (auto simp: wlp_rules)

text \<open>
  \<open>adapter_reported os a x t\<close>: \<open>x\<close> is what the adapter answered in \<open>t\<close>, with one disk for each of its
  live entries, in their order. \<open>port_reported\<close>: a port has no adapter, or its adapter is reported.
\<close>

definition adapter_reported :: "'w os \<Rightarrow> adapter \<Rightarrow> inventory_adapter \<Rightarrow> os_event list \<Rightarrow> bool" where
  "adapter_reported os a x t \<longleftrightarrow> (\<exists>st t1 t2. t = t1 @ t2 @ [Close_Handle (ad_handle a)]
     \<and> heard (ad_handle a) list_state_op t1 st \<and> is_valid_state st
     \<and> ia_adapter_instance x = dec_digits (unat (sr_adapter_instance st))
     \<and> ia_port x = ad_port_number a \<and> ia_allocated_bytes x = sr_allocated_bytes st
     \<and> ia_pending_operations x = sr_pending_operations st
     \<and> disks_reported os a (live_disks st) (ia_disks x) t2)"

fun port_reported :: "'w os \<Rightarrow> nat \<Rightarrow> os_event list \<times> inventory_adapter option \<Rightarrow> bool" where
  "port_reported os port (t, None) \<longleftrightarrow> no_adapter port t"
| "port_reported os port (t, Some x) \<longleftrightarrow>
     (\<exists>a t1 t2. t = t1 @ t2 \<and> adapter_found port a t1 \<and> adapter_reported os a x t2)"

definition ports_reported ::
  "'w os \<Rightarrow> nat list \<Rightarrow> inventory_adapter list \<Rightarrow> os_event list \<Rightarrow> bool" where
  "ports_reported os ports xs t \<longleftrightarrow> (\<exists>segments. list_all2 (port_reported os) ports segments
     \<and> t = concat (map fst segments) \<and> xs = List.map_filter snd segments)"

lemma ports_reported_more:
  assumes "ports_reported os ports xs t" "port_reported os port (u, x)"
  shows "ports_reported os (ports @ [port]) (xs @ (case x of None \<Rightarrow> [] | Some y \<Rightarrow> [y])) (t @ u)"
proof -
  from assms(1) obtain segments where "list_all2 (port_reported os) ports segments"
    "t = concat (map fst segments)" "xs = List.map_filter snd segments"
    unfolding ports_reported_def by blast
  with assms(2) show ?thesis
    unfolding ports_reported_def
    by (intro exI [of _ "segments @ [(u, x)]"]) (auto simp: list_all2_appendI List.map_filter_def split: option.split)
qed

lemma wlp_collect_adapter:
  "wlp (owning os (ad_handle a) (collect_adapter os a)) (\<lambda>r t _. case r of
     Ok x \<Rightarrow> adapter_reported os a x t | Err _ \<Rightarrow> True) s"
proof -
  let ?P = "\<lambda>x t. \<exists>st t1 t2. t = t1 @ t2
     \<and> heard (ad_handle a) list_state_op t1 st \<and> is_valid_state st
     \<and> ia_adapter_instance x = dec_digits (unat (sr_adapter_instance st))
     \<and> ia_port x = ad_port_number a \<and> ia_allocated_bytes x = sr_allocated_bytes st
     \<and> ia_pending_operations x = sr_pending_operations st
     \<and> disks_reported os a (live_disks st) (ia_disks x) t2"
  have collected: "wlp (collect_adapter os a) (\<lambda>r t _. case r of Ok x \<Rightarrow> ?P x t | Err _ \<Rightarrow> True) s"
    unfolding collect_adapter_def
  proof (rule wlp_tryI [OF wlp_any], simp)
    fix u t and s1 :: "'a sys"
    show "wlp (try_io (adapter_state os a) (\<lambda>st. try_io (collect_io (collect_disk os a) (live_disks st)) (\<lambda>disks.
       ok_io \<lparr>ia_adapter_instance = dec_digits (unat (sr_adapter_instance st)),
         ia_port = ad_port_number a, ia_allocated_bytes = sr_allocated_bytes st,
         ia_pending_operations = sr_pending_operations st, ia_disks = disks\<rparr>)))
      (\<lambda>r t' _. case r of Ok x \<Rightarrow> ?P x (t @ t') | Err _ \<Rightarrow> True) s1"
    proof (rule wlp_tryI [OF wlp_conj [OF state_heard wlp_adapter_state_valid]], simp)
      fix st w and s2 :: "'a sys"
      assume "(\<forall>x. Ok st = Ok x \<longrightarrow> heard (ad_handle a) list_state_op w x)
        \<and> (case Ok st of Ok st \<Rightarrow> is_valid_state st | Err _ \<Rightarrow> True)"
      then have st: "heard (ad_handle a) list_state_op (t @ w) st" "is_valid_state st" by auto
      show "wlp (try_io (collect_io (collect_disk os a) (live_disks st)) (\<lambda>disks.
         ok_io \<lparr>ia_adapter_instance = dec_digits (unat (sr_adapter_instance st)),
           ia_port = ad_port_number a, ia_allocated_bytes = sr_allocated_bytes st,
           ia_pending_operations = sr_pending_operations st, ia_disks = disks\<rparr>))
        (\<lambda>r t' _. case r of Ok x \<Rightarrow> ?P x (t @ w @ t') | Err _ \<Rightarrow> True) s2"
      proof (rule wlp_tryI [OF wlp_disks_reported], simp)
        fix disks v and s3 :: "'a sys"
        assume disks: "case Ok disks of Ok ds \<Rightarrow> disks_reported os a (live_disks st) ds v | Err _ \<Rightarrow> True"
        let ?x = "\<lparr>ia_adapter_instance = dec_digits (unat (sr_adapter_instance st)),
           ia_port = ad_port_number a, ia_allocated_bytes = sr_allocated_bytes st,
           ia_pending_operations = sr_pending_operations st, ia_disks = disks\<rparr>"
        have "?P ?x (t @ w @ v)"
          by (intro exI [of _ st] exI [of _ "t @ w"] exI [of _ v]) (use st disks in \<open>simp del: heard_append\<close>)
        then show "wlp (ok_io ?x) (\<lambda>r t' _. case r of Ok x \<Rightarrow> ?P x (t @ w @ v @ t') | Err _ \<Rightarrow> True) s3"
          unfolding wlp_rules by (simp only: sum.case append_Nil2)
      qed
    qed
  qed
  show ?thesis
    unfolding owning_def
  proof (rule wlp_bindI [OF collected])
    fix r :: "inventory_adapter result" and t and u :: "'a sys"
    assume r: "case r of Ok x \<Rightarrow> ?P x t | Err _ \<Rightarrow> True"
    have "adapter_reported os a x (t @ [Close_Handle (ad_handle a)])" if "?P x t" for x
      using that unfolding adapter_reported_def by (auto simp del: heard_append)
    with r show "wlp (bind_io (close_handle os (ad_handle a)) (\<lambda>_. return_io r)) (\<lambda>r t' _. case r of
        Ok x \<Rightarrow> adapter_reported os a x (t @ t') | Err _ \<Rightarrow> True) u"
      unfolding close_handle_def wlp_rules by (intro wlp_os_callI) (auto split: sum.split)
  qed
qed

text \<open>A loop over the adapters keeps an invariant of the carried value.\<close>

lemma wlp_scan:
  assumes "\<And>a c s. I c \<Longrightarrow> wlp (body a c) (\<lambda>r _ _. case r of Continue c' \<Rightarrow> I c' | Break b \<Rightarrow> B b) s"
    and "I c"
  shows "wlp (scan_adapters os ports body c) (\<lambda>r _ _. case r of Continue c' \<Rightarrow> I c' | Break b \<Rightarrow> B b) s"
  using assms(2)
proof (induction ports arbitrary: c s)
  case Nil
  then show ?case by (simp add: wlp_rules)
next
  case (Cons port ports)
  have step: "wlp (bind_io (body a c) (\<lambda>r. case r of Continue c' \<Rightarrow> scan_adapters os ports body c'
      | Break b \<Rightarrow> return_io (Break b)))
    (\<lambda>r _ _. case r of Continue c' \<Rightarrow> I c' | Break b \<Rightarrow> B b) u" for a u
    by (rule wlp_bindI [OF assms(1) [OF Cons.prems]])
      (auto simp: wlp_rules intro: Cons.IH split: flow.splits)
  show ?case
    by (auto intro!: wlp_bindI [OF wlp_any] step Cons.IH Cons.prems split: option.split)
qed

lemma wlp_collect_inventory:
  "wlp (collect_inventory os) (\<lambda>r t _. case r of Ok xs \<Rightarrow> ports_reported os [0..<256] xs t | Err _ \<Rightarrow> True) s"
proof -
  have round: "wlp (inventory_round os a found) (\<lambda>r u _. case r of
      Continue xs \<Rightarrow> ports_reported os (ps @ [p]) xs (T @ t @ u) | Break _ \<Rightarrow> True) v"
    if I: "ports_reported os ps found T" and a: "adapter_found p a t" for ps p a found T t and v :: "'a sys"
  proof -
    have "ports_reported os (ps @ [p]) (found @ [x]) (T @ t @ u)" if "adapter_reported os a x u" for x u
      using ports_reported_more [OF I, of p "t @ u" "Some x"] a that by auto
    then show ?thesis
      unfolding inventory_round_def wlp_map
      by (intro wlp_mono [OF wlp_collect_adapter]) (auto split: sum.splits)
  qed
  have none: "ports_reported os (ps @ [p]) found (T @ t)"
    if "ports_reported os ps found T" "no_adapter p t" for ps p found T t
    using ports_reported_more [OF that(1), of p t None] that(2) by simp
  have empty: "ports_reported os [] [] []"
    unfolding ports_reported_def by (intro exI [of _ "[]"]) (simp add: List.map_filter_def)
  show ?thesis
    unfolding collect_inventory_def wlp_map
  proof (rule wlp_mono [OF wlp_for_adapters [where I = "ports_reported os" and B = "\<lambda>_ _. True"]], goal_cases)
    case (1 ps p c T t)
    then show ?case by (rule none)
  next
    case (2 ps p a c T t s)
    then show ?case by (rule round)
  next
    case 3
    show ?case by (rule empty)
  qed (auto split: flow.splits)
qed

section \<open>A listing only inspects\<close>

text \<open>
  The calls that a listing makes: opening and closing, queries of disks and volumes, and of the
  driver only its version and its state.
\<close>

fun inspects :: "os_event \<Rightarrow> bool" where
  "inspects (Device_Io_Control h code buffer answer) \<longleftrightarrow>
     code \<in> {IOCTL_SCSI_GET_ADDRESS, IOCTL_STORAGE_GET_DEVICE_NUMBER, IOCTL_VOLUME_GET_VOLUME_DISK_EXTENTS}
     \<or> code = IOCTL_SCSI_MINIPORT \<and> srb_control_code (dec_srb_io_control buffer)
         \<in> {operation_code Query_Version, operation_code List_State}"
| "inspects (Set_Mount_Point p n r) \<longleftrightarrow> False"
| "inspects (Delete_Mount_Point p r) \<longleftrightarrow> False"
| "inspects (Print u) \<longleftrightarrow> False"
| "inspects (Eprint u) \<longleftrightarrow> False"
| "inspects (Storage e) \<longleftrightarrow> False"
| "inspects (Setup e) \<longleftrightarrow> False"
| "inspects (Etw e) \<longleftrightarrow> False"
| "inspects _ \<longleftrightarrow> True"

lemma inspects_exchanges [all_events_intros]:
  "all_events inspects (require_recovery os a)" "all_events inspects (adapter_state os a)"
  "all_events inspects (query_version os a)"
  by (auto simp: query_version_def require_recovery_def adapter_state_def new_request_header_def
      query_version_op_def list_state_op_def intro!: all_events_intros)

lemma inspects_scan [all_events_intros]:
  assumes "\<And>a c. all_events inspects (body a c)"
  shows "all_events inspects (scan_adapters os ports body c)"
proof -
  have "all_events inspects (probe_port os port)" for port
    unfolding probe_port_def Let_def by (intro all_events_intros; simp)
  then show ?thesis
    by (induction ports arbitrary: c) (auto intro!: all_events_intros assms)
qed

lemma inspects_find [all_events_intros]: "all_events inspects (find_physical_disk os expected)"
  unfolding find_physical_disk_def find_round_def probe_interface_def destroy_device_list_def
    disk_interface_path_def read_interface_path_def interface_detail_def scsi_location_of_def
    storage_device_number_def Let_def
  by (intro all_events_intros; simp)

lemma inspects_volumes [all_events_intros]: "all_events inspects (volumes_for_disk os number)"
  unfolding volumes_for_disk_def volumes_round_def volume_of_disk_def finder_new_def finder_next_def
    finder_drop_def disk_number_def volume_paths_def get_volume_path_names_def Let_def
  by (intro all_events_intros; simp)

lemma inspects_collect_inventory: "all_events inspects (collect_inventory os)"
  unfolding collect_inventory_def for_adapters_def inventory_round_def collect_adapter_def
    collect_disk_def discover_mount_points_def
  by (intro all_events_intros; simp)

lemma wlp_print_lines: "wlp (print_lines ls) (\<lambda>_ t _. t = map Print ls) s"
proof (induction ls arbitrary: s)
  case Nil
  then show ?case by (simp add: wlp_rules)
next
  case (Cons l ls)
  show ?case
    unfolding print_lines.simps wlp_rules by (rule wlp_mono [OF Cons.IH]) simp
qed

text \<open>The lines of a listing.\<close>

definition listing ::
  "(json \<Rightarrow> ustring + ustring) \<Rightarrow> (nat \<Rightarrow> bool) \<Rightarrow> bool \<Rightarrow> inventory_adapter list \<Rightarrow> ustring list result" where
  "listing pretty printable json xs =
     (if json then map_err Msg (case pretty (inventory_json xs) of Err e \<Rightarrow> Err e | Ok t \<Rightarrow> Ok [t])
      else Ok (if xs = [] then [lit ''no WispDisk adapters''] else map (adapter_display printable) xs))"

lemma wlp_present:
  "wlp (if json then try_io (return_io (map_err Msg (pretty (inventory_json xs))))
       (\<lambda>t. bind_io (println t) (\<lambda>_. ok_io ()))
     else if xs = []
     then bind_io (println (lit ''no WispDisk adapters'')) (\<lambda>_. ok_io ())
     else bind_io (print_lines (map (adapter_display printable) xs)) (\<lambda>_. ok_io ()))
    (\<lambda>r t _. case r of
       Err _ \<Rightarrow> t = []
     | Ok _ \<Rightarrow> \<exists>ls. listing pretty printable json xs = Ok ls \<and> t = map Print ls) s"
proof (cases json)
  case True
  then show ?thesis
    by (cases "pretty (inventory_json xs)") (simp_all add: listing_def wlp_try wlp_rules)
next
  case False
  then show ?thesis
    by (cases "xs = []") (auto simp: listing_def wlp_rules intro!: wlp_mono [OF wlp_print_lines])
qed

lemma wlp_list_inventory:
  "wlp (list_inventory pretty printable os json) (\<lambda>r t s'. \<exists>t1 ls. t = t1 @ map Print ls
     \<and> list_all inspects t1
     \<and> (case r of
          Err _ \<Rightarrow> ls = []
        | Ok _ \<Rightarrow> \<exists>xs. ports_reported os [0..<256] xs t1 \<and> listing pretty printable json xs = Ok ls)) s"
  unfolding list_inventory_def
proof (rule wlp_tryI [OF wlp_conj [OF all_events_wlp [OF inspects_collect_inventory] wlp_collect_inventory]],
    goal_cases)
  case (1 e t s')
  then have "t = t @ map Print [] \<and> list_all inspects t" by simp
  then show ?case unfolding sum.case by blast
next
  case (2 xs t s')
  then have t: "list_all inspects t" and xs: "ports_reported os [0..<256] xs t" by auto
  show ?case
  proof (rule wlp_mono [OF wlp_present], goal_cases)
    case (1 r u s'')
    show ?case
    proof (cases r)
      case (Inl e)
      with 1 t have "t @ u = t @ map Print [] \<and> list_all inspects t" by simp
      with Inl show ?thesis unfolding Inl sum.case by blast
    next
      case (Inr x)
      with 1 t xs show ?thesis unfolding Inr sum.case by blast
    qed
  qed
qed

text \<open>
  C35. A listing only inspects: it queries the driver's version and state, disks and volumes, and
  asks for no reservation, creation or deletion, installs nothing and touches no volume. It prints
  after everything was collected, so a failed listing prints nothing. A successful one has probed all
  256 ports, and what it prints is the rendering of exactly the adapters that were found, in the order
  of their ports, each as it answered in this run: for every live entry of its answer one disk, in
  order, with the physical disk and the mount points that Windows reported for it, or without them.
\<close>

theorem listing_is_read_only:
  "wlp (list_inventory pretty printable os json) (\<lambda>r t s'. \<exists>t1 ls. t = t1 @ map Print ls
     \<and> list_all inspects t1
     \<and> (case r of
          Err _ \<Rightarrow> ls = []
        | Ok _ \<Rightarrow> \<exists>xs. ports_reported os [0..<256] xs t1 \<and> listing pretty printable json xs = Ok ls)) s"
  by (rule wlp_list_inventory)

text \<open>
  Mount points are optional: a driver entry fails to be collected only when the search for its
  disk fails, and then with that error. A failure to enumerate the volumes of the disk, at any
  point, leaves the entry without mount points and is no error.
\<close>

theorem mount_discovery_never_fails_a_listing:
  "wlp (collect_disk os a entry) (\<lambda>r t s'. \<exists>found t1 s1.
     find_physical_disk os (disk_location a entry) s = Some (found, t1, s1)
     \<and> (case found of
          Err e \<Rightarrow> r = Err e
        | Ok number \<Rightarrow> \<exists>mounts. r = Ok (inventory_disk_of entry number mounts)
            \<and> (number = None \<longrightarrow> mounts = None))) s"
  by (rule wlp_collect_disk)

end
