(* ===== verification/Messages.thy ===== *)
theory Messages
  imports Errors
begin

text \<open>
  The text of an error: the \<open>Display\<close> implementations of recovery.rs, volume/mod.rs and driver.rs,
  and \<open>{:#}\<close>, which joins the chain from the outermost context to the root cause. The text of an
  \<open>io::Error\<close> comes from Windows and is a parameter.
\<close>

definition rejection_text :: "i32 \<Rightarrow> ustring" where
  "rejection_text status = lit ''driver rejected operation with NTSTATUS 0x'' @ hex_fixed 8 (unat status)"

definition unresolved_text :: "operation_handle \<Rightarrow> ustring" where
  "unresolved_text h = lit ''outcome unresolved for adapter instance '' @ dec_digits (unat (oh_instance h))
     @ lit '' operation '' @ dec_digits (unat (oh_id h))
     @ lit ''; query inventory before starting another mutation''"

definition lock_failure_text :: ustring where
  "lock_failure_text = lit ''lock target volume''"

definition package_not_embedded_text :: ustring where
  "package_not_embedded_text =
     lit ''no signed driver package is embedded; build with WISPDISK_DRIVER_PACKAGE_DIR set''"

fun error_text :: "(io_error \<Rightarrow> ustring) \<Rightarrow> error \<Rightarrow> ustring"
  and context_text :: "(io_error \<Rightarrow> ustring) \<Rightarrow> error_context \<Rightarrow> ustring" where
  "error_text io (Msg t) = t"
| "error_text io (Io e) = io e"
| "error_text io (Driver_Rejection status) = rejection_text status"
| "error_text io Package_Not_Embedded = package_not_embedded_text"
| "error_text io (Context c e) = context_text io c @ lit '': '' @ error_text io e"
| "context_text io (Ctx t) = t"
| "context_text io (Unresolved_Outcome h) = unresolved_text h"
| "context_text io (Recovery_Failure action cause) = action @ lit '': '' @ error_text io cause"
| "context_text io Volume_Lock_Failure = lock_failure_text"

section \<open>What the text of an unresolved outcome says\<close>

text \<open>\<open>occurs part whole\<close>: \<open>part\<close> is a contiguous part of \<open>whole\<close>.\<close>

definition occurs :: "ustring \<Rightarrow> ustring \<Rightarrow> bool" where
  "occurs part whole \<longleftrightarrow> (\<exists>u v. whole = u @ part @ v)"

lemma occurs_refl [simp]: "occurs t t"
  unfolding occurs_def by (rule exI [of _ "[]"], rule exI [of _ "[]"]) simp

lemma occurs_append: "occurs p t \<Longrightarrow> occurs p (u @ t)" "occurs p t \<Longrightarrow> occurs p (t @ u)"
  unfolding occurs_def by (metis append.assoc)+

lemma unresolved_names_handle:
  "downcast_unresolved e = Some h \<Longrightarrow> occurs (unresolved_text h) (error_text io e)"
  by (induction e rule: downcast_unresolved.induct) (auto intro: occurs_append)

lemma recovery_failure_is_told:
  "downcast_recovery_failure e = Some (action, cause) \<Longrightarrow> occurs (error_text io cause) (error_text io e)"
proof (induction e rule: downcast_recovery_failure.induct)
  case (1 a c e)
  then show ?case
    by (simp add: occurs_append(1) occurs_append(2) [OF occurs_refl])
qed (auto intro: occurs_append)

lemma occurs_trans: "occurs p q \<Longrightarrow> occurs q r \<Longrightarrow> occurs p r"
  unfolding occurs_def by (metis append.assoc)

lemma unresolved_text_names_an_operation:
  "is_unresolved e \<Longrightarrow> \<exists>h. occurs (unresolved_text h) (error_text io e)"
proof (induction e rule: is_unresolved.induct)
  case (1 e)
  show ?case
  proof (cases "downcast_unresolved e")
    case (Some h)
    then show ?thesis by (blast intro: unresolved_names_handle)
  next
    case None
    with 1 obtain a c where c: "downcast_recovery_failure e = Some (a, c)" "is_unresolved c"
      by (auto simp: is_unresolved.simps [of e] split: option.splits)
    from 1(1) [OF c(1) refl c(2)] obtain h where "occurs (unresolved_text h) (error_text io c)" ..
    then show ?thesis using recovery_failure_is_told [OF c(1)] occurs_trans by blast
  qed
qed

text \<open>
  Exit status 3 is never silent about what to look for: an error with that status prints, as
  part of its text, the adapter instance and the operation of an unresolved mutation and the advice
  to query the inventory, however deep the failed recovery that carries it.
\<close>

theorem unresolved_errors_name_the_operation:
  "error_exit_code e = 3 \<longrightarrow> (\<exists>h :: operation_handle. occurs (lit ''outcome unresolved for adapter instance ''
     @ dec_digits (unat (oh_instance h)) @ lit '' operation '' @ dec_digits (unat (oh_id h))
     @ lit ''; query inventory before starting another mutation'') (error_text io e))"
  using unresolved_text_names_an_operation [of e io, unfolded unresolved_text_def]
  by (simp add: error_exit_code_def)

theorem unresolved_errors_name_the_operation_witness:
  "\<exists>h :: operation_handle. occurs (lit ''outcome unresolved for adapter instance ''
     @ dec_digits (unat (oh_instance h)) @ lit '' operation '' @ dec_digits (unat (oh_id h))
     @ lit ''; query inventory before starting another mutation'')
     (error_text (\<lambda>_. []) (recovery_failed (Msg (lit ''format failed'')) (lit ''rollback also failed'')
        (Context (Unresolved_Outcome \<lparr>oh_instance = 123, oh_id = 7\<rparr>) (Msg (lit ''timeout'')))))"
  by (rule unresolved_errors_name_the_operation [rule_format]) (simp add: error_exit_code_def)

end
