(* ===== verification/Logging.thy ===== *)
theory Logging
  imports Args System
begin

text \<open>
  logging.rs, logging/driver_events.rs and logging/subscriber.rs: the trace session that captures
  the driver's events, its shutdown, and the format of a log line. The tracing libraries and
  ferrisetw are parameters: the calls of \<open>os_etw\<close> with their answers, the parsed fields of an event
  record, and the calendar arithmetic of the time crate.
\<close>

section \<open>Driver events: the session\<close>

definition etw_level :: "level_filter \<Rightarrow> u8" where
  "etw_level level = (case level of Level_Error \<Rightarrow> 2 | Level_Warn \<Rightarrow> 3 | Level_Info \<Rightarrow> 4 | _ \<Rightarrow> 5)"

text \<open>\<open>DriverEvents\<close>; a join handle is the handle of its thread.\<close>

record driver_events =
  de_name :: ustring
  de_session :: "handle option"
  de_worker :: "handle option"

text \<open>\<open>EtwFailure\<close> with its \<open>Display\<close>, and the \<open>io::Error\<close> that is its source.\<close>

definition etw_failure :: "trace_error \<Rightarrow> error" where
  "etw_failure e = (case e of Trace_Error text source \<Rightarrow>
     (case source of
        None \<Rightarrow> Msg (lit ''ETW error: '' @ text)
      | Some io \<Rightarrow> Context (Ctx (lit ''ETW error: '' @ text)) (Io io)))"

definition int_digits :: "int \<Rightarrow> ustring" where
  "int_digits n = (if n < 0 then 45 # dec_digits (nat (- n)) else dec_digits (nat n))"

definition session_name :: "u32 \<times> int \<Rightarrow> ustring" where
  "session_name = (\<lambda>(process_id, nanos).
     lit ''WispDisk-'' @ dec_digits (unat process_id) @ lit ''-'' @ int_digits nanos)"

definition driver_events_start :: "'w os \<Rightarrow> level_filter \<Rightarrow> ('w, driver_events result) sys_io" where
  "driver_events_start os level =
     bind_io (os_call (et_session_identity (os_etw os)) (Etw \<circ> Session_Identity)) (\<lambda>identity.
     let name = session_name identity in
     bind_io (os_call (et_start_session (os_etw os) name (etw_level level))
         (Etw \<circ> Start_Session name (etw_level level))) (\<lambda>r. case r of
       Err e \<Rightarrow> fail_io (Context (Ctx (lit ''start driver ETW session'')) (etw_failure e))
     | Ok (session, handle) \<Rightarrow>
         bind_io (os_call (et_spawn_consumer (os_etw os) handle) (Etw \<circ> Spawn_Consumer handle)) (\<lambda>r. case r of
           Err e \<Rightarrow> bind_io (os_call (et_close_session (os_etw os) session) (\<lambda>_. Etw (Close_Session session)))
             (\<lambda>_. fail_io (Context (Ctx (lit ''start driver ETW consumer thread'')) (Io e)))
         | Ok worker \<Rightarrow> ok_io \<lparr>de_name = name, de_session = Some session, de_worker = Some worker\<rparr>)))"

definition join_result :: "joined \<Rightarrow> unit result" where
  "join_result j = (case j of
     Joined \<Rightarrow> Ok ()
   | Join_Failed e \<Rightarrow> Err (Context (Ctx (lit ''process driver ETW events'')) (etw_failure e))
   | Join_Panicked \<Rightarrow> Err (Msg (lit ''driver ETW consumer panicked'')))"

definition driver_events_join ::
  "'w os \<Rightarrow> driver_events \<Rightarrow> ('w, driver_events \<times> unit result) sys_io" where
  "driver_events_join os d = (case de_worker d of
     None \<Rightarrow> return_io (d, Ok ())
   | Some worker \<Rightarrow>
       map_io (\<lambda>j. (d\<lparr>de_worker := None\<rparr>, join_result j))
         (os_call (et_join_consumer (os_etw os) worker) (Etw \<circ> Join_Consumer worker)))"

definition driver_events_finish ::
  "'w os \<Rightarrow> driver_events \<Rightarrow> ('w, driver_events \<times> unit result) sys_io" where
  "driver_events_finish os d = (case de_session d of
     None \<Rightarrow> return_io (d, Ok ())
   | Some session \<Rightarrow> let d = d\<lparr>de_session := None\<rparr> in
       bind_io (os_call (et_stop_by_name (os_etw os) (de_name d)) (Etw \<circ> Stop_By_Name (de_name d))) (\<lambda>stopped.
       case stopped of
         Some e \<Rightarrow>
           bind_io (os_call (et_stop_session (os_etw os) session) (Etw \<circ> Stop_Session session)) (\<lambda>closed.
           bind_io (case closed of
               None \<Rightarrow> map_io fst (driver_events_join os d)
             | Some _ \<Rightarrow> return_io (d\<lparr>de_worker := None\<rparr>)) (\<lambda>d.
           return_io (d, Err (Context (Ctx (lit ''stop driver ETW session'')) (etw_failure e)))))
       | None \<Rightarrow>
           bind_io (driver_events_join os d) (\<lambda>(d, result).
           bind_io (os_call (et_close_session (os_etw os) session) (\<lambda>_. Etw (Close_Session session)))
             (\<lambda>_. return_io (d, result)))))"

text \<open>\<open>impl Drop for DriverEvents\<close>; the warning is a log line.\<close>

definition driver_events_drop :: "'w os \<Rightarrow> driver_events \<Rightarrow> ('w, unit) sys_io" where
  "driver_events_drop os d = map_io (\<lambda>_. ()) (driver_events_finish os d)"

section \<open>Process-wide logging\<close>

fun level_filter_name :: "level_filter \<Rightarrow> ustring" where
  "level_filter_name Level_Off = lit ''off''"
| "level_filter_name Level_Error = lit ''error''"
| "level_filter_name Level_Warn = lit ''warn''"
| "level_filter_name Level_Info = lit ''info''"
| "level_filter_name Level_Debug = lit ''debug''"
| "level_filter_name Level_Trace = lit ''trace''"

definition filter_directives :: "level_filter \<Rightarrow> ustring" where
  "filter_directives level = lit ''off,wispdisk='' @ level_filter_name level @ lit '',ferrisetw=warn''"

definition subscriber_install :: "'w os \<Rightarrow> level_filter \<Rightarrow> ('w, unit result) sys_io" where
  "subscriber_install os level =
     map_io (\<lambda>r. case r of Some e \<Rightarrow> Err (Msg e) | None \<Rightarrow> Ok ())
       (os_call (et_install_subscriber (os_etw os) (filter_directives level))
         (Etw \<circ> Install_Subscriber (filter_directives level)))"

definition report_dropped_lines :: "'w os \<Rightarrow> ('w, unit) sys_io" where
  "report_dropped_lines os =
     bind_io (os_call (et_dropped_lines (os_etw os)) (Etw \<circ> Dropped_Lines)) (\<lambda>count.
     if count \<noteq> 0
     then eprintln (lit ''warning: stdout logging dropped '' @ dec_digits count @ lit '' lines'')
     else return_io ())"

definition logging_start :: "'w os \<Rightarrow> level_filter \<Rightarrow> ('w, driver_events result) sys_io" where
  "logging_start os level =
     try_io (subscriber_install os level) (\<lambda>_. driver_events_start os level)"

text \<open>
  \<open>impl Drop for Logging\<close>: the events are finished and dropped, then the lost lines reported. The
  text of an error is given by the function that formats it.
\<close>

definition logging_drop :: "(error \<Rightarrow> ustring) \<Rightarrow> 'w os \<Rightarrow> driver_events \<Rightarrow> ('w, unit) sys_io" where
  "logging_drop text os d =
     bind_io (driver_events_finish os d) (\<lambda>(d, r).
     bind_io (case r of
         Err e \<Rightarrow> eprintln (lit ''warning: logging cleanup failed: '' @ text e)
       | Ok _ \<Rightarrow> return_io ()) (\<lambda>_.
     bind_io (driver_events_drop os d) (\<lambda>_. report_dropped_lines os)))"

section \<open>Decoding a driver event\<close>

record driver_event =
  ev_timestamp :: ustring
  ev_message :: ustring
  ev_adapter :: u64
  ev_operation :: u64
  ev_device :: u32
  ev_status :: i32
  ev_size_bytes :: u64
  ev_srb_status :: u32
  ev_storport_status :: u32

text \<open>
  An event record as ferrisetw presents it: its level, its raw timestamp, the outcome of the schema
  lookup and the parser for each type of field, every failure with its \<open>Debug\<close> text.
\<close>

record event_record =
  er_level :: u8
  er_raw_timestamp :: u64
  er_schema :: "ustring option"
  er_string :: "string \<Rightarrow> ustring + ustring"
  er_u64 :: "string \<Rightarrow> ustring + u64"
  er_u32 :: "string \<Rightarrow> ustring + u32"

definition UNIX_EPOCH_FILETIME :: int where "UNIX_EPOCH_FILETIME = 116444736000000000"

text \<open>The nanoseconds that \<open>event_time\<close> computes in \<open>i128\<close> from an \<open>i64\<close> FILETIME.\<close>

definition event_nanos :: "u64 \<Rightarrow> int" where
  "event_nanos filetime = (sint filetime - UNIX_EPOCH_FILETIME) * 100"

definition decode_field :: "(string \<Rightarrow> ustring + 'a) \<Rightarrow> string \<Rightarrow> 'a result" where
  "decode_field get name =
     map_err (\<lambda>e. Msg (lit ''driver event field '' @ lit name @ lit '': '' @ e)) (get name)"

text \<open>\<open>rfc3339\<close> is \<open>from_unix_timestamp_nanos\<close> followed by \<open>format\<close>.\<close>

definition decode_event :: "(int \<Rightarrow> ustring result) \<Rightarrow> event_record \<Rightarrow> driver_event result" where
  "decode_event rfc3339 r =
     try_res (case er_schema r of
         Some e \<Rightarrow> Err (Msg (lit ''driver event schema: '' @ e))
       | None \<Rightarrow> Ok ()) (\<lambda>_.
     try_res (rfc3339 (event_nanos (er_raw_timestamp r))) (\<lambda>timestamp.
     try_res (decode_field (er_string r) ''Message'') (\<lambda>message.
     try_res (decode_field (er_u64 r) ''AdapterInstance'') (\<lambda>adapter.
     try_res (decode_field (er_u64 r) ''OperationId'') (\<lambda>operation.
     try_res (decode_field (er_u32 r) ''DeviceId'') (\<lambda>device.
     try_res (decode_field (er_u32 r) ''Status'') (\<lambda>status.
     try_res (decode_field (er_u64 r) ''SizeBytes'') (\<lambda>size_bytes.
     try_res (decode_field (er_u32 r) ''SrbStatus'') (\<lambda>srb_status.
     try_res (decode_field (er_u32 r) ''StorPortStatus'') (\<lambda>storport_status.
     Ok \<lparr>ev_timestamp = timestamp, ev_message = message, ev_adapter = adapter,
       ev_operation = operation, ev_device = device, ev_status = status, ev_size_bytes = size_bytes,
       ev_srb_status = srb_status, ev_storport_status = storport_status\<rparr>))))))))))"

definition emit_level :: "u8 \<Rightarrow> level_filter" where
  "emit_level level = (if level = 1 \<or> level = 2 then Level_Error else if level = 3 then Level_Warn
     else if level = 4 then Level_Info else Level_Debug)"

section \<open>The format of a log line\<close>

text \<open>A recorded field: a string, or any other value with its \<open>Debug\<close> text.\<close>

datatype field_value = Field_Str ustring | Field_Debug ustring

text \<open>What \<open>emit\<close> hands to \<open>event!\<close>.\<close>

definition event_fields :: "driver_event \<Rightarrow> (ustring \<times> field_value) list" where
  "event_fields e = [
     (lit ''event_time'', Field_Str (ev_timestamp e)),
     (lit ''adapter_instance'', Field_Debug (dec_digits (unat (ev_adapter e)))),
     (lit ''operation_id'', Field_Debug (dec_digits (unat (ev_operation e)))),
     (lit ''device_id'', Field_Debug (dec_digits (unat (ev_device e)))),
     (lit ''status'', Field_Debug (lit ''0x'' @ hex_fixed 8 (unat (ev_status e)))),
     (lit ''size_bytes'', Field_Debug (dec_digits (unat (ev_size_bytes e)))),
     (lit ''srb_status'', Field_Debug (dec_digits (unat (ev_srb_status e)))),
     (lit ''storport_status'', Field_Debug (dec_digits (unat (ev_storport_status e)))),
     (lit ''message'', Field_Debug (ev_message e))]"

record log_fields =
  lf_event_time :: "ustring option"
  lf_text :: ustring

definition record_debug :: "ustring \<Rightarrow> ustring \<Rightarrow> log_fields \<Rightarrow> log_fields" where
  "record_debug name value f =
     f\<lparr>lf_text := lf_text f @ (if lf_text f = [] then [] else [32])
        @ (if name = lit ''message'' then value else name @ [61] @ value)\<rparr>"

definition record_str :: "(ustring \<Rightarrow> ustring) \<Rightarrow> ustring \<Rightarrow> ustring \<Rightarrow> log_fields \<Rightarrow> log_fields" where
  "record_str debug name value f =
     (if name = lit ''event_time'' then f\<lparr>lf_event_time := Some value\<rparr>
      else record_debug name (debug value) f)"

fun record_field :: "(ustring \<Rightarrow> ustring) \<Rightarrow> ustring \<times> field_value \<Rightarrow> log_fields \<Rightarrow> log_fields" where
  "record_field debug (name, Field_Str value) f = record_str debug name value f"
| "record_field debug (name, Field_Debug value) f = record_debug name value f"

definition record_all :: "(ustring \<Rightarrow> ustring) \<Rightarrow> (ustring \<times> field_value) list \<Rightarrow> log_fields" where
  "record_all debug recorded = fold (record_field debug) recorded \<lparr>lf_event_time = None, lf_text = []\<rparr>"

fun level_name :: "level_filter \<Rightarrow> ustring" where
  "level_name Level_Error = lit ''ERROR''"
| "level_name Level_Warn = lit ''WARN''"
| "level_name Level_Info = lit ''INFO''"
| "level_name Level_Debug = lit ''DEBUG''"
| "level_name Level_Trace = lit ''TRACE''"
| "level_name Level_Off = []"

definition pad_right :: "nat \<Rightarrow> ustring \<Rightarrow> ustring" where
  "pad_right n s = s @ replicate (n - length s) 32"

text \<open>\<open>now_text\<close> is the formatted wall clock, if it can be formatted.\<close>

definition format_event ::
  "(ustring \<Rightarrow> ustring) \<Rightarrow> ustring option \<Rightarrow> level_filter \<Rightarrow> ustring
     \<Rightarrow> (ustring \<times> field_value) list \<Rightarrow> ustring" where
  "format_event debug now_text level target recorded =
     (let f = record_all debug recorded;
          timestamp = (case lf_event_time f of
            Some t \<Rightarrow> t
          | None \<Rightarrow> (case now_text of Some t \<Rightarrow> t | None \<Rightarrow> lit ''unknown-time'')) in
      timestamp @ [32] @ pad_right 5 (level_name level) @ [32] @ target @ [32] @ lf_text f @ [10])"

section \<open>Shutting the capture down\<close>

fun etw_event_of :: "os_event \<Rightarrow> etw_event list" where
  "etw_event_of (Etw e) = [e]"
| "etw_event_of _ = []"

definition etw_of :: "os_event list \<Rightarrow> etw_event list" where
  "etw_of t = concat (map etw_event_of t)"

lemma etw_of_simps [simp]:
  "etw_of [] = []" "etw_of (t @ u) = etw_of t @ etw_of u" "etw_of (ev # t) = etw_event_of ev @ etw_of t"
  by (simp_all add: etw_of_def)

text \<open>
  The three courses of a shutdown: the session is stopped, drained and closed; or stopping it fails
  and closing the consumer ends it; or both fail and the thread is left alone.
\<close>

inductive shutdown :: "ustring \<Rightarrow> handle \<Rightarrow> handle \<Rightarrow> etw_event list \<Rightarrow> bool"
  for name session worker where
  drained: "shutdown name session worker
     [Stop_By_Name name None, Join_Consumer worker j, Close_Session session]"
| closed: "shutdown name session worker
     [Stop_By_Name name (Some e), Stop_Session session None, Join_Consumer worker j]"
| abandoned: "shutdown name session worker
     [Stop_By_Name name (Some e), Stop_Session session (Some e')]"

inductive_cases shutdown_joinE: "shutdown name session worker (t @ Join_Consumer w j # u)"

definition started :: "driver_events \<Rightarrow> ustring \<Rightarrow> handle \<Rightarrow> handle \<Rightarrow> bool" where
  "started d name session worker \<longleftrightarrow>
     d = \<lparr>de_name = name, de_session = Some session, de_worker = Some worker\<rparr>"

definition finished :: "driver_events \<Rightarrow> bool" where
  "finished d \<longleftrightarrow> de_session d = None \<and> de_worker d = None"

lemma finish_finished [simp]:
  "finished d \<Longrightarrow> driver_events_finish os d = return_io (d, Ok ())"
  by (simp add: finished_def driver_events_finish_def)

lemma wlp_finish:
  assumes "started d name session worker"
  shows "wlp (driver_events_finish os d) (\<lambda>x t _. finished (fst x)
     \<and> shutdown name session worker (etw_of t)) s"
  using assms unfolding started_def driver_events_finish_def driver_events_join_def Let_def
  by (auto simp: wlp_rules finished_def intro!: wlp_os_callI shutdown.intros split: option.split)

lemma etw_of_eprintln: "wlp (eprintln t) (\<lambda>_ u _. etw_of u = []) s"
  by (simp add: wlp_rules)

lemma wlp_logging_drop:
  assumes "started d name session worker"
  shows "wlp (logging_drop text os d) (\<lambda>_ t _. \<exists>u count. shutdown name session worker u
     \<and> etw_of t = u @ [Dropped_Lines count]) s"
  unfolding logging_drop_def
proof (rule wlp_bindI [OF wlp_finish [OF assms]])
  fix x :: "driver_events \<times> unit result" and t and s' :: "'a sys"
  assume x: "finished (fst x) \<and> shutdown name session worker (etw_of t)"
  obtain d' r where dr: "x = (d', r)" by fastforce
  with x have d': "finished d'" and t: "shutdown name session worker (etw_of t)" by auto
  have report: "wlp (report_dropped_lines os) (\<lambda>_ u _. \<exists>count. etw_of u = [Dropped_Lines count]) u"
    for u :: "'a sys"
    unfolding report_dropped_lines_def wlp_rules
    by (auto intro!: wlp_os_callI simp: wlp_rules)
  show "wlp (case x of (d, r) \<Rightarrow> bind_io (case r of
          Err e \<Rightarrow> eprintln (lit ''warning: logging cleanup failed: '' @ text e)
        | Ok _ \<Rightarrow> return_io ()) (\<lambda>_. bind_io (driver_events_drop os d) (\<lambda>_. report_dropped_lines os)))
     (\<lambda>_ t' _. \<exists>u count. shutdown name session worker u \<and> etw_of (t @ t') = u @ [Dropped_Lines count]) s'"
    using d' t unfolding driver_events_drop_def dr prod.case
    by (cases r) (auto simp: wlp_rules intro!: wlp_mono [OF report] exI [of _ "etw_of t"])
qed

text \<open>
  C37. Ending the capture: whatever the tracing calls answer, the session of a started capture is
  stopped by its name exactly once, the consumer thread is joined at most once and only after the
  session was stopped or its consumer closed, so that the cleanup does not wait for a session that
  still runs, and the second cleanup by the destructor does nothing.
\<close>

theorem capture_is_shut_down_once:
  "wlp (logging_drop text os \<lparr>de_name = name, de_session = Some session, de_worker = Some worker\<rparr>)
     (\<lambda>_ t s'. \<exists>u count. shutdown name session worker u \<and> etw_of t = u @ [Dropped_Lines count]) s"
  by (rule wlp_logging_drop) (simp add: started_def)

section \<open>Levels\<close>

text \<open>
  C38. Filtering at the source and at the sink agree: for every level of \<open>/log\<close> and every ETW level,
  the session delivers an event exactly when the subscriber shows the line it becomes.
\<close>

theorem driver_levels_agree:
  "level \<noteq> Level_Off \<and> 1 \<le> n \<and> n \<le> (5 :: u8) \<longrightarrow> (n \<le> etw_level level \<longleftrightarrow> emit_level n \<le> level)"
proof (clarify)
  assume "level \<noteq> Level_Off" "1 \<le> n" "n \<le> 5"
  then have "1 \<le> unat n" "unat n \<le> 5" by (simp_all add: word_le_nat_alt)
  then have "unat n \<in> {1, 2, 3, 4, 5}" by auto
  then obtain k :: nat where "n = word_of_nat k" "k \<in> {1, 2, 3, 4, 5}"
    by (metis of_nat_unat ucast_id)
  then have "n \<in> {1, 2, 3, 4, 5}" by auto
  then show "n \<le> etw_level level \<longleftrightarrow> emit_level n \<le> level"
    using \<open>level \<noteq> Level_Off\<close>
    by (cases level) (auto simp: etw_level_def emit_level_def less_eq_level_filter_def)
qed

theorem driver_levels_agree_witness:
  "(3 \<le> etw_level Level_Warn \<longleftrightarrow> emit_level 3 \<le> Level_Warn)
   \<and> (4 \<le> etw_level Level_Warn \<longleftrightarrow> emit_level 4 \<le> Level_Warn)"
  by (intro conjI; rule driver_levels_agree [rule_format]) (simp_all add: word_le_nat_alt)

section \<open>Driver lines\<close>

lemma record_field_debug:
  "lf_event_time (record_debug n v f) = lf_event_time f"
  by (simp add: record_debug_def)

text \<open>The time of a recorded event is the last \<open>event_time\<close> string among its fields.\<close>

lemma event_time_absent:
  "\<forall>v. (lit ''event_time'', Field_Str v) \<notin> set fs \<Longrightarrow>
    lf_event_time (fold (record_field debug) fs f) = lf_event_time f"
proof (induction fs arbitrary: f)
  case (Cons x fs)
  obtain name v where x: "x = (name, v)" by fastforce
  from Cons.prems have "lf_event_time (record_field debug x f) = lf_event_time f"
    unfolding x by (cases v) (auto simp: record_str_def record_field_debug)
  with Cons show ?case by simp
qed simp

lemma event_time_recorded:
  assumes "\<forall>v. (lit ''event_time'', Field_Str v) \<in> set fs \<longleftrightarrow> v = t"
  shows "lf_event_time (fold (record_field debug) fs f) = Some t"
  using assms
proof (induction fs arbitrary: f)
  case Nil
  then show ?case by simp
next
  case (Cons x fs)
  show ?case
  proof (cases "\<exists>v. (lit ''event_time'', Field_Str v) \<in> set fs")
    case True
    then have "\<forall>v. (lit ''event_time'', Field_Str v) \<in> set fs \<longleftrightarrow> v = t"
      using Cons.prems by (metis list.set_intros(2))
    then show ?thesis by (simp add: Cons.IH)
  next
    case False
    with Cons.prems have "x = (lit ''event_time'', Field_Str t)" by (metis set_ConsD)
    with event_time_absent [of fs debug] False show ?thesis by (simp add: record_str_def)
  qed
qed

lemma time_of_event: "(lit ''event_time'', Field_Str v) \<in> set (event_fields e) \<longleftrightarrow> v = ev_timestamp e"
  by (auto simp: event_fields_def)

text \<open>
  A line of the driver carries the driver's own time: in whatever order the fields of a decoded
  event are visited, the line starts with the time stamp of the event and not with the wall clock,
  while a line of the CLI, which records no such field, starts with the wall clock.
\<close>

theorem driver_lines_keep_their_time:
  "(set fs = set (event_fields e) \<longrightarrow>
      format_event debug now_text level target fs = ev_timestamp e @ [32] @ pad_right 5 (level_name level)
        @ [32] @ target @ [32] @ lf_text (record_all debug fs) @ [10])
   \<and> ((\<forall>v. (lit ''event_time'', Field_Str v) \<notin> set fs) \<longrightarrow>
      format_event debug (Some clock_text) level target fs = clock_text @ [32]
        @ pad_right 5 (level_name level) @ [32] @ target @ [32] @ lf_text (record_all debug fs) @ [10])"
proof (intro conjI impI)
  assume "set fs = set (event_fields e)"
  then have "lf_event_time (record_all debug fs) = Some (ev_timestamp e)"
    unfolding record_all_def using time_of_event by (intro event_time_recorded) blast
  then show "format_event debug now_text level target fs = ev_timestamp e @ [32]
      @ pad_right 5 (level_name level) @ [32] @ target @ [32] @ lf_text (record_all debug fs) @ [10]"
    by (simp add: format_event_def)
next
  assume "\<forall>v. (lit ''event_time'', Field_Str v) \<notin> set fs"
  then have "lf_event_time (record_all debug fs) = None"
    unfolding record_all_def by (subst event_time_absent) auto
  then show "format_event debug (Some clock_text) level target fs = clock_text @ [32]
      @ pad_right 5 (level_name level) @ [32] @ target @ [32] @ lf_text (record_all debug fs) @ [10]"
    by (simp add: format_event_def)
qed

theorem driver_lines_keep_their_time_witness:
  "\<exists>rest. format_event id (Some (lit ''2026-10-16T12:00:00Z'')) Level_Info (lit ''wispdisk::driver'')
     (rev (event_fields \<lparr>ev_timestamp = lit ''2026-10-16T11:32:07Z'', ev_message = lit ''Created'',
       ev_adapter = 1, ev_operation = 42, ev_device = 7, ev_status = 0, ev_size_bytes = 0,
       ev_srb_status = 0, ev_storport_status = 0\<rparr>)) = lit ''2026-10-16T11:32:07Z'' @ [32] @ rest"
  by (subst driver_lines_keep_their_time [THEN conjunct1, rule_format, OF set_rev]) auto

end
