(* ===== verification/Program.thy ===== *)
theory Program
  imports Creation Inventory Messages Logging
begin

text \<open>
  windows/mod.rs, driver.rs and main.rs: the dispatch of a command, the check for the embedded
  package, and the program with its exit codes. The argument parser clap is a parameter: it either
  ends the program with a text and an exit code or delivers the parsed \<open>Cli\<close>.
\<close>

section \<open>Dispatch\<close>

text \<open>What the commands need of the outside besides the operating system.\<close>

record environment =
  en_package :: package
  en_pretty :: "json \<Rightarrow> ustring + ustring"
  en_printable :: "nat \<Rightarrow> bool"
  en_io_text :: "io_error \<Rightarrow> ustring"

fun execute_command :: "environment \<Rightarrow> 'w os \<Rightarrow> command \<Rightarrow> ('w, unit result) sys_io" where
  "execute_command env os (Add letter media size_bytes file_system) =
     add_disk (en_package env) os letter media size_bytes file_system"
| "execute_command env os (Delete letter force) = delete_disk os letter force"
| "execute_command env os (Delete_Id adapter ident force) = delete_by_identity os adapter ident force"
| "execute_command env os (List_Inventory json) =
     list_inventory (en_pretty env) (en_printable env) os json"

definition driver_execute :: "environment \<Rightarrow> 'w os \<Rightarrow> command \<Rightarrow> ('w, unit result) sys_io" where
  "driver_execute env os command =
     (if \<not> pk_embedded (en_package env) then fail_io Package_Not_Embedded
      else execute_command env os command)"

section \<open>main\<close>

text \<open>How clap ends the program: the exit code, the stream and the text.\<close>

record clap_exit =
  ce_code :: u8
  ce_stderr :: bool
  ce_text :: ustring

definition log_level :: "cli \<Rightarrow> level_filter option" where
  "log_level c = (case cli_log c of
     None \<Rightarrow> None | Some level \<Rightarrow> if level \<noteq> Level_Off then Some level else None)"

definition start_logging :: "'w os \<Rightarrow> level_filter option \<Rightarrow> ('w, driver_events option result) sys_io" where
  "start_logging os level = (case level of
     None \<Rightarrow> ok_io None
   | Some l \<Rightarrow> map_io (map_sum id Some) (logging_start os l))"

text \<open>The command with its report; a logged failure is a log line instead of a message.\<close>

definition run_command ::
  "environment \<Rightarrow> 'w os \<Rightarrow> driver_events option \<Rightarrow> command \<Rightarrow> ('w, u8) sys_io" where
  "run_command env os logging command =
     bind_io (driver_execute env os command) (\<lambda>r. case r of
       Ok _ \<Rightarrow> return_io 0
     | Err e \<Rightarrow> bind_io (case logging of
           Some _ \<Rightarrow> return_io ()
         | None \<Rightarrow> eprintln (lit ''error: '' @ error_text (en_io_text env) e))
         (\<lambda>_. return_io (error_exit_code e)))"

definition main_io ::
  "(os_string list \<Rightarrow> clap_exit + cli) \<Rightarrow> environment \<Rightarrow> 'w os \<Rightarrow> os_string list \<Rightarrow> ('w, u8) sys_io" where
  "main_io clap env os args = (case clap (normalize_windows_args args) of
     Err x \<Rightarrow> bind_io (if ce_stderr x then eprintln (ce_text x) else println (ce_text x))
       (\<lambda>_. return_io (ce_code x))
   | Ok c \<Rightarrow> (case into_command c of
       Err e \<Rightarrow> bind_io (eprintln (lit ''error: '' @ validation_message e)) (\<lambda>_. return_io 2)
     | Ok command \<Rightarrow> bind_io (start_logging os (log_level c)) (\<lambda>started. case started of
         Err e \<Rightarrow> bind_io (eprintln (lit ''error: failed to initialize logging: ''
             @ error_text (en_io_text env) e)) (\<lambda>_. return_io 1)
       | Ok logging \<Rightarrow> bind_io (run_command env os logging command) (\<lambda>code.
           bind_io (case logging of
               None \<Rightarrow> return_io ()
             | Some d \<Rightarrow> logging_drop (error_text (en_io_text env)) os d)
             (\<lambda>_. return_io code)))))"

section \<open>Exit codes\<close>

text \<open>Events of logging and of error messages.\<close>

fun reporting :: "os_event \<Rightarrow> bool" where
  "reporting (Etw e) \<longleftrightarrow> True"
| "reporting (Eprint u) \<longleftrightarrow> True"
| "reporting _ \<longleftrightarrow> False"

lemma reporting_start [all_events_intros]: "all_events reporting (start_logging os level)"
  unfolding start_logging_def logging_start_def subscriber_install_def driver_events_start_def Let_def
  by (intro all_events_intros; simp)

lemma reporting_drop [all_events_intros]: "all_events reporting (logging_drop text os d)"
proof -
  have join: "all_events reporting (driver_events_join os d)" for d
    unfolding driver_events_join_def by (intro all_events_intros; simp)
  have finish: "all_events reporting (driver_events_finish os d)" for d
    unfolding driver_events_finish_def Let_def by (intro all_events_intros join; simp)
  show ?thesis
    unfolding logging_drop_def driver_events_drop_def report_dropped_lines_def
    by (intro all_events_intros finish; simp)
qed

definition exit_code :: "unit result \<Rightarrow> u8" where
  "exit_code r = (case r of Ok _ \<Rightarrow> 0 | Err e \<Rightarrow> error_exit_code e)"

text \<open>The message of a result that is not logged.\<close>

definition told :: "(error \<Rightarrow> ustring) \<Rightarrow> unit result \<Rightarrow> os_event list" where
  "told text r = (case r of Ok _ \<Rightarrow> [] | Err e \<Rightarrow> [Eprint (lit ''error: '' @ text e)])"

lemma reporting_told: "list_all reporting (told text r)"
  by (auto simp: told_def split: sum.split)

lemma wlp_run_command:
  "wlp (run_command env os logging command) (\<lambda>code t _. \<exists>r t2 s2.
     driver_execute env os command s = Some (r, t2, s2) \<and> code = exit_code r
     \<and> t = t2 @ (if logging = None then told (error_text (en_io_text env)) r else [])) s"
  unfolding run_command_def
proof (rule wlp_bindI [OF wlp_run], goal_cases)
  case (1 r t s')
  then show ?case
    by (cases r; cases logging) (auto simp: wlp_rules exit_code_def told_def)
qed

text \<open>What main does once the command line is a command.\<close>

definition runs ::
  "environment \<Rightarrow> 'w os \<Rightarrow> level_filter option \<Rightarrow> command \<Rightarrow> u8 \<Rightarrow> os_event list \<Rightarrow> bool" where
  "runs env os level command code t \<longleftrightarrow> (\<exists>t1 t2 t3 r s1 s2. t = t1 @ t2 @ t3
     \<and> list_all reporting t1 \<and> list_all reporting t3
     \<and> driver_execute env os command s1 = Some (r, t2, s2) \<and> code = exit_code r
     \<and> (level = None \<longrightarrow> t1 = [] \<and> t3 = told (error_text (en_io_text env)) r))"

lemma runsI:
  "driver_execute env os command s1 = Some (r, t2, s2) \<Longrightarrow> list_all reporting t1 \<Longrightarrow>
    list_all reporting t3 \<Longrightarrow> (level = None \<Longrightarrow> t1 = [] \<and> t3 = told (error_text (en_io_text env)) r) \<Longrightarrow>
    runs env os level command (exit_code r) (t1 @ t2 @ t3)"
  unfolding runs_def by blast

lemma wlp_started:
  "wlp (bind_io (run_command env os logging command) (\<lambda>code.
     bind_io (case logging of None \<Rightarrow> return_io () | Some d \<Rightarrow> logging_drop text os d)
       (\<lambda>_. return_io code))) (\<lambda>code t _. \<exists>t2 t3 r s2. t = t2 @ t3 \<and> list_all reporting t3
     \<and> driver_execute env os command s = Some (r, t2, s2) \<and> code = exit_code r
     \<and> (logging = None \<longrightarrow> t3 = told (error_text (en_io_text env)) r)) s"
proof (rule wlp_bindI [OF wlp_run_command], elim exE conjE)
  fix code t and s' :: "'a sys" and r t2 s2
  assume run: "driver_execute env os command s = Some (r, t2, s2)" and code: "code = exit_code r"
    and t: "t = t2 @ (if logging = None then told (error_text (en_io_text env)) r else [])"
  let ?Q = "\<lambda>u. \<exists>t2 t3 r s2. t @ u = t2 @ t3 \<and> list_all reporting t3
     \<and> driver_execute env os command s = Some (r, t2, s2) \<and> code = exit_code r
     \<and> (logging = None \<longrightarrow> t3 = told (error_text (en_io_text env)) r)"
  have here: "?Q u" if "list_all reporting u" "logging = None \<longrightarrow> u = []" for u
    using run code t that reporting_told
    by (intro exI [of _ t2] exI [of _ "drop (length t2) (t @ u)"] exI [of _ r] exI [of _ s2])
      (auto split: if_splits)
  show "wlp (bind_io (case logging of None \<Rightarrow> return_io () | Some d \<Rightarrow> logging_drop text os d)
      (\<lambda>_. return_io code)) (\<lambda>code u _. \<exists>t2 t3 r s2. t @ u = t2 @ t3 \<and> list_all reporting t3
     \<and> driver_execute env os command s = Some (r, t2, s2) \<and> code = exit_code r
     \<and> (logging = None \<longrightarrow> t3 = told (error_text (en_io_text env)) r)) s'"
  proof (cases logging)
    case None
    then show ?thesis using here [of "[]"] by (simp add: wlp_rules)
  next
    case (Some d)
    then show ?thesis
      using here by (auto simp: wlp_rules intro!: wlp_mono [OF all_events_wlp [OF reporting_drop]])
  qed
qed

lemma wlp_main:
  "wlp (main_io clap env os args) (\<lambda>code t s'.
     case clap (normalize_windows_args args) of
       Err x \<Rightarrow> code = ce_code x \<and> t = [if ce_stderr x then Eprint (ce_text x) else Print (ce_text x)]
     | Ok c \<Rightarrow> (case into_command c of
         Err e \<Rightarrow> code = 2 \<and> t = [Eprint (lit ''error: '' @ validation_message e)]
       | Ok command \<Rightarrow> log_level c \<noteq> None \<and> code = 1 \<and> list_all reporting t
           \<or> runs env os (log_level c) command code t)) s"
proof (cases "clap (normalize_windows_args args)")
  case (Inl x)
  then show ?thesis by (simp add: main_io_def wlp_rules)
next
  case (Inr c)
  show ?thesis
  proof (cases "into_command c")
    case (Inl e)
    with \<open>clap (normalize_windows_args args) = Ok c\<close> show ?thesis by (simp add: main_io_def wlp_rules)
  next
    case (Inr command)
    have started: "wlp (start_logging os (log_level c)) (\<lambda>r t _. list_all reporting t
        \<and> (log_level c = None \<longrightarrow> r = Ok None \<and> t = [])) s"
      by (rule wlp_conj [OF all_events_wlp [OF reporting_start]])
        (auto simp: start_logging_def wlp_rules intro: wlp_mono [OF wlp_any] split: option.split)
    show ?thesis
      unfolding main_io_def \<open>clap (normalize_windows_args args) = Ok c\<close> Inr sum.case
    proof (rule wlp_bindI [OF started], elim conjE)
      fix r :: "driver_events option result" and t and s' :: "'a sys"
      assume t: "list_all reporting t" "log_level c = None \<longrightarrow> r = Ok None \<and> t = []"
      show "wlp (case r of
          Err e \<Rightarrow> bind_io (eprintln (lit ''error: failed to initialize logging: ''
              @ error_text (en_io_text env) e)) (\<lambda>_. return_io 1)
        | Ok logging \<Rightarrow> bind_io (run_command env os logging command) (\<lambda>code.
            bind_io (case logging of
                None \<Rightarrow> return_io ()
              | Some d \<Rightarrow> logging_drop (error_text (en_io_text env)) os d)
              (\<lambda>_. return_io code)))
        (\<lambda>code u _. log_level c \<noteq> None \<and> code = 1 \<and> list_all reporting (t @ u)
           \<or> runs env os (log_level c) command code (t @ u)) s'"
      proof (cases r)
        case (Inl e)
        with t show ?thesis by (auto simp: wlp_rules)
      next
        case (Inr logging)
        with t show ?thesis
          by (auto intro!: wlp_mono [OF wlp_started] runsI)
      qed
    qed
  qed
qed

text \<open>
  The exit code: what clap ends with is clap's; an invalid combination of options exits with 2
  and its message before anything else happens; a failure to start the logging exits with 1 before
  the command is executed; and otherwise the code is 0 exactly for a success, 3 for an unresolved
  mutation and 1 for any other failure of the command, whose error is printed when it is not logged.
\<close>

theorem exit_status:
  "wlp (main_io clap env os args) (\<lambda>code t s'.
     case clap (normalize_windows_args args) of
       Err x \<Rightarrow> code = ce_code x \<and> t = [if ce_stderr x then Eprint (ce_text x) else Print (ce_text x)]
     | Ok c \<Rightarrow> (case into_command c of
         Err e \<Rightarrow> code = 2 \<and> t = [Eprint (lit ''error: '' @ validation_message e)]
       | Ok command \<Rightarrow> (\<exists>level. log_level c = Some level) \<and> code = 1 \<and> list_all reporting t
           \<or> (\<exists>t1 t2 t3 r s1 s2. t = t1 @ t2 @ t3 \<and> list_all reporting t1 \<and> list_all reporting t3
               \<and> driver_execute env os command s1 = Some (r, t2, s2)
               \<and> code = (case r of Ok _ \<Rightarrow> 0 | Err e \<Rightarrow> if is_unresolved e then 3 else 1)
               \<and> (case log_level c of
                    Some _ \<Rightarrow> True
                  | None \<Rightarrow> t1 = [] \<and> t3 = (case r of
                      Ok _ \<Rightarrow> [] | Err e \<Rightarrow> [Eprint (lit ''error: '' @ error_text (en_io_text env) e)]))))) s"
proof -
  have level: "(case log_level c of Some _ \<Rightarrow> True | None \<Rightarrow> P) \<longleftrightarrow> (log_level c = None \<longrightarrow> P)" for c P
    by (simp split: option.split)
  show ?thesis
    using wlp_main [of clap env os args s]
    unfolding runs_def exit_code_def error_exit_code_def told_def level not_None_eq .
qed

section \<open>Commands and their mutations\<close>

lemma quiet_inspects: "inspects ev \<Longrightarrow> quiet ev"
  by (cases ev rule: inspects.cases)
    (auto simp: quiet_def IOCTL_SCSI_GET_ADDRESS_def IOCTL_STORAGE_GET_DEVICE_NUMBER_def
      IOCTL_VOLUME_GET_VOLUME_DISK_EXTENTS_def IOCTL_SCSI_MINIPORT_def FSCTL_LOCK_VOLUME_def
      FSCTL_UNLOCK_VOLUME_def FSCTL_DISMOUNT_VOLUME_def)

lemma wlp_listing_asks: "wlp (list_inventory pretty printable os json) (\<lambda>_ t _. asks_nothing t) s"
proof (rule wlp_mono [OF wlp_list_inventory], elim exE conjE)
  fix t t1 ls
  assume t: "t = t1 @ map Print ls" "list_all inspects t1"
  have "list_all quiet t1" using t(2) by (auto simp: list_all_iff quiet_inspects)
  with t(1) show "asks_nothing t"
    by (intro asks_nothing_quiet) (auto simp: list_all_iff)
qed

lemma wlp_case_flowI:
  "(\<And>c. x = Continue c \<Longrightarrow> wlp (f c) Q s) \<Longrightarrow> (\<And>b. x = Break b \<Longrightarrow> wlp (g b) Q s) \<Longrightarrow>
    wlp (case x of Continue c \<Rightarrow> f c | Break b \<Rightarrow> g b) Q s"
  by (cases x) auto

lemma wlp_case_optionI:
  "(x = None \<Longrightarrow> wlp m Q s) \<Longrightarrow> (\<And>y. x = Some y \<Longrightarrow> wlp (f y) Q s) \<Longrightarrow>
    wlp (case x of None \<Rightarrow> m | Some y \<Rightarrow> f y) Q s"
  by (cases x) auto

lemma wlp_case_prodI:
  "(\<And>a b. x = (a, b) \<Longrightarrow> wlp (f a b) Q s) \<Longrightarrow> wlp (case x of (a, b) \<Rightarrow> f a b) Q s"
  by (cases x) auto

lemma wlp_identity_requests: "wlp (delete_by_identity os inst ident force) (\<lambda>_ t _. deletes_only inst ident t) s"
proof -
  have round: "all_events quiet (identity_round os i a m)" for i a m
    unfolding identity_round_def Let_def by (intro all_events_intros; simp)
  have scan: "all_events quiet (scan_adapters os ports body c)"
    if "\<And>a c. all_events quiet (body a c)" for ports c
      and body :: "adapter \<Rightarrow> 'b \<Rightarrow> ('a, ('b, 'c) flow) sys_io"
  proof -
    have "all_events quiet (probe_port os port)" for port
      unfolding probe_port_def Let_def by (intro all_events_intros; simp)
    with that show ?thesis by (induction ports arbitrary: c) (auto intro!: all_events_intros)
  qed
  have tail: "wlp (owning os h (try_io (delete_allocation os a inst ident force) (\<lambda>_.
      bind_io (println u) (\<lambda>_. ok_io ())))) (\<lambda>_ t _. deletes_only inst ident t) s'" for h a u s'
    unfolding owning_def try_io_def
    by (intro wlp_deletes_only_bind wlp_delete_allocation_requests wlp_quiet_asks all_events_intros; simp)
  show ?thesis
    unfolding delete_by_identity_def for_adapters_def
    by (rule wlp_deletes_only_first [OF wlp_quiet_asks [OF scan [OF round]]])
      (intro wlp_case_flowI wlp_case_optionI tail
        wlp_nothing_deleted [OF wlp_quiet_asks [OF all_events_ok_fail(2)]])
qed

section \<open>The device behind a letter\<close>

lemma wlp_handle_identity:
  "wlp (owning os h (try_io (disk_number os h) (physical_disk_address os)))
     (\<lambda>r t _. case r of Ok address \<Rightarrow> \<exists>number. shows_disk h number t \<and> shows_location number address t
        | Err _ \<Rightarrow> True) s"
  unfolding owning_def
proof (rule wlp_bindI [where P = "\<lambda>r t _. case r of
     Ok address \<Rightarrow> \<exists>number. shows_disk h number t \<and> shows_location number address t | Err _ \<Rightarrow> True"], goal_cases)
  case 1
  show ?case
  proof (rule wlp_tryI [OF wlp_disk_number], goal_cases)
    case (2 number t u)
    then show ?case
      by (intro wlp_mono [OF wlp_physical_disk_address]) (auto intro: shows_append split: sum.splits)
  qed simp
next
  case (2 r t u)
  then show ?case
    by (auto simp: wlp_rules shows_append intro!: wlp_mono [OF wlp_any] split: sum.splits) (use shows_append in blast)
qed

lemma wlp_drive_identity:
  "wlp (drive_identity os letter) (\<lambda>r t _. case r of
     Ok address \<Rightarrow> \<exists>number. drive_verified letter number address t | Err _ \<Rightarrow> True) s"
proof -
  have handle: "wlp (io_context u (open_device os (drive_path letter) GENERIC_READ)) (\<lambda>r t _. case r of
       Ok h \<Rightarrow> \<exists>path. wide (drive_path letter) = Ok path \<and> t = [Create_File path GENERIC_READ (Ok h)]
     | Err _ \<Rightarrow> True) s'" for u and s' :: "'a sys"
    unfolding io_context_def open_device_def wlp_map
    by (rule wlp_tryI [where P = "\<lambda>r t _. r = wide (drive_path letter) \<and> t = []"])
      (auto simp: wlp_rules map_err_def intro!: wlp_mono [OF wlp_open_device_wide] split: sum.splits)
  have verified: "drive_verified letter number address (before @ [Create_File path GENERIC_READ (Ok h)] @ u)"
    if "wide (drive_path letter) = Ok path" "shows_disk h number u" "shows_location number address u"
    for number address before h u path
    unfolding drive_verified_def
    by (intro exI [of _ path] exI [of _ h] conjI shows_append(2,4) that) simp
  have last: "wlp (try_io (io_context w (open_device os (drive_path letter) GENERIC_READ))
      (\<lambda>h. owning os h (try_io (disk_number os h) (physical_disk_address os))))
    (\<lambda>r t _. case r of Ok address \<Rightarrow> \<exists>number. drive_verified letter number address (before @ t) | Err _ \<Rightarrow> True) s'"
    for w before and s' :: "'a sys"
  proof (rule wlp_tryI [OF handle], goal_cases)
    case (2 h t u)
    then obtain path where path: "wide (drive_path letter) = Ok path"
      and t: "t = [Create_File path GENERIC_READ (Ok h)]" by auto
    show ?case
      unfolding t by (rule wlp_mono [OF wlp_handle_identity]) (use verified [OF path] in \<open>force split: sum.splits\<close>)
  qed simp
  show ?thesis
    unfolding drive_identity_def
  proof (rule wlp_tryI [OF wlp_any], goal_cases)
    case (2 point t u)
    show ?case
    proof (rule wlp_tryI [OF wlp_any], goal_cases)
      case (2 name t' u')
      show ?case using last [where before = "t @ t'", unfolded append_assoc] by simp
    qed simp
  qed simp
qed

text \<open>
  The device of an adapter that its own inventory places at the address: the adapter was opened at
  its port and answered with a live entry at this location.
\<close>

definition located :: "scsi_location \<Rightarrow> u64 \<Rightarrow> u32 \<Rightarrow> os_event list \<Rightarrow> bool" where
  "located address inst ident t \<longleftrightarrow> (\<exists>a st entry. adapter_opened a t
     \<and> heard (ad_handle a) list_state_op t st \<and> sr_adapter_instance st = inst
     \<and> entry \<in> set (live_disks st) \<and> disk_location a entry = address
     \<and> di_device_id (ds_disk entry) = ident)"

definition drive_owner :: "drive_letter \<Rightarrow> u64 \<Rightarrow> u32 \<Rightarrow> os_event list \<Rightarrow> bool" where
  "drive_owner letter inst ident t \<longleftrightarrow>
     (\<exists>number address. drive_verified letter number address t \<and> located address inst ident t)"

lemma located_append: "located address inst ident t \<Longrightarrow> located address inst ident (t @ u)"
  unfolding located_def by auto

lemma matched_entry:
  "match_entries letter address inst entries matched = Ok (Some (i, ident)) \<Longrightarrow>
    matched = Some (i, ident)
    \<or> (\<exists>entry \<in> set entries. i = inst \<and> ident = di_device_id (ds_disk entry)
        \<and> di_path_id (ds_disk entry) = sl_path address \<and> di_target_id (ds_disk entry) = sl_target address
        \<and> di_lun (ds_disk entry) = sl_lun address)"
  by (induction letter address inst entries matched rule: match_entries.induct) (auto split: if_splits)

definition matches_located :: "scsi_location \<Rightarrow> (u64 \<times> u32) option \<Rightarrow> os_event list \<Rightarrow> bool" where
  "matches_located address matched t \<longleftrightarrow>
     (case matched of None \<Rightarrow> True | Some (inst, ident) \<Rightarrow> located address inst ident t)"

lemma matches_located_append:
  "matches_located address matched t \<Longrightarrow> matches_located address matched (t @ u)"
  by (auto simp: matches_located_def located_append split: option.splits)

lemma matched_located:
  assumes matched: "matches_located address matched t" and a: "adapter_opened a t"
    and port: "ad_port_number a = sl_port address" and st: "heard (ad_handle a) list_state_op u st"
    and ok: "match_entries letter address (sr_adapter_instance st) (live_disks st) matched = Ok matched'"
  shows "matches_located address matched' (t @ u)"
proof (cases matched')
  case (Some m)
  obtain inst ident where m: "m = (inst, ident)" by (cases m)
  from matched_entry [OF ok [unfolded Some m]] show ?thesis
  proof
    assume "matched = Some (inst, ident)"
    with matched matches_located_append show ?thesis unfolding Some m by blast
  next
    assume "\<exists>entry \<in> set (live_disks st). inst = sr_adapter_instance st \<and> ident = di_device_id (ds_disk entry)
      \<and> di_path_id (ds_disk entry) = sl_path address \<and> di_target_id (ds_disk entry) = sl_target address
      \<and> di_lun (ds_disk entry) = sl_lun address"
    then obtain entry where e: "entry \<in> set (live_disks st)" "inst = sr_adapter_instance st"
      "ident = di_device_id (ds_disk entry)" "disk_location a entry = address"
      using port by (auto simp: disk_location_def)
    have "located address inst ident (t @ u)"
      unfolding located_def by (intro exI [of _ a] exI [of _ st] exI [of _ entry]) (use e a st in simp)
    then show ?thesis by (simp add: matches_located_def Some m)
  qed
qed (simp add: matches_located_def)

lemma wlp_letter_entries:
  assumes "matches_located address matched t" "adapter_opened a t" "ad_port_number a = sl_port address"
  shows "wlp (try_io (require_recovery os a) (\<lambda>_. try_io (adapter_state os a) (\<lambda>st.
       return_io (match_entries letter address (sr_adapter_instance st) (live_disks st) matched))))
     (\<lambda>r u _. case r of Ok matched' \<Rightarrow> matches_located address matched' (t @ u) | Err _ \<Rightarrow> True) s"
proof (rule wlp_tryI [OF wlp_any], goal_cases)
  case (2 x u s1)
  show ?case
  proof (rule wlp_tryI [OF state_heard], goal_cases)
    case (2 st v s2)
    then have "heard (ad_handle a) list_state_op (u @ v) st" by simp
    from matched_located [OF assms this] show ?case by (auto simp: wlp_rules split: sum.split)
  qed simp
qed simp

lemma wlp_letter_round:
  assumes matched: "matches_located address matched t" and a: "adapter_opened a t"
  shows "wlp (letter_round os letter address a matched) (\<lambda>r u _. case r of
     Continue matched' \<Rightarrow> matches_located address matched' (t @ u) | Break _ \<Rightarrow> True) s"
proof -
  have round: "wlp (if ad_port_number a \<noteq> sl_port address then return_io (Continue matched)
        else bind_io (try_io (require_recovery os a) (\<lambda>_. try_io (adapter_state os a) (\<lambda>st.
            return_io (match_entries letter address (sr_adapter_instance st) (live_disks st) matched))))
          (\<lambda>r. return_io (case r of Err e \<Rightarrow> Break e | Ok matched' \<Rightarrow> Continue matched')))
    (\<lambda>r u _. case r of Continue matched' \<Rightarrow> matches_located address matched' (t @ u) | Break _ \<Rightarrow> True) s"
    using matched
    by (intro wlp_ifI wlp_bindI [OF wlp_letter_entries [OF matched a]])
      (auto simp: wlp_rules split: sum.split)
  have more: "matches_located address m (t @ u @ v)" if "matches_located address m (t @ u)" for m u v
    using matches_located_append [OF that, of v] by simp
  show ?thesis
    unfolding letter_round_def owning_def
    by (rule wlp_bindI [OF round])
      (auto simp: wlp_rules more intro!: wlp_mono [OF wlp_any] split: flow.splits)
qed

lemma wlp_letter_scan:
  "wlp (for_adapters os (letter_round os letter address) None) (\<lambda>r t _. case r of
     Continue matched \<Rightarrow> matches_located address matched t | Break _ \<Rightarrow> True) s"
proof (rule wlp_for_adapters [where I = "\<lambda>_. matches_located address" and B = "\<lambda>_ _. True"], goal_cases)
  case (1 ps p c T t)
  then show ?case by (simp add: matches_located_append)
next
  case (2 ps p a c T t s)
  then have "matches_located address c (T @ t)" "adapter_opened a (T @ t)"
    by (auto simp: matches_located_append dest: adapter_found_opened)
  from wlp_letter_round [OF this] show ?case by (simp cong: flow.case_cong)
qed (simp add: matches_located_def)

text \<open>
  What deletion by letter asks for: nothing, or, after the device behind the letter was identified,
  the deletion of this device.
\<close>

definition deletes_drive :: "drive_letter \<Rightarrow> os_event list \<Rightarrow> bool" where
  "deletes_drive letter t \<longleftrightarrow> asks_nothing t \<or> (\<exists>inst ident t1 t2. t = t1 @ t2
     \<and> asks_nothing t1 \<and> drive_owner letter inst ident t1 \<and> deletes_only inst ident t2)"

lemma deletes_driveI:
  "asks_nothing t \<Longrightarrow> drive_owner letter inst ident t \<Longrightarrow> deletes_only inst ident u \<Longrightarrow> deletes_drive letter (t @ u)"
  unfolding deletes_drive_def by blast

lemma quiet_letter_lookups:
  "all_events quiet (drive_letter_in_use os letter)" "all_events quiet (drive_identity os letter)"
  "all_events quiet (wait_for_drive_state os letter False DEVICE_WAIT)"
  unfolding drive_letter_in_use_def drive_identity_def get_volume_name_def wait_for_drive_state_def
  by (intro all_events_intros; simp)+

lemma quiet_letter_scan: "all_events quiet (for_adapters os (letter_round os letter address) None)"
proof -
  have round: "all_events quiet (letter_round os l x a m)" for l x a m
    unfolding letter_round_def by (intro all_events_intros; simp)
  have probe: "all_events quiet (probe_port os port)" for port
    unfolding probe_port_def Let_def by (intro all_events_intros; simp)
  have "all_events quiet (scan_adapters os ports (letter_round os l x) c)" for ports l x c
    by (induction ports arbitrary: c) (auto intro!: all_events_intros round probe)
  then show ?thesis by (simp add: for_adapters_def)
qed

text \<open>What \<open>delete_disk\<close> does with the result of the scan.\<close>

abbreviation delete_matched ::
  "'w os \<Rightarrow> drive_letter \<Rightarrow> bool \<Rightarrow> ((u64 \<times> u32) option, error) flow \<Rightarrow> ('w, unit result) sys_io" where
  "delete_matched os letter force r \<equiv> (case r of
       Break e \<Rightarrow> fail_io e
     | Continue None \<Rightarrow> fail_io (Msg (lit ''volume is not uniquely owned by WispDisk''))
     | Continue (Some (inst, ident)) \<Rightarrow>
         try_io (delete_by_identity os inst ident force) (\<lambda>_.
           wait_for_drive_state os letter False DEVICE_WAIT))"

lemma wlp_letter_fails:
  "asks_nothing t \<Longrightarrow> wlp (fail_io e) (\<lambda>_ u _. deletes_drive letter (t @ u)) s"
  unfolding wlp_rules by (simp add: deletes_drive_def)

lemma wlp_delete_matched:
  assumes t: "asks_nothing t" "drive_verified letter number address t" and u: "asks_nothing u"
    and r: "case r of Continue matched \<Rightarrow> matches_located address matched u | Break _ \<Rightarrow> True"
  shows "wlp (delete_matched os letter force r) (\<lambda>_ v _. deletes_drive letter (t @ u @ v)) s"
proof (intro wlp_case_flowI wlp_case_optionI wlp_case_prodI)
  have tu: "asks_nothing (t @ u)" using t(1) u by (simp add: asks_nothing_def)
  note fails = wlp_letter_fails [OF tu, unfolded append_assoc]
  show "wlp (fail_io e) (\<lambda>_ v _. deletes_drive letter (t @ u @ v)) s"
    "wlp (fail_io e) (\<lambda>_ v _. deletes_drive letter (t @ u @ v)) s" for e :: error by (rule fails)+
  fix c m inst ident
  assume "r = Continue c" "c = Some m" "m = (inst, ident)"
  with r have "located address inst ident u" by (simp add: matches_located_def)
  with drive_verified_append(2) [OF t(2)] have "drive_owner letter inst ident (t @ u)"
    unfolding drive_owner_def located_def by (metis adapter_opened_append heard_append)
  from deletes_driveI [OF tu this] have "deletes_only inst ident v \<Longrightarrow> deletes_drive letter (t @ u @ v)" for v by simp
  moreover have "wlp (try_io (delete_by_identity os inst ident force) (\<lambda>_. wait_for_drive_state os letter False DEVICE_WAIT))
      (\<lambda>_ v _. deletes_only inst ident v) s"
    unfolding try_io_def
    by (rule wlp_deletes_only_bind [OF wlp_identity_requests])
      (auto intro!: wlp_case_sumI wlp_quiet_asks quiet_letter_lookups all_events_intros)
  ultimately show "wlp (try_io (delete_by_identity os inst ident force) (\<lambda>_. wait_for_drive_state os letter False DEVICE_WAIT))
      (\<lambda>_ v _. deletes_drive letter (t @ u @ v)) s"
    by (elim wlp_mono)
qed

lemma wlp_letter_requests:
  "wlp (delete_disk os letter force) (\<lambda>_ t _. deletes_drive letter t) s"
proof -
  have scanned: "wlp (bind_io (for_adapters os (letter_round os letter address) None) (delete_matched os letter force))
    (\<lambda>_ u _. deletes_drive letter (t @ u)) s'"
    if "asks_nothing t" "drive_verified letter number address t" for t number address s'
    by (rule wlp_bindI [OF wlp_conj [OF wlp_quiet_asks [OF quiet_letter_scan] wlp_letter_scan]], elim conjE)
      (rule wlp_delete_matched [OF that])
  have identified: "wlp (try_io (drive_identity os letter) (\<lambda>address.
     bind_io (for_adapters os (letter_round os letter address) None) (delete_matched os letter force)))
    (\<lambda>_ u _. deletes_drive letter (t @ u)) s'" if t: "asks_nothing t" for t s'
  proof (rule wlp_tryI [OF wlp_conj [OF wlp_quiet_asks [OF quiet_letter_lookups(2)] wlp_drive_identity]], goal_cases)
    case (1 e u s2)
    with t show ?case by (simp add: asks_nothing_def deletes_drive_def)
  next
    case (2 address u s2)
    then obtain number where "asks_nothing (t @ u)" "drive_verified letter number address (t @ u)"
      using t by (auto simp: asks_nothing_def dest: drive_verified_append(1))
    from scanned [OF this] show ?case by simp
  qed
  show ?thesis
    unfolding delete_disk_def
    by (rule wlp_bindI [OF wlp_quiet_asks [OF quiet_letter_lookups(1)]], rule wlp_ifI [OF wlp_letter_fails identified])
qed

section \<open>Only mutations end unresolved\<close>

lemma definite_collect_disk: "definite (collect_disk os a entry)"
  unfolding collect_disk_def by (intro definite_intros)

lemma definite_collect: "(\<And>x. definite (f x)) \<Longrightarrow> definite (collect_io f xs)"
  by (induction xs) (auto intro!: definite_intros)

lemma definite_collect_adapter: "definite (collect_adapter os a)"
proof -
  have "definite (require_recovery os a)" "definite (adapter_state os a)"
    by (auto simp: definite_def intro: require_recovery_plainly adapter_state_plainly)
  then show ?thesis
    unfolding collect_adapter_def
    by (intro definite_intros definite_collect definite_collect_disk)
qed

lemma definite_collect_inventory: "definite (collect_inventory os)"
proof -
  have round: "wlp (inventory_round os a found)
      (\<lambda>r _ _. case r of Continue _ \<Rightarrow> True | Break e \<Rightarrow> \<not> is_unresolved e) u"
    for a found and u :: "'a sys"
  proof -
    have "wlp (owning os (ad_handle a) (collect_adapter os a)) (\<lambda>r _ _. plainly r) u"
      by (rule definite_owning [OF definite_collect_adapter, unfolded definite_def, rule_format])
    then show ?thesis
      unfolding inventory_round_def wlp_map by (rule wlp_mono) (auto split: sum.split)
  qed
  show ?thesis
    unfolding definite_def collect_inventory_def for_adapters_def wlp_map
    by (intro allI wlp_mono [OF wlp_scan [where I = "\<lambda>_. True" and B = "\<lambda>e. \<not> is_unresolved e", OF round]])
      (auto split: flow.splits)
qed

lemma definite_list_inventory: "definite (list_inventory pretty printable os json)"
  unfolding list_inventory_def
  by (intro definite_intros definite_collect_inventory) (simp add: map_err_def split: sum.split)

lemma wlp_driver_execute_plain:
  "wlp (driver_execute env os (List_Inventory json)) (\<lambda>r _ _. plainly r) s"
  by (auto simp: driver_execute_def wlp_rules
      intro: definite_list_inventory [unfolded definite_def, rule_format])

lemma wlp_command_requests:
  "wlp (driver_execute env os command) (\<lambda>r t s'. case command of
     Add letter media size_bytes file_system \<Rightarrow>
       adds letter media size_bytes file_system r t
   | Delete letter force \<Rightarrow> deletes_drive letter t
   | Delete_Id inst ident force \<Rightarrow> deletes_only inst ident t
   | List_Inventory json \<Rightarrow> asks_nothing t) s"
proof (cases "pk_embedded (en_package env)")
  case True
  then show ?thesis
    by (cases command)
      (simp_all add: driver_execute_def wlp_add_disk wlp_letter_requests wlp_identity_requests wlp_listing_asks)
next
  case False
  have "asks_nothing []" by (rule asks_nothing_quiet) simp
  with False show ?thesis
    by (cases command)
      (auto simp: driver_execute_def wlp_rules adds_nothing deletes_drive_def dest: deletes_only_nothing)
qed

end
