(* ===== verification/Build_Parsing.thy ===== *)
theory Build_Parsing
  imports Base
begin

text \<open>
  scripts/build-tool/src/main.rs, its pure part: the options, the platform tables, the texts the
  tool reads (project files, certutil output, thumbprints) and the bytes it inspects. An \<open>OsString\<close>
  is its text, since the tool reads every one of them through \<open>to_string_lossy\<close>.
\<close>

type_synonym 'a build_result = "ustring + 'a"

section \<open>Options\<close>

datatype configuration = Debug | Release
datatype platform = X64 | Arm64

definition parse_configuration :: "ustring \<Rightarrow> configuration build_result" where
  "parse_configuration value =
     (if str_lowercase value = lit ''debug'' then Ok Debug
      else if str_lowercase value = lit ''release'' then Ok Release
      else Err (lit ''unsupported configuration '' @ [39] @ value @ [39] @ lit ''; expected Debug or Release''))"

fun configuration_msbuild :: "configuration \<Rightarrow> string" where
  "configuration_msbuild Debug = ''Debug''" | "configuration_msbuild Release = ''Release''"

fun cargo_profile :: "configuration \<Rightarrow> string" where
  "cargo_profile Debug = ''debug''" | "cargo_profile Release = ''release''"

definition parse_platform :: "ustring \<Rightarrow> platform build_result" where
  "parse_platform value =
     (let v = str_lowercase value in
      if v = lit ''x64'' \<or> v = lit ''amd64'' then Ok X64
      else if v = lit ''arm64'' \<or> v = lit ''aarch64'' then Ok Arm64
      else Err (lit ''unsupported platform '' @ [39] @ value @ [39] @ lit ''; expected x64 or ARM64''))"

fun platform_msbuild :: "platform \<Rightarrow> string" where
  "platform_msbuild X64 = ''x64''" | "platform_msbuild Arm64 = ''ARM64''"

fun rust_target :: "platform \<Rightarrow> string" where
  "rust_target X64 = ''x86_64-pc-windows-msvc''"
| "rust_target Arm64 = ''aarch64-pc-windows-msvc''"

fun inf2cat_os :: "platform \<Rightarrow> string" where
  "inf2cat_os X64 = ''10_X64''" | "inf2cat_os Arm64 = ''10_RS3_ARM64''"

fun platform_machine :: "platform \<Rightarrow> u16" where
  "platform_machine X64 = 0x8664" | "platform_machine Arm64 = 0xAA64"

fun platform_machine_name :: "platform \<Rightarrow> string" where
  "platform_machine_name X64 = ''AMD64''" | "platform_machine_name Arm64 = ''ARM64''"

fun spectre_library_platform :: "platform \<Rightarrow> string" where
  "spectre_library_platform X64 = ''x64''" | "spectre_library_platform Arm64 = ''arm64''"

fun spectre_component :: "platform \<Rightarrow> string" where
  "spectre_component X64 = ''Microsoft.VisualStudio.Component.VC.Runtimes.x86.x64.Spectre''"
| "spectre_component Arm64 = ''Microsoft.VisualStudio.Component.VC.Runtimes.ARM64.Spectre''"

record options =
  op_configuration :: configuration
  op_platform :: platform

definition usage :: ustring where
  "usage = lit ''usage: wispdisk-build build --configuration <Debug|Release> --platform <x64|ARM64>''"

text \<open>The \<open>while let\<close> loop over the remaining arguments.\<close>

fun parse_arguments ::
  "ustring list \<Rightarrow> configuration option \<Rightarrow> platform option
     \<Rightarrow> (configuration option \<times> platform option) build_result" where
  "parse_arguments [] c p = Ok (c, p)"
| "parse_arguments (argument # rest) c p =
     (if argument = lit ''--configuration'' then
        (case rest of
           [] \<Rightarrow> Err (lit ''--configuration requires a value'')
         | value # rest' \<Rightarrow> try_res (parse_configuration value) (\<lambda>x. parse_arguments rest' (Some x) p))
      else if argument = lit ''--platform'' then
        (case rest of
           [] \<Rightarrow> Err (lit ''--platform requires a value'')
         | value # rest' \<Rightarrow> try_res (parse_platform value) (\<lambda>x. parse_arguments rest' c (Some x)))
      else Err (lit ''unknown argument '' @ [39] @ argument @ [39, 10] @ usage))"

definition parse_options :: "ustring list \<Rightarrow> options build_result" where
  "parse_options args = (case args of
     [] \<Rightarrow> Err usage
   | first # rest \<Rightarrow> let command = str_lowercase first in
       if command \<noteq> lit ''build''
       then Err (lit ''unsupported command '' @ [39] @ command @ [39, 10] @ usage)
       else try_res (parse_arguments rest None None) (\<lambda>(c, p).
         try_res (ok_or c (lit ''missing required --configuration option'')) (\<lambda>configuration.
         try_res (ok_or p (lit ''missing required --platform option'')) (\<lambda>platform.
         Ok \<lparr>op_configuration = configuration, op_platform = platform\<rparr>))))"

section \<open>Text\<close>

text \<open>\<open>str::find\<close> of a non-empty pattern, as the text before and after its first occurrence.\<close>

fun split_first :: "'a list \<Rightarrow> 'a list \<Rightarrow> ('a list \<times> 'a list) option" where
  "split_first p [] = (if p = [] then Some ([], []) else None)"
| "split_first p (x # xs) =
     (if take (length p) (x # xs) = p then Some ([], drop (length p) (x # xs))
      else map_option (apfst (Cons x)) (split_first p xs))"

lemma split_first_length:
  "split_first p s = Some (u, v) \<Longrightarrow> length s = length u + length p + length v"
proof (induction s arbitrary: u)
  case (Cons x xs)
  show ?case
  proof (cases "take (length p) (x # xs) = p")
    case True
    then have "length p \<le> length (x # xs)" by (metis length_take min.cobounded1)
    with True Cons.prems show ?thesis by auto
  qed (use Cons in auto)
qed (auto split: if_splits)

text \<open>\<open>str::lines\<close>: split at line feeds, a carriage return before one removed, no last empty line.\<close>

definition strip_cr :: "ustring \<Rightarrow> ustring" where
  "strip_cr l = (if l \<noteq> [] \<and> last l = 13 then butlast l else l)"

fun text_lines :: "ustring \<Rightarrow> ustring \<Rightarrow> ustring list" where
  "text_lines l [] = (if l = [] then [] else [rev l])"
| "text_lines l (c # cs) = (if c = 10 then strip_cr (rev l) # text_lines [] cs else text_lines (c # l) cs)"

definition str_lines :: "ustring \<Rightarrow> ustring list" where
  "str_lines = text_lines []"

definition version_open :: ustring where "version_open = lit ''<WindowsTargetPlatformVersion>''"
definition version_close :: ustring where "version_close = lit ''</WindowsTargetPlatformVersion>''"

lemma version_tags [simp]: "version_open \<noteq> []" "version_close \<noteq> []"
  by (simp_all add: version_open_def version_close_def lit_def)

text \<open>The loop of \<open>windows_sdk_version\<close>; \<open>None\<close> is an unterminated element.\<close>

function sdk_versions :: "ustring \<Rightarrow> ustring list \<Rightarrow> ustring list option" where
  "sdk_versions remainder versions = (case split_first version_open remainder of
     None \<Rightarrow> Some versions
   | Some (_, r) \<Rightarrow> (case split_first version_close r of
       None \<Rightarrow> None
     | Some (inner, r') \<Rightarrow> let value = str_trim inner in
         sdk_versions r' (if value \<noteq> [] \<and> value \<notin> set versions then versions @ [value] else versions)))"
  by pat_completeness auto
termination
  by (relation "measure (length \<circ> fst)") (auto dest!: split_first_length)

definition sdk_version_of :: "ustring \<Rightarrow> ustring \<Rightarrow> ustring build_result" where
  "sdk_version_of project contents = (case sdk_versions contents [] of
     None \<Rightarrow> Err (lit ''unterminated WindowsTargetPlatformVersion in '' @ [39] @ project @ [39])
   | Some [version] \<Rightarrow> Ok version
   | Some _ \<Rightarrow> Err (lit ''expected exactly one WindowsTargetPlatformVersion in '' @ [39] @ project @ [39]))"

definition env_flag_of :: "ustring \<Rightarrow> ustring option \<Rightarrow> bool build_result" where
  "env_flag_of name value = (case value of
     None \<Rightarrow> Ok False
   | Some v \<Rightarrow> let w = str_lowercase v in
       if w \<in> {lit ''1'', lit ''true'', lit ''yes''} then Ok True
       else if w \<in> {lit ''0'', lit ''false'', lit ''no'', []} then Ok False
       else Err (lit ''environment variable '' @ name @ lit '' must be true or false, not '' @ [39] @ w @ [39]))"

text \<open>\<open>String::len\<close> counts UTF-8 bytes.\<close>

definition utf8_length :: "nat \<Rightarrow> nat" where
  "utf8_length c = (if c < 0x80 then 1 else if c < 0x800 then 2 else if c < 0x10000 then 3 else 4)"

definition byte_length :: "ustring \<Rightarrow> nat" where
  "byte_length s = sum_list (map utf8_length s)"

definition squeeze :: "ustring \<Rightarrow> ustring" where
  "squeeze = filter (\<lambda>c. \<not> is_ascii_whitespace c)"

definition normalize_thumbprint :: "ustring \<Rightarrow> ustring build_result" where
  "normalize_thumbprint value =
     (let normalized = str_uppercase (squeeze value) in
      if byte_length normalized \<noteq> 40 \<or> \<not> list_all is_ascii_hexdigit normalized
      then Err (lit ''certificate thumbprint '' @ [39] @ value @ [39]
        @ lit '' must contain exactly 40 hexadecimal characters'')
      else Ok normalized)"

definition digest_line :: "nat \<Rightarrow> ustring \<Rightarrow> ustring option" where
  "digest_line expected_length line =
     (let candidate = squeeze line in
      if byte_length candidate = expected_length \<and> list_all is_ascii_hexdigit candidate
      then Some (str_uppercase candidate) else None)"

fun find_map :: "('a \<Rightarrow> 'b option) \<Rightarrow> 'a list \<Rightarrow> 'b option" where
  "find_map f [] = None"
| "find_map f (x # xs) = (case f x of None \<Rightarrow> find_map f xs | Some y \<Rightarrow> Some y)"

definition parse_digest :: "ustring \<Rightarrow> nat \<Rightarrow> ustring option" where
  "parse_digest out expected_length = find_map (digest_line expected_length) (str_lines out)"

section \<open>Bytes\<close>

definition windows :: "nat \<Rightarrow> 'a list \<Rightarrow> 'a list list" where
  "windows n xs = map (\<lambda>i. take n (drop i xs)) [0..<length xs + 1 - n]"

definition contains_bytes :: "u8 list \<Rightarrow> u8 list \<Rightarrow> bool" where
  "contains_bytes haystack needle \<longleftrightarrow> needle \<noteq> [] \<and> length needle \<le> length haystack
     \<and> list_ex (\<lambda>w. w = needle) (windows (length needle) haystack)"

text \<open>What can be wrong with a PE image; \<open>Pe_Read\<close> is a \<open>read_exact\<close> beyond the end of the file.\<close>

datatype pe_error = Pe_Too_Short | Pe_Dos_Signature | Pe_Offset | Pe_Signature | Pe_Read string

definition read_exact :: "string \<Rightarrow> nat \<Rightarrow> nat \<Rightarrow> u8 list \<Rightarrow> pe_error + nat" where
  "read_exact what offset n bytes =
     (if offset + n \<le> length bytes then Ok (le_value (take n (drop offset bytes))) else Err (Pe_Read what))"

definition pe_machine :: "u8 list \<Rightarrow> pe_error + u16" where
  "pe_machine bytes =
     (if length bytes < 64 then Err Pe_Too_Short
      else try_res (read_exact ''read DOS signature'' 0 2 bytes) (\<lambda>dos.
        if dos \<noteq> 0x5A4D then Err Pe_Dos_Signature
        else try_res (read_exact ''read PE offset'' 0x3C 4 bytes) (\<lambda>pe_offset.
        if pe_offset > length bytes - 6 then Err Pe_Offset
        else try_res (read_exact ''read PE signature'' pe_offset 4 bytes) (\<lambda>signature.
        if signature \<noteq> 0x00004550 then Err Pe_Signature
        else try_res (read_exact ''read PE machine'' (pe_offset + 4) 2 bytes) (\<lambda>machine.
        Ok (word_of_nat machine))))))"

section \<open>Contained bytes\<close>

lemma windows_mem:
  "n \<le> length xs \<Longrightarrow> w \<in> set (windows n xs) \<longleftrightarrow> (\<exists>u v. xs = u @ w @ v \<and> length w = n)"
proof
  assume n: "n \<le> length xs" and "w \<in> set (windows n xs)"
  then obtain i where "i < length xs + 1 - n" and w: "w = take n (drop i xs)"
    unfolding windows_def by auto
  with n have i: "i \<le> length xs - n" by simp
  have "xs = take i xs @ w @ drop (n + i) xs"
    using append_take_drop_id [of i xs] append_take_drop_id [of n "drop i xs"] w
    by simp
  moreover have "length w = n" using i n w by simp
  ultimately show "\<exists>u v. xs = u @ w @ v \<and> length w = n" by blast
next
  assume "\<exists>u v. xs = u @ w @ v \<and> length w = n"
  then obtain u v where x: "xs = u @ w @ v" "length w = n" by blast
  then have "w = take n (drop (length u) xs)" "length u < length xs + 1 - n" by auto
  then show "w \<in> set (windows n xs)" unfolding windows_def by fastforce
qed

lemma containment:
  "contains_bytes haystack needle \<longleftrightarrow> needle \<noteq> [] \<and> (\<exists>u v. haystack = u @ needle @ v)"
proof (cases "length needle \<le> length haystack")
  case True
  then show ?thesis by (auto simp: contains_bytes_def list_ex_iff windows_mem)
qed (auto simp: contains_bytes_def)

text \<open>
  The final check of the build searches correctly: \<open>contains_bytes\<close> holds exactly when the
  needle is not empty and occurs as a contiguous part of the haystack, at any position.
\<close>

theorem contains_bytes_is_containment:
  "contains_bytes haystack needle \<longleftrightarrow> needle \<noteq> [] \<and> (\<exists>u v. haystack = u @ needle @ v)"
  by (rule containment)

section \<open>The machine type of an image\<close>

lemma read_exact_simps [simp]:
  "offset + n \<le> length bytes \<Longrightarrow> read_exact what offset n bytes = Ok (le_value (take n (drop offset bytes)))"
  by (simp add: read_exact_def)

text \<open>
  Reading the machine type stays inside the file: once the length and the header offset were
  checked no read runs past the end, and the answer is the two bytes after the signature at the
  offset that the DOS header gives, of a file with both signatures.
\<close>

theorem pe_machine_stays_in_file:
  "(case pe_machine bytes of
     Err e \<Rightarrow> (\<forall>what. e \<noteq> Pe_Read what)
   | Ok machine \<Rightarrow> 64 \<le> length bytes \<and> le_value (take 2 bytes) = 0x5A4D
       \<and> (let off = le_value (take 4 (drop 0x3C bytes)) in off + 6 \<le> length bytes
         \<and> le_value (take 4 (drop off bytes)) = 0x4550
         \<and> machine = word_of_nat (le_value (take 2 (drop (off + 4) bytes)))))"
proof (cases "length bytes < 64 \<or> le_value (take 2 bytes) \<noteq> 0x5A4D
    \<or> le_value (take 4 (drop 0x3C bytes)) > length bytes - 6")
  case True
  then show ?thesis by (auto simp: pe_machine_def)
next
  case False
  then have "64 \<le> length bytes" "le_value (take 4 (drop 0x3C bytes)) \<le> length bytes - 6" by simp_all
  then have "le_value (take 4 (drop 0x3C bytes)) + 6 \<le> length bytes" by linarith
  with False show ?thesis by (simp add: pe_machine_def Let_def)
qed

section \<open>Digests and thumbprints\<close>

lemma hexdigit_ascii: "is_ascii_hexdigit c \<Longrightarrow> c < 128"
  by (auto simp: ascii_defs)

lemma byte_length_hex: "list_all is_ascii_hexdigit s \<Longrightarrow> byte_length s = length s"
  by (induction s) (auto simp: byte_length_def utf8_length_def dest: hexdigit_ascii)

lemma hex_upper: "is_ascii_hexdigit (to_ascii_uppercase c) \<longleftrightarrow> is_ascii_hexdigit c"
  by (auto simp: ascii_defs)

lemma whitespace_upper: "is_ascii_whitespace (to_ascii_uppercase c) \<longleftrightarrow> is_ascii_whitespace c"
  by (auto simp: ascii_defs is_ascii_whitespace_def)

lemma hexdigit_not_whitespace: "is_ascii_hexdigit c \<Longrightarrow> \<not> is_ascii_whitespace c"
  by (auto simp: ascii_defs is_ascii_whitespace_def)

lemma squeeze_hex: "list_all is_ascii_hexdigit s \<Longrightarrow> squeeze s = s"
  unfolding squeeze_def by (rule filter_True) (auto simp: list_all_iff hexdigit_not_whitespace)

lemma list_all_hex_upper [simp]:
  "list_all is_ascii_hexdigit (str_uppercase s) = list_all is_ascii_hexdigit s"
  by (simp add: str_uppercase_def list.pred_map comp_def hex_upper)

text \<open>\<open>hex_string n s\<close>: the canonical form, exactly \<open>n\<close> upper-case hexadecimal digits.\<close>

definition hex_string :: "nat \<Rightarrow> ustring \<Rightarrow> bool" where
  "hex_string n s \<longleftrightarrow> length s = n \<and> list_all is_ascii_hexdigit s \<and> str_uppercase s = s"

lemma normalize_thumbprint_iff:
  "normalize_thumbprint v = Ok d \<longleftrightarrow> hex_string 40 d \<and> str_uppercase (squeeze v) = d"
  by (auto simp: normalize_thumbprint_def Let_def hex_string_def byte_length_hex split: if_splits)

lemma digest_line_iff:
  "digest_line n line = Some d \<longleftrightarrow> hex_string n d \<and> str_uppercase (squeeze line) = d"
  by (auto simp: digest_line_def Let_def hex_string_def byte_length_hex split: if_splits)

lemma digest_line_none:
  "digest_line n line = None \<longleftrightarrow> \<not> hex_string n (str_uppercase (squeeze line))"
  using digest_line_iff [of n line] by (metis not_Some_eq)

lemma find_map_Some:
  "find_map f xs = Some y \<longleftrightarrow> (\<exists>u x v. xs = u @ x # v \<and> f x = Some y \<and> (\<forall>z \<in> set u. f z = None))"
proof (induction xs)
  case (Cons x xs)
  show ?case
  proof (cases "f x")
    case None
    show ?thesis
    proof
      assume "find_map f (x # xs) = Some y"
      with None Cons obtain u z v where "xs = u @ z # v" "f z = Some y" "\<forall>z \<in> set u. f z = None"
        by auto
      with None have "x # xs = (x # u) @ z # v" "f z = Some y" "\<forall>z \<in> set (x # u). f z = None" by auto
      then show "\<exists>u z v. x # xs = u @ z # v \<and> f z = Some y \<and> (\<forall>z \<in> set u. f z = None)" by blast
    next
      assume "\<exists>u z v. x # xs = u @ z # v \<and> f z = Some y \<and> (\<forall>z \<in> set u. f z = None)"
      then obtain u z v where "x # xs = u @ z # v" "f z = Some y" "\<forall>z \<in> set u. f z = None" by blast
      with None Cons show "find_map f (x # xs) = Some y" by (cases u) auto
    qed
  next
    case (Some w)
    then show ?thesis by (auto simp: Cons_eq_append_conv intro!: exI [of _ "[]"])
  qed
qed simp

text \<open>
  Thumbprints and digests meet in one canonical form: what certutil's output or an environment
  variable is reduced to is exactly 40, or the expected number of, upper-case hexadecimal digits;
  it is the first line of the output that is such a number with any white space inside, whatever
  the localized lines around it say; and equality of the results is equality of the numbers.
\<close>

theorem digests_are_canonical:
  "(normalize_thumbprint v = Ok d \<longleftrightarrow> hex_string 40 d \<and> str_uppercase (squeeze v) = d)
   \<and> (parse_digest out n = Some d \<longleftrightarrow> (\<exists>before line after. str_lines out = before @ line # after
        \<and> hex_string n d \<and> str_uppercase (squeeze line) = d
        \<and> list_all (\<lambda>l. \<not> hex_string n (str_uppercase (squeeze l))) before))"
  by (simp add: normalize_thumbprint_iff parse_digest_def find_map_Some digest_line_iff digest_line_none
      list_all_iff)

end
