(* ===== verification/Build_Pipeline.thy ===== *)
theory Build_Pipeline
  imports Build_Parsing Effects Inventory
begin

text \<open>
  scripts/build-tool/src/main.rs and manifest.rs, the effectful part: discovery, the driver package,
  signing, the CLI build and the manifest. The build machine is a parameter: the record \<open>'w host\<close>
  has one function per standard-library call, a failing call carries the text of its error, and a
  child process is the command line with its exit code. Paths are their text; \<open>ho_ancestors\<close> is
  \<open>Path::ancestors\<close>, \<open>ho_arm_host\<close> the \<open>cfg!\<close> of the tool's own target, and the last two functions
  format a command and a JSON document.
\<close>

section \<open>The build machine\<close>

type_synonym path = ustring

record command_line =
  cl_program :: ustring
  cl_args :: "ustring list"
  cl_directory :: "path option"
  cl_env :: "(string \<times> path option) list"

record process_output =
  po_code :: "int option"
  po_stdout :: ustring
  po_stderr :: ustring

record file_metadata =
  fm_is_file :: bool
  fm_length :: nat

datatype host_event =
    Env_Var string "ustring option"
  | Current_Dir "path option"
  | Is_File path bool
  | Is_Dir path bool
  | Exists path bool
  | Metadata path "ustring + file_metadata"
  | Read_File path "ustring + u8 list"
  | Read_Text path "ustring + ustring"
  | Read_Dir path "path list option"
  | Write_Text path ustring "ustring option"
  | Copy_File path path "ustring option"
  | Make_Directories path "ustring option"
  | Remove_Directory path "ustring option"
  | Remove_File path "ustring option"
  | Run_Status command_line "ustring + int option"
  | Run_Output command_line "ustring + process_output"
  | Unix_Time "ustring + nat"
  | Say ustring
  | Embed_Resources path "ustring option"

type_synonym ('w, 'a) host_fun = "'w \<Rightarrow> 'a \<times> 'w"

record 'w host =
  ho_env_var :: "string \<Rightarrow> ('w, ustring option) host_fun"
  ho_current_dir :: "('w, path option) host_fun"
  ho_is_file :: "path \<Rightarrow> ('w, bool) host_fun"
  ho_is_dir :: "path \<Rightarrow> ('w, bool) host_fun"
  ho_exists :: "path \<Rightarrow> ('w, bool) host_fun"
  ho_metadata :: "path \<Rightarrow> ('w, ustring + file_metadata) host_fun"
  ho_read_file :: "path \<Rightarrow> ('w, ustring + u8 list) host_fun"
  ho_read_text :: "path \<Rightarrow> ('w, ustring + ustring) host_fun"
  ho_read_dir :: "path \<Rightarrow> ('w, path list option) host_fun"
  ho_write_text :: "path \<Rightarrow> ustring \<Rightarrow> ('w, ustring option) host_fun"
  ho_copy_file :: "path \<Rightarrow> path \<Rightarrow> ('w, ustring option) host_fun"
  ho_make_directories :: "path \<Rightarrow> ('w, ustring option) host_fun"
  ho_remove_directory :: "path \<Rightarrow> ('w, ustring option) host_fun"
  ho_remove_file :: "path \<Rightarrow> ('w, ustring option) host_fun"
  ho_run_status :: "command_line \<Rightarrow> ('w, ustring + int option) host_fun"
  ho_run_output :: "command_line \<Rightarrow> ('w, ustring + process_output) host_fun"
  ho_unix_time :: "('w, ustring + nat) host_fun"
  ho_arm_host :: bool
  ho_ancestors :: "path \<Rightarrow> path list"
  ho_debug_command :: "command_line \<Rightarrow> ustring"
  ho_pretty :: "json \<Rightarrow> ustring + ustring"

type_synonym ('w, 'a) host_io = "('w, host_event, 'a) io"

definition host_call :: "('w, 'a) host_fun \<Rightarrow> ('a \<Rightarrow> host_event) \<Rightarrow> ('w, 'a) host_io" where
  "host_call f ev = (\<lambda>w. case f w of (a, w') \<Rightarrow> Some (a, [ev a], w'))"

definition env_var :: "'w host \<Rightarrow> string \<Rightarrow> ('w, ustring option) host_io" where
  "env_var os name = host_call (ho_env_var os name) (Env_Var name)"

definition is_file :: "'w host \<Rightarrow> path \<Rightarrow> ('w, bool) host_io" where
  "is_file os path = host_call (ho_is_file os path) (Is_File path)"

definition is_dir :: "'w host \<Rightarrow> path \<Rightarrow> ('w, bool) host_io" where
  "is_dir os path = host_call (ho_is_dir os path) (Is_Dir path)"

definition log_step :: "ustring \<Rightarrow> ('w, unit) host_io" where
  "log_step message = (\<lambda>w. Some ((), [Say (lit ''[WispDisk] '' @ message)], w))"

definition say :: "ustring \<Rightarrow> ('w, unit) host_io" where
  "say t = (\<lambda>w. Some ((), [Say t], w))"

section \<open>Paths\<close>

text \<open>
  \<open>Path::join\<close> with a relative part, and the components of a path: a drive prefix, the root, and
  the names, where separators and \<open>.\<close> between them are dropped. UNC and verbatim prefixes, which
  the tool never builds, are read as names.
\<close>

definition is_separator :: "nat \<Rightarrow> bool" where
  "is_separator c \<longleftrightarrow> c = 92 \<or> c = 47"

definition join :: "path \<Rightarrow> ustring \<Rightarrow> path" where
  "join base part =
     (if base = [] \<or> is_separator (last base) \<or> length base = 2 \<and> last base = 58
      then base @ part else base @ 92 # part)"

datatype component = Drive nat | Root | Name ustring

fun split_path :: "ustring \<Rightarrow> ustring list" where
  "split_path [] = [[]]"
| "split_path (c # cs) = (if is_separator c then [] # split_path cs
     else (c # hd (split_path cs)) # tl (split_path cs))"

definition names :: "ustring \<Rightarrow> component list" where
  "names s = map Name (filter (\<lambda>n. n \<noteq> [] \<and> n \<noteq> lit ''.'') (split_path s))"

definition rooted :: "ustring \<Rightarrow> component list" where
  "rooted s = (if s \<noteq> [] \<and> is_separator (hd s) then Root # names s else names s)"

definition components :: "path \<Rightarrow> component list" where
  "components p = (case p of
     letter # colon # rest \<Rightarrow> if is_ascii_alphabetic letter \<and> colon = 58
       then Drive (to_ascii_uppercase letter) # rooted rest else rooted p
   | _ \<Rightarrow> rooted p)"

definition is_absolute :: "path \<Rightarrow> bool" where
  "is_absolute p = (case components p of Drive _ # Root # _ \<Rightarrow> True | _ \<Rightarrow> False)"

text \<open>\<open>directory.parent() == Some(root)\<close>; only a name is dropped by \<open>parent\<close>.\<close>

definition is_parent :: "path \<Rightarrow> path \<Rightarrow> bool" where
  "is_parent root directory = (case rev (components directory) of
     Name _ # rest \<Rightarrow> rev rest = components root | _ \<Rightarrow> False)"

text \<open>\<open>strip_prefix\<close> succeeds.\<close>

definition has_prefix :: "path \<Rightarrow> path \<Rightarrow> bool" where
  "has_prefix root directory \<longleftrightarrow> take (length (components root)) (components directory) = components root"

section \<open>Files and processes\<close>

definition quoted :: "ustring \<Rightarrow> ustring" where
  "quoted s = [39] @ s @ [39]"

definition path_error :: "ustring \<Rightarrow> path \<Rightarrow> ustring \<Rightarrow> ustring" where
  "path_error action path e = lit ''failed to '' @ action @ lit '' '' @ quoted path @ lit '': '' @ e"

definition done_or :: "(ustring \<Rightarrow> ustring) \<Rightarrow> ustring option \<Rightarrow> unit build_result" where
  "done_or f r = (case r of Some e \<Rightarrow> Err (f e) | None \<Rightarrow> Ok ())"

definition check_file :: "path \<Rightarrow> ustring \<Rightarrow> file_metadata \<Rightarrow> unit build_result" where
  "check_file path description m =
     (if \<not> fm_is_file m then Err (description @ lit '' is not a file: '' @ path)
      else if fm_length m = 0 then Err (description @ lit '' is empty: '' @ path)
      else Ok ())"

definition require_file :: "'w host \<Rightarrow> path \<Rightarrow> ustring \<Rightarrow> ('w, unit build_result) host_io" where
  "require_file os path description =
     map_io (\<lambda>r. try_res (map_err (path_error (lit ''locate '' @ description) path) r) (check_file path description))
       (host_call (ho_metadata os path) (Metadata path))"

definition copy_required_file ::
  "'w host \<Rightarrow> path \<Rightarrow> path \<Rightarrow> ustring \<Rightarrow> ('w, unit build_result) host_io" where
  "copy_required_file os source destination description =
     try_io (require_file os source description) (\<lambda>_.
     try_io (map_io (done_or (\<lambda>e. lit ''failed to copy '' @ description @ lit '' '' @ quoted source
          @ lit '' to '' @ quoted destination @ lit '': '' @ e))
       (host_call (ho_copy_file os source destination) (Copy_File source destination))) (\<lambda>_.
     require_file os destination description))"

definition make_directories :: "'w host \<Rightarrow> ustring \<Rightarrow> path \<Rightarrow> ('w, unit build_result) host_io" where
  "make_directories os action path = map_io (done_or (path_error action path))
     (host_call (ho_make_directories os path) (Make_Directories path))"

definition code_text :: "int option \<Rightarrow> ustring" where
  "code_text code = (case code of
     None \<Rightarrow> lit ''unknown''
   | Some n \<Rightarrow> if n < 0 then 45 # dec_digits (nat (- n)) else dec_digits (nat n))"

definition run :: "'w host \<Rightarrow> command_line \<Rightarrow> ustring \<Rightarrow> ('w, unit build_result) host_io" where
  "run os command description =
     map_io (\<lambda>r. case r of
         Err e \<Rightarrow> Err (lit ''failed to start '' @ description @ lit '' ('' @ ho_debug_command os command
           @ lit ''): '' @ e)
       | Ok code \<Rightarrow> if code = Some 0 then Ok ()
           else Err (description @ lit '' failed with exit code '' @ code_text code @ lit '' (''
             @ ho_debug_command os command @ lit '')''))
       (host_call (ho_run_status os command) (Run_Status command))"

definition capture :: "'w host \<Rightarrow> command_line \<Rightarrow> ustring \<Rightarrow> ('w, process_output build_result) host_io" where
  "capture os command description =
     map_io (\<lambda>r. case r of
         Err e \<Rightarrow> Err (lit ''failed to start '' @ description @ lit '' ('' @ ho_debug_command os command
           @ lit ''): '' @ e)
       | Ok out \<Rightarrow> if po_code out = Some 0 then Ok out
           else Err (description @ lit '' failed with exit code '' @ code_text (po_code out) @ lit '' (''
             @ ho_debug_command os command @ lit '')'' @ [10] @ str_trim (po_stderr out)))
       (host_call (ho_run_output os command) (Run_Output command))"

definition plain_command :: "ustring \<Rightarrow> ustring list \<Rightarrow> command_line" where
  "plain_command program args =
     \<lparr>cl_program = program, cl_args = args, cl_directory = None, cl_env = []\<rparr>"

text \<open>The first path for which a test, run one by one, holds.\<close>

fun find_io :: "('a \<Rightarrow> ('w, bool) host_io) \<Rightarrow> 'a list \<Rightarrow> ('w, 'a option) host_io" where
  "find_io test [] = return_io None"
| "find_io test (x # xs) = bind_io (test x) (\<lambda>b. if b then return_io (Some x) else find_io test xs)"

text \<open>\<open>env::split_paths\<close> on Windows: semicolons outside quotes separate, quotes are dropped.\<close>

fun split_paths :: "bool \<Rightarrow> ustring \<Rightarrow> ustring \<Rightarrow> ustring list" where
  "split_paths inside current [] = [rev current]"
| "split_paths inside current (c # cs) =
     (if c = 34 then split_paths (\<not> inside) current cs
      else if c = 59 \<and> \<not> inside then rev current # split_paths inside [] cs
      else split_paths inside (c # current) cs)"

definition find_on_path :: "'w host \<Rightarrow> string \<Rightarrow> ('w, path option) host_io" where
  "find_on_path os name = bind_io (env_var os ''PATH'') (\<lambda>value. case value of
     None \<Rightarrow> return_io None
   | Some v \<Rightarrow> find_io (is_file os) (map (\<lambda>d. join d (lit name)) (split_paths False [] v)))"

section \<open>Discovery\<close>

definition find_repo_root :: "'w host \<Rightarrow> ('w, path build_result) host_io" where
  "find_repo_root os =
     bind_io (env_var os ''CARGO_MAKE_WORKING_DIRECTORY'') (\<lambda>first.
     bind_io (host_call (ho_current_dir os) Current_Dir) (\<lambda>second.
     map_io (\<lambda>found. ok_or found (lit ''could not find the WispDisk repository root''))
       (find_io (\<lambda>candidate.
           bind_io (is_file os (join candidate (lit ''Cargo.toml''))) (\<lambda>b.
           if b then is_file os (join candidate (lit ''driver/WispDisk.vcxproj'')) else return_io False))
         (concat (map (ho_ancestors os)
           ((case first of None \<Rightarrow> [] | Some p \<Rightarrow> [p]) @ (case second of None \<Rightarrow> [] | Some p \<Rightarrow> [p])))))))"

record visual_studio =
  vs_installation :: path
  vs_msbuild :: path

definition first_text_line :: "ustring \<Rightarrow> ustring option" where
  "first_text_line out = find (\<lambda>l. l \<noteq> []) (map str_trim (str_lines out))"

definition find_vswhere :: "'w host \<Rightarrow> ('w, path build_result) host_io" where
  "find_vswhere os =
     bind_io (env_var os ''ProgramFiles(x86)'') (\<lambda>program_files.
     let standard = map_option (\<lambda>d. join d (lit ''Microsoft Visual Studio/Installer/vswhere.exe'')) program_files in
     bind_io (case standard of
         None \<Rightarrow> return_io None
       | Some path \<Rightarrow> map_io (\<lambda>b. if b then Some path else None) (is_file os path)) (\<lambda>found.
     map_io (\<lambda>found. ok_or found (lit ''Visual Studio Installer vswhere.exe was not found; install Visual Studio 2022 with Desktop development with C++''))
       (case found of Some path \<Rightarrow> return_io (Some path) | None \<Rightarrow> find_on_path os ''vswhere.exe'')))"

definition discover_visual_studio :: "'w host \<Rightarrow> ('w, visual_studio build_result) host_io" where
  "discover_visual_studio os =
     try_io (find_vswhere os) (\<lambda>vswhere.
     try_io (capture os (plain_command vswhere (map lit [''-latest'', ''-products'', ''*'', ''-requires'',
         ''Microsoft.Component.MSBuild'', ''Component.Microsoft.Windows.DriverKit'', ''-property'',
         ''installationPath''])) (lit ''Visual Studio discovery'')) (\<lambda>out.
     try_io (return_io (ok_or (first_text_line (po_stdout out))
         (lit ''Visual Studio 2022 with MSBuild and the Windows Driver Kit component was not found''))) (\<lambda>installation.
     bind_io (is_dir os installation) (\<lambda>present.
     if \<not> present
     then fail_io (lit ''Visual Studio discovery returned a missing directory: '' @ installation)
     else try_io (map_io (\<lambda>found. ok_or found (lit ''MSBuild.exe was not found under '' @ quoted installation))
         (find_io (is_file os) [join installation (lit ''MSBuild/Current/Bin/amd64/MSBuild.exe''),
           join installation (lit ''MSBuild/Current/Bin/MSBuild.exe'')])) (\<lambda>msbuild.
       ok_io \<lparr>vs_installation = installation, vs_msbuild = msbuild\<rparr>)))))"

text \<open>\<open>Path::extension\<close> of the last name: what follows its last dot, unless the dot is its first.\<close>

definition file_name_of :: "path \<Rightarrow> ustring option" where
  "file_name_of p = (case rev (components p) of Name n # _ \<Rightarrow> if n = lit ''..'' then None else Some n | _ \<Rightarrow> None)"

definition extension_of :: "path \<Rightarrow> ustring option" where
  "extension_of p = (case file_name_of p of
     None \<Rightarrow> None
   | Some n \<Rightarrow> if 46 \<in> set (tl n) then Some (rev (takeWhile (\<lambda>c. c \<noteq> 46) (rev n))) else None)"

definition is_library :: "'w host \<Rightarrow> path \<Rightarrow> ('w, bool) host_io" where
  "is_library os path = map_io (\<lambda>b. b \<and> (case extension_of path of
       None \<Rightarrow> False | Some x \<Rightarrow> eq_ignore_ascii_case x (lit ''lib'')))
     (is_file os path)"

definition confirm_spectre_libraries :: "'w host \<Rightarrow> path \<Rightarrow> platform \<Rightarrow> ('w, unit build_result) host_io" where
  "confirm_spectre_libraries os visual_studio platform =
     (let version_file = join visual_studio (lit ''VC/Auxiliary/Build/Microsoft.VCToolsVersion.default.txt'') in
      try_io (require_file os version_file (lit ''active MSVC toolset version file'')) (\<lambda>_.
      try_io (map_io (map_err (path_error (lit ''read MSVC toolset version'') version_file))
        (host_call (ho_read_text os version_file) (Read_Text version_file))) (\<lambda>version.
      let spectre_dir = join (join (join (join visual_studio (lit ''VC/Tools/MSVC'')) (str_trim version))
        (lit ''lib/spectre'')) (lit (spectre_library_platform platform)) in
      bind_io (host_call (ho_read_dir os spectre_dir) (Read_Dir spectre_dir)) (\<lambda>entries.
      bind_io (case entries of
          None \<Rightarrow> return_io None
        | Some paths \<Rightarrow> find_io (is_library os) paths) (\<lambda>found.
      ensure_io (found \<noteq> None) (lit ''Spectre-mitigated '' @ lit (platform_msbuild platform)
        @ lit '' libraries are missing; install Visual Studio component ''
        @ quoted (lit (spectre_component platform))))))))"

definition confirm_rust_target :: "'w host \<Rightarrow> platform \<Rightarrow> ('w, unit build_result) host_io" where
  "confirm_rust_target os platform =
     try_io (capture os (plain_command (lit ''rustup'') (map lit [''target'', ''list'', ''--installed'']))
       (lit ''installed Rust target discovery'')) (\<lambda>out.
     ensure_io (list_ex (\<lambda>l. str_trim l = lit (rust_target platform)) (str_lines (po_stdout out)))
       (lit ''Rust target '' @ quoted (lit (rust_target platform))
         @ lit '' is not installed; run: rustup target add '' @ lit (rust_target platform)))"

definition windows_sdk_version :: "'w host \<Rightarrow> path \<Rightarrow> ('w, ustring build_result) host_io" where
  "windows_sdk_version os project =
     map_io (\<lambda>r. try_res (map_err (path_error (lit ''read driver project'') project) r) (sdk_version_of project))
       (host_call (ho_read_text os project) (Read_Text project))"

fun dir_of_lines :: "'w host \<Rightarrow> ustring list \<Rightarrow> ('w, path option) host_io" where
  "dir_of_lines os [] = return_io None"
| "dir_of_lines os (l # ls) = (case split_first (lit ''REG_SZ'') l of
     None \<Rightarrow> dir_of_lines os ls
   | Some (_, value) \<Rightarrow> bind_io (is_dir os (str_trim value)) (\<lambda>b.
       if b then return_io (Some (str_trim value)) else dir_of_lines os ls))"

definition registry_kits_root :: "'w host \<Rightarrow> ('w, path option) host_io" where
  "registry_kits_root os =
     bind_io (find_on_path os ''reg.exe'') (\<lambda>reg. case reg of
       None \<Rightarrow> return_io None
     | Some program \<Rightarrow>
         let query = plain_command program [lit ''query'',
           lit ''HKLM'' @ [92] @ lit ''SOFTWARE'' @ [92] @ lit ''Microsoft'' @ [92] @ lit ''Windows Kits'' @ [92]
             @ lit ''Installed Roots'', lit ''/v'', lit ''KitsRoot10''] in
         bind_io (host_call (ho_run_output os query) (Run_Output query)) (\<lambda>r. case r of
           Err _ \<Rightarrow> return_io None
         | Ok out \<Rightarrow> if po_code out = Some 0 then dir_of_lines os (str_lines (po_stdout out))
             else return_io None))"

definition windows_kits_root :: "'w host \<Rightarrow> ('w, path) host_io" where
  "windows_kits_root os =
     bind_io (env_var os ''WISPDISK_WINDOWS_KITS_ROOT'') (\<lambda>value. case value of
       Some path \<Rightarrow> return_io path
     | None \<Rightarrow> bind_io (registry_kits_root os) (\<lambda>found. case found of
         Some path \<Rightarrow> return_io path
       | None \<Rightarrow> map_io (\<lambda>v. join (case v of Some d \<Rightarrow> d
             | None \<Rightarrow> lit ''C:'' @ [92] @ lit ''Program Files (x86)'') (lit ''Windows Kits/10''))
           (env_var os ''ProgramFiles(x86)'')))"

definition find_windows_kit_tool :: "'w host \<Rightarrow> ustring \<Rightarrow> string \<Rightarrow> ('w, path build_result) host_io" where
  "find_windows_kit_tool os version name =
     bind_io (windows_kits_root os) (\<lambda>kits_root.
     let version_dir = join (join kits_root (lit ''bin'')) version in
     bind_io (is_dir os version_dir) (\<lambda>present.
     if \<not> present
     then fail_io (lit ''Windows Kit '' @ version @ lit '' was not found under '' @ quoted kits_root)
     else map_io (\<lambda>found. ok_or found (quoted (lit name) @ lit '' was not found in Windows Kit '' @ version))
       (find_io (is_file os) (map (\<lambda>architecture. join (join version_dir (lit architecture)) (lit name))
         (if ho_arm_host os then [''arm64'', ''x64'', ''x86''] else [''x64'', ''x86'', ''arm64''])))))"

section \<open>Certificates and signatures\<close>

definition hash_file ::
  "'w host \<Rightarrow> path \<Rightarrow> path \<Rightarrow> string \<Rightarrow> nat \<Rightarrow> ('w, ustring build_result) host_io" where
  "hash_file os certutil path algorithm expected_length =
     try_io (capture os (plain_command certutil [lit ''-hashfile'', path, lit algorithm])
       (lit algorithm @ lit '' hash for '' @ quoted path)) (\<lambda>out.
     return_io (ok_or (parse_digest (po_stdout out) expected_length)
       (lit ''certutil did not return a '' @ dec_digits expected_length @ lit ''-character '' @ lit algorithm
         @ lit '' digest for '' @ quoted path)))"

definition env_flag :: "'w host \<Rightarrow> string \<Rightarrow> ('w, bool build_result) host_io" where
  "env_flag os name = map_io (env_flag_of (lit name)) (env_var os name)"

text \<open>Where the public certificate comes from: an export, a new one, or the file that is there.\<close>

definition obtain_certificate ::
  "'w host \<Rightarrow> path \<Rightarrow> path \<Rightarrow> path \<Rightarrow> ustring option \<Rightarrow> ('w, unit build_result) host_io" where
  "obtain_certificate os repo certutil certificate_path requested = (case requested of
     Some thumbprint \<Rightarrow>
       bind_io (log_step (lit ''Exporting the requested driver test certificate'')) (\<lambda>_.
       run os (plain_command certutil [lit ''-f'', lit ''-user'', lit ''-store'', lit ''My'', thumbprint,
         certificate_path]) (lit ''test certificate export''))
   | None \<Rightarrow> bind_io (is_file os certificate_path) (\<lambda>present.
       if present then ok_io ()
       else bind_io (log_step (lit ''Creating a non-exportable current-user test certificate'')) (\<lambda>_.
         let request = join repo (lit ''scripts/WispDiskTestCertificate.inf'') in
         try_io (require_file os request (lit ''test certificate request'')) (\<lambda>_.
         try_io (map_io (\<lambda>found. ok_or found (lit ''certreq.exe was not found on PATH''))
           (find_on_path os ''certreq.exe'')) (\<lambda>certreq.
         run os (plain_command certreq [lit ''-new'', request, certificate_path])
           (lit ''test certificate creation''))))))"

definition trust_certificate :: "'w host \<Rightarrow> path \<Rightarrow> path \<Rightarrow> ('w, unit build_result) host_io" where
  "trust_certificate os certutil certificate_path =
     bind_io (log_step (lit ''Trusting the public test certificate for the current user'')) (\<lambda>_.
     for_io (\<lambda>store. run os (plain_command certutil [lit ''-f'', lit ''-user'', lit ''-addstore'', lit store,
         certificate_path]) (lit ''add certificate to '' @ lit store @ lit '' store''))
       [''Root'', ''TrustedPublisher''])"

definition prepare_driver_certificate ::
  "'w host \<Rightarrow> path \<Rightarrow> path \<Rightarrow> path \<Rightarrow> ustring option \<Rightarrow> ('w, ustring build_result) host_io" where
  "prepare_driver_certificate os repo certutil certificate_path requested =
     try_io (return_io (case requested of
         None \<Rightarrow> Ok None
       | Some v \<Rightarrow> try_res (normalize_thumbprint v) (\<lambda>t. Ok (Some t)))) (\<lambda>thumbprint.
     try_io (obtain_certificate os repo certutil certificate_path thumbprint) (\<lambda>_.
     try_io (require_file os certificate_path (lit ''public test certificate'')) (\<lambda>_.
     try_io (hash_file os certutil certificate_path ''SHA1'' 40) (\<lambda>actual.
     try_io (case thumbprint of
         None \<Rightarrow> ok_io ()
       | Some expected \<Rightarrow> ensure_io (actual = expected) (lit ''exported certificate thumbprint '' @ actual
           @ lit '' did not match requested thumbprint '' @ expected)) (\<lambda>_.
     try_io (env_flag os ''WISPDISK_SKIP_CERTIFICATE_TRUST'') (\<lambda>skip.
     try_io (if skip then ok_io () else trust_certificate os certutil certificate_path) (\<lambda>_.
     ok_io actual)))))))"

definition sign_command :: "path \<Rightarrow> ustring \<Rightarrow> ustring \<Rightarrow> ustring option \<Rightarrow> path \<Rightarrow> command_line" where
  "sign_command sign_tool thumbprint description timestamp path =
     plain_command sign_tool (map lit [''sign'', ''/v'', ''/fd'', ''SHA256'', ''/s'', ''My'', ''/sha1'']
       @ [thumbprint, lit ''/d'', description]
       @ (case timestamp of
            None \<Rightarrow> []
          | Some url \<Rightarrow> if url = [] then [] else [lit ''/tr'', url, lit ''/td'', lit ''SHA256''])
       @ [path])"

definition sign_file ::
  "'w host \<Rightarrow> path \<Rightarrow> ustring \<Rightarrow> path \<Rightarrow> ustring \<Rightarrow> ('w, unit build_result) host_io" where
  "sign_file os sign_tool thumbprint path description =
     try_io (require_file os path (lit ''signing input'')) (\<lambda>_.
     bind_io (env_var os ''WISPDISK_TIMESTAMP_URL'') (\<lambda>timestamp.
     run os (sign_command sign_tool thumbprint description timestamp path) (lit ''sign '' @ quoted path)))"

definition verify_command :: "path \<Rightarrow> path \<Rightarrow> command_line" where
  "verify_command sign_tool path = plain_command sign_tool [lit ''verify'', lit ''/v'', lit ''/pa'', path]"

definition verify_signature :: "'w host \<Rightarrow> path \<Rightarrow> path \<Rightarrow> ustring \<Rightarrow> ('w, unit build_result) host_io" where
  "verify_signature os sign_tool path description = run os (verify_command sign_tool path) description"

definition member_command :: "path \<Rightarrow> path \<Rightarrow> path \<Rightarrow> command_line" where
  "member_command sign_tool catalog member =
     plain_command sign_tool [lit ''verify'', lit ''/v'', lit ''/pa'', lit ''/c'', catalog, member]"

definition verify_catalog_member :: "'w host \<Rightarrow> path \<Rightarrow> path \<Rightarrow> path \<Rightarrow> ('w, unit build_result) host_io" where
  "verify_catalog_member os sign_tool catalog member =
     run os (member_command sign_tool catalog member) (lit ''catalog membership for '' @ quoted member)"

section \<open>Checks of files\<close>

definition PACKAGE_FILES :: "string list" where
  "PACKAGE_FILES = [''WispDisk.sys'', ''WispDisk.inf'', ''WispDisk.cat'']"

definition confirm_embedded_file :: "'w host \<Rightarrow> u8 list \<Rightarrow> path \<Rightarrow> ('w, unit build_result) host_io" where
  "confirm_embedded_file os executable_bytes package_path =
     try_io (map_io (map_err (path_error (lit ''read embedded package input'') package_path))
       (host_call (ho_read_file os package_path) (Read_File package_path))) (\<lambda>package_bytes.
     if package_bytes = [] \<or> \<not> contains_bytes executable_bytes package_bytes
     then fail_io (lit ''signed executable does not contain the exact signed bytes from '' @ quoted package_path)
     else ok_io ())"

definition confirm_package_embedded :: "'w host \<Rightarrow> path \<Rightarrow> path \<Rightarrow> ('w, unit build_result) host_io" where
  "confirm_package_embedded os executable package_dir =
     try_io (map_io (map_err (path_error (lit ''read signed executable'') executable))
       (host_call (ho_read_file os executable) (Read_File executable))) (\<lambda>executable_bytes.
     for_io (\<lambda>file_name. confirm_embedded_file os executable_bytes (join package_dir (lit file_name)))
       PACKAGE_FILES)"

fun pe_error_text :: "path \<Rightarrow> pe_error \<Rightarrow> ustring" where
  "pe_error_text path Pe_Too_Short = lit ''file is too short to be a PE image: '' @ path"
| "pe_error_text path Pe_Dos_Signature = lit ''file is not a valid PE image: '' @ path"
| "pe_error_text path Pe_Offset = lit ''PE header offset is outside the file: '' @ path"
| "pe_error_text path Pe_Signature = lit ''PE signature is invalid: '' @ path"
| "pe_error_text path (Pe_Read what) = path_error (lit what) path (lit ''failed to fill whole buffer'')"

text \<open>The open file is read as its bytes; its length is theirs.\<close>

definition pe_machine_type :: "'w host \<Rightarrow> path \<Rightarrow> ('w, u16 build_result) host_io" where
  "pe_machine_type os path =
     try_io (require_file os path (lit ''PE image'')) (\<lambda>_.
     try_io (map_io (map_err (path_error (lit ''open PE image'') path))
       (host_call (ho_read_file os path) (Read_File path))) (\<lambda>bytes.
     return_io (map_err (pe_error_text path) (pe_machine bytes))))"

definition confirm_pe_architecture :: "'w host \<Rightarrow> path \<Rightarrow> platform \<Rightarrow> ('w, unit build_result) host_io" where
  "confirm_pe_architecture os path platform =
     try_io (pe_machine_type os path) (\<lambda>actual.
     ensure_io (actual = platform_machine platform)
       (lit ''architecture mismatch for '' @ quoted path @ lit '': expected ''
         @ lit (platform_machine_name platform) @ lit '' (0x'' @ hex_fixed 4 (unat (platform_machine platform))
         @ lit ''), found 0x'' @ hex_fixed 4 (unat actual)))"

definition reset_directory :: "'w host \<Rightarrow> path \<Rightarrow> path \<Rightarrow> ('w, unit build_result) host_io" where
  "reset_directory os root directory =
     (if \<not> is_absolute root \<or> \<not> is_absolute directory \<or> is_parent root directory
      then fail_io (lit ''refusing to reset invalid package directory '' @ quoted directory)
      else if \<not> has_prefix root directory
      then fail_io (lit ''refusing to reset package directory outside '' @ quoted root @ lit '': '' @ directory)
      else bind_io (host_call (ho_exists os directory) (Exists directory)) (\<lambda>present.
        try_io (if present
          then bind_io (log_step (lit ''Resetting package directory '' @ directory)) (\<lambda>_.
            map_io (done_or (path_error (lit ''reset package directory'') directory))
              (host_call (ho_remove_directory os directory) (Remove_Directory directory)))
          else ok_io ()) (\<lambda>_.
        make_directories os (lit ''create package directory'') directory)))"

section \<open>The manifest\<close>

record manifest_file =
  mf_role :: string
  mf_path :: path
  mf_length :: nat
  mf_sha256 :: ustring

record build_manifest =
  bm_schema_version :: nat
  bm_created :: nat
  bm_configuration :: string
  bm_platform :: string
  bm_rust_target :: string
  bm_machine :: ustring
  bm_kit_version :: ustring
  bm_driver_thumbprint :: ustring
  bm_executable_thumbprint :: ustring
  bm_files :: "manifest_file list"

text \<open>The \<open>PascalCase\<close> names of the fields.\<close>

definition manifest_file_json :: "manifest_file \<Rightarrow> json" where
  "manifest_file_json f = JObject [(''Role'', JString (lit (mf_role f))), (''Path'', JString (mf_path f)),
     (''Length'', JNumber (mf_length f)), (''SHA256'', JString (mf_sha256 f))]"

definition manifest_json :: "build_manifest \<Rightarrow> json" where
  "manifest_json m = JObject [
     (''SchemaVersion'', JNumber (bm_schema_version m)),
     (''CreatedAtUnixSeconds'', JNumber (bm_created m)),
     (''Configuration'', JString (lit (bm_configuration m))),
     (''Platform'', JString (lit (bm_platform m))),
     (''RustTarget'', JString (lit (bm_rust_target m))),
     (''PeMachineType'', JString (bm_machine m)),
     (''WindowsKitVersion'', JString (bm_kit_version m)),
     (''DriverTestCertificateThumbprint'', JString (bm_driver_thumbprint m)),
     (''ExecutableCertificateThumbprint'', JString (bm_executable_thumbprint m)),
     (''Files'', JArray (map manifest_file_json (bm_files m)))]"

definition write_build_manifest :: "'w host \<Rightarrow> build_manifest \<Rightarrow> path \<Rightarrow> ('w, unit build_result) host_io" where
  "write_build_manifest os m path =
     try_io (return_io (map_err (\<lambda>e. lit ''failed to serialize build manifest '' @ quoted path @ lit '': '' @ e)
       (ho_pretty os (manifest_json m)))) (\<lambda>t.
     map_io (done_or (path_error (lit ''write build manifest'') path))
       (host_call (ho_write_text os path (t @ [10])) (Write_Text path (t @ [10]))))"

definition manifest_entry ::
  "'w host \<Rightarrow> path \<Rightarrow> string \<times> path \<Rightarrow> ('w, manifest_file build_result) host_io" where
  "manifest_entry os certutil = (\<lambda>(role, path).
     try_io (require_file os path (lit ''manifest input '' @ quoted (lit role))) (\<lambda>_.
     try_io (map_io (map_err (path_error (lit ''inspect manifest input'') path))
       (host_call (ho_metadata os path) (Metadata path))) (\<lambda>m.
     try_io (hash_file os certutil path ''SHA256'' 64) (\<lambda>hash.
     ok_io \<lparr>mf_role = role, mf_path = path, mf_length = fm_length m, mf_sha256 = hash\<rparr>))))"

definition write_manifest ::
  "'w host \<Rightarrow> path \<Rightarrow> path \<Rightarrow> options \<Rightarrow> ustring \<Rightarrow> ustring \<Rightarrow> ustring \<Rightarrow> (string \<times> path) list
     \<Rightarrow> ('w, unit build_result) host_io" where
  "write_manifest os certutil path options sdk_version driver_certificate exe_certificate files =
     try_io (map_io (map_err (\<lambda>e. lit ''system clock is before the Unix epoch: '' @ e))
       (host_call (ho_unix_time os) Unix_Time)) (\<lambda>created.
     try_io (collect_io (manifest_entry os certutil) files) (\<lambda>entries.
     write_build_manifest os \<lparr>bm_schema_version = 3, bm_created = created,
       bm_configuration = configuration_msbuild (op_configuration options),
       bm_platform = platform_msbuild (op_platform options),
       bm_rust_target = rust_target (op_platform options),
       bm_machine = lit ''0x'' @ hex_fixed 4 (unat (platform_machine (op_platform options))),
       bm_kit_version = sdk_version, bm_driver_thumbprint = driver_certificate,
       bm_executable_thumbprint = exe_certificate, bm_files = entries\<rparr> path))"

end
