(* ===== verification/Build.thy ===== *)
theory Build
  imports Build_Pipeline
begin

text \<open>
  scripts/build-tool/src/main.rs, \<open>build\<close>, \<open>run_main\<close> and \<open>main\<close>: the paths of a build and its stages
  in their order. Each stage of \<open>build\<close> is a definition of its own.
\<close>

section \<open>Paths of the build\<close>

definition in_output :: "path \<Rightarrow> string \<Rightarrow> options \<Rightarrow> path" where
  "in_output repo place opt = join (join (join repo (lit place))
     (lit (configuration_msbuild (op_configuration opt)))) (lit (platform_msbuild (op_platform opt)))"

definition driver_solution :: "path \<Rightarrow> path" where
  "driver_solution repo = join repo (lit ''driver/WispDisk.sln'')"

definition driver_project :: "path \<Rightarrow> path" where
  "driver_project repo = join repo (lit ''driver/WispDisk.vcxproj'')"

definition driver_output :: "path \<Rightarrow> options \<Rightarrow> path" where
  "driver_output repo opt = in_output repo ''artifacts/driver'' opt"

definition built_package :: "path \<Rightarrow> options \<Rightarrow> path" where
  "built_package repo opt = join (driver_output repo opt) (lit ''WispDisk'')"

definition package_root :: "path \<Rightarrow> path" where
  "package_root repo = join repo (lit ''artifacts/package'')"

definition package_dir :: "path \<Rightarrow> options \<Rightarrow> path" where
  "package_dir repo opt = in_output repo ''artifacts/package'' opt"

definition signing_dir :: "path \<Rightarrow> path" where
  "signing_dir repo = join repo (lit ''artifacts/signing'')"

definition certificate_path :: "path \<Rightarrow> path" where
  "certificate_path repo = join (signing_dir repo) (lit ''WispDiskTest.cer'')"

definition package_file :: "path \<Rightarrow> options \<Rightarrow> string \<Rightarrow> path" where
  "package_file repo opt name = join (package_dir repo opt) (lit name)"

definition cargo_output :: "path \<Rightarrow> options \<Rightarrow> string \<Rightarrow> path" where
  "cargo_output repo opt name = join (join (join (join repo (lit ''target''))
     (lit (rust_target (op_platform opt)))) (lit (cargo_profile (op_configuration opt)))) (lit name)"

definition final_file :: "path \<Rightarrow> options \<Rightarrow> string \<Rightarrow> path" where
  "final_file repo opt name = join (in_output repo ''artifacts/bin'' opt) (lit name)"

section \<open>The stages\<close>

record tools =
  to_msbuild :: path
  to_sdk_version :: ustring
  to_sign_tool :: path
  to_inf2cat :: path
  to_certutil :: path

definition discover_tools :: "'w host \<Rightarrow> path \<Rightarrow> options \<Rightarrow> ('w, tools build_result) host_io" where
  "discover_tools os repo opt =
     try_io (require_file os (driver_solution repo) (lit ''driver solution'')) (\<lambda>_.
     try_io (require_file os (driver_project repo) (lit ''driver project'')) (\<lambda>_.
     try_io (confirm_rust_target os (op_platform opt)) (\<lambda>_.
     try_io (discover_visual_studio os) (\<lambda>vs.
     try_io (confirm_spectre_libraries os (vs_installation vs) (op_platform opt)) (\<lambda>_.
     try_io (windows_sdk_version os (driver_project repo)) (\<lambda>sdk_version.
     try_io (find_windows_kit_tool os sdk_version ''signtool.exe'') (\<lambda>sign_tool.
     try_io (find_windows_kit_tool os sdk_version ''Inf2Cat.exe'') (\<lambda>inf2cat.
     try_io (map_io (\<lambda>found. ok_or found (lit ''certutil.exe was not found on PATH''))
       (find_on_path os ''certutil.exe'')) (\<lambda>certutil.
     ok_io \<lparr>to_msbuild = vs_msbuild vs, to_sdk_version = sdk_version, to_sign_tool = sign_tool,
       to_inf2cat = inf2cat, to_certutil = certutil\<rparr>)))))))))"

definition msbuild_command :: "tools \<Rightarrow> path \<Rightarrow> options \<Rightarrow> command_line" where
  "msbuild_command t repo opt = plain_command (to_msbuild t)
     ([driver_solution repo] @ map lit [''/m'', ''/nologo'', ''/verbosity:minimal'', ''/t:Build'']
      @ [lit ''/p:Configuration='' @ lit (configuration_msbuild (op_configuration opt)),
         lit ''/p:Platform='' @ lit (platform_msbuild (op_platform opt)), lit ''/p:RunCodeAnalysis=true''])"

definition compile_driver :: "'w host \<Rightarrow> tools \<Rightarrow> path \<Rightarrow> options \<Rightarrow> ('w, unit build_result) host_io" where
  "compile_driver os t repo opt =
     bind_io (log_step (lit ''Building '' @ lit (configuration_msbuild (op_configuration opt)) @ lit ''/''
       @ lit (platform_msbuild (op_platform opt)) @ lit '' driver'')) (\<lambda>_.
     try_io (run os (msbuild_command t repo opt) (lit ''driver build'')) (\<lambda>_.
     confirm_pe_architecture os (join (built_package repo opt) (lit ''WispDisk.sys'')) (op_platform opt)))"

definition assemble_package :: "'w host \<Rightarrow> path \<Rightarrow> options \<Rightarrow> ('w, unit build_result) host_io" where
  "assemble_package os repo opt =
     try_io (reset_directory os (package_root repo) (package_dir repo opt)) (\<lambda>_.
     for_io (\<lambda>name. copy_required_file os (join (built_package repo opt) (lit name)) (package_file repo opt name)
         (lit ''driver build output''))
       PACKAGE_FILES)"

definition driver_certificate :: "'w host \<Rightarrow> tools \<Rightarrow> path \<Rightarrow> ('w, ustring build_result) host_io" where
  "driver_certificate os t repo =
     try_io (make_directories os (lit ''create signing directory'') (signing_dir repo)) (\<lambda>_.
     bind_io (env_var os ''WISPDISK_DRIVER_CERT_THUMBPRINT'')
       (prepare_driver_certificate os repo (to_certutil t) (certificate_path repo)))"

definition catalog_command :: "tools \<Rightarrow> path \<Rightarrow> options \<Rightarrow> command_line" where
  "catalog_command t repo opt = plain_command (to_inf2cat t) [lit ''/driver:'' @ package_dir repo opt,
     lit ''/os:'' @ lit (inf2cat_os (op_platform opt)), lit ''/uselocaltime'']"

definition remove_stale_catalog :: "'w host \<Rightarrow> path \<Rightarrow> ('w, unit build_result) host_io" where
  "remove_stale_catalog os path = bind_io (host_call (ho_exists os path) (Exists path)) (\<lambda>present.
     if present then map_io (done_or (path_error (lit ''remove stale driver catalog'') path))
       (host_call (ho_remove_file os path) (Remove_File path))
     else ok_io ())"

definition sign_package ::
  "'w host \<Rightarrow> tools \<Rightarrow> path \<Rightarrow> options \<Rightarrow> ustring \<Rightarrow> ('w, unit build_result) host_io" where
  "sign_package os t repo opt certificate =
     (let driver = package_file repo opt ''WispDisk.sys''; inf_path = package_file repo opt ''WispDisk.inf'';
          catalog = package_file repo opt ''WispDisk.cat'' in
      try_io (confirm_pe_architecture os driver (op_platform opt)) (\<lambda>_.
      bind_io (log_step (lit ''Test-signing the driver binary'')) (\<lambda>_.
      try_io (sign_file os (to_sign_tool t) certificate driver (lit ''WispDisk virtual storage driver'')) (\<lambda>_.
      try_io (remove_stale_catalog os catalog) (\<lambda>_.
      try_io (run os (catalog_command t repo opt) (lit ''driver catalog generation'')) (\<lambda>_.
      try_io (require_file os catalog (lit ''regenerated driver catalog'')) (\<lambda>_.
      bind_io (log_step (lit ''Signing the regenerated driver catalog'')) (\<lambda>_.
      try_io (sign_file os (to_sign_tool t) certificate catalog (lit ''WispDisk driver package'')) (\<lambda>_.
      try_io (verify_signature os (to_sign_tool t) driver (lit ''driver signature'')) (\<lambda>_.
      try_io (verify_signature os (to_sign_tool t) catalog (lit ''catalog signature'')) (\<lambda>_.
      try_io (verify_catalog_member os (to_sign_tool t) catalog driver) (\<lambda>_.
      verify_catalog_member os (to_sign_tool t) catalog inf_path))))))))))))"

definition cargo_command :: "path \<Rightarrow> options \<Rightarrow> command_line" where
  "cargo_command repo opt = \<lparr>cl_program = lit ''cargo'',
     cl_args = map lit [''build'', ''--locked'', ''--package'', ''wispdisk-cli'', ''--target'',
         rust_target (op_platform opt)]
       @ (if op_configuration opt = Release then [lit ''--release''] else []),
     cl_directory = Some repo,
     cl_env = [(''WISPDISK_DRIVER_PACKAGE_DIR'', Some (package_dir repo opt)), (''CARGO_TARGET_DIR'', None)]\<rparr>"

definition build_cli :: "'w host \<Rightarrow> path \<Rightarrow> options \<Rightarrow> ('w, unit build_result) host_io" where
  "build_cli os repo opt =
     (let cli = cargo_output repo opt ''wispdisk.exe''; pdb = cargo_output repo opt ''wispdisk.pdb'' in
      bind_io (log_step (lit ''Embedding the signed driver package into the Rust CLI'')) (\<lambda>_.
      try_io (run os (cargo_command repo opt) (lit ''Rust CLI build'')) (\<lambda>_.
      try_io (confirm_pe_architecture os cli (op_platform opt)) (\<lambda>_.
      try_io (require_file os pdb (lit ''Rust CLI symbols'')) (\<lambda>_.
      try_io (make_directories os (lit ''create final artifact directory'') (in_output repo ''artifacts/bin'' opt)) (\<lambda>_.
      try_io (copy_required_file os cli (final_file repo opt ''wispdisk.exe'') (lit ''Rust CLI'')) (\<lambda>_.
      copy_required_file os pdb (final_file repo opt ''wispdisk.pdb'') (lit ''Rust CLI symbols''))))))))"

definition executable_certificate :: "'w host \<Rightarrow> ustring \<Rightarrow> ('w, ustring build_result) host_io" where
  "executable_certificate os certificate =
     map_io (\<lambda>v. case v of Some value \<Rightarrow> normalize_thumbprint value | None \<Rightarrow> Ok certificate)
       (env_var os ''WISPDISK_EXE_CERT_THUMBPRINT'')"

definition sign_cli ::
  "'w host \<Rightarrow> tools \<Rightarrow> path \<Rightarrow> options \<Rightarrow> ustring \<Rightarrow> ('w, unit build_result) host_io" where
  "sign_cli os t repo opt certificate =
     (let final_cli = final_file repo opt ''wispdisk.exe'' in
      bind_io (log_step (lit ''Signing the final executable'')) (\<lambda>_.
      try_io (sign_file os (to_sign_tool t) certificate final_cli (lit ''WispDisk command-line utility'')) (\<lambda>_.
      try_io (verify_signature os (to_sign_tool t) final_cli (lit ''executable signature'')) (\<lambda>_.
      try_io (confirm_pe_architecture os final_cli (op_platform opt)) (\<lambda>_.
      confirm_package_embedded os final_cli (package_dir repo opt))))))"

definition finish_build ::
  "'w host \<Rightarrow> tools \<Rightarrow> path \<Rightarrow> options \<Rightarrow> ustring \<Rightarrow> ustring \<Rightarrow> ('w, unit build_result) host_io" where
  "finish_build os t repo opt driver_thumbprint exe_thumbprint =
     (let pdb = join (driver_output repo opt) (lit ''WispDisk.pdb'');
          manifest = join (signing_dir repo) (lit (configuration_msbuild (op_configuration opt)) @ lit ''-''
            @ lit (platform_msbuild (op_platform opt)) @ lit ''-manifest.json'') in
      try_io (require_file os pdb (lit ''driver symbols'')) (\<lambda>_.
      try_io (write_manifest os (to_certutil t) manifest opt (to_sdk_version t) driver_thumbprint exe_thumbprint
        [(''Driver'', package_file repo opt ''WispDisk.sys''), (''DriverInf'', package_file repo opt ''WispDisk.inf''),
         (''DriverCatalog'', package_file repo opt ''WispDisk.cat''), (''DriverSymbols'', pdb),
         (''SignedCli'', final_file repo opt ''wispdisk.exe''), (''CliSymbols'', final_file repo opt ''wispdisk.pdb''),
         (''PublicTestCertificate'', certificate_path repo)]) (\<lambda>_.
      bind_io (log_step (lit ''Build completed successfully'')) (\<lambda>_.
      bind_io (say (lit ''Signed executable: '' @ final_file repo opt ''wispdisk.exe'')) (\<lambda>_.
      bind_io (say (lit ''Embedded package:  '' @ package_dir repo opt)) (\<lambda>_.
      bind_io (say (lit ''Build manifest:    '' @ manifest)) (\<lambda>_. ok_io ())))))))"

definition build :: "'w host \<Rightarrow> options \<Rightarrow> ('w, unit build_result) host_io" where
  "build os opt =
     try_io (find_repo_root os) (\<lambda>repo.
     try_io (discover_tools os repo opt) (\<lambda>t.
     try_io (compile_driver os t repo opt) (\<lambda>_.
     try_io (assemble_package os repo opt) (\<lambda>_.
     try_io (driver_certificate os t repo) (\<lambda>certificate.
     try_io (sign_package os t repo opt certificate) (\<lambda>_.
     try_io (build_cli os repo opt) (\<lambda>_.
     try_io (executable_certificate os certificate) (\<lambda>exe_certificate.
     try_io (sign_cli os t repo opt exe_certificate) (\<lambda>_.
     finish_build os t repo opt certificate exe_certificate)))))))))"

text \<open>\<open>run_main\<close>, and \<open>main\<close>: its exit code and what it writes to stderr.\<close>

definition run_main :: "'w host \<Rightarrow> ustring list \<Rightarrow> ('w, unit build_result) host_io" where
  "run_main os args = try_io (return_io (parse_options args)) (build os)"

definition build_main :: "'w host \<Rightarrow> ustring list \<Rightarrow> ('w, nat \<times> ustring) host_io" where
  "build_main os args = map_io
     (\<lambda>r. case r of Err e \<Rightarrow> (1, lit ''error: '' @ e @ [10]) | Ok _ \<Rightarrow> (0, []))
     (run_main os args)"

end
