(* ===== verification/Build_Order.thy ===== *)
theory Build_Order
  imports Build
begin

text \<open>
  What a run of the build tool guarantees: the order of the commands it issues, that it stops at the
  first one that fails, that the final executable carries the signed package, and which directory
  it may clear. Commands are those started by \<open>run\<close>; discovery and hashing use \<open>capture\<close>, whose
  processes only report.
\<close>

section \<open>The commands of a trace\<close>

fun command_of :: "host_event \<Rightarrow> (command_line \<times> (ustring + int option)) list" where
  "command_of (Run_Status c r) = [(c, r)]"
| "command_of _ = []"

definition commands :: "host_event list \<Rightarrow> command_line list" where
  "commands t = map fst (concat (map command_of t))"

definition exit_codes :: "host_event list \<Rightarrow> (ustring + int option) list" where
  "exit_codes t = map snd (concat (map command_of t))"

definition silent :: "host_event \<Rightarrow> bool" where
  "silent e \<longleftrightarrow> command_of e = []"

lemma commands_simps [simp]: "commands [] = []" "commands (t @ u) = commands t @ commands u"
  by (simp_all add: commands_def)

lemma exit_codes_simps [simp]: "exit_codes [] = []" "exit_codes (t @ u) = exit_codes t @ exit_codes u"
  by (simp_all add: exit_codes_def)

lemma silent_trace:
  assumes "list_all silent t"
  shows "commands t = []" and "exit_codes t = []"
proof -
  from assms have "concat (map command_of t) = []" by (induction t) (simp_all add: silent_def)
  then show "commands t = []" and "exit_codes t = []" by (simp_all add: commands_def exit_codes_def)
qed

text \<open>Actions that run no command.\<close>

abbreviation commandless :: "('w, 'a) host_io \<Rightarrow> bool" where
  "commandless \<equiv> all_events silent"

lemma all_events_find [all_events_intros]:
  "(\<And>x. all_events P (test x)) \<Longrightarrow> all_events P (find_io test xs)"
  by (induction xs) (auto intro!: all_events_intros)

lemma commandless_call: "(\<And>a. command_of (ev a) = []) \<Longrightarrow> commandless (host_call f ev)"
  by (auto simp: all_events_def wlp_def host_call_def silent_def split: prod.splits)

lemma commandless_say [all_events_intros]: "commandless (log_step m)" "commandless (say m)"
  by (simp_all add: all_events_def wlp_def log_step_def say_def silent_def)

lemma commandless_calls [all_events_intros]:
  "commandless (host_call f (Env_Var n))" "commandless (host_call g Current_Dir)"
  "commandless (host_call h (Is_File p))" "commandless (host_call h (Is_Dir p))" "commandless (host_call h (Exists p))"
  "commandless (host_call k (Metadata p))" "commandless (host_call l (Read_File p))" "commandless (host_call m (Read_Text p))"
  "commandless (host_call n' (Read_Dir p))" "commandless (host_call q (Write_Text p x))"
  "commandless (host_call q (Copy_File p p'))" "commandless (host_call q (Make_Directories p))"
  "commandless (host_call q (Remove_Directory p))" "commandless (host_call q (Remove_File p))"
  "commandless (host_call u (Run_Output c))" "commandless (host_call v Unix_Time)"
  by (rule commandless_call, simp)+

lemma commandless_files [all_events_intros]:
  "commandless (env_var os n)" "commandless (is_file os p)" "commandless (is_dir os p)" "commandless (require_file os p d)"
  "commandless (copy_required_file os p p' d)" "commandless (make_directories os a p)" "commandless (capture os c d)"
  "commandless (find_on_path os n)"
  unfolding env_var_def is_file_def is_dir_def require_file_def copy_required_file_def
    make_directories_def capture_def find_on_path_def
  by (intro all_events_intros)+

lemma commandless_dir_of_lines [all_events_intros]: "commandless (dir_of_lines os ls)"
  by (induction ls) (auto intro!: all_events_intros split: option.split)

lemma commandless_discovery [all_events_intros]:
  "commandless (find_repo_root os)" "commandless (discover_visual_studio os)"
  "commandless (confirm_spectre_libraries os p pf)" "commandless (confirm_rust_target os pf)"
  "commandless (windows_sdk_version os p)" "commandless (find_windows_kit_tool os x n)"
  unfolding find_repo_root_def discover_visual_studio_def find_vswhere_def
    confirm_spectre_libraries_def is_library_def confirm_rust_target_def windows_sdk_version_def
    find_windows_kit_tool_def windows_kits_root_def registry_kits_root_def Let_def
  by (intro all_events_intros)+

lemma commandless_checks [all_events_intros]:
  "commandless (hash_file os c p a n)" "commandless (env_flag os f)" "commandless (confirm_embedded_file os b p)"
  "commandless (confirm_package_embedded os p p')" "commandless (pe_machine_type os p)"
  "commandless (confirm_pe_architecture os p pf)" "commandless (reset_directory os p p')"
  "commandless (write_build_manifest os m p)" "commandless (manifest_entry os c rp)"
  "commandless (write_manifest os c p opt v t1 t2 fs)" "commandless (remove_stale_catalog os p)"
  "commandless (discover_tools os repo opt)" "commandless (assemble_package os repo opt)"
  "commandless (executable_certificate os certificate)" "commandless (finish_build os t repo opt t1 t2)"
  unfolding hash_file_def env_flag_def confirm_embedded_file_def confirm_package_embedded_def
    pe_machine_type_def confirm_pe_architecture_def reset_directory_def write_build_manifest_def
    manifest_entry_def write_manifest_def remove_stale_catalog_def discover_tools_def
    assemble_package_def executable_certificate_def finish_build_def Let_def case_prod_unfold
  by (intro all_events_intros)+

section \<open>A build stops at the first command that fails\<close>

text \<open>
  All commands of a run exited_zero, except that the last may be the one a failing run reports.
\<close>

definition exited_zero :: "ustring + int option \<Rightarrow> bool" where
  "exited_zero r \<longleftrightarrow> r = Ok (Some 0)"

definition stopped :: "'a build_result \<Rightarrow> (ustring + int option) list \<Rightarrow> bool" where
  "stopped r codes = (case r of Ok _ \<Rightarrow> list_all exited_zero codes
     | Err _ \<Rightarrow> list_all exited_zero (butlast codes))"

definition stops :: "('w, 'a build_result) host_io \<Rightarrow> bool" where
  "stops m \<longleftrightarrow> (\<forall>s. wlp m (\<lambda>r t _. stopped r (exit_codes t)) s)"

named_theorems stops_intros \<open>actions that stop at the first command that fails\<close>

lemma stops_commandless: "commandless m \<Longrightarrow> stops m"
  unfolding all_events_def stops_def
  by (fastforce simp: silent_trace stopped_def split: sum.splits elim: wlp_mono)

lemma stops_run [stops_intros]: "stops (run os c d)"
  by (auto simp: stops_def run_def wlp_def map_io_def bind_io_def return_io_def host_call_def stopped_def
      exit_codes_def exited_zero_def split: prod.splits sum.splits if_splits)

lemma stopped_append:
  "stopped (Ok a) xs \<Longrightarrow> stopped r ys \<Longrightarrow> stopped r (xs @ ys)"
  by (auto simp: stopped_def butlast_append split: sum.splits dest: in_set_butlastD)
    (auto simp: list_all_iff dest: in_set_butlastD)

lemma stops_try [stops_intros]: "stops m \<Longrightarrow> (\<And>a. stops (f a)) \<Longrightarrow> stops (try_io m f)"
  unfolding stops_def
  by (rule allI, rule wlp_tryI, blast)
    (auto simp: stopped_def [of "Err _"] intro: wlp_mono stopped_append)

lemma stops_bind [stops_intros]:
  assumes "commandless m" and "\<And>a. stops (f a)"
  shows "stops (bind_io m f)"
  unfolding stops_def
proof (rule allI, rule wlp_bindI)
  fix s show "wlp m (\<lambda>_ t _. list_all silent t) s" using assms(1) by (rule all_events_wlp)
next
  fix a t s' assume "list_all silent t"
  then show "wlp (f a) (\<lambda>b t' s''. stopped b (exit_codes (t @ t'))) s'"
    using assms(2) [of a] by (simp add: silent_trace stops_def)
qed

lemma stops_for [stops_intros]: "(\<And>x. stops (f x)) \<Longrightarrow> stops (for_io f xs)"
  by (induction xs) (simp_all add: stops_try stops_commandless all_events_ok_fail)

lemma stops_if [stops_intros]: "stops m \<Longrightarrow> stops n \<Longrightarrow> stops (if b then m else n)"
  by simp

lemma stops_case_option [stops_intros]:
  "stops m \<Longrightarrow> (\<And>y. stops (f y)) \<Longrightarrow> stops (case x of None \<Rightarrow> m | Some y \<Rightarrow> f y)"
  by (cases x) auto

lemma stops_stages [stops_intros]:
  "stops (prepare_driver_certificate os repo c p q)" "stops (sign_file os t th p d)"
  "stops (verify_signature os t p d)" "stops (verify_catalog_member os t p p')"
  unfolding prepare_driver_certificate_def obtain_certificate_def trust_certificate_def sign_file_def
    verify_signature_def verify_catalog_member_def Let_def
  by (intro stops_intros all_events_intros | rule stops_commandless)+

lemma stops_build: "stops (build os opt)"
  unfolding build_def compile_driver_def driver_certificate_def sign_package_def build_cli_def sign_cli_def
    Let_def
  by (intro stops_intros all_events_intros | rule stops_commandless)+

section \<open>The order of the commands\<close>

definition issues :: "('w, 'a build_result) host_io \<Rightarrow> ('a \<Rightarrow> command_line list \<Rightarrow> bool) \<Rightarrow> bool" where
  "issues m P \<longleftrightarrow> (\<forall>s. wlp m (\<lambda>r t _. case r of Ok a \<Rightarrow> P a (commands t) | Err _ \<Rightarrow> True) s)"

lemma issues_commandless: "commandless m \<Longrightarrow> (\<And>a. P a []) \<Longrightarrow> issues m P"
  unfolding issues_def
  by (auto simp: silent_trace split: sum.splits intro!: wlp_mono [OF all_events_wlp])

lemma issues_mono: "issues m P \<Longrightarrow> (\<And>a cs. P a cs \<Longrightarrow> Q a cs) \<Longrightarrow> issues m Q"
  by (fastforce simp: issues_def wlp_def split: sum.splits)

lemma issues_try:
  assumes "issues m P" and "\<And>a cs. P a cs \<Longrightarrow> issues (f a) (\<lambda>b ds. Q b (cs @ ds))"
  shows "issues (try_io m f) Q"
  unfolding issues_def
  by (rule allI, rule wlp_tryI
      [where P = "\<lambda>r t _. case r of Ok a \<Rightarrow> P a (commands t) | Err _ \<Rightarrow> True"])
    (use assms in \<open>auto simp: issues_def cong: sum.case_cong\<close>)

lemma issues_try_commandless: "commandless m \<Longrightarrow> (\<And>a. issues (f a) Q) \<Longrightarrow> issues (try_io m f) Q"
  by (rule issues_try [where P = "\<lambda>_ cs. cs = []"]) (auto intro: issues_commandless)

lemma issues_bind_commandless:
  assumes "commandless m" and "\<And>a. issues (f a) Q"
  shows "issues (bind_io m f) Q"
  unfolding issues_def
proof (rule allI, rule wlp_bindI)
  fix s show "wlp m (\<lambda>_ t _. list_all silent t) s" using assms(1) by (rule all_events_wlp)
next
  fix a t s' assume "list_all silent t"
  then show "wlp (f a) (\<lambda>r t' _. case r of Ok b \<Rightarrow> Q b (commands (t @ t')) | Err _ \<Rightarrow> True) s'"
    using assms(2) [of a] by (simp add: silent_trace issues_def cong: sum.case_cong)
qed

lemmas issues_commandless_steps = issues_bind_commandless issues_try_commandless

lemma issues_run: "issues (run os c d) (\<lambda>_ cs. cs = [c])"
  by (auto simp: issues_def run_def wlp_def map_io_def bind_io_def return_io_def host_call_def commands_def
      split: prod.splits sum.splits if_splits)

lemma issues_sign: "issues (sign_file os t th p d) (\<lambda>_ cs. \<exists>url. cs = [sign_command t th d url p])"
  unfolding sign_file_def
  by (rule issues_try_commandless, intro all_events_intros, rule issues_bind_commandless, intro all_events_intros,
      rule issues_mono [OF issues_run]) blast

lemma issues_verify:
  "issues (verify_signature os t p d) (\<lambda>_ cs. cs = [verify_command t p])"
  "issues (verify_catalog_member os t p p') (\<lambda>_ cs. cs = [member_command t p p'])"
  by (simp_all add: verify_signature_def verify_catalog_member_def issues_run)

text \<open>Certificate commands end in the path of the public certificate.\<close>

definition acts_on :: "path \<Rightarrow> command_line \<Rightarrow> bool" where
  "acts_on path c \<longleftrightarrow> cl_args c \<noteq> [] \<and> last (cl_args c) = path"

abbreviation only_acts_on :: "('w, 'a build_result) host_io \<Rightarrow> path \<Rightarrow> bool" where
  "only_acts_on m path \<equiv> issues m (\<lambda>_. list_all (acts_on path))"

lemma only_acts_on_try:
  "only_acts_on m p \<Longrightarrow> (\<And>a. only_acts_on (f a) p) \<Longrightarrow> only_acts_on (try_io m f) p"
  by (rule issues_try, assumption) (auto elim: issues_mono)

lemma only_acts_on_for: "(\<And>x. only_acts_on (f x) p) \<Longrightarrow> only_acts_on (for_io f xs) p"
  by (induction xs) (simp_all add: only_acts_on_try issues_commandless all_events_ok_fail)

lemma only_acts_on_run: "acts_on p c \<Longrightarrow> only_acts_on (run os c d) p"
  by (rule issues_mono [OF issues_run]) simp

lemma only_acts_on_certificate:
  "only_acts_on (prepare_driver_certificate os repo certutil p requested) p"
proof -
  have commandless_runs: "commandless m \<Longrightarrow> only_acts_on m p" for m :: "('a, 'b build_result) host_io"
    by (rule issues_commandless) auto
  have plain: "acts_on p (plain_command x (as @ [p]))" for x as
    by (simp add: acts_on_def plain_command_def)
  note plain1 = plain [of _ "[a, b]" for a b, simplified] plain [of _ "[a]" for a, simplified]
    plain [of _ "[a, b, c, d]" for a b c d, simplified] plain [of _ "[a, b, c, d, e]" for a b c d e, simplified]
  have obtained: "only_acts_on (obtain_certificate os repo certutil p th) p" for th
    unfolding obtain_certificate_def Let_def
    by (cases th) (auto intro!: issues_bind_commandless issues_try_commandless only_acts_on_run all_events_intros plain1
        intro: commandless_runs)
  have trusted: "only_acts_on (trust_certificate os certutil p) p"
    unfolding trust_certificate_def
    by (intro issues_bind_commandless only_acts_on_for only_acts_on_run all_events_intros plain1)
  show ?thesis
    unfolding prepare_driver_certificate_def
    by (rule issues_try_commandless, intro all_events_intros, rule only_acts_on_try, rule obtained,
        (rule issues_try_commandless, (intro all_events_intros; fail))+)
      (auto intro!: only_acts_on_try commandless_runs [OF all_events_ok_fail(1)] trusted)
qed

text \<open>The commands of a build that succeeds, in their order.\<close>

definition package_commands ::
  "tools \<Rightarrow> path \<Rightarrow> options \<Rightarrow> ustring \<Rightarrow> ustring option \<times> ustring option \<Rightarrow> command_line list" where
  "package_commands t repo opt certificate urls =
     (let driver = package_file repo opt ''WispDisk.sys''; catalog = package_file repo opt ''WispDisk.cat'';
          signer = to_sign_tool t in
      [sign_command signer certificate (lit ''WispDisk virtual storage driver'') (fst urls) driver,
       catalog_command t repo opt,
       sign_command signer certificate (lit ''WispDisk driver package'') (snd urls) catalog,
       verify_command signer driver,
       verify_command signer catalog,
       member_command signer catalog driver,
       member_command signer catalog (package_file repo opt ''WispDisk.inf'')])"

definition cli_commands ::
  "tools \<Rightarrow> path \<Rightarrow> options \<Rightarrow> ustring \<Rightarrow> ustring option \<Rightarrow> command_line list" where
  "cli_commands t repo opt certificate url =
     (let cli = final_file repo opt ''wispdisk.exe'' in
      [cargo_command repo opt,
       sign_command (to_sign_tool t) certificate (lit ''WispDisk command-line utility'') url cli,
       verify_command (to_sign_tool t) cli])"

lemma issues_compile: "issues (compile_driver os t repo opt) (\<lambda>_ cs. cs = [msbuild_command t repo opt])"
  unfolding compile_driver_def
  by (rule issues_bind_commandless, intro all_events_intros, rule issues_try [OF issues_run], rule issues_commandless)
    (auto intro: all_events_intros)

lemma issues_driver_certificate:
  "issues (driver_certificate os t repo) (\<lambda>_. list_all (acts_on (certificate_path repo)))"
  unfolding driver_certificate_def
  by (rule issues_try_commandless, intro all_events_intros, rule issues_bind_commandless, intro all_events_intros)
    (rule only_acts_on_certificate)

lemma issues_sign_package:
  "issues (sign_package os t repo opt certificate)
     (\<lambda>_ cs. \<exists>urls. cs = package_commands t repo opt certificate urls)"
proof -
  have "\<exists>urls. [sign_command signer certificate d u driver] @ [catalog_command t repo opt]
      @ [sign_command signer certificate d' u' catalog] @ vs
    = (sign_command signer certificate d (fst urls) driver # catalog_command t repo opt
      # sign_command signer certificate d' (snd urls) catalog # vs)" for signer d u driver d' u' catalog vs
    by (rule exI [of _ "(u, u')"]) simp
  then show ?thesis
    unfolding sign_package_def Let_def package_commands_def
    by (intro issues_commandless_steps all_events_intros issues_try [OF issues_sign] issues_try [OF issues_run]
        issues_try [OF issues_verify(1)] issues_try [OF issues_verify(2)] issues_mono [OF issues_verify(2)])
      (elim exE, simp)
qed

lemma issues_build_cli: "issues (build_cli os repo opt) (\<lambda>_ cs. cs = [cargo_command repo opt])"
  unfolding build_cli_def Let_def
  by (rule issues_bind_commandless, intro all_events_intros, rule issues_try [OF issues_run], rule issues_commandless)
    (auto intro!: all_events_intros)

lemma issues_sign_cli:
  "issues (sign_cli os t repo opt certificate) (\<lambda>_ cs. \<exists>url. cs =
     [sign_command (to_sign_tool t) certificate (lit ''WispDisk command-line utility'') url
        (final_file repo opt ''wispdisk.exe''),
      verify_command (to_sign_tool t) (final_file repo opt ''wispdisk.exe'')])"
  unfolding sign_cli_def Let_def
  by (rule issues_bind_commandless, intro all_events_intros, rule issues_try [OF issues_sign],
      rule issues_try [OF issues_verify(1)], rule issues_commandless)
    (auto intro!: all_events_intros)

definition in_order :: "options \<Rightarrow> command_line list \<Rightarrow> bool" where
  "in_order opt cs \<longleftrightarrow> (\<exists>repo tools ds certificate urls exe_certificate url.
     list_all (acts_on (certificate_path repo)) ds
     \<and> cs = [msbuild_command tools repo opt] @ ds
         @ package_commands tools repo opt certificate urls
         @ cli_commands tools repo opt exe_certificate url)"

lemma in_orderI:
  assumes "list_all (acts_on (certificate_path repo)) ds"
  shows "in_order opt ([msbuild_command t repo opt] @ ds @ package_commands t repo opt certificate urls
    @ [cargo_command repo opt] @ [sign_command (to_sign_tool t) exe_certificate
         (lit ''WispDisk command-line utility'') url (final_file repo opt ''wispdisk.exe''),
       verify_command (to_sign_tool t) (final_file repo opt ''wispdisk.exe'')] @ [])"
  unfolding in_order_def cli_commands_def Let_def
  by (intro exI conjI, rule assms) simp

lemma issues_build: "issues (build os opt) (\<lambda>_. in_order opt)"
  unfolding build_def
  apply (rule issues_try_commandless, rule all_events_intros, rule issues_try_commandless, rule all_events_intros)
  apply (rule issues_try [OF issues_compile], hypsubst, rule issues_try_commandless, rule all_events_intros)
  apply (rule issues_try [OF issues_driver_certificate], rule issues_try [OF issues_sign_package], elim exE, hypsubst)
  apply (rule issues_try [OF issues_build_cli], hypsubst, rule issues_try_commandless, rule all_events_intros)
  apply (rule issues_try [OF issues_sign_cli], elim exE, hypsubst, rule issues_commandless, rule all_events_intros)
  apply (erule in_orderI)
  done

text \<open>
  C33. A build issues its commands in a fixed order, and stops at the first that fails. All commands
  it started exited_zero, except that the last one may have failed when the build fails. A build that
  succeeds ran exactly: MSBuild; commands on the public certificate; the driver signature, then the
  catalog made from the signed driver, then the catalog signature, then the verification of both and
  of the driver and the INF as members of the catalog; only then cargo, which embeds that package;
  and last the signature of the copied executable and its verification.
\<close>

theorem build_commands_in_order:
  "wlp (build os opt) (\<lambda>r t _. case r of
       Err _ \<Rightarrow> list_all exited_zero (butlast (exit_codes t))
     | Ok _ \<Rightarrow> list_all exited_zero (exit_codes t)
         \<and> in_order opt (commands t)) w"
proof (rule wlpI)
  fix r t w' assume run: "build os opt w = Some (r, t, w')"
  have "stopped r (exit_codes t)"
    using stops_build [of os opt] run by (auto simp: stops_def wlp_def)
  moreover have "case r of Ok a \<Rightarrow> in_order opt (commands t) | Err _ \<Rightarrow> True"
    using wlpD [OF issues_build [of os opt, unfolded issues_def, rule_format] run] .
  ultimately show "case r of Err _ \<Rightarrow> list_all exited_zero (butlast (exit_codes t))
      | Ok _ \<Rightarrow> list_all exited_zero (exit_codes t) \<and> in_order opt (commands t)"
    by (cases r) (simp_all add: stopped_def)
qed

section \<open>The embedded package\<close>

text \<open>
  The reads of a trace show that the executable holds each package file: one read of the executable
  and one of each file, where the bytes of the file are not empty and occur in those of the executable.
\<close>

definition held :: "u8 list \<Rightarrow> path \<Rightarrow> host_event set \<Rightarrow> bool" where
  "held bytes path A \<longleftrightarrow> (\<exists>file prefix suffix. Read_File path (Ok file) \<in> A
     \<and> file \<noteq> [] \<and> bytes = prefix @ file @ suffix)"

definition embeds :: "path \<Rightarrow> path \<Rightarrow> host_event list \<Rightarrow> bool" where
  "embeds executable package t \<longleftrightarrow> (\<exists>bytes. Read_File executable (Ok bytes) \<in> set t
     \<and> list_all (\<lambda>name. held bytes (join package (lit name)) (set t)) PACKAGE_FILES)"

lemma held_mono: "held bytes path A \<Longrightarrow> A \<subseteq> B \<Longrightarrow> held bytes path B"
  by (auto simp: held_def)

lemma embeds_append: "embeds exe pkg t \<Longrightarrow> embeds exe pkg (t @ u)"
  unfolding embeds_def by (fastforce simp: list_all_iff elim: held_mono)

lemma wlp_confirm_file:
  "wlp (confirm_embedded_file os bytes path)
     (\<lambda>r t _. case r of Err _ \<Rightarrow> True | Ok _ \<Rightarrow> held bytes path (set t)) w"
  unfolding confirm_embedded_file_def
  by (auto simp: held_def wlp_def map_io_def try_io_def bind_io_def return_io_def host_call_def ok_io_def
      fail_io_def containment split: prod.splits sum.splits if_splits)

lemma wlp_read_file:
  "wlp (map_io (map_err f) (host_call (ho_read_file os p) (Read_File p)))
     (\<lambda>r t _. case r of Err _ \<Rightarrow> True | Ok b \<Rightarrow> Read_File p (Ok b) \<in> set t) w"
  by (auto simp: wlp_def map_io_def bind_io_def return_io_def host_call_def split: prod.splits sum.splits)

lemma wlp_for_each:
  assumes "\<And>x w. wlp (f x) (\<lambda>r t _. case r of Err _ \<Rightarrow> True | Ok _ \<Rightarrow> P x (set t)) w"
    and "\<And>x A B. P x A \<Longrightarrow> A \<subseteq> B \<Longrightarrow> P x B"
  shows "wlp (for_io f xs) (\<lambda>r t _. case r of Err _ \<Rightarrow> True | Ok _ \<Rightarrow> list_all (\<lambda>x. P x (set t)) xs) w"
proof (induction xs arbitrary: w)
  case (Cons x xs)
  have "wlp (for_io f xs) (\<lambda>r t' _. case r of Err _ \<Rightarrow> True
      | Ok _ \<Rightarrow> P x (set (t @ t')) \<and> list_all (\<lambda>x. P x (set (t @ t'))) xs) w'"
    if "P x (set t)" for t w'
    using that
    by (intro wlp_mono [OF Cons.IH])
      (auto split: sum.splits intro: assms(2) elim!: list.pred_mono_strong)
  then show ?case
    by (auto intro!: wlp_tryI [OF assms(1)] simp: list.pred_inject cong: sum.case_cong)
qed (simp add: wlp_rules)

lemma wlp_embedded:
  "wlp (confirm_package_embedded os exe pkg) (\<lambda>r t _. case r of Err _ \<Rightarrow> True | Ok _ \<Rightarrow> embeds exe pkg t) w"
  unfolding confirm_package_embedded_def
proof (rule wlp_tryI [OF wlp_read_file])
  fix bytes t w'
  assume "case Ok bytes of Err _ \<Rightarrow> True | Ok b \<Rightarrow> Read_File exe (Ok b) \<in> set t"
  then show "wlp (for_io (\<lambda>name. confirm_embedded_file os bytes (join pkg (lit name))) PACKAGE_FILES)
      (\<lambda>r t' _. case r of Err _ \<Rightarrow> True | Ok _ \<Rightarrow> embeds exe pkg (t @ t')) w'"
    by (intro wlp_mono [OF wlp_for_each [OF wlp_confirm_file held_mono]])
      (auto simp: embeds_def list_all_iff split: sum.splits intro!: exI [of _ bytes] elim: held_mono)
qed simp

text \<open>The last stage of a build reads what the commands left behind.\<close>

lemma wlp_ends_try:
  assumes "\<And>a w. wlp (f a) (\<lambda>r t _. case r of Err _ \<Rightarrow> True | Ok _ \<Rightarrow> \<exists>t1 t2. t = t1 @ t2 \<and> P t2) w"
  shows "wlp (try_io m f) (\<lambda>r t _. case r of Err _ \<Rightarrow> True | Ok _ \<Rightarrow> \<exists>t1 t2. t = t1 @ t2 \<and> P t2) w"
proof (rule wlp_tryI [where P = "\<lambda>_ _ _. True"])
  fix a t s'
  show "wlp (f a) (\<lambda>r t' _. case r of Err _ \<Rightarrow> True | Ok _ \<Rightarrow> \<exists>t1 t2. t @ t' = t1 @ t2 \<and> P t2) s'"
    by (rule wlp_mono [OF assms]) (auto split: sum.splits intro: append_assoc [symmetric])
qed (simp_all add: wlp_def)

lemma wlp_ends_bind:
  assumes "\<And>a w. wlp (f a) (\<lambda>r t _. case r of Err _ \<Rightarrow> True | Ok _ \<Rightarrow> \<exists>t1 t2. t = t1 @ t2 \<and> P t2) w"
  shows "wlp (bind_io m f) (\<lambda>r t _. case r of Err _ \<Rightarrow> True | Ok _ \<Rightarrow> \<exists>t1 t2. t = t1 @ t2 \<and> P t2) w"
proof (rule wlp_bindI [where P = "\<lambda>_ _ _. True"])
  fix a t s'
  show "wlp (f a) (\<lambda>r t' _. case r of Err _ \<Rightarrow> True | Ok _ \<Rightarrow> \<exists>t1 t2. t @ t' = t1 @ t2 \<and> P t2) s'"
    by (rule wlp_mono [OF assms]) (auto split: sum.splits intro: append_assoc [symmetric])
qed (simp add: wlp_def)

lemma wlp_commandless_confirm:
  "wlp (confirm_package_embedded os exe pkg) (\<lambda>r t _. case r of Err _ \<Rightarrow> True
     | Ok _ \<Rightarrow> \<exists>t1 t2. t = t1 @ t2 \<and> embeds exe pkg t2 \<and> list_all silent t2) w"
  by (rule wlp_mono [OF wlp_conj [OF wlp_embedded all_events_wlp]], rule all_events_intros)
    (auto split: sum.splits)

text \<open>
  C34. The executable that a successful build leaves carries the signed package. After its last
  command, so after every signature, the build read the final executable and the three files of the
  package directory; each of the files is not empty and its bytes occur in the executable.
\<close>

theorem builds_embed_the_signed_package:
  "wlp (build os opt) (\<lambda>r t _. case r of
       Err _ \<Rightarrow> True
     | Ok _ \<Rightarrow> \<exists>repo t1 t2. t = t1 @ t2 \<and> commands t2 = []
         \<and> embeds (final_file repo opt ''wispdisk.exe'') (package_dir repo opt) t2) w"
proof -
  define P where "P = (\<lambda>t. list_all silent t
    \<and> (\<exists>repo. embeds (final_file repo opt ''wispdisk.exe'') (package_dir repo opt) t))"
  have fin: "wlp (finish_build os t repo opt c d) (\<lambda>_ v _. list_all silent v) w" for t repo c d w
    by (rule all_events_wlp) (rule all_events_intros)
  have sign: "wlp (sign_cli os t repo opt c) (\<lambda>r t _. case r of Err _ \<Rightarrow> True
      | Ok _ \<Rightarrow> \<exists>t1 t2. t = t1 @ t2 \<and> embeds (final_file repo opt ''wispdisk.exe'') (package_dir repo opt) t2
          \<and> list_all silent t2) w" for t repo c w
    unfolding sign_cli_def Let_def
    by (intro wlp_ends_bind wlp_ends_try wlp_commandless_confirm)
  have last: "wlp (try_io (sign_cli os tl repo opt d) (\<lambda>_. finish_build os tl repo opt c d))
      (\<lambda>r t _. case r of Err _ \<Rightarrow> True | Ok _ \<Rightarrow> \<exists>t1 t2. t = t1 @ t2 \<and> P t2) w" for tl repo c d w
  proof (rule wlp_tryI [OF sign])
    fix u :: unit and t :: "host_event list" and s'
    assume "case Ok u of Err _ \<Rightarrow> True
      | Ok _ \<Rightarrow> \<exists>t1 t2. t = t1 @ t2
          \<and> embeds (final_file repo opt ''wispdisk.exe'') (package_dir repo opt) t2 \<and> list_all silent t2"
    then obtain t1 t2 where t: "t = t1 @ t2" "list_all silent t2"
      "embeds (final_file repo opt ''wispdisk.exe'') (package_dir repo opt) t2" by auto
    have "\<exists>t1 t2. t @ v = t1 @ t2 \<and> P t2" if "list_all silent v" for v
      by (rule exI [of _ t1], rule exI [of _ "t2 @ v"]) (use t that in \<open>auto simp: P_def intro: embeds_append\<close>)
    then show "wlp (finish_build os tl repo opt c d) (\<lambda>r v _. case r of Err _ \<Rightarrow> True
        | Ok _ \<Rightarrow> \<exists>t1 t2. t @ v = t1 @ t2 \<and> P t2) s'"
      by (intro wlp_mono [OF fin]) (auto split: sum.splits)
  qed simp
  have "wlp (build os opt) (\<lambda>r t _. case r of Err _ \<Rightarrow> True | Ok _ \<Rightarrow> \<exists>t1 t2. t = t1 @ t2 \<and> P t2) w"
    unfolding build_def by (intro wlp_ends_try last)
  moreover have "\<exists>repo t1 t2. t = t1 @ t2 \<and> commands t2 = []
      \<and> embeds (final_file repo opt ''wispdisk.exe'') (package_dir repo opt) t2"
    if "\<exists>t1 t2. t = t1 @ t2 \<and> P t2" for t
    using that unfolding P_def by (auto dest: silent_trace)
  ultimately show ?thesis by (elim wlp_mono) (simp split: sum.splits)
qed

section \<open>The package directory\<close>

lemma all_events_call: "(\<And>a. P (ev a)) \<Longrightarrow> all_events P (host_call f ev)"
  by (auto simp: all_events_def wlp_def host_call_def split: prod.splits)

text \<open>
  Resetting the package directory removes and creates that directory only, and only when it and
  its root are absolute and the root is a prefix of it, name by name; a direct child of the root is
  never removed. Nothing else on the disk is touched.
\<close>

theorem reset_stays_below_its_root:
  "all_events (\<lambda>e. case e of
       Remove_Directory d _ \<Rightarrow> d = directory \<and> is_absolute root \<and> is_absolute directory
         \<and> has_prefix root directory \<and> \<not> is_parent root directory
     | Make_Directories d _ \<Rightarrow> d = directory \<and> is_absolute root \<and> has_prefix root directory
     | Exists d _ \<Rightarrow> d = directory
     | Say _ \<Rightarrow> True
     | _ \<Rightarrow> False) (reset_directory os root directory)"
  unfolding reset_directory_def make_directories_def log_step_def
  by (intro all_events_intros all_events_call; simp add: all_events_def wlp_def)

text \<open>The guard lets the root itself through: it is a prefix of itself and not its own parent.\<close>

lemma is_parent_self [simp]: "\<not> is_parent p p"
  by (auto simp: is_parent_def split: list.splits component.splits)

lemma reset_clears_its_own_root:
  assumes "is_absolute root" and "ho_exists os root w = (True, w')"
  shows "wlp (reset_directory os root root)
    (\<lambda>_ t _. \<exists>result. Remove_Directory root result \<in> set t) w"
  using assms
  by (auto simp: reset_directory_def has_prefix_def wlp_def try_io_def bind_io_def map_io_def host_call_def
      log_step_def return_io_def split: prod.splits option.splits sum.splits)

end
