(* ===== verification/Build_Script.thy ===== *)
theory Build_Script
  imports Build_Order
begin

text \<open>
  src/cli/build.rs, the build script of the CLI: it puts the driver package, or empty stand-ins, where
  \<open>include_bytes!\<close> finds them and tells the compiler which of the two it was. A panic is an \<open>Err\<close>
  with its message; the call into winresource is the parameter \<open>resources\<close>.
\<close>

definition EMBEDDED_FILES :: "string list" where
  "EMBEDDED_FILES = [''WispDisk.sys'', ''WispDisk.inf'', ''WispDisk.cat'']"

definition embed_windows_resources ::
  "(path \<Rightarrow> ('w, ustring option) host_fun) \<Rightarrow> 'w host \<Rightarrow> ('w, unit build_result) host_io" where
  "embed_windows_resources resources os =
     bind_io (env_var os ''CARGO_MANIFEST_DIR'') (\<lambda>v. case v of
       None \<Rightarrow> fail_io (lit ''Cargo always defines CARGO_MANIFEST_DIR'')
     | Some directory \<Rightarrow> let icon_path = join directory (lit ''../resources/logo.ico'') in
         bind_io (say (lit ''cargo:rerun-if-changed='' @ icon_path)) (\<lambda>_.
         map_io (done_or (\<lambda>e. lit ''failed to embed Windows resources: '' @ e))
           (host_call (resources icon_path) (Embed_Resources icon_path))))"

definition embed_from :: "'w host \<Rightarrow> path \<Rightarrow> path \<Rightarrow> ('w, unit build_result) host_io" where
  "embed_from os source destination =
     bind_io (is_file os source) (\<lambda>present.
     if \<not> present
     then fail_io (lit ''WISPDISK_DRIVER_PACKAGE_DIR is missing required file: '' @ source)
     else try_io (map_io (map_err (\<lambda>e. lit ''failed to inspect '' @ source @ lit '': '' @ e))
         (host_call (ho_metadata os source) (Metadata source))) (\<lambda>metadata.
       if fm_length metadata = 0 then fail_io (lit ''embedded driver-package file is empty: '' @ source)
       else try_io (map_io (done_or (\<lambda>e. lit ''failed to copy '' @ source @ lit '' to '' @ destination
           @ lit '': '' @ e))
           (host_call (ho_copy_file os source destination) (Copy_File source destination))) (\<lambda>_.
         bind_io (say (lit ''cargo:rerun-if-changed='' @ source)) (\<lambda>_. ok_io ()))))"

definition embed_file ::
  "'w host \<Rightarrow> path \<Rightarrow> path option \<Rightarrow> string \<Rightarrow> ('w, unit build_result) host_io" where
  "embed_file os out_dir pkg file_name =
     (let destination = join out_dir (lit file_name) in case pkg of
        Some directory \<Rightarrow> embed_from os (join directory (lit file_name)) destination
      | None \<Rightarrow> map_io (done_or (\<lambda>e. lit ''failed to create '' @ destination @ lit '': '' @ e))
          (host_call (ho_write_text os destination []) (Write_Text destination [])))"

definition embedded_line :: "bool \<Rightarrow> ustring" where
  "embedded_line b = lit ''cargo:rustc-env=WISPDISK_PACKAGE_EMBEDDED='' @ lit (if b then ''1'' else ''0'')"

definition build_script ::
  "(path \<Rightarrow> ('w, ustring option) host_fun) \<Rightarrow> 'w host \<Rightarrow> ('w, unit build_result) host_io" where
  "build_script resources os =
     try_io (embed_windows_resources resources os) (\<lambda>_.
     bind_io (say (lit ''cargo:rerun-if-env-changed=WISPDISK_DRIVER_PACKAGE_DIR'')) (\<lambda>_.
     bind_io (env_var os ''OUT_DIR'') (\<lambda>out. case out of
       None \<Rightarrow> fail_io (lit ''Cargo always defines OUT_DIR'')
     | Some out_dir \<Rightarrow>
         bind_io (env_var os ''WISPDISK_DRIVER_PACKAGE_DIR'') (\<lambda>pkg.
         try_io (for_io (embed_file os out_dir pkg) EMBEDDED_FILES) (\<lambda>_.
         bind_io (say (embedded_line (pkg \<noteq> None))) (\<lambda>_. ok_io ()))))))"

section \<open>What the compiler is told\<close>

definition no_verdict :: "host_event \<Rightarrow> bool" where
  "no_verdict e \<longleftrightarrow> e \<notin> range (Say \<circ> embedded_line)"

text \<open>One file of the package, or its empty stand-in, is in place.\<close>

definition in_place :: "path \<Rightarrow> path option \<Rightarrow> host_event set \<Rightarrow> string \<Rightarrow> bool" where
  "in_place out_dir pkg A name = (case pkg of
     None \<Rightarrow> Write_Text (join out_dir (lit name)) [] None \<in> A
   | Some d \<Rightarrow> (\<exists>m. Metadata (join d (lit name)) (Ok m) \<in> A \<and> fm_length m \<noteq> 0)
       \<and> Copy_File (join d (lit name)) (join out_dir (lit name)) None \<in> A)"

lemma embedded_line_simps [simp]:
  "lit ''cargo:rerun-if-changed='' @ x \<noteq> embedded_line b"
  "lit ''cargo:rerun-if-env-changed=WISPDISK_DRIVER_PACKAGE_DIR'' \<noteq> embedded_line b"
  by (simp_all add: embedded_line_def lit_def)

lemma no_verdict_say [simp]: "no_verdict (Say x) \<longleftrightarrow> (\<forall>b. x \<noteq> embedded_line b)"
  by (auto simp: no_verdict_def)

lemma no_verdict_call: "(\<And>a. ev a \<notin> range Say) \<Longrightarrow> all_events no_verdict (host_call f ev)"
  by (rule all_events_call) (auto simp: no_verdict_def)

lemma no_verdict_said: "(\<forall>b. x \<noteq> embedded_line b) \<Longrightarrow> all_events no_verdict (say x)"
  by (simp add: all_events_def wlp_def say_def)

lemma no_verdict_parts:
  "all_events no_verdict (embed_windows_resources resources os)"
  "all_events no_verdict (embed_file os out_dir pkg name)"
  "all_events no_verdict (env_var os v)"
  unfolding embed_windows_resources_def embed_file_def embed_from_def env_var_def is_file_def Let_def
  by (intro all_events_intros no_verdict_call no_verdict_said; auto)+

lemma wlp_embed_file:
  "wlp (embed_file os out_dir pkg name)
     (\<lambda>r t _. case r of Err _ \<Rightarrow> True | Ok _ \<Rightarrow> in_place out_dir pkg (set t) name) w"
  unfolding embed_file_def embed_from_def is_file_def say_def Let_def
  by (auto simp: in_place_def wlp_def map_io_def try_io_def bind_io_def return_io_def host_call_def ok_io_def
      fail_io_def done_or_def map_err_def split: prod.splits sum.splits if_splits option.splits)

lemma in_place_mono: "in_place out_dir pkg A name \<Longrightarrow> A \<subseteq> B \<Longrightarrow> in_place out_dir pkg B name"
  by (auto simp: in_place_def split: option.splits)

lemma wlp_embed_files:
  "wlp (for_io (embed_file os out_dir pkg) EMBEDDED_FILES)
     (\<lambda>r t _. list_all no_verdict t \<and> (case r of Err _ \<Rightarrow> True
        | Ok _ \<Rightarrow> list_all (in_place out_dir pkg (set t)) EMBEDDED_FILES)) w"
  by (rule wlp_conj [OF all_events_wlp wlp_for_each [OF wlp_embed_file in_place_mono]])
    (intro all_events_intros no_verdict_parts)

text \<open>
  The compiler learns whether the package is embedded, and only when it is true. The build script
  of the CLI prints its verdict once, as its last step, and a script that panics prints none. The
  verdict is 1 exactly when a package directory was given, and then each of the three files was not
  empty and was copied to where the binary includes it; the verdict is 0 when there was none, and
  then three empty stand-ins were written.
\<close>

theorem embedding_verdict_is_true:
  "wlp (build_script resources os) (\<lambda>r t _. case r of
       Err _ \<Rightarrow> list_all no_verdict t
     | Ok _ \<Rightarrow> (\<exists>out_dir pkg u. t = u @ [Say (embedded_line (pkg \<noteq> None))]
         \<and> list_all no_verdict u
         \<and> list_all (in_place out_dir pkg (set u)) EMBEDDED_FILES)) w"
proof -
  have said: "wlp (bind_io (say x) (\<lambda>_. ok_io ())) Q w \<longleftrightarrow> Q (Ok ()) [Say x] w" for x Q w
    by (auto simp: wlp_def say_def bind_io_def ok_io_def return_io_def)
  have quiet: "wlp m (\<lambda>_ t _. list_all no_verdict t) w"
    if "all_events no_verdict m" for m :: "('a, 'b) host_io" and w
    using that by (rule all_events_wlp)
  show ?thesis
    unfolding build_script_def
    apply (rule wlp_tryI [OF quiet [OF no_verdict_parts(1)]], simp)
    apply (rule wlp_bindI [OF all_events_wlp [OF no_verdict_said]], simp)
    apply (rule wlp_bindI [OF all_events_wlp [OF no_verdict_parts(3)]])
    subgoal for _ _ _ _ _ _ out
      apply (cases out)
       apply (simp add: wlp_rules)
      apply (simp only: option.case)
      apply (rule wlp_bindI [OF all_events_wlp [OF no_verdict_parts(3)]])
      apply (rule wlp_tryI [OF wlp_embed_files], simp)
      subgoal for a pkg u _ _ v
        apply (simp only: said sum.case append_assoc [symmetric])
        apply (rule exI [of _ a], rule exI [of _ pkg], rule exI, rule conjI, rule refl)
        apply (auto elim!: list.pred_mono_strong intro: in_place_mono)
        done
      done
    done
qed

end
