(* ===== verification/Driver_Types.thy ===== *)
theory Driver_Types
  imports Wire Recovery
begin

text \<open>
  driver/src/driver.h of the StorPort miniport driver and the kernel types its code handles:
  status codes, the SCSI request block, the memory pool, the LUN and operation records and the
  adapter extension. C++ names are kept. The LONG flags that only ever hold 0 and 1 are
  booleans, a pointer to pool memory is its address or \<open>None\<close>, and a zero-initialised structure is
  a \<open>zero_\<close> constant.
\<close>

section \<open>Constants\<close>

definition STATUS_SUCCESS :: i32 where "STATUS_SUCCESS = 0"
definition STATUS_PENDING :: i32 where "STATUS_PENDING = 0x103"
definition STATUS_INVALID_PARAMETER :: i32 where "STATUS_INVALID_PARAMETER = 0xC000000D"
definition STATUS_NO_SUCH_DEVICE :: i32 where "STATUS_NO_SUCH_DEVICE = 0xC000000E"
definition STATUS_INVALID_DEVICE_REQUEST :: i32 where "STATUS_INVALID_DEVICE_REQUEST = 0xC0000010"
definition STATUS_BUFFER_TOO_SMALL :: i32 where "STATUS_BUFFER_TOO_SMALL = 0xC0000023"
definition STATUS_QUOTA_EXCEEDED :: i32 where "STATUS_QUOTA_EXCEEDED = 0xC0000044"
definition STATUS_INSUFFICIENT_RESOURCES :: i32 where "STATUS_INSUFFICIENT_RESOURCES = 0xC000009A"
definition STATUS_DEVICE_NOT_READY :: i32 where "STATUS_DEVICE_NOT_READY = 0xC00000A3"
definition STATUS_NOT_SUPPORTED :: i32 where "STATUS_NOT_SUPPORTED = 0xC00000BB"
definition STATUS_NOT_FOUND :: i32 where "STATUS_NOT_FOUND = 0xC0000225"

lemmas status_defs = STATUS_SUCCESS_def STATUS_PENDING_def STATUS_INVALID_PARAMETER_def
  STATUS_NO_SUCH_DEVICE_def STATUS_INVALID_DEVICE_REQUEST_def STATUS_BUFFER_TOO_SMALL_def
  STATUS_QUOTA_EXCEEDED_def STATUS_INSUFFICIENT_RESOURCES_def STATUS_DEVICE_NOT_READY_def
  STATUS_NOT_SUPPORTED_def STATUS_NOT_FOUND_def STATUS_DEVICE_BUSY_def

definition NT_SUCCESS :: "i32 \<Rightarrow> bool" where "NT_SUCCESS status \<longleftrightarrow> \<not> is_negative status"

lemma NT_SUCCESS_codes [simp]:
  "NT_SUCCESS STATUS_SUCCESS" "NT_SUCCESS STATUS_PENDING"
  "\<not> NT_SUCCESS STATUS_INVALID_PARAMETER" "\<not> NT_SUCCESS STATUS_NO_SUCH_DEVICE"
  "\<not> NT_SUCCESS STATUS_INVALID_DEVICE_REQUEST" "\<not> NT_SUCCESS STATUS_BUFFER_TOO_SMALL"
  "\<not> NT_SUCCESS STATUS_QUOTA_EXCEEDED" "\<not> NT_SUCCESS STATUS_INSUFFICIENT_RESOURCES"
  "\<not> NT_SUCCESS STATUS_DEVICE_NOT_READY" "\<not> NT_SUCCESS STATUS_NOT_SUPPORTED"
  "\<not> NT_SUCCESS STATUS_NOT_FOUND" "\<not> NT_SUCCESS STATUS_DEVICE_BUSY"
  by (simp_all add: NT_SUCCESS_def is_negative_unat status_defs)

definition SRB_STATUS_PENDING :: u8 where "SRB_STATUS_PENDING = 0x00"
definition SRB_STATUS_SUCCESS :: u8 where "SRB_STATUS_SUCCESS = 0x01"
definition SRB_STATUS_ERROR :: u8 where "SRB_STATUS_ERROR = 0x04"
definition SRB_STATUS_INVALID_REQUEST :: u8 where "SRB_STATUS_INVALID_REQUEST = 0x06"
definition SRB_STATUS_NO_DEVICE :: u8 where "SRB_STATUS_NO_DEVICE = 0x08"
definition SRB_STATUS_DATA_OVERRUN :: u8 where "SRB_STATUS_DATA_OVERRUN = 0x12"
definition SRB_STATUS_AUTOSENSE_VALID :: u8 where "SRB_STATUS_AUTOSENSE_VALID = 0x80"
definition SCSISTAT_GOOD :: u8 where "SCSISTAT_GOOD = 0"
definition SCSISTAT_CHECK_CONDITION :: u8 where "SCSISTAT_CHECK_CONDITION = 2"

lemmas srb_status_defs = SRB_STATUS_PENDING_def SRB_STATUS_SUCCESS_def SRB_STATUS_ERROR_def
  SRB_STATUS_INVALID_REQUEST_def SRB_STATUS_NO_DEVICE_def SRB_STATUS_DATA_OVERRUN_def
  SRB_STATUS_AUTOSENSE_VALID_def SCSISTAT_GOOD_def SCSISTAT_CHECK_CONDITION_def

definition kMaximumDiskCount :: nat where "kMaximumDiskCount = 16"
definition kMaximumOperationCount :: nat where "kMaximumOperationCount = 128"
definition kLogicalSectorSize :: u32 where "kLogicalSectorSize = 512"
definition kMaximumTransferLength :: u32 where "kMaximumTransferLength = 1024 * 1024"
definition kMinimumDiskSize :: u64 where "kMinimumDiskSize = 1024 * 1024"
definition kMaximumDiskSize :: u64 where "kMaximumDiskSize = 256 * 1024 * 1024"
definition kMaximumTotalDiskBytes :: u64 where "kMaximumTotalDiskBytes = 512 * 1024 * 1024"
definition kAdapterExtensionSignature :: u32 where "kAdapterExtensionSignature = 0x57697370"

lemmas size_limit_defs = kMaximumDiskCount_def kMaximumOperationCount_def kLogicalSectorSize_def
  kMaximumTransferLength_def kMinimumDiskSize_def kMaximumDiskSize_def kMaximumTotalDiskBytes_def

lemma unat_limits [simp]:
  "unat kLogicalSectorSize = 512" "unat kMaximumTransferLength = 1048576"
  "unat kMinimumDiskSize = 1048576" "unat kMaximumDiskSize = 268435456"
  "unat kMaximumTotalDiskBytes = 536870912"
  by (simp_all add: size_limit_defs)

section \<open>The request block\<close>

text \<open>
  The fields of \<open>SCSI_REQUEST_BLOCK\<close> that the driver reads or writes. \<open>sb_data_buffer\<close> is the
  memory behind the pointer (\<open>None\<close> when it is null); \<open>sb_data_transfer_length\<close> is how much of it
  belongs to the request.
\<close>

datatype srb_function =
    Fn_Io_Control | Fn_Execute_Scsi | Fn_Pnp | Fn_Power | Fn_Flush | Fn_Shutdown | Fn_Other

record srb =
  sb_function :: srb_function
  sb_path_id :: u8
  sb_target_id :: u8
  sb_lun :: u8
  sb_srb_status :: u8
  sb_scsi_status :: u8
  sb_cdb :: "u8 list"
  sb_cdb_length :: u8
  sb_data_buffer :: "u8 list option"
  sb_data_transfer_length :: u32
  sb_sense_buffer :: "u8 list option"
  sb_sense_length :: u8

text \<open>
  What StorPort guarantees of a request: a sixteen-byte command block, and buffers at least as
  long as the lengths beside them.
\<close>

definition srb_wf :: "srb \<Rightarrow> bool" where
  "srb_wf b \<longleftrightarrow> length (sb_cdb b) = 16
     \<and> (case sb_data_buffer b of None \<Rightarrow> True | Some d \<Rightarrow> unat (sb_data_transfer_length b) \<le> length d)
     \<and> (case sb_sense_buffer b of None \<Rightarrow> True | Some d \<Rightarrow> unat (sb_sense_length b) \<le> length d)"

text \<open>
  \<open>RtlCopyMemory\<close> into a buffer at an offset. A copy that does not fit makes the buffer longer,
  so that keeping the length of every buffer is the absence of an overrun.
\<close>

definition write_at :: "nat \<Rightarrow> u8 list \<Rightarrow> u8 list \<Rightarrow> u8 list" where
  "write_at off bs buffer = take off buffer @ bs @ drop (off + length bs) buffer"

lemma length_write_at [simp]: "off + length bs \<le> length buffer \<Longrightarrow> length (write_at off bs buffer) = length buffer"
  by (simp add: write_at_def)

lemma write_at_overrun:
  "length (write_at off bs buffer) = length buffer \<longleftrightarrow> bs = [] \<or> off + length bs \<le> length buffer"
proof (cases bs)
  case (Cons b bs')
  then have "0 < length bs" and "bs \<noteq> []" by simp_all
  then show ?thesis
    unfolding write_at_def length_append length_take length_drop by arith
qed (simp add: write_at_def)

lemma slice_write_at_here: "off + length bs \<le> length buffer \<Longrightarrow> slice off (length bs) (write_at off bs buffer) = bs"
  by (simp add: write_at_def slice_def)

lemma slice_write_at_before: "i + n \<le> off \<Longrightarrow> off \<le> length buffer \<Longrightarrow>
  slice i n (write_at off bs buffer) = slice i n buffer"
  by (simp add: write_at_def slice_def drop_take)

lemma slice_write_at_after: "off + length bs \<le> i \<Longrightarrow> off + length bs \<le> length buffer \<Longrightarrow>
  slice i n (write_at off bs buffer) = slice i n buffer"
  by (simp add: write_at_def slice_def)

lemma drop_write_at: "off \<le> length buffer \<Longrightarrow>
  drop off (write_at off bs buffer) = bs @ drop (off + length bs) buffer"
  by (simp add: write_at_def)

section \<open>Pool memory\<close>

text \<open>
  A block of pool memory and the pool of the adapter: the blocks that are allocated, by address.
  Reading or writing outside a block, or in a block that is not allocated, has no result.
\<close>

record pool_block =
  pb_size :: nat
  pb_data :: "nat \<Rightarrow> u8"

type_synonym pool = "nat \<Rightarrow> pool_block option"

definition pool_read :: "pool \<Rightarrow> nat \<Rightarrow> nat \<Rightarrow> nat \<Rightarrow> u8 list option" where
  "pool_read pool p off n = (case pool p of
     None \<Rightarrow> None
   | Some b \<Rightarrow> if off + n \<le> pb_size b then Some (map (\<lambda>k. pb_data b (off + k)) [0..<n]) else None)"

definition pool_write :: "pool \<Rightarrow> nat \<Rightarrow> nat \<Rightarrow> u8 list \<Rightarrow> pool option" where
  "pool_write pool p off bs = (case pool p of
     None \<Rightarrow> None
   | Some b \<Rightarrow> if off + length bs \<le> pb_size b
       then Some (pool(p \<mapsto> b\<lparr>pb_data := (\<lambda>k. if off \<le> k \<and> k < off + length bs
          then bs ! (k - off) else pb_data b k)\<rparr>))
       else None)"

text \<open>\<open>StorPortFreePool\<close>: freeing what is not allocated has no result.\<close>

definition StorPortFreePool :: "pool \<Rightarrow> nat \<Rightarrow> pool option" where
  "StorPortFreePool pool p = (if p \<in> dom pool then Some (pool(p := None)) else None)"

text \<open>
  \<open>StorPortAllocatePool\<close> answers with the address of a block that is not in use, of the size asked
  for and with arbitrary contents; \<open>RtlZeroMemory\<close> clears it.
\<close>

definition pool_allocate :: "pool \<Rightarrow> nat \<Rightarrow> nat \<Rightarrow> (nat \<Rightarrow> u8) \<Rightarrow> pool" where
  "pool_allocate pool p n contents = pool(p \<mapsto> \<lparr>pb_size = n, pb_data = contents\<rparr>)"

definition RtlZeroMemory :: "pool \<Rightarrow> nat \<Rightarrow> nat \<Rightarrow> pool option" where
  "RtlZeroMemory pool p n = (case pool p of
     None \<Rightarrow> None
   | Some b \<Rightarrow> if n \<le> pb_size b
       then Some (pool(p \<mapsto> b\<lparr>pb_data := (\<lambda>k. if k < n then 0 else pb_data b k)\<rparr>)) else None)"

section \<open>The adapter extension\<close>

datatype lun_state = Lun_Empty | Lun_Online | Lun_Stopping

fun lun_state_code :: "lun_state \<Rightarrow> u32" where
  "lun_state_code Lun_Empty = 0"
| "lun_state_code Lun_Online = 1"
| "lun_state_code Lun_Stopping = 2"

record wispdisk_lun =
  lu_state :: lun_state
  lu_device_id :: u32
  lu_lun :: u8
  lu_media_kind :: u32
  lu_requested_drive_letter :: u16
  lu_size_bytes :: u64
  lu_create_operation_id :: u64
  lu_backing_store :: "nat option"
  lu_active_requests :: u32
  lu_no_active_requests :: bool

record operation_record =
  op_id :: u64
  op_mutation :: u32
  op_state :: u32
  op_result :: i32
  op_device_id :: u32
  op_lun :: u8
  op_create :: create_request
  op_delete :: delete_request

record adapter_extension =
  ax_signature :: u32
  ax_adapter_stopping :: bool
  ax_management_busy :: bool
  ax_management_idle :: bool
  ax_management_worker :: bool
  ax_next_device_id :: u32
  ax_adapter_instance :: u64
  ax_next_operation_id :: u64
  ax_operations :: "operation_record list"
  ax_total_allocated_bytes :: u64
  ax_luns :: "wispdisk_lun list"

definition zero_request_header :: request_header where
  "zero_request_header = \<lparr>rq_struct_size = 0, rq_protocol_version = 0, rq_operation = 0,
     rq_flags = 0, rq_correlation_id = 0\<rparr>"

definition zero_create_request :: create_request where
  "zero_create_request = \<lparr>cq_header = zero_request_header, cq_size_bytes = 0,
     cq_logical_sector_size = 0, cq_media_kind = 0, cq_requested_drive_letter = 0,
     cq_reserved16 = 0, cq_reserved32 = 0\<rparr>"

definition zero_delete_request :: delete_request where
  "zero_delete_request = \<lparr>dq_header = zero_request_header, dq_device_id = 0, dq_reserved = 0\<rparr>"

definition zero_operation_request :: operation_request where
  "zero_operation_request = \<lparr>oq_header = zero_request_header, oq_adapter_instance = 0,
     oq_operation_id = 0\<rparr>"

definition zero_record :: operation_record where
  "zero_record = \<lparr>op_id = 0, op_mutation = 0, op_state = 0, op_result = 0, op_device_id = 0,
     op_lun = 0, op_create = zero_create_request, op_delete = zero_delete_request\<rparr>"

definition zero_lun :: wispdisk_lun where
  "zero_lun = \<lparr>lu_state = Lun_Empty, lu_device_id = 0, lu_lun = 0, lu_media_kind = 0,
     lu_requested_drive_letter = 0, lu_size_bytes = 0, lu_create_operation_id = 0,
     lu_backing_store = None, lu_active_requests = 0, lu_no_active_requests = False\<rparr>"

definition zero_disk_info :: disk_info where
  "zero_disk_info = \<lparr>di_device_id = 0, di_path_id = 0, di_target_id = 0, di_lun = 0,
     di_reserved8 = 0, di_size_bytes = 0, di_logical_sector_size = 0, di_media_kind = 0,
     di_requested_drive_letter = 0, di_reserved16 = 0\<rparr>"

definition zero_disk_state :: disk_state where
  "zero_disk_state = \<lparr>ds_disk = zero_disk_info, ds_create_operation_id = 0, ds_state = 0,
     ds_reserved = 0\<rparr>"

text \<open>The first index whose element satisfies a test: the \<open>for\<close> loops that search the tables.\<close>

fun find_index :: "('a \<Rightarrow> bool) \<Rightarrow> 'a list \<Rightarrow> nat option" where
  "find_index P [] = None"
| "find_index P (x # xs) = (if P x then Some 0 else map_option Suc (find_index P xs))"

lemma find_index_Some:
  "find_index P xs = Some i \<longleftrightarrow> i < length xs \<and> P (xs ! i) \<and> (\<forall>j < i. \<not> P (xs ! j))"
proof (induction xs arbitrary: i)
  case (Cons x xs)
  then show ?case
    by (cases i) (auto simp: nth_Cons All_less_Suc2 split: nat.splits)
qed simp

lemma find_index_None: "find_index P xs = None \<longleftrightarrow> (\<forall>x \<in> set xs. \<not> P x)"
  by (induction xs) auto

end
