(* ===== verification/Driver_Storage.thy ===== *)
theory Driver_Storage
  imports Driver_Types
begin

text \<open>
  driver/src/storage/lun_store.cpp and lun_io_lease.cpp: the table of sixteen LUNs. Each operation
  is one critical section under the adapter's \<open>LunLock\<close>, hence one function on the adapter
  extension; \<open>CreateDisk\<close> and \<open>DrainAndFreeBacking\<close>, which leave the lock in between, are composed of
  them in theories Driver_Management and Driver_Machine. \<open>luns_ok\<close> is the invariant of the table:
  identities, drain events, and the accounting of the memory.
\<close>

section \<open>Operations\<close>

definition update_lun :: "nat \<Rightarrow> (wispdisk_lun \<Rightarrow> wispdisk_lun) \<Rightarrow> adapter_extension \<Rightarrow> adapter_extension" where
  "update_lun i f e = e\<lparr>ax_luns := (ax_luns e)[i := f (ax_luns e ! i)]\<rparr>"

definition LunStore_Initialize :: "adapter_extension \<Rightarrow> adapter_extension" where
  "LunStore_Initialize e = e\<lparr>ax_luns := map (\<lambda>i. (ax_luns e ! i)\<lparr>lu_lun := word_of_nat i,
     lu_no_active_requests := True\<rparr>) [0..<kMaximumDiskCount]\<rparr>"

definition DiskInfo :: "wispdisk_lun \<Rightarrow> disk_info" where
  "DiskInfo l = zero_disk_info\<lparr>di_device_id := lu_device_id l, di_lun := lu_lun l,
     di_size_bytes := lu_size_bytes l, di_logical_sector_size := kLogicalSectorSize,
     di_media_kind := lu_media_kind l, di_requested_drive_letter := lu_requested_drive_letter l\<rparr>"

text \<open>The table of a response, filled from the front and zero behind.\<close>

definition disk_table :: "'a \<Rightarrow> 'a list \<Rightarrow> 'a list" where
  "disk_table z xs = xs @ replicate (kMaximumDiskCount - length xs) z"

definition SnapshotOnlineDisks :: "adapter_extension \<Rightarrow> list_response \<Rightarrow> list_response" where
  "SnapshotOnlineDisks e response =
     (let online = filter (\<lambda>l. lu_state l = Lun_Online) (ax_luns e)
      in response\<lparr>lr_disk_count := word_of_nat (length online),
           lr_disks := disk_table zero_disk_info (map DiskInfo online)\<rparr>)"

definition DiskState :: "wispdisk_lun \<Rightarrow> disk_state" where
  "DiskState l = \<lparr>ds_disk = DiskInfo l, ds_create_operation_id = lu_create_operation_id l,
     ds_state = lun_state_code (lu_state l), ds_reserved = 0\<rparr>"

definition SnapshotStateLocked :: "adapter_extension \<Rightarrow> state_response \<Rightarrow> state_response" where
  "SnapshotStateLocked e response =
     (let live = filter (\<lambda>l. lu_state l \<noteq> Lun_Empty) (ax_luns e)
      in response\<lparr>sr_allocated_bytes := ax_total_allocated_bytes e,
           sr_disk_count := word_of_nat (length live),
           sr_disks := disk_table zero_disk_state (map DiskState live)\<rparr>)"

definition BindCreateOperationLocked :: "u8 \<Rightarrow> u64 \<Rightarrow> adapter_extension \<Rightarrow> adapter_extension" where
  "BindCreateOperationLocked lun operation =
     update_lun (unat lun) (\<lambda>l. l\<lparr>lu_create_operation_id := operation\<rparr>)"

definition SnapshotOnlineLuns :: "adapter_extension \<Rightarrow> u8 list" where
  "SnapshotOnlineLuns e = map lu_lun (filter (\<lambda>l. lu_state l = Lun_Online) (ax_luns e))"

definition SelectAvailableLun :: "u64 \<Rightarrow> adapter_extension \<Rightarrow> i32 + nat" where
  "SelectAvailableLun size_bytes e =
     (if ax_adapter_stopping e then Err STATUS_DEVICE_NOT_READY
      else if ax_total_allocated_bytes e > kMaximumTotalDiskBytes - size_bytes
      then Err STATUS_QUOTA_EXCEEDED
      else case find_index (\<lambda>l. lu_state l = Lun_Empty) (ax_luns e) of
        Some index \<Rightarrow> Ok index
      | None \<Rightarrow> Err STATUS_INSUFFICIENT_RESOURCES)"

definition CommitNewLun ::
  "create_request \<Rightarrow> nat \<Rightarrow> nat \<Rightarrow> adapter_extension \<Rightarrow> i32 + (u32 \<times> adapter_extension)" where
  "CommitNewLun request selected allocation e =
     (if ax_adapter_stopping e \<or> lu_state (ax_luns e ! selected) \<noteq> Lun_Empty
      then Err STATUS_DEVICE_NOT_READY
      else if ax_next_device_id e = 0 then Err STATUS_INSUFFICIENT_RESOURCES
      else let device_id = ax_next_device_id e;
               e1 = e\<lparr>ax_next_device_id := ax_next_device_id e + 1\<rparr>;
               e2 = update_lun selected (\<lambda>l. l\<lparr>
                 lu_device_id := device_id,
                 lu_lun := word_of_nat selected,
                 lu_media_kind := cq_media_kind request,
                 lu_requested_drive_letter := cq_requested_drive_letter request,
                 lu_size_bytes := cq_size_bytes request,
                 lu_create_operation_id := 0,
                 lu_backing_store := Some allocation,
                 lu_active_requests := 0,
                 lu_no_active_requests := True,
                 lu_state := Lun_Online\<rparr>) e1
        in Ok (device_id, e2\<lparr>ax_total_allocated_bytes :=
             ax_total_allocated_bytes e2 + cq_size_bytes request\<rparr>))"

definition MarkLunStopping :: "u32 \<Rightarrow> adapter_extension \<Rightarrow> (nat \<times> adapter_extension) option" where
  "MarkLunStopping device_id e =
     (case find_index (\<lambda>l. lu_state l = Lun_Online \<and> lu_device_id l = device_id) (ax_luns e) of
        None \<Rightarrow> None
      | Some i \<Rightarrow> Some (i, update_lun i (\<lambda>l. l\<lparr>lu_state := Lun_Stopping\<rparr>) e))"

definition DetachBackingStore ::
  "nat \<Rightarrow> u32 \<Rightarrow> adapter_extension \<Rightarrow> nat option \<times> adapter_extension" where
  "DetachBackingStore i device_id e =
     (let l = ax_luns e ! i
      in if lu_state l \<noteq> Lun_Stopping \<or> lu_device_id l \<noteq> device_id then (None, e)
         else (lu_backing_store l, update_lun i (\<lambda>l. l\<lparr>lu_backing_store := None\<rparr>) e))"

definition FinalizeRemovalLocked :: "nat \<Rightarrow> adapter_extension \<Rightarrow> adapter_extension" where
  "FinalizeRemovalLocked i e =
     (let size_bytes = lu_size_bytes (ax_luns e ! i);
          total = ax_total_allocated_bytes e
      in update_lun i (\<lambda>l. l\<lparr>
           lu_backing_store := None, lu_size_bytes := 0, lu_device_id := 0, lu_media_kind := 0,
           lu_requested_drive_letter := 0, lu_create_operation_id := 0, lu_state := Lun_Empty\<rparr>)
         (e\<lparr>ax_total_allocated_bytes := (if total \<ge> size_bytes then total - size_bytes else 0)\<rparr>))"

definition MarkAllLunsStopping :: "adapter_extension \<Rightarrow> adapter_extension" where
  "MarkAllLunsStopping e = e\<lparr>ax_luns := map (\<lambda>l. if lu_state l = Lun_Online
     then l\<lparr>lu_state := Lun_Stopping\<rparr> else l) (ax_luns e)\<rparr>"

definition FirstStoppingLun :: "adapter_extension \<Rightarrow> nat option" where
  "FirstStoppingLun e = find_index (\<lambda>l. lu_state l = Lun_Stopping) (ax_luns e)"

text \<open>What a lease shows of its LUN; the backing store of a granted lease is not null.\<close>

record lun_view =
  lv_backing_store :: nat
  lv_size_bytes :: u64
  lv_media_kind :: u32
  lv_device_id :: u32

definition AcquireLunIo :: "srb \<Rightarrow> adapter_extension \<Rightarrow> (nat \<times> lun_view \<times> adapter_extension) option" where
  "AcquireLunIo srb e =
     (if sb_path_id srb \<noteq> 0 \<or> sb_target_id srb \<noteq> 0 \<or> unat (sb_lun srb) \<ge> kMaximumDiskCount then None
      else let i = unat (sb_lun srb); l = ax_luns e ! i
        in if lu_state l \<noteq> Lun_Online then None
           else case lu_backing_store l of
             None \<Rightarrow> None
           | Some p \<Rightarrow> Some (i,
               \<lparr>lv_backing_store = p, lv_size_bytes = lu_size_bytes l,
                lv_media_kind = lu_media_kind l, lv_device_id = lu_device_id l\<rparr>,
               update_lun i (\<lambda>l. l\<lparr>lu_active_requests := lu_active_requests l + 1,
                 lu_no_active_requests :=
                   (if lu_active_requests l = 0 then False else lu_no_active_requests l)\<rparr>) e))"

definition ReleaseLunIo :: "nat \<Rightarrow> adapter_extension \<Rightarrow> adapter_extension" where
  "ReleaseLunIo i e =
     (if lu_active_requests (ax_luns e ! i) \<noteq> 0
      then update_lun i (\<lambda>l. l\<lparr>lu_active_requests := lu_active_requests l - 1,
             lu_no_active_requests :=
               (if lu_active_requests l - 1 = 0 then True else lu_no_active_requests l)\<rparr>) e
      else e)"

lemmas lun_op_defs = BindCreateOperationLocked_def CommitNewLun_def MarkLunStopping_def
  DetachBackingStore_def FinalizeRemovalLocked_def MarkAllLunsStopping_def AcquireLunIo_def
  ReleaseLunIo_def update_lun_def

section \<open>The invariant of the LUN table\<close>

text \<open>
  A device id is in use below the next one to be given out; the counter stops for good when it
  wraps around to zero.
\<close>

definition id_below :: "'a::len word \<Rightarrow> 'a word \<Rightarrow> bool" where
  "id_below ident next_id \<longleftrightarrow> ident \<noteq> 0 \<and> (next_id = 0 \<or> ident < next_id)"

lemma id_below_next: "next_id \<noteq> 0 \<Longrightarrow> id_below next_id (next_id + 1)"
proof (cases "next_id + 1 = 0")
  case False
  then show "next_id \<noteq> 0 \<Longrightarrow> id_below next_id (next_id + 1)"
    using unatSuc [of next_id] by (simp add: id_below_def word_less_nat_alt add.commute)
qed (simp add: id_below_def)

lemma id_below_Suc: "id_below ident next_id \<Longrightarrow> next_id \<noteq> 0 \<Longrightarrow> id_below ident (next_id + 1)"
  unfolding id_below_def by (metis id_below_def id_below_next order_less_trans)

lemma id_below_irrefl [simp]: "next_id \<noteq> 0 \<Longrightarrow> \<not> id_below next_id next_id"
  by (simp add: id_below_def)

definition disk_size_ok :: "u64 \<Rightarrow> bool" where
  "disk_size_ok size_bytes \<longleftrightarrow> unat kMinimumDiskSize \<le> unat size_bytes
     \<and> unat size_bytes \<le> unat kMaximumDiskSize \<and> 512 dvd unat size_bytes"

definition lun_ok :: "u32 \<Rightarrow> nat \<Rightarrow> wispdisk_lun \<Rightarrow> bool" where
  "lun_ok next_id i l \<longleftrightarrow> lu_lun l = word_of_nat i
     \<and> lu_no_active_requests l = (lu_active_requests l = 0)
     \<and> (if lu_state l = Lun_Empty
        then lu_backing_store l = None \<and> lu_size_bytes l = 0 \<and> lu_device_id l = 0
          \<and> lu_create_operation_id l = 0 \<and> lu_active_requests l = 0
        else id_below (lu_device_id l) next_id \<and> disk_size_ok (lu_size_bytes l)
          \<and> (lu_state l = Lun_Online \<longrightarrow> lu_backing_store l \<noteq> None)
          \<and> (lu_backing_store l = None \<longrightarrow> lu_active_requests l = 0))"

definition used_bytes :: "wispdisk_lun list \<Rightarrow> nat" where
  "used_bytes luns = sum_list (map (\<lambda>l. unat (lu_size_bytes l)) luns)"

definition luns_ok :: "adapter_extension \<Rightarrow> bool" where
  "luns_ok e \<longleftrightarrow> length (ax_luns e) = kMaximumDiskCount
     \<and> (\<forall>i < kMaximumDiskCount. lun_ok (ax_next_device_id e) i (ax_luns e ! i))
     \<and> (\<forall>i < kMaximumDiskCount. \<forall>j < kMaximumDiskCount. i \<noteq> j \<longrightarrow>
          lu_device_id (ax_luns e ! i) = lu_device_id (ax_luns e ! j) \<longrightarrow>
          lu_device_id (ax_luns e ! i) = 0)
     \<and> unat (ax_total_allocated_bytes e) = used_bytes (ax_luns e)
     \<and> used_bytes (ax_luns e) \<le> unat kMaximumTotalDiskBytes"

section \<open>Every operation keeps the invariant\<close>

lemma kMaximumDiskCount_eq [simp]: "kMaximumDiskCount = 16"
  by (simp add: kMaximumDiskCount_def)

lemma luns_update [simp]:
  "ax_luns (update_lun i f e) = (ax_luns e)[i := f (ax_luns e ! i)]"
  "ax_signature (update_lun i f e) = ax_signature e"
  "ax_adapter_stopping (update_lun i f e) = ax_adapter_stopping e"
  "ax_management_busy (update_lun i f e) = ax_management_busy e"
  "ax_management_idle (update_lun i f e) = ax_management_idle e"
  "ax_management_worker (update_lun i f e) = ax_management_worker e"
  "ax_next_device_id (update_lun i f e) = ax_next_device_id e"
  "ax_adapter_instance (update_lun i f e) = ax_adapter_instance e"
  "ax_next_operation_id (update_lun i f e) = ax_next_operation_id e"
  "ax_operations (update_lun i f e) = ax_operations e"
  "ax_total_allocated_bytes (update_lun i f e) = ax_total_allocated_bytes e"
  by (simp_all add: update_lun_def)

lemma used_bytes_update:
  "i < length luns \<Longrightarrow> used_bytes (luns[i := l]) + unat (lu_size_bytes (luns ! i)) =
    used_bytes luns + unat (lu_size_bytes l)"
proof (induction luns arbitrary: i)
  case (Cons a luns)
  then show ?case
    by (cases i) (simp_all add: used_bytes_def add.assoc)
qed simp

lemma used_bytes_member: "i < length luns \<Longrightarrow> unat (lu_size_bytes (luns ! i)) \<le> used_bytes luns"
  unfolding used_bytes_def using elem_le_sum_list [of i "map (\<lambda>l. unat (lu_size_bytes l)) luns"] by simp

lemma luns_okD:
  assumes "luns_ok e"
  shows "length (ax_luns e) = 16" and "i < 16 \<Longrightarrow> lun_ok (ax_next_device_id e) i (ax_luns e ! i)"
    and "i < 16 \<Longrightarrow> j < 16 \<Longrightarrow> lu_device_id (ax_luns e ! i) = lu_device_id (ax_luns e ! j) \<Longrightarrow>
      lu_device_id (ax_luns e ! i) \<noteq> 0 \<Longrightarrow> i = j"
    and "unat (ax_total_allocated_bytes e) = used_bytes (ax_luns e)"
    and "used_bytes (ax_luns e) \<le> 536870912"
  using assms by (auto simp: luns_ok_def)

text \<open>
  An update that keeps identity, size and next id keeps the invariant when the new entry is
  well-formed by itself.
\<close>

lemma luns_ok_update:
  assumes ok: "luns_ok e" and i: "i < 16"
    and "lun_ok (ax_next_device_id e) i (f (ax_luns e ! i))"
    and "lu_device_id (f (ax_luns e ! i)) = lu_device_id (ax_luns e ! i)"
    and "lu_size_bytes (f (ax_luns e ! i)) = lu_size_bytes (ax_luns e ! i)"
  shows "luns_ok (update_lun i f e)"
proof -
  note okD = luns_okD [OF ok]
  have "used_bytes ((ax_luns e)[i := f (ax_luns e ! i)]) = used_bytes (ax_luns e)"
    using used_bytes_update [of i "ax_luns e" "f (ax_luns e ! i)"] assms okD(1) by simp
  moreover have dev: "lu_device_id ((ax_luns e)[i := f (ax_luns e ! i)] ! j) = lu_device_id (ax_luns e ! j)" for j
    using assms(4) okD(1) i by (cases "i = j") (simp_all add: nth_list_update)
  ultimately show ?thesis
    using okD assms unfolding luns_ok_def
    by (auto simp: nth_list_update dev)
qed

lemma luns_ok_Bind:
  assumes "luns_ok e" "unat lun < 16" "lu_state (ax_luns e ! unat lun) \<noteq> Lun_Empty"
  shows "luns_ok (BindCreateOperationLocked lun operation e)"
  unfolding BindCreateOperationLocked_def
  using luns_okD(2) [OF assms(1,2)] assms by (intro luns_ok_update) (auto simp: lun_ok_def)

lemma SelectAvailableLun_Ok:
  assumes "SelectAvailableLun size_bytes e = Ok index" and "luns_ok e" and "disk_size_ok size_bytes"
  shows "index < 16 \<and> lu_state (ax_luns e ! index) = Lun_Empty
    \<and> used_bytes (ax_luns e) + unat size_bytes \<le> 536870912 \<and> \<not> ax_adapter_stopping e"
proof -
  have "unat (kMaximumTotalDiskBytes - size_bytes) = 536870912 - unat size_bytes"
    using assms(3) by (simp add: unat_sub word_le_nat_alt disk_size_ok_def)
  then have "ax_total_allocated_bytes e > kMaximumTotalDiskBytes - size_bytes \<longleftrightarrow>
      536870912 < used_bytes (ax_luns e) + unat size_bytes"
    using luns_okD(4) [OF assms(2)] assms(3)
    by (auto simp: word_less_nat_alt disk_size_ok_def)
  then show ?thesis
    using assms(1) luns_okD(1) [OF assms(2)]
    by (auto simp: SelectAvailableLun_def find_index_Some split: if_splits option.splits)
qed

lemma CommitNewLun_Ok:
  assumes "CommitNewLun request i p e = Ok (device_id, e')"
  shows "\<not> ax_adapter_stopping e \<and> lu_state (ax_luns e ! i) = Lun_Empty
    \<and> ax_next_device_id e \<noteq> 0 \<and> device_id = ax_next_device_id e
    \<and> ax_next_device_id e' = ax_next_device_id e + 1
    \<and> ax_luns e' = (ax_luns e)[i := (ax_luns e ! i)\<lparr>lu_device_id := device_id,
        lu_lun := word_of_nat i, lu_media_kind := cq_media_kind request,
        lu_requested_drive_letter := cq_requested_drive_letter request,
        lu_size_bytes := cq_size_bytes request, lu_create_operation_id := 0,
        lu_backing_store := Some p, lu_active_requests := 0, lu_no_active_requests := True,
        lu_state := Lun_Online\<rparr>]
    \<and> ax_total_allocated_bytes e' = ax_total_allocated_bytes e + cq_size_bytes request
    \<and> ax_operations e' = ax_operations e \<and> ax_next_operation_id e' = ax_next_operation_id e
    \<and> ax_management_busy e' = ax_management_busy e \<and> ax_management_idle e' = ax_management_idle e
    \<and> ax_adapter_stopping e' = ax_adapter_stopping e \<and> ax_signature e' = ax_signature e
    \<and> ax_adapter_instance e' = ax_adapter_instance e \<and> ax_management_worker e' = ax_management_worker e"
  using assms by (auto simp: CommitNewLun_def Let_def update_lun_def split: if_splits)

lemma luns_ok_Commit:
  assumes ok: "luns_ok e" and i: "i < 16" and size: "disk_size_ok (cq_size_bytes request)"
    and room: "used_bytes (ax_luns e) + unat (cq_size_bytes request) \<le> 536870912"
    and run: "CommitNewLun request i p e = Ok (device_id, e')"
  shows "luns_ok e'"
proof -
  note okD = luns_okD [OF ok]
  note eff = CommitNewLun_Ok [OF run]
  have empty: "lu_size_bytes (ax_luns e ! i) = 0" "lu_device_id (ax_luns e ! i) = 0"
    using okD(2) [OF i] eff by (auto simp: lun_ok_def)
  have "used_bytes (ax_luns e') = used_bytes (ax_luns e) + unat (cq_size_bytes request)"
    using used_bytes_update [of i "ax_luns e" "ax_luns e' ! i"] eff okD(1) i empty by simp
  moreover have "unat (ax_total_allocated_bytes e + cq_size_bytes request) =
      used_bytes (ax_luns e) + unat (cq_size_bytes request)"
    using okD(4) room by (subst unat_add_lem [THEN iffD1]) auto
  moreover have "lun_ok (ax_next_device_id e + 1) j (ax_luns e' ! j)" if "j < 16" for j
    using okD(2) [OF that] eff okD(1) size i
    by (cases "i = j") (auto simp: lun_ok_def id_below_next id_below_Suc)
  moreover have fresh: "lu_device_id (ax_luns e ! j) \<noteq> ax_next_device_id e" if "j < 16" for j
    using okD(2) [OF that] eff by (auto simp: lun_ok_def split: if_splits)
  have "j = k" if "j < 16" "k < 16" "lu_device_id (ax_luns e' ! j) = lu_device_id (ax_luns e' ! k)"
    "lu_device_id (ax_luns e' ! j) \<noteq> 0" for j k
    using that okD(1) okD(3) [of j k] fresh [of j] fresh [of k] eff i
    by (simp add: nth_list_update split: if_splits)
  ultimately show ?thesis
    using okD(1) eff room i unfolding luns_ok_def by auto
qed

lemma MarkLunStopping_Some:
  assumes "MarkLunStopping device_id e = Some (i, e')" and "luns_ok e"
  shows "i < 16 \<and> lu_state (ax_luns e ! i) = Lun_Online \<and> lu_device_id (ax_luns e ! i) = device_id
    \<and> e' = update_lun i (\<lambda>l. l\<lparr>lu_state := Lun_Stopping\<rparr>) e \<and> luns_ok e'"
proof -
  from assms have i: "i < 16" "lu_state (ax_luns e ! i) = Lun_Online"
      "lu_device_id (ax_luns e ! i) = device_id"
    and e': "e' = update_lun i (\<lambda>l. l\<lparr>lu_state := Lun_Stopping\<rparr>) e"
    by (auto simp: MarkLunStopping_def find_index_Some luns_okD(1) split: option.splits)
  have "luns_ok e'"
    unfolding e' using luns_okD(2) [OF assms(2) i(1)] i assms(2)
    by (intro luns_ok_update) (auto simp: lun_ok_def)
  with i e' show ?thesis by simp
qed

lemma luns_ok_Detach:
  assumes "luns_ok e" "i < 16" "lu_active_requests (ax_luns e ! i) = 0"
  shows "luns_ok (snd (DetachBackingStore i device_id e))"
  using luns_okD(2) [OF assms(1,2)] assms
  by (auto simp: DetachBackingStore_def Let_def lun_ok_def split: if_splits intro!: luns_ok_update)

lemma luns_ok_Finalize:
  assumes ok: "luns_ok e" and i: "i < 16" and idle: "lu_active_requests (ax_luns e ! i) = 0"
  shows "luns_ok (FinalizeRemovalLocked i e)"
proof -
  note okD = luns_okD [OF ok]
  let ?sz = "lu_size_bytes (ax_luns e ! i)"
  have le: "?sz \<le> ax_total_allocated_bytes e"
    using used_bytes_member [of i "ax_luns e"] okD i by (simp add: word_le_nat_alt)
  have total: "unat (ax_total_allocated_bytes e - ?sz) = used_bytes (ax_luns e) - unat ?sz"
    using le okD(4) by (simp add: unat_sub)
  have used: "used_bytes (ax_luns (FinalizeRemovalLocked i e)) + unat ?sz = used_bytes (ax_luns e)"
    using used_bytes_update [of i "ax_luns e"] okD(1) i
    by (simp add: FinalizeRemovalLocked_def Let_def)
  show ?thesis
    unfolding luns_ok_def
  proof (intro conjI allI impI)
    fix j assume "j < kMaximumDiskCount"
    then show "lun_ok (ax_next_device_id (FinalizeRemovalLocked i e)) j (ax_luns (FinalizeRemovalLocked i e) ! j)"
      using okD(2) [of j] okD(1) idle i
      by (cases "i = j") (auto simp: FinalizeRemovalLocked_def Let_def lun_ok_def)
  next
    show "unat (ax_total_allocated_bytes (FinalizeRemovalLocked i e)) =
        used_bytes (ax_luns (FinalizeRemovalLocked i e))"
      using used total le by (simp add: FinalizeRemovalLocked_def Let_def)
    show "used_bytes (ax_luns (FinalizeRemovalLocked i e)) \<le> unat kMaximumTotalDiskBytes"
      using used okD(5) by simp
  qed (use okD(1,3) i in \<open>auto simp: FinalizeRemovalLocked_def Let_def nth_list_update split: if_splits\<close>)
qed

lemma luns_ok_MarkAll:
  assumes "luns_ok e" shows "luns_ok (MarkAllLunsStopping e)"
proof -
  have "used_bytes (ax_luns (MarkAllLunsStopping e)) = used_bytes (ax_luns e)"
    by (simp add: MarkAllLunsStopping_def used_bytes_def o_def if_distrib cong: if_cong)
  with luns_okD [OF assms] show ?thesis
    unfolding luns_ok_def by (auto simp: MarkAllLunsStopping_def lun_ok_def split: if_splits)
qed

lemma AcquireLunIo_Some:
  assumes "AcquireLunIo srb e = Some (i, view, e')"
  shows "i = unat (sb_lun srb) \<and> i < 16 \<and> lu_state (ax_luns e ! i) = Lun_Online
    \<and> lu_backing_store (ax_luns e ! i) = Some (lv_backing_store view)
    \<and> lv_size_bytes view = lu_size_bytes (ax_luns e ! i)
    \<and> lv_media_kind view = lu_media_kind (ax_luns e ! i)
    \<and> lv_device_id view = lu_device_id (ax_luns e ! i)
    \<and> e' = update_lun i (\<lambda>l. l\<lparr>lu_active_requests := lu_active_requests l + 1,
        lu_no_active_requests :=
          (if lu_active_requests l = 0 then False else lu_no_active_requests l)\<rparr>) e"
  using assms by (auto simp: AcquireLunIo_def Let_def split: if_splits option.splits)

lemma luns_ok_Acquire:
  assumes run: "AcquireLunIo srb e = Some (i, view, e')" and ok: "luns_ok e"
    and room: "lu_active_requests (ax_luns e ! i) + 1 \<noteq> 0"
  shows "luns_ok e'"
  using AcquireLunIo_Some [OF run] luns_okD(2) [OF ok, of i] ok room
  by (auto simp: lun_ok_def intro!: luns_ok_update)

lemma luns_ok_Release:
  assumes "luns_ok e" "i < 16"
  shows "luns_ok (ReleaseLunIo i e)"
  using luns_okD(2) [OF assms] assms
  by (auto simp: ReleaseLunIo_def lun_ok_def split: if_splits intro!: luns_ok_update)

lemma luns_ok_Initialize: "length (ax_luns e) = 16 \<Longrightarrow> ax_total_allocated_bytes e = 0 \<Longrightarrow>
  (\<And>i. i < 16 \<Longrightarrow> ax_luns e ! i = zero_lun) \<Longrightarrow> luns_ok (LunStore_Initialize e)"
  by (auto simp: luns_ok_def LunStore_Initialize_def lun_ok_def zero_lun_def used_bytes_def
      o_def intro!: order_trans [OF eq_imp_le [OF sum_list_eq_0_iff [THEN iffD2]]])

end
