(* ===== verification/Driver_Requests.thy ===== *)
theory Driver_Requests
  imports Driver_Storage
begin

text \<open>
  driver/src/management/control_request.h and control_request.cpp: the control envelope of an
  \<open>IOCTL_SCSI_MINIPORT\<close> request, the validation of its payload and the writing of responses, on
  the bytes of the shared buffer. A \<open>ControlRequest\<close> is a view of its request block: the envelope
  is decoded from the buffer where the code dereferences \<open>ioControl\<close>, and \<open>payload\<close> is what follows
  it. The driver's encoders and decoders are those of theory Wire, which is the same ABI.

  The kernel copies user buffers in and out (METHOD_BUFFERED), so the bytes do not change while
  the driver works on them.
\<close>

section \<open>The envelope\<close>

definition srb_data :: "srb \<Rightarrow> u8 list" where
  "srb_data b = (case sb_data_buffer b of None \<Rightarrow> [] | Some d \<Rightarrow> d)"

definition io_control :: "srb \<Rightarrow> srb_io_control" where
  "io_control b = dec_srb_io_control (srb_data b)"

definition payload :: "srb \<Rightarrow> u8 list" where
  "payload b = drop (size_of srb_io_control_type) (srb_data b)"

definition FromSrb :: "srb \<Rightarrow> bool" where
  "FromSrb b =
     (if sb_data_buffer b = None \<or> sb_data_transfer_length b < word_of_nat (size_of srb_io_control_type)
      then False
      else let envelope = io_control b in
        \<not> (srb_header_length envelope \<noteq> word_of_nat (size_of srb_io_control_type)
           \<or> srb_signature envelope \<noteq> SRB_SIGNATURE
           \<or> srb_length envelope > sb_data_transfer_length b - word_of_nat (size_of srb_io_control_type)))"

definition ReadAndValidateRequestHeader ::
  "u8 list \<Rightarrow> u32 \<Rightarrow> nat \<Rightarrow> u32 \<Rightarrow> i32 \<times> request_header" where
  "ReadAndValidateRequestHeader payload_bytes payload_length required_length expected_operation =
     (if unat payload_length < required_length \<or> required_length < size_of request_header_type
      then (STATUS_BUFFER_TOO_SMALL, zero_request_header)
      else let header = dec_request_header payload_bytes in
        if rq_struct_size header \<noteq> word_of_nat required_length
           \<or> rq_protocol_version header \<noteq> PROTOCOL_VERSION
           \<or> rq_operation header \<noteq> expected_operation \<or> rq_flags header \<noteq> 0
        then (STATUS_INVALID_PARAMETER, header)
        else (STATUS_SUCCESS, header))"

definition MakeResponseHeader :: "nat \<Rightarrow> u32 \<Rightarrow> i32 \<Rightarrow> u64 \<Rightarrow> response_header" where
  "MakeResponseHeader structure_size operation status correlation_id =
     \<lparr>rs_struct_size = word_of_nat structure_size, rs_protocol_version = PROTOCOL_VERSION,
      rs_operation = operation, rs_status = status, rs_correlation_id = correlation_id\<rparr>"

text \<open>\<open>ReturnCode\<close> and \<open>Length\<close> are the last two fields of the envelope.\<close>

definition set_return_code :: "u32 \<Rightarrow> srb \<Rightarrow> srb" where
  "set_return_code code b = b\<lparr>sb_data_buffer := map_option (write_at 20 (u32_bytes code)) (sb_data_buffer b)\<rparr>"

definition PrepareCompletion :: "i32 \<Rightarrow> nat \<Rightarrow> srb \<Rightarrow> srb" where
  "PrepareCompletion status payload_length b =
     (let b1 = set_return_code status b in b1\<lparr>
        sb_data_buffer := map_option (write_at 24 (u32_bytes (word_of_nat payload_length))) (sb_data_buffer b1),
        sb_data_transfer_length := word_of_nat (size_of srb_io_control_type + payload_length),
        sb_scsi_status := SCSISTAT_GOOD, sb_srb_status := SRB_STATUS_SUCCESS\<rparr>)"

text \<open>The response is given by its bytes; their number is \<open>sizeof(Response)\<close>.\<close>

definition WriteResponse :: "u8 list \<Rightarrow> i32 \<Rightarrow> srb \<Rightarrow> srb" where
  "WriteResponse response status b =
     (if unat (srb_length (io_control b)) < length response
      then PrepareCompletion STATUS_BUFFER_TOO_SMALL 0 b
      else PrepareCompletion status (length response) (b\<lparr>sb_data_buffer :=
        map_option (write_at (size_of srb_io_control_type) response) (sb_data_buffer b)\<rparr>))"

definition WriteError :: "u32 \<Rightarrow> i32 \<Rightarrow> u64 \<Rightarrow> srb \<Rightarrow> srb" where
  "WriteError operation status correlation_id b =
     (if unat (srb_length (io_control b)) \<ge> size_of response_header_type
      then WriteResponse (enc_response_header
        (MakeResponseHeader (size_of response_header_type) operation status correlation_id)) status b
      else PrepareCompletion status 0 b)"

section \<open>Requests\<close>

text \<open>
  \<open>ReadRequest\<close>: the structure is copied only after the common validation; on error the caller's
  value stays, and the header that was read is reported.
\<close>

definition ReadRequest ::
  "(u8 list \<Rightarrow> 'q) \<Rightarrow> nat \<Rightarrow> u32 \<Rightarrow> u8 list \<Rightarrow> u32 \<Rightarrow> 'q \<Rightarrow> i32 \<times> 'q \<times> request_header" where
  "ReadRequest dec request_size expected_operation payload_bytes payload_length request =
     (case ReadAndValidateRequestHeader payload_bytes payload_length request_size expected_operation of
        (status, header) \<Rightarrow>
          (status, if NT_SUCCESS status then dec payload_bytes else request, header))"

definition create_parameters_ok :: "create_request \<Rightarrow> bool" where
  "create_parameters_ok request \<longleftrightarrow>
     \<not> (cq_size_bytes request < kMinimumDiskSize \<or> cq_size_bytes request > kMaximumDiskSize
        \<or> cq_size_bytes request mod ucast kLogicalSectorSize \<noteq> 0
        \<or> cq_logical_sector_size request \<noteq> kLogicalSectorSize
        \<or> (cq_media_kind request \<noteq> media_code Media_Fixed
           \<and> cq_media_kind request \<noteq> media_code Media_Removable)
        \<or> cq_requested_drive_letter request < 65 \<or> cq_requested_drive_letter request > 90
        \<or> cq_reserved16 request \<noteq> 0 \<or> cq_reserved32 request \<noteq> 0)"

definition ValidateCreateRequest :: "u8 list \<Rightarrow> u32 \<Rightarrow> i32 \<times> create_request" where
  "ValidateCreateRequest payload_bytes payload_length =
     (case ReadRequest dec_create_request (size_of create_request_type)
         (operation_code Create_Disk) payload_bytes payload_length zero_create_request of
        (status, request, header) \<Rightarrow>
          if \<not> NT_SUCCESS status then (status, request\<lparr>cq_header := header\<rparr>)
          else if \<not> create_parameters_ok request then (STATUS_INVALID_PARAMETER, request)
          else (STATUS_SUCCESS, request))"

definition ValidateDeleteRequest :: "u8 list \<Rightarrow> u32 \<Rightarrow> i32 \<times> delete_request" where
  "ValidateDeleteRequest payload_bytes payload_length =
     (case ReadRequest dec_delete_request (size_of delete_request_type)
         (operation_code Delete_Disk) payload_bytes payload_length zero_delete_request of
        (status, request, header) \<Rightarrow>
          if \<not> NT_SUCCESS status then (status, request\<lparr>dq_header := header\<rparr>)
          else if dq_device_id request = 0 \<or> dq_reserved request \<noteq> 0
          then (STATUS_INVALID_PARAMETER, request)
          else (STATUS_SUCCESS, request))"

definition WriteCreateResponse :: "create_request \<Rightarrow> i32 \<Rightarrow> u32 \<Rightarrow> u8 \<Rightarrow> srb \<Rightarrow> srb" where
  "WriteCreateResponse request status device_id lun =
     WriteResponse (enc_create_response \<lparr>cr_header = MakeResponseHeader (size_of create_response_type)
         (operation_code Create_Disk) status (rq_correlation_id (cq_header request)),
       cr_device_id = device_id, cr_path_id = 0, cr_target_id = 0, cr_lun = lun,
       cr_reserved = 0\<rparr>) status"

definition WriteDeleteResponse :: "delete_request \<Rightarrow> i32 \<Rightarrow> srb \<Rightarrow> srb" where
  "WriteDeleteResponse request status =
     WriteResponse (enc_response_header (MakeResponseHeader (size_of response_header_type)
       (operation_code Delete_Disk) status (rq_correlation_id (dq_header request)))) status"

section \<open>Answers stay within the request\<close>

text \<open>
  \<open>answered b b'\<close>: the buffer still has its length, what lies behind the control length the
  request came with is untouched, what is returned lies before it, and nothing else of the
  request block but its statuses has changed.
\<close>

definition control_end :: "srb \<Rightarrow> nat" where
  "control_end b = 28 + unat (srb_length (io_control b))"

definition answered :: "srb \<Rightarrow> srb \<Rightarrow> bool" where
  "answered b b' \<longleftrightarrow> length (srb_data b') = length (srb_data b)
     \<and> drop (control_end b) (srb_data b') = drop (control_end b) (srb_data b)
     \<and> unat (sb_data_transfer_length b') \<le> control_end b
     \<and> (sb_data_buffer b' = None \<longleftrightarrow> sb_data_buffer b = None)
     \<and> b' = b\<lparr>sb_data_buffer := sb_data_buffer b',
         sb_data_transfer_length := sb_data_transfer_length b',
         sb_scsi_status := sb_scsi_status b', sb_srb_status := sb_srb_status b'\<rparr>"

lemma srb_data_Some: "sb_data_buffer b = Some d \<Longrightarrow> srb_data b = d"
  by (simp add: srb_data_def)

lemma FromSrb_iff:
  "FromSrb b \<longleftrightarrow> sb_data_buffer b \<noteq> None \<and> 28 \<le> unat (sb_data_transfer_length b)
     \<and> srb_header_length (io_control b) = 28 \<and> srb_signature (io_control b) = SRB_SIGNATURE
     \<and> control_end b \<le> unat (sb_data_transfer_length b)"
proof (cases "28 \<le> unat (sb_data_transfer_length b)")
  case True
  then have "unat (sb_data_transfer_length b - 28) = unat (sb_data_transfer_length b) - 28"
    by (simp add: unat_sub word_le_nat_alt)
  with True show ?thesis
    by (auto simp: FromSrb_def Let_def control_end_def word_less_nat_alt word_le_nat_alt)
qed (simp add: FromSrb_def word_less_nat_alt)

text \<open>A control request within a well-formed request block: what every handler is given.\<close>

definition control_ok :: "srb \<Rightarrow> bool" where
  "control_ok b \<longleftrightarrow> FromSrb b \<and> srb_wf b"

lemma control_ok_buffer:
  assumes "control_ok b"
  shows "sb_data_buffer b = Some (srb_data b)" and "control_end b \<le> length (srb_data b)"
    and "control_end b \<le> unat (sb_data_transfer_length b)" and "28 \<le> length (srb_data b)"
    and "control_end b < 2 ^ 32"
proof -
  from assms show facts: "sb_data_buffer b = Some (srb_data b)" "control_end b \<le> length (srb_data b)"
      "control_end b \<le> unat (sb_data_transfer_length b)"
    unfolding control_ok_def FromSrb_iff srb_wf_def by (auto simp: srb_data_Some split: option.splits)
  from facts(2) show "28 \<le> length (srb_data b)" by (simp add: control_end_def)
  from facts(3) show "control_end b < 2 ^ 32"
    using unsigned_less [of "sb_data_transfer_length b", where 'a = nat] by simp
qed

lemma drop_write_at_before: "off + length bs \<le> k \<Longrightarrow> off + length bs \<le> length d \<Longrightarrow>
  drop k (write_at off bs d) = drop k d"
  by (simp add: write_at_def)

lemma answered_Prepare:
  assumes ok: "control_ok b" and n: "28 + n \<le> control_end b"
    and d': "length d' = length (srb_data b)"
      "drop (control_end b) d' = drop (control_end b) (srb_data b)"
  shows "answered b (PrepareCompletion status n (b\<lparr>sb_data_buffer := Some d'\<rparr>))"
proof -
  have ge: "28 \<le> control_end b" by (simp add: control_end_def)
  have len: "unat (word_of_nat (28 + n) :: u32) = 28 + n"
    using control_ok_buffer(5) [OF ok] n
    by (simp add: unsigned_of_nat take_bit_nat_eq_self del: of_nat_add)
  obtain d where d: "sb_data_buffer b = Some d" "srb_data b = d"
    using control_ok_buffer(1) [OF ok] by blast
  from control_ok_buffer(4) [OF ok] ge n d' d len show ?thesis
    by (simp add: answered_def PrepareCompletion_def Let_def set_return_code_def srb_data_Some
        drop_write_at_before del: of_nat_add)
qed

lemma answered_Prepare_same:
  assumes ok: "control_ok b" shows "answered b (PrepareCompletion status 0 b)"
proof -
  obtain d where d: "sb_data_buffer b = Some d" "srb_data b = d"
    using control_ok_buffer(1) [OF ok] by blast
  then have "b\<lparr>sb_data_buffer := Some d\<rparr> = b" by simp
  with answered_Prepare [OF ok, of 0 d status] d show ?thesis
    by (simp add: control_end_def)
qed

lemma answered_WriteResponse:
  assumes ok: "control_ok b" shows "answered b (WriteResponse response status b)"
proof (cases "unat (srb_length (io_control b)) < length response")
  case False
  obtain d where d: "sb_data_buffer b = Some d" "srb_data b = d"
    using control_ok_buffer(1) [OF ok] by blast
  with False control_ok_buffer(2) [OF ok]
    answered_Prepare [OF ok, of "length response" "write_at 28 response d" status]
  show ?thesis
    by (simp add: WriteResponse_def drop_write_at_before control_end_def)
qed (simp add: WriteResponse_def answered_Prepare_same [OF ok])

lemma answered_WriteError:
  assumes ok: "control_ok b" shows "answered b (WriteError operation status corr b)"
  unfolding WriteError_def
  by (simp add: answered_WriteResponse [OF ok] answered_Prepare_same [OF ok])

lemmas answered_intros = answered_WriteResponse answered_WriteError

lemma create_parameters_size: "create_parameters_ok q \<Longrightarrow> disk_size_ok (cq_size_bytes q)"
  unfolding create_parameters_ok_def disk_size_ok_def
  by (simp add: word_less_nat_alt dvd_eq_mod_eq_0 kLogicalSectorSize_def unat_mod linorder_not_less
      flip: unat_eq_zero)

end
