(* ===== verification/Driver_Management.thy ===== *)
theory Driver_Management
  imports Driver_Requests
begin

text \<open>
  driver/src/management/management_controller.cpp: reserved operations, admission of mutations and
  the publication of their results. Every function here is one critical section under \<open>LunLock\<close>
  (or a helper of one), on the adapter extension and, where it writes a response, the request
  block; tracing and logging have no effect on either. \<open>operations_ok\<close> is the invariant of the
  operation table. What the code does between the critical sections is in theory Driver_Machine.
\<close>

section \<open>Commands and results\<close>

record operation_result =
  rt_adapter_instance :: u64
  rt_operation_id :: u64
  rt_mutation :: u32
  rt_state :: u32
  rt_status :: i32
  rt_device_id :: u32
  rt_lun :: u8

record mutation_command =
  mc_operation :: operation
  mc_identity :: operation_request
  mc_create :: create_request
  mc_remove :: delete_request

definition IsReserved :: "mutation_command \<Rightarrow> bool" where
  "IsReserved c \<longleftrightarrow> mc_operation c = Create_Reserved \<or> mc_operation c = Delete_Reserved"

text \<open>The default case of \<open>Mutation\<close> is unreachable: \<open>Submit\<close> only builds the four mutations.\<close>

fun Mutation_of :: "operation \<Rightarrow> u32" where
  "Mutation_of Create_Disk = operation_code Create_Disk"
| "Mutation_of Create_Reserved = operation_code Create_Disk"
| "Mutation_of Delete_Disk = operation_code Delete_Disk"
| "Mutation_of Delete_Reserved = operation_code Delete_Disk"
| "Mutation_of _ = 0"

definition Mutation :: "mutation_command \<Rightarrow> u32" where
  "Mutation c = Mutation_of (mc_operation c)"

definition CorrelationId :: "mutation_command \<Rightarrow> u64" where
  "CorrelationId c = (if Mutation c = operation_code Create_Disk
     then rq_correlation_id (cq_header (mc_create c))
     else rq_correlation_id (dq_header (mc_remove c)))"

section \<open>The operation table\<close>

definition update_record ::
  "nat \<Rightarrow> (operation_record \<Rightarrow> operation_record) \<Rightarrow> adapter_extension \<Rightarrow> adapter_extension" where
  "update_record k f e = e\<lparr>ax_operations := (ax_operations e)[k := f (ax_operations e ! k)]\<rparr>"

definition CopyResultLocked :: "operation_record \<Rightarrow> adapter_extension \<Rightarrow> operation_result" where
  "CopyResultLocked r e = \<lparr>rt_adapter_instance = ax_adapter_instance e, rt_operation_id = op_id r,
     rt_mutation = op_mutation r, rt_state = op_state r, rt_status = op_result r,
     rt_device_id = op_device_id r, rt_lun = op_lun r\<rparr>"

definition FindOperationLocked :: "u64 \<Rightarrow> adapter_extension \<Rightarrow> nat option" where
  "FindOperationLocked ident e =
     (if ident = 0 then None else find_index (\<lambda>r. op_id r = ident) (ax_operations e))"

text \<open>The loop of \<open>ReserveOperation\<close>: a free slot ends it, pending work and live creates are kept.\<close>

definition never_evicted :: "operation_record \<Rightarrow> bool" where
  "never_evicted r \<longleftrightarrow> op_state r = state_code State_Pending
     \<or> (op_state r = state_code State_Succeeded \<and> op_mutation r = operation_code Create_Disk)"

fun select_record :: "nat \<Rightarrow> (nat \<times> u64) option \<Rightarrow> operation_record list \<Rightarrow> nat option" where
  "select_record k selected [] = map_option fst selected"
| "select_record k selected (candidate # rest) =
     (if op_id candidate = 0 then Some k
      else if never_evicted candidate then select_record (Suc k) selected rest
      else if (case selected of None \<Rightarrow> True | Some (_, oldest) \<Rightarrow> op_id candidate < oldest)
      then select_record (Suc k) (Some (k, op_id candidate)) rest
      else select_record (Suc k) selected rest)"

definition fresh_record :: "u64 \<Rightarrow> u32 \<Rightarrow> operation_record" where
  "fresh_record ident mutation = zero_record\<lparr>op_id := ident, op_mutation := mutation,
     op_state := state_code State_Reserved, op_result := STATUS_PENDING\<rparr>"

definition ReserveOperation ::
  "u32 \<Rightarrow> adapter_extension \<Rightarrow> i32 + (operation_result \<times> adapter_extension)" where
  "ReserveOperation mutation e =
     (if mutation \<noteq> operation_code Create_Disk \<and> mutation \<noteq> operation_code Delete_Disk
      then Err STATUS_INVALID_PARAMETER
      else if ax_adapter_stopping e then Err STATUS_DEVICE_NOT_READY
      else case select_record 0 None (ax_operations e) of
        None \<Rightarrow> Err STATUS_INSUFFICIENT_RESOURCES
      | Some k \<Rightarrow>
          if ax_next_operation_id e = 0 then Err STATUS_INSUFFICIENT_RESOURCES
          else let r = fresh_record (ax_next_operation_id e) mutation;
                   e' = update_record k (\<lambda>_. r)
                     (e\<lparr>ax_next_operation_id := ax_next_operation_id e + 1\<rparr>)
               in Ok (CopyResultLocked r e', e'))"

definition QueryOperation :: "u64 \<Rightarrow> u64 \<Rightarrow> adapter_extension \<Rightarrow> i32 + operation_result" where
  "QueryOperation inst operation e =
     (case FindOperationLocked operation e of
        None \<Rightarrow> Err STATUS_NOT_FOUND
      | Some k \<Rightarrow> if inst \<noteq> ax_adapter_instance e then Err STATUS_NOT_FOUND
          else Ok (CopyResultLocked (ax_operations e ! k) e))"

definition SnapshotState :: "adapter_extension \<Rightarrow> state_response \<Rightarrow> state_response" where
  "SnapshotState e response = SnapshotStateLocked e (response\<lparr>
     sr_adapter_instance := ax_adapter_instance e,
     sr_pending_operations := word_of_nat (length (filter (\<lambda>r. op_state r = state_code State_Pending)
       (ax_operations e)))\<rparr>)"

section \<open>Admission\<close>

definition BeginManagementLocked :: "adapter_extension \<Rightarrow> i32 + adapter_extension" where
  "BeginManagementLocked e =
     (if ax_adapter_stopping e then Err STATUS_DEVICE_NOT_READY
      else if ax_management_busy e then Err STATUS_DEVICE_BUSY
      else Ok (e\<lparr>ax_management_busy := True, ax_management_idle := False\<rparr>))"

definition EndManagementLocked :: "adapter_extension \<Rightarrow> adapter_extension" where
  "EndManagementLocked e = e\<lparr>ax_management_busy := False, ax_management_idle := True\<rparr>"

definition CloseAdmission :: "adapter_extension \<Rightarrow> adapter_extension" where
  "CloseAdmission e = e\<lparr>ax_adapter_stopping := True\<rparr>"

definition same_create_parameters :: "create_request \<Rightarrow> create_request \<Rightarrow> bool" where
  "same_create_parameters a b \<longleftrightarrow>
     \<not> (cq_size_bytes a \<noteq> cq_size_bytes b \<or> cq_media_kind a \<noteq> cq_media_kind b
        \<or> cq_requested_drive_letter a \<noteq> cq_requested_drive_letter b
        \<or> cq_logical_sector_size a \<noteq> cq_logical_sector_size b)"

datatype binding = Replay operation_result | Accepted adapter_extension

definition BindOperationLocked :: "mutation_command \<Rightarrow> adapter_extension \<Rightarrow> i32 + binding" where
  "BindOperationLocked c e =
     (case FindOperationLocked (oq_operation_id (mc_identity c)) e of
        None \<Rightarrow> Err STATUS_NOT_FOUND
      | Some k \<Rightarrow> let r = ax_operations e ! k in
          if oq_adapter_instance (mc_identity c) \<noteq> ax_adapter_instance e then Err STATUS_NOT_FOUND
          else if op_mutation r \<noteq> Mutation c then Err STATUS_INVALID_PARAMETER
          else if op_state r \<noteq> state_code State_Reserved
          then if Mutation c = operation_code Create_Disk
            then if \<not> same_create_parameters (op_create r) (mc_create c)
              then Err STATUS_INVALID_PARAMETER else Ok (Replay (CopyResultLocked r e))
            else if dq_device_id (op_delete r) \<noteq> dq_device_id (mc_remove c)
              then Err STATUS_INVALID_PARAMETER else Ok (Replay (CopyResultLocked r e))
          else Ok (Accepted (update_record k (\<lambda>r. r\<lparr>
            op_create := mc_create c, op_delete := mc_remove c,
            op_device_id := (if Mutation c = operation_code Delete_Disk
              then dq_device_id (mc_remove c) else op_device_id r),
            op_state := state_code State_Pending\<rparr>) e)))"

section \<open>Responses\<close>

definition operation_response_of :: "u32 \<Rightarrow> operation_result \<Rightarrow> u64 \<Rightarrow> operation_response" where
  "operation_response_of code result correlation = \<lparr>
     or_header = MakeResponseHeader (size_of operation_response_type) code STATUS_SUCCESS correlation,
     or_adapter_instance = rt_adapter_instance result, or_operation_id = rt_operation_id result,
     or_mutation = rt_mutation result, or_state = rt_state result,
     or_result_status = rt_status result, or_device_id = rt_device_id result,
     or_path_id = 0, or_target_id = 0, or_lun = rt_lun result, or_reserved8 = 0, or_reserved32 = 0\<rparr>"

definition WriteOperationResponse :: "operation_result \<Rightarrow> u64 \<Rightarrow> srb \<Rightarrow> srb" where
  "WriteOperationResponse result correlation b = WriteResponse (enc_operation_response
     (operation_response_of (srb_control_code (io_control b)) result correlation)) STATUS_SUCCESS b"

definition FailOperationLocked ::
  "u64 \<Rightarrow> i32 \<Rightarrow> u64 \<Rightarrow> srb \<Rightarrow> adapter_extension \<Rightarrow> srb \<times> adapter_extension" where
  "FailOperationLocked ident status correlation b e =
     (case FindOperationLocked ident e of
        None \<Rightarrow> (WriteError (srb_control_code (io_control b)) STATUS_NOT_FOUND correlation b, e)
      | Some k \<Rightarrow> let e' = update_record k (\<lambda>r. r\<lparr>op_state := state_code State_Failed,
            op_result := status\<rparr>) e
          in (WriteOperationResponse (CopyResultLocked (ax_operations e' ! k) e') correlation b, e'))"

section \<open>Submission\<close>

text \<open>
  \<open>PrepareSubmission\<close>: \<open>Err\<close> is a request that is answered at once, \<open>Ok\<close> one that is published as
  pending and may be queued.
\<close>

definition PrepareSubmission ::
  "mutation_command \<Rightarrow> srb \<Rightarrow> adapter_extension \<Rightarrow> (srb \<times> adapter_extension) + (srb \<times> adapter_extension)" where
  "PrepareSubmission c b e =
     (let code = operation_code (mc_operation c); correlation = CorrelationId c;
          pending = (set_return_code STATUS_PENDING b)\<lparr>sb_srb_status := SRB_STATUS_PENDING\<rparr>
      in case BeginManagementLocked e of
        Err status \<Rightarrow> Err (WriteError code status correlation b, e)
      | Ok e1 \<Rightarrow>
          if IsReserved c
          then case BindOperationLocked c e1 of
            Err status \<Rightarrow> Err (WriteError code status correlation b, EndManagementLocked e1)
          | Ok (Replay result) \<Rightarrow>
              Err (WriteOperationResponse result correlation b, EndManagementLocked e1)
          | Ok (Accepted e2) \<Rightarrow> Ok (pending, e2)
          else Ok (pending, e1))"

text \<open>The second half of \<open>Submit\<close>, when the work item could not be queued.\<close>

definition SubmitFailed :: "mutation_command \<Rightarrow> srb \<Rightarrow> adapter_extension \<Rightarrow> srb \<times> adapter_extension" where
  "SubmitFailed c b e =
     (let (b', e') = (if IsReserved c
        then FailOperationLocked (oq_operation_id (mc_identity c)) STATUS_INSUFFICIENT_RESOURCES
          (CorrelationId c) b e
        else (WriteError (operation_code (mc_operation c)) STATUS_INSUFFICIENT_RESOURCES
          (CorrelationId c) b, e))
      in (b', EndManagementLocked e'))"

section \<open>Removal and results\<close>

definition MarkCreatesDeletedLocked :: "u32 \<Rightarrow> adapter_extension \<Rightarrow> adapter_extension" where
  "MarkCreatesDeletedLocked device_id e = e\<lparr>ax_operations := map (\<lambda>r.
     if op_mutation r = operation_code Create_Disk \<and> op_device_id r = device_id
        \<and> op_state r = state_code State_Succeeded
     then r\<lparr>op_state := state_code State_Deleted\<rparr> else r) (ax_operations e)\<rparr>"

definition FinalizeDiskRemoval :: "nat \<Rightarrow> u32 \<Rightarrow> adapter_extension \<Rightarrow> adapter_extension" where
  "FinalizeDiskRemoval i device_id e = FinalizeRemovalLocked i (MarkCreatesDeletedLocked device_id e)"

definition SnapshotPendingOperation ::
  "operation_request \<Rightarrow> srb \<Rightarrow> adapter_extension \<Rightarrow> srb + operation_record" where
  "SnapshotPendingOperation identity b e =
     (let not_found = Err (WriteError (srb_control_code (io_control b)) STATUS_NOT_FOUND
        (rq_correlation_id (oq_header identity)) b)
      in case FindOperationLocked (oq_operation_id identity) e of
        None \<Rightarrow> not_found
      | Some k \<Rightarrow> let r = ax_operations e ! k in
          if oq_adapter_instance identity \<noteq> ax_adapter_instance e
             \<or> op_state r \<noteq> state_code State_Pending
          then not_found else Ok r)"

definition PublishOperationResult ::
  "operation_record \<Rightarrow> u64 \<Rightarrow> srb \<Rightarrow> adapter_extension \<Rightarrow> srb \<times> adapter_extension" where
  "PublishOperationResult snapshot correlation b e =
     (case FindOperationLocked (op_id snapshot) e of
        None \<Rightarrow> (WriteError (srb_control_code (io_control b)) STATUS_NOT_FOUND correlation b, e)
      | Some k \<Rightarrow>
          let e1 = (if NT_SUCCESS (op_result snapshot) \<and> op_mutation snapshot = operation_code Create_Disk
                then BindCreateOperationLocked (op_lun snapshot) (op_id snapshot) e else e);
              e2 = update_record k (\<lambda>_. snapshot) e1
          in (WriteOperationResponse (CopyResultLocked snapshot e2) correlation b, e2))"

end
