(* ===== verification/Driver_Control.thy ===== *)
theory Driver_Control
  imports Driver_Management
begin

text \<open>
  driver/src/management/operation_state.cpp, disk_operations.cpp, management.cpp and the release
  build of diagnostics.cpp: the handlers of the control codes and their dispatch. A handler works
  on its own request block and enters \<open>LunLock\<close> once, so a whole handler is one function; only a
  mutation that was accepted continues, in the worker (theory Driver_Machine).
\<close>

section \<open>Handlers\<close>

datatype disposition =
    Io_Complete srb adapter_extension
  | Io_Pending srb mutation_command adapter_extension

definition ReadOperationRequest ::
  "(u8 list \<Rightarrow> 'q) \<Rightarrow> nat \<Rightarrow> 'q \<Rightarrow> srb \<Rightarrow> srb + ('q \<times> request_header)" where
  "ReadOperationRequest dec request_size request b =
     (let code = srb_control_code (io_control b); len = srb_length (io_control b)
      in case ReadRequest dec request_size code (payload b) len request of
        (status, q, header) \<Rightarrow>
          let status' = (if NT_SUCCESS status \<and> unat len < size_of operation_response_type
            then STATUS_BUFFER_TOO_SMALL else status)
          in if \<not> NT_SUCCESS status'
             then Err (WriteError code status' (rq_correlation_id header) b)
             else Ok (q, header))"

definition zero_reserve_request :: reserve_request where
  "zero_reserve_request = \<lparr>rr_header = zero_request_header, rr_mutation = 0, rr_reserved = 0\<rparr>"

definition HandleReserveOperation :: "srb \<Rightarrow> adapter_extension \<Rightarrow> srb \<times> adapter_extension" where
  "HandleReserveOperation b e =
     (case ReadOperationRequest dec_reserve_request (size_of reserve_request_type)
         zero_reserve_request b of
        Err b' \<Rightarrow> (b', e)
      | Ok (request, header) \<Rightarrow>
          (case (if rr_reserved request = 0 then ReserveOperation (rr_mutation request) e
              else Err STATUS_INVALID_PARAMETER) of
            Err status \<Rightarrow> (WriteError (operation_code Reserve) status (rq_correlation_id header) b, e)
          | Ok (result, e') \<Rightarrow> (WriteOperationResponse result (rq_correlation_id header) b, e')))"

definition HandleQueryOperation :: "srb \<Rightarrow> adapter_extension \<Rightarrow> srb" where
  "HandleQueryOperation b e =
     (case ReadOperationRequest dec_operation_request (size_of operation_request_type)
         zero_operation_request b of
        Err b' \<Rightarrow> b'
      | Ok (request, header) \<Rightarrow>
          (case QueryOperation (oq_adapter_instance request) (oq_operation_id request) e of
            Err status \<Rightarrow> WriteError (operation_code Query_Result) status (rq_correlation_id header) b
          | Ok result \<Rightarrow> WriteOperationResponse result (rq_correlation_id header) b))"

definition zero_reserved_create_request :: reserved_create_request where
  "zero_reserved_create_request = \<lparr>rc_operation = zero_operation_request, rc_size_bytes = 0,
     rc_logical_sector_size = 0, rc_media_kind = 0, rc_requested_drive_letter = 0,
     rc_reserved16 = 0, rc_reserved32 = 0\<rparr>"

definition zero_reserved_delete_request :: reserved_delete_request where
  "zero_reserved_delete_request = \<lparr>rd_operation = zero_operation_request, rd_device_id = 0,
     rd_reserved = 0\<rparr>"

text \<open>The legacy request that a reserved one is validated as.\<close>

definition create_parameters_of :: "reserved_create_request \<Rightarrow> create_request" where
  "create_parameters_of request = \<lparr>
     cq_header = (oq_header (rc_operation request))\<lparr>
       rq_struct_size := word_of_nat (size_of create_request_type),
       rq_operation := operation_code Create_Disk\<rparr>,
     cq_size_bytes = rc_size_bytes request, cq_logical_sector_size = rc_logical_sector_size request,
     cq_media_kind = rc_media_kind request,
     cq_requested_drive_letter = rc_requested_drive_letter request,
     cq_reserved16 = rc_reserved16 request, cq_reserved32 = rc_reserved32 request\<rparr>"

definition delete_parameters_of :: "reserved_delete_request \<Rightarrow> delete_request" where
  "delete_parameters_of request = \<lparr>
     dq_header = (oq_header (rd_operation request))\<lparr>
       rq_struct_size := word_of_nat (size_of delete_request_type),
       rq_operation := operation_code Delete_Disk\<rparr>,
     dq_device_id = rd_device_id request, dq_reserved = rd_reserved request\<rparr>"

definition prepared :: "mutation_command \<Rightarrow> srb \<Rightarrow> adapter_extension \<Rightarrow> disposition" where
  "prepared c b e = (case PrepareSubmission c b e of
     Err (b', e') \<Rightarrow> Io_Complete b' e' | Ok (b', e') \<Rightarrow> Io_Pending b' c e')"

definition HandleReservedCreateControl :: "srb \<Rightarrow> adapter_extension \<Rightarrow> disposition" where
  "HandleReservedCreateControl b e =
     (case ReadOperationRequest dec_reserved_create_request (size_of reserved_create_request_type)
         zero_reserved_create_request b of
        Err b' \<Rightarrow> Io_Complete b' e
      | Ok (request, header) \<Rightarrow>
          (case ValidateCreateRequest (enc_create_request (create_parameters_of request))
              (word_of_nat (size_of create_request_type)) of
            (status, validated) \<Rightarrow>
              if \<not> NT_SUCCESS status
              then Io_Complete (WriteError (operation_code Create_Reserved) status
                (rq_correlation_id header) b) e
              else prepared \<lparr>mc_operation = Create_Reserved, mc_identity = rc_operation request,
                mc_create = validated, mc_remove = zero_delete_request\<rparr> b e))"

definition HandleReservedDeleteControl :: "srb \<Rightarrow> adapter_extension \<Rightarrow> disposition" where
  "HandleReservedDeleteControl b e =
     (case ReadOperationRequest dec_reserved_delete_request (size_of reserved_delete_request_type)
         zero_reserved_delete_request b of
        Err b' \<Rightarrow> Io_Complete b' e
      | Ok (request, header) \<Rightarrow>
          (case ValidateDeleteRequest (enc_delete_request (delete_parameters_of request))
              (word_of_nat (size_of delete_request_type)) of
            (status, validated) \<Rightarrow>
              if \<not> NT_SUCCESS status
              then Io_Complete (WriteError (operation_code Delete_Reserved) status
                (rq_correlation_id header) b) e
              else prepared \<lparr>mc_operation = Delete_Reserved, mc_identity = rd_operation request,
                mc_create = zero_create_request, mc_remove = validated\<rparr> b e))"

definition HandleListState :: "srb \<Rightarrow> adapter_extension \<Rightarrow> srb" where
  "HandleListState b e =
     (let len = srb_length (io_control b)
      in case ReadAndValidateRequestHeader (payload b) len (size_of request_header_type)
          (operation_code List_State) of
        (status, header) \<Rightarrow>
          let status' = (if NT_SUCCESS status \<and> unat len < size_of state_response_type
            then STATUS_BUFFER_TOO_SMALL else status)
          in if \<not> NT_SUCCESS status'
             then WriteError (operation_code List_State) status' (rq_correlation_id header) b
             else WriteResponse (enc_state_response (SnapshotState e \<lparr>
                 sr_header = MakeResponseHeader (size_of state_response_type)
                   (operation_code List_State) STATUS_SUCCESS (rq_correlation_id header),
                 sr_adapter_instance = 0, sr_allocated_bytes = 0, sr_disk_count = 0,
                 sr_pending_operations = 0, sr_disks = disk_table zero_disk_state []\<rparr>)) STATUS_SUCCESS b)"

definition HandleQueryVersion :: "srb \<Rightarrow> srb" where
  "HandleQueryVersion b =
     (let len = srb_length (io_control b)
      in case ReadAndValidateRequestHeader (payload b) len (size_of request_header_type)
          (operation_code Query_Version) of
        (validation, request) \<Rightarrow>
          if \<not> NT_SUCCESS validation
          then WriteError (operation_code Query_Version) validation (rq_correlation_id request) b
          else if unat len < size_of query_version_response_type
          then WriteError (operation_code Query_Version) STATUS_BUFFER_TOO_SMALL
            (rq_correlation_id request) b
          else WriteResponse (enc_query_version_response \<lparr>
              qv_header = MakeResponseHeader (size_of query_version_response_type)
                (operation_code Query_Version) STATUS_SUCCESS (rq_correlation_id request),
              qv_version_major = 0, qv_version_minor = 3,
              qv_capabilities = CAP_CREATE_DELETE OR CAP_READ_WRITE OR CAP_REMOVABLE
                OR CAP_OPERATION_RECOVERY,
              qv_maximum_disk_count = word_of_nat kMaximumDiskCount\<rparr>) STATUS_SUCCESS b)"

definition HandleListDisks :: "srb \<Rightarrow> adapter_extension \<Rightarrow> srb" where
  "HandleListDisks b e =
     (let len = srb_length (io_control b)
      in case ReadAndValidateRequestHeader (payload b) len (size_of request_header_type)
          (operation_code List_Disks) of
        (validation, request) \<Rightarrow>
          if \<not> NT_SUCCESS validation \<or> unat len < size_of list_response_type
          then WriteError (operation_code List_Disks)
            (if NT_SUCCESS validation then STATUS_BUFFER_TOO_SMALL else validation)
            (rq_correlation_id request) b
          else WriteResponse (enc_list_response (SnapshotOnlineDisks e \<lparr>
              lr_header = MakeResponseHeader (size_of list_response_type)
                (operation_code List_Disks) STATUS_SUCCESS (rq_correlation_id request),
              lr_disk_count = 0, lr_reserved = 0, lr_disks = disk_table zero_disk_info []\<rparr>))
            STATUS_SUCCESS b)"

definition HandleCreateControl :: "srb \<Rightarrow> adapter_extension \<Rightarrow> disposition" where
  "HandleCreateControl b e =
     (case ValidateCreateRequest (payload b) (srb_length (io_control b)) of
        (status, request) \<Rightarrow>
          if \<not> NT_SUCCESS status then Io_Complete (WriteCreateResponse request status 0 0 b) e
          else prepared \<lparr>mc_operation = Create_Disk, mc_identity = zero_operation_request,
            mc_create = request, mc_remove = zero_delete_request\<rparr> b e)"

definition HandleDeleteControl :: "srb \<Rightarrow> adapter_extension \<Rightarrow> disposition" where
  "HandleDeleteControl b e =
     (case ValidateDeleteRequest (payload b) (srb_length (io_control b)) of
        (status, request) \<Rightarrow>
          if \<not> NT_SUCCESS status then Io_Complete (WriteDeleteResponse request status b) e
          else prepared \<lparr>mc_operation = Delete_Disk, mc_identity = zero_operation_request,
            mc_create = zero_create_request, mc_remove = request\<rparr> b e)"

text \<open>diagnostics.cpp without \<open>DBG\<close>: the diagnostic codes are refused.\<close>

definition kConfigureControlCode :: u32 where "kConfigureControlCode = 0x8F0"
definition kReadTraceControlCode :: u32 where "kReadTraceControlCode = 0x8F1"

definition HandleDiagnostics :: "srb \<Rightarrow> srb" where
  "HandleDiagnostics b = WriteError (srb_control_code (io_control b)) STATUS_NOT_SUPPORTED 0 b"

section \<open>Dispatch\<close>

definition DispatchControlRequest :: "srb \<Rightarrow> adapter_extension \<Rightarrow> disposition" where
  "DispatchControlRequest b e =
     (let code = srb_control_code (io_control b) in
      if code = kConfigureControlCode \<or> code = kReadTraceControlCode
      then Io_Complete (HandleDiagnostics b) e
      else if code = operation_code Reserve
      then (case HandleReserveOperation b e of (b', e') \<Rightarrow> Io_Complete b' e')
      else if code = operation_code Query_Result then Io_Complete (HandleQueryOperation b e) e
      else if code = operation_code List_State then Io_Complete (HandleListState b e) e
      else if code = operation_code Create_Reserved then HandleReservedCreateControl b e
      else if code = operation_code Delete_Reserved then HandleReservedDeleteControl b e
      else if code = operation_code Query_Version then Io_Complete (HandleQueryVersion b) e
      else if code = operation_code List_Disks then Io_Complete (HandleListDisks b e) e
      else if code = operation_code Create_Disk then HandleCreateControl b e
      else if code = operation_code Delete_Disk then HandleDeleteControl b e
      else Io_Complete (WriteError code STATUS_INVALID_DEVICE_REQUEST 0 b) e)"

definition WispDiskHandleIoControl :: "srb \<Rightarrow> adapter_extension \<Rightarrow> disposition" where
  "WispDiskHandleIoControl b e =
     (if \<not> FromSrb b then Io_Complete (b\<lparr>sb_data_transfer_length := 0\<rparr>) e
      else DispatchControlRequest b e)"

text \<open>adapter_context.cpp: completion of a request that is not pending.\<close>

definition CompleteRequest :: "u8 \<Rightarrow> srb \<Rightarrow> srb" where
  "CompleteRequest status b =
     (let base_status = status AND 0x3f; b1 = b\<lparr>sb_srb_status := status\<rparr>
      in if base_status = SRB_STATUS_SUCCESS \<or> base_status = SRB_STATUS_DATA_OVERRUN
         then b1\<lparr>sb_scsi_status := SCSISTAT_GOOD\<rparr> else b1)"

definition complete_control :: "srb \<Rightarrow> srb" where
  "complete_control b =
     (let b1 = (if sb_srb_status b = SRB_STATUS_PENDING
        then b\<lparr>sb_srb_status := SRB_STATUS_INVALID_REQUEST\<rparr> else b)
      in CompleteRequest (sb_srb_status b1) b1)"

end
