(* ===== verification/Driver_Scsi.thy ===== *)
theory Driver_Scsi
  imports Driver_Requests
begin

text \<open>
  driver/src/scsi: the SCSI commands of a LUN, on the request block and the memory pool. A command
  runs on the view its I/O lease gave it, outside the lock. Results of type \<open>option\<close> are \<open>None\<close> when
  an access leaves an allocated block, that is for an overrun of the backing store or a use after
  free; the theorems show that this does not happen. The SCSI and sense codes are those of the
  WDK's scsi.h.
\<close>

section \<open>Big-endian numbers\<close>

text \<open>The pointers of the source are the list from that element on.\<close>

definition ReadBigEndian32 :: "u8 list \<Rightarrow> u32" where
  "ReadBigEndian32 v = push_bit 24 (ucast (v ! 0)) OR push_bit 16 (ucast (v ! 1))
     OR push_bit 8 (ucast (v ! 2)) OR ucast (v ! 3)"

definition ReadBigEndian64 :: "u8 list \<Rightarrow> u64" where
  "ReadBigEndian64 v = fold (\<lambda>index r. push_bit 8 r OR ucast (v ! index)) [0..<8] 0"

definition WriteBigEndian16 :: "u16 \<Rightarrow> u8 list" where
  "WriteBigEndian16 v = [ucast (drop_bit 8 v), ucast v]"

definition WriteBigEndian32 :: "u32 \<Rightarrow> u8 list" where
  "WriteBigEndian32 v = [ucast (drop_bit 24 v), ucast (drop_bit 16 v), ucast (drop_bit 8 v), ucast v]"

text \<open>The loop of \<open>WriteBigEndian64\<close> fills from the last byte, shifting the value down each time.\<close>

fun WriteBigEndian64_loop :: "nat \<Rightarrow> u64 \<Rightarrow> u8 list \<Rightarrow> u8 list" where
  "WriteBigEndian64_loop 0 v written = written"
| "WriteBigEndian64_loop (Suc n) v written = WriteBigEndian64_loop n (drop_bit 8 v) (ucast v # written)"

definition WriteBigEndian64 :: "u64 \<Rightarrow> u8 list" where
  "WriteBigEndian64 v = WriteBigEndian64_loop 8 v []"

definition WriteDeviceIdHex :: "u32 \<Rightarrow> u8 list" where
  "WriteDeviceIdHex device_id = map (\<lambda>index. word_of_nat
     (lit ''0123456789ABCDEF'' ! unat (drop_bit ((7 - index) * 4) device_id AND 0x0f))) [0..<8]"

section \<open>Responses\<close>

definition kSenseDataLength :: nat where "kSenseDataLength = 18"
definition SCSI_SENSE_ERRORCODE_FIXED_CURRENT :: u8 where "SCSI_SENSE_ERRORCODE_FIXED_CURRENT = 0x70"
definition SCSI_SENSE_ILLEGAL_REQUEST :: u8 where "SCSI_SENSE_ILLEGAL_REQUEST = 0x05"
definition SCSI_ADSENSE_ILLEGAL_COMMAND :: u8 where "SCSI_ADSENSE_ILLEGAL_COMMAND = 0x20"
definition SCSI_ADSENSE_ILLEGAL_BLOCK :: u8 where "SCSI_ADSENSE_ILLEGAL_BLOCK = 0x21"
definition SCSI_ADSENSE_INVALID_CDB :: u8 where "SCSI_ADSENSE_INVALID_CDB = 0x24"

text \<open>A zeroed array of bytes with values written at offsets.\<close>

definition fill :: "nat \<Rightarrow> (nat \<times> u8 list) list \<Rightarrow> u8 list" where
  "fill n writes = foldl (\<lambda>r (off, bs). write_at off bs r) (replicate n 0) writes"

definition SetSense :: "u8 \<Rightarrow> u8 \<Rightarrow> u8 \<Rightarrow> srb \<Rightarrow> u8 \<times> srb" where
  "SetSense sense_key additional_sense_code additional_sense_qualifier b =
     (let b1 = b\<lparr>sb_data_transfer_length := 0, sb_scsi_status := SCSISTAT_CHECK_CONDITION\<rparr>
      in case sb_sense_buffer b of
        None \<Rightarrow> (SRB_STATUS_ERROR, b1)
      | Some sense \<Rightarrow>
          if unat (sb_sense_length b) \<ge> kSenseDataLength
          then (SRB_STATUS_ERROR OR SRB_STATUS_AUTOSENSE_VALID, b1\<lparr>sb_sense_buffer := Some (write_at 0
            (fill kSenseDataLength [(0, [SCSI_SENSE_ERRORCODE_FIXED_CURRENT]), (2, [sense_key]), (7, [10]),
              (12, [additional_sense_code]), (13, [additional_sense_qualifier])]) sense)\<rparr>)
          else (SRB_STATUS_ERROR, b1))"

abbreviation illegal_request :: "u8 \<Rightarrow> srb \<Rightarrow> u8 \<times> srb" where
  "illegal_request code b \<equiv> SetSense SCSI_SENSE_ILLEGAL_REQUEST code 0 b"

definition CopyScsiResponse :: "u8 list \<Rightarrow> u32 \<Rightarrow> srb \<Rightarrow> u8 \<times> srb" where
  "CopyScsiResponse response response_length b =
     (if response_length \<noteq> 0 \<and> sb_data_buffer b = None
      then illegal_request SCSI_ADSENSE_INVALID_CDB b
      else let available = sb_data_transfer_length b;
               transferred = (if response_length < available then response_length else available);
               b1 = (if transferred \<noteq> 0
                 then b\<lparr>sb_data_buffer := map_option (write_at 0 (take (unat transferred) response))
                   (sb_data_buffer b)\<rparr>
                 else b)
        in (if response_length > available then SRB_STATUS_DATA_OVERRUN else SRB_STATUS_SUCCESS,
            b1\<lparr>sb_data_transfer_length := transferred\<rparr>))"

section \<open>Commands without data transfer to the disk\<close>

definition inquiry_vendor :: "u8 list" where "inquiry_vendor = map word_of_nat (lit ''WISPDISK'')"
definition inquiry_product :: "u8 list" where
  "inquiry_product = map word_of_nat (lit ''VIRTUAL DISK    '')"
definition inquiry_revision :: "u8 list" where "inquiry_revision = map word_of_nat (lit ''0002'')"
definition inquiry_prefix :: "u8 list" where "inquiry_prefix = map word_of_nat (lit ''WISPDK'')"

definition HandleInquiry :: "lun_view \<Rightarrow> srb \<Rightarrow> u8 \<times> srb" where
  "HandleInquiry view b =
     (if sb_cdb_length b < 6 then illegal_request SCSI_ADSENSE_INVALID_CDB b
      else let cdb = sb_cdb b;
               enable_vital_product_data = (cdb ! 1 AND 0x01 \<noteq> 0);
               page_code = cdb ! 2;
               allocation_length = (ucast (cdb ! 4) :: u32);
               limited = (\<lambda>n. if n > allocation_length then allocation_length else n)
        in if \<not> enable_vital_product_data
           then if page_code \<noteq> 0 then illegal_request SCSI_ADSENSE_INVALID_CDB b
             else CopyScsiResponse (fill 64 [(0, [0x00]),
                 (1, [if lv_media_kind view = media_code Media_Removable then 0x80 else 0x00]),
                 (2, [0x05]), (3, [0x02]), (4, [31]), (8, inquiry_vendor), (16, inquiry_product),
                 (32, inquiry_revision)]) (limited 36) b
           else if page_code = 0x00
           then CopyScsiResponse (fill 64 [(0, [0x00]), (1, [0x00]), (3, [3]), (4, [0x00]),
               (5, [0x80]), (6, [0x83])]) (limited 7) b
           else if page_code = 0x80
           then CopyScsiResponse (fill 64 [(0, [0x00]), (1, [0x80]), (3, [14]), (4, inquiry_prefix),
               (10, WriteDeviceIdHex (lv_device_id view))]) (limited 18) b
           else if page_code = 0x83
           then CopyScsiResponse (fill 64 [(0, [0x00]), (1, [0x83]), (4, [0x02]), (5, [0x01]),
               (7, [22]), (8, inquiry_vendor), (16, inquiry_prefix),
               (22, WriteDeviceIdHex (lv_device_id view)), (2, WriteBigEndian16 26)]) (limited 30) b
           else illegal_request SCSI_ADSENSE_INVALID_CDB b)"

definition HandleReadCapacity10 :: "lun_view \<Rightarrow> srb \<Rightarrow> u8 \<times> srb" where
  "HandleReadCapacity10 view b =
     (let block_count = lv_size_bytes view div ucast kLogicalSectorSize;
          last_lba = block_count - 1;
          reported_last_lba = (if last_lba > 0xFFFFFFFF then 0xFFFFFFFF else ucast last_lba :: u32)
      in CopyScsiResponse (fill 8 [(0, WriteBigEndian32 reported_last_lba),
           (4, WriteBigEndian32 kLogicalSectorSize)]) 8 b)"

definition HandleReadCapacity16 :: "lun_view \<Rightarrow> srb \<Rightarrow> u8 \<times> srb" where
  "HandleReadCapacity16 view b =
     (if sb_cdb_length b < 16 \<or> sb_cdb b ! 1 AND 0x1f \<noteq> 0x10
      then illegal_request SCSI_ADSENSE_INVALID_CDB b
      else CopyScsiResponse (fill 32
        [(0, WriteBigEndian64 (lv_size_bytes view div ucast kLogicalSectorSize - 1)),
         (8, WriteBigEndian32 kLogicalSectorSize)]) 32 b)"

definition HandleRequestSense :: "srb \<Rightarrow> u8 \<times> srb" where
  "HandleRequestSense b =
     (if sb_cdb_length b < 6 then illegal_request SCSI_ADSENSE_INVALID_CDB b
      else let limit = ucast (sb_cdb b ! 4) :: u32;
               response_length = (if word_of_nat kSenseDataLength > limit then limit
                 else word_of_nat kSenseDataLength)
        in CopyScsiResponse (fill kSenseDataLength [(0, [SCSI_SENSE_ERRORCODE_FIXED_CURRENT]), (7, [10])])
             response_length b)"

definition HandleModeSense :: "bool \<Rightarrow> srb \<Rightarrow> u8 \<times> srb" where
  "HandleModeSense ten_byte b =
     (if sb_cdb_length b < (if ten_byte then 10 else 6) then illegal_request SCSI_ADSENSE_INVALID_CDB b
      else let page_code = sb_cdb b ! 2 AND 0x3f
        in if page_code \<noteq> 0x00 \<and> page_code \<noteq> 0x08 \<and> page_code \<noteq> 0x3f
           then illegal_request SCSI_ADSENSE_INVALID_CDB b
           else let header_length = (if ten_byte then 8 else 4 :: nat);
                    caching = (page_code = 0x08 \<or> page_code = 0x3f);
                    page = (if caching then [(header_length, [0x08, 0x12])] else []);
                    response_length = header_length + (if caching then 20 else 0);
                    length_field = (if ten_byte then (0, WriteBigEndian16 (word_of_nat (response_length - 2)))
                      else (0, [word_of_nat (response_length - 1)]));
                    allocation_length = (if ten_byte
                      then push_bit 8 (ucast (sb_cdb b ! 7)) OR ucast (sb_cdb b ! 8)
                      else ucast (sb_cdb b ! 4) :: u32)
             in CopyScsiResponse (fill 32 (page @ [length_field]))
                  (if word_of_nat response_length > allocation_length then allocation_length
                   else word_of_nat response_length) b)"

definition BuildLunList :: "u8 list \<Rightarrow> (nat \<times> u8 list) list" where
  "BuildLunList luns = map (\<lambda>index. (8 + index * 8 + 1, [luns ! index])) [0..<length luns]"

definition HandleReportLuns :: "adapter_extension \<Rightarrow> srb \<Rightarrow> u8 \<times> srb" where
  "HandleReportLuns e b =
     (if sb_cdb_length b < 12 \<or> sb_path_id b \<noteq> 0 \<or> sb_target_id b \<noteq> 0
      then illegal_request SCSI_ADSENSE_INVALID_CDB b
      else let luns = SnapshotOnlineLuns e; count = length luns;
               response = fill (8 + kMaximumDiskCount * 8)
                 (BuildLunList luns @ [(0, WriteBigEndian32 (word_of_nat (count * 8)))]);
               response_length = word_of_nat (8 + count * 8);
               allocation_length = ReadBigEndian32 (drop 6 (sb_cdb b))
        in CopyScsiResponse response
             (if response_length > allocation_length then allocation_length else response_length) b)"

section \<open>Reading and writing\<close>

definition ParseReadWriteCdb :: "srb \<Rightarrow> (u64 \<times> u32 \<times> bool) option" where
  "ParseReadWriteCdb b =
     (let cdb = sb_cdb b; operation = cdb ! 0;
          is_write = (operation = 0x0A \<or> operation = 0x2A \<or> operation = 0xAA \<or> operation = 0x8A)
      in if operation = 0x08 \<or> operation = 0x0A
         then if sb_cdb_length b < 6 then None
           else Some (push_bit 16 (ucast (cdb ! 1 AND 0x1f)) OR push_bit 8 (ucast (cdb ! 2)) OR ucast (cdb ! 3),
             if cdb ! 4 = 0 then 256 else ucast (cdb ! 4), is_write)
         else if operation = 0x28 \<or> operation = 0x2A
         then if sb_cdb_length b < 10 then None
           else Some (ucast (ReadBigEndian32 (drop 2 cdb)),
             push_bit 8 (ucast (cdb ! 7)) OR ucast (cdb ! 8), is_write)
         else if operation = 0xA8 \<or> operation = 0xAA
         then if sb_cdb_length b < 12 then None
           else Some (ucast (ReadBigEndian32 (drop 2 cdb)), ReadBigEndian32 (drop 6 cdb), is_write)
         else if operation = 0x88 \<or> operation = 0x8A
         then if sb_cdb_length b < 16 then None
           else Some (ReadBigEndian64 (drop 2 cdb), ReadBigEndian32 (drop 10 cdb), is_write)
         else None)"

definition HandleReadWrite :: "lun_view \<Rightarrow> srb \<Rightarrow> pool \<Rightarrow> ((u8 \<times> srb) \<times> pool) option" where
  "HandleReadWrite view b pool =
     (case ParseReadWriteCdb b of
        None \<Rightarrow> Some (illegal_request SCSI_ADSENSE_INVALID_CDB b, pool)
      | Some (logical_block, block_count, is_write) \<Rightarrow>
          if block_count = 0
          then Some ((SRB_STATUS_SUCCESS, b\<lparr>sb_data_transfer_length := 0\<rparr>), pool)
          else let disk_blocks = lv_size_bytes view div ucast kLogicalSectorSize in
            if logical_block \<ge> disk_blocks \<or> ucast block_count > disk_blocks - logical_block
            then Some (illegal_request SCSI_ADSENSE_ILLEGAL_BLOCK b, pool)
            else let byte_offset = logical_block * ucast kLogicalSectorSize;
                     byte_count64 = (ucast block_count * ucast kLogicalSectorSize :: u64)
              in case sb_data_buffer b of
                None \<Rightarrow> Some (illegal_request SCSI_ADSENSE_INVALID_CDB b, pool)
              | Some request_buffer \<Rightarrow>
                  if byte_count64 > ucast kMaximumTransferLength \<or> byte_count64 > 0xFFFFFFFF
                     \<or> ucast (sb_data_transfer_length b) < byte_count64
                  then Some (illegal_request SCSI_ADSENSE_INVALID_CDB b, pool)
                  else let byte_count = ucast byte_count64 :: u32; n = unat byte_count;
                           b1 = b\<lparr>sb_data_transfer_length := byte_count\<rparr>
                    in if is_write
                       then (case pool_write pool (lv_backing_store view) (unat byte_offset)
                             (take n request_buffer) of
                           None \<Rightarrow> None
                         | Some pool' \<Rightarrow> Some ((SRB_STATUS_SUCCESS, b1), pool'))
                       else (case pool_read pool (lv_backing_store view) (unat byte_offset) n of
                           None \<Rightarrow> None
                         | Some bs \<Rightarrow> Some ((SRB_STATUS_SUCCESS,
                             b1\<lparr>sb_data_buffer := Some (write_at 0 bs request_buffer)\<rparr>), pool)))"

definition no_data_commands :: "u8 list" where
  "no_data_commands = [0x00, 0x1B, 0x1E, 0x35, 0x91, 0x2F, 0x8F, 0x15, 0x55]"

definition read_write_commands :: "u8 list" where
  "read_write_commands = [0x08, 0x0A, 0x28, 0x2A, 0xA8, 0xAA, 0x88, 0x8A]"

definition DispatchScsiCommand :: "lun_view \<Rightarrow> srb \<Rightarrow> pool \<Rightarrow> ((u8 \<times> srb) \<times> pool) option" where
  "DispatchScsiCommand view b pool =
     (let command = sb_cdb b ! 0 in
      if command \<in> set no_data_commands
      then Some ((SRB_STATUS_SUCCESS, b\<lparr>sb_data_transfer_length := 0\<rparr>), pool)
      else if command = 0x12 then Some (HandleInquiry view b, pool)
      else if command = 0x03 then Some (HandleRequestSense b, pool)
      else if command = 0x25 then Some (HandleReadCapacity10 view b, pool)
      else if command = 0x9E then Some (HandleReadCapacity16 view b, pool)
      else if command = 0x1A then Some (HandleModeSense False b, pool)
      else if command = 0x5A then Some (HandleModeSense True b, pool)
      else if command \<in> set read_write_commands then HandleReadWrite view b pool
      else Some (illegal_request SCSI_ADSENSE_ILLEGAL_COMMAND b, pool))"

section \<open>Commands stay within their buffers\<close>

text \<open>
  \<open>scsi_answered b b'\<close>: no buffer has changed its length, what lies behind the transfer length is
  untouched, and at most the transfer length is reported as transferred.
\<close>

definition scsi_answered :: "srb \<Rightarrow> srb \<Rightarrow> bool" where
  "scsi_answered b b' \<longleftrightarrow> length (srb_data b') = length (srb_data b)
     \<and> drop (unat (sb_data_transfer_length b)) (srb_data b') = drop (unat (sb_data_transfer_length b)) (srb_data b)
     \<and> (sb_data_buffer b' = None \<longleftrightarrow> sb_data_buffer b = None)
     \<and> map_option length (sb_sense_buffer b') = map_option length (sb_sense_buffer b)
     \<and> unat (sb_data_transfer_length b') \<le> unat (sb_data_transfer_length b)
     \<and> b' = b\<lparr>sb_data_buffer := sb_data_buffer b', sb_sense_buffer := sb_sense_buffer b',
         sb_data_transfer_length := sb_data_transfer_length b', sb_scsi_status := sb_scsi_status b'\<rparr>"

lemma srb_data_update [simp]:
  "srb_data (b\<lparr>sb_data_buffer := Some d\<rparr>) = d" "srb_data (b\<lparr>sb_data_buffer := None\<rparr>) = []"
  "srb_data (b\<lparr>sb_data_transfer_length := n\<rparr>) = srb_data b"
  "srb_data (b\<lparr>sb_scsi_status := s\<rparr>) = srb_data b" "srb_data (b\<lparr>sb_srb_status := s\<rparr>) = srb_data b"
  "srb_data (b\<lparr>sb_sense_buffer := y\<rparr>) = srb_data b"
  by (simp_all add: srb_data_def)

lemma length_fill: "list_all (\<lambda>(off, bs). off + length bs \<le> n) writes \<Longrightarrow> length (fill n writes) = n"
proof -
  have "list_all (\<lambda>(off, bs). off + length bs \<le> length r) writes \<Longrightarrow>
      length (foldl (\<lambda>r (off, bs). write_at off bs r) r writes) = length r" for r
    by (induction writes arbitrary: r) auto
  from this [of "replicate n 0"] show "list_all (\<lambda>(off, bs). off + length bs \<le> n) writes \<Longrightarrow> ?thesis"
    by (simp add: fill_def)
qed

lemma scsi_answered_SetSense:
  assumes "srb_wf b" shows "scsi_answered b (snd (SetSense key asc ascq b))"
proof -
  have len: "length (fill kSenseDataLength [(0, [SCSI_SENSE_ERRORCODE_FIXED_CURRENT]), (2, [key]), (7, [10]),
      (12, [asc]), (13, [ascq])]) = 18"
    by (subst length_fill) (simp_all add: kSenseDataLength_def)
  show ?thesis
    using assms len unfolding srb_wf_def
    by (auto simp: SetSense_def Let_def scsi_answered_def srb_data_def kSenseDataLength_def split: option.splits)
qed

lemma SetSense_answers:
  "srb_wf b \<Longrightarrow> \<exists>status b'. SetSense key asc ascq b = (status, b') \<and> scsi_answered b b'"
  using scsi_answered_SetSense [of b key asc ascq] by (cases "SetSense key asc ascq b") auto

lemma scsi_answered_Copy:
  assumes wf: "srb_wf b" shows "scsi_answered b (snd (CopyScsiResponse response n b))"
proof (cases "sb_data_buffer b")
  case None
  then show ?thesis
    using scsi_answered_SetSense [OF wf]
    by (cases "n = 0") (simp_all add: CopyScsiResponse_def Let_def, simp add: scsi_answered_def srb_data_def)
next
  case (Some d)
  with wf have "unat (sb_data_transfer_length b) \<le> length d" by (simp add: srb_wf_def)
  with Some show ?thesis
    by (auto simp: CopyScsiResponse_def Let_def scsi_answered_def srb_data_def word_less_nat_alt
        drop_write_at_before)
qed

lemmas scsi_answered_intros = scsi_answered_SetSense scsi_answered_Copy

lemma scsi_answered_commands:
  assumes "srb_wf b"
  shows "scsi_answered b (snd (HandleInquiry view b))" "scsi_answered b (snd (HandleReadCapacity10 view b))"
    "scsi_answered b (snd (HandleReadCapacity16 view b))" "scsi_answered b (snd (HandleRequestSense b))"
    "scsi_answered b (snd (HandleModeSense ten b))" "scsi_answered b (snd (HandleReportLuns e b))"
  using scsi_answered_intros [OF assms]
  by (simp_all add: HandleInquiry_def HandleReadCapacity10_def HandleReadCapacity16_def
      HandleRequestSense_def HandleModeSense_def HandleReportLuns_def Let_def)

text \<open>
  A read or write that passes the checks: the transfer in bytes, on the disk and in the buffer.
\<close>

lemma sector_arithmetic:
  fixes size_bytes logical_block :: u64 and block_count :: u32
  assumes "\<not> (logical_block \<ge> size_bytes div ucast kLogicalSectorSize
    \<or> ucast block_count > size_bytes div ucast kLogicalSectorSize - logical_block)"
  shows "unat (logical_block * ucast kLogicalSectorSize) = unat logical_block * 512"
    and "unat (ucast block_count * ucast kLogicalSectorSize :: u64) = unat block_count * 512"
    and "unat logical_block * 512 + unat block_count * 512 \<le> unat size_bytes"
proof -
  let ?blocks = "size_bytes div ucast kLogicalSectorSize"
  have blocks: "unat ?blocks = unat size_bytes div 512"
    by (simp add: kLogicalSectorSize_def unat_div)
  have lb: "unat logical_block < unat size_bytes div 512"
    using assms blocks by (simp add: word_le_nat_alt not_le)
  moreover have "unat (?blocks - logical_block) = unat size_bytes div 512 - unat logical_block"
    using assms blocks by (subst unat_sub) (simp_all add: word_le_nat_alt)
  moreover have cnt: "unat (ucast block_count :: u64) = unat block_count"
    by (simp add: unsigned_ucast_eq take_bit_nat_eq_self_iff order_less_trans [OF unsigned_less])
  ultimately have sum: "unat logical_block + unat block_count \<le> unat size_bytes div 512"
    using assms by (simp add: word_less_nat_alt not_less) arith
  then show le: "unat logical_block * 512 + unat block_count * 512 \<le> unat size_bytes"
    by (metis add_mult_distrib div_times_less_eq_dividend mult_le_mono1 order_trans)
  have small: "unat size_bytes < 2 ^ 64" by (rule order_less_le_trans [OF unsigned_less]) simp
  show "unat (logical_block * ucast kLogicalSectorSize) = unat logical_block * 512"
    using le small by (subst unat_mult_lem [THEN iffD1]) (simp_all add: kLogicalSectorSize_def)
  show "unat (ucast block_count * ucast kLogicalSectorSize :: u64) = unat block_count * 512"
    using le small cnt by (subst unat_mult_lem [THEN iffD1]) (simp_all add: kLogicalSectorSize_def)
qed

text \<open>The transfer that a checked request amounts to, in numbers.\<close>

definition transfer_of :: "lun_view \<Rightarrow> srb \<Rightarrow> (nat \<times> nat \<times> bool) option" where
  "transfer_of view b = (case ParseReadWriteCdb b of
     None \<Rightarrow> None
   | Some (logical_block, block_count, is_write) \<Rightarrow>
       let off = unat logical_block * 512; n = unat block_count * 512 in
       if block_count \<noteq> 0 \<and> off < unat (lv_size_bytes view) div 512 * 512
          \<and> off + n \<le> unat (lv_size_bytes view) div 512 * 512
          \<and> n \<le> unat kMaximumTransferLength \<and> sb_data_buffer b \<noteq> None
          \<and> n \<le> unat (sb_data_transfer_length b)
       then Some (off, n, is_write) else None)"

lemma transfer_of_bounds:
  assumes "transfer_of view b = Some (off, n, is_write)"
  shows "0 < n" and "off + n \<le> unat (lv_size_bytes view)" and "n \<le> unat (sb_data_transfer_length b)"
    and "n \<le> 1048576" and "sb_data_buffer b \<noteq> None" and "unat (word_of_nat n :: u32) = n"
proof -
  have "unat (lv_size_bytes view) div 512 * 512 \<le> unat (lv_size_bytes view)"
    by (rule div_times_less_eq_dividend)
  with assms show *: "0 < n" "off + n \<le> unat (lv_size_bytes view)"
      "n \<le> unat (sb_data_transfer_length b)" "n \<le> 1048576" "sb_data_buffer b \<noteq> None"
    by (auto simp: transfer_of_def Let_def unat_gt_0 split: option.splits if_splits)
  show "unat (word_of_nat n :: u32) = n"
    using *(4) by (simp add: unsigned_of_nat take_bit_nat_eq_self)
qed

lemma HandleReadWrite_checks:
  "HandleReadWrite view b pool = (case transfer_of view b of
     None \<Rightarrow> Some (case ParseReadWriteCdb b of
         None \<Rightarrow> illegal_request SCSI_ADSENSE_INVALID_CDB b
       | Some (lba, cnt, w) \<Rightarrow>
           if cnt = 0 then (SRB_STATUS_SUCCESS, b\<lparr>sb_data_transfer_length := 0\<rparr>)
           else if unat lba * 512 < unat (lv_size_bytes view) div 512 * 512
             \<and> unat lba * 512 + unat cnt * 512 \<le> unat (lv_size_bytes view) div 512 * 512
           then illegal_request SCSI_ADSENSE_INVALID_CDB b
           else illegal_request SCSI_ADSENSE_ILLEGAL_BLOCK b, pool)
   | Some (off, n, is_write) \<Rightarrow>
       (let b1 = b\<lparr>sb_data_transfer_length := word_of_nat n\<rparr> in
        if is_write
        then map_option (Pair (SRB_STATUS_SUCCESS, b1))
          (pool_write pool (lv_backing_store view) off (take n (srb_data b)))
        else map_option (\<lambda>bs. ((SRB_STATUS_SUCCESS,
            b1\<lparr>sb_data_buffer := Some (write_at 0 bs (srb_data b))\<rparr>), pool))
          (pool_read pool (lv_backing_store view) off n)))"
proof (cases "ParseReadWriteCdb b")
  case None
  then show ?thesis by (simp add: HandleReadWrite_def transfer_of_def)
next
  case (Some parsed)
  obtain lba cnt w where parsed: "parsed = (lba, cnt, w)" by (cases parsed)
  let ?db = "lv_size_bytes view div ucast kLogicalSectorSize"
  let ?bad = "lba \<ge> ?db \<or> ucast cnt > ?db - lba"
  have db: "unat ?db = unat (lv_size_bytes view) div 512"
    by (simp add: kLogicalSectorSize_def unat_div)
  have cnt: "unat (ucast cnt :: u64) = unat cnt"
    by (simp add: unsigned_ucast_eq take_bit_nat_eq_self_iff order_less_trans [OF unsigned_less])
  have bad: "?bad \<longleftrightarrow> \<not> (unat lba * 512 < unat (lv_size_bytes view) div 512 * 512
      \<and> unat lba * 512 + unat cnt * 512 \<le> unat (lv_size_bytes view) div 512 * 512)"
  proof -
    have nat_bad: "(D \<le> L \<or> D - L < C) \<longleftrightarrow> \<not> (L * 512 < D * 512 \<and> L * 512 + C * 512 \<le> D * 512)"
      for L C D :: nat
      using mult_le_cancel2 [of "L + C" 512 D] by (cases "D \<le> L") (auto simp: add_mult_distrib)
    have "?bad \<longleftrightarrow> unat (lv_size_bytes view) div 512 \<le> unat lba
        \<or> unat (lv_size_bytes view) div 512 - unat lba < unat cnt"
    proof (cases "lba \<ge> ?db")
      case False
      then have "unat (?db - lba) = unat (lv_size_bytes view) div 512 - unat lba"
        using db by (subst unat_sub) (simp_all add: word_le_nat_alt)
      then show ?thesis
        unfolding word_le_nat_alt word_less_nat_alt db cnt by simp
    next
      case True
      then have "unat (lv_size_bytes view) div 512 \<le> unat lba"
        unfolding word_le_nat_alt db .
      with True show ?thesis by blast
    qed
    then show ?thesis unfolding nat_bad .
  qed
  show ?thesis
  proof (cases "cnt = 0 \<or> ?bad \<or> sb_data_buffer b = None")
    case True
    then show ?thesis
      using bad by (auto simp: HandleReadWrite_def transfer_of_def Some parsed Let_def)
  next
    case False
    then obtain d where d: "sb_data_buffer b = Some d" and nb: "\<not> ?bad" and c0: "cnt \<noteq> 0" by blast
    note arith = sector_arithmetic [OF nb]
    let ?n64 = "ucast cnt * ucast kLogicalSectorSize :: u64"
    have lens: "?n64 > ucast kMaximumTransferLength \<or> ?n64 > 0xFFFFFFFF
        \<or> ucast (sb_data_transfer_length b) < ?n64 \<longleftrightarrow>
      \<not> (unat cnt * 512 \<le> 1048576 \<and> unat cnt * 512 \<le> unat (sb_data_transfer_length b))"
      by (auto simp: word_less_nat_alt arith(2) kMaximumTransferLength_def unsigned_ucast_eq
          take_bit_nat_eq_self order_less_trans [OF unsigned_less])
    show ?thesis
    proof (cases "unat cnt * 512 \<le> 1048576 \<and> unat cnt * 512 \<le> unat (sb_data_transfer_length b)")
      case True
      have n32: "ucast ?n64 = (word_of_nat (unat cnt * 512) :: u32)"
        by (metis arith(2) of_nat_unat)
      have "unat (cnt * 512) = unat cnt * 512"
        using True by (subst unat_mult_lem [THEN iffD1]) simp_all
      with n32 True c0 nb bad d srb_data_Some [OF d] lens arith show ?thesis
        by (simp add: HandleReadWrite_def transfer_of_def Some parsed Let_def split: option.split)
    next
      case False
      with c0 nb bad d lens show ?thesis
        by (auto simp: HandleReadWrite_def transfer_of_def Some parsed Let_def)
    qed
  qed
qed


lemma pool_accesses:
  assumes "pool p = Some blk" and "off + n \<le> pb_size blk" and "n \<le> length d"
  shows "pool_read pool p off n = Some (map (\<lambda>k. pb_data blk (off + k)) [0..<n])"
    and "pool_write pool p off (take n d) = Some (pool(p \<mapsto> blk\<lparr>pb_data := (\<lambda>k.
      if off \<le> k \<and> k < off + n then d ! (k - off) else pb_data blk k)\<rparr>))"
proof -
  show "pool_read pool p off n = Some (map (\<lambda>k. pb_data blk (off + k)) [0..<n])"
    using assms by (simp add: pool_read_def)
  have "(\<lambda>k. if off \<le> k \<and> k < off + n then take n d ! (k - off) else pb_data blk k) =
      (\<lambda>k. if off \<le> k \<and> k < off + n then d ! (k - off) else pb_data blk k)"
    by (intro ext) auto
  then show "pool_write pool p off (take n d) = Some (pool(p \<mapsto> blk\<lparr>pb_data := (\<lambda>k.
      if off \<le> k \<and> k < off + n then d ! (k - off) else pb_data blk k)\<rparr>))"
    using assms by (simp add: pool_write_def)
qed

text \<open>
  A command with a valid lease has a result, keeps to its buffers, and changes at most the
  contents of the leased block.
\<close>

definition pool_same :: "nat \<Rightarrow> pool \<Rightarrow> pool \<Rightarrow> bool" where
  "pool_same p pool pool' \<longleftrightarrow> (\<forall>q. q \<noteq> p \<longrightarrow> pool' q = pool q)
     \<and> map_option pb_size (pool' p) = map_option pb_size (pool p)"

lemma pool_same_refl [simp]: "pool_same p pool pool"
  by (simp add: pool_same_def)

lemma HandleReadWrite_safe:
  assumes wf: "srb_wf b" and blk: "pool (lv_backing_store view) = Some blk"
    and sz: "pb_size blk = unat (lv_size_bytes view)"
  shows "\<exists>status b' pool'. HandleReadWrite view b pool = Some ((status, b'), pool')
    \<and> scsi_answered b b' \<and> pool_same (lv_backing_store view) pool pool'"
proof (cases "transfer_of view b")
  case None
  have "scsi_answered b (b\<lparr>sb_data_transfer_length := 0\<rparr>)"
    using wf by (simp add: scsi_answered_def)
  with None show ?thesis
    using SetSense_answers [OF wf]
    by (auto simp: HandleReadWrite_checks split: option.splits)
next
  case (Some t)
  obtain off n w where t: "t = (off, n, w)" by (cases t)
  note bnd = transfer_of_bounds [OF Some [unfolded t]]
  from bnd(5) obtain d where d: "sb_data_buffer b = Some d" by blast
  with wf have len: "unat (sb_data_transfer_length b) \<le> length d" by (simp add: srb_wf_def)
  have fits: "off + n \<le> pb_size blk" "n \<le> length d" using bnd sz len by simp_all
  have ans: "scsi_answered b (b\<lparr>sb_data_transfer_length := word_of_nat n\<rparr>)"
    "length bs = n \<Longrightarrow> scsi_answered b (b\<lparr>sb_data_transfer_length := word_of_nat n,
      sb_data_buffer := Some (write_at 0 bs d)\<rparr>)" for bs
    using bnd fits len d by (simp_all add: scsi_answered_def srb_data_Some drop_write_at_before)
  show ?thesis
    unfolding HandleReadWrite_checks Some t srb_data_Some [OF d]
    using pool_accesses [of pool, OF blk fits] ans
    by (auto simp: Let_def pool_same_def blk)
qed

lemma DispatchScsiCommand_safe:
  assumes wf: "srb_wf b" and blk: "pool (lv_backing_store view) = Some blk"
    and sz: "pb_size blk = unat (lv_size_bytes view)"
  shows "\<exists>status b' pool'. DispatchScsiCommand view b pool = Some ((status, b'), pool')
    \<and> scsi_answered b b' \<and> pool_same (lv_backing_store view) pool pool'"
proof -
  have "scsi_answered b (b\<lparr>sb_data_transfer_length := 0\<rparr>)"
    using wf by (simp add: scsi_answered_def)
  moreover have ex: "\<exists>status b'. r = (status, b') \<and> scsi_answered b b'" if "scsi_answered b (snd r)" for r
    using that by (cases r) auto
  ultimately show ?thesis
    unfolding DispatchScsiCommand_def Let_def
    using HandleReadWrite_safe [of b pool view, OF assms] ex [OF scsi_answered_commands(1) [OF wf]]
      ex [OF scsi_answered_commands(2) [OF wf]] ex [OF scsi_answered_commands(3) [OF wf]]
      ex [OF scsi_answered_commands(4) [OF wf]] ex [OF scsi_answered_commands(5) [OF wf]]
      ex [OF scsi_answered_SetSense [OF wf]]
    by (auto intro!: exI)
qed

end
