(* ===== verification/Driver_Machine.thy ===== *)
theory Driver_Machine
  imports Driver_Control Driver_Scsi
begin

text \<open>
  The driver as a concurrent system: adapter_context.cpp, driver.cpp and the parts of
  management_controller.cpp and lun_store.cpp that run outside \<open>LunLock\<close>. A thread is one activity
  of the driver (a SCSI command with its I/O lease, a mutation from its admission to the end of
  the worker, the shutdown of the adapter) at its program location; a step is what it does up to
  its next use of shared state: one critical section, one call of StorPort, or one access to the
  backing store. The labels say which thread moves and what StorPort answers, so a run is any
  interleaving with any answers. \<open>ma_fault\<close> records an access to memory that is not allocated.

  A wait on an event is a step that is enabled when the event is set. Finished threads stay in the
  list, so a thread is named by its position.
\<close>

section \<open>Threads\<close>

text \<open>What a worker carries out: the locals of \<open>ProcessLegacyRequest\<close> and \<open>ProcessReservedRequest\<close>.\<close>

datatype work =
    Legacy_Create srb create_request
  | Legacy_Delete srb delete_request
  | Reserved_Work srb operation_request operation_record

fun work_request :: "work \<Rightarrow> create_request" where
  "work_request (Legacy_Create b q) = q"
| "work_request (Legacy_Delete b q) = zero_create_request"
| "work_request (Reserved_Work b identity r) = op_create r"

fun work_device :: "work \<Rightarrow> u32" where
  "work_device (Legacy_Create b q) = 0"
| "work_device (Legacy_Delete b q) = dq_device_id q"
| "work_device (Reserved_Work b identity r) = dq_device_id (op_delete r)"

fun work_operation :: "work \<Rightarrow> u64 option" where
  "work_operation (Reserved_Work b identity r) = Some (op_id r)"
| "work_operation _ = None"

datatype remover = By_Worker work | By_Shutdown

datatype thread =
    Leased srb nat lun_view
  | Releasing u8 srb nat
  | Preparing srb mutation_command
  | Queue_Failed srb mutation_command
  | Queued srb
  | Selecting work
  | Allocating work nat
  | Committing work nat nat
  | Discarding work i32 nat
  | Created work i32 "(u32 \<times> u8) option"
  | Marking work
  | Draining remover nat u32
  | Detaching remover nat u32
  | Freeing remover nat u32 nat
  | Finalizing remover nat u32
  | Deleted work i32
  | Responding srb
  | Ending srb
  | Stopping_Wait
  | Stopping_Mark
  | Stopping_Next
  | Stopping_Worker
  | Stopped
  | Finished srb

text \<open>
  History: which operations were reserved and accepted, and which disks came and went. It is not
  read by the code.
\<close>

datatype driver_event =
    Op_Reserved u64
  | Op_Accepted u64
  | Disk_Committed "u64 option" u32 nat create_request
  | Disk_Removed u32
  | Bus_Changed

record driver =
  dr_ext :: adapter_extension
  dr_pool :: pool
  dr_log :: "driver_event list"

record machine =
  ma_driver :: driver
  ma_threads :: "thread list"
  ma_fault :: bool

section \<open>The steps of a thread\<close>

datatype progress = Blocked | Fault | Step thread driver

abbreviation with_ext :: "driver \<Rightarrow> adapter_extension \<Rightarrow> driver" where
  "with_ext d e \<equiv> d\<lparr>dr_ext := e\<rparr>"

definition log_event :: "driver_event \<Rightarrow> driver \<Rightarrow> driver" where
  "log_event ev d = d\<lparr>dr_log := dr_log d @ [ev]\<rparr>"

text \<open>\<open>ProcessWorkItem\<close> up to the first use of the tables.\<close>

definition ProcessWorkItem_start :: "srb \<Rightarrow> adapter_extension \<Rightarrow> thread" where
  "ProcessWorkItem_start b e =
     (if \<not> FromSrb b
      then Responding (b\<lparr>sb_data_transfer_length := 0, sb_scsi_status := SCSISTAT_CHECK_CONDITION,
        sb_srb_status := SRB_STATUS_INVALID_REQUEST\<rparr>)
      else let code = srb_control_code (io_control b) in
        if code = operation_code Create_Reserved \<or> code = operation_code Delete_Reserved
        then let identity = dec_operation_request (payload b) in
          (case SnapshotPendingOperation identity b e of
             Err b' \<Rightarrow> Responding b'
           | Ok r \<Rightarrow> if op_mutation r = operation_code Create_Disk
               then Selecting (Reserved_Work b identity r) else Marking (Reserved_Work b identity r))
        else if code = operation_code Create_Disk
        then (case ValidateCreateRequest (payload b) (srb_length (io_control b)) of
          (status, q) \<Rightarrow> if NT_SUCCESS status then Selecting (Legacy_Create b q)
            else Responding (WriteCreateResponse q status 0 0 b))
        else if code = operation_code Delete_Disk
        then (case ValidateDeleteRequest (payload b) (srb_length (io_control b)) of
          (status, q) \<Rightarrow> if NT_SUCCESS status then Marking (Legacy_Delete b q)
            else Responding (WriteDeleteResponse q status b))
        else Responding (WriteError code STATUS_INVALID_DEVICE_REQUEST 0 b))"

text \<open>After \<open>CreateDisk\<close> and \<open>DeleteDisk\<close> returned: the response, or the published result.\<close>

definition outcome_state :: "i32 \<Rightarrow> u32" where
  "outcome_state status = (if NT_SUCCESS status then state_code State_Succeeded else state_code State_Failed)"

definition after_create ::
  "work \<Rightarrow> i32 \<Rightarrow> (u32 \<times> u8) option \<Rightarrow> adapter_extension \<Rightarrow> srb \<times> adapter_extension" where
  "after_create w status disk e = (case w of
     Legacy_Create b q \<Rightarrow> (case disk of
         None \<Rightarrow> (WriteCreateResponse q status 0 0 b, e)
       | Some (device_id, lun) \<Rightarrow> (WriteCreateResponse q status device_id lun b, e))
   | Legacy_Delete b q \<Rightarrow> (b, e)
   | Reserved_Work b identity r \<Rightarrow>
       let r1 = (case disk of None \<Rightarrow> r
              | Some (device_id, lun) \<Rightarrow> r\<lparr>op_device_id := device_id, op_lun := lun\<rparr>);
           snapshot = r1\<lparr>op_result := status, op_state := outcome_state status\<rparr>
       in PublishOperationResult snapshot (rq_correlation_id (oq_header identity)) b e)"

definition after_delete :: "work \<Rightarrow> i32 \<Rightarrow> adapter_extension \<Rightarrow> srb \<times> adapter_extension" where
  "after_delete w status e = (case w of
     Legacy_Create b q \<Rightarrow> (b, e)
   | Legacy_Delete b q \<Rightarrow> (WriteDeleteResponse q status b, e)
   | Reserved_Work b identity r \<Rightarrow>
       let snapshot = r\<lparr>op_result := status, op_device_id := dq_device_id (op_delete r),
             op_state := outcome_state status\<rparr>
       in PublishOperationResult snapshot (rq_correlation_id (oq_header identity)) b e)"

text \<open>The \<open>busChanged\<close> flag of \<open>ProcessWorkItem\<close>, read off the response.\<close>

definition bus_changed :: "srb \<Rightarrow> bool" where
  "bus_changed b \<longleftrightarrow> FromSrb b \<and> (let env = io_control b; code = srb_control_code env in
     if (code = operation_code Create_Reserved \<or> code = operation_code Delete_Reserved)
        \<and> unat (srb_length env) = size_of operation_response_type
     then let response = dec_operation_response (payload b)
       in or_state response = state_code State_Succeeded \<and> NT_SUCCESS (or_result_status response)
     else srb_return_code env = STATUS_SUCCESS
       \<and> (code = operation_code Create_Disk \<or> code = operation_code Delete_Disk
          \<or> code = operation_code Create_Reserved \<or> code = operation_code Delete_Reserved))"

fun advance :: "thread \<Rightarrow> driver \<Rightarrow> progress" where
  "advance (Leased b i view) d = (case DispatchScsiCommand view b (dr_pool d) of
     None \<Rightarrow> Fault
   | Some ((status, b'), pool') \<Rightarrow> Step (Releasing status b' i) (d\<lparr>dr_pool := pool'\<rparr>))"
| "advance (Releasing status b i) d =
     Step (Finished (CompleteRequest status b)) (with_ext d (ReleaseLunIo i (dr_ext d)))"
| "advance (Queue_Failed b c) d = (case SubmitFailed c b (dr_ext d) of
     (b', e') \<Rightarrow> Step (Finished (complete_control b')) (with_ext d e'))"
| "advance (Queued b) d = Step (ProcessWorkItem_start b (dr_ext d)) d"
| "advance (Selecting w) d = (case SelectAvailableLun (cq_size_bytes (work_request w)) (dr_ext d) of
     Err status \<Rightarrow> Step (Created w status None) d
   | Ok i \<Rightarrow> Step (Allocating w i) d)"
| "advance (Committing w i p) d = (case CommitNewLun (work_request w) i p (dr_ext d) of
     Err status \<Rightarrow> Step (Discarding w status p) d
   | Ok (device_id, e') \<Rightarrow> Step (Created w STATUS_SUCCESS (Some (device_id, word_of_nat i)))
       (log_event (Disk_Committed (work_operation w) device_id i (work_request w)) (with_ext d e')))"
| "advance (Discarding w status p) d = (case StorPortFreePool (dr_pool d) p of
     None \<Rightarrow> Fault
   | Some pool' \<Rightarrow> Step (Created w status None) (d\<lparr>dr_pool := pool'\<rparr>))"
| "advance (Created w status disk) d = (case after_create w status disk (dr_ext d) of
     (b', e') \<Rightarrow> Step (Responding b') (with_ext d e'))"
| "advance (Marking w) d = (case MarkLunStopping (work_device w) (dr_ext d) of
     None \<Rightarrow> Step (Deleted w STATUS_NO_SUCH_DEVICE) d
   | Some (i, e') \<Rightarrow> Step (Draining (By_Worker w) i (work_device w)) (with_ext d e'))"
| "advance (Draining who i device_id) d =
     (if lu_no_active_requests (ax_luns (dr_ext d) ! i) then Step (Detaching who i device_id) d else Blocked)"
| "advance (Detaching who i device_id) d = (case DetachBackingStore i device_id (dr_ext d) of
     (None, e') \<Rightarrow> Step (Finalizing who i device_id) (with_ext d e')
   | (Some p, e') \<Rightarrow> Step (Freeing who i device_id p) (with_ext d e'))"
| "advance (Freeing who i device_id p) d = (case StorPortFreePool (dr_pool d) p of
     None \<Rightarrow> Fault
   | Some pool' \<Rightarrow> Step (Finalizing who i device_id) (d\<lparr>dr_pool := pool'\<rparr>))"
| "advance (Finalizing who i device_id) d = (case who of
     By_Worker w \<Rightarrow> Step (Deleted w STATUS_SUCCESS)
       (log_event (Disk_Removed device_id) (with_ext d (FinalizeDiskRemoval i device_id (dr_ext d))))
   | By_Shutdown \<Rightarrow> let current = lu_device_id (ax_luns (dr_ext d) ! i) in Step Stopping_Next
       (log_event (Disk_Removed current) (with_ext d (FinalizeDiskRemoval i current (dr_ext d)))))"
| "advance (Deleted w status) d = (case after_delete w status (dr_ext d) of
     (b', e') \<Rightarrow> Step (Responding b') (with_ext d e'))"
| "advance (Responding b) d = Step (Ending b) (if bus_changed b then log_event Bus_Changed d else d)"
| "advance (Ending b) d = Step (Finished b) (with_ext d (EndManagementLocked (dr_ext d)))"
| "advance Stopping_Wait d = (if ax_management_idle (dr_ext d) then Step Stopping_Mark d else Blocked)"
| "advance Stopping_Mark d = Step Stopping_Next (with_ext d (MarkAllLunsStopping (dr_ext d)))"
| "advance Stopping_Next d = (case FirstStoppingLun (dr_ext d) of
     None \<Rightarrow> Step Stopping_Worker d
   | Some i \<Rightarrow> Step (Draining By_Shutdown i (lu_device_id (ax_luns (dr_ext d) ! i))) d)"
| "advance Stopping_Worker d = Step Stopped
     (with_ext d ((dr_ext d)\<lparr>ax_management_worker := False, ax_signature := 0\<rparr>))"
| "advance _ d = Blocked"

text \<open>The answers of \<open>StorPortQueueWorkItem\<close> and \<open>StorPortAllocatePool\<close>.\<close>

fun queue_work :: "bool \<Rightarrow> thread \<Rightarrow> driver \<Rightarrow> progress" where
  "queue_work queued (Preparing b c) d =
     (if queued \<and> ax_management_worker (dr_ext d) then Step (Queued b) d else Step (Queue_Failed b c) d)"
| "queue_work _ _ d = Blocked"

fun allocate_pool :: "(nat \<times> (nat \<Rightarrow> u8)) option \<Rightarrow> thread \<Rightarrow> driver \<Rightarrow> progress" where
  "allocate_pool None (Allocating w i) d = Step (Created w STATUS_INSUFFICIENT_RESOURCES None) d"
| "allocate_pool (Some (p, contents)) (Allocating w i) d =
     (if p \<in> dom (dr_pool d) then Blocked
      else let sz = cq_size_bytes (work_request w);
               pool1 = pool_allocate (dr_pool d) p (unat (ucast sz :: u32)) contents
        in case RtlZeroMemory pool1 p (unat sz) of
          None \<Rightarrow> Fault
        | Some pool2 \<Rightarrow> Step (Committing w i p) (d\<lparr>dr_pool := pool2\<rparr>))"
| "allocate_pool _ _ d = Blocked"

section \<open>Requests from StorPort\<close>

text \<open>\<open>WispDiskHandleExecuteScsi\<close> up to the command on a leased LUN.\<close>

definition WispDiskHandleExecuteScsi :: "srb \<Rightarrow> adapter_extension \<Rightarrow> thread \<times> adapter_extension" where
  "WispDiskHandleExecuteScsi b e =
     (let finished = (\<lambda>(status, b'). (Finished (CompleteRequest status b'), e)) in
      if sb_cdb_length b = 0 then finished (illegal_request SCSI_ADSENSE_INVALID_CDB b)
      else if sb_cdb b ! 0 = 0xA0 then finished (HandleReportLuns e b)
      else case AcquireLunIo b e of
        None \<Rightarrow> finished (SRB_STATUS_NO_DEVICE, b\<lparr>sb_data_transfer_length := 0\<rparr>)
      | Some (i, view, e') \<Rightarrow> (Leased b i view, e'))"

definition admission_event :: "adapter_extension \<Rightarrow> thread \<times> adapter_extension \<Rightarrow> driver \<Rightarrow> driver" where
  "admission_event e r d = (case r of (th, e') \<Rightarrow>
     if ax_next_operation_id e' \<noteq> ax_next_operation_id e
     then log_event (Op_Reserved (ax_next_operation_id e)) d
     else case th of
       Preparing b c \<Rightarrow> if IsReserved c
         then log_event (Op_Accepted (oq_operation_id (mc_identity c))) d else d
     | _ \<Rightarrow> d)"

definition StartIo :: "srb \<Rightarrow> adapter_extension \<Rightarrow> thread \<times> adapter_extension" where
  "StartIo b e = (case sb_function b of
     Fn_Io_Control \<Rightarrow> (case WispDiskHandleIoControl b e of
         Io_Complete b' e' \<Rightarrow> (Finished (complete_control b'), e')
       | Io_Pending b' c e' \<Rightarrow> (Preparing b' c, e'))
   | Fn_Execute_Scsi \<Rightarrow> WispDiskHandleExecuteScsi b e
   | Fn_Other \<Rightarrow> (Finished (CompleteRequest SRB_STATUS_INVALID_REQUEST (b\<lparr>sb_data_transfer_length := 0\<rparr>)), e)
   | _ \<Rightarrow> (Finished (CompleteRequest SRB_STATUS_SUCCESS (b\<lparr>sb_data_transfer_length := 0\<rparr>)), e))"

fun stopper :: "thread \<Rightarrow> bool" where
  "stopper (Draining By_Shutdown i dev) = True"
| "stopper (Detaching By_Shutdown i dev) = True"
| "stopper (Freeing By_Shutdown i dev p) = True"
| "stopper (Finalizing By_Shutdown i dev) = True"
| "stopper Stopping_Wait = True"
| "stopper Stopping_Mark = True"
| "stopper Stopping_Next = True"
| "stopper Stopping_Worker = True"
| "stopper Stopped = True"
| "stopper _ = False"

datatype label =
    Start_Io srb
  | Set_Stopping bool
  | Free_Resources
  | Advance nat
  | Queue_Work nat bool
  | Allocate_Pool nat "(nat \<times> (nat \<Rightarrow> u8)) option"

text \<open>Requests that StorPort has not got back.\<close>

fun finished :: "thread \<Rightarrow> bool" where
  "finished (Finished b) = True"
| "finished _ = False"

definition outstanding :: "thread list \<Rightarrow> nat" where
  "outstanding ths = length (filter (\<lambda>th. \<not> finished th) ths)"

definition initialized :: "machine \<Rightarrow> bool" where
  "initialized m \<longleftrightarrow> ax_signature (dr_ext (ma_driver m)) = kAdapterExtensionSignature"

definition resume :: "nat \<Rightarrow> progress \<Rightarrow> machine \<Rightarrow> machine option" where
  "resume k p m = (case p of
     Blocked \<Rightarrow> None
   | Fault \<Rightarrow> Some (m\<lparr>ma_fault := True\<rparr>)
   | Step th d \<Rightarrow> Some (m\<lparr>ma_driver := d, ma_threads := (ma_threads m)[k := th]\<rparr>))"

text \<open>
  What StorPort guarantees is in the guards: well-formed requests, fewer than \<open>2 ^ 32\<close> of them at
  a time, no adapter control once \<open>HwFreeAdapterResources\<close> was called, and only one such call.
\<close>

definition step :: "label \<Rightarrow> machine \<Rightarrow> machine option" where
  "step l m = (let d = ma_driver m; e = dr_ext d; ths = ma_threads m in
     if ma_fault m then None
     else case l of
       Start_Io b \<Rightarrow>
         if initialized m \<and> srb_wf b \<and> outstanding ths < 2 ^ 32 - 1
         then let r = StartIo b e
           in Some (m\<lparr>ma_driver := admission_event e r (with_ext d (snd r)), ma_threads := ths @ [fst r]\<rparr>)
         else None
     | Set_Stopping b \<Rightarrow>
         if initialized m \<and> \<not> list_ex stopper ths
         then Some (m\<lparr>ma_driver := with_ext d (e\<lparr>ax_adapter_stopping := b\<rparr>)\<rparr>) else None
     | Free_Resources \<Rightarrow>
         if initialized m \<and> \<not> list_ex stopper ths
         then Some (m\<lparr>ma_driver := with_ext d (CloseAdmission e), ma_threads := ths @ [Stopping_Wait]\<rparr>)
         else None
     | Advance k \<Rightarrow> if k < length ths then resume k (advance (ths ! k) d) m else None
     | Queue_Work k queued \<Rightarrow> if k < length ths then resume k (queue_work queued (ths ! k) d) m else None
     | Allocate_Pool k answer \<Rightarrow>
         if k < length ths then resume k (allocate_pool answer (ths ! k) d) m else None)"

section \<open>Initialisation and runs\<close>

text \<open>
  \<open>AdapterContext::Initialize\<close>: the instance is the system time, or one more than the last one
  when the clock has not advanced.
\<close>

definition next_instance :: "u64 \<Rightarrow> u64 \<Rightarrow> u64" where
  "next_instance system_time previous = (if sint system_time > sint previous then system_time else previous + 1)"

definition initial_extension :: "u64 \<Rightarrow> bool \<Rightarrow> adapter_extension" where
  "initial_extension inst worker = LunStore_Initialize \<lparr>
     ax_signature = kAdapterExtensionSignature, ax_adapter_stopping = False,
     ax_management_busy = False, ax_management_idle = True, ax_management_worker = worker,
     ax_next_device_id = 1, ax_adapter_instance = inst, ax_next_operation_id = 1,
     ax_operations = replicate kMaximumOperationCount zero_record, ax_total_allocated_bytes = 0,
     ax_luns = replicate kMaximumDiskCount zero_lun\<rparr>"

definition initial_machine :: "u64 \<Rightarrow> machine" where
  "initial_machine inst = \<lparr>ma_driver = \<lparr>dr_ext = initial_extension inst True, dr_pool = Map.empty,
     dr_log = []\<rparr>, ma_threads = [], ma_fault = False\<rparr>"

fun run_labels :: "label list \<Rightarrow> machine \<Rightarrow> machine option" where
  "run_labels [] m = Some m"
| "run_labels (l # ls) m = (case step l m of None \<Rightarrow> None | Some m' \<Rightarrow> run_labels ls m')"

inductive reachable :: "machine \<Rightarrow> machine \<Rightarrow> bool" for m :: machine where
  reachable_refl: "reachable m m"
| reachable_step: "reachable m m' \<Longrightarrow> step l m' = Some m'' \<Longrightarrow> reachable m m''"

lemma reachable_trans: "reachable m' m'' \<Longrightarrow> reachable m m' \<Longrightarrow> reachable m m''"
  by (induction rule: reachable.induct) (auto intro: reachable_step)

lemma run_labels_reachable: "run_labels ls m = Some m' \<Longrightarrow> reachable m m'"
proof (induction ls arbitrary: m)
  case (Cons l ls)
  then obtain m1 where "run_labels ls m1 = Some m'" and "step l m = Some m1"
    by (auto split: option.splits)
  then show ?case
    by (rule reachable_trans [OF Cons.IH reachable_step [OF reachable_refl]])
qed (simp add: reachable_refl)

end
