(* ===== verification/Driver_Safety.thy ===== *)
theory Driver_Safety
  imports Driver_Machine
begin

text \<open>
  The safety of the driver: an invariant of every reachable machine, by rule induction over its
  steps. \<open>thread_ok\<close> is what a thread may rely on at its program location; the memory of the pool
  is partitioned between the LUNs and the one allocation or release in flight; the leases are
  counted in \<open>ActiveRequests\<close>; and \<open>ManagementBusy\<close> is a lock that at most one mutation holds.
\<close>

section \<open>Roles of threads\<close>

fun manager :: "thread \<Rightarrow> bool" where
  "manager (Leased b i view) = False"
| "manager (Releasing status b i) = False"
| "manager (Draining By_Shutdown i dev) = False"
| "manager (Detaching By_Shutdown i dev) = False"
| "manager (Freeing By_Shutdown i dev p) = False"
| "manager (Finalizing By_Shutdown i dev) = False"
| "manager Stopping_Wait = False"
| "manager Stopping_Mark = False"
| "manager Stopping_Next = False"
| "manager Stopping_Worker = False"
| "manager Stopped = False"
| "manager (Finished b) = False"
| "manager _ = True"

fun holds :: "nat \<Rightarrow> thread \<Rightarrow> bool" where
  "holds i (Leased b j view) = (j = i)"
| "holds i (Releasing status b j) = (j = i)"
| "holds i _ = False"

text \<open>The block that a thread owns and that no LUN refers to.\<close>

fun inflight :: "thread \<Rightarrow> nat option" where
  "inflight (Committing w i p) = Some p"
| "inflight (Discarding w status p) = Some p"
| "inflight (Freeing who i dev p) = Some p"
| "inflight _ = None"

definition count :: "('a \<Rightarrow> bool) \<Rightarrow> 'a list \<Rightarrow> nat" where
  "count P xs = length (filter P xs)"

lemma count_append [simp]: "count P (xs @ [x]) = count P xs + (if P x then 1 else 0)"
  by (simp add: count_def)

lemma count_Nil [simp]: "count P [] = 0"
  by (simp add: count_def)

lemma count_update:
  "k < length xs \<Longrightarrow> count P (xs[k := x]) + (if P (xs ! k) then 1 else 0) = count P xs + (if P x then 1 else 0)"
proof (induction xs arbitrary: k)
  case (Cons a xs)
  then show ?case by (cases k) (auto simp: count_def)
qed simp

lemma count_pos: "j < length xs \<Longrightarrow> P (xs ! j) \<Longrightarrow> 0 < count P xs"
  by (auto simp: count_def filter_empty_conv)

lemma count_unique:
  "count P xs \<le> 1 \<Longrightarrow> j < length xs \<Longrightarrow> k < length xs \<Longrightarrow> P (xs ! j) \<Longrightarrow> P (xs ! k) \<Longrightarrow> j = k"
proof (induction xs arbitrary: j k)
  case (Cons a xs)
  have zero: "count P xs = 0" if "P a" using Cons.prems(1) that by (simp add: count_def)
  have le: "count P xs \<le> 1" using Cons.prems(1) by (simp add: count_def split: if_splits)
  show ?case
    using Cons.prems Cons.IH [OF le] zero count_pos [of _ xs P]
    by (cases j; cases k) auto
qed simp

section \<open>The invariant\<close>

definition lun_free :: "create_request \<Rightarrow> nat \<Rightarrow> adapter_extension \<Rightarrow> bool" where
  "lun_free q i e \<longleftrightarrow> i < 16 \<and> lu_state (ax_luns e ! i) = Lun_Empty \<and> disk_size_ok (cq_size_bytes q)
     \<and> used_bytes (ax_luns e) + unat (cq_size_bytes q) \<le> 536870912"

definition no_backing :: "nat \<Rightarrow> adapter_extension \<Rightarrow> bool" where
  "no_backing p e \<longleftrightarrow> (\<forall>i < 16. lu_backing_store (ax_luns e ! i) \<noteq> Some p)"

definition stopping_lun :: "nat \<Rightarrow> u32 \<Rightarrow> adapter_extension \<Rightarrow> bool" where
  "stopping_lun i dev e \<longleftrightarrow> i < 16 \<and> lu_state (ax_luns e ! i) = Lun_Stopping
     \<and> lu_device_id (ax_luns e ! i) = dev"

text \<open>Admission closed and idle; and what \<open>MarkAllLunsStopping\<close> then establishes.\<close>

definition shut :: "adapter_extension \<Rightarrow> bool" where
  "shut e \<longleftrightarrow> ax_adapter_stopping e \<and> \<not> ax_management_busy e"

definition no_online :: "adapter_extension \<Rightarrow> bool" where
  "no_online e \<longleftrightarrow> (\<forall>i < 16. lu_state (ax_luns e ! i) \<noteq> Lun_Online)"

fun work_ok :: "work \<Rightarrow> bool" where
  "work_ok (Legacy_Create b q) = create_parameters_ok q"
| "work_ok (Legacy_Delete b q) = True"
| "work_ok (Reserved_Work b identity r) =
     (op_mutation r = operation_code Create_Disk \<longrightarrow> create_parameters_ok (op_create r))"

fun creates :: "work \<Rightarrow> bool" where
  "creates (Legacy_Create b q) = True"
| "creates (Legacy_Delete b q) = False"
| "creates (Reserved_Work b identity r) = (op_mutation r = operation_code Create_Disk)"

fun thread_ok :: "thread \<Rightarrow> adapter_extension \<Rightarrow> pool \<Rightarrow> bool" where
  "thread_ok (Leased b i view) e pool = (i < 16 \<and> srb_wf b
     \<and> lu_state (ax_luns e ! i) \<noteq> Lun_Empty
     \<and> lu_backing_store (ax_luns e ! i) = Some (lv_backing_store view)
     \<and> lu_size_bytes (ax_luns e ! i) = lv_size_bytes view)"
| "thread_ok (Releasing status b i) e pool = (i < 16 \<and> lu_state (ax_luns e ! i) \<noteq> Lun_Empty
     \<and> lu_backing_store (ax_luns e ! i) \<noteq> None)"
| "thread_ok (Preparing b c) e pool = True"
| "thread_ok (Queue_Failed b c) e pool = True"
| "thread_ok (Queued b) e pool = True"
| "thread_ok (Selecting w) e pool = (creates w \<and> work_ok w)"
| "thread_ok (Allocating w i) e pool = (creates w \<and> work_ok w \<and> lun_free (work_request w) i e)"
| "thread_ok (Committing w i p) e pool = (creates w \<and> work_ok w \<and> lun_free (work_request w) i e
     \<and> (\<exists>blk. pool p = Some blk \<and> pb_size blk = unat (cq_size_bytes (work_request w))
          \<and> (\<forall>k < pb_size blk. pb_data blk k = 0))
     \<and> no_backing p e)"
| "thread_ok (Discarding w status p) e pool = (creates w \<and> \<not> NT_SUCCESS status \<and> pool p \<noteq> None
     \<and> no_backing p e)"
| "thread_ok (Created w status disk) e pool = (creates w \<and> (case disk of
       None \<Rightarrow> \<not> NT_SUCCESS status
     | Some (dev, lun) \<Rightarrow> status = STATUS_SUCCESS \<and> unat lun < 16
         \<and> lu_state (ax_luns e ! unat lun) = Lun_Online
         \<and> lu_device_id (ax_luns e ! unat lun) = dev))"
| "thread_ok (Marking w) e pool = (\<not> creates w)"
| "thread_ok (Deleted w status) e pool = (\<not> creates w)"
| "thread_ok (Draining who i dev) e pool = ((who = By_Shutdown \<longrightarrow> shut e \<and> no_online e)
     \<and> (\<forall>w. who = By_Worker w \<longrightarrow> \<not> creates w)
     \<and> stopping_lun i dev e)"
| "thread_ok (Detaching who i dev) e pool = ((who = By_Shutdown \<longrightarrow> shut e \<and> no_online e)
     \<and> (\<forall>w. who = By_Worker w \<longrightarrow> \<not> creates w)
     \<and> stopping_lun i dev e \<and> lu_active_requests (ax_luns e ! i) = 0)"
| "thread_ok (Freeing who i dev p) e pool = ((who = By_Shutdown \<longrightarrow> shut e \<and> no_online e)
     \<and> (\<forall>w. who = By_Worker w \<longrightarrow> \<not> creates w)
     \<and> stopping_lun i dev e \<and> lu_backing_store (ax_luns e ! i) = None \<and> pool p \<noteq> None \<and> no_backing p e)"
| "thread_ok (Finalizing who i dev) e pool = ((who = By_Shutdown \<longrightarrow> shut e \<and> no_online e)
     \<and> (\<forall>w. who = By_Worker w \<longrightarrow> \<not> creates w)
     \<and> stopping_lun i dev e \<and> lu_backing_store (ax_luns e ! i) = None)"
| "thread_ok (Responding b) e pool = True"
| "thread_ok (Ending b) e pool = True"
| "thread_ok Stopping_Wait e pool = ax_adapter_stopping e"
| "thread_ok Stopping_Mark e pool = shut e"
| "thread_ok Stopping_Next e pool = (shut e \<and> no_online e)"
| "thread_ok Stopping_Worker e pool = (shut e \<and> (\<forall>i < 16. lu_state (ax_luns e ! i) = Lun_Empty))"
| "thread_ok Stopped e pool = (shut e \<and> (\<forall>i < 16. lu_state (ax_luns e ! i) = Lun_Empty))"
| "thread_ok (Finished b) e pool = True"

text \<open>
  Every block belongs to exactly one LUN or to one thread, and is as large as its LUN says.
\<close>

definition memory_ok :: "adapter_extension \<Rightarrow> pool \<Rightarrow> thread list \<Rightarrow> bool" where
  "memory_ok e pool ths \<longleftrightarrow>
     (\<forall>i < 16. \<forall>p. lu_backing_store (ax_luns e ! i) = Some p \<longrightarrow>
        (\<exists>blk. pool p = Some blk \<and> pb_size blk = unat (lu_size_bytes (ax_luns e ! i))))
     \<and> (\<forall>i < 16. \<forall>j < 16. \<forall>p. lu_backing_store (ax_luns e ! i) = Some p \<longrightarrow>
          lu_backing_store (ax_luns e ! j) = Some p \<longrightarrow> i = j)
     \<and> (\<forall>p. pool p \<noteq> None \<longrightarrow> (\<exists>i < 16. lu_backing_store (ax_luns e ! i) = Some p)
          \<or> (\<exists>th \<in> set ths. inflight th = Some p))"

definition leases_ok :: "adapter_extension \<Rightarrow> thread list \<Rightarrow> bool" where
  "leases_ok e ths \<longleftrightarrow> (\<forall>i < 16. count (holds i) ths = unat (lu_active_requests (ax_luns e ! i)))"

definition admission_ok :: "adapter_extension \<Rightarrow> thread list \<Rightarrow> bool" where
  "admission_ok e ths \<longleftrightarrow> count manager ths = (if ax_management_busy e then 1 else 0)
     \<and> ax_management_idle e = (\<not> ax_management_busy e) \<and> count stopper ths \<le> 1"

text \<open>Parameters that the worker will use were validated before they were recorded.\<close>

definition pending_valid :: "adapter_extension \<Rightarrow> bool" where
  "pending_valid e \<longleftrightarrow> (\<forall>r \<in> set (ax_operations e). op_state r = state_code State_Pending \<longrightarrow>
     op_mutation r = operation_code Create_Disk \<longrightarrow> create_parameters_ok (op_create r))"

definition safe :: "machine \<Rightarrow> bool" where
  "safe m \<longleftrightarrow> (let e = dr_ext (ma_driver m); pool = dr_pool (ma_driver m); ths = ma_threads m in
     \<not> ma_fault m \<and> luns_ok e \<and> memory_ok e pool ths \<and> leases_ok e ths \<and> admission_ok e ths
     \<and> pending_valid e \<and> (\<forall>th \<in> set ths. thread_ok th e pool))"

section \<open>Frames\<close>

lemma safeD:
  assumes "safe m"
  shows "\<not> ma_fault m" and "luns_ok (dr_ext (ma_driver m))"
    and "memory_ok (dr_ext (ma_driver m)) (dr_pool (ma_driver m)) (ma_threads m)"
    and "leases_ok (dr_ext (ma_driver m)) (ma_threads m)"
    and "admission_ok (dr_ext (ma_driver m)) (ma_threads m)"
    and "pending_valid (dr_ext (ma_driver m))"
    and "j < length (ma_threads m) \<Longrightarrow>
      thread_ok (ma_threads m ! j) (dr_ext (ma_driver m)) (dr_pool (ma_driver m))"
  using assms by (auto simp: safe_def Let_def)

lemma manager_not_stopper: "manager th \<Longrightarrow> \<not> stopper th"
  by (cases th rule: manager.cases) auto

lemma bex_set_nth: "(\<exists>x \<in> set xs. P x) \<longleftrightarrow> (\<exists>k < length xs. P (xs ! k))"
  by (metis in_set_conv_nth)

text \<open>A lease keeps the drain event of its LUN clear.\<close>

lemma lease_active:
  assumes "safe m" "j < length (ma_threads m)" "holds i (ma_threads m ! j)" "i < 16"
  shows "lu_active_requests (ax_luns (dr_ext (ma_driver m)) ! i) \<noteq> 0"
  using count_pos [OF assms(2), of "holds i"] assms safeD(4) [OF assms(1)]
  by (auto simp: leases_ok_def)

definition bystander :: "thread \<Rightarrow> bool" where
  "bystander th \<longleftrightarrow> \<not> manager th \<and> (stopper th \<longrightarrow> th = Stopping_Wait)"

lemma busy_iff_manager:
  assumes "safe m"
  shows "ax_management_busy (dr_ext (ma_driver m)) \<longleftrightarrow> (\<exists>k < length (ma_threads m). manager (ma_threads m ! k))"
proof -
  have "count manager (ma_threads m) = 0 \<longleftrightarrow> \<not> (\<exists>k < length (ma_threads m). manager (ma_threads m ! k))"
    unfolding bex_set_nth [symmetric] by (auto simp: count_def filter_empty_conv)
  then show ?thesis
    using safeD(5) [OF assms] by (auto simp: admission_ok_def split: if_splits)
qed

lemma stopper_ok: "stopper th \<Longrightarrow> th \<noteq> Stopping_Wait \<Longrightarrow> thread_ok th e pool \<Longrightarrow> shut e"
  by (cases th rule: stopper.cases) auto

lemma other_bystander:
  assumes safe: "safe m" and k: "k < length (ma_threads m)" and j: "j < length (ma_threads m)" "j \<noteq> k"
    and act: "manager (ma_threads m ! k)
      \<or> (stopper (ma_threads m ! k) \<and> ma_threads m ! k \<noteq> Stopping_Wait)"
  shows "bystander (ma_threads m ! j)"
proof -
  note adm = safeD(5) [OF safe, unfolded admission_ok_def]
  show ?thesis
  proof (cases "manager (ma_threads m ! k)")
    case True
    with busy_iff_manager [OF safe] k have busy: "ax_management_busy (dr_ext (ma_driver m))" by blast
    have "\<not> manager (ma_threads m ! j)"
      using count_unique [of manager "ma_threads m" j k] adm True j k by (auto split: if_splits)
    moreover have "stopper (ma_threads m ! j) \<Longrightarrow> ma_threads m ! j = Stopping_Wait"
      using stopper_ok [OF _ _ safeD(7) [OF safe j(1)]] busy by (auto simp: shut_def)
    ultimately show ?thesis by (simp add: bystander_def)
  next
    case False
    with act have st: "stopper (ma_threads m ! k)" "ma_threads m ! k \<noteq> Stopping_Wait" by auto
    then have "\<not> ax_management_busy (dr_ext (ma_driver m))"
      using stopper_ok [OF st safeD(7) [OF safe k]] by (simp add: shut_def)
    with busy_iff_manager [OF safe] j have "\<not> manager (ma_threads m ! j)" by blast
    moreover have "\<not> stopper (ma_threads m ! j)"
      using count_unique [of stopper "ma_threads m" j k] adm st j k by auto
    ultimately show ?thesis by (simp add: bystander_def)
  qed
qed

definition same_lease :: "nat \<Rightarrow> adapter_extension \<Rightarrow> adapter_extension \<Rightarrow> bool" where
  "same_lease i e e' \<longleftrightarrow>
     (lu_state (ax_luns e' ! i) = Lun_Empty) = (lu_state (ax_luns e ! i) = Lun_Empty)
     \<and> lu_backing_store (ax_luns e' ! i) = lu_backing_store (ax_luns e ! i)
     \<and> lu_size_bytes (ax_luns e' ! i) = lu_size_bytes (ax_luns e ! i)"

lemma same_lease_refl [simp]: "same_lease i e e"
  by (simp add: same_lease_def)

lemma thread_ok_bystander:
  assumes "bystander th" "thread_ok th e pool" "ax_adapter_stopping e \<longrightarrow> ax_adapter_stopping e'"
    and "\<And>i. i < 16 \<Longrightarrow> holds i th \<Longrightarrow> same_lease i e e'"
  shows "thread_ok th e' pool'"
  using assms
  by (cases th rule: manager.cases) (auto simp: bystander_def same_lease_def)

text \<open>
  The update of one thread: what has to be shown of the new state. A mutation or the shutdown
  only has to keep the LUNs that are leased.
\<close>

lemma safe_update_memory:
  assumes safe: "safe m" and k: "k < length (ma_threads m)"
    and luns: "luns_ok (dr_ext d')" and pend: "pending_valid (dr_ext d')"
    and self: "thread_ok th' (dr_ext d') (dr_pool d')"
    and others: "\<And>j. j < length (ma_threads m) \<Longrightarrow> j \<noteq> k \<Longrightarrow>
      thread_ok (ma_threads m ! j) (dr_ext d') (dr_pool d')"
    and lease: "\<And>i. i < 16 \<Longrightarrow> unat (lu_active_requests (ax_luns (dr_ext d') ! i))
        + (if holds i (ma_threads m ! k) then 1 else 0) =
      unat (lu_active_requests (ax_luns (dr_ext (ma_driver m)) ! i)) + (if holds i th' then 1 else 0)"
    and adm: "(if ax_management_busy (dr_ext d') then 1 else 0) + (if manager (ma_threads m ! k) then 1 else 0) =
        (if ax_management_busy (dr_ext (ma_driver m)) then 1 else 0) + (if manager th' then 1 else (0 :: nat))"
      "ax_management_idle (dr_ext d') = (\<not> ax_management_busy (dr_ext d'))"
      "stopper th' \<longrightarrow> stopper (ma_threads m ! k)"
    and mem: "memory_ok (dr_ext d') (dr_pool d') ((ma_threads m)[k := th'])"
  shows "safe (m\<lparr>ma_driver := d', ma_threads := (ma_threads m)[k := th']\<rparr>)"
proof -
  let ?ths = "(ma_threads m)[k := th']"
  have "leases_ok (dr_ext d') ?ths"
    unfolding leases_ok_def
  proof (intro allI impI)
    fix i :: nat assume i: "i < 16"
    show "count (holds i) ?ths = unat (lu_active_requests (ax_luns (dr_ext d') ! i))"
      using count_update [OF k, of "holds i" th'] lease [OF i] safeD(4) [OF safe] i
      by (simp add: leases_ok_def split: if_splits)
  qed
  moreover have "admission_ok (dr_ext d') ?ths"
    using count_update [OF k, of manager th'] count_update [OF k, of stopper th'] adm safeD(5) [OF safe]
    by (auto simp: admission_ok_def split: if_splits)
  moreover have "thread_ok th (dr_ext d') (dr_pool d')" if "th \<in> set ?ths" for th
    using that self others k by (auto simp: in_set_conv_nth nth_list_update split: if_splits)
  ultimately show ?thesis
    using luns pend mem safeD(1) [OF safe] by (simp add: safe_def Let_def)
qed

lemma inflight_update:
  assumes "k < length ths"
    and "inflight th' = Some p \<or> (\<exists>j < length ths. j \<noteq> k \<and> inflight (ths ! j) = Some p)"
  shows "\<exists>th \<in> set (ths[k := th']). inflight th = Some p"
  using assms(2)
proof (elim disjE exE conjE)
  assume "inflight th' = Some p"
  then show ?thesis using set_update_memI [OF assms(1)] by blast
next
  fix j assume "j < length ths" "j \<noteq> k" "inflight (ths ! j) = Some p"
  then show ?thesis
    unfolding bex_set_nth by (intro exI [of _ j]) simp
qed

lemma inflight_same:
  "k < length ths \<Longrightarrow> inflight th' = inflight (ths ! k) \<Longrightarrow> \<exists>th \<in> set ths. inflight th = Some p \<Longrightarrow>
    \<exists>th \<in> set (ths[k := th']). inflight th = Some p"
  by (rule inflight_update) (auto simp: in_set_conv_nth)

lemma memory_ok_frame:
  assumes "memory_ok e pool ths"
    and "\<And>i. i < 16 \<Longrightarrow> lu_backing_store (ax_luns e' ! i) = lu_backing_store (ax_luns e ! i)
      \<and> lu_size_bytes (ax_luns e' ! i) = lu_size_bytes (ax_luns e ! i)"
    and "\<And>p. map_option pb_size (pool' p) = map_option pb_size (pool p)"
    and "\<And>p. (\<exists>th \<in> set ths. inflight th = Some p) \<Longrightarrow> (\<exists>th \<in> set ths'. inflight th = Some p)"
  shows "memory_ok e' pool' ths'"
proof -
  have same: "lu_backing_store (ax_luns e' ! i) = lu_backing_store (ax_luns e ! i)"
    "lu_size_bytes (ax_luns e' ! i) = lu_size_bytes (ax_luns e ! i)" if "i < 16" for i
    using assms(2) that by simp_all
  note mem = assms(1) [unfolded memory_ok_def]
  show ?thesis
    unfolding memory_ok_def
  proof (intro conjI allI impI)
    fix i p assume i: "i < 16" and "lu_backing_store (ax_luns e' ! i) = Some p"
    then have "lu_backing_store (ax_luns e ! i) = Some p" using same(1) [OF i] by simp
    with mem i obtain blk where "pool p = Some blk" "pb_size blk = unat (lu_size_bytes (ax_luns e ! i))"
      by blast
    with same(2) [OF i] show "\<exists>blk. pool' p = Some blk \<and> pb_size blk = unat (lu_size_bytes (ax_luns e' ! i))"
      using assms(3) [of p] by (cases "pool' p") auto
  next
    fix i j p assume "i < 16" "j < 16" "lu_backing_store (ax_luns e' ! i) = Some p"
      "lu_backing_store (ax_luns e' ! j) = Some p"
    with same mem show "i = j" by simp
  next
    fix p assume "pool' p \<noteq> None"
    then have "pool p \<noteq> None" using assms(3) [of p] by (cases "pool p") auto
    then have "(\<exists>i < 16. lu_backing_store (ax_luns e ! i) = Some p) \<or> (\<exists>th \<in> set ths. inflight th = Some p)"
      using mem by blast
    then show "(\<exists>i < 16. lu_backing_store (ax_luns e' ! i) = Some p) \<or> (\<exists>th \<in> set ths'. inflight th = Some p)"
      using same(1) assms(4) [of p] by metis
  qed
qed

lemma busy_of_actor:
  assumes safe: "safe m" and k: "k < length (ma_threads m)"
    and act: "manager (ma_threads m ! k)
      \<or> (stopper (ma_threads m ! k) \<and> ma_threads m ! k \<noteq> Stopping_Wait)"
  shows "ax_management_busy (dr_ext (ma_driver m)) = manager (ma_threads m ! k)"
proof (cases "manager (ma_threads m ! k)")
  case True
  then show ?thesis using busy_iff_manager [OF safe] k by blast
next
  case False
  with act stopper_ok [OF _ _ safeD(7) [OF safe k]] show ?thesis by (auto simp: shut_def)
qed

text \<open>The common cases: the LUNs and the pool are as before.\<close>

definition same_memory :: "adapter_extension \<Rightarrow> adapter_extension \<Rightarrow> bool" where
  "same_memory e e' \<longleftrightarrow> (\<forall>i < 16. lu_backing_store (ax_luns e' ! i) = lu_backing_store (ax_luns e ! i)
     \<and> lu_size_bytes (ax_luns e' ! i) = lu_size_bytes (ax_luns e ! i)
     \<and> lu_active_requests (ax_luns e' ! i) = lu_active_requests (ax_luns e ! i)
     \<and> (lu_state (ax_luns e' ! i) = Lun_Empty) = (lu_state (ax_luns e ! i) = Lun_Empty))
     \<and> (ax_adapter_stopping e \<longrightarrow> ax_adapter_stopping e')"

lemma same_memory_lease: "same_memory e e' \<Longrightarrow> i < 16 \<Longrightarrow> same_lease i e e'"
  by (simp add: same_memory_def same_lease_def)

lemma safe_update_same_memory:
  assumes safe: "safe m" and k: "k < length (ma_threads m)"
    and act: "manager (ma_threads m ! k)
      \<or> (stopper (ma_threads m ! k) \<and> ma_threads m ! k \<noteq> Stopping_Wait)"
    and same: "same_memory (dr_ext (ma_driver m)) (dr_ext d')" and pool: "dr_pool d' = dr_pool (ma_driver m)"
    and luns: "luns_ok (dr_ext d')" and pend: "pending_valid (dr_ext d')"
    and self: "thread_ok th' (dr_ext d') (dr_pool d')" and fl: "inflight th' = inflight (ma_threads m ! k)"
    and role: "\<And>i. \<not> holds i th'" "\<And>i. \<not> holds i (ma_threads m ! k)" "stopper th' \<longrightarrow> stopper (ma_threads m ! k)"
    and adm: "ax_management_busy (dr_ext d') = manager th'"
      "ax_management_idle (dr_ext d') = (\<not> ax_management_busy (dr_ext d'))"
  shows "safe (m\<lparr>ma_driver := d', ma_threads := (ma_threads m)[k := th']\<rparr>)"
proof (rule safe_update_memory [OF safe k luns pend self])
  fix j assume j: "j < length (ma_threads m)" "j \<noteq> k"
  show "thread_ok (ma_threads m ! j) (dr_ext d') (dr_pool d')"
    by (rule thread_ok_bystander [OF other_bystander [OF safe k j act] safeD(7) [OF safe j(1)]])
      (use same in \<open>auto simp: same_memory_def same_lease_def\<close>)
next
  show "(if ax_management_busy (dr_ext d') then 1 else 0) + (if manager (ma_threads m ! k) then 1 else 0) =
      (if ax_management_busy (dr_ext (ma_driver m)) then 1 else 0) + (if manager th' then 1 else (0 :: nat))"
    using adm(1) busy_of_actor [OF safe k act] by simp
next
  show "memory_ok (dr_ext d') (dr_pool d') ((ma_threads m)[k := th'])"
    by (rule memory_ok_frame [OF safeD(3) [OF safe] _ _ inflight_same [OF k fl]])
      (use same in \<open>simp_all add: pool same_memory_def\<close>)
qed (use same role adm in \<open>auto simp: same_memory_def\<close>)

text \<open>
  A step of the mutation or of the shutdown that changes LUNs or the pool: leased LUNs stay as
  they are, everything else is up to the step.
\<close>

lemma safe_update_exclusive:
  assumes safe: "safe m" and k: "k < length (ma_threads m)"
    and act: "manager (ma_threads m ! k)
      \<or> (stopper (ma_threads m ! k) \<and> ma_threads m ! k \<noteq> Stopping_Wait)"
    and leased: "\<And>i. i < 16 \<Longrightarrow> lu_active_requests (ax_luns (dr_ext (ma_driver m)) ! i) \<noteq> 0 \<Longrightarrow>
      same_lease i (dr_ext (ma_driver m)) (dr_ext d')"
    and active: "\<And>i. i < 16 \<Longrightarrow> lu_active_requests (ax_luns (dr_ext d') ! i) =
      lu_active_requests (ax_luns (dr_ext (ma_driver m)) ! i)"
    and stopping: "ax_adapter_stopping (dr_ext d') = ax_adapter_stopping (dr_ext (ma_driver m))"
    and luns: "luns_ok (dr_ext d')" and pend: "pending_valid (dr_ext d')"
    and self: "thread_ok th' (dr_ext d') (dr_pool d')"
    and role: "\<And>i. \<not> holds i th'" "\<And>i. \<not> holds i (ma_threads m ! k)" "stopper th' \<longrightarrow> stopper (ma_threads m ! k)"
    and adm: "ax_management_busy (dr_ext d') = manager th'"
      "ax_management_idle (dr_ext d') = (\<not> ax_management_busy (dr_ext d'))"
    and blocks: "\<And>i p. i < 16 \<Longrightarrow> lu_backing_store (ax_luns (dr_ext d') ! i) = Some p \<Longrightarrow>
        \<exists>blk. dr_pool d' p = Some blk \<and> pb_size blk = unat (lu_size_bytes (ax_luns (dr_ext d') ! i))"
      "\<And>i j p. i < 16 \<Longrightarrow> j < 16 \<Longrightarrow> lu_backing_store (ax_luns (dr_ext d') ! i) = Some p \<Longrightarrow>
        lu_backing_store (ax_luns (dr_ext d') ! j) = Some p \<Longrightarrow> i = j"
      "\<And>p. dr_pool d' p \<noteq> None \<Longrightarrow> (\<exists>i < 16. lu_backing_store (ax_luns (dr_ext d') ! i) = Some p)
        \<or> inflight th' = Some p"
  shows "safe (m\<lparr>ma_driver := d', ma_threads := (ma_threads m)[k := th']\<rparr>)"
proof (rule safe_update_memory [OF safe k luns pend self])
  fix j assume j: "j < length (ma_threads m)" "j \<noteq> k"
  show "thread_ok (ma_threads m ! j) (dr_ext d') (dr_pool d')"
    by (rule thread_ok_bystander [OF other_bystander [OF safe k j act] safeD(7) [OF safe j(1)]])
      (use stopping leased lease_active [OF safe j(1)] in blast)+
next
  show "(if ax_management_busy (dr_ext d') then 1 else 0) + (if manager (ma_threads m ! k) then 1 else 0) =
      (if ax_management_busy (dr_ext (ma_driver m)) then 1 else 0) + (if manager th' then 1 else (0 :: nat))"
    using adm(1) busy_of_actor [OF safe k act] by simp
next
  show "memory_ok (dr_ext d') (dr_pool d') ((ma_threads m)[k := th'])"
    unfolding memory_ok_def
  proof (intro conjI allI impI)
    fix p assume "dr_pool d' p \<noteq> None"
    from blocks(3) [OF this] show "(\<exists>i < 16. lu_backing_store (ax_luns (dr_ext d') ! i) = Some p)
        \<or> (\<exists>th \<in> set ((ma_threads m)[k := th']). inflight th = Some p)"
      using inflight_update [OF k] by blast
  qed (use blocks(1,2) in blast)+
qed (use active role adm in auto)

section \<open>Steps of an I/O request\<close>

definition io_frame :: "adapter_extension \<Rightarrow> adapter_extension \<Rightarrow> bool" where
  "io_frame e e' \<longleftrightarrow> (\<forall>i < 16. lu_state (ax_luns e' ! i) = lu_state (ax_luns e ! i)
       \<and> lu_device_id (ax_luns e' ! i) = lu_device_id (ax_luns e ! i)
       \<and> lu_backing_store (ax_luns e' ! i) = lu_backing_store (ax_luns e ! i)
       \<and> lu_size_bytes (ax_luns e' ! i) = lu_size_bytes (ax_luns e ! i)
       \<and> (lu_state (ax_luns e ! i) = Lun_Stopping \<longrightarrow> lu_active_requests (ax_luns e ! i) = 0 \<longrightarrow>
            lu_active_requests (ax_luns e' ! i) = 0))
     \<and> used_bytes (ax_luns e') = used_bytes (ax_luns e)
     \<and> (ax_adapter_stopping e \<longrightarrow> ax_adapter_stopping e')
     \<and> (ax_adapter_stopping e \<and> \<not> ax_management_busy e \<longrightarrow> \<not> ax_management_busy e')"

lemma io_frame_backing:
  "io_frame e e' \<Longrightarrow> i < 16 \<Longrightarrow> lu_backing_store (ax_luns e' ! i) = lu_backing_store (ax_luns e ! i)
    \<and> lu_size_bytes (ax_luns e' ! i) = lu_size_bytes (ax_luns e ! i)"
  by (simp add: io_frame_def)

lemma thread_ok_io_frame:
  assumes "thread_ok th e pool" "io_frame e e'" "\<And>p. no_backing p e \<Longrightarrow> pool' p = pool p"
  shows "thread_ok th e' pool'"
proof -
  have nb: "no_backing p e' \<longleftrightarrow> no_backing p e" for p
    using assms(2) by (auto simp: no_backing_def io_frame_def)
  show ?thesis
    using assms
    by (cases th)
      (auto simp: io_frame_def nb lun_free_def stopping_lun_def shut_def no_online_def split: option.splits)
qed

lemma update_lun_io_frame:
  assumes "luns_ok e" "i < 16"
    and "lu_state (f (ax_luns e ! i)) = lu_state (ax_luns e ! i)"
    and "lu_device_id (f (ax_luns e ! i)) = lu_device_id (ax_luns e ! i)"
    and "lu_backing_store (f (ax_luns e ! i)) = lu_backing_store (ax_luns e ! i)"
    and "lu_size_bytes (f (ax_luns e ! i)) = lu_size_bytes (ax_luns e ! i)"
    and "lu_state (ax_luns e ! i) = Lun_Stopping \<Longrightarrow> lu_active_requests (ax_luns e ! i) \<noteq> 0"
  shows "io_frame e (update_lun i f e)"
  using assms luns_okD(1) [OF assms(1)] used_bytes_update [of i "ax_luns e" "f (ax_luns e ! i)"]
  by (auto simp: io_frame_def nth_list_update)

lemma memory_ok_io:
  assumes "memory_ok e pool ths" "io_frame e e'"
    and "\<And>p. map_option pb_size (pool' p) = map_option pb_size (pool p)"
    and "\<And>p. \<exists>th \<in> set ths. inflight th = Some p \<Longrightarrow> \<exists>th \<in> set ths'. inflight th = Some p"
  shows "memory_ok e' pool' ths'"
  by (rule memory_ok_frame [OF assms(1)]) (use assms io_frame_backing in auto)

text \<open>What a step of thread \<open>k\<close> has to deliver.\<close>

definition keeps_safe :: "machine \<Rightarrow> nat \<Rightarrow> progress \<Rightarrow> bool" where
  "keeps_safe m k p \<longleftrightarrow> (case p of
     Blocked \<Rightarrow> True
   | Fault \<Rightarrow> False
   | Step th' d' \<Rightarrow> safe (m\<lparr>ma_driver := d', ma_threads := (ma_threads m)[k := th']\<rparr>))"

lemma keeps_safe_simps [simp]:
  "keeps_safe m k Blocked" "\<not> keeps_safe m k Fault"
  by (simp_all add: keeps_safe_def)

lemma keeps_safe_Step:
  "keeps_safe m k (Step th' d') = safe (m\<lparr>ma_driver := d', ma_threads := (ma_threads m)[k := th']\<rparr>)"
  by (simp add: keeps_safe_def)

lemma leased_step:
  assumes safe: "safe m" and k: "k < length (ma_threads m)" and th: "ma_threads m ! k = Leased b i view"
  shows "keeps_safe m k (advance (ma_threads m ! k) (ma_driver m))"
proof -
  let ?e = "dr_ext (ma_driver m)" and ?pool = "dr_pool (ma_driver m)"
  from safeD(7) [OF safe k] th have ok: "i < 16" "srb_wf b" "lu_state (ax_luns ?e ! i) \<noteq> Lun_Empty"
    "lu_backing_store (ax_luns ?e ! i) = Some (lv_backing_store view)"
    "lu_size_bytes (ax_luns ?e ! i) = lv_size_bytes view" by auto
  from safeD(3) [OF safe] ok obtain blk where blk: "?pool (lv_backing_store view) = Some blk"
    "pb_size blk = unat (lv_size_bytes view)"
    unfolding memory_ok_def by metis
  from DispatchScsiCommand_safe [of b ?pool view, OF ok(2) blk]
  obtain status b' pool' where run: "DispatchScsiCommand view b ?pool = Some ((status, b'), pool')"
    and pool': "pool_same (lv_backing_store view) ?pool pool'" by blast
  have sizes: "map_option pb_size (pool' p) = map_option pb_size (?pool p)" for p
    using pool' by (cases "p = lv_backing_store view") (auto simp: pool_same_def)
  have frame: "io_frame ?e ?e" by (simp add: io_frame_def)
  let ?d' = "(ma_driver m)\<lparr>dr_pool := pool'\<rparr>"
  have "safe (m\<lparr>ma_driver := ?d', ma_threads := (ma_threads m)[k := Releasing status b' i]\<rparr>)"
  proof (rule safe_update_memory [OF safe k])
    fix j assume j: "j < length (ma_threads m)" "j \<noteq> k"
    have "pool' p = ?pool p" if "no_backing p ?e" for p
      using pool' that ok unfolding pool_same_def no_backing_def by metis
    from thread_ok_io_frame [OF safeD(7) [OF safe j(1)] frame this]
    show "thread_ok (ma_threads m ! j) (dr_ext ?d') (dr_pool ?d')" by simp
  next
    show "memory_ok (dr_ext ?d') (dr_pool ?d') ((ma_threads m)[k := Releasing status b' i])"
      using memory_ok_io [OF safeD(3) [OF safe] frame sizes inflight_same [OF k]] by (simp add: th)
  qed (use safeD(2,5,6) [OF safe] th ok in \<open>auto simp: admission_ok_def split: if_splits\<close>)
  with run show ?thesis by (simp add: th keeps_safe_Step)
qed

lemma releasing_step:
  assumes safe: "safe m" and k: "k < length (ma_threads m)" and th: "ma_threads m ! k = Releasing status b i"
  shows "keeps_safe m k (advance (ma_threads m ! k) (ma_driver m))"
proof -
  let ?e = "dr_ext (ma_driver m)" and ?e' = "ReleaseLunIo i (dr_ext (ma_driver m))"
  from safeD(7) [OF safe k] th have i: "i < 16" by simp
  have active: "lu_active_requests (ax_luns ?e ! i) \<noteq> 0"
    using lease_active [OF safe k _ i] th by simp
  then have e': "?e' = update_lun i (\<lambda>l. l\<lparr>lu_active_requests := lu_active_requests l - 1,
             lu_no_active_requests :=
               (if lu_active_requests l - 1 = 0 then True else lu_no_active_requests l)\<rparr>) ?e"
    by (simp add: ReleaseLunIo_def)
  have frame: "io_frame ?e ?e'"
    unfolding e' using safeD(2) [OF safe] i active by (intro update_lun_io_frame) simp_all
  have dec: "unat (lu_active_requests (ax_luns ?e ! i) - 1) + 1 = unat (lu_active_requests (ax_luns ?e ! i))"
    using active by (simp add: unat_minus_one unat_gt_0)
  have luns': "luns_ok ?e'" by (rule luns_ok_Release [OF safeD(2) [OF safe] i])
  have flags: "ax_management_busy ?e' = ax_management_busy ?e" "ax_management_idle ?e' = ax_management_idle ?e"
    "ax_operations ?e' = ax_operations ?e"
    by (simp_all add: e')
  let ?d' = "with_ext (ma_driver m) ?e'"
  have "safe (m\<lparr>ma_driver := ?d', ma_threads := (ma_threads m)[k := Finished (CompleteRequest status b)]\<rparr>)"
  proof (rule safe_update_memory [OF safe k])
    fix j assume j: "j < length (ma_threads m)" "j \<noteq> k"
    from thread_ok_io_frame [OF safeD(7) [OF safe j(1)] frame]
    show "thread_ok (ma_threads m ! j) (dr_ext ?d') (dr_pool ?d')" by simp
  next
    fix j :: nat assume "j < 16"
    then show "unat (lu_active_requests (ax_luns (dr_ext ?d') ! j))
        + (if holds j (ma_threads m ! k) then 1 else 0) =
      unat (lu_active_requests (ax_luns ?e ! j))
        + (if holds j (Finished (CompleteRequest status b)) then 1 else 0)"
      using dec i luns_okD(1) [OF safeD(2) [OF safe]] by (auto simp: th e' nth_list_update)
  next
    show "memory_ok (dr_ext ?d') (dr_pool ?d') ((ma_threads m)[k := Finished (CompleteRequest status b)])"
      using memory_ok_io [OF safeD(3) [OF safe] frame refl inflight_same [OF k]] by (simp add: th)
  qed (use safeD(5,6) [OF safe] luns' flags th in \<open>auto simp: admission_ok_def pending_valid_def split: if_splits\<close>)
  then show ?thesis by (simp add: th keeps_safe_Step)
qed

section \<open>Steps of a mutation\<close>

lemma operations_update [simp]:
  "ax_operations (update_record k f e) = (ax_operations e)[k := f (ax_operations e ! k)]"
  "ax_luns (update_record k f e) = ax_luns e"
  "ax_signature (update_record k f e) = ax_signature e"
  "ax_adapter_stopping (update_record k f e) = ax_adapter_stopping e"
  "ax_management_busy (update_record k f e) = ax_management_busy e"
  "ax_management_idle (update_record k f e) = ax_management_idle e"
  "ax_management_worker (update_record k f e) = ax_management_worker e"
  "ax_next_device_id (update_record k f e) = ax_next_device_id e"
  "ax_adapter_instance (update_record k f e) = ax_adapter_instance e"
  "ax_next_operation_id (update_record k f e) = ax_next_operation_id e"
  "ax_total_allocated_bytes (update_record k f e) = ax_total_allocated_bytes e"
  by (simp_all add: update_record_def)

text \<open>The part of the extension that the LUN invariant is about, and the flags.\<close>

definition luns_kept :: "adapter_extension \<Rightarrow> adapter_extension \<Rightarrow> bool" where
  "luns_kept e e' \<longleftrightarrow> ax_luns e' = ax_luns e \<and> ax_total_allocated_bytes e' = ax_total_allocated_bytes e
     \<and> ax_next_device_id e' = ax_next_device_id e \<and> ax_adapter_stopping e' = ax_adapter_stopping e"

lemma luns_keptD:
  assumes "luns_kept e e'" shows "luns_ok e \<Longrightarrow> luns_ok e'" and "same_memory e e'"
  using assms by (simp_all add: luns_kept_def luns_ok_def same_memory_def)

lemma luns_kept_refl [simp]: "luns_kept e e"
  by (simp add: luns_kept_def)

definition flags_kept :: "adapter_extension \<Rightarrow> adapter_extension \<Rightarrow> bool" where
  "flags_kept e e' \<longleftrightarrow> ax_management_busy e' = ax_management_busy e \<and> ax_management_idle e' = ax_management_idle e"

lemma pending_valid_update:
  assumes "pending_valid e"
    and "op_state r = state_code State_Pending \<Longrightarrow> op_mutation r = operation_code Create_Disk \<Longrightarrow>
      create_parameters_ok (op_create r)"
  shows "pending_valid (update_record k (\<lambda>_. r) e)"
  using assms by (auto simp: pending_valid_def dest!: set_update_subset_insert [THEN subsetD])

lemma update_record_const: "update_record k f e = update_record k (\<lambda>_. f (ax_operations e ! k)) e"
  by (simp add: update_record_def)

lemma FailOperation_effect:
  assumes "FailOperationLocked ident status corr b e = (b', e')"
  shows "luns_kept e e' \<and> flags_kept e e' \<and> (pending_valid e \<longrightarrow> pending_valid e')"
proof (cases "FindOperationLocked ident e")
  case (Some k)
  let ?f = "\<lambda>r. r\<lparr>op_state := state_code State_Failed, op_result := status\<rparr>"
  from assms Some have "e' = update_record k ?f e"
    by (simp add: FailOperationLocked_def Let_def)
  then have e': "e' = update_record k (\<lambda>_. ?f (ax_operations e ! k)) e"
    by (simp only: update_record_const [of k ?f])
  show ?thesis
    unfolding e' by (auto simp: luns_kept_def flags_kept_def intro: pending_valid_update)
qed (use assms in \<open>auto simp: FailOperationLocked_def flags_kept_def\<close>)

lemma EndManagement_effect [simp]:
  "luns_kept e (EndManagementLocked e)" "ax_management_busy (EndManagementLocked e) = False"
  "ax_management_idle (EndManagementLocked e)" "pending_valid (EndManagementLocked e) = pending_valid e"
  by (simp_all add: EndManagementLocked_def luns_kept_def pending_valid_def)

lemma luns_kept_trans: "luns_kept e e' \<Longrightarrow> luns_kept e' e'' \<Longrightarrow> luns_kept e e''"
  by (simp add: luns_kept_def)

lemma SubmitFailed_effect:
  assumes "SubmitFailed c b e = (b', e')"
  shows "luns_kept e e' \<and> \<not> ax_management_busy e' \<and> ax_management_idle e' \<and> (pending_valid e \<longrightarrow> pending_valid e')"
  using assms FailOperation_effect luns_kept_trans [OF _ EndManagement_effect(1)]
  by (auto simp: SubmitFailed_def split: prod.splits if_splits)

lemma Publish_effect:
  assumes "PublishOperationResult r corr b e = (b', e')" and ok: "luns_ok e"
    and "op_state r \<noteq> state_code State_Pending"
    and "NT_SUCCESS (op_result r) \<Longrightarrow> op_mutation r = operation_code Create_Disk \<Longrightarrow>
      unat (op_lun r) < 16 \<and> lu_state (ax_luns e ! unat (op_lun r)) \<noteq> Lun_Empty"
  shows "luns_ok e' \<and> same_memory e e' \<and> flags_kept e e' \<and> (pending_valid e \<longrightarrow> pending_valid e')"
proof (cases "FindOperationLocked (op_id r) e")
  case (Some k)
  let ?bind = "NT_SUCCESS (op_result r) \<and> op_mutation r = operation_code Create_Disk"
  let ?e1 = "if ?bind then BindCreateOperationLocked (op_lun r) (op_id r) e else e"
  have "luns_ok ?e1" using luns_ok_Bind [OF ok] assms(4) ok by simp
  moreover have "same_memory e ?e1" "flags_kept e ?e1" "ax_operations ?e1 = ax_operations e"
    using luns_okD(1) [OF ok] assms(4)
    by (auto simp: same_memory_def flags_kept_def BindCreateOperationLocked_def nth_list_update)
  moreover from assms Some have "e' = update_record k (\<lambda>_. r) ?e1"
    by (simp add: PublishOperationResult_def Let_def)
  ultimately show ?thesis
    using pending_valid_update [of ?e1 r k] assms(3)
    by (simp add: same_memory_def flags_kept_def luns_ok_def pending_valid_def del: if_split)
qed (use assms in \<open>auto simp: PublishOperationResult_def flags_kept_def luns_keptD(2)\<close>)

text \<open>A manager step that leaves LUNs, pool and role alone.\<close>

lemma manager_step_same:
  assumes safe: "safe m" and k: "k < length (ma_threads m)" and mgr: "manager (ma_threads m ! k)"
    and eff: "same_memory (dr_ext (ma_driver m)) (dr_ext d')" "luns_ok (dr_ext d')" "pending_valid (dr_ext d')"
    and pool: "dr_pool d' = dr_pool (ma_driver m)"
    and self: "thread_ok th' (dr_ext d') (dr_pool d')" and fl: "inflight th' = inflight (ma_threads m ! k)"
    and adm: "ax_management_busy (dr_ext d') = manager th'" "ax_management_idle (dr_ext d') = (\<not> manager th')"
    and role: "\<And>i. \<not> holds i th'" "\<not> stopper th'"
  shows "keeps_safe m k (Step th' d')"
  unfolding keeps_safe_Step
proof (rule safe_update_same_memory [OF safe k _ eff(1) pool eff(2,3) self fl role(1)])
  show "\<not> holds i (ma_threads m ! k)" for i
    using mgr by (cases "ma_threads m ! k") auto
qed (use mgr adm role in auto)

lemma manager_flags:
  assumes "safe m" "k < length (ma_threads m)" "manager (ma_threads m ! k)"
  shows "ax_management_busy (dr_ext (ma_driver m))" and "\<not> ax_management_idle (dr_ext (ma_driver m))"
  using busy_of_actor [OF assms(1,2)] assms safeD(5) [OF assms(1)] by (auto simp: admission_ok_def)

text \<open>A step that changes nothing shared.\<close>

lemma manager_step_local:
  assumes safe: "safe m" and k: "k < length (ma_threads m)" and mgr: "manager (ma_threads m ! k)" "manager th'"
    and self: "thread_ok th' (dr_ext (ma_driver m)) (dr_pool (ma_driver m))"
    and fl: "inflight th' = inflight (ma_threads m ! k)"
    and d': "dr_ext d' = dr_ext (ma_driver m)" "dr_pool d' = dr_pool (ma_driver m)"
  shows "keeps_safe m k (Step th' d')"
proof (rule manager_step_same [OF safe k mgr(1)])
  show "\<not> holds i th'" for i using mgr(2) by (cases th') auto
qed (use mgr self fl d' safeD [OF safe] manager_flags [OF safe k mgr(1)] manager_not_stopper
    in \<open>auto simp: same_memory_def\<close>)

lemma ValidateCreateRequest_ok:
  "ValidateCreateRequest bs len = (status, q) \<Longrightarrow> NT_SUCCESS status \<Longrightarrow> create_parameters_ok q"
  by (auto simp: ValidateCreateRequest_def split: prod.splits if_splits)

lemma FindOperation_Some:
  "FindOperationLocked ident e = Some k \<longleftrightarrow> ident \<noteq> 0 \<and> k < length (ax_operations e)
     \<and> op_id (ax_operations e ! k) = ident \<and> (\<forall>j < k. op_id (ax_operations e ! j) \<noteq> ident)"
  by (auto simp: FindOperationLocked_def find_index_Some)

lemma SnapshotPending_Ok:
  "SnapshotPendingOperation identity b e = Ok r \<Longrightarrow> r \<in> set (ax_operations e)
    \<and> op_state r = state_code State_Pending \<and> op_id r = oq_operation_id identity
    \<and> oq_adapter_instance identity = ax_adapter_instance e"
  by (auto simp: SnapshotPendingOperation_def Let_def FindOperation_Some split: option.splits if_splits)

lemma ProcessWorkItem_start_ok:
  assumes "pending_valid e" shows "thread_ok (ProcessWorkItem_start b e) e pool"
    and "manager (ProcessWorkItem_start b e)" and "inflight (ProcessWorkItem_start b e) = None"
  using assms
  by (auto simp: ProcessWorkItem_start_def Let_def pending_valid_def dest: ValidateCreateRequest_ok
      SnapshotPending_Ok split: sum.splits prod.splits)

lemma local_steps:
  assumes safe: "safe m" and k: "k < length (ma_threads m)"
  shows "ma_threads m ! k = Queued b \<Longrightarrow> keeps_safe m k (advance (ma_threads m ! k) (ma_driver m))"
    and "ma_threads m ! k = Selecting w \<Longrightarrow> keeps_safe m k (advance (ma_threads m ! k) (ma_driver m))"
    and "ma_threads m ! k = Responding b \<Longrightarrow> keeps_safe m k (advance (ma_threads m ! k) (ma_driver m))"
    and "keeps_safe m k (queue_work queued (ma_threads m ! k) (ma_driver m))"
proof -
  note okD = safeD [OF safe]
  show "keeps_safe m k (advance (ma_threads m ! k) (ma_driver m))" if "ma_threads m ! k = Queued b"
    using that ProcessWorkItem_start_ok [OF okD(6)] by (auto intro!: manager_step_local [OF safe k])
  show "keeps_safe m k (advance (ma_threads m ! k) (ma_driver m))" if th: "ma_threads m ! k = Selecting w"
  proof -
    from okD(7) [OF k] th have w: "creates w" "work_ok w" by auto
    then have params: "create_parameters_ok (work_request w)"
      by (cases w) auto
    then have size: "disk_size_ok (cq_size_bytes (work_request w))" by (rule create_parameters_size)
    then show ?thesis
      using th w SelectAvailableLun_Ok [OF _ okD(2) size]
      by (auto simp: lun_free_def SelectAvailableLun_def split: sum.splits if_splits option.splits
          intro!: manager_step_local [OF safe k])
  qed
  show "keeps_safe m k (advance (ma_threads m ! k) (ma_driver m))" if "ma_threads m ! k = Responding b"
    using that by (auto simp: log_event_def intro!: manager_step_local [OF safe k])
  show "keeps_safe m k (queue_work queued (ma_threads m ! k) (ma_driver m))"
    by (cases "ma_threads m ! k") (auto intro!: manager_step_local [OF safe k])
qed

lemma ending_step:
  assumes safe: "safe m" and k: "k < length (ma_threads m)" and th: "ma_threads m ! k = Ending b"
  shows "keeps_safe m k (advance (ma_threads m ! k) (ma_driver m))"
  using th safeD(2,6) [OF safe] luns_keptD [OF EndManagement_effect(1)]
  by (auto intro!: manager_step_same [OF safe k])

lemma queue_failed_step:
  assumes safe: "safe m" and k: "k < length (ma_threads m)" and th: "ma_threads m ! k = Queue_Failed b c"
  shows "keeps_safe m k (advance (ma_threads m ! k) (ma_driver m))"
proof -
  obtain b' e' where run: "SubmitFailed c b (dr_ext (ma_driver m)) = (b', e')" by (cases "SubmitFailed c b (dr_ext (ma_driver m))")
  from SubmitFailed_effect [OF run] have eff: "luns_kept (dr_ext (ma_driver m)) e'" "\<not> ax_management_busy e'"
    "ax_management_idle e'" "pending_valid e'" using safeD(6) [OF safe] by blast+
  show ?thesis
    using th run eff luns_keptD [OF eff(1)] safeD(2) [OF safe] by (auto intro!: manager_step_same [OF safe k])
qed

text \<open>Who holds a block while a mutation or the shutdown is at work.\<close>

lemma actor_memory:
  assumes safe: "safe m" and k: "k < length (ma_threads m)"
    and act: "manager (ma_threads m ! k)
      \<or> (stopper (ma_threads m ! k) \<and> ma_threads m ! k \<noteq> Stopping_Wait)"
    and p: "dr_pool (ma_driver m) p \<noteq> None"
  shows "(\<exists>i < 16. lu_backing_store (ax_luns (dr_ext (ma_driver m)) ! i) = Some p)
    \<or> inflight (ma_threads m ! k) = Some p"
proof -
  have "j = k" if "inflight (ma_threads m ! j) = Some q" "j < length (ma_threads m)" for j q
  proof (rule ccontr)
    assume "j \<noteq> k"
    with other_bystander [OF safe k that(2) _ act] that(1) show False
      by (cases "ma_threads m ! j" rule: manager.cases) (auto simp: bystander_def)
  qed
  with safeD(3) [OF safe, unfolded memory_ok_def bex_set_nth] p show ?thesis
    by blast
qed

lemma memory_blocks:
  assumes "safe m" "i < 16" "lu_backing_store (ax_luns (dr_ext (ma_driver m)) ! i) = Some p"
  shows "\<exists>blk. dr_pool (ma_driver m) p = Some blk
    \<and> pb_size blk = unat (lu_size_bytes (ax_luns (dr_ext (ma_driver m)) ! i))"
  using safeD(3) [OF assms(1)] assms(2,3) by (auto simp: memory_ok_def)

lemma memory_distinct:
  assumes "safe m" "i < 16" "j < 16" "lu_backing_store (ax_luns (dr_ext (ma_driver m)) ! i) = Some p"
    "lu_backing_store (ax_luns (dr_ext (ma_driver m)) ! j) = Some p"
  shows "i = j"
  using safeD(3) [OF assms(1)] assms by (auto simp: memory_ok_def)

lemma discarding_step:
  assumes safe: "safe m" and k: "k < length (ma_threads m)" and th: "ma_threads m ! k = Discarding w status p"
  shows "keeps_safe m k (advance (ma_threads m ! k) (ma_driver m))"
proof -
  let ?e = "dr_ext (ma_driver m)" and ?pool = "dr_pool (ma_driver m)"
  from safeD(7) [OF safe k] th have ok: "creates w" "\<not> NT_SUCCESS status" "?pool p \<noteq> None" "no_backing p ?e" by auto
  then have run: "StorPortFreePool ?pool p = Some (?pool(p := None))"
    by (auto simp: StorPortFreePool_def)
  have mgr: "manager (ma_threads m ! k)" by (simp add: th)
  let ?d' = "(ma_driver m)\<lparr>dr_pool := ?pool(p := None)\<rparr>"
  have "safe (m\<lparr>ma_driver := ?d', ma_threads := (ma_threads m)[k := Created w status None]\<rparr>)"
  proof (rule safe_update_exclusive [OF safe k])
    fix q assume "dr_pool ?d' q \<noteq> None"
    then have "?pool q \<noteq> None" "q \<noteq> p" by (auto split: if_splits)
    with actor_memory [OF safe k disjI1 [OF mgr]] th
    show "(\<exists>i < 16. lu_backing_store (ax_luns (dr_ext ?d') ! i) = Some q)
        \<or> inflight (Created w status None) = Some q" by fastforce
  next
    fix i q assume i: "i < 16" and q: "lu_backing_store (ax_luns (dr_ext ?d') ! i) = Some q"
    then have "q \<noteq> p" using ok(4) by (auto simp: no_backing_def)
    with memory_blocks [OF safe i] q show "\<exists>blk. dr_pool ?d' q = Some blk
        \<and> pb_size blk = unat (lu_size_bytes (ax_luns (dr_ext ?d') ! i))"
      by simp
  qed (use memory_distinct [OF safe] mgr ok th safeD(2,6) [OF safe] manager_flags [OF safe k mgr] in auto)
  then show ?thesis by (simp add: th run keeps_safe_Step)
qed

lemma allocating_step:
  assumes safe: "safe m" and k: "k < length (ma_threads m)"
  shows "keeps_safe m k (allocate_pool answer (ma_threads m ! k) (ma_driver m))"
proof (cases "\<exists>w i. ma_threads m ! k = Allocating w i")
  case False
  then show ?thesis by (cases "ma_threads m ! k"; cases answer) auto
next
  case True
  then obtain w i where th: "ma_threads m ! k = Allocating w i" by blast
  let ?e = "dr_ext (ma_driver m)" and ?pool = "dr_pool (ma_driver m)"
  from safeD(7) [OF safe k] th have ok: "creates w" "work_ok w" "lun_free (work_request w) i ?e" by auto
  have mgr: "manager (ma_threads m ! k)" by (simp add: th)
  show ?thesis
  proof (cases answer)
    case None
    then show ?thesis
      using th ok by (auto intro!: manager_step_local [OF safe k])
  next
    case (Some a)
    obtain p contents where a: "a = (p, contents)" by (cases a)
    let ?sz = "cq_size_bytes (work_request w)"
    show ?thesis
    proof (cases "p \<in> dom ?pool")
      case False
      have "unat ?sz < 2 ^ 32" using ok(3) by (simp add: lun_free_def disk_size_ok_def)
      then have len: "unat (ucast ?sz :: u32) = unat ?sz"
        by (simp add: unsigned_ucast_eq take_bit_nat_eq_self)
      let ?blk = "\<lparr>pb_size = unat ?sz, pb_data = (\<lambda>k. if k < unat ?sz then 0 else contents k)\<rparr>"
      let ?d' = "(ma_driver m)\<lparr>dr_pool := ?pool(p \<mapsto> ?blk)\<rparr>"
      have run: "allocate_pool answer (ma_threads m ! k) (ma_driver m) = Step (Committing w i p) ?d'"
        using False by (simp add: Some a th Let_def len pool_allocate_def RtlZeroMemory_def cong: if_cong)
      have nb: "no_backing p ?e"
        using False memory_blocks [OF safe, of _ p] by (fastforce simp: no_backing_def domIff)
      have "safe (m\<lparr>ma_driver := ?d', ma_threads := (ma_threads m)[k := Committing w i p]\<rparr>)"
      proof (rule safe_update_exclusive [OF safe k])
        fix q assume "dr_pool ?d' q \<noteq> None"
        then have "?pool q \<noteq> None \<or> q = p" by (auto split: if_splits)
        with actor_memory [OF safe k disjI1 [OF mgr]] th
        show "(\<exists>i < 16. lu_backing_store (ax_luns (dr_ext ?d') ! i) = Some q)
            \<or> inflight (Committing w i p) = Some q" by fastforce
      next
        fix j q assume j: "j < 16" and q: "lu_backing_store (ax_luns (dr_ext ?d') ! j) = Some q"
        then have "q \<noteq> p" using nb by (auto simp: no_backing_def)
        with memory_blocks [OF safe j] q show "\<exists>blk. dr_pool ?d' q = Some blk
            \<and> pb_size blk = unat (lu_size_bytes (ax_luns (dr_ext ?d') ! j))"
          by simp
      qed (use memory_distinct [OF safe] mgr ok th nb safeD(2,6) [OF safe] manager_flags [OF safe k mgr] in auto)
      then show ?thesis by (simp add: run keeps_safe_Step)
    qed (simp add: Some a th)
  qed
qed

lemma committing_step:
  assumes safe: "safe m" and k: "k < length (ma_threads m)" and th: "ma_threads m ! k = Committing w i p"
  shows "keeps_safe m k (advance (ma_threads m ! k) (ma_driver m))"
proof -
  let ?e = "dr_ext (ma_driver m)" and ?pool = "dr_pool (ma_driver m)" and ?q = "work_request w"
  from safeD(7) [OF safe k] th obtain blk where ok: "creates w" "work_ok w" "lun_free ?q i ?e"
    "no_backing p ?e" and blk: "?pool p = Some blk" "pb_size blk = unat (cq_size_bytes ?q)" by auto
  have mgr: "manager (ma_threads m ! k)" by (simp add: th)
  show ?thesis
  proof (cases "CommitNewLun ?q i p ?e")
    case (Inl status)
    then have "\<not> NT_SUCCESS status"
      by (auto simp: CommitNewLun_def Let_def split: if_splits)
    with Inl th ok blk show ?thesis
      by (auto intro!: manager_step_local [OF safe k])
  next
    case (Inr r)
    obtain dev e' where r: "r = (dev, e')" by (cases r)
    note run = Inr [unfolded r]
    note eff = CommitNewLun_Ok [OF run]
    from ok(3) have i: "i < 16" "lu_state (ax_luns ?e ! i) = Lun_Empty" by (auto simp: lun_free_def)
    have len: "length (ax_luns ?e) = 16" by (rule luns_okD(1) [OF safeD(2) [OF safe]])
    have idle: "lu_active_requests (ax_luns ?e ! i) = 0"
      using luns_okD(2) [OF safeD(2) [OF safe] i(1)] i(2) by (simp add: lun_ok_def)
    have luns: "luns_ok e'"
      using luns_ok_Commit [OF safeD(2) [OF safe] i(1) _ _ run] ok(3) by (simp add: lun_free_def)
    have nth: "ax_luns e' ! j = (if j = i then ax_luns e' ! i else ax_luns ?e ! j)" if "j < 16" for j
      using eff len i by (simp add: nth_list_update)
    have new: "lu_state (ax_luns e' ! i) = Lun_Online" "lu_device_id (ax_luns e' ! i) = dev"
      "lu_backing_store (ax_luns e' ! i) = Some p" "lu_size_bytes (ax_luns e' ! i) = cq_size_bytes ?q"
      "lu_active_requests (ax_luns e' ! i) = 0"
      using eff len i by simp_all
    let ?d' = "log_event (Disk_Committed (work_operation w) dev i ?q) (with_ext (ma_driver m) e')"
    let ?th' = "Created w STATUS_SUCCESS (Some (dev, word_of_nat i))"
    have d': "dr_ext ?d' = e'" "dr_pool ?d' = ?pool" by (simp_all add: log_event_def)
    have lun: "unat (word_of_nat i :: u8) = i" using i(1) by (simp add: unsigned_of_nat take_bit_nat_eq_self)
    have "safe (m\<lparr>ma_driver := ?d', ma_threads := (ma_threads m)[k := ?th']\<rparr>)"
    proof (rule safe_update_exclusive [OF safe k], unfold d')
      fix j :: nat assume j: "j < 16"
      show "lu_active_requests (ax_luns ?e ! j) \<noteq> 0 \<Longrightarrow> same_lease j ?e e'"
        using nth [OF j] idle by (auto simp: same_lease_def split: if_splits)
      show "lu_active_requests (ax_luns e' ! j) = lu_active_requests (ax_luns ?e ! j)"
        using nth [OF j] idle new by (auto split: if_splits)
      fix q assume "lu_backing_store (ax_luns e' ! j) = Some q"
      then show "\<exists>blk. ?pool q = Some blk \<and> pb_size blk = unat (lu_size_bytes (ax_luns e' ! j))"
        using nth [OF j] new blk memory_blocks [OF safe j, of q] by (auto split: if_splits)
    next
      fix j j' :: nat and q assume j: "j < 16" "j' < 16" "lu_backing_store (ax_luns e' ! j) = Some q"
        "lu_backing_store (ax_luns e' ! j') = Some q"
      then show "j = j'"
        using nth [OF j(1)] nth [OF j(2)] new ok(4) memory_distinct [OF safe j(1,2)]
        by (auto simp: no_backing_def split: if_splits)
    next
      fix q assume "?pool q \<noteq> None"
      with actor_memory [OF safe k disjI1 [OF mgr]] th
      have "(\<exists>j < 16. lu_backing_store (ax_luns ?e ! j) = Some q) \<or> q = p" by fastforce
      moreover have "lu_backing_store (ax_luns ?e ! j) = Some q \<Longrightarrow> j < 16 \<Longrightarrow> lu_backing_store (ax_luns e' ! j) = Some q" for j
        using nth [of j] luns_okD(2) [OF safeD(2) [OF safe] i(1)] i(2) by (auto simp: lun_ok_def split: if_splits)
      ultimately show "(\<exists>j < 16. lu_backing_store (ax_luns e' ! j) = Some q) \<or> inflight ?th' = Some q"
        using new(3) i(1) by blast
    qed (use mgr eff luns new lun i ok th safeD(6) [OF safe] manager_flags [OF safe k mgr] in
        \<open>auto simp: pending_valid_def\<close>)
    with run show ?thesis by (simp add: th keeps_safe_Step)
  qed
qed

lemma created_step:
  assumes safe: "safe m" and k: "k < length (ma_threads m)" and th: "ma_threads m ! k = Created w status disk"
  shows "keeps_safe m k (advance (ma_threads m ! k) (ma_driver m))"
proof -
  let ?e = "dr_ext (ma_driver m)"
  have mgr: "manager (ma_threads m ! k)" by (simp add: th)
  from safeD(7) [OF safe k] th have ok: "thread_ok (Created w status disk) ?e (dr_pool (ma_driver m))" by simp
  obtain b' e' where run: "after_create w status disk ?e = (b', e')" by (cases "after_create w status disk ?e")
  have "luns_ok e' \<and> same_memory ?e e' \<and> flags_kept ?e e' \<and> pending_valid e'"
  proof (cases w)
    case (Reserved_Work b identity r)
    let ?r1 = "case disk of None \<Rightarrow> r | Some (device_id, lun) \<Rightarrow> r\<lparr>op_device_id := device_id, op_lun := lun\<rparr>"
    let ?snap = "?r1\<lparr>op_result := status, op_state := outcome_state status\<rparr>"
    from run Reserved_Work have pub: "PublishOperationResult ?snap (rq_correlation_id (oq_header identity)) b ?e = (b', e')"
      by (simp add: after_create_def Let_def)
    have "luns_ok e' \<and> same_memory ?e e' \<and> flags_kept ?e e' \<and> (pending_valid ?e \<longrightarrow> pending_valid e')"
      by (rule Publish_effect [OF pub safeD(2) [OF safe]])
        (use ok in \<open>auto simp: outcome_state_def split: option.splits\<close>)
    then show ?thesis using safeD(6) [OF safe] by blast
  qed (use run safeD(2,6) [OF safe] in \<open>auto simp: after_create_def flags_kept_def luns_keptD(2) split: option.splits\<close>)
  then show ?thesis
    using th run manager_flags [OF safe k mgr] mgr
    by (auto simp: flags_kept_def intro!: manager_step_same [OF safe k])
qed

lemma deleted_step:
  assumes safe: "safe m" and k: "k < length (ma_threads m)" and th: "ma_threads m ! k = Deleted w status"
  shows "keeps_safe m k (advance (ma_threads m ! k) (ma_driver m))"
proof -
  let ?e = "dr_ext (ma_driver m)"
  have mgr: "manager (ma_threads m ! k)" by (simp add: th)
  from safeD(7) [OF safe k] th have ok: "\<not> creates w" by simp
  obtain b' e' where run: "after_delete w status ?e = (b', e')" by (cases "after_delete w status ?e")
  have "luns_ok e' \<and> same_memory ?e e' \<and> flags_kept ?e e' \<and> pending_valid e'"
  proof (cases w)
    case (Reserved_Work b identity r)
    let ?snap = "r\<lparr>op_result := status, op_device_id := dq_device_id (op_delete r), op_state := outcome_state status\<rparr>"
    from run Reserved_Work have pub: "PublishOperationResult ?snap (rq_correlation_id (oq_header identity)) b ?e = (b', e')"
      by (simp add: after_delete_def Let_def)
    have "luns_ok e' \<and> same_memory ?e e' \<and> flags_kept ?e e' \<and> (pending_valid ?e \<longrightarrow> pending_valid e')"
      by (rule Publish_effect [OF pub safeD(2) [OF safe]])
        (use ok Reserved_Work in \<open>auto simp: outcome_state_def\<close>)
    then show ?thesis using safeD(6) [OF safe] by blast
  qed (use run safeD(2,6) [OF safe] in \<open>auto simp: after_delete_def flags_kept_def luns_keptD(2)\<close>)
  then show ?thesis
    using th run manager_flags [OF safe k mgr] mgr
    by (auto simp: flags_kept_def intro!: manager_step_same [OF safe k])
qed

section \<open>Steps of a removal and of the shutdown\<close>

definition is_worker :: "remover \<Rightarrow> bool" where
  "is_worker who \<longleftrightarrow> who \<noteq> By_Shutdown"

lemma remover_roles [simp]:
  "manager (Draining who i dev) = is_worker who" "manager (Detaching who i dev) = is_worker who"
  "manager (Freeing who i dev p) = is_worker who" "manager (Finalizing who i dev) = is_worker who"
  "stopper (Draining who i dev) = (\<not> is_worker who)" "stopper (Detaching who i dev) = (\<not> is_worker who)"
  "stopper (Freeing who i dev p) = (\<not> is_worker who)" "stopper (Finalizing who i dev) = (\<not> is_worker who)"
  by (cases who; simp add: is_worker_def)+

lemma actor_flags:
  assumes "safe m" "k < length (ma_threads m)"
    and "manager (ma_threads m ! k) \<or> (stopper (ma_threads m ! k) \<and> ma_threads m ! k \<noteq> Stopping_Wait)"
  shows "ax_management_busy (dr_ext (ma_driver m)) = manager (ma_threads m ! k)"
    and "ax_management_idle (dr_ext (ma_driver m)) = (\<not> manager (ma_threads m ! k))"
  using busy_of_actor [OF assms] safeD(5) [OF assms(1)] by (auto simp: admission_ok_def)

lemma actor_step_local:
  assumes safe: "safe m" and k: "k < length (ma_threads m)"
    and act: "manager (ma_threads m ! k) \<or> (stopper (ma_threads m ! k) \<and> ma_threads m ! k \<noteq> Stopping_Wait)"
    and self: "thread_ok th' (dr_ext (ma_driver m)) (dr_pool (ma_driver m))"
    and fl: "inflight th' = inflight (ma_threads m ! k)"
    and role: "manager th' = manager (ma_threads m ! k)" "stopper th' = stopper (ma_threads m ! k)"
  shows "keeps_safe m k (Step th' (ma_driver m))"
  unfolding keeps_safe_Step
proof (rule safe_update_same_memory [OF safe k act])
  show "\<not> holds i th'" for i using act role by (cases th') auto
  show "\<not> holds i (ma_threads m ! k)" for i using act by (cases "ma_threads m ! k") auto
qed (use self fl role safeD(2,6) [OF safe] actor_flags [OF safe k act] in \<open>auto simp: same_memory_def\<close>)

lemma marking_step:
  assumes safe: "safe m" and k: "k < length (ma_threads m)" and th: "ma_threads m ! k = Marking w"
  shows "keeps_safe m k (advance (ma_threads m ! k) (ma_driver m))"
proof -
  let ?e = "dr_ext (ma_driver m)"
  from safeD(7) [OF safe k] th have w: "\<not> creates w" by simp
  show ?thesis
  proof (cases "MarkLunStopping (work_device w) ?e")
    case None
    with th w show ?thesis by (auto intro!: actor_step_local [OF safe k])
  next
    case (Some r)
    obtain i e' where r: "r = (i, e')" by (cases r)
    from MarkLunStopping_Some [OF Some [unfolded r] safeD(2) [OF safe]]
    have i: "i < 16" "lu_state (ax_luns ?e ! i) = Lun_Online" "lu_device_id (ax_luns ?e ! i) = work_device w"
      and e': "e' = update_lun i (\<lambda>l. l\<lparr>lu_state := Lun_Stopping\<rparr>) ?e" and luns: "luns_ok e'" by auto
    have same: "same_memory ?e e'"
      using luns_okD(1) [OF safeD(2) [OF safe]] i by (auto simp: same_memory_def e' nth_list_update)
    have "stopping_lun i (work_device w) e'"
      using luns_okD(1) [OF safeD(2) [OF safe]] i by (simp add: stopping_lun_def e')
    then show ?thesis
      using th w Some r same luns safeD(6) [OF safe] manager_flags [OF safe k]
      by (auto simp: e' pending_valid_def is_worker_def intro!: manager_step_same [OF safe k])
  qed
qed

lemma draining_step:
  assumes safe: "safe m" and k: "k < length (ma_threads m)" and th: "ma_threads m ! k = Draining who i dev"
  shows "keeps_safe m k (advance (ma_threads m ! k) (ma_driver m))"
proof -
  let ?e = "dr_ext (ma_driver m)"
  from safeD(7) [OF safe k] th have ok: "thread_ok (Draining who i dev) ?e (dr_pool (ma_driver m))" by simp
  then have "i < 16" by (simp add: stopping_lun_def)
  from luns_okD(2) [OF safeD(2) [OF safe] this]
  have "lu_no_active_requests (ax_luns ?e ! i) = (lu_active_requests (ax_luns ?e ! i) = 0)"
    by (simp add: lun_ok_def)
  with ok th show ?thesis
    by (auto intro!: actor_step_local [OF safe k])
qed

lemma detaching_step:
  assumes safe: "safe m" and k: "k < length (ma_threads m)" and th: "ma_threads m ! k = Detaching who i dev"
  shows "keeps_safe m k (advance (ma_threads m ! k) (ma_driver m))"
proof -
  let ?e = "dr_ext (ma_driver m)" and ?pool = "dr_pool (ma_driver m)"
  from safeD(7) [OF safe k] th have ok: "thread_ok (Detaching who i dev) ?e ?pool" by simp
  have act: "manager (ma_threads m ! k) \<or> (stopper (ma_threads m ! k) \<and> ma_threads m ! k \<noteq> Stopping_Wait)"
    by (simp add: th)
  from ok have i: "i < 16" "lu_state (ax_luns ?e ! i) = Lun_Stopping" "lu_device_id (ax_luns ?e ! i) = dev"
    and idle: "lu_active_requests (ax_luns ?e ! i) = 0" by (auto simp: stopping_lun_def)
  let ?e' = "update_lun i (\<lambda>l. l\<lparr>lu_backing_store := None\<rparr>) ?e"
  have det: "DetachBackingStore i dev ?e = (lu_backing_store (ax_luns ?e ! i), ?e')"
    using i by (simp add: DetachBackingStore_def Let_def)
  have luns: "luns_ok ?e'"
    using luns_ok_Detach [OF safeD(2) [OF safe] i(1) idle, of dev] det by simp
  have len: "length (ax_luns ?e) = 16" by (rule luns_okD(1) [OF safeD(2) [OF safe]])
  have nth: "ax_luns ?e' ! j = (if j = i then (ax_luns ?e ! i)\<lparr>lu_backing_store := None\<rparr> else ax_luns ?e ! j)" if "j < 16" for j
    using len i that by (simp add: nth_list_update)
  have state: "lu_state (ax_luns ?e' ! j) = lu_state (ax_luns ?e ! j)"
    "lu_device_id (ax_luns ?e' ! j) = lu_device_id (ax_luns ?e ! j)" if "j < 16" for j
    using nth [OF that] by (cases "j = i"; simp)+
  have frame: "shut ?e' = shut ?e" "no_online ?e' = no_online ?e" "stopping_lun i dev ?e' = stopping_lun i dev ?e"
    using state by (simp_all add: shut_def no_online_def stopping_lun_def del: luns_update(1) cong: conj_cong)
  show ?thesis
  proof (cases "lu_backing_store (ax_luns ?e ! i)")
    case None
    have "(ax_luns ?e ! i)\<lparr>lu_backing_store := None\<rparr> = ax_luns ?e ! i"
      using None by (cases "ax_luns ?e ! i") simp
    then have same: "?e' = ?e" by (simp add: update_lun_def)
    have "keeps_safe m k (Step (Finalizing who i dev) (ma_driver m))"
      using th ok None by (intro actor_step_local [OF safe k act]) auto
    with same have "keeps_safe m k (Step (Finalizing who i dev) (with_ext (ma_driver m) ?e'))" by simp
    with None det show ?thesis by (simp add: th)
  next
    case (Some p)
    let ?d' = "with_ext (ma_driver m) ?e'"
    have nb: "no_backing p ?e'"
      unfolding no_backing_def
    proof (intro allI impI)
      fix j :: nat assume j: "j < 16"
      show "lu_backing_store (ax_luns ?e' ! j) \<noteq> Some p"
        using nth [OF j] memory_distinct [OF safe j i(1) _ Some] by (cases "j = i") auto
    qed
    have pool: "?pool p \<noteq> None" using memory_blocks [OF safe i(1) Some] by blast
    have "safe (m\<lparr>ma_driver := ?d', ma_threads := (ma_threads m)[k := Freeing who i dev p]\<rparr>)"
    proof (rule safe_update_exclusive [OF safe k act])
      fix j :: nat assume j: "j < 16"
      show "lu_active_requests (ax_luns ?e ! j) \<noteq> 0 \<Longrightarrow> same_lease j ?e (dr_ext ?d')"
        using nth [OF j] idle by (auto simp: same_lease_def)
      show "lu_active_requests (ax_luns (dr_ext ?d') ! j) = lu_active_requests (ax_luns ?e ! j)"
        using nth [OF j] by simp
      fix q assume "lu_backing_store (ax_luns (dr_ext ?d') ! j) = Some q"
      then show "\<exists>blk. dr_pool ?d' q = Some blk \<and> pb_size blk = unat (lu_size_bytes (ax_luns (dr_ext ?d') ! j))"
        using nth [OF j] memory_blocks [OF safe j, of q] by (auto split: if_splits)
    next
      fix j j' :: nat and q assume "j < 16" "j' < 16" "lu_backing_store (ax_luns (dr_ext ?d') ! j) = Some q"
        "lu_backing_store (ax_luns (dr_ext ?d') ! j') = Some q"
      then show "j = j'" using nth memory_distinct [OF safe, of j j' q] by (auto split: if_splits)
    next
      fix q assume "dr_pool ?d' q \<noteq> None"
      with actor_memory [OF safe k act] th have "\<exists>j < 16. lu_backing_store (ax_luns ?e ! j) = Some q" by fastforce
      then obtain j where j: "j < 16" "lu_backing_store (ax_luns ?e ! j) = Some q" by blast
      show "(\<exists>j < 16. lu_backing_store (ax_luns (dr_ext ?d') ! j) = Some q) \<or> inflight (Freeing who i dev p) = Some q"
      proof (cases "j = i")
        case False
        then have "lu_backing_store (ax_luns (dr_ext ?d') ! j) = Some q" using j nth [OF j(1)] by simp
        with j(1) show ?thesis by blast
      qed (use j Some in simp)
    qed (use th ok luns nb pool frame nth i safeD(6) [OF safe] actor_flags [OF safe k act] in
        \<open>auto simp: pending_valid_def\<close>)
    with Some det show ?thesis by (simp add: th keeps_safe_Step)
  qed
qed

lemma freeing_step:
  assumes safe: "safe m" and k: "k < length (ma_threads m)" and th: "ma_threads m ! k = Freeing who i dev p"
  shows "keeps_safe m k (advance (ma_threads m ! k) (ma_driver m))"
proof -
  let ?e = "dr_ext (ma_driver m)" and ?pool = "dr_pool (ma_driver m)"
  from safeD(7) [OF safe k] th have ok: "thread_ok (Freeing who i dev p) ?e ?pool" by simp
  then have run: "StorPortFreePool ?pool p = Some (?pool(p := None))" and nb: "no_backing p ?e"
    by (auto simp: StorPortFreePool_def)
  have act: "manager (ma_threads m ! k) \<or> (stopper (ma_threads m ! k) \<and> ma_threads m ! k \<noteq> Stopping_Wait)"
    by (simp add: th)
  let ?d' = "(ma_driver m)\<lparr>dr_pool := ?pool(p := None)\<rparr>"
  have "safe (m\<lparr>ma_driver := ?d', ma_threads := (ma_threads m)[k := Finalizing who i dev]\<rparr>)"
  proof (rule safe_update_exclusive [OF safe k act])
    fix q assume "dr_pool ?d' q \<noteq> None"
    then have "?pool q \<noteq> None" "q \<noteq> p" by (auto split: if_splits)
    with actor_memory [OF safe k act] th
    show "(\<exists>i < 16. lu_backing_store (ax_luns (dr_ext ?d') ! i) = Some q)
        \<or> inflight (Finalizing who i dev) = Some q" by fastforce
  next
    fix j q assume j: "j < 16" and q: "lu_backing_store (ax_luns (dr_ext ?d') ! j) = Some q"
    then have "q \<noteq> p" using nb by (auto simp: no_backing_def)
    with memory_blocks [OF safe j] q show "\<exists>blk. dr_pool ?d' q = Some blk
        \<and> pb_size blk = unat (lu_size_bytes (ax_luns (dr_ext ?d') ! j))"
      by simp
  qed (use memory_distinct [OF safe] ok th safeD(2,6) [OF safe] actor_flags [OF safe k act] in auto)
  then show ?thesis by (simp add: th run keeps_safe_Step)
qed

lemma FinalizeDiskRemoval_simps [simp]:
  "ax_luns (FinalizeDiskRemoval i dev e) = (ax_luns e)[i := (ax_luns e ! i)\<lparr>
     lu_backing_store := None, lu_size_bytes := 0, lu_device_id := 0, lu_media_kind := 0,
     lu_requested_drive_letter := 0, lu_create_operation_id := 0, lu_state := Lun_Empty\<rparr>]"
  "ax_adapter_stopping (FinalizeDiskRemoval i dev e) = ax_adapter_stopping e"
  "ax_management_busy (FinalizeDiskRemoval i dev e) = ax_management_busy e"
  "ax_management_idle (FinalizeDiskRemoval i dev e) = ax_management_idle e"
  by (simp_all add: FinalizeDiskRemoval_def FinalizeRemovalLocked_def MarkCreatesDeletedLocked_def Let_def)

lemma FinalizeDiskRemoval_valid:
  "pending_valid e \<Longrightarrow> pending_valid (FinalizeDiskRemoval i dev e)"
  by (auto simp: pending_valid_def FinalizeDiskRemoval_def FinalizeRemovalLocked_def
      MarkCreatesDeletedLocked_def Let_def)

lemma luns_ok_FinalizeDisk:
  assumes "luns_ok e" "i < 16" "lu_active_requests (ax_luns e ! i) = 0"
  shows "luns_ok (FinalizeDiskRemoval i dev e)"
proof -
  have "luns_ok (MarkCreatesDeletedLocked dev e)"
    using assms(1) by (simp add: luns_ok_def MarkCreatesDeletedLocked_def)
  then show ?thesis
    unfolding FinalizeDiskRemoval_def using assms
    by (intro luns_ok_Finalize) (simp_all add: MarkCreatesDeletedLocked_def)
qed

lemma finalizing_step:
  assumes safe: "safe m" and k: "k < length (ma_threads m)" and th: "ma_threads m ! k = Finalizing who i dev"
    and d': "dr_ext d' = FinalizeDiskRemoval i dev' (dr_ext (ma_driver m))" "dr_pool d' = dr_pool (ma_driver m)"
    and th': "th' = (case who of By_Worker w \<Rightarrow> Deleted w STATUS_SUCCESS | By_Shutdown \<Rightarrow> Stopping_Next)"
  shows "keeps_safe m k (Step th' d')"
proof -
  let ?e = "dr_ext (ma_driver m)" and ?pool = "dr_pool (ma_driver m)"
  from safeD(7) [OF safe k] th have ok: "thread_ok (Finalizing who i dev) ?e ?pool" by simp
  have act: "manager (ma_threads m ! k) \<or> (stopper (ma_threads m ! k) \<and> ma_threads m ! k \<noteq> Stopping_Wait)"
    by (simp add: th)
  from ok have i: "i < 16" "lu_state (ax_luns ?e ! i) = Lun_Stopping" "lu_backing_store (ax_luns ?e ! i) = None"
    by (auto simp: stopping_lun_def)
  have idle: "lu_active_requests (ax_luns ?e ! i) = 0"
    using luns_okD(2) [OF safeD(2) [OF safe] i(1)] i by (simp add: lun_ok_def)
  have len: "length (ax_luns ?e) = 16" by (rule luns_okD(1) [OF safeD(2) [OF safe]])
  have luns: "luns_ok (dr_ext d')"
    unfolding d' by (rule luns_ok_FinalizeDisk [OF safeD(2) [OF safe] i(1) idle])
  have other: "ax_luns (dr_ext d') ! j = ax_luns ?e ! j" if "j \<noteq> i" for j
    using that by (simp add: d')
  have gone: "lu_state (ax_luns (dr_ext d') ! i) = Lun_Empty" "lu_backing_store (ax_luns (dr_ext d') ! i) = None"
    "lu_active_requests (ax_luns (dr_ext d') ! i) = 0"
    using len i idle by (simp_all add: d')
  have self: "thread_ok th' (dr_ext d') (dr_pool d')"
  proof (cases who)
    case (By_Worker w)
    with ok th' show ?thesis by simp
  next
    case By_Shutdown
    with ok have "shut ?e" "no_online ?e" by auto
    then have "shut (dr_ext d')" by (simp add: shut_def d')
    moreover have "lu_state (ax_luns (dr_ext d') ! j) \<noteq> Lun_Online" if "j < 16" for j
      using \<open>no_online ?e\<close> that gone other [of j] by (cases "j = i") (auto simp: no_online_def)
    ultimately show ?thesis using By_Shutdown th' by (simp add: no_online_def)
  qed
  have "safe (m\<lparr>ma_driver := d', ma_threads := (ma_threads m)[k := th']\<rparr>)"
  proof (rule safe_update_exclusive [OF safe k act])
    fix j :: nat assume j: "j < 16"
    show "lu_active_requests (ax_luns ?e ! j) \<noteq> 0 \<Longrightarrow> same_lease j ?e (dr_ext d')"
      using other [of j] idle by (cases "j = i") (auto simp: same_lease_def)
    show "lu_active_requests (ax_luns (dr_ext d') ! j) = lu_active_requests (ax_luns ?e ! j)"
      using other [of j] gone idle by (cases "j = i") simp_all
    fix q assume q: "lu_backing_store (ax_luns (dr_ext d') ! j) = Some q"
    show "\<exists>blk. dr_pool d' q = Some blk \<and> pb_size blk = unat (lu_size_bytes (ax_luns (dr_ext d') ! j))"
    proof (cases "j = i")
      case False
      then show ?thesis using q other [of j] memory_blocks [OF safe j, of q] by (simp add: d'(2))
    qed (use q gone in simp)
  next
    fix j j' :: nat and q assume j: "j < 16" "j' < 16" "lu_backing_store (ax_luns (dr_ext d') ! j) = Some q"
      "lu_backing_store (ax_luns (dr_ext d') ! j') = Some q"
    then have "j \<noteq> i" "j' \<noteq> i" using gone by auto
    then show "j = j'" using j other memory_distinct [OF safe j(1,2), of q] by simp
  next
    fix q assume "dr_pool d' q \<noteq> None"
    with actor_memory [OF safe k act] th d'(2)
    have "\<exists>j < 16. lu_backing_store (ax_luns ?e ! j) = Some q" by fastforce
    then obtain j where j: "j < 16" "lu_backing_store (ax_luns ?e ! j) = Some q" by blast
    then have "j \<noteq> i" using i(3) by auto
    then have "lu_backing_store (ax_luns (dr_ext d') ! j) = Some q" using j other [of j] by simp
    with j(1) show "(\<exists>j < 16. lu_backing_store (ax_luns (dr_ext d') ! j) = Some q) \<or> inflight th' = Some q"
      by blast
  next
    show "pending_valid (dr_ext d')"
      unfolding d' by (rule FinalizeDiskRemoval_valid [OF safeD(6) [OF safe]])
    show "ax_management_busy (dr_ext d') = manager th'"
      "ax_management_idle (dr_ext d') = (\<not> ax_management_busy (dr_ext d'))"
      using actor_flags [OF safe k act] th th'
      by (auto simp: d' is_worker_def split: remover.splits)
    show "ax_adapter_stopping (dr_ext d') = ax_adapter_stopping ?e" by (simp add: d')
  qed (use self luns th th' in \<open>auto simp: is_worker_def split: remover.splits\<close>)
  then show ?thesis by (simp add: keeps_safe_Step)
qed

lemma unchanged_step:
  assumes safe: "safe m" and k: "k < length (ma_threads m)"
    and self: "thread_ok th' (dr_ext (ma_driver m)) (dr_pool (ma_driver m))"
    and fl: "inflight th' = inflight (ma_threads m ! k)"
    and role: "\<And>i. holds i th' = holds i (ma_threads m ! k)" "manager th' = manager (ma_threads m ! k)"
      "stopper th' = stopper (ma_threads m ! k)"
  shows "keeps_safe m k (Step th' (ma_driver m))"
  unfolding keeps_safe_Step
proof (rule safe_update_memory [OF safe k])
  show "memory_ok (dr_ext (ma_driver m)) (dr_pool (ma_driver m)) ((ma_threads m)[k := th'])"
    by (rule memory_ok_frame [OF safeD(3) [OF safe] _ _ inflight_same [OF k fl]]) simp_all
qed (use safeD [OF safe] self role in \<open>auto simp: admission_ok_def\<close>)

lemma stopping_steps:
  assumes safe: "safe m" and k: "k < length (ma_threads m)"
  shows "ma_threads m ! k = Stopping_Wait \<Longrightarrow> keeps_safe m k (advance (ma_threads m ! k) (ma_driver m))"
    and "ma_threads m ! k = Stopping_Mark \<Longrightarrow> keeps_safe m k (advance (ma_threads m ! k) (ma_driver m))"
    and "ma_threads m ! k = Stopping_Next \<Longrightarrow> keeps_safe m k (advance (ma_threads m ! k) (ma_driver m))"
    and "ma_threads m ! k = Stopping_Worker \<Longrightarrow> keeps_safe m k (advance (ma_threads m ! k) (ma_driver m))"
proof -
  let ?e = "dr_ext (ma_driver m)" and ?pool = "dr_pool (ma_driver m)"
  have len: "length (ax_luns ?e) = 16" by (rule luns_okD(1) [OF safeD(2) [OF safe]])
  show "keeps_safe m k (advance (ma_threads m ! k) (ma_driver m))" if th: "ma_threads m ! k = Stopping_Wait"
    using safeD(5) [OF safe] safeD(7) [OF safe k] th
    by (auto simp: shut_def admission_ok_def split: if_splits intro!: unchanged_step [OF safe k])
  show "keeps_safe m k (advance (ma_threads m ! k) (ma_driver m))" if th: "ma_threads m ! k = Stopping_Mark"
  proof -
    have act: "manager (ma_threads m ! k) \<or> (stopper (ma_threads m ! k) \<and> ma_threads m ! k \<noteq> Stopping_Wait)"
      by (simp add: th)
    have "same_memory ?e (MarkAllLunsStopping ?e)"
      using len by (auto simp: same_memory_def MarkAllLunsStopping_def)
    moreover have "no_online (MarkAllLunsStopping ?e)"
      using len by (auto simp: no_online_def MarkAllLunsStopping_def)
    moreover have "shut (MarkAllLunsStopping ?e)"
      using safeD(7) [OF safe k] th by (simp add: shut_def MarkAllLunsStopping_def)
    moreover have "pending_valid (MarkAllLunsStopping ?e)"
      using safeD(6) [OF safe] by (simp add: pending_valid_def MarkAllLunsStopping_def)
    moreover have "ax_management_busy (MarkAllLunsStopping ?e) = ax_management_busy ?e"
      "ax_management_idle (MarkAllLunsStopping ?e) = ax_management_idle ?e"
      by (simp_all add: MarkAllLunsStopping_def)
    ultimately show ?thesis
      using actor_flags [OF safe k act] luns_ok_MarkAll [OF safeD(2) [OF safe]]
      unfolding th advance.simps keeps_safe_Step
      by (intro safe_update_same_memory [OF safe k act]) (auto simp: th)
  qed
  show "keeps_safe m k (advance (ma_threads m ! k) (ma_driver m))" if th: "ma_threads m ! k = Stopping_Next"
  proof -
    from safeD(7) [OF safe k] th have ok: "shut ?e" "no_online ?e" by simp_all
    show ?thesis
    proof (cases "FirstStoppingLun ?e")
      case None
      then have "lu_state (ax_luns ?e ! i) \<noteq> Lun_Stopping" if "i < 16" for i
        using that len by (simp add: FirstStoppingLun_def find_index_None all_set_conv_all_nth)
      with ok(2) have "\<forall>i < 16. lu_state (ax_luns ?e ! i) = Lun_Empty"
        unfolding no_online_def using lun_state.exhaust by blast
      with ok None show ?thesis
        unfolding th by (auto simp: th intro!: unchanged_step [OF safe k])
    next
      case (Some i)
      then have "i < 16" "lu_state (ax_luns ?e ! i) = Lun_Stopping"
        using len by (auto simp: FirstStoppingLun_def find_index_Some)
      with ok Some show ?thesis
        unfolding th by (auto simp: th stopping_lun_def is_worker_def intro!: unchanged_step [OF safe k])
    qed
  qed
  show "keeps_safe m k (advance (ma_threads m ! k) (ma_driver m))" if th: "ma_threads m ! k = Stopping_Worker"
  proof -
    have act: "manager (ma_threads m ! k) \<or> (stopper (ma_threads m ! k) \<and> ma_threads m ! k \<noteq> Stopping_Wait)"
      by (simp add: th)
    have "luns_kept ?e (?e\<lparr>ax_management_worker := False, ax_signature := 0\<rparr>)"
      by (simp add: luns_kept_def)
    then show ?thesis
      using actor_flags [OF safe k act] safeD(2,6) [OF safe] safeD(7) [OF safe k] luns_keptD
      unfolding th advance.simps keeps_safe_Step
      by (intro safe_update_same_memory [OF safe k act]) (auto simp: th pending_valid_def shut_def)
  qed
qed

text \<open>Any step of a thread, whatever StorPort answers.\<close>

lemma advance_step:
  assumes safe: "safe m" and k: "k < length (ma_threads m)"
  shows "keeps_safe m k (advance (ma_threads m ! k) (ma_driver m))"
proof (cases "ma_threads m ! k")
  case (Finalizing who i dev)
  show ?thesis
  proof (cases who)
    case (By_Worker w)
    then show ?thesis
      unfolding Finalizing advance.simps
      by (auto simp: log_event_def intro!: finalizing_step [OF safe k Finalizing])
  next
    case By_Shutdown
    then show ?thesis
      unfolding Finalizing advance.simps Let_def
      by (auto simp: log_event_def intro!: finalizing_step [OF safe k Finalizing])
  qed
qed (use leased_step [OF safe k] releasing_step [OF safe k] local_steps [OF safe k] queue_failed_step [OF safe k]
    committing_step [OF safe k] discarding_step [OF safe k] created_step [OF safe k] marking_step [OF safe k]
    draining_step [OF safe k] detaching_step [OF safe k] freeing_step [OF safe k] deleted_step [OF safe k]
    ending_step [OF safe k] stopping_steps [OF safe k] in \<open>blast | simp\<close>)+

section \<open>Requests and control calls from StorPort\<close>

definition control_effect :: "adapter_extension \<Rightarrow> disposition \<Rightarrow> bool" where
  "control_effect e r \<longleftrightarrow> (case r of
     Io_Complete b' e' \<Rightarrow> luns_kept e e' \<and> flags_kept e e' \<and> pending_valid e'
   | Io_Pending b' c e' \<Rightarrow> luns_kept e e' \<and> \<not> ax_adapter_stopping e \<and> \<not> ax_management_busy e
       \<and> ax_management_busy e' \<and> \<not> ax_management_idle e' \<and> pending_valid e')"

lemma control_effect_complete:
  "pending_valid e \<Longrightarrow> control_effect e (Io_Complete b e)"
  by (simp add: control_effect_def flags_kept_def)

lemma Begin_End:
  assumes "BeginManagementLocked e = Ok e1" and "ax_management_idle e = (\<not> ax_management_busy e)"
  shows "EndManagementLocked e1 = e"
  using assms by (auto simp: BeginManagementLocked_def EndManagementLocked_def split: if_splits)

lemma prepared_effect:
  assumes valid: "pending_valid e" and idle: "ax_management_idle e = (\<not> ax_management_busy e)"
    and params: "Mutation c = operation_code Create_Disk \<Longrightarrow> create_parameters_ok (mc_create c)"
  shows "control_effect e (prepared c b e)"
proof (cases "BeginManagementLocked e")
  case (Inl status)
  with valid show ?thesis
    by (simp add: prepared_def PrepareSubmission_def Let_def control_effect_complete)
next
  case (Inr e1)
  then have e1: "e1 = e\<lparr>ax_management_busy := True, ax_management_idle := False\<rparr>"
    and admitted: "\<not> ax_adapter_stopping e" "\<not> ax_management_busy e"
    by (auto simp: BeginManagementLocked_def split: if_splits)
  note restored = Begin_End [OF Inr idle]
  have accepted: "luns_kept e e2 \<and> ax_management_busy e2 \<and> \<not> ax_management_idle e2 \<and> pending_valid e2"
    if bind: "BindOperationLocked c e1 = Ok (Accepted e2)" for e2
  proof -
    from bind obtain k where k: "FindOperationLocked (oq_operation_id (mc_identity c)) e1 = Some k"
      and mut: "op_mutation (ax_operations e1 ! k) = Mutation c"
      and e2: "e2 = update_record k (\<lambda>r. r\<lparr>op_create := mc_create c, op_delete := mc_remove c,
            op_device_id := (if Mutation c = operation_code Delete_Disk
              then dq_device_id (mc_remove c) else op_device_id r),
            op_state := state_code State_Pending\<rparr>) e1"
      by (auto simp: BindOperationLocked_def Let_def split: option.splits if_splits)
    have "pending_valid e1" using valid by (simp add: e1 pending_valid_def)
    then have "pending_valid e2"
      unfolding e2 by (subst update_record_const) (rule pending_valid_update, use mut params in auto)
    moreover have "luns_kept e e2" by (simp add: e2 e1 luns_kept_def)
    ultimately show ?thesis by (simp add: e2 e1)
  qed
  have plain: "luns_kept e e1 \<and> pending_valid e1" using valid by (simp add: e1 luns_kept_def pending_valid_def)
  show ?thesis
  proof (cases "IsReserved c")
    case False
    with Inr admitted plain show ?thesis
      by (simp add: prepared_def PrepareSubmission_def Let_def control_effect_def e1)
  next
    case reserved: True
    show ?thesis
    proof (cases "BindOperationLocked c e1")
      case (Inl status)
      with Inr reserved restored valid show ?thesis
        by (simp add: prepared_def PrepareSubmission_def Let_def control_effect_complete)
    next
      case bound: (Inr r)
      show ?thesis
      proof (cases r)
        case (Replay result)
        with bound Inr reserved restored valid show ?thesis
          by (simp add: prepared_def PrepareSubmission_def Let_def control_effect_complete)
      next
        case (Accepted e2)
        with bound accepted [of e2] Inr reserved admitted show ?thesis
          by (simp add: prepared_def PrepareSubmission_def Let_def control_effect_def)
      qed
    qed
  qed
qed

lemma ReserveOperation_effect:
  assumes "ReserveOperation mutation e = Ok (result, e')"
  shows "luns_kept e e' \<and> flags_kept e e' \<and> (pending_valid e \<longrightarrow> pending_valid e')"
proof -
  from assms obtain k where
    e': "e' = update_record k (\<lambda>_. fresh_record (ax_next_operation_id e) mutation)
      (e\<lparr>ax_next_operation_id := ax_next_operation_id e + 1\<rparr>)"
    by (auto simp: ReserveOperation_def Let_def split: if_splits option.splits)
  have "pending_valid e \<Longrightarrow> pending_valid (e\<lparr>ax_next_operation_id := ax_next_operation_id e + 1\<rparr>)"
    by (simp add: pending_valid_def)
  then have "pending_valid e \<Longrightarrow> pending_valid e'"
    unfolding e' by (rule pending_valid_update) (simp_all add: fresh_record_def)
  then show ?thesis by (simp add: e' luns_kept_def flags_kept_def)
qed

lemma HandleReserve_effect:
  assumes "HandleReserveOperation b e = (b', e')" and "pending_valid e"
  shows "control_effect e (Io_Complete b' e')"
  using assms ReserveOperation_effect
  by (auto simp: HandleReserveOperation_def control_effect_def flags_kept_def
      split: sum.splits prod.splits if_splits)

lemma WispDiskHandleIoControl_effect:
  assumes valid: "pending_valid e" and idle: "ax_management_idle e = (\<not> ax_management_busy e)"
  shows "control_effect e (WispDiskHandleIoControl b e)"
proof -
  note same = control_effect_complete [OF valid]
  have create: "control_effect e (HandleCreateControl b e)" "control_effect e (HandleReservedCreateControl b e)"
    by (auto simp: HandleCreateControl_def HandleReservedCreateControl_def same Mutation_def
        split: prod.splits sum.splits intro!: prepared_effect [OF valid idle] dest: ValidateCreateRequest_ok)
  have remove: "control_effect e (HandleDeleteControl b e)" "control_effect e (HandleReservedDeleteControl b e)"
    by (auto simp: HandleDeleteControl_def HandleReservedDeleteControl_def same Mutation_def
        split: prod.splits sum.splits intro!: prepared_effect [OF valid idle])
  show ?thesis
    using create remove HandleReserve_effect [OF _ valid]
    by (auto simp: WispDiskHandleIoControl_def DispatchControlRequest_def Let_def same split: prod.splits)
qed

text \<open>The request becomes a thread: what the thread and the extension owe the invariant.\<close>

definition start_effect :: "adapter_extension \<Rightarrow> pool \<Rightarrow> thread \<Rightarrow> adapter_extension \<Rightarrow> bool" where
  "start_effect e pool th e' \<longleftrightarrow> io_frame e e' \<and> luns_ok e' \<and> pending_valid e' \<and> thread_ok th e' pool
     \<and> inflight th = None \<and> \<not> stopper th
     \<and> (\<forall>i < 16. unat (lu_active_requests (ax_luns e' ! i)) =
          unat (lu_active_requests (ax_luns e ! i)) + (if holds i th then 1 else 0))
     \<and> (if ax_management_busy e' then 1 else 0) = (if ax_management_busy e then 1 else 0)
          + (if manager th then 1 else (0 :: nat))
     \<and> ax_management_idle e' = (\<not> ax_management_busy e')"

lemma io_frame_refl [simp]: "io_frame e e"
  by (simp add: io_frame_def)

lemma io_frame_kept:
  "luns_kept e e' \<Longrightarrow> (ax_adapter_stopping e \<and> \<not> ax_management_busy e \<longrightarrow> \<not> ax_management_busy e') \<Longrightarrow> io_frame e e'"
  by (simp add: io_frame_def luns_kept_def)

lemma finished_effect:
  assumes "luns_ok e" "pending_valid e" "ax_management_idle e = (\<not> ax_management_busy e)"
  shows "start_effect e pool (Finished b) e"
  using assms by (simp add: start_effect_def)

lemma acquire_effect:
  assumes run: "AcquireLunIo b e = Some (i, view, e')" and ok: "luns_ok e" and wf: "srb_wf b"
    and valid: "pending_valid e" and idle: "ax_management_idle e = (\<not> ax_management_busy e)"
    and room: "unat (lu_active_requests (ax_luns e ! i)) < 2 ^ 32 - 1"
  shows "start_effect e pool (Leased b i view) e'"
proof -
  note eff = AcquireLunIo_Some [OF run]
  have len: "length (ax_luns e) = 16" by (rule luns_okD(1) [OF ok])
  have inc: "unat (lu_active_requests (ax_luns e ! i) + 1) = unat (lu_active_requests (ax_luns e ! i)) + 1"
    using room by (simp add: unat_word_ariths(1))
  then have "lu_active_requests (ax_luns e ! i) + 1 \<noteq> 0" by force
  from luns_ok_Acquire [OF run ok this] have "luns_ok e'" .
  moreover have "io_frame e e'"
    using eff ok by (auto intro!: update_lun_io_frame)
  moreover have "unat (lu_active_requests (ax_luns e' ! j)) =
      unat (lu_active_requests (ax_luns e ! j)) + (if holds j (Leased b i view) then 1 else 0)" if "j < 16" for j
    using eff inc len that by (cases "j = i") auto
  moreover have "thread_ok (Leased b i view) e' pool" using eff wf len by auto
  ultimately show ?thesis
    using eff valid idle unfolding start_effect_def by (simp add: pending_valid_def)
qed

lemma StartIo_effect:
  assumes run: "StartIo b e = (th, e')" and ok: "luns_ok e" and wf: "srb_wf b"
    and valid: "pending_valid e" and idle: "ax_management_idle e = (\<not> ax_management_busy e)"
    and room: "\<And>i. i < 16 \<Longrightarrow> unat (lu_active_requests (ax_luns e ! i)) < 2 ^ 32 - 1"
  shows "start_effect e pool th e'"
proof (cases "sb_function b")
  case Fn_Io_Control
  show ?thesis
  proof (cases "WispDiskHandleIoControl b e")
    case (Io_Complete b' e1)
    with run Fn_Io_Control have r: "th = Finished (complete_control b')" "e1 = e'" by (auto simp: StartIo_def)
    from WispDiskHandleIoControl_effect [OF valid idle, of b] Io_Complete r
    have kept: "luns_kept e e'" "flags_kept e e'" "pending_valid e'" by (auto simp: control_effect_def)
    then have "io_frame e e'" by (intro io_frame_kept) (auto simp: flags_kept_def)
    with kept luns_keptD(1) [OF kept(1) ok] idle r show ?thesis
      by (simp add: start_effect_def flags_kept_def luns_kept_def)
  next
    case (Io_Pending b' c e1)
    with run Fn_Io_Control have r: "th = Preparing b' c" "e1 = e'" by (auto simp: StartIo_def)
    from WispDiskHandleIoControl_effect [OF valid idle, of b] Io_Pending r
    have kept: "luns_kept e e'" "\<not> ax_adapter_stopping e" "\<not> ax_management_busy e" "ax_management_busy e'"
      "\<not> ax_management_idle e'" "pending_valid e'" by (auto simp: control_effect_def)
    then have "io_frame e e'" by (intro io_frame_kept) auto
    with kept luns_keptD(1) [OF kept(1) ok] r show ?thesis
      by (simp add: start_effect_def luns_kept_def)
  qed
next
  case Fn_Execute_Scsi
  note same = finished_effect [OF ok valid idle]
  show ?thesis
  proof (cases "AcquireLunIo b e")
    case None
    with run Fn_Execute_Scsi same show ?thesis
      by (auto simp: StartIo_def WispDiskHandleExecuteScsi_def Let_def split: if_splits prod.splits)
  next
    case (Some r)
    obtain i view e1 where r: "r = (i, view, e1)" by (cases r)
    have "i < 16" using AcquireLunIo_Some [OF Some [unfolded r]] by simp
    from acquire_effect [OF Some [unfolded r] ok wf valid idle room [OF this]] same run Fn_Execute_Scsi Some r
    show ?thesis
      by (auto simp: StartIo_def WispDiskHandleExecuteScsi_def Let_def split: if_splits prod.splits)
  qed
qed (use run finished_effect [OF ok valid idle] in \<open>auto simp: StartIo_def\<close>)

lemma count_holds: "count (holds i) ths \<le> outstanding ths"
proof -
  have "holds i th \<Longrightarrow> \<not> finished th" for th by (cases th) auto
  then show ?thesis unfolding count_def outstanding_def by (induction ths) auto
qed

lemma safe_start:
  assumes safe: "safe m" and eff: "start_effect (dr_ext (ma_driver m)) (dr_pool (ma_driver m)) th (dr_ext d')"
    and pool: "dr_pool d' = dr_pool (ma_driver m)"
  shows "safe (m\<lparr>ma_driver := d', ma_threads := ma_threads m @ [th]\<rparr>)"
proof -
  note okD = safeD [OF safe]
  have frame: "io_frame (dr_ext (ma_driver m)) (dr_ext d')" using eff by (simp add: start_effect_def)
  have mem: "memory_ok (dr_ext d') (dr_pool d') (ma_threads m @ [th])"
    by (rule memory_ok_io [OF okD(3) frame]) (auto simp: pool)
  have lease: "leases_ok (dr_ext d') (ma_threads m @ [th])"
    using okD(4) eff by (simp add: leases_ok_def start_effect_def)
  have adm: "admission_ok (dr_ext d') (ma_threads m @ [th])"
    using okD(5) eff by (simp add: admission_ok_def start_effect_def split: if_splits)
  have "thread_ok t (dr_ext d') (dr_pool d')" if "t \<in> set (ma_threads m)" for t
    using that thread_ok_io_frame [OF _ frame refl] safe by (auto simp: pool safe_def Let_def)
  then show ?thesis
    using mem lease adm okD(1) eff by (auto simp: safe_def Let_def start_effect_def pool)
qed

lemma thread_ok_stopping:
  assumes "\<not> stopper th" "thread_ok th e pool"
  shows "thread_ok th (e\<lparr>ax_adapter_stopping := b\<rparr>) pool"
  using assms by (cases th rule: stopper.cases)
    (auto simp: lun_free_def no_backing_def stopping_lun_def shut_def no_online_def is_worker_def
      split: option.splits)

lemma safe_set_stopping:
  assumes safe: "safe m" and none: "\<not> list_ex stopper (ma_threads m)"
    and d': "d' = with_ext (ma_driver m) ((dr_ext (ma_driver m))\<lparr>ax_adapter_stopping := b\<rparr>)"
  shows "safe (m\<lparr>ma_driver := d'\<rparr>)"
    and "b \<Longrightarrow> safe (m\<lparr>ma_driver := d', ma_threads := ma_threads m @ [Stopping_Wait]\<rparr>)"
proof -
  let ?e = "dr_ext (ma_driver m)" and ?e' = "(dr_ext (ma_driver m))\<lparr>ax_adapter_stopping := b\<rparr>"
  note okD = safeD [OF safe]
  have luns: "luns_ok ?e'" using okD(2) by (simp add: luns_ok_def)
  have mem: "memory_ok ?e' (dr_pool (ma_driver m)) (ma_threads m)"
    using okD(3) by (simp add: memory_ok_def)
  then have mem1: "memory_ok ?e' (dr_pool (ma_driver m)) (ma_threads m @ [Stopping_Wait])"
    by (simp add: memory_ok_def)
  have valid: "pending_valid ?e'" using okD(6) by (simp add: pending_valid_def)
  have threads: "thread_ok th ?e' (dr_pool (ma_driver m))" if "th \<in> set (ma_threads m)" for th
    using that none safe thread_ok_stopping [of th] by (simp add: safe_def Let_def list_ex_iff)
  show "safe (m\<lparr>ma_driver := d'\<rparr>)"
    using okD luns mem valid threads by (simp add: safe_def Let_def d' leases_ok_def admission_ok_def)
  have "count stopper (ma_threads m) = 0"
    using none by (simp add: count_def list_ex_iff filter_empty_conv)
  then show "safe (m\<lparr>ma_driver := d', ma_threads := ma_threads m @ [Stopping_Wait]\<rparr>)"
    if "b"
    using that okD luns mem1 valid threads
    by (auto simp: safe_def Let_def d' leases_ok_def admission_ok_def)
qed

lemma admission_event_driver [simp]:
  "dr_ext (admission_event e r d) = dr_ext d" "dr_pool (admission_event e r d) = dr_pool d"
  by (auto simp: admission_event_def log_event_def split: prod.splits thread.splits)

lemma resume_safe:
  "safe m \<Longrightarrow> keeps_safe m k p \<Longrightarrow> resume k p m = Some m' \<Longrightarrow> safe m'"
  by (cases p) (auto simp: resume_def keeps_safe_def)

section \<open>Reachable machines\<close>

lemma step_safe:
  assumes safe: "safe m" and run: "step l m = Some m'"
  shows "safe m'"
proof (cases l)
  case (Start_Io b)
  let ?e = "dr_ext (ma_driver m)" and ?r = "StartIo b (dr_ext (ma_driver m))"
  from run Start_Io have wf: "srb_wf b" and room: "outstanding (ma_threads m) < 2 ^ 32 - 1"
    and m': "m' = m\<lparr>ma_driver := admission_event ?e ?r (with_ext (ma_driver m) (snd ?r)),
      ma_threads := ma_threads m @ [fst ?r]\<rparr>"
    by (auto simp: step_def Let_def split: if_splits)
  have "unat (lu_active_requests (ax_luns ?e ! i)) < 2 ^ 32 - 1" if "i < 16" for i
    using safeD(4) [OF safe] that count_holds [of i "ma_threads m"] room by (simp add: leases_ok_def)
  then have "start_effect ?e (dr_pool (ma_driver m)) (fst ?r) (snd ?r)"
    using safeD(2,5,6) [OF safe] wf by (intro StartIo_effect [of b]) (auto simp: admission_ok_def)
  then show ?thesis
    unfolding m' by (intro safe_start [OF safe]) simp_all
next
  case (Set_Stopping b)
  with run safe_set_stopping(1) [OF safe _ refl, of b] show ?thesis
    by (auto simp: step_def Let_def split: if_splits)
next
  case Free_Resources
  with run safe_set_stopping(2) [OF safe _ refl, of True] show ?thesis
    by (auto simp: step_def Let_def CloseAdmission_def split: if_splits)
next
  case (Advance k)
  with run resume_safe [OF safe advance_step [OF safe]] show ?thesis
    by (auto simp: step_def Let_def split: if_splits)
next
  case (Queue_Work k queued)
  with run resume_safe [OF safe local_steps(4) [OF safe]] show ?thesis
    by (auto simp: step_def Let_def split: if_splits)
next
  case (Allocate_Pool k answer)
  with run resume_safe [OF safe allocating_step [OF safe]] show ?thesis
    by (auto simp: step_def Let_def split: if_splits)
qed

lemma reachable_safe: "reachable m m' \<Longrightarrow> safe m \<Longrightarrow> safe m'"
  by (induction rule: reachable.induct) (auto intro: step_safe)

lemma initial_luns: "i < 16 \<Longrightarrow> ax_luns (initial_extension inst worker) ! i =
    zero_lun\<lparr>lu_lun := word_of_nat i, lu_no_active_requests := True\<rparr>"
  by (simp add: initial_extension_def LunStore_Initialize_def)

lemma initial_safe: "safe (initial_machine inst)"
proof -
  have "luns_ok (initial_extension inst True)"
    unfolding initial_extension_def by (rule luns_ok_Initialize) simp_all
  moreover have "memory_ok (initial_extension inst True) Map.empty []"
    "leases_ok (initial_extension inst True) []"
    using initial_luns by (simp_all add: memory_ok_def leases_ok_def zero_lun_def)
  moreover have "admission_ok (initial_extension inst True) []"
    "pending_valid (initial_extension inst True)"
    by (simp_all add: admission_ok_def pending_valid_def initial_extension_def LunStore_Initialize_def
        zero_record_def)
  ultimately show ?thesis by (simp add: initial_machine_def safe_def Let_def)
qed

end
