(* ===== verification/Driver_Progress.thy ===== *)
theory Driver_Progress
  imports Driver_Safety
begin

text \<open>
  The driver never gets stuck and never runs on: without further requests, every schedule of its
  threads reaches, after a bounded number of steps, a state in which all requests were answered
  and a shutdown has finished. Waits are on leases, which can always be given back, and on the
  one mutation at work; \<open>work_left\<close> is the measure that every step decreases.
\<close>

section \<open>The measure\<close>

fun rank :: "thread \<Rightarrow> nat" where
  "rank (Leased b i view) = 2"
| "rank (Releasing status b i) = 1"
| "rank (Preparing b c) = 13"
| "rank (Queue_Failed b c) = 1"
| "rank (Queued b) = 12"
| "rank (Selecting w) = 11"
| "rank (Allocating w i) = 10"
| "rank (Committing w i p) = 9"
| "rank (Discarding w status p) = 4"
| "rank (Created w status disk) = 3"
| "rank (Marking w) = 8"
| "rank (Draining who i dev) = 7"
| "rank (Detaching who i dev) = 6"
| "rank (Freeing who i dev p) = 5"
| "rank (Finalizing who i dev) = 4"
| "rank (Deleted w status) = 3"
| "rank (Responding b) = 2"
| "rank (Ending b) = 1"
| "rank Stopping_Wait = 10"
| "rank Stopping_Mark = 9"
| "rank Stopping_Next = 8"
| "rank Stopping_Worker = 1"
| "rank Stopped = 0"
| "rank (Finished b) = 0"

definition live_luns :: "adapter_extension \<Rightarrow> nat" where
  "live_luns e = count (\<lambda>l. lu_state l \<noteq> Lun_Empty) (ax_luns e)"

text \<open>A disk that is there may still have to be removed by the shutdown, which takes four steps.\<close>

definition work_left :: "machine \<Rightarrow> nat" where
  "work_left m = sum_list (map rank (ma_threads m)) + 5 * live_luns (dr_ext (ma_driver m))"

fun internal :: "label \<Rightarrow> bool" where
  "internal (Advance k) = True"
| "internal (Queue_Work k queued) = True"
| "internal (Allocate_Pool k answer) = True"
| "internal _ = False"

fun quiet :: "thread \<Rightarrow> bool" where
  "quiet (Finished b) = True"
| "quiet Stopped = True"
| "quiet _ = False"

section \<open>Every step is progress\<close>

lemma sum_ranks_update:
  "k < length ths \<Longrightarrow> sum_list (map rank (ths[k := th'])) + rank (ths ! k) = sum_list (map rank ths) + rank th'"
proof (induction ths arbitrary: k)
  case (Cons a ths)
  then show ?case by (cases k) auto
qed simp

lemma live_luns_kept: "ax_luns e' = ax_luns e \<Longrightarrow> live_luns e' = live_luns e"
  by (simp add: live_luns_def)

lemma live_luns_update:
  assumes "i < length (ax_luns e)"
    and "lu_state (f (ax_luns e ! i)) = Lun_Empty \<longleftrightarrow> lu_state (ax_luns e ! i) = Lun_Empty"
  shows "live_luns (update_lun i f e) = live_luns e"
  using count_update [OF assms(1), of "\<lambda>l. lu_state l \<noteq> Lun_Empty" "f (ax_luns e ! i)"] assms(2)
  by (simp add: live_luns_def)

lemma count_map_same:
  "(\<And>x. x \<in> set xs \<Longrightarrow> P (f x) = P x) \<Longrightarrow> count P (map f xs) = count P xs"
  unfolding count_def by (induction xs) auto

lemma live_MarkAll [simp]: "live_luns (MarkAllLunsStopping e) = live_luns e"
  by (simp add: live_luns_def MarkAllLunsStopping_def count_map_same)

lemma live_Finalize:
  assumes "i < length (ax_luns e)" "lu_state (ax_luns e ! i) \<noteq> Lun_Empty"
  shows "Suc (live_luns (FinalizeDiskRemoval i dev e)) = live_luns e"
  using count_update [OF assms(1), of "\<lambda>l. lu_state l \<noteq> Lun_Empty" "ax_luns (FinalizeDiskRemoval i dev e) ! i"] assms
  by (simp add: live_luns_def)

lemma live_Commit:
  assumes "CommitNewLun q i p e = Ok (dev, e')" "i < length (ax_luns e)"
  shows "live_luns e' = Suc (live_luns e)"
  using count_update [OF assms(2), of "\<lambda>l. lu_state l \<noteq> Lun_Empty" "ax_luns e' ! i"] CommitNewLun_Ok [OF assms(1)] assms(2)
  by (simp add: live_luns_def)

lemma live_Publish:
  assumes "PublishOperationResult r corr b e = (b', e')" "length (ax_luns e) = 16"
    and "NT_SUCCESS (op_result r) \<Longrightarrow> op_mutation r = operation_code Create_Disk \<Longrightarrow> unat (op_lun r) < 16"
  shows "live_luns e' = live_luns e"
proof (cases "FindOperationLocked (op_id r) e")
  case (Some k)
  let ?bind = "NT_SUCCESS (op_result r) \<and> op_mutation r = operation_code Create_Disk"
  let ?e1 = "if ?bind then BindCreateOperationLocked (op_lun r) (op_id r) e else e"
  have "live_luns (BindCreateOperationLocked (op_lun r) (op_id r) e) = live_luns e" if ?bind
    unfolding BindCreateOperationLocked_def
    by (rule live_luns_update) (use that assms(2,3) in simp_all)
  then have same: "live_luns ?e1 = live_luns e" by presburger
  from assms(1) Some have e': "e' = update_record k (\<lambda>_. r) ?e1"
    by (simp add: PublishOperationResult_def Let_def)
  have "live_luns e' = live_luns ?e1"
    unfolding e' by (rule live_luns_kept) (rule operations_update(2))
  then show ?thesis using same by (rule trans)
qed (use assms in \<open>auto simp: PublishOperationResult_def\<close>)

definition progress :: "thread \<Rightarrow> adapter_extension \<Rightarrow> progress \<Rightarrow> bool" where
  "progress th e p \<longleftrightarrow> (case p of
     Blocked \<Rightarrow> True | Fault \<Rightarrow> False
   | Step th' d' \<Rightarrow> rank th' + 5 * live_luns (dr_ext d') < rank th + 5 * live_luns e)"

lemma progress_simps [simp]:
  "progress th e Blocked" "\<not> progress th e Fault"
  "progress th e (Step th' d') = (rank th' + 5 * live_luns (dr_ext d') < rank th + 5 * live_luns e)"
  by (simp_all add: progress_def)

lemma live_FailOperation:
  "FailOperationLocked ident status corr b e = (b', e') \<Longrightarrow> live_luns e' = live_luns e"
  by (auto simp: FailOperationLocked_def Let_def intro!: live_luns_kept split: option.splits)

lemma live_EndManagement [simp]: "live_luns (EndManagementLocked e) = live_luns e"
  by (rule live_luns_kept) (simp add: EndManagementLocked_def)

lemma live_SubmitFailed:
  assumes "SubmitFailed c b e = (b', e')" shows "live_luns e' = live_luns e"
  using assms live_FailOperation by (auto simp: SubmitFailed_def split: prod.splits if_splits)

lemma work_cases_progress:
  assumes safe: "safe m" and k: "k < length (ma_threads m)"
  shows "ma_threads m ! k = Created w status disk \<Longrightarrow>
      progress (ma_threads m ! k) (dr_ext (ma_driver m)) (advance (ma_threads m ! k) (ma_driver m))"
    and "ma_threads m ! k = Deleted w status \<Longrightarrow>
      progress (ma_threads m ! k) (dr_ext (ma_driver m)) (advance (ma_threads m ! k) (ma_driver m))"
proof -
  let ?e = "dr_ext (ma_driver m)"
  have len: "length (ax_luns ?e) = 16" by (rule luns_okD(1) [OF safeD(2) [OF safe]])
  show "progress (ma_threads m ! k) ?e (advance (ma_threads m ! k) (ma_driver m))"
    if th: "ma_threads m ! k = Created w status disk"
  proof -
    obtain b' e' where run: "after_create w status disk ?e = (b', e')" by (cases "after_create w status disk ?e")
    from safeD(7) [OF safe k] th have ok: "thread_ok (Created w status disk) ?e (dr_pool (ma_driver m))" by simp
    have "live_luns e' = live_luns ?e"
    proof (cases w)
      case (Reserved_Work b identity r)
      from run [unfolded Reserved_Work after_create_def Let_def work.case] show ?thesis
        by (rule live_Publish [OF _ len]) (use ok in \<open>auto split: option.splits\<close>)
    qed (use run in \<open>auto simp: after_create_def split: option.splits\<close>)
    with run show ?thesis by (simp add: th)
  qed
  show "progress (ma_threads m ! k) ?e (advance (ma_threads m ! k) (ma_driver m))"
    if th: "ma_threads m ! k = Deleted w status"
  proof -
    obtain b' e' where run: "after_delete w status ?e = (b', e')" by (cases "after_delete w status ?e")
    from safeD(7) [OF safe k] th have ok: "\<not> creates w" by simp
    have "live_luns e' = live_luns ?e"
    proof (cases w)
      case (Reserved_Work b identity r)
      from run [unfolded Reserved_Work after_delete_def Let_def work.case] show ?thesis
        by (rule live_Publish [OF _ len]) (use ok Reserved_Work in simp)
    qed (use run in \<open>auto simp: after_delete_def\<close>)
    with run show ?thesis by (simp add: th)
  qed
qed

lemma advance_progress:
  assumes safe: "safe m" and k: "k < length (ma_threads m)"
  shows "progress (ma_threads m ! k) (dr_ext (ma_driver m)) (advance (ma_threads m ! k) (ma_driver m))"
proof -
  let ?e = "dr_ext (ma_driver m)"
  have len: "length (ax_luns ?e) = 16" by (rule luns_okD(1) [OF safeD(2) [OF safe]])
  note ok = safeD(7) [OF safe k]
  have sound: "advance (ma_threads m ! k) (ma_driver m) \<noteq> Fault"
    using advance_step [OF safe k] by auto
  show ?thesis
  proof (cases "ma_threads m ! k")
    case (Leased b i view)
    with sound show ?thesis by (auto split: option.splits)
  next
    case (Releasing status b i)
    with ok len have "live_luns (ReleaseLunIo i ?e) = live_luns ?e"
      by (auto simp: ReleaseLunIo_def intro!: live_luns_update)
    with Releasing show ?thesis by simp
  next
    case (Queue_Failed b c)
    then show ?thesis using live_SubmitFailed by (auto split: prod.splits)
  next
    case (Queued b)
    then show ?thesis
      by (auto simp: ProcessWorkItem_start_def Let_def split: sum.splits prod.splits)
  next
    case (Selecting w)
    then show ?thesis by (auto split: sum.splits)
  next
    case (Committing w i p)
    with ok len live_Commit [of "work_request w" i p ?e] show ?thesis
      by (auto simp: log_event_def lun_free_def split: sum.splits)
  next
    case (Discarding w status p)
    with sound show ?thesis by (auto split: option.splits)
  next
    case (Marking w)
    show ?thesis
    proof (cases "MarkLunStopping (work_device w) ?e")
      case (Some r)
      obtain i e' where r: "r = (i, e')" by (cases r)
      from MarkLunStopping_Some [OF Some [unfolded r] safeD(2) [OF safe]] len
      have "live_luns e' = live_luns ?e" by (auto intro!: live_luns_update)
      with Marking Some r show ?thesis by simp
    qed (simp add: Marking)
  next
    case (Detaching who i dev)
    have "live_luns (snd (DetachBackingStore i dev ?e)) = live_luns ?e"
      using ok Detaching len
      by (auto simp: DetachBackingStore_def Let_def stopping_lun_def intro!: live_luns_update)
    with Detaching show ?thesis by (auto split: prod.splits option.splits)
  next
    case (Freeing who i dev p)
    with sound show ?thesis by (auto split: option.splits)
  next
    case (Finalizing who i dev)
    with ok len have "i < length (ax_luns ?e)" "lu_state (ax_luns ?e ! i) \<noteq> Lun_Empty"
      by (auto simp: stopping_lun_def)
    note down = live_Finalize [OF this]
    show ?thesis
      using down [of dev] down [of "lu_device_id (ax_luns ?e ! i)"]
      unfolding Finalizing by (cases who) (simp_all add: log_event_def Let_def)
  next
    case (Created w status disk)
    then show ?thesis by (rule work_cases_progress(1) [OF safe k])
  next
    case (Deleted w status)
    then show ?thesis by (rule work_cases_progress(2) [OF safe k])
  next
    case Stopping_Next
    then show ?thesis by (auto split: option.splits)
  next
    case Stopping_Worker
    then show ?thesis by (simp add: live_luns_def)
  qed (auto simp: log_event_def)
qed

lemma queue_work_progress: "progress th (dr_ext d) (queue_work queued th d)"
  by (cases th) auto

lemma allocate_pool_progress:
  "allocate_pool answer th d \<noteq> Fault \<Longrightarrow> progress th (dr_ext d) (allocate_pool answer th d)"
  by (cases "(answer, th, d)" rule: allocate_pool.cases) (auto simp: Let_def split: option.splits if_splits)

lemma resume_work_left:
  assumes k: "k < length (ma_threads m)" and "progress (ma_threads m ! k) (dr_ext (ma_driver m)) p"
    and run: "resume k p m = Some m'"
  shows "work_left m' < work_left m"
proof (cases p)
  case (Step th' d')
  with run have m': "m' = m\<lparr>ma_driver := d', ma_threads := (ma_threads m)[k := th']\<rparr>" by (simp add: resume_def)
  from assms(2) Step sum_ranks_update [OF k, of th'] show ?thesis
    by (simp add: work_left_def m')
qed (use assms in \<open>auto simp: resume_def\<close>)

lemma internal_step_progress:
  assumes safe: "safe m" and run: "step l m = Some m'" and l: "internal l"
  shows "work_left m' < work_left m"
proof (cases l)
  case (Advance k)
  with run resume_work_left [OF _ advance_progress [OF safe]] show ?thesis
    by (auto simp: step_def Let_def split: if_splits)
next
  case (Queue_Work k queued)
  with run resume_work_left [OF _ queue_work_progress] show ?thesis
    by (auto simp: step_def Let_def split: if_splits)
next
  case (Allocate_Pool k answer)
  have "allocate_pool answer (ma_threads m ! k) (ma_driver m) \<noteq> Fault" if "k < length (ma_threads m)"
    using allocating_step [OF safe that, of answer] by auto
  with Allocate_Pool run resume_work_left [OF _ allocate_pool_progress] show ?thesis
    by (auto simp: step_def Let_def split: if_splits)
qed (use l in auto)

section \<open>Somebody can always move\<close>

lemma no_lease_drained:
  assumes safe: "safe m" and none: "\<And>j. j < length (ma_threads m) \<Longrightarrow> \<not> holds i (ma_threads m ! j)" and i: "i < 16"
  shows "lu_no_active_requests (ax_luns (dr_ext (ma_driver m)) ! i)"
proof -
  have "count (holds i) (ma_threads m) = 0"
    using none by (auto simp: count_def filter_empty_conv in_set_conv_nth)
  then have "lu_active_requests (ax_luns (dr_ext (ma_driver m)) ! i) = 0"
    using safeD(4) [OF safe] i by (simp add: leases_ok_def unat_eq_zero)
  then show ?thesis
    using luns_okD(2) [OF safeD(2) [OF safe] i] by (simp add: lun_ok_def)
qed

lemma can_moveI:
  assumes "safe m" "k < length (ma_threads m)"
    and "advance (ma_threads m ! k) (ma_driver m) \<noteq> Blocked
      \<or> queue_work False (ma_threads m ! k) (ma_driver m) \<noteq> Blocked
      \<or> allocate_pool None (ma_threads m ! k) (ma_driver m) \<noteq> Blocked"
  shows "\<exists>l. internal l \<and> step l m \<noteq> None"
proof -
  have r: "p \<noteq> Blocked \<Longrightarrow> resume k p m \<noteq> None" for p
    by (cases p) (auto simp: resume_def)
  from assms(3) show ?thesis
  proof (elim disjE)
    assume "advance (ma_threads m ! k) (ma_driver m) \<noteq> Blocked"
    then show ?thesis
      using r assms(1,2) safeD(1) by (intro exI [of _ "Advance k"]) (auto simp: step_def Let_def)
  next
    assume "queue_work False (ma_threads m ! k) (ma_driver m) \<noteq> Blocked"
    then show ?thesis
      using r assms(1,2) safeD(1) by (intro exI [of _ "Queue_Work k False"]) (auto simp: step_def Let_def)
  next
    assume "allocate_pool None (ma_threads m ! k) (ma_driver m) \<noteq> Blocked"
    then show ?thesis
      using r assms(1,2) safeD(1) by (intro exI [of _ "Allocate_Pool k None"]) (auto simp: step_def Let_def)
  qed
qed

lemma moves:
  assumes "\<And>i. i < 16 \<Longrightarrow> lu_no_active_requests (ax_luns (dr_ext d) ! i)" and "\<not> quiet th"
    and "thread_ok th (dr_ext d) (dr_pool d)" and "th = Stopping_Wait \<Longrightarrow> ax_management_idle (dr_ext d)"
  shows "advance th d \<noteq> Blocked \<or> queue_work False th d \<noteq> Blocked \<or> allocate_pool None th d \<noteq> Blocked"
  using assms
  by (cases th) (auto simp: stopping_lun_def Let_def split: option.splits sum.splits prod.splits remover.splits)

lemma never_stuck:
  assumes safe: "safe m" and k: "k < length (ma_threads m)" "\<not> quiet (ma_threads m ! k)"
  shows "\<exists>l. internal l \<and> step l m \<noteq> None"
proof (cases "\<exists>j i. j < length (ma_threads m) \<and> holds i (ma_threads m ! j)")
  case True
  then obtain j i where j: "j < length (ma_threads m)" "holds i (ma_threads m ! j)" by blast
  then have "advance (ma_threads m ! j) (ma_driver m) \<noteq> Blocked"
    by (cases "ma_threads m ! j") (auto split: option.splits)
  with can_moveI [OF safe j(1)] show ?thesis by blast
next
  case False
  have drained: "lu_no_active_requests (ax_luns (dr_ext (ma_driver m)) ! i)" if "i < 16" for i
    using no_lease_drained [OF safe _ that] False by blast
  show ?thesis
  proof (cases "\<exists>j < length (ma_threads m). manager (ma_threads m ! j)")
    case True
    then obtain j where j: "j < length (ma_threads m)" "manager (ma_threads m ! j)" by blast
    then have "\<not> quiet (ma_threads m ! j)" "ma_threads m ! j \<noteq> Stopping_Wait"
      by (cases "ma_threads m ! j"; simp)+
    with moves [OF drained _ safeD(7) [OF safe j(1)]] can_moveI [OF safe j(1)] show ?thesis by blast
  next
    case False
    then have "ax_management_idle (dr_ext (ma_driver m))"
      using busy_iff_manager [OF safe] safeD(5) [OF safe] by (auto simp: admission_ok_def)
    with moves [OF drained k(2) safeD(7) [OF safe k(1)]] can_moveI [OF safe k(1)] show ?thesis by blast
  qed
qed

lemma quiesces:
  "safe m \<Longrightarrow> \<exists>ls m'. list_all internal ls \<and> run_labels ls m = Some m' \<and> list_all quiet (ma_threads m')"
proof (induction "work_left m" arbitrary: m rule: less_induct)
  case less
  show ?case
  proof (cases "list_all quiet (ma_threads m)")
    case True
    then show ?thesis by (intro exI [of _ "[]"]) simp
  next
    case False
    then obtain k where "k < length (ma_threads m)" "\<not> quiet (ma_threads m ! k)"
      by (auto simp: list_all_length)
    from never_stuck [OF less.prems this] obtain l m1 where l: "internal l" "step l m = Some m1" by blast
    from less.hyps [OF internal_step_progress [OF less.prems l(2,1)] step_safe [OF less.prems l(2)]]
    obtain ls m' where "list_all internal ls" "run_labels ls m1 = Some m'" "list_all quiet (ma_threads m')" by blast
    with l show ?thesis by (intro exI [of _ "l # ls"]) auto
  qed
qed

lemma internal_runs_bounded:
  "safe m \<Longrightarrow> list_all internal ls \<Longrightarrow> run_labels ls m = Some m' \<Longrightarrow> length ls + work_left m' \<le> work_left m"
proof (induction ls arbitrary: m)
  case (Cons l ls)
  then obtain m1 where m1: "step l m = Some m1" "run_labels ls m1 = Some m'"
    by (auto split: option.splits)
  with Cons.prems internal_step_progress [OF Cons.prems(1) m1(1)]
    Cons.IH [OF step_safe [OF Cons.prems(1) m1(1)]] show ?case by auto
qed simp

end
