(* ===== verification/Driver_Disk.thy ===== *)
theory Driver_Disk
  imports Driver_Scsi
begin

text \<open>
  What a LUN promises as a disk: an abstract block device, whose contents a command either leaves
  alone, overwrites in one range or returns from one range, and the refinement of it by the SCSI
  commands of scsi_rw.cpp on the backing store. The interface that the guarantees on runs of
  commands rest on is the locale \<open>block_device\<close>.
\<close>

section \<open>The abstract device\<close>

type_synonym image = "nat \<Rightarrow> u8"

text \<open>
  A transfer is a byte offset, a number of bytes and a direction (\<open>True\<close> writes). A command yields
  the new contents of the disk and the bytes it read.
\<close>

fun device_step :: "(nat \<times> nat \<times> bool) option \<Rightarrow> u8 list \<Rightarrow> image \<Rightarrow> image \<times> u8 list" where
  "device_step None data img = (img, [])"
| "device_step (Some (off, n, True)) data img =
     ((\<lambda>k. if off \<le> k \<and> k < off + n then data ! (k - off) else img k), [])"
| "device_step (Some (off, n, False)) data img = (img, map (\<lambda>k. img (off + k)) [0..<n])"

definition disk_image :: "lun_view \<Rightarrow> pool \<Rightarrow> image" where
  "disk_image view pool = (case pool (lv_backing_store view) of None \<Rightarrow> (\<lambda>_. 0) | Some blk \<Rightarrow> pb_data blk)"

definition lease_valid :: "lun_view \<Rightarrow> pool \<Rightarrow> bool" where
  "lease_valid view pool \<longleftrightarrow> (case pool (lv_backing_store view) of
     None \<Rightarrow> False | Some blk \<Rightarrow> pb_size blk = unat (lv_size_bytes view))"

lemma lease_validE:
  assumes "lease_valid view pool"
  obtains blk where "pool (lv_backing_store view) = Some blk" "pb_size blk = unat (lv_size_bytes view)"
    "disk_image view pool = pb_data blk"
  using assms by (auto simp: lease_valid_def disk_image_def split: option.splits)

lemma srb_data_SetSense [simp]: "srb_data (snd (SetSense key asc ascq b)) = srb_data b"
  by (simp add: SetSense_def Let_def srb_data_def split: option.splits)

text \<open>Success, and how many bytes the response block says were moved.\<close>

definition moved :: "srb \<Rightarrow> nat" where
  "moved b = unat (sb_data_transfer_length b)"

lemma HandleReadWrite_device:
  assumes wf: "srb_wf b" and lease: "lease_valid view pool" and t: "transfer_of view b = t"
  shows "\<exists>status b' pool'. HandleReadWrite view b pool = Some ((status, b'), pool')
    \<and> lease_valid view pool' \<and> (\<forall>q. q \<noteq> lv_backing_store view \<longrightarrow> pool' q = pool q)
    \<and> (case device_step t (srb_data b) (disk_image view pool) of (img, out) \<Rightarrow>
         disk_image view pool' = img \<and> srb_data b' = out @ drop (length out) (srb_data b))
    \<and> (case t of None \<Rightarrow> moved b' = 0 | Some (off, n, w) \<Rightarrow> status = SRB_STATUS_SUCCESS \<and> moved b' = n)"
proof (cases t)
  case None
  have sense: "\<exists>status b'. SetSense key asc ascq b = (status, b') \<and> srb_data b' = srb_data b \<and> moved b' = 0"
    for key asc ascq
    by (cases "SetSense key asc ascq b")
      (use srb_data_SetSense [of key asc ascq b] in
        \<open>auto simp: SetSense_def Let_def moved_def split: option.splits if_splits\<close>)
  show ?thesis
    using t None lease sense [of SCSI_SENSE_ILLEGAL_REQUEST _ 0]
    by (auto simp: HandleReadWrite_checks moved_def split: option.splits)
next
  case (Some r)
  obtain off n w where r: "r = (off, n, w)" by (cases r)
  note bnd = transfer_of_bounds [OF t [unfolded Some r]]
  obtain blk where blk: "pool (lv_backing_store view) = Some blk" "pb_size blk = unat (lv_size_bytes view)"
    and img: "disk_image view pool = pb_data blk" by (rule lease_validE [OF lease])
  from bnd(5) obtain d where d: "sb_data_buffer b = Some d" by blast
  with wf have len: "unat (sb_data_transfer_length b) \<le> length d" by (simp add: srb_wf_def)
  have fits: "off + n \<le> pb_size blk" "n \<le> length d" using bnd blk(2) len by simp_all
  show ?thesis
    unfolding HandleReadWrite_checks t Some r img srb_data_Some [OF d]
    using pool_accesses [of pool, OF blk(1) fits] bnd(6) fits blk d lease
    by (cases w) (auto simp: Let_def lease_valid_def disk_image_def moved_def img srb_data_Some write_at_def)
qed

text \<open>The dispatcher: other commands answer from constants and the geometry, and move nothing.\<close>

definition command_transfer :: "lun_view \<Rightarrow> srb \<Rightarrow> (nat \<times> nat \<times> bool) option" where
  "command_transfer view b = (if sb_cdb b ! 0 \<in> set read_write_commands then transfer_of view b else None)"

lemma take_prefix [simp]: "take (length out) (out @ xs) = out"
  by simp

lemma DispatchScsiCommand_device:
  assumes wf: "srb_wf b" and lease: "lease_valid view pool"
  shows "\<exists>status b' pool'. DispatchScsiCommand view b pool = Some ((status, b'), pool')
    \<and> lease_valid view pool' \<and> (\<forall>q. q \<noteq> lv_backing_store view \<longrightarrow> pool' q = pool q)
    \<and> (case device_step (command_transfer view b) (srb_data b) (disk_image view pool) of (img, out) \<Rightarrow>
         disk_image view pool' = img \<and> take (length out) (srb_data b') = out)"
proof (cases "sb_cdb b ! 0 \<in> set read_write_commands")
  case True
  then have "DispatchScsiCommand view b pool = HandleReadWrite view b pool"
    by (auto simp: DispatchScsiCommand_def Let_def read_write_commands_def no_data_commands_def)
  moreover have "command_transfer view b = transfer_of view b"
    using True by (simp add: command_transfer_def)
  ultimately show ?thesis
    using HandleReadWrite_device [OF wf lease refl]
    by (cases "device_step (transfer_of view b) (srb_data b) (disk_image view pool)") auto
next
  case False
  have pick: "(\<exists>r. (if P then Some (x, pool) else y) = Some (r, pool)) \<longleftrightarrow>
      P \<or> (\<exists>r. y = Some (r, pool))" for P x and y :: "((u8 \<times> srb) \<times> pool) option"
    by simp
  have "\<exists>r. DispatchScsiCommand view b pool = Some (r, pool)"
    unfolding DispatchScsiCommand_def Let_def pick using False by simp
  then obtain r where "DispatchScsiCommand view b pool = Some (r, pool)" ..
  moreover have "command_transfer view b = None" using False by (simp add: command_transfer_def)
  ultimately show ?thesis using lease by (cases r) simp
qed

section \<open>Runs of commands\<close>

text \<open>The bytes \<open>lo \<le> k < hi\<close> are not written by a transfer.\<close>

fun leaves_alone :: "nat \<Rightarrow> nat \<Rightarrow> (nat \<times> nat \<times> bool) option \<Rightarrow> bool" where
  "leaves_alone lo hi (Some (off, n, True)) = (off + n \<le> lo \<or> hi \<le> off)"
| "leaves_alone lo hi _ = True"

lemma leaves_alone_step:
  assumes "leaves_alone lo hi t" "lo \<le> k" "k < hi"
  shows "fst (device_step t data img) k = img k"
  using assms by (cases "(lo, hi, t)" rule: leaves_alone.cases) auto

fun run_commands :: "('c \<Rightarrow> 's \<Rightarrow> ('r \<times> 's) option) \<Rightarrow> 'c list \<Rightarrow> 's \<Rightarrow> ('r list \<times> 's) option" where
  "run_commands exec [] s = Some ([], s)"
| "run_commands exec (c # cs) s = (case exec c s of
     None \<Rightarrow> None
   | Some (r, s') \<Rightarrow> (case run_commands exec cs s' of None \<Rightarrow> None | Some (rs, s'') \<Rightarrow> Some (r # rs, s'')))"

lemma run_commands_append:
  "run_commands exec (cs @ ds) s = (case run_commands exec cs s of
     None \<Rightarrow> None
   | Some (rs, s') \<Rightarrow> (case run_commands exec ds s' of None \<Rightarrow> None | Some (ts, s'') \<Rightarrow> Some (rs @ ts, s'')))"
  by (induction cs arbitrary: s) (auto split: option.splits)

text \<open>
  The interface of a block device: a command that StorPort may send has a result, and does to the
  disk what its transfer says.
\<close>

locale block_device =
  fixes exec :: "'c \<Rightarrow> 's \<Rightarrow> ('r \<times> 's) option"
    and allowed :: "'c \<Rightarrow> bool" and valid :: "'s \<Rightarrow> bool" and image_of :: "'s \<Rightarrow> image"
    and transfer :: "'c \<Rightarrow> (nat \<times> nat \<times> bool) option" and data_out :: "'c \<Rightarrow> u8 list" and data_in :: "'r \<Rightarrow> u8 list"
  assumes exec_device: "allowed c \<Longrightarrow> valid s \<Longrightarrow> \<exists>r s'. exec c s = Some (r, s') \<and> valid s'
    \<and> (case device_step (transfer c) (data_out c) (image_of s) of (img, out) \<Rightarrow>
         image_of s' = img \<and> take (length out) (data_in r) = out)"
begin

lemma exec_image:
  assumes "allowed c" "valid s"
  obtains r s' where "exec c s = Some (r, s')" "valid s'"
    "image_of s' = fst (device_step (transfer c) (data_out c) (image_of s))"
    "take (length (snd (device_step (transfer c) (data_out c) (image_of s)))) (data_in r) =
      snd (device_step (transfer c) (data_out c) (image_of s))"
  using exec_device [OF assms] that
  by (cases "device_step (transfer c) (data_out c) (image_of s)") auto

lemma run_image:
  assumes "list_all allowed cs" "valid s"
  shows "\<exists>rs s'. run_commands exec cs s = Some (rs, s') \<and> valid s' \<and> length rs = length cs
    \<and> image_of s' = foldl (\<lambda>img c. fst (device_step (transfer c) (data_out c) img)) (image_of s) cs"
  using assms
proof (induction cs arbitrary: s)
  case (Cons c cs)
  then have "allowed c" "valid s" by simp_all
  then obtain r s1 where s1: "exec c s = Some (r, s1)" "valid s1"
    "image_of s1 = fst (device_step (transfer c) (data_out c) (image_of s))"
    by (blast elim: exec_image)
  from Cons.IH [OF _ s1(2)] Cons.prems show ?case by (auto simp: s1)
qed simp

lemma run_keeps:
  assumes "list_all allowed cs" "valid s" "list_all (\<lambda>c. leaves_alone lo hi (transfer c)) cs"
  shows "\<exists>rs s'. run_commands exec cs s = Some (rs, s') \<and> valid s'
    \<and> (\<forall>k. lo \<le> k \<longrightarrow> k < hi \<longrightarrow> image_of s' k = image_of s k)"
proof -
  have "lo \<le> k \<Longrightarrow> k < hi \<Longrightarrow> list_all (\<lambda>c. leaves_alone lo hi (transfer c)) cs \<Longrightarrow>
      foldl (\<lambda>img c. fst (device_step (transfer c) (data_out c) img)) img cs k = img k" for img k
    by (induction cs arbitrary: img) (simp_all add: leaves_alone_step [of lo hi _ k])
  with run_image [OF assms(1,2)] assms(3) show ?thesis by auto
qed

lemma read_after_write:
  assumes "allowed w" "list_all allowed cs" "allowed r" "valid s"
    and w: "transfer w = Some (off, n, True)" and r: "transfer r = Some (off', n', False)"
    and within: "off \<le> off'" "off' + n' \<le> off + n"
    and others: "list_all (\<lambda>c. leaves_alone off (off + n) (transfer c)) cs"
  shows "\<exists>rs s'. run_commands exec (w # cs @ [r]) s = Some (rs, s')
    \<and> take n' (data_in (last rs)) = map (\<lambda>k. data_out w ! (off' - off + k)) [0..<n']"
proof -
  from assms(1,4) obtain rw s1 where s1: "exec w s = Some (rw, s1)" "valid s1"
    and "image_of s1 = fst (device_step (transfer w) (data_out w) (image_of s))"
    by (blast elim: exec_image)
  then have i1: "image_of s1 k = data_out w ! (k - off)" if "off \<le> k" "k < off + n" for k
    using that by (simp add: w)
  from run_keeps [OF assms(2) s1(2) others] obtain rs s2 where s2: "run_commands exec cs s1 = Some (rs, s2)"
    "valid s2" and i2: "\<And>k. off \<le> k \<Longrightarrow> k < off + n \<Longrightarrow> image_of s2 k = image_of s1 k" by blast
  from assms(3) s2(2) obtain rr s3 where s3: "exec r s2 = Some (rr, s3)"
    and out: "take (length (snd (device_step (transfer r) (data_out r) (image_of s2)))) (data_in rr) =
      snd (device_step (transfer r) (data_out r) (image_of s2))"
    by (blast elim: exec_image)
  from out have "take n' (data_in rr) = map (\<lambda>k. image_of s2 (off' + k)) [0..<n']" by (simp add: r)
  also have "\<dots> = map (\<lambda>k. data_out w ! (off' - off + k)) [0..<n']"
    using within by (intro map_cong refl) (simp add: i1 i2)
  finally show ?thesis by (simp add: s1 s2 s3 run_commands_append)
qed

end

interpretation lun_disk: block_device "DispatchScsiCommand view" srb_wf "lease_valid view" "disk_image view"
  "command_transfer view" srb_data "\<lambda>r. srb_data (snd r)"
proof
  fix c s
  assume "srb_wf c" "lease_valid view s"
  from DispatchScsiCommand_device [OF this]
  show "\<exists>r s'. DispatchScsiCommand view c s = Some (r, s') \<and> lease_valid view s'
    \<and> (case device_step (command_transfer view c) (srb_data c) (disk_image view s) of (img, out) \<Rightarrow>
         disk_image view s' = img \<and> take (length out) (srb_data (snd r)) = out)"
    by fastforce
qed

section \<open>Reading what was written\<close>

text \<open>
  C20. Over the SCSI commands of one LUN: whatever commands come between, as long as none of them
  writes to the range, a read returns the bytes that the last write put there.
\<close>

theorem scsi_read_after_write:
  assumes "srb_wf w" "list_all srb_wf between" "srb_wf r" "lease_valid view pool"
    and "command_transfer view w = Some (off, n, True)" "command_transfer view r = Some (off', n', False)"
    and "off \<le> off'" "off' + n' \<le> off + n"
    and "list_all (\<lambda>c. leaves_alone off (off + n) (command_transfer view c)) between"
  shows "\<exists>answers pool'.
    run_commands (DispatchScsiCommand view) (w # between @ [r]) pool = Some (answers, pool')
    \<and> take n' (srb_data (snd (last answers))) = map (\<lambda>k. srb_data w ! (off' - off + k)) [0..<n']"
  using lun_disk.read_after_write [OF assms] .

definition example_srb :: "srb_function \<Rightarrow> u8 list \<Rightarrow> u8 list \<Rightarrow> srb" where
  "example_srb function cdb d = \<lparr>sb_function = function, sb_path_id = 0, sb_target_id = 0, sb_lun = 0,
     sb_srb_status = 0, sb_scsi_status = 0, sb_cdb = cdb, sb_cdb_length = 10, sb_data_buffer = Some d,
     sb_data_transfer_length = word_of_nat (length d), sb_sense_buffer = None, sb_sense_length = 0\<rparr>"

definition example_view :: lun_view where
  "example_view = \<lparr>lv_backing_store = 1, lv_size_bytes = 4096, lv_media_kind = 1, lv_device_id = 1\<rparr>"

text \<open>A ten-byte read (\<open>0x28\<close>) or write (\<open>0x2A\<close>) of one sector.\<close>

abbreviation sector_command :: "u8 \<Rightarrow> u8 \<Rightarrow> u8 \<Rightarrow> srb" where
  "sector_command code lba byte \<equiv>
     example_srb Fn_Execute_Scsi [code, 0, 0, 0, 0, lba, 0, 0, 1, 0, 0, 0, 0, 0, 0, 0] (replicate 512 byte)"

lemma example_transfers:
  "command_transfer example_view (sector_command 0x2A 2 b) = Some (1024, 512, True)"
  "command_transfer example_view (sector_command 0x2A 3 b) = Some (1536, 512, True)"
  "command_transfer example_view (sector_command 0x28 2 b) = Some (1024, 512, False)"
  by (simp_all add: command_transfer_def transfer_of_def ParseReadWriteCdb_def ReadBigEndian32_def
      example_srb_def example_view_def read_write_commands_def kMaximumTransferLength_def Let_def)

theorem scsi_read_after_write_witness:
  "\<exists>answers pool'. run_commands (DispatchScsiCommand example_view)
      (sector_command 0x2A 2 7 # [sector_command 0x2A 3 9] @ [sector_command 0x28 2 0])
      [1 \<mapsto> \<lparr>pb_size = 4096, pb_data = (\<lambda>_. 0)\<rparr>] = Some (answers, pool')
    \<and> take 512 (srb_data (snd (last answers))) =
      map (\<lambda>k. srb_data (sector_command 0x2A 2 7) ! (1024 - 1024 + k)) [0..<512]"
  by (rule scsi_read_after_write)
    (simp_all add: example_transfers, simp_all add: srb_wf_def example_srb_def lease_valid_def example_view_def)

end
