(* ===== verification/Driver_Wire.thy ===== *)
theory Driver_Wire
  imports Driver_Control Transport
begin

text \<open>
  Both ends of an \<open>IOCTL_SCSI_MINIPORT\<close> exchange: a request block whose buffer is a control
  envelope and a message, as \<open>Adapter::send\<close> builds it, and what the driver's helpers of
  control_request.h do to it. The rest of the development sees requests and answers through these
  lemmas, not through byte offsets.
\<close>

section \<open>Request blocks with an envelope\<close>

lemma driver_sizes [simp]:
  "size_of create_request_type = 48" "size_of delete_request_type = 32" "size_of create_response_type = 32"
  "size_of list_response_type = 544"
  by (simp_all add: wire_type_defs align_up_def)

definition message_block :: "srb_io_control \<Rightarrow> u8 list \<Rightarrow> srb \<Rightarrow> bool" where
  "message_block control msg b \<longleftrightarrow> sb_data_buffer b = Some (enc_srb_io_control control @ msg)
     \<and> length (srb_signature control) = 8"

lemma message_block_reads:
  assumes "message_block control msg b"
  shows "io_control b = control" and "payload b = msg"
    and "srb_data b = enc_srb_io_control control @ msg"
proof -
  from assms have d: "srb_data b = enc_srb_io_control control @ msg" and sig: "length (srb_signature control) = 8"
    by (simp_all add: message_block_def srb_data_def)
  show "srb_data b = enc_srb_io_control control @ msg" by (rule d)
  show "io_control b = control" using sig by (simp add: io_control_def d srb_io_control_wire.dec_enc)
  show "payload b = msg" using sig by (simp add: payload_def d srb_io_control_wire.length_enc)
qed

lemma FromSrb_message:
  assumes "message_block control msg b"
  shows "FromSrb b \<longleftrightarrow> 28 \<le> unat (sb_data_transfer_length b) \<and> srb_header_length control = 28
    \<and> srb_signature control = SRB_SIGNATURE \<and> 28 + unat (srb_length control) \<le> unat (sb_data_transfer_length b)"
proof -
  from assms have "sb_data_buffer b \<noteq> None" by (simp add: message_block_def)
  then show ?thesis
    using message_block_reads [OF assms] by (auto simp: FromSrb_iff control_end_def)
qed

text \<open>Overwriting a field of the envelope, and the message behind it.\<close>

lemma write_at_split:
  assumes "off = length xs" "length bs = length ys"
  shows "write_at off bs (xs @ ys @ zs) = xs @ bs @ zs"
  using assms by (simp add: write_at_def)

lemma enc_split:
  "enc_srb_io_control control @ msg = (u32_bytes (srb_header_length control) @ srb_signature control
      @ u32_bytes (srb_timeout control) @ u32_bytes (srb_control_code control))
    @ u32_bytes (srb_return_code control) @ (u32_bytes (srb_length control) @ msg)"
  "enc_srb_io_control control @ msg = (u32_bytes (srb_header_length control) @ srb_signature control
      @ u32_bytes (srb_timeout control) @ u32_bytes (srb_control_code control) @ u32_bytes (srb_return_code control))
    @ u32_bytes (srb_length control) @ msg"
  by (simp_all add: enc_srb_io_control_def)

lemma write_envelope:
  assumes "length (srb_signature control) = 8"
  shows "write_at 20 (u32_bytes code) (enc_srb_io_control control @ msg) =
      enc_srb_io_control (control\<lparr>srb_return_code := code\<rparr>) @ msg"
    and "write_at 24 (u32_bytes n) (enc_srb_io_control control @ msg) =
      enc_srb_io_control (control\<lparr>srb_length := n\<rparr>) @ msg"
    and "length bs \<le> length msg \<Longrightarrow> write_at 28 bs (enc_srb_io_control control @ msg) =
      enc_srb_io_control control @ bs @ drop (length bs) msg"
proof -
  show "write_at 20 (u32_bytes code) (enc_srb_io_control control @ msg) =
      enc_srb_io_control (control\<lparr>srb_return_code := code\<rparr>) @ msg"
    unfolding enc_split(1) using assms by (subst write_at_split) simp_all
  show "write_at 24 (u32_bytes n) (enc_srb_io_control control @ msg) =
      enc_srb_io_control (control\<lparr>srb_length := n\<rparr>) @ msg"
    unfolding enc_split(2) using assms by (subst write_at_split) simp_all
  show "write_at 28 bs (enc_srb_io_control control @ msg) =
      enc_srb_io_control control @ bs @ drop (length bs) msg" if "length bs \<le> length msg"
    using assms that by (simp add: write_at_def srb_io_control_wire.length_enc)
qed

lemma set_return_code_message:
  assumes "message_block control msg b"
  shows "message_block (control\<lparr>srb_return_code := code\<rparr>) msg (set_return_code code b)"
  using assms by (simp add: message_block_def set_return_code_def write_envelope)

text \<open>An answer: the envelope says how long it is and with which status, the rest is stale.\<close>

definition answer_block :: "srb_io_control \<Rightarrow> i32 \<Rightarrow> u8 list \<Rightarrow> u8 list \<Rightarrow> srb \<Rightarrow> srb" where
  "answer_block control status response stale b = b\<lparr>
     sb_data_buffer := Some (enc_srb_io_control (control\<lparr>srb_return_code := status,
       srb_length := word_of_nat (length response)\<rparr>) @ response @ stale),
     sb_data_transfer_length := word_of_nat (28 + length response),
     sb_scsi_status := SCSISTAT_GOOD, sb_srb_status := SRB_STATUS_SUCCESS\<rparr>"

lemma WriteResponse_message:
  assumes b: "message_block control msg b" and fits: "length response \<le> unat (srb_length control)"
    and len: "unat (srb_length control) \<le> length msg"
  shows "WriteResponse response status b = answer_block control status response (drop (length response) msg) b"
proof -
  from b have d: "sb_data_buffer b = Some (enc_srb_io_control control @ msg)"
    and sig: "length (srb_signature control) = 8" by (simp_all add: message_block_def)
  have "length response \<le> length msg" using fits len by simp
  with d sig show ?thesis
    using fits message_block_reads(1) [OF b]
    by (simp add: WriteResponse_def PrepareCompletion_def set_return_code_def answer_block_def Let_def
        write_envelope)
qed

section \<open>What a completed request says about an operation\<close>

definition operation_codes :: "u32 set" where
  "operation_codes = {operation_code Create_Reserved, operation_code Delete_Reserved, operation_code Query_Result}"

text \<open>The operation response that a client of the request finds in it, if it is a success.\<close>

definition answer_of :: "srb \<Rightarrow> operation_response option" where
  "answer_of b =
     (if sb_function b = Fn_Io_Control \<and> srb_control_code (io_control b) \<in> operation_codes
         \<and> size_of srb_io_control_type + size_of operation_response_type \<le> unat (sb_data_transfer_length b)
         \<and> NT_SUCCESS (srb_return_code (io_control b))
      then Some (dec_operation_response (payload b)) else None)"

lemma control_message:
  assumes "control_ok b" shows "message_block (io_control b) (payload b) b"
proof -
  note buffer = control_ok_buffer [OF assms]
  have sig: "length (srb_signature (io_control b)) = 8"
    using buffer(4) by (simp add: io_control_def dec_srb_io_control_def)
  have "enc_srb_io_control (io_control b) = slice 0 28 (srb_data b)"
    unfolding io_control_def using buffer(4) by (rule srb_io_control_wire.enc_dec)
  then have "enc_srb_io_control (io_control b) @ payload b = srb_data b"
    by (simp add: payload_def slice_def)
  with buffer(1) sig show ?thesis by (simp add: message_block_def)
qed

lemma control_payload_length:
  assumes "control_ok b" shows "unat (srb_length (io_control b)) \<le> length (payload b)"
  using control_ok_buffer(2,4) [OF assms] by (simp add: control_end_def payload_def)

text \<open>Every way of answering: what is read back from the block.\<close>

lemma Prepare_reads:
  assumes "message_block control msg b"
  shows "io_control (PrepareCompletion status n b) = control\<lparr>srb_return_code := status, srb_length := word_of_nat n\<rparr>"
    and "payload (PrepareCompletion status n b) = msg"
proof -
  from assms have "message_block (control\<lparr>srb_return_code := status, srb_length := word_of_nat n\<rparr>) msg
      (PrepareCompletion status n b)"
    by (simp add: message_block_def PrepareCompletion_def set_return_code_def Let_def write_envelope)
  from message_block_reads [OF this] show
    "io_control (PrepareCompletion status n b) = control\<lparr>srb_return_code := status, srb_length := word_of_nat n\<rparr>"
    "payload (PrepareCompletion status n b) = msg" by simp_all
qed

lemma Prepare_function [simp]:
  "sb_function (PrepareCompletion status n b) = sb_function b"
  "sb_data_transfer_length (PrepareCompletion status n b) = word_of_nat (28 + n)"
  by (simp_all add: PrepareCompletion_def set_return_code_def Let_def)

lemma WriteResponse_reads:
  assumes ok: "control_ok b"
  shows "sb_function (WriteResponse response status b) = sb_function b"
    and "srb_control_code (io_control (WriteResponse response status b)) = srb_control_code (io_control b)"
    and "if length response \<le> unat (srb_length (io_control b))
      then srb_return_code (io_control (WriteResponse response status b)) = status
        \<and> payload (WriteResponse response status b) = response @ drop (length response) (payload b)
      else srb_return_code (io_control (WriteResponse response status b)) = STATUS_BUFFER_TOO_SMALL"
proof -
  note msg = control_message [OF ok]
  show "sb_function (WriteResponse response status b) = sb_function b"
    by (simp add: WriteResponse_def)
  show "srb_control_code (io_control (WriteResponse response status b)) = srb_control_code (io_control b)"
    "if length response \<le> unat (srb_length (io_control b))
      then srb_return_code (io_control (WriteResponse response status b)) = status
        \<and> payload (WriteResponse response status b) = response @ drop (length response) (payload b)
      else srb_return_code (io_control (WriteResponse response status b)) = STATUS_BUFFER_TOO_SMALL"
  proof (atomize (full), cases "length response \<le> unat (srb_length (io_control b))")
    case True
    from True control_payload_length [OF ok] have len: "length response \<le> length (payload b)" by simp
    have "message_block (io_control b) (response @ drop (length response) (payload b))
        (b\<lparr>sb_data_buffer := map_option (write_at 28 response) (sb_data_buffer b)\<rparr>)"
      using msg len by (simp add: message_block_def write_envelope)
    note reads = Prepare_reads [OF this, of status "length response"]
    with True show "srb_control_code (io_control (WriteResponse response status b)) = srb_control_code (io_control b)
      \<and> (if length response \<le> unat (srb_length (io_control b))
      then srb_return_code (io_control (WriteResponse response status b)) = status
        \<and> payload (WriteResponse response status b) = response @ drop (length response) (payload b)
      else srb_return_code (io_control (WriteResponse response status b)) = STATUS_BUFFER_TOO_SMALL)"
      by (simp add: WriteResponse_def)
  next
    case False
    with Prepare_reads [OF msg, of STATUS_BUFFER_TOO_SMALL 0]
    show "srb_control_code (io_control (WriteResponse response status b)) = srb_control_code (io_control b)
      \<and> (if length response \<le> unat (srb_length (io_control b))
      then srb_return_code (io_control (WriteResponse response status b)) = status
        \<and> payload (WriteResponse response status b) = response @ drop (length response) (payload b)
      else srb_return_code (io_control (WriteResponse response status b)) = STATUS_BUFFER_TOO_SMALL)"
      by (simp add: WriteResponse_def)
  qed
qed

lemma answer_WriteError:
  assumes "control_ok b" "\<not> NT_SUCCESS status"
  shows "answer_of (WriteError operation status corr b) = None"
proof (cases "unat (srb_length (io_control b)) \<ge> 24")
  case True
  with assms(2) WriteResponse_reads(3) [OF assms(1), of "enc_response_header (MakeResponseHeader 24 operation status corr)" status]
  show ?thesis by (simp add: answer_of_def WriteError_def response_header_wire.length_enc)
next
  case False
  with assms(2) Prepare_reads(1) [OF control_message [OF assms(1)], of status 0]
  show ?thesis by (simp add: answer_of_def WriteError_def)
qed

lemma answer_other_code:
  assumes "control_ok b" "srb_control_code (io_control b) \<notin> operation_codes"
  shows "answer_of (WriteResponse response status b) = None"
  using WriteResponse_reads(2) [OF assms(1)] assms(2) by (simp add: answer_of_def)

lemma answer_WriteOperationResponse:
  assumes ok: "control_ok b"
    and some: "answer_of (WriteOperationResponse result corr b) = Some resp"
  shows "resp = operation_response_of (srb_control_code (io_control b)) result corr"
proof -
  let ?r = "operation_response_of (srb_control_code (io_control b)) result corr"
  have len: "length (enc_operation_response ?r) = 64" by (simp add: operation_response_wire.length_enc)
  note reads = WriteResponse_reads [OF ok, of "enc_operation_response ?r" STATUS_SUCCESS]
  from some reads(3) len have "payload (WriteOperationResponse result corr b) =
      enc_operation_response ?r @ drop 64 (payload b)"
    by (auto simp: answer_of_def WriteOperationResponse_def split: if_splits)
  with some show ?thesis
    by (auto simp: answer_of_def operation_response_wire.dec_enc split: if_splits)
qed

lemma answer_status [simp]:
  "answer_of (b\<lparr>sb_srb_status := s\<rparr>) = answer_of b" "answer_of (b\<lparr>sb_scsi_status := s2\<rparr>) = answer_of b"
  "answer_of (CompleteRequest status b) = answer_of b" "answer_of (complete_control b) = answer_of b"
  by (simp_all add: answer_of_def io_control_def payload_def srb_data_def CompleteRequest_def complete_control_def Let_def)

lemma answer_truncated [simp]: "answer_of (b\<lparr>sb_data_transfer_length := 0\<rparr>) = None"
  by (simp add: answer_of_def)

end
