(* ===== verification/Driver_Records.thy ===== *)
theory Driver_Records
  imports Driver_Safety Driver_Wire
begin

text \<open>
  The life of a reserved operation, over all runs of the driver: reserved once under an id that is
  never given out again, accepted once, carried out by the one mutation at work, published once.
  The invariant relates the operation table to the history of the disks: an operation commits at
  most one disk, a record that says it succeeded is backed by the disk (or its removal), a pending
  record is being worked on, and what a completed request tells its client about an operation is
  true and stays true.
\<close>

section \<open>History and tasks\<close>

fun committed_by :: "driver_event \<Rightarrow> u64 list" where
  "committed_by (Disk_Committed (Some ident) dev i q) = [ident]"
| "committed_by _ = []"

definition committed_ops :: "driver_event list \<Rightarrow> u64 list" where
  "committed_ops log = concat (map committed_by log)"

lemma committed_ops_simps [simp]:
  "committed_ops [] = []" "committed_ops (log @ log') = committed_ops log @ committed_ops log'"
  "committed_ops (ev # log) = committed_by ev @ committed_ops log"
  by (simp_all add: committed_ops_def)

lemma committed_ops_mem: "ident \<in> set (committed_ops log) \<longleftrightarrow> (\<exists>dev i q. Disk_Committed (Some ident) dev i q \<in> set log)"
proof (induction log)
  case (Cons ev log)
  then show ?case by (cases ev rule: committed_by.cases) auto
qed simp

definition is_reserved_code :: "u32 \<Rightarrow> bool" where
  "is_reserved_code code \<longleftrightarrow> code = operation_code Create_Reserved \<or> code = operation_code Delete_Reserved"

text \<open>The reserved operation that a thread is responsible for.\<close>

fun works_on :: "thread \<Rightarrow> u64 option" where
  "works_on (Preparing b c) = (if IsReserved c then Some (oq_operation_id (mc_identity c)) else None)"
| "works_on (Queue_Failed b c) = (if IsReserved c then Some (oq_operation_id (mc_identity c)) else None)"
| "works_on (Queued b) = (if FromSrb b \<and> is_reserved_code (srb_control_code (io_control b))
     then Some (oq_operation_id (dec_operation_request (payload b))) else None)"
| "works_on (Selecting w) = work_operation w"
| "works_on (Allocating w i) = work_operation w"
| "works_on (Committing w i p) = work_operation w"
| "works_on (Discarding w status p) = work_operation w"
| "works_on (Created w status disk) = work_operation w"
| "works_on (Marking w) = work_operation w"
| "works_on (Draining (By_Worker w) i dev) = work_operation w"
| "works_on (Detaching (By_Worker w) i dev) = work_operation w"
| "works_on (Freeing (By_Worker w) i dev p) = work_operation w"
| "works_on (Finalizing (By_Worker w) i dev) = work_operation w"
| "works_on (Deleted w status) = work_operation w"
| "works_on _ = None"

lemma works_on_manager: "works_on th = Some ident \<Longrightarrow> manager th"
  by (cases th rule: works_on.cases) (auto simp: is_worker_def)

section \<open>The invariant\<close>

text \<open>The record of a succeeded create and its disk.\<close>

definition live_disk :: "adapter_extension \<Rightarrow> operation_record \<Rightarrow> bool" where
  "live_disk e r \<longleftrightarrow> (let l = ax_luns e ! unat (op_lun r) in unat (op_lun r) < 16 \<and> lu_state l \<noteq> Lun_Empty
     \<and> lu_device_id l = op_device_id r \<and> lu_create_operation_id l = op_id r
     \<and> lu_size_bytes l = cq_size_bytes (op_create r))"

definition record_ok :: "adapter_extension \<Rightarrow> driver_event list \<Rightarrow> operation_record \<Rightarrow> bool" where
  "record_ok e log r \<longleftrightarrow> id_below (op_id r) (ax_next_operation_id e)
     \<and> (op_mutation r = operation_code Create_Disk \<or> op_mutation r = operation_code Delete_Disk)
     \<and> (op_state r = state_code State_Reserved \<or> op_state r = state_code State_Failed
          \<or> op_mutation r = operation_code Delete_Disk \<longrightarrow> op_id r \<notin> set (committed_ops log))
     \<and> (op_state r = state_code State_Succeeded \<longrightarrow>
          (if op_mutation r = operation_code Create_Disk
           then Disk_Committed (Some (op_id r)) (op_device_id r) (unat (op_lun r)) (op_create r) \<in> set log
             \<and> live_disk e r
           else Disk_Removed (op_device_id r) \<in> set log))"

definition table_ok :: "adapter_extension \<Rightarrow> driver_event list \<Rightarrow> bool" where
  "table_ok e log \<longleftrightarrow>
     (\<forall>i < length (ax_operations e). \<forall>j < length (ax_operations e).
        op_id (ax_operations e ! i) = op_id (ax_operations e ! j) \<longrightarrow> op_id (ax_operations e ! i) \<noteq> 0 \<longrightarrow> i = j)
     \<and> (\<forall>r \<in> set (ax_operations e). if op_id r = 0 then op_state r = 0 else record_ok e log r)
     \<and> distinct (committed_ops log)
     \<and> (\<forall>ident \<in> set (committed_ops log). id_below ident (ax_next_operation_id e))
     \<and> (\<forall>dev. Disk_Removed dev \<in> set log \<longrightarrow> id_below dev (ax_next_device_id e)
          \<and> (\<forall>i < 16. lu_device_id (ax_luns e ! i) \<noteq> dev))"

text \<open>An operation that will never commit: its record, if it is still there, is settled.\<close>

definition dead :: "u64 \<Rightarrow> adapter_extension \<Rightarrow> driver_event list \<Rightarrow> bool" where
  "dead ident e log \<longleftrightarrow> id_below ident (ax_next_operation_id e) \<and> ident \<notin> set (committed_ops log)
     \<and> (\<forall>r \<in> set (ax_operations e). op_id r = ident \<longrightarrow>
          op_state r \<noteq> state_code State_Reserved \<and> op_state r \<noteq> state_code State_Pending)"

definition truthful :: "operation_response \<Rightarrow> adapter_extension \<Rightarrow> driver_event list \<Rightarrow> bool" where
  "truthful resp e log \<longleftrightarrow> or_adapter_instance resp = ax_adapter_instance e
     \<and> (or_state resp = state_code State_Succeeded \<longrightarrow> or_mutation resp = operation_code Create_Disk \<longrightarrow>
          (\<exists>q. Disk_Committed (Some (or_operation_id resp)) (or_device_id resp) (unat (or_lun resp)) q \<in> set log))
     \<and> (or_state resp = state_code State_Succeeded \<longrightarrow> or_mutation resp = operation_code Delete_Disk \<longrightarrow>
          Disk_Removed (or_device_id resp) \<in> set log)
     \<and> (or_state resp = state_code State_Failed \<longrightarrow> dead (or_operation_id resp) e log)"

definition answer_ok :: "srb \<Rightarrow> adapter_extension \<Rightarrow> driver_event list \<Rightarrow> bool" where
  "answer_ok b e log \<longleftrightarrow> (case answer_of b of None \<Rightarrow> True | Some resp \<Rightarrow> truthful resp e log)"

text \<open>A reserved operation before its disk is committed.\<close>

definition pending_op :: "u64 \<Rightarrow> adapter_extension \<Rightarrow> driver_event list \<Rightarrow> bool" where
  "pending_op ident e log \<longleftrightarrow> ident \<noteq> 0 \<and> ident \<notin> set (committed_ops log)
     \<and> (\<exists>r \<in> set (ax_operations e). op_id r = ident \<and> op_state r = state_code State_Pending)"

fun block_ok :: "work \<Rightarrow> bool" where
  "block_ok (Legacy_Create b q) = (control_ok b \<and> srb_control_code (io_control b) \<notin> operation_codes)"
| "block_ok (Legacy_Delete b q) = (control_ok b \<and> srb_control_code (io_control b) \<notin> operation_codes)"
| "block_ok (Reserved_Work b identity r) = control_ok b"

fun record_of :: "work \<Rightarrow> operation_record option" where
  "record_of (Reserved_Work b identity r) = Some r"
| "record_of _ = None"

definition work_task :: "work \<Rightarrow> adapter_extension \<Rightarrow> driver_event list \<Rightarrow> bool" where
  "work_task w e log \<longleftrightarrow> block_ok w \<and> (case record_of w of None \<Rightarrow> True
     | Some r \<Rightarrow> r \<in> set (ax_operations e) \<and> op_state r = state_code State_Pending
         \<and> pending_op (op_id r) e log)"

definition created_task :: "work \<Rightarrow> (u32 \<times> u8) option \<Rightarrow> adapter_extension \<Rightarrow> driver_event list \<Rightarrow> bool" where
  "created_task w disk e log \<longleftrightarrow> block_ok w \<and> (case record_of w of None \<Rightarrow> True
     | Some r \<Rightarrow> r \<in> set (ax_operations e) \<and> op_id r \<noteq> 0 \<and> op_state r = state_code State_Pending
         \<and> op_mutation r = operation_code Create_Disk
         \<and> (case disk of None \<Rightarrow> op_id r \<notin> set (committed_ops log)
            | Some (dev, lun) \<Rightarrow> Disk_Committed (Some (op_id r)) dev (unat lun) (op_create r) \<in> set log
                \<and> unat lun < 16 \<and> lu_create_operation_id (ax_luns e ! unat lun) = 0
                \<and> lu_size_bytes (ax_luns e ! unat lun) = cq_size_bytes (op_create r)))"

fun task_ok :: "thread \<Rightarrow> adapter_extension \<Rightarrow> driver_event list \<Rightarrow> bool" where
  "task_ok (Leased b i view) e log = (sb_function b = Fn_Execute_Scsi)"
| "task_ok (Releasing status b i) e log = (sb_function b = Fn_Execute_Scsi)"
| "task_ok (Preparing b c) e log = (control_ok b \<and>
     IsReserved c = is_reserved_code (srb_control_code (io_control b)) \<and> (IsReserved c \<longrightarrow>
     dec_operation_request (payload b) = mc_identity c
     \<and> oq_adapter_instance (mc_identity c) = ax_adapter_instance e
     \<and> pending_op (oq_operation_id (mc_identity c)) e log))"
| "task_ok (Queue_Failed b c) e log = (control_ok b
     \<and> (IsReserved c \<longrightarrow> pending_op (oq_operation_id (mc_identity c)) e log))"
| "task_ok (Queued b) e log = (control_ok b \<and> (is_reserved_code (srb_control_code (io_control b)) \<longrightarrow>
     oq_adapter_instance (dec_operation_request (payload b)) = ax_adapter_instance e
     \<and> pending_op (oq_operation_id (dec_operation_request (payload b))) e log))"
| "task_ok (Selecting w) e log = work_task w e log"
| "task_ok (Allocating w i) e log = work_task w e log"
| "task_ok (Committing w i p) e log = work_task w e log"
| "task_ok (Discarding w status p) e log = work_task w e log"
| "task_ok (Created w status disk) e log = created_task w disk e log"
| "task_ok (Marking w) e log = work_task w e log"
| "task_ok (Draining (By_Worker w) i dev) e log = (work_task w e log \<and> dev = work_device w)"
| "task_ok (Detaching (By_Worker w) i dev) e log = (work_task w e log \<and> dev = work_device w)"
| "task_ok (Freeing (By_Worker w) i dev p) e log = (work_task w e log \<and> dev = work_device w)"
| "task_ok (Finalizing (By_Worker w) i dev) e log = (work_task w e log \<and> dev = work_device w)"
| "task_ok (Deleted w status) e log = (work_task w e log
     \<and> (NT_SUCCESS status \<longrightarrow> Disk_Removed (work_device w) \<in> set log))"
| "task_ok (Responding b) e log = answer_ok b e log"
| "task_ok (Ending b) e log = answer_ok b e log"
| "task_ok (Finished b) e log = answer_ok b e log"
| "task_ok _ e log = True"

definition attended :: "thread list \<Rightarrow> adapter_extension \<Rightarrow> bool" where
  "attended ths e \<longleftrightarrow> (\<forall>r \<in> set (ax_operations e). op_state r = state_code State_Pending \<longrightarrow>
     (\<exists>th \<in> set ths. works_on th = Some (op_id r)))"

definition records_ok :: "machine \<Rightarrow> bool" where
  "records_ok m \<longleftrightarrow> (let e = dr_ext (ma_driver m); log = dr_log (ma_driver m) in
     table_ok e log \<and> attended (ma_threads m) e \<and> (\<forall>th \<in> set (ma_threads m). task_ok th e log))"

lemma records_okD:
  assumes "records_ok m"
  shows "table_ok (dr_ext (ma_driver m)) (dr_log (ma_driver m))"
    and "attended (ma_threads m) (dr_ext (ma_driver m))"
    and "k < length (ma_threads m) \<Longrightarrow> task_ok (ma_threads m ! k) (dr_ext (ma_driver m)) (dr_log (ma_driver m))"
  using assms by (simp_all add: records_ok_def Let_def)

section \<open>Frames\<close>

definition later :: "adapter_extension \<Rightarrow> driver_event list \<Rightarrow> adapter_extension \<Rightarrow> driver_event list \<Rightarrow> bool" where
  "later e log e' log' \<longleftrightarrow> set log \<subseteq> set log' \<and> ax_adapter_instance e' = ax_adapter_instance e
     \<and> (\<forall>ident. dead ident e log \<longrightarrow> dead ident e' log')"

lemma answer_ok_later: "answer_ok b e log \<Longrightarrow> later e log e' log' \<Longrightarrow> answer_ok b e' log'"
  unfolding answer_ok_def truthful_def later_def by (auto split: option.splits)

lemma bystander_task:
  assumes "\<not> manager th" "task_ok th e log" "later e log e' log'"
  shows "task_ok th e' log'"
  using assms answer_ok_later by (cases th rule: manager.cases) (auto simp: is_worker_def)

text \<open>A step that concerns neither operations nor the life of disks.\<close>

fun minor_event :: "driver_event \<Rightarrow> bool" where
  "minor_event (Disk_Committed opid dev i q) = False"
| "minor_event (Disk_Removed dev) = False"
| "minor_event _ = True"

definition calm :: "adapter_extension \<Rightarrow> driver_event list \<Rightarrow> adapter_extension \<Rightarrow> driver_event list \<Rightarrow> bool" where
  "calm e log e' log' \<longleftrightarrow> ax_operations e' = ax_operations e
     \<and> ax_next_operation_id e' = ax_next_operation_id e \<and> ax_next_device_id e' = ax_next_device_id e
     \<and> ax_adapter_instance e' = ax_adapter_instance e
     \<and> (\<forall>i < 16. (lu_state (ax_luns e' ! i) = Lun_Empty) = (lu_state (ax_luns e ! i) = Lun_Empty)
          \<and> lu_device_id (ax_luns e' ! i) = lu_device_id (ax_luns e ! i)
          \<and> lu_create_operation_id (ax_luns e' ! i) = lu_create_operation_id (ax_luns e ! i)
          \<and> lu_size_bytes (ax_luns e' ! i) = lu_size_bytes (ax_luns e ! i))
     \<and> (\<exists>evs. log' = log @ evs \<and> list_all minor_event evs)"

lemma calm_refl [simp]: "calm e log e log"
  by (simp add: calm_def)

lemma minor_committed: "list_all minor_event evs \<Longrightarrow> committed_ops evs = []"
proof (induction evs)
  case (Cons ev evs)
  then show ?case by (cases ev) auto
qed simp

lemma minor_members:
  "list_all minor_event evs \<Longrightarrow> Disk_Committed opid dev i q \<notin> set evs"
  "list_all minor_event evs \<Longrightarrow> Disk_Removed dev' \<notin> set evs"
  by (auto simp: list_all_iff dest: bspec)

lemma calm_log:
  assumes "calm e log e' log'"
  shows "committed_ops log' = committed_ops log"
    and "Disk_Committed opid dev i q \<in> set log' \<longleftrightarrow> Disk_Committed opid dev i q \<in> set log"
    and "Disk_Removed dev \<in> set log' \<longleftrightarrow> Disk_Removed dev \<in> set log"
  using assms minor_committed minor_members by (auto simp: calm_def)

lemma calm_dead: "calm e log e' log' \<Longrightarrow> dead ident e' log' = dead ident e log"
  using calm_log(1) by (simp add: dead_def calm_def)

lemma calm_later: "calm e log e' log' \<Longrightarrow> later e log e' log'"
  using calm_dead [of e log e' log'] by (auto simp: later_def) (auto simp: calm_def)

lemma calm_pending: "calm e log e' log' \<Longrightarrow> pending_op ident e' log' = pending_op ident e log"
  using calm_log(1) by (simp add: pending_op_def calm_def)

lemma calm_live: "calm e log e' log' \<Longrightarrow> live_disk e' r = live_disk e r"
  by (auto simp: live_disk_def calm_def Let_def)

lemma calm_table:
  assumes "calm e log e' log'" "table_ok e log" shows "table_ok e' log'"
proof -
  note same = calm_log [OF assms(1)] calm_live [OF assms(1)]
  have "record_ok e' log' r = record_ok e log r" for r
    using assms(1) by (simp add: record_ok_def same calm_def)
  with assms show ?thesis by (simp add: table_ok_def same calm_def)
qed

lemma calm_task:
  assumes "calm e log e' log'" "task_ok th e log" shows "task_ok th e' log'"
proof -
  have work: "work_task w e' log' = work_task w e log" for w
    using calm_pending [OF assms(1)] assms(1) by (simp add: work_task_def calm_def split: option.split)
  have made: "created_task w disk e' log' = created_task w disk e log" for w disk
    using assms(1) calm_log [OF assms(1)] by (auto simp: created_task_def calm_def split: option.splits)
  have inst: "ax_adapter_instance e' = ax_adapter_instance e"
    using assms(1) by (simp add: calm_def)
  show ?thesis
    using assms(2) answer_ok_later [OF _ calm_later [OF assms(1)]]
    by (cases "(th, e, log)" rule: task_ok.cases)
      (simp_all add: work made inst calm_pending [OF assms(1)] calm_log [OF assms(1)])
qed

text \<open>How the record that a thread works on is found.\<close>

lemma attended_update:
  assumes "attended ths e" "k < length ths" "works_on th' = works_on (ths ! k)" "ax_operations e' = ax_operations e"
  shows "attended (ths[k := th']) e'"
  unfolding attended_def bex_set_nth
proof (intro ballI impI)
  fix r assume "r \<in> set (ax_operations e')" "op_state r = state_code State_Pending"
  with assms(1,4) obtain j where "j < length ths" "works_on (ths ! j) = Some (op_id r)"
    by (auto simp: attended_def bex_set_nth)
  with assms(2,3) show "\<exists>j < length (ths[k := th']). works_on (ths[k := th'] ! j) = Some (op_id r)"
    by (intro exI [of _ j]) (cases "j = k"; simp)
qed

lemma calm_step:
  assumes rec: "records_ok m" and k: "k < length (ma_threads m)"
    and calm: "calm (dr_ext (ma_driver m)) (dr_log (ma_driver m)) (dr_ext d') (dr_log d')"
    and self: "task_ok th' (dr_ext d') (dr_log d')" and works: "works_on th' = works_on (ma_threads m ! k)"
  shows "records_ok (m\<lparr>ma_driver := d', ma_threads := (ma_threads m)[k := th']\<rparr>)"
proof -
  have "task_ok th (dr_ext d') (dr_log d')" if th: "th \<in> set ((ma_threads m)[k := th'])" for th
  proof -
    from set_update_subset_insert th have "th = th' \<or> th \<in> set (ma_threads m)" by fastforce
    with self calm_task [OF calm] rec show ?thesis by (auto simp: records_ok_def Let_def)
  qed
  moreover have "attended ((ma_threads m)[k := th']) (dr_ext d')"
    by (rule attended_update [OF records_okD(2) [OF rec] k works]) (use calm in \<open>simp add: calm_def\<close>)
  ultimately show ?thesis
    using calm_table [OF calm records_okD(1) [OF rec]] by (simp add: records_ok_def Let_def)
qed

text \<open>A step of the mutation, or of the shutdown after admission closed.\<close>

lemma actor_records:
  assumes safe: "safe m" and rec: "records_ok m" and k: "k < length (ma_threads m)"
    and act: "manager (ma_threads m ! k)
      \<or> (stopper (ma_threads m ! k) \<and> ma_threads m ! k \<noteq> Stopping_Wait)"
    and table: "table_ok (dr_ext d') (dr_log d')" and self: "task_ok th' (dr_ext d') (dr_log d')"
    and later: "later (dr_ext (ma_driver m)) (dr_log (ma_driver m)) (dr_ext d') (dr_log d')"
    and pending: "\<And>r. r \<in> set (ax_operations (dr_ext d')) \<Longrightarrow> op_state r = state_code State_Pending \<Longrightarrow>
      works_on th' = Some (op_id r)"
  shows "records_ok (m\<lparr>ma_driver := d', ma_threads := (ma_threads m)[k := th']\<rparr>)"
proof -
  have "task_ok ((ma_threads m)[k := th'] ! j) (dr_ext d') (dr_log d')" if j: "j < length (ma_threads m)" for j
  proof (cases "j = k")
    case False
    with other_bystander [OF safe k j _ act] have "\<not> manager (ma_threads m ! j)" by (simp add: bystander_def)
    with bystander_task [OF _ records_okD(3) [OF rec j] later] False show ?thesis by simp
  qed (use self k in simp)
  then have "\<forall>th \<in> set ((ma_threads m)[k := th']). task_ok th (dr_ext d') (dr_log d')"
    by (simp add: all_set_conv_all_nth)
  moreover have "attended ((ma_threads m)[k := th']) (dr_ext d')"
    unfolding attended_def using pending set_update_memI [OF k] by blast
  ultimately show ?thesis
    using table by (simp add: records_ok_def Let_def)
qed

text \<open>Only the operation of the thread at work can be pending.\<close>

lemma pending_is_mine:
  assumes safe: "safe m" and rec: "records_ok m" and k: "k < length (ma_threads m)"
    and act: "manager (ma_threads m ! k)
      \<or> (stopper (ma_threads m ! k) \<and> ma_threads m ! k \<noteq> Stopping_Wait)"
    and r: "r \<in> set (ax_operations (dr_ext (ma_driver m)))" "op_state r = state_code State_Pending"
  shows "works_on (ma_threads m ! k) = Some (op_id r)"
proof -
  from records_okD(2) [OF rec] r obtain j where j: "j < length (ma_threads m)"
    "works_on (ma_threads m ! j) = Some (op_id r)" by (auto simp: attended_def bex_set_nth)
  then have "j = k"
    using other_bystander [OF safe k j(1) _ act] works_on_manager [OF j(2)] by (auto simp: bystander_def)
  with j show ?thesis by simp
qed

section \<open>Steps that leave the operations alone\<close>

definition keeps_records :: "machine \<Rightarrow> nat \<Rightarrow> progress \<Rightarrow> bool" where
  "keeps_records m k p \<longleftrightarrow> (case p of
     Step th' d' \<Rightarrow> records_ok (m\<lparr>ma_driver := d', ma_threads := (ma_threads m)[k := th']\<rparr>)
   | _ \<Rightarrow> True)"

lemma keeps_records_simps [simp]:
  "keeps_records m k Blocked" "keeps_records m k Fault"
  by (simp_all add: keeps_records_def)

lemma keep_calm:
  assumes "records_ok m" "k < length (ma_threads m)"
    and "calm (dr_ext (ma_driver m)) (dr_log (ma_driver m)) (dr_ext d') (dr_log d')"
    and "task_ok th' (dr_ext d') (dr_log d')" "works_on th' = works_on (ma_threads m ! k)"
  shows "keeps_records m k (Step th' d')"
  using calm_step [OF assms] by (simp add: keeps_records_def)

lemma find_record:
  assumes "table_ok e log" "r \<in> set (ax_operations e)" "op_id r \<noteq> 0"
  obtains i where "FindOperationLocked (op_id r) e = Some i" "ax_operations e ! i = r" "i < length (ax_operations e)"
proof -
  from assms(2) obtain i where i: "i < length (ax_operations e)" "ax_operations e ! i = r"
    by (auto simp: in_set_conv_nth)
  have "op_id (ax_operations e ! j) \<noteq> op_id r" if "j < i" for j
    using assms(1,3) i that unfolding table_ok_def by (metis order_less_irrefl order_less_trans)
  with i assms(3) have "FindOperationLocked (op_id r) e = Some i" by (simp add: FindOperation_Some)
  with i that show ?thesis by blast
qed

lemma find_pending:
  assumes "table_ok e log" "pending_op ident e log"
  obtains i where "FindOperationLocked ident e = Some i" "i < length (ax_operations e)"
    "op_id (ax_operations e ! i) = ident" "op_state (ax_operations e ! i) = state_code State_Pending"
proof -
  from assms(2) obtain r where r: "r \<in> set (ax_operations e)" "op_id r = ident" "op_state r = state_code State_Pending"
    and "ident \<noteq> 0" by (auto simp: pending_op_def)
  with find_record [OF assms(1) r(1)] that show ?thesis by metis
qed

lemma start_task:
  assumes table: "table_ok e log" and task: "task_ok (Queued b) e log"
  shows "task_ok (ProcessWorkItem_start b e) e log \<and> works_on (ProcessWorkItem_start b e) = works_on (Queued b)"
proof (cases "FromSrb b")
  case False
  then show ?thesis by (simp add: ProcessWorkItem_start_def answer_ok_def answer_of_def)
next
  case True
  from task have ok: "control_ok b" by simp
  let ?code = "srb_control_code (io_control b)"
  show ?thesis
  proof (cases "is_reserved_code ?code")
    case reserved: True
    let ?identity = "dec_operation_request (payload b)"
    from task reserved have inst: "oq_adapter_instance ?identity = ax_adapter_instance e"
      and pend: "pending_op (oq_operation_id ?identity) e log" by simp_all
    from find_pending [OF table pend] obtain i where i: "FindOperationLocked (oq_operation_id ?identity) e = Some i"
      "i < length (ax_operations e)" "op_id (ax_operations e ! i) = oq_operation_id ?identity"
      "op_state (ax_operations e ! i) = state_code State_Pending" .
    then have "SnapshotPendingOperation ?identity b e = Ok (ax_operations e ! i)"
      using inst by (simp add: SnapshotPendingOperation_def Let_def)
    with True reserved i pend ok show ?thesis
      by (auto simp: ProcessWorkItem_start_def Let_def is_reserved_code_def work_task_def)
  next
    case legacy: False
    have other: "?code = operation_code Create_Disk \<or> ?code = operation_code Delete_Disk \<Longrightarrow> ?code \<notin> operation_codes"
      by (auto simp: operation_codes_def)
    have create: "answer_ok (WriteCreateResponse q status dev lun b) e log" if "?code = operation_code Create_Disk" for q status dev lun
      using answer_other_code [OF ok other] that by (simp add: answer_ok_def WriteCreateResponse_def)
    have delete: "answer_ok (WriteDeleteResponse q status b) e log" if "?code = operation_code Delete_Disk" for q status
      using answer_other_code [OF ok other] that by (simp add: answer_ok_def WriteDeleteResponse_def)
    have error: "answer_ok (WriteError ?code STATUS_INVALID_DEVICE_REQUEST 0 b) e log"
      using answer_WriteError [OF ok] by (simp add: answer_ok_def)
    show ?thesis
      using True legacy ok other create delete error
      by (auto simp: ProcessWorkItem_start_def Let_def is_reserved_code_def work_task_def split: prod.splits)
  qed
qed

lemma calm_update:
  assumes "luns_ok e" "i < 16"
    and "(lu_state (f (ax_luns e ! i)) = Lun_Empty) = (lu_state (ax_luns e ! i) = Lun_Empty)"
    and "lu_device_id (f (ax_luns e ! i)) = lu_device_id (ax_luns e ! i)"
    and "lu_create_operation_id (f (ax_luns e ! i)) = lu_create_operation_id (ax_luns e ! i)"
    and "lu_size_bytes (f (ax_luns e ! i)) = lu_size_bytes (ax_luns e ! i)"
  shows "calm e log (update_lun i f e) log"
  using assms luns_okD(1) [OF assms(1)] by (simp add: calm_def nth_list_update)

lemma io_records:
  assumes safe: "safe m" and rec: "records_ok m" and k: "k < length (ma_threads m)"
  shows "ma_threads m ! k = Leased b i view \<Longrightarrow> keeps_records m k (advance (ma_threads m ! k) (ma_driver m))"
    and "ma_threads m ! k = Releasing status b i \<Longrightarrow> keeps_records m k (advance (ma_threads m ! k) (ma_driver m))"
proof -
  let ?e = "dr_ext (ma_driver m)" and ?log = "dr_log (ma_driver m)"
  note ok = safeD(7) [OF safe k] and task = records_okD(3) [OF rec k]
  show "keeps_records m k (advance (ma_threads m ! k) (ma_driver m))" if th: "ma_threads m ! k = Leased b i view"
  proof (cases "DispatchScsiCommand view b (dr_pool (ma_driver m))")
    case (Some r)
    obtain status b' pool' where r: "r = ((status, b'), pool')" by (metis prod.exhaust)
    from ok th obtain blk where blk: "dr_pool (ma_driver m) (lv_backing_store view) = Some blk"
        "pb_size blk = unat (lv_size_bytes view)" and wf: "srb_wf b"
      using memory_blocks [OF safe, of i] by fastforce
    from DispatchScsiCommand_safe [of b "dr_pool (ma_driver m)" view, OF wf blk] Some r
    have "scsi_answered b b'" by simp
    then have "b' = b\<lparr>sb_data_buffer := sb_data_buffer b', sb_sense_buffer := sb_sense_buffer b',
         sb_data_transfer_length := sb_data_transfer_length b', sb_scsi_status := sb_scsi_status b'\<rparr>"
      unfolding scsi_answered_def by blast
    from arg_cong [OF this, of sb_function] have "sb_function b' = sb_function b" by simp
    with Some r task th show ?thesis
      by (auto intro!: keep_calm [OF rec k])
  qed (simp add: th)
  show "keeps_records m k (advance (ma_threads m ! k) (ma_driver m))" if th: "ma_threads m ! k = Releasing status b i"
  proof -
    from ok th have "calm ?e ?log (ReleaseLunIo i ?e) ?log"
      using safeD(2) [OF safe] by (auto simp: ReleaseLunIo_def intro!: calm_update)
    with task th show ?thesis
      by (auto simp: answer_ok_def answer_of_def [of b] intro!: keep_calm [OF rec k])
  qed
qed

lemma start_records:
  assumes rec: "records_ok m" and k: "k < length (ma_threads m)" and th: "ma_threads m ! k = Queued b"
  shows "keeps_records m k (advance (ma_threads m ! k) (ma_driver m))"
  using start_task [OF records_okD(1) [OF rec], of b] records_okD(3) [OF rec k] th
  by (auto intro!: keep_calm [OF rec k])

lemma create_records:
  assumes safe: "safe m" and rec: "records_ok m" and k: "k < length (ma_threads m)"
  shows "ma_threads m ! k = Selecting w \<Longrightarrow> keeps_records m k (advance (ma_threads m ! k) (ma_driver m))"
    and "ma_threads m ! k = Discarding w status p \<Longrightarrow> keeps_records m k (advance (ma_threads m ! k) (ma_driver m))"
    and "keeps_records m k (allocate_pool answer (ma_threads m ! k) (ma_driver m))"
proof -
  let ?e = "dr_ext (ma_driver m)" and ?log = "dr_log (ma_driver m)"
  note ok = safeD(7) [OF safe k] and task = records_okD(3) [OF rec k]
  have failed: "created_task w None ?e ?log" if "work_task w ?e ?log" "creates w" for w
    using that by (cases w) (auto simp: work_task_def created_task_def pending_op_def)
  show "keeps_records m k (advance (ma_threads m ! k) (ma_driver m))" if "ma_threads m ! k = Selecting w"
    using that ok task failed by (auto split: sum.splits intro!: keep_calm [OF rec k])
  show "keeps_records m k (advance (ma_threads m ! k) (ma_driver m))" if "ma_threads m ! k = Discarding w status p"
    using that ok task failed by (auto split: option.splits intro!: keep_calm [OF rec k])
  show "keeps_records m k (allocate_pool answer (ma_threads m ! k) (ma_driver m))"
    using ok task failed
    by (cases "(answer, ma_threads m ! k, ma_driver m)" rule: allocate_pool.cases)
      (auto simp: Let_def split: option.splits intro!: keep_calm [OF rec k])
qed

lemma queue_records:
  assumes rec: "records_ok m" and k: "k < length (ma_threads m)"
  shows "keeps_records m k (queue_work queued (ma_threads m ! k) (ma_driver m))"
proof (cases "\<exists>b c. ma_threads m ! k = Preparing b c")
  case False
  then show ?thesis by (cases "ma_threads m ! k") auto
next
  case True
  then obtain b c where th: "ma_threads m ! k = Preparing b c" by blast
  note task = records_okD(3) [OF rec k, unfolded th]
  show ?thesis
  proof (cases "queued \<and> ax_management_worker (dr_ext (ma_driver m))")
    case True
    with task th show ?thesis
      by (auto simp: control_ok_def intro!: keep_calm [OF rec k])
  next
    case False
    then have "queue_work queued (ma_threads m ! k) (ma_driver m) = Step (Queue_Failed b c) (ma_driver m)"
      by (simp add: th)
    with task th show ?thesis
      by (auto intro!: keep_calm [OF rec k])
  qed
qed

lemma removal_records:
  assumes safe: "safe m" and rec: "records_ok m" and k: "k < length (ma_threads m)"
  shows "ma_threads m ! k = Marking w \<Longrightarrow> keeps_records m k (advance (ma_threads m ! k) (ma_driver m))"
    and "ma_threads m ! k = Draining who i dev \<Longrightarrow> keeps_records m k (advance (ma_threads m ! k) (ma_driver m))"
    and "ma_threads m ! k = Detaching who i dev \<Longrightarrow> keeps_records m k (advance (ma_threads m ! k) (ma_driver m))"
    and "ma_threads m ! k = Freeing who i dev p \<Longrightarrow> keeps_records m k (advance (ma_threads m ! k) (ma_driver m))"
proof -
  let ?e = "dr_ext (ma_driver m)" and ?log = "dr_log (ma_driver m)"
  note ok = safeD(7) [OF safe k] and task = records_okD(3) [OF rec k]
  note luns = safeD(2) [OF safe]
  show "keeps_records m k (advance (ma_threads m ! k) (ma_driver m))" if th: "ma_threads m ! k = Marking w"
  proof (cases "MarkLunStopping (work_device w) ?e")
    case None
    with th task show ?thesis by (auto intro!: keep_calm [OF rec k])
  next
    case (Some r)
    obtain i e' where r: "r = (i, e')" by (cases r)
    from MarkLunStopping_Some [OF Some [unfolded r] luns]
    have calm: "calm ?e ?log e' ?log" by (auto intro!: calm_update [OF luns])
    from calm_task [OF this] task th have "work_task w e' ?log" by fastforce
    with Some r calm th show ?thesis by (auto intro!: keep_calm [OF rec k])
  qed
  have works: "works_on (Detaching who i dev) = works_on (Draining who i dev)"
    "works_on (Freeing who i dev p) = works_on (Draining who i dev)"
    "works_on (Finalizing who i dev) = works_on (Draining who i dev)" for who i dev p
    by (cases who; simp)+
  have tasks: "task_ok (Detaching who i dev) e log = task_ok (Draining who i dev) e log"
    "task_ok (Freeing who i dev p) e log = task_ok (Draining who i dev) e log"
    "task_ok (Finalizing who i dev) e log = task_ok (Draining who i dev) e log" for who i dev p e log
    by (cases who; simp)+
  show "keeps_records m k (advance (ma_threads m ! k) (ma_driver m))" if th: "ma_threads m ! k = Draining who i dev"
    using th task by (auto simp: works tasks intro!: keep_calm [OF rec k])
  show "keeps_records m k (advance (ma_threads m ! k) (ma_driver m))" if th: "ma_threads m ! k = Freeing who i dev p"
    using th task by (auto simp: works tasks split: option.splits intro!: keep_calm [OF rec k])
  show "keeps_records m k (advance (ma_threads m ! k) (ma_driver m))" if th: "ma_threads m ! k = Detaching who i dev"
  proof -
    obtain p e' where det: "DetachBackingStore i dev ?e = (p, e')" by (cases "DetachBackingStore i dev ?e")
    from ok th have "i < 16" by (auto simp: stopping_lun_def)
    then have calm: "calm ?e ?log e' ?log"
      using det luns by (auto simp: DetachBackingStore_def Let_def split: if_splits intro!: calm_update)
    from calm_task [OF this] task th have "task_ok (Detaching who i dev) e' ?log" by fastforce
    with det calm th show ?thesis
      by (auto simp: works tasks split: option.splits intro!: keep_calm [OF rec k])
  qed
qed

lemma ending_records:
  assumes safe: "safe m" and rec: "records_ok m" and k: "k < length (ma_threads m)"
  shows "ma_threads m ! k = Responding b \<Longrightarrow> keeps_records m k (advance (ma_threads m ! k) (ma_driver m))"
    and "ma_threads m ! k = Ending b \<Longrightarrow> keeps_records m k (advance (ma_threads m ! k) (ma_driver m))"
    and "ma_threads m ! k \<in> {Stopping_Wait, Stopping_Mark, Stopping_Next, Stopping_Worker} \<Longrightarrow>
      keeps_records m k (advance (ma_threads m ! k) (ma_driver m))"
proof -
  let ?e = "dr_ext (ma_driver m)" and ?log = "dr_log (ma_driver m)"
  note task = records_okD(3) [OF rec k]
  have bus: "calm ?e ?log ?e (?log @ [Bus_Changed])" by (simp add: calm_def)
  show "keeps_records m k (advance (ma_threads m ! k) (ma_driver m))" if "ma_threads m ! k = Responding b"
    using that task bus answer_ok_later [OF _ calm_later [OF bus]]
    by (auto simp: log_event_def intro!: keep_calm [OF rec k])
  have ended: "calm ?e ?log (EndManagementLocked ?e) ?log" by (simp add: calm_def EndManagementLocked_def)
  show "keeps_records m k (advance (ma_threads m ! k) (ma_driver m))" if "ma_threads m ! k = Ending b"
    using that task ended answer_ok_later [OF _ calm_later [OF ended]]
    by (auto intro!: keep_calm [OF rec k])
  have "length (ax_luns ?e) = 16" by (rule luns_okD(1) [OF safeD(2) [OF safe]])
  then have "calm ?e ?log (MarkAllLunsStopping ?e) ?log"
    by (auto simp: calm_def MarkAllLunsStopping_def)
  moreover have "calm ?e ?log (?e\<lparr>ax_management_worker := False, ax_signature := 0\<rparr>) ?log"
    by (simp add: calm_def)
  ultimately show "keeps_records m k (advance (ma_threads m ! k) (ma_driver m))"
    if "ma_threads m ! k \<in> {Stopping_Wait, Stopping_Mark, Stopping_Next, Stopping_Worker}"
    using that by (auto split: option.splits intro!: keep_calm [OF rec k])
qed

section \<open>Settling an operation\<close>

lemma table_record:
  assumes "table_ok e log" "r \<in> set (ax_operations e)" "op_id r \<noteq> 0"
  shows "record_ok e log r"
  using assms by (auto simp: table_ok_def dest!: bspec)

lemma table_zero:
  assumes "table_ok e log" "r \<in> set (ax_operations e)" "op_id r = 0" shows "op_state r = 0"
  using assms by (auto simp: table_ok_def dest!: bspec)

lemma record_unique:
  assumes "table_ok e log" "i < length (ax_operations e)" "j < length (ax_operations e)"
    and "op_id (ax_operations e ! i) = op_id (ax_operations e ! j)" "op_id (ax_operations e ! i) \<noteq> 0"
  shows "i = j"
  using assms by (simp add: table_ok_def)

lemma updated_member:
  assumes "r \<in> set (xs[i := r'])"
  obtains "r = r'" | j where "j < length xs" "j \<noteq> i" "r = xs ! j"
proof -
  from assms obtain j where j: "j < length xs" "r = xs[i := r'] ! j" by (auto simp: in_set_conv_nth)
  with that show ?thesis by (cases "j = i") auto
qed

text \<open>
  One record gets its result; \<open>e1\<close> may differ from \<open>e\<close> in the disk that the result is about.
\<close>

lemma settle_table:
  assumes table: "table_ok e log" and i: "i < length (ax_operations e)"
    and r': "op_id r' = op_id (ax_operations e ! i)" "op_id r' \<noteq> 0" "record_ok e1 log r'"
    and e1: "ax_operations e1 = ax_operations e" "ax_next_operation_id e1 = ax_next_operation_id e"
      "ax_next_device_id e1 = ax_next_device_id e" "\<And>j. j < 16 \<Longrightarrow> lu_device_id (ax_luns e1 ! j) = lu_device_id (ax_luns e ! j)"
    and others: "\<And>r. r \<in> set (ax_operations e) \<Longrightarrow> op_id r \<noteq> 0 \<Longrightarrow> op_id r \<noteq> op_id r' \<Longrightarrow> record_ok e1 log r"
  shows "table_ok (update_record i (\<lambda>_. r') e1) log"
proof -
  let ?ops = "ax_operations e"
  have ids: "op_id (?ops[i := r'] ! j) = op_id (?ops ! j)" if "j < length ?ops" for j
    using r'(1) i that by (cases "j = i") simp_all
  have mem: "if op_id r = 0 then op_state r = 0 else record_ok e1 log r" if "r \<in> set (?ops[i := r'])" for r
  proof (cases "r = r'")
    case True
    with r' show ?thesis by simp
  next
    case False
    with that obtain j where j: "j < length ?ops" "j \<noteq> i" "r = ?ops ! j"
      by (blast elim: updated_member)
    then have "op_id r \<noteq> op_id r'" if "op_id r \<noteq> 0"
      using record_unique [OF table j(1) i] r'(1) that by auto
    with others [of r] j table show ?thesis by (auto simp: table_ok_def)
  qed
  have same: "record_ok (update_record i (\<lambda>_. r') e1) log r = record_ok e1 log r" for r
    by (simp add: record_ok_def live_disk_def Let_def)
  from table have "distinct (committed_ops log)"
    and "\<And>ident. ident \<in> set (committed_ops log) \<Longrightarrow> id_below ident (ax_next_operation_id e)"
    and "\<And>dev. Disk_Removed dev \<in> set log \<Longrightarrow> id_below dev (ax_next_device_id e)
          \<and> (\<forall>i < 16. lu_device_id (ax_luns e ! i) \<noteq> dev)"
    by (simp_all add: table_ok_def)
  then show ?thesis
    unfolding table_ok_def same using mem ids record_unique [OF table] e1 by simp
qed

lemma settle_dead:
  assumes "dead ident e log" "i < length (ax_operations e)" "op_state (ax_operations e ! i) = state_code State_Pending"
    and "op_id r' = op_id (ax_operations e ! i)"
    and "ax_operations e1 = ax_operations e" "ax_next_operation_id e1 = ax_next_operation_id e"
  shows "dead ident (update_record i (\<lambda>_. r') e1) log"
proof -
  have "op_id r' \<noteq> ident"
    using assms(1-4) nth_mem [OF assms(2)] by (auto simp: dead_def)
  with assms show ?thesis
    by (auto simp: dead_def dest!: set_update_subset_insert [THEN subsetD])
qed

lemma settle_pending:
  assumes table: "table_ok e log" and i: "i < length (ax_operations e)" "op_id (ax_operations e ! i) \<noteq> 0"
    and mine: "\<And>r. r \<in> set (ax_operations e) \<Longrightarrow> op_state r = state_code State_Pending \<Longrightarrow> op_id r = op_id (ax_operations e ! i)"
    and r': "op_state r' \<noteq> state_code State_Pending" and e1: "ax_operations e1 = ax_operations e"
    and r: "r \<in> set (ax_operations (update_record i (\<lambda>_. r') e1))" "op_state r = state_code State_Pending"
  shows False
proof -
  from r(1) e1 have "r \<in> set ((ax_operations e)[i := r'])" by simp
  with r(2) r' obtain j where j: "j < length (ax_operations e)" "j \<noteq> i" "r = ax_operations e ! j"
    by (blast elim: updated_member)
  then have "op_id (ax_operations e ! j) = op_id (ax_operations e ! i)" using mine [of r] r(2) by simp
  with record_unique [OF table j(1) i(1)] i(2) j(2) show False by simp
qed

text \<open>The answer that reports the result.\<close>

lemma settled_truthful:
  assumes table: "table_ok e' log" and r: "r \<in> set (ax_operations e')" "op_id r \<noteq> 0"
    and state: "op_state r \<noteq> state_code State_Reserved" "op_state r \<noteq> state_code State_Pending"
  shows "truthful (operation_response_of code (CopyResultLocked r e') corr) e' log"
proof -
  from table_record [OF table r] have ok: "record_ok e' log r" .
  have "op_state r' \<noteq> state_code State_Reserved \<and> op_state r' \<noteq> state_code State_Pending"
    if r': "r' \<in> set (ax_operations e')" "op_id r' = op_id r" for r'
  proof -
    from r' r obtain i j where ij: "i < length (ax_operations e')" "j < length (ax_operations e')"
      "ax_operations e' ! i = r" "ax_operations e' ! j = r'" by (auto simp: in_set_conv_nth)
    with record_unique [OF table ij(1,2)] r' r(2) have "r' = r" by auto
    with state show ?thesis by simp
  qed
  with ok show ?thesis
    by (auto simp: truthful_def operation_response_of_def CopyResultLocked_def record_ok_def dead_def)
qed

definition settled_as :: "adapter_extension \<Rightarrow> driver_event list \<Rightarrow> nat \<Rightarrow> operation_record \<Rightarrow> adapter_extension \<Rightarrow> bool" where
  "settled_as e log i r' e1 \<longleftrightarrow> i < length (ax_operations e) \<and> op_id (ax_operations e ! i) \<noteq> 0
     \<and> op_state (ax_operations e ! i) = state_code State_Pending \<and> op_id r' = op_id (ax_operations e ! i)
     \<and> (op_state r' = state_code State_Succeeded \<or> op_state r' = state_code State_Failed)
     \<and> record_ok e1 log r'
     \<and> ax_operations e1 = ax_operations e \<and> ax_next_operation_id e1 = ax_next_operation_id e
     \<and> ax_next_device_id e1 = ax_next_device_id e \<and> ax_adapter_instance e1 = ax_adapter_instance e
     \<and> (\<forall>j < 16. lu_device_id (ax_luns e1 ! j) = lu_device_id (ax_luns e ! j))
     \<and> (\<forall>r \<in> set (ax_operations e). op_id r \<noteq> 0 \<longrightarrow> op_id r \<noteq> op_id r' \<longrightarrow> record_ok e1 log r)"

lemma settled_facts:
  assumes table: "table_ok e log" and s: "settled_as e log i r' e1"
  shows "table_ok (update_record i (\<lambda>_. r') e1) log" and "later e log (update_record i (\<lambda>_. r') e1) log"
    and "r' \<in> set (ax_operations (update_record i (\<lambda>_. r') e1))"
    and "truthful (operation_response_of code (CopyResultLocked r' (update_record i (\<lambda>_. r') e1)) corr)
      (update_record i (\<lambda>_. r') e1) log"
proof -
  note sD = s [unfolded settled_as_def]
  show t: "table_ok (update_record i (\<lambda>_. r') e1) log"
    by (rule settle_table [OF table]) (use sD in auto)
  show "later e log (update_record i (\<lambda>_. r') e1) log"
    using sD settle_dead [of _ e log i r' e1] by (auto simp: later_def)
  show r: "r' \<in> set (ax_operations (update_record i (\<lambda>_. r') e1))"
    using sD by (simp add: set_update_memI)
  show "truthful (operation_response_of code (CopyResultLocked r' (update_record i (\<lambda>_. r') e1)) corr)
      (update_record i (\<lambda>_. r') e1) log"
    by (rule settled_truthful [OF t r]) (use sD in auto)
qed

lemma settle_step:
  assumes safe: "safe m" and rec: "records_ok m" and k: "k < length (ma_threads m)"
    and mgr: "manager (ma_threads m ! k)"
    and s: "settled_as (dr_ext (ma_driver m)) (dr_log (ma_driver m)) i r' e1"
    and works: "works_on (ma_threads m ! k) = Some (op_id r')"
    and calm: "calm (update_record i (\<lambda>_. r') e1) (dr_log (ma_driver m)) (dr_ext d') (dr_log d')"
    and self: "task_ok th' (dr_ext d') (dr_log d')"
  shows "keeps_records m k (Step th' d')"
proof -
  let ?e = "dr_ext (ma_driver m)" and ?log = "dr_log (ma_driver m)"
  note table = records_okD(1) [OF rec]
  note sD = s [unfolded settled_as_def]
  note facts = settled_facts [OF table s]
  have "later ?e ?log (dr_ext d') (dr_log d')"
    using facts(2) calm_later [OF calm] by (auto simp: later_def)
  moreover have False if "r \<in> set (ax_operations (dr_ext d'))" "op_state r = state_code State_Pending" for r
  proof (rule settle_pending [OF table])
    show "r \<in> set (ax_operations (update_record i (\<lambda>_. r') e1))" using that calm by (simp add: calm_def)
    show "op_id q = op_id (ax_operations ?e ! i)" if "q \<in> set (ax_operations ?e)" "op_state q = state_code State_Pending" for q
      using pending_is_mine [OF safe rec k disjI1 [OF mgr] that] works sD by simp
  qed (use sD that in auto)
  ultimately have "records_ok (m\<lparr>ma_driver := d', ma_threads := (ma_threads m)[k := th']\<rparr>)"
    by (intro actor_records [OF safe rec k disjI1 [OF mgr] calm_table [OF calm facts(1)] self]) auto
  then show ?thesis by (simp add: keeps_records_def)
qed

lemma answer_complete [simp]:
  "answer_ok (complete_control b) e log = answer_ok b e log" "answer_ok (CompleteRequest status b) e log = answer_ok b e log"
  by (simp_all add: answer_ok_def)

lemma answer_operation:
  assumes "control_ok b" "\<And>code. truthful (operation_response_of code result corr) e log"
  shows "answer_ok (WriteOperationResponse result corr b) e log"
  using assms(2) answer_WriteOperationResponse [OF assms(1), of result corr]
  by (cases "answer_of (WriteOperationResponse result corr b)") (auto simp: answer_ok_def)

lemma failed_records:
  assumes safe: "safe m" and rec: "records_ok m" and k: "k < length (ma_threads m)"
    and th: "ma_threads m ! k = Queue_Failed b c"
  shows "keeps_records m k (advance (ma_threads m ! k) (ma_driver m))"
proof -
  let ?e = "dr_ext (ma_driver m)" and ?log = "dr_log (ma_driver m)"
  note task = records_okD(3) [OF rec k, unfolded th]
  note table = records_okD(1) [OF rec]
  from task have ok: "control_ok b" by simp
  have mgr: "manager (ma_threads m ! k)" by (simp add: th)
  have ended: "calm e log (EndManagementLocked e) log" for e log by (simp add: calm_def EndManagementLocked_def)
  show ?thesis
  proof (cases "IsReserved c")
    case False
    have "answer_ok (WriteError code STATUS_INSUFFICIENT_RESOURCES corr b) e log" for code corr e log
      using answer_WriteError [OF ok] by (simp add: answer_ok_def)
    with False th ended show ?thesis
      by (auto simp: SubmitFailed_def intro!: keep_calm [OF rec k])
  next
    case True
    let ?ident = "oq_operation_id (mc_identity c)"
    from task True have pend: "pending_op ?ident ?e ?log" by simp
    from find_pending [OF table pend] obtain i where i: "FindOperationLocked ?ident ?e = Some i"
      "i < length (ax_operations ?e)" "op_id (ax_operations ?e ! i) = ?ident"
      "op_state (ax_operations ?e ! i) = state_code State_Pending" .
    let ?r' = "(ax_operations ?e ! i)\<lparr>op_state := state_code State_Failed, op_result := STATUS_INSUFFICIENT_RESOURCES\<rparr>"
    from pend have ident: "?ident \<noteq> 0" "?ident \<notin> set (committed_ops ?log)" by (auto simp: pending_op_def)
    have others: "record_ok ?e ?log r" if "r \<in> set (ax_operations ?e)" "op_id r \<noteq> 0" for r
      using table_record [OF table that] .
    have "record_ok ?e ?log ?r'"
      using others [OF nth_mem [OF i(2)]] i(3) ident by (auto simp: record_ok_def)
    with i ident others have s: "settled_as ?e ?log i ?r' ?e"
      by (simp add: settled_as_def)
    let ?e1 = "update_record i (\<lambda>_. ?r') ?e"
    have upd: "update_record i (\<lambda>r. r\<lparr>op_state := state_code State_Failed, op_result := STATUS_INSUFFICIENT_RESOURCES\<rparr>) ?e = ?e1"
      by (simp add: update_record_def)
    have copy: "CopyResultLocked (ax_operations ?e1 ! i) ?e1 = CopyResultLocked ?r' ?e1"
      using i(2) by simp
    have run: "SubmitFailed c b ?e = (WriteOperationResponse (CopyResultLocked ?r' ?e1) (CorrelationId c) b, EndManagementLocked ?e1)"
      using True i(1) copy by (simp only: SubmitFailed_def FailOperationLocked_def Let_def upd if_True option.case prod.case)
    have "answer_ok (WriteOperationResponse (CopyResultLocked ?r' ?e1) (CorrelationId c) b) ?e1 ?log"
      by (rule answer_operation [OF ok settled_facts(4) [OF table s]])
    from answer_ok_later [OF this calm_later [OF ended]]
    have ans: "answer_ok (WriteOperationResponse (CopyResultLocked ?r' ?e1) (CorrelationId c) b) (EndManagementLocked ?e1) ?log" .
    show ?thesis
      unfolding th advance.simps run prod.case
    proof (rule settle_step [OF safe rec k mgr s])
      show "works_on (ma_threads m ! k) = Some (op_id ?r')" using True i(3) by (simp add: th)
    qed (use ans ended in simp_all)
  qed
qed

text \<open>Publishing a result on the record that the worker started from.\<close>

lemma publish_step:
  assumes safe: "safe m" and rec: "records_ok m" and k: "k < length (ma_threads m)"
    and mgr: "manager (ma_threads m ! k)" and works: "works_on (ma_threads m ! k) = Some (op_id r)"
    and ok: "control_ok b"
    and r: "r \<in> set (ax_operations (dr_ext (ma_driver m)))" "op_id r \<noteq> 0" "op_state r = state_code State_Pending"
    and snap: "op_id snapshot = op_id r"
    and e1: "e1 = (if NT_SUCCESS (op_result snapshot) \<and> op_mutation snapshot = operation_code Create_Disk
      then BindCreateOperationLocked (op_lun snapshot) (op_id snapshot) (dr_ext (ma_driver m)) else dr_ext (ma_driver m))"
    and settled: "\<And>i. i < length (ax_operations (dr_ext (ma_driver m))) \<Longrightarrow> ax_operations (dr_ext (ma_driver m)) ! i = r \<Longrightarrow>
      settled_as (dr_ext (ma_driver m)) (dr_log (ma_driver m)) i snapshot e1"
    and run: "PublishOperationResult snapshot corr b (dr_ext (ma_driver m)) = (b', e')"
  shows "keeps_records m k (Step (Responding b') (with_ext (ma_driver m) e'))"
proof -
  let ?e = "dr_ext (ma_driver m)" and ?log = "dr_log (ma_driver m)"
  note table = records_okD(1) [OF rec]
  from find_record [OF table r(1,2)] obtain i where i: "FindOperationLocked (op_id r) ?e = Some i"
    "ax_operations ?e ! i = r" "i < length (ax_operations ?e)" .
  note s = settled [OF i(3,2)]
  let ?e2 = "update_record i (\<lambda>_. snapshot) e1"
  have "PublishOperationResult snapshot corr b ?e = (WriteOperationResponse (CopyResultLocked snapshot ?e2) corr b, ?e2)"
    by (simp only: PublishOperationResult_def Let_def snap i(1) option.case e1)
  with run have b': "b' = WriteOperationResponse (CopyResultLocked snapshot ?e2) corr b" and e': "e' = ?e2"
    by auto
  have "answer_ok b' e' ?log"
    unfolding b' e' by (rule answer_operation [OF ok settled_facts(4) [OF table s]])
  then show ?thesis
    by (intro settle_step [OF safe rec k mgr s]) (simp_all add: works snap e')
qed

lemma created_records:
  assumes safe: "safe m" and rec: "records_ok m" and k: "k < length (ma_threads m)"
    and th: "ma_threads m ! k = Created w status disk"
  shows "keeps_records m k (advance (ma_threads m ! k) (ma_driver m))"
proof (cases w)
  case (Reserved_Work b identity r)
  let ?e = "dr_ext (ma_driver m)" and ?log = "dr_log (ma_driver m)"
  note table = records_okD(1) [OF rec]
  from records_okD(3) [OF rec k] th Reserved_Work have task: "created_task (Reserved_Work b identity r) disk ?e ?log" by simp
  from safeD(7) [OF safe k] th have ok: "thread_ok (Created w status disk) ?e (dr_pool (ma_driver m))" by simp
  from task have r: "control_ok b" "r \<in> set (ax_operations ?e)" "op_id r \<noteq> 0" "op_state r = state_code State_Pending"
    "op_mutation r = operation_code Create_Disk" by (auto simp: created_task_def)
  have len: "length (ax_luns ?e) = 16" by (rule luns_okD(1) [OF safeD(2) [OF safe]])
  note rok = table_record [OF table r(2,3)]
  let ?snap = "(case disk of None \<Rightarrow> r | Some (device_id, lun) \<Rightarrow> r\<lparr>op_device_id := device_id, op_lun := lun\<rparr>)
    \<lparr>op_result := status, op_state := outcome_state status\<rparr>"
  let ?e1 = "if NT_SUCCESS (op_result ?snap) \<and> op_mutation ?snap = operation_code Create_Disk
      then BindCreateOperationLocked (op_lun ?snap) (op_id ?snap) ?e else ?e"
  obtain b' e' where run: "PublishOperationResult ?snap (rq_correlation_id (oq_header identity)) b ?e = (b', e')"
    by (cases "PublishOperationResult ?snap (rq_correlation_id (oq_header identity)) b ?e")
  have snap: "op_id ?snap = op_id r" by (simp split: option.split prod.split)
  have "settled_as ?e ?log i ?snap ?e1" if i: "i < length (ax_operations ?e)" "ax_operations ?e ! i = r" for i
  proof (cases disk)
    case None
    with ok task have "\<not> NT_SUCCESS status" "op_id r \<notin> set (committed_ops ?log)" by (auto simp: created_task_def)
    with None i r rok table_record [OF table] show ?thesis
      by (simp add: settled_as_def outcome_state_def record_ok_def)
  next
    case (Some d)
    obtain dev lun where d: "d = (dev, lun)" by (cases d)
    from ok Some d have st: "status = STATUS_SUCCESS" "unat lun < 16" "lu_state (ax_luns ?e ! unat lun) = Lun_Online"
      "lu_device_id (ax_luns ?e ! unat lun) = dev" by auto
    from task Some d have made: "Disk_Committed (Some (op_id r)) dev (unat lun) (op_create r) \<in> set ?log"
      "lu_create_operation_id (ax_luns ?e ! unat lun) = 0"
      "lu_size_bytes (ax_luns ?e ! unat lun) = cq_size_bytes (op_create r)" by (auto simp: created_task_def)
    let ?s = "r\<lparr>op_device_id := dev, op_lun := lun, op_result := STATUS_SUCCESS, op_state := state_code State_Succeeded\<rparr>"
    let ?b = "BindCreateOperationLocked lun (op_id r) ?e"
    have eqs: "?snap = ?s" "?e1 = ?b" using Some d st r(5) by (simp_all add: outcome_state_def)
    have luns: "ax_luns ?b ! j = (if j = unat lun then (ax_luns ?e ! unat lun)\<lparr>lu_create_operation_id := op_id r\<rparr>
        else ax_luns ?e ! j)" if "j < 16" for j
      using len st(2) that by (simp add: BindCreateOperationLocked_def nth_list_update)
    have fields: "ax_operations ?b = ax_operations ?e" "ax_next_operation_id ?b = ax_next_operation_id ?e"
      "ax_next_device_id ?b = ax_next_device_id ?e" "ax_adapter_instance ?b = ax_adapter_instance ?e"
      by (simp_all add: BindCreateOperationLocked_def)
    have live: "live_disk ?b ?s" using st made luns [OF st(2)] by (simp add: live_disk_def Let_def)
    have other: "live_disk ?b q" if "live_disk ?e q" "op_id q \<noteq> 0" for q
      using that made(2) luns [of "unat (op_lun q)"] by (auto simp: live_disk_def Let_def split: if_splits)
    have others: "record_ok ?b ?log q" if "q \<in> set (ax_operations ?e)" "op_id q \<noteq> 0" for q
      using table_record [OF table that] other that by (simp add: record_ok_def fields)
    have "record_ok ?b ?log ?s"
      using rok r live made fields by (simp add: record_ok_def)
    moreover have "lu_device_id (ax_luns ?b ! j) = lu_device_id (ax_luns ?e ! j)" if "j < 16" for j
      using luns [OF that] by simp
    ultimately show ?thesis
      unfolding eqs using i r others fields by (simp add: settled_as_def)
  qed
  moreover have "manager (ma_threads m ! k)" "works_on (ma_threads m ! k) = Some (op_id r)"
    by (simp_all add: th Reserved_Work)
  ultimately have "keeps_records m k (Step (Responding b') (with_ext (ma_driver m) e'))"
    by (intro publish_step [OF safe rec k _ _ r(1-4) snap refl _ run])
  moreover have "advance (ma_threads m ! k) (ma_driver m) = Step (Responding b') (with_ext (ma_driver m) e')"
    by (simp only: th Reserved_Work advance.simps after_create_def Let_def work.case run prod.case)
  ultimately show ?thesis by (simp only:)
qed (use records_okD(3) [OF rec k] safeD(7) [OF safe k] th answer_other_code in
    \<open>auto simp: after_create_def WriteCreateResponse_def created_task_def answer_ok_def split: option.splits
      intro!: keep_calm [OF rec k]\<close>)

lemma deleted_records:
  assumes safe: "safe m" and rec: "records_ok m" and k: "k < length (ma_threads m)"
    and th: "ma_threads m ! k = Deleted w status"
  shows "keeps_records m k (advance (ma_threads m ! k) (ma_driver m))"
proof (cases w)
  case (Reserved_Work b identity r)
  let ?e = "dr_ext (ma_driver m)" and ?log = "dr_log (ma_driver m)"
  note table = records_okD(1) [OF rec]
  from records_okD(3) [OF rec k] th Reserved_Work have task: "work_task (Reserved_Work b identity r) ?e ?log"
    and removed: "NT_SUCCESS status \<Longrightarrow> Disk_Removed (dq_device_id (op_delete r)) \<in> set ?log" by simp_all
  from task have r: "control_ok b" "r \<in> set (ax_operations ?e)" "op_id r \<noteq> 0" "op_state r = state_code State_Pending"
    by (auto simp: work_task_def pending_op_def)
  note rok = table_record [OF table r(2,3)]
  from safeD(7) [OF safe k] th Reserved_Work rok have mut: "op_mutation r = operation_code Delete_Disk"
    by (auto simp: record_ok_def)
  let ?snap = "r\<lparr>op_result := status, op_device_id := dq_device_id (op_delete r), op_state := outcome_state status\<rparr>"
  obtain b' e' where run: "PublishOperationResult ?snap (rq_correlation_id (oq_header identity)) b ?e = (b', e')"
    by (cases "PublishOperationResult ?snap (rq_correlation_id (oq_header identity)) b ?e")
  have snap: "op_id ?snap = op_id r" by simp
  have e1: "?e = (if NT_SUCCESS (op_result ?snap) \<and> op_mutation ?snap = operation_code Create_Disk
      then BindCreateOperationLocked (op_lun ?snap) (op_id ?snap) ?e else ?e)" by (simp add: mut)
  have "record_ok ?e ?log ?snap"
    using rok mut removed by (auto simp: record_ok_def outcome_state_def)
  then have "settled_as ?e ?log i ?snap ?e" if "i < length (ax_operations ?e)" "ax_operations ?e ! i = r" for i
    using that r table_record [OF table] by (simp add: settled_as_def outcome_state_def)
  moreover have "manager (ma_threads m ! k)" "works_on (ma_threads m ! k) = Some (op_id r)"
    by (simp_all add: th Reserved_Work)
  ultimately have "keeps_records m k (Step (Responding b') (with_ext (ma_driver m) e'))"
    by (intro publish_step [OF safe rec k _ _ r(1-4) snap e1 _ run])
  moreover have "advance (ma_threads m ! k) (ma_driver m) = Step (Responding b') (with_ext (ma_driver m) e')"
    by (simp only: th Reserved_Work advance.simps after_delete_def Let_def work.case run prod.case)
  ultimately show ?thesis by (simp only:)
qed (use records_okD(3) [OF rec k] safeD(7) [OF safe k] th answer_other_code in
    \<open>auto simp: after_delete_def WriteDeleteResponse_def work_task_def answer_ok_def split: option.splits
      intro!: keep_calm [OF rec k]\<close>)

section \<open>The life of disks\<close>

lemma committing_records:
  assumes safe: "safe m" and rec: "records_ok m" and k: "k < length (ma_threads m)"
    and th: "ma_threads m ! k = Committing w i p"
  shows "keeps_records m k (advance (ma_threads m ! k) (ma_driver m))"
proof -
  let ?e = "dr_ext (ma_driver m)" and ?log = "dr_log (ma_driver m)" and ?q = "work_request w"
  note table = records_okD(1) [OF rec] and luns = safeD(2) [OF safe]
  from records_okD(3) [OF rec k] th have task: "work_task w ?e ?log" by simp
  from safeD(7) [OF safe k] th have free: "creates w" "i < 16" "lu_state (ax_luns ?e ! i) = Lun_Empty"
    by (auto simp: lun_free_def)
  show ?thesis
  proof (cases "CommitNewLun ?q i p ?e")
    case (Inl status)
    with th task show ?thesis by (auto intro!: keep_calm [OF rec k])
  next
    case (Inr x)
    obtain dev e' where x: "x = (dev, e')" by (cases x)
    note eff = CommitNewLun_Ok [OF Inr [unfolded x]]
    let ?ev = "Disk_Committed (work_operation w) dev i ?q" and ?disk = "Some (dev, word_of_nat i :: u8)"
    let ?d' = "log_event ?ev (with_ext (ma_driver m) e')"
    have len: "length (ax_luns ?e) = 16" by (rule luns_okD(1) [OF luns])
    have lun: "unat (word_of_nat i :: u8) = i" using free(2) by (simp add: unsigned_of_nat take_bit_nat_eq_self)
    have nth: "ax_luns e' ! j = ax_luns ?e ! j" if "j \<noteq> i" for j
      using eff that by simp
    have new: "lu_device_id (ax_luns e' ! i) = dev" "lu_create_operation_id (ax_luns e' ! i) = 0"
      "lu_size_bytes (ax_luns e' ! i) = cq_size_bytes ?q" using eff len free(2) by simp_all
    have fields: "ax_operations e' = ax_operations ?e" "ax_next_operation_id e' = ax_next_operation_id ?e"
      "ax_next_device_id e' = ax_next_device_id ?e + 1" "ax_adapter_instance e' = ax_adapter_instance ?e"
      "dev = ax_next_device_id ?e" "ax_next_device_id ?e \<noteq> 0" using eff by simp_all
    have fresh: "ident \<notin> set (committed_ops ?log) \<and> ident \<noteq> 0
        \<and> (\<exists>r \<in> set (ax_operations ?e). op_id r = ident \<and> op_state r = state_code State_Pending
            \<and> op_mutation r = operation_code Create_Disk \<and> record_of w = Some r)" if "work_operation w = Some ident" for ident
      using that task free(1) by (cases w) (auto simp: work_task_def pending_op_def)
    have ops: "committed_ops (?log @ [?ev]) = committed_ops ?log @ (case work_operation w of None \<Rightarrow> [] | Some ident \<Rightarrow> [ident])"
      by (cases "work_operation w") simp_all
    have live: "live_disk e' r" if "live_disk ?e r" for r
    proof -
      from that free(3) have "unat (op_lun r) \<noteq> i" by (auto simp: live_disk_def Let_def)
      with that nth show ?thesis by (simp add: live_disk_def Let_def)
    qed
    have kept: "record_ok e' (?log @ [?ev]) r" if r: "r \<in> set (ax_operations ?e)" "op_id r \<noteq> 0" for r
    proof -
      have "op_state r = state_code State_Pending \<and> op_mutation r = operation_code Create_Disk"
        if "work_operation w = Some (op_id r)"
      proof -
        from fresh [OF that] obtain r2 where r2: "r2 \<in> set (ax_operations ?e)" "op_id r2 = op_id r"
          "op_state r2 = state_code State_Pending" "op_mutation r2 = operation_code Create_Disk" by blast
        with r obtain a b where ab: "a < length (ax_operations ?e)" "b < length (ax_operations ?e)"
          "ax_operations ?e ! a = r" "ax_operations ?e ! b = r2" by (auto simp: in_set_conv_nth)
        with record_unique [OF table ab(1,2)] r r2 have "r2 = r" by auto
        with r2 show ?thesis by simp
      qed
      then have "op_id r \<notin> set (committed_ops (?log @ [?ev]))"
        if "op_id r \<notin> set (committed_ops ?log)" "op_state r \<noteq> state_code State_Pending \<or> op_mutation r \<noteq> operation_code Create_Disk"
        using that unfolding ops by (cases "work_operation w") auto
      with table_record [OF table r] live [of r] fields(2) show ?thesis
        unfolding record_ok_def by auto
    qed
    have tab: "table_ok e' (?log @ [?ev])"
      unfolding table_ok_def
    proof (intro conjI)
      show "distinct (committed_ops (?log @ [?ev]))"
        unfolding ops using table fresh by (auto simp: table_ok_def split: option.splits)
      show "\<forall>ident \<in> set (committed_ops (?log @ [?ev])). id_below ident (ax_next_operation_id e')"
      proof
        fix ident assume mem: "ident \<in> set (committed_ops (?log @ [?ev]))"
        show "id_below ident (ax_next_operation_id e')"
        proof (cases "ident \<in> set (committed_ops ?log)")
          case True
          with table fields show ?thesis by (auto simp: table_ok_def)
        next
          case False
          with mem have "work_operation w = Some ident" unfolding ops by (auto split: option.splits)
          from fresh [OF this] obtain r where "r \<in> set (ax_operations ?e)" "op_id r = ident" "ident \<noteq> 0" by blast
          with table_record [OF table, of r] fields show ?thesis by (auto simp: record_ok_def)
        qed
      qed
      show "\<forall>gone. Disk_Removed gone \<in> set (?log @ [?ev]) \<longrightarrow> id_below gone (ax_next_device_id e')
          \<and> (\<forall>j < 16. lu_device_id (ax_luns e' ! j) \<noteq> gone)"
      proof (intro allI impI)
        fix gone assume "Disk_Removed gone \<in> set (?log @ [?ev])"
        then have old: "id_below gone (ax_next_device_id ?e)" "\<forall>j < 16. lu_device_id (ax_luns ?e ! j) \<noteq> gone"
          using table by (auto simp: table_ok_def)
        have "gone \<noteq> dev" using old(1) fields by auto
        then have "lu_device_id (ax_luns e' ! j) \<noteq> gone" if "j < 16" for j
          using old(2) nth [of j] new(1) that by (cases "j = i") auto
        with old(1) fields show "id_below gone (ax_next_device_id e') \<and> (\<forall>j < 16. lu_device_id (ax_luns e' ! j) \<noteq> gone)"
          by (auto simp: id_below_Suc)
      qed
    qed (use table kept fields in \<open>auto simp: table_ok_def\<close>)
    have later: "later ?e ?log e' (?log @ [?ev])"
      unfolding later_def
    proof (intro conjI allI impI)
      fix ident assume dead: "dead ident ?e ?log"
      have "work_operation w \<noteq> Some ident"
        using fresh [of ident] dead by (auto simp: dead_def)
      with dead fields show "dead ident e' (?log @ [?ev])"
        unfolding dead_def ops by (auto split: option.splits)
    qed (use fields in auto)
    have "created_task w ?disk e' (?log @ [?ev])"
      using task fresh fields new lun free(2) by (cases w) (auto simp: created_task_def work_task_def pending_op_def)
    then have "records_ok (m\<lparr>ma_driver := ?d', ma_threads := (ma_threads m)[k := Created w STATUS_SUCCESS ?disk]\<rparr>)"
      using tab later pending_is_mine [OF safe rec k] th fields
      by (intro actor_records [OF safe rec k]) (auto simp: log_event_def)
    with th Inr x show ?thesis by (simp add: keeps_records_def)
  qed
qed

lemma FinalizeDiskRemoval_fields [simp]:
  "ax_operations (FinalizeDiskRemoval i dev e) = map (\<lambda>r. if op_mutation r = operation_code Create_Disk
     \<and> op_device_id r = dev \<and> op_state r = state_code State_Succeeded
     then r\<lparr>op_state := state_code State_Deleted\<rparr> else r) (ax_operations e)"
  "ax_next_operation_id (FinalizeDiskRemoval i dev e) = ax_next_operation_id e"
  "ax_next_device_id (FinalizeDiskRemoval i dev e) = ax_next_device_id e"
  "ax_adapter_instance (FinalizeDiskRemoval i dev e) = ax_adapter_instance e"
  by (simp_all add: FinalizeDiskRemoval_def FinalizeRemovalLocked_def MarkCreatesDeletedLocked_def Let_def)

lemma removal_table:
  assumes table: "table_ok e log" and luns: "luns_ok e" and i: "i < 16" "lu_device_id (ax_luns e ! i) = dev"
    "lu_state (ax_luns e ! i) \<noteq> Lun_Empty"
  shows "table_ok (FinalizeDiskRemoval i dev e) (log @ [Disk_Removed dev])"
    and "later e log (FinalizeDiskRemoval i dev e) (log @ [Disk_Removed dev])"
proof -
  let ?e' = "FinalizeDiskRemoval i dev e" and ?log' = "log @ [Disk_Removed dev]"
  let ?f = "\<lambda>r. if op_mutation r = operation_code Create_Disk
     \<and> op_device_id r = dev \<and> op_state r = state_code State_Succeeded
     then r\<lparr>op_state := state_code State_Deleted\<rparr> else r"
  have ids: "op_id (?f r) = op_id r" for r by simp
  have len: "length (ax_luns e) = 16" by (rule luns_okD(1) [OF luns])
  have dev: "dev \<noteq> 0" "id_below dev (ax_next_device_id e)"
    using luns_okD(2) [OF luns i(1)] i by (auto simp: lun_ok_def id_below_def)
  have other: "ax_luns ?e' ! j = ax_luns e ! j" if "j \<noteq> i" for j
    using that by simp
  have alone: "lu_device_id (ax_luns e ! j) \<noteq> dev" if "j < 16" "j \<noteq> i" for j
    using luns_okD(3) [OF luns that(1) i(1)] i(2) dev(1) that(2) by auto
  have gone: "lu_device_id (ax_luns ?e' ! j) \<noteq> dev" if "j < 16" for j
    using other [of j] alone [OF that] len i dev(1) by (cases "j = i") simp_all
  have kept: "record_ok ?e' ?log' (?f r)" if "record_ok e log r" for r
  proof (cases "op_mutation r = operation_code Create_Disk \<and> op_state r = state_code State_Succeeded")
    case True
    show ?thesis
    proof (cases "op_device_id r = dev")
      case same: True
      with True that show ?thesis by (simp add: record_ok_def)
    next
      case False
      from True that have "live_disk e r" by (simp add: record_ok_def)
      with False i(2) have "unat (op_lun r) \<noteq> i" by (auto simp: live_disk_def Let_def)
      with \<open>live_disk e r\<close> other have "live_disk ?e' r" by (simp add: live_disk_def Let_def)
      with True False that show ?thesis by (simp add: record_ok_def)
    qed
  next
    case False
    then have "?f r = r" by auto
    moreover have "record_ok ?e' ?log' r" using that False by (auto simp: record_ok_def)
    ultimately show ?thesis by simp
  qed
  have rec: "if op_id r = 0 then op_state r = 0 else record_ok ?e' ?log' r" if "r \<in> set (ax_operations ?e')" for r
  proof -
    from that obtain q where q: "q \<in> set (ax_operations e)" "r = ?f q" by auto
    show ?thesis
    proof (cases "op_id q = 0")
      case True
      with table q(1) have "op_state q = 0" by (auto simp: table_ok_def)
      with q True show ?thesis by simp
    next
      case False
      from kept [OF table_record [OF table q(1) False]] q(2) ids [of q] False show ?thesis by simp
    qed
  qed
  have nth: "op_id (ax_operations ?e' ! a) = op_id (ax_operations e ! a)" if "a < length (ax_operations e)" for a
    using that by simp
  show "table_ok ?e' ?log'"
    unfolding table_ok_def
  proof (intro conjI)
    show "\<forall>a < length (ax_operations ?e'). \<forall>b < length (ax_operations ?e').
        op_id (ax_operations ?e' ! a) = op_id (ax_operations ?e' ! b) \<longrightarrow> op_id (ax_operations ?e' ! a) \<noteq> 0 \<longrightarrow> a = b"
      using record_unique [OF table] nth by simp
    show "\<forall>r \<in> set (ax_operations ?e'). if op_id r = 0 then op_state r = 0 else record_ok ?e' ?log' r"
      using rec by blast
    show "\<forall>other. Disk_Removed other \<in> set ?log' \<longrightarrow> id_below other (ax_next_device_id ?e')
        \<and> (\<forall>j < 16. lu_device_id (ax_luns ?e' ! j) \<noteq> other)"
    proof (intro allI impI)
      fix x assume "Disk_Removed x \<in> set ?log'"
      then consider "x = dev" | "Disk_Removed x \<in> set log" by auto
      then show "id_below x (ax_next_device_id ?e') \<and> (\<forall>j < 16. lu_device_id (ax_luns ?e' ! j) \<noteq> x)"
      proof cases
        case 1
        with dev gone show ?thesis by simp
      next
        case 2
        with table have x: "id_below x (ax_next_device_id e)" "\<forall>j < 16. lu_device_id (ax_luns e ! j) \<noteq> x"
          by (auto simp: table_ok_def)
        have "lu_device_id (ax_luns ?e' ! j) \<noteq> x" if "j < 16" for j
          using x other [of j] len i(1) that by (cases "j = i") (auto simp: id_below_def)
        with x show ?thesis by simp
      qed
    qed
  qed (use table in \<open>auto simp: table_ok_def\<close>)
  show "later e log ?e' ?log'"
    by (auto simp: later_def dead_def split: if_splits)
qed

lemma finalizing_records:
  assumes safe: "safe m" and rec: "records_ok m" and k: "k < length (ma_threads m)"
    and th: "ma_threads m ! k = Finalizing who i dev"
  shows "keeps_records m k (advance (ma_threads m ! k) (ma_driver m))"
proof -
  let ?e = "dr_ext (ma_driver m)" and ?log = "dr_log (ma_driver m)"
  let ?dev = "lu_device_id (ax_luns ?e ! i)"
  let ?th' = "case who of By_Worker w \<Rightarrow> Deleted w STATUS_SUCCESS | By_Shutdown \<Rightarrow> Stopping_Next"
  let ?d' = "log_event (Disk_Removed ?dev) (with_ext (ma_driver m) (FinalizeDiskRemoval i ?dev ?e))"
  from safeD(7) [OF safe k] th have lun: "i < 16" "?dev = dev" "lu_state (ax_luns ?e ! i) \<noteq> Lun_Empty"
    by (auto simp: stopping_lun_def)
  have act: "manager (ma_threads m ! k) \<or> (stopper (ma_threads m ! k) \<and> ma_threads m ! k \<noteq> Stopping_Wait)"
    by (simp add: th)
  note gone = removal_table [OF records_okD(1) [OF rec] safeD(2) [OF safe] lun(1) refl lun(3)]
  have kept: "r \<in> set (ax_operations (FinalizeDiskRemoval i ?dev ?e)) \<longleftrightarrow> r \<in> set (ax_operations ?e)"
    if "op_state r = state_code State_Pending" for r
    using that by (force simp: image_iff)
  have "task_ok ?th' (dr_ext ?d') (dr_log ?d')"
  proof (cases who)
    case (By_Worker w)
    with records_okD(3) [OF rec k] th have "work_task w ?e ?log" "dev = work_device w" by simp_all
    then show ?thesis
      using By_Worker lun(2) kept
      by (cases w) (auto simp: work_task_def pending_op_def log_event_def simp del: FinalizeDiskRemoval_fields(1))
  qed simp
  moreover have "works_on ?th' = Some (op_id r)"
    if "r \<in> set (ax_operations (dr_ext ?d'))" "op_state r = state_code State_Pending" for r
  proof -
    from that have "r \<in> set (ax_operations ?e)" using kept by (simp add: log_event_def del: FinalizeDiskRemoval_fields)
    from pending_is_mine [OF safe rec k act this that(2)] show ?thesis
      unfolding th by (cases who) simp_all
  qed
  ultimately have "records_ok (m\<lparr>ma_driver := ?d', ma_threads := (ma_threads m)[k := ?th']\<rparr>)"
    using gone by (intro actor_records [OF safe rec k act]) (simp_all add: log_event_def)
  moreover have "advance (ma_threads m ! k) (ma_driver m) = Step ?th' ?d'"
    unfolding th advance.simps Let_def by (cases who) (simp_all add: lun(2))
  ultimately show ?thesis by (simp add: keeps_records_def)
qed

text \<open>Any step of a thread.\<close>

lemma advance_records:
  assumes safe: "safe m" and rec: "records_ok m" and k: "k < length (ma_threads m)"
  shows "keeps_records m k (advance (ma_threads m ! k) (ma_driver m))"
  by (cases "ma_threads m ! k")
    (use io_records [OF safe rec k] start_records [OF rec k] create_records [OF safe rec k]
      removal_records [OF safe rec k] ending_records [OF safe rec k] failed_records [OF safe rec k]
      created_records [OF safe rec k] deleted_records [OF safe rec k] committing_records [OF safe rec k]
      finalizing_records [OF safe rec k] in \<open>blast | simp\<close>)+

section \<open>Requests from StorPort\<close>

lemma copy_truthful:
  assumes table: "table_ok e log" and r: "r \<in> set (ax_operations e)" "op_id r \<noteq> 0"
  shows "truthful (operation_response_of code (CopyResultLocked r e) corr) e log"
proof (cases "op_state r = state_code State_Reserved \<or> op_state r = state_code State_Pending")
  case True
  then show ?thesis by (auto simp: truthful_def operation_response_of_def CopyResultLocked_def)
next
  case False
  with settled_truthful [OF table r] show ?thesis by simp
qed

text \<open>What a request does to the table, and what its thread may rely on.\<close>

definition start_recorded ::
  "adapter_extension \<Rightarrow> driver_event list \<Rightarrow> thread \<Rightarrow> adapter_extension \<Rightarrow> bool" where
  "start_recorded e log th e' \<longleftrightarrow> table_ok e' log \<and> later e log e' log \<and> task_ok th e' log
     \<and> (\<forall>r \<in> set (ax_operations e'). op_state r = state_code State_Pending \<longrightarrow>
          r \<in> set (ax_operations e) \<or> works_on th = Some (op_id r))
     \<and> (ax_management_busy e \<longrightarrow> (\<forall>t. task_ok t e log \<longrightarrow> task_ok t e' log))"

lemma start_recorded_calm:
  assumes "table_ok e log" "calm e log e' log" "task_ok th e' log"
  shows "start_recorded e log th e'"
  using assms calm_table [OF assms(2,1)] calm_later [OF assms(2)] calm_task [OF assms(2)]
  by (auto simp: start_recorded_def calm_def)

lemma records_started:
  assumes safe: "safe m" and rec: "records_ok m"
    and start: "start_recorded (dr_ext (ma_driver m)) (dr_log (ma_driver m)) th (dr_ext d')"
    and log: "dr_log d' = dr_log (ma_driver m) @ evs" "list_all minor_event evs"
  shows "records_ok (m\<lparr>ma_driver := d', ma_threads := ma_threads m @ [th]\<rparr>)"
proof -
  let ?e = "dr_ext (ma_driver m)" and ?log = "dr_log (ma_driver m)" and ?e' = "dr_ext d'"
  note sD = start [unfolded start_recorded_def]
  have calm: "calm ?e' ?log ?e' (dr_log d')" using log by (simp add: calm_def)
  have "task_ok t ?e' ?log" if t: "t \<in> set (ma_threads m)" for t
  proof -
    have task: "task_ok t ?e ?log" using rec t by (simp add: records_ok_def Let_def)
    show ?thesis
    proof (cases "ax_management_busy ?e")
      case False
      with t busy_iff_manager [OF safe] have "\<not> manager t" by (auto simp: in_set_conv_nth)
      with bystander_task [OF _ task] sD show ?thesis by blast
    qed (use sD task in blast)
  qed
  then have "\<forall>t \<in> set (ma_threads m @ [th]). task_ok t ?e' (dr_log d')"
    using calm_task [OF calm] sD by auto
  moreover have "attended (ma_threads m @ [th]) ?e'"
    unfolding attended_def
  proof (intro ballI impI)
    fix r assume "r \<in> set (ax_operations ?e')" "op_state r = state_code State_Pending"
    with sD records_okD(2) [OF rec] show "\<exists>t \<in> set (ma_threads m @ [th]). works_on t = Some (op_id r)"
      by (auto simp: attended_def)
  qed
  ultimately show ?thesis
    using calm_table [OF calm] sD by (simp add: records_ok_def Let_def)
qed

subsection \<open>Reservation\<close>

lemma select_record_Some:
  "select_record k selected xs = Some j \<Longrightarrow>
    (\<exists>oldest. selected = Some (j, oldest))
    \<or> (k \<le> j \<and> j - k < length xs \<and> (op_id (xs ! (j - k)) = 0 \<or> \<not> never_evicted (xs ! (j - k))))"
proof (induction k selected xs rule: select_record.induct)
  case (2 k selected candidate rest)
  have tail: ?case if "select_record (Suc k) sel rest = Some j"
    and "(\<exists>oldest. sel = Some (j, oldest)) \<Longrightarrow> (\<exists>oldest. selected = Some (j, oldest)) \<or> (j = k \<and> \<not> never_evicted candidate)"
    and ih: "(\<exists>oldest. sel = Some (j, oldest))
    \<or> (Suc k \<le> j \<and> j - Suc k < length rest \<and> (op_id (rest ! (j - Suc k)) = 0 \<or> \<not> never_evicted (rest ! (j - Suc k))))" for sel
  proof -
    have "j - k = Suc (j - Suc k)" if "Suc k \<le> j" using that by simp
    then show ?thesis using ih that(2) by auto
  qed
  show ?case
    using "2.prems" "2.IH" tail by (auto split: if_splits)
qed (auto split: option.splits)

lemma Reserve_Ok:
  assumes "ReserveOperation mutation e = Ok (result, e')"
  obtains k where "k < length (ax_operations e)" "op_state (ax_operations e ! k) = state_code State_Pending \<longrightarrow> op_id (ax_operations e ! k) = 0"
    "ax_next_operation_id e \<noteq> 0" "mutation = operation_code Create_Disk \<or> mutation = operation_code Delete_Disk"
    "e' = update_record k (\<lambda>_. fresh_record (ax_next_operation_id e) mutation)
      (e\<lparr>ax_next_operation_id := ax_next_operation_id e + 1\<rparr>)"
proof -
  from assms obtain k where sel: "select_record 0 None (ax_operations e) = Some k"
    and e': "ax_next_operation_id e \<noteq> 0" "mutation = operation_code Create_Disk \<or> mutation = operation_code Delete_Disk"
      "e' = update_record k (\<lambda>_. fresh_record (ax_next_operation_id e) mutation)
      (e\<lparr>ax_next_operation_id := ax_next_operation_id e + 1\<rparr>)"
    by (auto simp: ReserveOperation_def Let_def split: if_splits option.splits)
  from select_record_Some [OF sel] have "k < length (ax_operations e)"
    "op_state (ax_operations e ! k) = state_code State_Pending \<longrightarrow> op_id (ax_operations e ! k) = 0"
    by (auto simp: never_evicted_def)
  with e' that show ?thesis by blast
qed

lemma reserve_recorded:
  assumes run: "ReserveOperation mutation e = Ok (result, e')" and table: "table_ok e log"
    and task: "task_ok (Finished b) e' log"
  shows "start_recorded e log (Finished b) e'"
proof -
  from Reserve_Ok [OF run] obtain k where k: "k < length (ax_operations e)"
      "op_state (ax_operations e ! k) = state_code State_Pending \<longrightarrow> op_id (ax_operations e ! k) = 0"
    and next0: "ax_next_operation_id e \<noteq> 0"
    and mut: "mutation = operation_code Create_Disk \<or> mutation = operation_code Delete_Disk"
    and e': "e' = update_record k (\<lambda>_. fresh_record (ax_next_operation_id e) mutation)
      (e\<lparr>ax_next_operation_id := ax_next_operation_id e + 1\<rparr>)" .
  let ?n = "ax_next_operation_id e" and ?new = "fresh_record (ax_next_operation_id e) mutation"
  have ops: "ax_operations e' = (ax_operations e)[k := ?new]" by (simp add: e')
  have new: "op_id ?new = ?n" "op_state ?new = state_code State_Reserved" "op_mutation ?new = mutation"
    by (simp_all add: fresh_record_def)
  have fields: "ax_luns e' = ax_luns e" "ax_next_operation_id e' = ?n + 1" "ax_next_device_id e' = ax_next_device_id e"
    "ax_adapter_instance e' = ax_adapter_instance e"
    by (simp_all add: e')
  have not_pending: "op_state (ax_operations e ! k) \<noteq> state_code State_Pending"
    using k(2) table_zero [OF table nth_mem [OF k(1)]] by force
  have kept: "r \<in> set (ax_operations e')" if "r \<in> set (ax_operations e)" "op_state r = state_code State_Pending" for r
  proof -
    from that obtain j where "j < length (ax_operations e)" "ax_operations e ! j = r" by (auto simp: in_set_conv_nth)
    moreover then have "j \<noteq> k" using that not_pending by auto
    ultimately show ?thesis unfolding ops in_set_conv_nth by (intro exI [of _ j]) simp
  qed
  have below: "id_below ident ?n" if "ident \<in> set (committed_ops log)" for ident
    using table that by (simp add: table_ok_def)
  have fresh: "op_id r \<noteq> ?n" if "r \<in> set (ax_operations e)" for r
    using table_record [OF table that] next0 by (cases "op_id r = 0") (auto simp: record_ok_def)
  have record_kept: "record_ok e' log r" if "record_ok e log r" for r
    using that next0 by (auto simp: record_ok_def fields id_below_Suc live_disk_def Let_def)
  have "record_ok e' log ?new"
    using mut next0 below [of ?n] by (auto simp: record_ok_def new fields id_below_next)
  then have recs: "if op_id r = 0 then op_state r = 0 else record_ok e' log r" if "r \<in> set (ax_operations e')" for r
    using that [unfolded ops] table record_kept new next0
    by (elim updated_member) (auto simp: table_ok_def)
  have "a = b" if "a < length (ax_operations e)" "b < length (ax_operations e)"
    "op_id (ax_operations e' ! a) = op_id (ax_operations e' ! b)" "op_id (ax_operations e' ! a) \<noteq> 0" for a b
    using that record_unique [OF table that(1,2)] fresh [OF nth_mem [OF that(1)]] fresh [OF nth_mem [OF that(2)]] k(1)
    unfolding ops by (auto simp: nth_list_update new split: if_splits)
  then have tab: "table_ok e' log"
    using table recs below next0 unfolding table_ok_def by (simp add: fields ops id_below_Suc)
  have dead: "dead ident e' log" if "dead ident e log" for ident
  proof -
    from that next0 have "ident \<noteq> ?n" by (auto simp: dead_def)
    with that next0 show ?thesis
      unfolding dead_def fields ops by (auto simp: id_below_Suc new elim!: updated_member)
  qed
  then have later: "later e log e' log" by (simp add: later_def fields)
  have pend: "pending_op ident e' log" if "pending_op ident e log" for ident
    using that kept by (auto simp: pending_op_def)
  have work: "work_task w e' log" if "work_task w e log" for w
    using that kept pend by (auto simp: work_task_def split: option.splits)
  have made: "created_task w disk e' log" if "created_task w disk e log" for w disk
    using that kept by (auto simp: created_task_def fields split: option.splits)
  have "task_ok t e' log" if "task_ok t e log" for t
    using that answer_ok_later [OF _ later]
    by (cases "(t, e, log)" rule: task_ok.cases) (auto simp: work made pend fields)
  moreover have "r \<in> set (ax_operations e)" if "r \<in> set (ax_operations e')" "op_state r = state_code State_Pending" for r
    using that(1) [unfolded ops] that(2) new by (elim updated_member) auto
  ultimately show ?thesis
    using tab later task by (simp add: start_recorded_def)
qed

subsection \<open>Acceptance\<close>

definition pending_srb :: "srb \<Rightarrow> srb" where
  "pending_srb b = (set_return_code STATUS_PENDING b)\<lparr>sb_srb_status := SRB_STATUS_PENDING\<rparr>"

lemma pending_srb_reads:
  assumes ok: "control_ok b"
  shows "control_ok (pending_srb b)" and "srb_control_code (io_control (pending_srb b)) = srb_control_code (io_control b)"
    and "payload (pending_srb b) = payload b"
proof -
  have msg: "message_block ((io_control b)\<lparr>srb_return_code := STATUS_PENDING\<rparr>) (payload b) (pending_srb b)"
    using set_return_code_message [OF control_message [OF ok], of STATUS_PENDING]
    by (simp add: message_block_def pending_srb_def)
  note reads = message_block_reads [OF msg]
  show "srb_control_code (io_control (pending_srb b)) = srb_control_code (io_control b)" "payload (pending_srb b) = payload b"
    by (simp_all add: reads)
  have same: "sb_data_transfer_length (pending_srb b) = sb_data_transfer_length b" "sb_cdb (pending_srb b) = sb_cdb b"
    "sb_sense_buffer (pending_srb b) = sb_sense_buffer b" "sb_sense_length (pending_srb b) = sb_sense_length b"
    by (simp_all add: pending_srb_def set_return_code_def)
  obtain d where d: "sb_data_buffer b = Some d" using control_ok_buffer(1) [OF ok] by blast
  have long: "24 \<le> length d" using control_ok_buffer(1,4) [OF ok] d by simp
  have "sb_data_buffer (pending_srb b) = Some (write_at 20 (u32_bytes STATUS_PENDING) d)"
    by (simp add: pending_srb_def set_return_code_def d)
  moreover have "length (write_at 20 (u32_bytes STATUS_PENDING) d) = length d"
    using long by simp
  ultimately have "srb_wf (pending_srb b)"
    using ok d same by (simp add: control_ok_def srb_wf_def cong: option.case_cong)
  moreover have "FromSrb (pending_srb b)"
    using ok FromSrb_message [OF msg] FromSrb_message [OF control_message [OF ok]]
    by (simp add: control_ok_def same)
  ultimately show "control_ok (pending_srb b)" by (simp add: control_ok_def)
qed

lemma bind_recorded:
  assumes bind: "BindOperationLocked c e1 = Ok (Accepted e2)" and table: "table_ok e log"
    and e1: "e1 = e\<lparr>ax_management_busy := True, ax_management_idle := False\<rparr>" and free: "\<not> ax_management_busy e"
    and ok: "control_ok b" and reserved: "IsReserved c" "is_reserved_code (srb_control_code (io_control b))"
      "dec_operation_request (payload b) = mc_identity c"
  shows "start_recorded e log (Preparing b c) e2"
proof -
  let ?ident = "oq_operation_id (mc_identity c)"
  let ?f = "\<lambda>r. r\<lparr>op_create := mc_create c, op_delete := mc_remove c,
            op_device_id := (if Mutation c = operation_code Delete_Disk
              then dq_device_id (mc_remove c) else op_device_id r),
            op_state := state_code State_Pending\<rparr>"
  from bind obtain k where find: "FindOperationLocked ?ident e1 = Some k"
    and inst: "oq_adapter_instance (mc_identity c) = ax_adapter_instance e1"
    and state: "op_state (ax_operations e1 ! k) = state_code State_Reserved"
    and e2: "e2 = update_record k ?f e1"
    by (auto simp: BindOperationLocked_def Let_def split: option.splits if_splits)
  from find have k: "k < length (ax_operations e)" "op_id (ax_operations e ! k) = ?ident" "?ident \<noteq> 0"
    by (auto simp: FindOperation_Some e1)
  define r where "r = ax_operations e ! k"
  have r: "r \<in> set (ax_operations e)" "op_id r = ?ident" "op_state r = state_code State_Reserved"
    using k state by (simp_all add: r_def e1)
  have e2': "e2 = update_record k (\<lambda>_. ?f r) e1"
    by (simp add: e2 update_record_def r_def e1)
  have same: "record_ok e1 log q = record_ok e log q" for q
    by (simp add: e1 record_ok_def live_disk_def)
  note rok = table_record [OF table r(1)]
  have accepted: "record_ok e1 log (?f r)"
    using rok r k(3) unfolding same by (auto simp: record_ok_def)
  have tab: "table_ok e2 log"
    unfolding e2' by (rule settle_table [OF table k(1)])
      (use k accepted r_def table_record [OF table] same in \<open>auto simp: e1\<close>)
  have dead: "dead ident e2 log" if "dead ident e log" for ident
  proof -
    have "ident \<noteq> ?ident" using that r by (auto simp: dead_def)
    with that r show ?thesis
      unfolding e2' dead_def by (auto simp: e1 elim!: updated_member)
  qed
  have "pending_op ?ident e2 log"
  proof -
    have "?f r \<in> set (ax_operations e2)" unfolding e2' using k(1) by (simp add: e1 set_update_memI)
    moreover have "?ident \<notin> set (committed_ops log)" using rok r k(3) by (auto simp: record_ok_def)
    ultimately show ?thesis
      unfolding pending_op_def using k(3) r(2) by (intro conjI bexI [of _ "?f r"]) simp_all
  qed
  with ok reserved inst have "task_ok (Preparing b c) e2 log" by (simp add: e2 e1)
  moreover have "q \<in> set (ax_operations e) \<or> works_on (Preparing b c) = Some (op_id q)"
    if "q \<in> set (ax_operations e2)" for q
    using that r(2) reserved(1) unfolding e2' by (auto simp: e1 elim!: updated_member)
  moreover have "later e log e2 log" using dead by (simp add: later_def e2' e1)
  ultimately show ?thesis using tab free by (simp add: start_recorded_def)
qed

definition disposition_recorded :: "adapter_extension \<Rightarrow> driver_event list \<Rightarrow> disposition \<Rightarrow> bool" where
  "disposition_recorded e log r \<longleftrightarrow> (case r of
     Io_Complete b' e' \<Rightarrow> start_recorded e log (Finished (complete_control b')) e'
   | Io_Pending b' c e' \<Rightarrow> start_recorded e log (Preparing b' c) e')"

lemma complete_recorded:
  "table_ok e log \<Longrightarrow> answer_ok b' e log \<Longrightarrow> disposition_recorded e log (Io_Complete b' e)"
  by (simp add: disposition_recorded_def start_recorded_calm)

lemma error_recorded:
  assumes "table_ok e log" "control_ok b" "\<not> NT_SUCCESS status"
  shows "disposition_recorded e log (Io_Complete (WriteError code status corr b) e)"
  using assms answer_WriteError [OF assms(2,3)] by (intro complete_recorded) (simp_all add: answer_ok_def)

lemma prepared_recorded:
  assumes table: "table_ok e log" and ok: "control_ok b" and idle: "ax_management_idle e = (\<not> ax_management_busy e)"
    and code: "IsReserved c = is_reserved_code (srb_control_code (io_control b))"
    and identity: "IsReserved c \<Longrightarrow> dec_operation_request (payload b) = mc_identity c"
  shows "disposition_recorded e log (prepared c b e)"
proof (cases "BeginManagementLocked e")
  case (Inl status)
  then have "\<not> NT_SUCCESS status" by (auto simp: BeginManagementLocked_def split: if_splits)
  with Inl error_recorded [OF table ok] show ?thesis
    by (simp add: prepared_def PrepareSubmission_def Let_def)
next
  case (Inr e1)
  then have e1: "e1 = e\<lparr>ax_management_busy := True, ax_management_idle := False\<rparr>" and free: "\<not> ax_management_busy e"
    by (auto simp: BeginManagementLocked_def split: if_splits)
  note restored = Begin_End [OF Inr idle]
  note pending = pending_srb_reads [OF ok]
  show ?thesis
  proof (cases "IsReserved c")
    case False
    have "calm e log e1 log" by (simp add: calm_def e1)
    then have "start_recorded e log (Preparing (pending_srb b) c) e1"
      by (rule start_recorded_calm [OF table]) (use False code pending in simp)
    with Inr False show ?thesis
      by (simp add: prepared_def PrepareSubmission_def Let_def disposition_recorded_def pending_srb_def)
  next
    case reserved: True
    show ?thesis
    proof (cases "BindOperationLocked c e1")
      case (Inl status)
      then have "\<not> NT_SUCCESS status"
        by (auto simp: BindOperationLocked_def Let_def split: option.splits if_splits)
      with Inl Inr reserved restored error_recorded [OF table ok] show ?thesis
        by (simp add: prepared_def PrepareSubmission_def Let_def)
    next
      case bound: (Inr x)
      show ?thesis
      proof (cases x)
        case (Replay result)
        with bound obtain k where k: "k < length (ax_operations e)" "op_id (ax_operations e ! k) \<noteq> 0"
          "result = CopyResultLocked (ax_operations e ! k) e1"
          by (auto simp: BindOperationLocked_def Let_def FindOperation_Some e1 split: option.splits if_splits)
        have "CopyResultLocked (ax_operations e ! k) e1 = CopyResultLocked (ax_operations e ! k) e"
          by (simp add: CopyResultLocked_def e1)
        with k answer_operation [OF ok copy_truthful [OF table nth_mem [OF k(1)] k(2)]]
        have "answer_ok (WriteOperationResponse result (CorrelationId c) b) e log" by simp
        with Replay bound Inr reserved restored complete_recorded [OF table] show ?thesis
          by (simp add: prepared_def PrepareSubmission_def Let_def)
      next
        case (Accepted e2)
        have "start_recorded e log (Preparing (pending_srb b) c) e2"
          by (rule bind_recorded [OF bound [unfolded Accepted] table e1 free pending(1) reserved])
            (use reserved code identity pending in simp_all)
        with Accepted bound Inr reserved show ?thesis
          by (simp add: prepared_def PrepareSubmission_def Let_def disposition_recorded_def pending_srb_def)
      qed
    qed
  qed
qed

subsection \<open>All requests\<close>

lemma operation_answer:
  assumes ok: "control_ok b"
  shows "srb_control_code (io_control b) \<notin> operation_codes \<Longrightarrow> answer_ok (WriteOperationResponse result corr b) e log"
    and "srb_control_code (io_control b) \<notin> operation_codes \<Longrightarrow> answer_ok (WriteResponse response status b) e log"
    and "\<not> NT_SUCCESS status \<Longrightarrow> answer_ok (WriteError code status corr b) e log"
  using answer_other_code [OF ok] answer_WriteError [OF ok]
  by (simp_all add: answer_ok_def WriteOperationResponse_def)

lemma read_request_facts:
  shows "ReadOperationRequest dec n z b = Err b' \<Longrightarrow> control_ok b \<Longrightarrow> answer_ok b' e log"
    and "ReadOperationRequest dec n z b = Ok (q, header) \<Longrightarrow> q = dec (payload b)"
  using operation_answer(3) [of b]
  by (auto simp: ReadOperationRequest_def ReadRequest_def Let_def split: prod.splits if_splits)

lemma reserve_handled:
  assumes table: "table_ok e log" and ok: "control_ok b"
    and code: "srb_control_code (io_control b) = operation_code Reserve"
    and run: "HandleReserveOperation b e = (b', e')"
  shows "disposition_recorded e log (Io_Complete b' e')"
proof (cases "ReadOperationRequest dec_reserve_request (size_of reserve_request_type) zero_reserve_request b")
  case (Inl b1)
  with run read_request_facts(1) [OF Inl ok] complete_recorded [OF table] show ?thesis
    by (simp add: HandleReserveOperation_def)
next
  case (Inr x)
  obtain request header where x: "x = (request, header)" by (cases x)
  have other: "srb_control_code (io_control b) \<notin> operation_codes" using code by (simp add: operation_codes_def)
  show ?thesis
  proof (cases "if rr_reserved request = 0 then ReserveOperation (rr_mutation request) e else Err STATUS_INVALID_PARAMETER")
    case (Inl status)
    then have "\<not> NT_SUCCESS status"
      by (auto simp: ReserveOperation_def Let_def split: if_splits option.splits)
    with error_recorded [OF table ok] run Inr x Inl show ?thesis
      by (auto simp: HandleReserveOperation_def)
  next
    case reserved: (Inr y)
    obtain result e1 where y: "y = (result, e1)" by (cases y)
    from reserved y have op: "ReserveOperation (rr_mutation request) e = Ok (result, e1)" by (simp split: if_splits)
    from run Inr x reserved y have r: "b' = WriteOperationResponse result (rq_correlation_id header) b" "e' = e1"
      by (simp_all add: HandleReserveOperation_def)
    have "start_recorded e log (Finished (complete_control b')) e'"
      unfolding r by (rule reserve_recorded [OF op table]) (simp add: operation_answer(1) [OF ok other])
    then show ?thesis by (simp add: disposition_recorded_def)
  qed
qed

lemma query_handled:
  assumes table: "table_ok e log" and ok: "control_ok b"
  shows "disposition_recorded e log (Io_Complete (HandleQueryOperation b e) e)"
proof (rule complete_recorded [OF table])
  show "answer_ok (HandleQueryOperation b e) e log"
  proof (cases "ReadOperationRequest dec_operation_request (size_of operation_request_type) zero_operation_request b")
    case (Inl b')
    with read_request_facts(1) [OF Inl ok] show ?thesis by (simp add: HandleQueryOperation_def)
  next
    case (Inr x)
    obtain request header where x: "x = (request, header)" by (cases x)
    show ?thesis
    proof (cases "QueryOperation (oq_adapter_instance request) (oq_operation_id request) e")
      case (Inl status)
      then have "\<not> NT_SUCCESS status" by (auto simp: QueryOperation_def split: option.splits if_splits)
      with Inl Inr x operation_answer(3) [OF ok] show ?thesis by (simp add: HandleQueryOperation_def)
    next
      case found: (Inr result)
      then obtain k where k: "k < length (ax_operations e)" "op_id (ax_operations e ! k) \<noteq> 0"
        "result = CopyResultLocked (ax_operations e ! k) e"
        by (auto simp: QueryOperation_def FindOperation_Some split: option.splits if_splits)
      with answer_operation [OF ok copy_truthful [OF table nth_mem [OF k(1)] k(2)]] found Inr x show ?thesis
        by (simp add: HandleQueryOperation_def)
    qed
  qed
qed

lemma mutations_handled:
  assumes table: "table_ok e log" and ok: "control_ok b" and idle: "ax_management_idle e = (\<not> ax_management_busy e)"
  shows "srb_control_code (io_control b) = operation_code Create_Disk \<Longrightarrow>
      disposition_recorded e log (HandleCreateControl b e)"
    and "srb_control_code (io_control b) = operation_code Delete_Disk \<Longrightarrow>
      disposition_recorded e log (HandleDeleteControl b e)"
    and "srb_control_code (io_control b) = operation_code Create_Reserved \<Longrightarrow>
      disposition_recorded e log (HandleReservedCreateControl b e)"
    and "srb_control_code (io_control b) = operation_code Delete_Reserved \<Longrightarrow>
      disposition_recorded e log (HandleReservedDeleteControl b e)"
proof -
  note prep = prepared_recorded [OF table ok idle]
  show "disposition_recorded e log (HandleCreateControl b e)" if "srb_control_code (io_control b) = operation_code Create_Disk"
  proof -
    have "answer_ok (WriteCreateResponse q status dev lun b) e log" for q status dev lun
      using operation_answer(2) [OF ok] that by (simp add: WriteCreateResponse_def operation_codes_def)
    then show ?thesis
      using that by (auto simp: HandleCreateControl_def IsReserved_def is_reserved_code_def
          intro!: prep complete_recorded [OF table] split: prod.splits)
  qed
  show "disposition_recorded e log (HandleDeleteControl b e)" if "srb_control_code (io_control b) = operation_code Delete_Disk"
  proof -
    have "answer_ok (WriteDeleteResponse q status b) e log" for q status
      using operation_answer(2) [OF ok] that by (simp add: WriteDeleteResponse_def operation_codes_def)
    then show ?thesis
      using that by (auto simp: HandleDeleteControl_def IsReserved_def is_reserved_code_def
          intro!: prep complete_recorded [OF table] split: prod.splits)
  qed
  show "disposition_recorded e log (HandleReservedCreateControl b e)"
    if "srb_control_code (io_control b) = operation_code Create_Reserved"
    using that by (auto simp: HandleReservedCreateControl_def IsReserved_def is_reserved_code_def
        dec_reserved_create_request_def dest: read_request_facts(2)
        intro!: prep complete_recorded [OF table] read_request_facts(1) [OF _ ok] error_recorded [OF table ok]
        split: prod.splits sum.splits)
  show "disposition_recorded e log (HandleReservedDeleteControl b e)"
    if "srb_control_code (io_control b) = operation_code Delete_Reserved"
    using that by (auto simp: HandleReservedDeleteControl_def IsReserved_def is_reserved_code_def
        dec_reserved_delete_request_def dest: read_request_facts(2)
        intro!: prep complete_recorded [OF table] read_request_facts(1) [OF _ ok] error_recorded [OF table ok]
        split: prod.splits sum.splits)
qed

lemma control_handled:
  assumes table: "table_ok e log" and wf: "srb_wf b" and idle: "ax_management_idle e = (\<not> ax_management_busy e)"
  shows "disposition_recorded e log (WispDiskHandleIoControl b e)"
proof (cases "FromSrb b")
  case False
  have "answer_ok (b\<lparr>sb_data_transfer_length := 0\<rparr>) e log" by (simp add: answer_ok_def)
  with False complete_recorded [OF table] show ?thesis by (simp add: WispDiskHandleIoControl_def)
next
  case True
  with wf have ok: "control_ok b" by (simp add: control_ok_def)
  let ?code = "srb_control_code (io_control b)"
  note answers = operation_answer [OF ok] and finished = complete_recorded [OF table]
  have listed: "disposition_recorded e log (Io_Complete (HandleListState b e) e)"
    "disposition_recorded e log (Io_Complete (HandleQueryVersion b) e)"
    "disposition_recorded e log (Io_Complete (HandleListDisks b e) e)"
    if "?code \<notin> operation_codes"
  proof -
    have "answer_ok (WriteError code status corr b) e log" for code status corr
    proof (cases "24 \<le> unat (srb_length (io_control b))")
      case True
      then show ?thesis using answers(2) [OF that] by (simp add: WriteError_def)
    next
      case False
      then show ?thesis
        using Prepare_reads(1) [OF control_message [OF ok], of status 0] that
        by (simp add: WriteError_def answer_ok_def answer_of_def)
    qed
    then show "disposition_recorded e log (Io_Complete (HandleListState b e) e)"
      "disposition_recorded e log (Io_Complete (HandleQueryVersion b) e)"
      "disposition_recorded e log (Io_Complete (HandleListDisks b e) e)"
      using answers(2) [OF that]
      by (auto simp: HandleListState_def HandleQueryVersion_def HandleListDisks_def Let_def
          intro!: finished split: prod.splits)
  qed
  have diag: "disposition_recorded e log (Io_Complete (HandleDiagnostics b) e)"
    unfolding HandleDiagnostics_def by (rule error_recorded [OF table ok]) simp
  have unknown: "disposition_recorded e log (Io_Complete (WriteError ?code STATUS_INVALID_DEVICE_REQUEST 0 b) e)"
    by (rule error_recorded [OF table ok]) simp
  have reserve: "disposition_recorded e log (case HandleReserveOperation b e of (b', e') \<Rightarrow> Io_Complete b' e')"
    if "?code = operation_code Reserve"
    using reserve_handled [OF table ok that] by (cases "HandleReserveOperation b e") simp
  have codes: "operation_code List_State \<notin> operation_codes" "operation_code Query_Version \<notin> operation_codes"
    "operation_code List_Disks \<notin> operation_codes" by (simp_all add: operation_codes_def)
  note mutations = mutations_handled [OF table ok idle]
  have pick: "disposition_recorded e log (if P then x else y)"
    if "P \<Longrightarrow> disposition_recorded e log x" "\<not> P \<Longrightarrow> disposition_recorded e log y" for P x y
    using that by simp
  have "disposition_recorded e log (DispatchControlRequest b e)"
    unfolding DispatchControlRequest_def Let_def
    by (intro pick diag unknown reserve query_handled [OF table ok] mutations)
      (use listed codes in auto)
  with True show ?thesis by (simp add: WispDiskHandleIoControl_def)
qed

lemma scsi_function:
  assumes "srb_wf b"
  shows "sb_function (snd (HandleReportLuns e b)) = sb_function b"
    and "sb_function (snd (SetSense key asc ascq b)) = sb_function b"
proof -
  have "sb_function b' = sb_function b" if "scsi_answered b b'" for b'
  proof -
    from that have "b' = b\<lparr>sb_data_buffer := sb_data_buffer b', sb_sense_buffer := sb_sense_buffer b',
         sb_data_transfer_length := sb_data_transfer_length b', sb_scsi_status := sb_scsi_status b'\<rparr>"
      unfolding scsi_answered_def by blast
    from arg_cong [OF this, of sb_function] show ?thesis by simp
  qed
  with scsi_answered_commands(6) [OF assms] scsi_answered_SetSense [OF assms]
  show "sb_function (snd (HandleReportLuns e b)) = sb_function b"
    "sb_function (snd (SetSense key asc ascq b)) = sb_function b" by blast+
qed

lemma start_io_recorded:
  assumes table: "table_ok e log" and wf: "srb_wf b" and idle: "ax_management_idle e = (\<not> ax_management_busy e)"
    and luns: "luns_ok e" and run: "StartIo b e = (th, e')"
  shows "start_recorded e log th e'"
proof -
  note calm = start_recorded_calm [OF table calm_refl]
  show ?thesis
  proof (cases "sb_function b")
    case Fn_Io_Control
    with run control_handled [OF table wf idle] show ?thesis
      by (auto simp: StartIo_def disposition_recorded_def split: disposition.splits)
  next
    case Fn_Execute_Scsi
    have silent: "start_recorded e log (Finished (CompleteRequest status b')) e" if "sb_function b' = Fn_Execute_Scsi" for status b'
      using that by (intro calm) (simp add: answer_ok_def answer_of_def [of b'])
    show ?thesis
    proof (cases "AcquireLunIo b e")
      case None
      with run Fn_Execute_Scsi silent scsi_function [OF wf] show ?thesis
        by (auto simp: StartIo_def WispDiskHandleExecuteScsi_def Let_def split: if_splits prod.splits)
          (metis snd_conv)+
    next
      case (Some r)
      obtain i view e1 where r: "r = (i, view, e1)" by (cases r)
      from AcquireLunIo_Some [OF Some [unfolded r]] have "calm e log e1 log"
        by (auto intro!: calm_update [OF luns])
      then have "start_recorded e log (Leased b i view) e1"
        by (rule start_recorded_calm [OF table]) (simp add: Fn_Execute_Scsi)
      with run Fn_Execute_Scsi silent scsi_function [OF wf] Some r show ?thesis
        by (auto simp: StartIo_def WispDiskHandleExecuteScsi_def Let_def split: if_splits prod.splits)
          (metis snd_conv)+
    qed
  qed (use run calm in \<open>auto simp: StartIo_def answer_ok_def\<close>)
qed

section \<open>Reachable machines\<close>

lemma resume_records:
  "records_ok m \<Longrightarrow> keeps_records m k p \<Longrightarrow> resume k p m = Some m' \<Longrightarrow> records_ok m'"
  by (cases p) (auto simp: resume_def keeps_records_def records_ok_def Let_def)

lemma admission_event_log:
  "\<exists>evs. dr_log (admission_event e r d) = dr_log d @ evs \<and> list_all minor_event evs"
  by (auto simp: admission_event_def log_event_def split: prod.splits thread.splits)

lemma step_records:
  assumes safe: "safe m" and rec: "records_ok m" and run: "step l m = Some m'"
  shows "records_ok m'"
proof (cases l)
  case (Start_Io b)
  let ?e = "dr_ext (ma_driver m)" and ?r = "StartIo b (dr_ext (ma_driver m))"
  let ?d' = "admission_event ?e ?r (with_ext (ma_driver m) (snd ?r))"
  from run Start_Io have wf: "srb_wf b"
    and m': "m' = m\<lparr>ma_driver := ?d', ma_threads := ma_threads m @ [fst ?r]\<rparr>"
    by (auto simp: step_def Let_def split: if_splits)
  have "start_recorded ?e (dr_log (ma_driver m)) (fst ?r) (snd ?r)"
    using safeD(2,5) [OF safe] wf
    by (intro start_io_recorded [OF records_okD(1) [OF rec], of b]) (auto simp: admission_ok_def)
  moreover obtain evs where "dr_log ?d' = dr_log (ma_driver m) @ evs" "list_all minor_event evs"
    using admission_event_log [of ?e ?r "with_ext (ma_driver m) (snd ?r)"] by auto
  ultimately show ?thesis
    unfolding m' by (intro records_started [OF safe rec]) simp_all
next
  case (Set_Stopping b)
  let ?d' = "with_ext (ma_driver m) ((dr_ext (ma_driver m))\<lparr>ax_adapter_stopping := b\<rparr>)"
  have calm: "calm (dr_ext (ma_driver m)) (dr_log (ma_driver m)) (dr_ext ?d') (dr_log ?d')" by (simp add: calm_def)
  from run Set_Stopping have "m' = m\<lparr>ma_driver := ?d'\<rparr>"
    by (auto simp: step_def Let_def split: if_splits)
  with calm_task [OF calm] calm_table [OF calm records_okD(1) [OF rec]] rec show ?thesis
    by (simp add: records_ok_def Let_def attended_def)
next
  case Free_Resources
  let ?d' = "with_ext (ma_driver m) (CloseAdmission (dr_ext (ma_driver m)))"
  from run Free_Resources have m': "m' = m\<lparr>ma_driver := ?d', ma_threads := ma_threads m @ [Stopping_Wait]\<rparr>"
    by (auto simp: step_def Let_def split: if_splits)
  have "start_recorded (dr_ext (ma_driver m)) (dr_log (ma_driver m)) Stopping_Wait (dr_ext ?d')"
    by (rule start_recorded_calm [OF records_okD(1) [OF rec]]) (simp_all add: calm_def CloseAdmission_def)
  then show ?thesis
    unfolding m' by (rule records_started [OF safe rec, where evs = "[]"]) simp_all
next
  case (Advance k)
  with run resume_records [OF rec advance_records [OF safe rec]] show ?thesis
    by (auto simp: step_def Let_def split: if_splits)
next
  case (Queue_Work k queued)
  with run resume_records [OF rec queue_records [OF rec]] show ?thesis
    by (auto simp: step_def Let_def split: if_splits)
next
  case (Allocate_Pool k answer)
  with run resume_records [OF rec create_records(3) [OF safe rec]] show ?thesis
    by (auto simp: step_def Let_def split: if_splits)
qed

lemma initial_records: "records_ok (initial_machine inst)"
proof -
  have zero: "op_id zero_record = 0" "op_state zero_record = 0" by (simp_all add: zero_record_def)
  show ?thesis
    by (simp add: records_ok_def Let_def initial_machine_def table_ok_def attended_def initial_extension_def
        LunStore_Initialize_def zero kMaximumOperationCount_def)
qed

text \<open>Both invariants together.\<close>

lemma reachable_invariants:
  "reachable m m' \<Longrightarrow> safe m \<and> records_ok m \<Longrightarrow> safe m' \<and> records_ok m'"
  by (induction rule: reachable.induct) (auto intro: step_safe step_records)

lemma driver_invariants:
  assumes "reachable (initial_machine inst) m" shows "safe m" and "records_ok m"
  using reachable_invariants [OF assms] initial_safe initial_records by blast+

text \<open>The history only grows, and what is dead stays dead.\<close>

lemma step_later:
  assumes safe: "safe m" and rec: "records_ok m" and run: "step l m = Some m'"
  shows "set (dr_log (ma_driver m)) \<subseteq> set (dr_log (ma_driver m'))"
proof -
  have adv: "set (dr_log d) \<subseteq> set (dr_log d')" if "advance th d = Step th' d'" for th d th' d'
    using that by (cases th) (auto simp: log_event_def Let_def split: option.splits sum.splits prod.splits
      if_splits remover.splits)
  have other: "dr_log d' = dr_log d" if "queue_work q th d = Step th' d' \<or> allocate_pool a th d = Step th' d'" for q a th d th' d'
    using that by (cases th; cases a) (auto simp: Let_def split: if_splits option.splits)
  have resume: "set (dr_log (ma_driver m)) \<subseteq> set (dr_log (ma_driver m'))"
    if "resume k p m = Some m'" "\<And>th' d'. p = Step th' d' \<Longrightarrow> set (dr_log (ma_driver m)) \<subseteq> set (dr_log d')" for k p
    using that by (cases p) (auto simp: resume_def)
  show ?thesis
  proof (cases l)
    case (Start_Io b)
    with run admission_event_log show ?thesis
      by (auto simp: step_def Let_def admission_event_def log_event_def split: if_splits prod.splits thread.splits)
  next
    case (Advance k)
    with run have "resume k (advance (ma_threads m ! k) (ma_driver m)) m = Some m'"
      by (auto simp: step_def Let_def split: if_splits)
    then show ?thesis by (rule resume) (rule adv)
  next
    case (Queue_Work k q)
    with run have "resume k (queue_work q (ma_threads m ! k) (ma_driver m)) m = Some m'"
      by (auto simp: step_def Let_def split: if_splits)
    then show ?thesis by (rule resume) (use other in force)
  next
    case (Allocate_Pool k a)
    with run have "resume k (allocate_pool a (ma_threads m ! k) (ma_driver m)) m = Some m'"
      by (auto simp: step_def Let_def split: if_splits)
    then show ?thesis by (rule resume) (use other in force)
  qed (use run in \<open>auto simp: step_def Let_def split: if_splits\<close>)
qed

end
