(* ===== verification/Driver_Guarantees.thy ===== *)
theory Driver_Guarantees
  imports Driver_Progress Driver_Disk Driver_Records
begin

text \<open>
  The guarantees of the driver on every run from its start, and a concrete run they apply to.
\<close>

section \<open>A run\<close>

definition example_create :: create_request where
  "example_create = \<lparr>cq_header = \<lparr>rq_struct_size = 48, rq_protocol_version = PROTOCOL_VERSION,
       rq_operation = operation_code Create_Disk, rq_flags = 0, rq_correlation_id = 5\<rparr>,
     cq_size_bytes = 1048576, cq_logical_sector_size = 512, cq_media_kind = 1, cq_requested_drive_letter = 82,
     cq_reserved16 = 0, cq_reserved32 = 0\<rparr>"

definition example_control :: "operation \<Rightarrow> nat \<Rightarrow> srb_io_control" where
  "example_control code n = (control_header code)\<lparr>srb_length := word_of_nat n\<rparr>"

definition control_srb :: "operation \<Rightarrow> u8 list \<Rightarrow> srb" where
  "control_srb code msg = example_srb Fn_Io_Control (replicate 16 0)
     (enc_srb_io_control (example_control code (length msg)) @ msg)"

lemma control_srb_message: "message_block (example_control code (length msg)) msg (control_srb code msg)"
  by (simp add: message_block_def control_srb_def example_srb_def example_control_def control_header_wf)

lemma message_block_status:
  "message_block c msg b \<Longrightarrow> message_block c msg (b\<lparr>sb_srb_status := s\<rparr>)"
  by (simp add: message_block_def)

abbreviation create_block :: srb where
  "create_block \<equiv> control_srb Create_Disk (enc_create_request example_create)"

abbreviation pending_block :: srb where
  "pending_block \<equiv> (set_return_code STATUS_PENDING create_block)\<lparr>sb_srb_status := SRB_STATUS_PENDING\<rparr>"

lemma control_srb_transfer: "sb_data_transfer_length (control_srb code msg) = word_of_nat (28 + length msg)"
proof -
  have "length (enc_srb_io_control (example_control code (length msg))) = 28"
    by (rule srb_io_control_wire.length_enc) (simp add: example_control_def control_header_wf)
  then show ?thesis by (simp add: control_srb_def example_srb_def)
qed

lemmas create_reads = message_block_reads [OF control_srb_message [of Create_Disk "enc_create_request example_create"]]
  message_block_reads [OF message_block_status [OF set_return_code_message [OF control_srb_message
    [of Create_Disk "enc_create_request example_create"]]]]

lemma create_request_read:
  "ValidateCreateRequest (enc_create_request example_create) 48 = (STATUS_SUCCESS, example_create)"
proof -
  have "dec_request_header (enc_create_request example_create) = cq_header example_create"
    by (simp add: enc_create_request_def request_header_wire.dec_enc)
  moreover have "dec_create_request (enc_create_request example_create) = example_create"
    using create_request_wire.dec_enc [of example_create "[]"] by simp
  ultimately show ?thesis
    by (simp add: ValidateCreateRequest_def ReadRequest_def ReadAndValidateRequestHeader_def example_create_def
      create_parameters_ok_def kLogicalSectorSize_def kMinimumDiskSize_def kMaximumDiskSize_def)
qed

lemma create_FromSrb: "FromSrb create_block" "FromSrb pending_block"
proof -
  have header: "srb_header_length (example_control code n) = 28"
    "srb_signature (example_control code n) = SRB_SIGNATURE" "srb_length (example_control code n) = word_of_nat n" for code n
    by (simp_all add: example_control_def control_header_def)
  show "FromSrb create_block"
    using FromSrb_message [OF control_srb_message [of Create_Disk "enc_create_request example_create"]]
    by (simp add: header control_srb_transfer)
  show "FromSrb pending_block"
    using FromSrb_message [OF message_block_status [OF set_return_code_message [OF control_srb_message
      [of Create_Disk "enc_create_request example_create"]]], of SRB_STATUS_PENDING STATUS_PENDING]
    by (simp add: header control_srb_transfer set_return_code_def)
qed

lemma example_code [simp]: "srb_control_code (example_control code n) = operation_code code"
  "srb_length (example_control code n) = word_of_nat n"
  by (simp_all add: example_control_def control_header_def)

definition example_labels :: "label list" where
  "example_labels = [Start_Io create_block, Queue_Work 0 True, Advance 0, Advance 0,
     Allocate_Pool 0 (Some (1, \<lambda>_. 7)), Advance 0, Advance 0, Advance 0, Advance 0]"

lemma create_wf: "srb_wf create_block"
proof -
  have "length (enc_srb_io_control (example_control Create_Disk 48)) = 28"
    by (rule srb_io_control_wire.length_enc) (simp add: example_control_def control_header_wf)
  then show ?thesis
    by (simp add: srb_wf_def control_srb_transfer) (simp add: control_srb_def example_srb_def)
qed

lemma example_start: "StartIo create_block (initial_extension 5 True) =
  (Preparing pending_block \<lparr>mc_operation = Create_Disk, mc_identity = zero_operation_request,
     mc_create = example_create, mc_remove = zero_delete_request\<rparr>,
   (initial_extension 5 True)\<lparr>ax_management_busy := True, ax_management_idle := False\<rparr>)"
proof -
  have fn: "sb_function create_block = Fn_Io_Control" by (simp add: control_srb_def example_srb_def)
  have e: "\<not> ax_adapter_stopping (initial_extension 5 True)" "\<not> ax_management_busy (initial_extension 5 True)"
    by (simp_all add: initial_extension_def LunStore_Initialize_def)
  show ?thesis
    using create_FromSrb(1) create_request_read e
    by (simp add: StartIo_def fn WispDiskHandleIoControl_def DispatchControlRequest_def Let_def create_reads
        HandleCreateControl_def prepared_def PrepareSubmission_def BeginManagementLocked_def IsReserved_def
        kConfigureControlCode_def kReadTraceControlCode_def)
qed

definition example_lun :: wispdisk_lun where
  "example_lun = \<lparr>lu_state = Lun_Online, lu_device_id = 1, lu_lun = 0, lu_media_kind = 1,
     lu_requested_drive_letter = 82, lu_size_bytes = 1048576, lu_create_operation_id = 0,
     lu_backing_store = Some 1, lu_active_requests = 0, lu_no_active_requests = True\<rparr>"

definition example_extension :: adapter_extension where
  "example_extension = (initial_extension 5 True)\<lparr>ax_next_device_id := 2, ax_total_allocated_bytes := 1048576,
     ax_luns := (ax_luns (initial_extension 5 True))[0 := example_lun]\<rparr>"

definition example_response :: srb where
  "example_response = WriteCreateResponse example_create STATUS_SUCCESS 1 0 pending_block"

definition example_machine :: machine where
  "example_machine = \<lparr>ma_driver = \<lparr>dr_ext = example_extension,
       dr_pool = [1 \<mapsto> \<lparr>pb_size = 1048576, pb_data = (\<lambda>k. if k < 1048576 then 0 else 7)\<rparr>],
       dr_log = Disk_Committed None 1 0 example_create # (if bus_changed example_response then [Bus_Changed] else [])\<rparr>,
     ma_threads = [Finished example_response], ma_fault = False\<rparr>"

lemma example_worker: "ProcessWorkItem_start pending_block e = Selecting (Legacy_Create pending_block example_create)"
  using create_FromSrb(2) create_request_read
  by (simp add: ProcessWorkItem_start_def Let_def create_reads)

lemma initial_fields [simp]:
  "ax_adapter_stopping (initial_extension inst worker) = False" "ax_management_busy (initial_extension inst worker) = False"
  "ax_management_idle (initial_extension inst worker) = True" "ax_management_worker (initial_extension inst worker) = worker"
  "ax_next_device_id (initial_extension inst worker) = 1" "ax_total_allocated_bytes (initial_extension inst worker) = 0"
  "ax_signature (initial_extension inst worker) = kAdapterExtensionSignature"
  "length (ax_luns (initial_extension inst worker)) = 16" "ax_next_operation_id (initial_extension inst worker) = 1"
  by (simp_all add: initial_extension_def LunStore_Initialize_def)

lemma initial_lun0: "ax_luns (initial_extension inst worker) ! 0 = zero_lun\<lparr>lu_lun := 0, lu_no_active_requests := True\<rparr>"
  using initial_luns [of 0 inst worker] by simp

lemma initial_free: "find_index (\<lambda>l. lu_state l = Lun_Empty) (ax_luns (initial_extension inst worker)) = Some 0"
  by (simp add: find_index_Some initial_lun0 zero_lun_def)

lemma example_fields [simp]:
  "cq_size_bytes example_create = 1048576" "cq_media_kind example_create = 1"
  "cq_requested_drive_letter example_create = 82"
  by (simp_all add: example_create_def)

lemma example_idle:
  "(initial_extension 5 True)\<lparr>ax_next_device_id := n, ax_luns := luns, ax_total_allocated_bytes := t,
     ax_management_busy := False, ax_management_idle := True\<rparr> =
   (initial_extension 5 True)\<lparr>ax_next_device_id := n, ax_total_allocated_bytes := t, ax_luns := luns\<rparr>"
  by (rule adapter_extension.equality) simp_all

lemma example_run: "run_labels example_labels (initial_machine 5) = Some example_machine"
proof -
  have block: "\<lparr>pb_size = 1048576, pb_data = \<lambda>k. if k < 1048576 then 0
      else pb_data \<lparr>pb_size = unat (ucast (1048576 :: u64) :: u32), pb_data = \<lambda>_. 7\<rparr> k\<rparr> =
    \<lparr>pb_size = 1048576, pb_data = \<lambda>k. if k < 1048576 then 0 else (7 :: u8)\<rparr>"
    by (simp cong: if_cong)
  show ?thesis
    unfolding example_labels_def example_machine_def example_response_def example_extension_def
    by (simp add: step_def initial_machine_def initialized_def Let_def resume_def outstanding_def create_wf
        example_start admission_event_def IsReserved_def example_worker SelectAvailableLun_def initial_free
        pool_allocate_def RtlZeroMemory_def CommitNewLun_def initial_lun0 zero_lun_def update_lun_def
        log_event_def after_create_def EndManagementLocked_def kMaximumTotalDiskBytes_def example_idle
        example_lun_def block)
qed

lemma example_reachable: "reachable (initial_machine 5) example_machine"
  by (rule run_labels_reachable [OF example_run])

lemma run_labels_append:
  "run_labels (ls @ ls') m = (case run_labels ls m of None \<Rightarrow> None | Some m' \<Rightarrow> run_labels ls' m')"
  by (induction ls arbitrary: m) (auto split: option.splits)

section \<open>Memory\<close>

text \<open>
  C3. Whatever the clients, StorPort and the scheduler do, the driver never touches memory that is
  not allocated to it (nor frees it twice); every disk has its own block of exactly its size; and
  every block belongs to a disk or to the thread that is about to give it one or to free it.
\<close>

theorem driver_memory_safe:
  assumes "reachable (initial_machine inst) m"
  shows "\<not> ma_fault m \<and> memory_ok (dr_ext (ma_driver m)) (dr_pool (ma_driver m)) (ma_threads m)"
  using safeD(1,3) [OF driver_invariants(1) [OF assms]] by blast

theorem driver_memory_safe_witness:
  "\<not> ma_fault example_machine \<and> memory_ok (dr_ext (ma_driver example_machine)) (dr_pool (ma_driver example_machine))
     (ma_threads example_machine)"
  by (rule driver_memory_safe [OF example_reachable])

text \<open>
  C39. The books are right: the adapter's total is the sum of the sizes of its disks and never more
  than 512 MiB, every disk that is there has a size that a request may ask for, device ids differ
  and are smaller than the next one to be given out, and LUN numbers are positions.
\<close>

theorem driver_accounting:
  assumes "reachable (initial_machine inst) m"
  shows "case dr_ext (ma_driver m) of e \<Rightarrow>
    unat (ax_total_allocated_bytes e) = sum_list (map (\<lambda>l. unat (lu_size_bytes l)) (ax_luns e))
    \<and> unat (ax_total_allocated_bytes e) \<le> 512 * 1024 * 1024
    \<and> (\<forall>i < 16. lu_lun (ax_luns e ! i) = word_of_nat i)
    \<and> (\<forall>i < 16. lu_state (ax_luns e ! i) \<noteq> Lun_Empty \<longrightarrow> disk_size_ok (lu_size_bytes (ax_luns e ! i))
         \<and> id_below (lu_device_id (ax_luns e ! i)) (ax_next_device_id e))
    \<and> (\<forall>i < 16. \<forall>j < 16. lu_state (ax_luns e ! i) \<noteq> Lun_Empty \<longrightarrow>
         lu_device_id (ax_luns e ! i) = lu_device_id (ax_luns e ! j) \<longrightarrow> i = j)"
proof -
  note luns = luns_okD [OF safeD(2) [OF driver_invariants(1) [OF assms]]]
  from luns(2) have entry: "i < 16 \<Longrightarrow> lu_state (ax_luns (dr_ext (ma_driver m)) ! i) \<noteq> Lun_Empty \<Longrightarrow>
      lu_device_id (ax_luns (dr_ext (ma_driver m)) ! i) \<noteq> 0" for i
    by (fastforce simp: lun_ok_def id_below_def)
  moreover have "\<forall>i < 16. \<forall>j < 16. lu_state (ax_luns (dr_ext (ma_driver m)) ! i) \<noteq> Lun_Empty \<longrightarrow>
      lu_device_id (ax_luns (dr_ext (ma_driver m)) ! i) = lu_device_id (ax_luns (dr_ext (ma_driver m)) ! j) \<longrightarrow> i = j"
    using luns(3) entry by blast
  ultimately show ?thesis
    using luns(2) luns(4,5) by (simp add: lun_ok_def used_bytes_def)
qed

theorem driver_accounting_witness:
  "unat (ax_total_allocated_bytes example_extension) = sum_list (map (\<lambda>l. unat (lu_size_bytes l)) (ax_luns example_extension))
    \<and> unat (ax_total_allocated_bytes example_extension) \<le> 512 * 1024 * 1024
    \<and> disk_size_ok (lu_size_bytes (ax_luns example_extension ! 0))
    \<and> id_below (lu_device_id (ax_luns example_extension ! 0)) (ax_next_device_id example_extension)
    \<and> lu_device_id (ax_luns example_extension ! 0) \<noteq> lu_device_id (ax_luns example_extension ! 1)"
proof -
  have e: "dr_ext (ma_driver example_machine) = example_extension" by (simp add: example_machine_def)
  have "lu_state (ax_luns example_extension ! 0) \<noteq> Lun_Empty"
    by (simp add: example_extension_def example_lun_def)
  moreover have "(0 :: nat) < 16" "(1 :: nat) < 16" "(0 :: nat) \<noteq> 1" by simp_all
  ultimately show ?thesis
    using driver_accounting [OF example_reachable] unfolding e by blast
qed

section \<open>Exclusion\<close>

text \<open>
  C17. Mutations exclude each other: at any moment one thread at most is between its admission and
  its end, there is one exactly when the adapter is marked busy, and the idle event that the
  shutdown waits for says the opposite.
\<close>

theorem mutations_are_exclusive:
  assumes "reachable (initial_machine inst) m"
  shows "count manager (ma_threads m) = (if ax_management_busy (dr_ext (ma_driver m)) then 1 else 0)
    \<and> ax_management_idle (dr_ext (ma_driver m)) = (\<not> ax_management_busy (dr_ext (ma_driver m)))"
  using safeD(5) [OF driver_invariants(1) [OF assms]] by (simp add: admission_ok_def)

theorem mutations_are_exclusive_witness:
  "count manager (ma_threads example_machine) =
     (if ax_management_busy (dr_ext (ma_driver example_machine)) then 1 else 0)
    \<and> ax_management_idle (dr_ext (ma_driver example_machine)) = (\<not> ax_management_busy (dr_ext (ma_driver example_machine)))"
  by (rule mutations_are_exclusive [OF example_reachable])

section \<open>Shutdown\<close>

lemma stopped_inflight:
  assumes safe: "safe m" and j: "j < length (ma_threads m)" "ma_threads m ! j = Stopped"
    and k: "k < length (ma_threads m)"
  shows "inflight (ma_threads m ! k) = None"
proof (rule ccontr)
  assume owner: "inflight (ma_threads m ! k) \<noteq> None"
  have "\<not> ax_management_busy (dr_ext (ma_driver m))"
    using safeD(7) [OF safe j(1)] j(2) by (simp add: shut_def)
  with busy_iff_manager [OF safe] k have "\<not> manager (ma_threads m ! k)" by blast
  with owner have "stopper (ma_threads m ! k)"
    by (cases "ma_threads m ! k" rule: inflight.cases) (auto elim: manager.elims, (case_tac who; simp)?)
  with count_unique [of stopper "ma_threads m" j k] safeD(5) [OF safe] j k have "j = k"
    by (simp add: admission_ok_def)
  with owner j show False by simp
qed

text \<open>
  C19. When the adapter's resources have been released, nothing is left: no LUN has a disk, and the
  pool is empty, whatever requests and mutations were under way when the shutdown began.
\<close>

theorem stopped_adapter_leaves_nothing:
  assumes "reachable (initial_machine inst) m" and "Stopped \<in> set (ma_threads m)"
  shows "(\<forall>i < 16. lu_state (ax_luns (dr_ext (ma_driver m)) ! i) = Lun_Empty
      \<and> lu_active_requests (ax_luns (dr_ext (ma_driver m)) ! i) = 0)
    \<and> ax_total_allocated_bytes (dr_ext (ma_driver m)) = 0 \<and> dr_pool (ma_driver m) = Map.empty"
proof -
  let ?e = "dr_ext (ma_driver m)"
  note safe = driver_invariants(1) [OF assms(1)]
  from assms(2) obtain j where j: "j < length (ma_threads m)" "ma_threads m ! j = Stopped"
    by (auto simp: in_set_conv_nth)
  from safeD(7) [OF safe j(1)] j(2) have empty: "lu_state (ax_luns ?e ! i) = Lun_Empty" if "i < 16" for i
    using that by simp
  note luns = luns_okD [OF safeD(2) [OF safe]]
  have entry: "lu_active_requests (ax_luns ?e ! i) = 0 \<and> lu_backing_store (ax_luns ?e ! i) = None
      \<and> lu_size_bytes (ax_luns ?e ! i) = 0" if "i < 16" for i
    using luns(2) [OF that] empty [OF that] by (simp add: lun_ok_def)
  then have "used_bytes (ax_luns ?e) = 0"
    unfolding used_bytes_def using luns(1) by (auto simp: sum_list_eq_0_iff in_set_conv_nth)
  then have "ax_total_allocated_bytes ?e = 0" using luns(4) by (simp add: unat_eq_0)
  moreover have "dr_pool (ma_driver m) p = None" for p
    using safeD(3) [OF safe] entry stopped_inflight [OF safe j]
    unfolding memory_ok_def bex_set_nth by (metis option.distinct(1))
  ultimately show ?thesis using empty entry by auto
qed

definition stop_labels :: "label list" where
  "stop_labels = [Free_Resources, Advance 1, Advance 1, Advance 1, Advance 1, Advance 1, Advance 1, Advance 1,
     Advance 1, Advance 1]"

definition other_luns :: "wispdisk_lun list" where
  "other_luns = map (\<lambda>i. zero_lun\<lparr>lu_lun := word_of_nat i, lu_no_active_requests := True\<rparr>) [1..<16]"

lemma example_luns: "ax_luns example_extension = example_lun # other_luns"
proof (rule nth_equalityI)
  fix i assume "i < length (ax_luns example_extension)"
  then have "i < 16" by (simp add: example_extension_def)
  then show "ax_luns example_extension ! i = (example_lun # other_luns) ! i"
    using initial_luns [of i 5 True] by (cases i) (simp_all add: example_extension_def other_luns_def)
qed (simp add: example_extension_def other_luns_def)

lemma other_luns_empty:
  "map (\<lambda>l. if lu_state l = Lun_Online then l\<lparr>lu_state := Lun_Stopping\<rparr> else l) other_luns = other_luns"
  "find_index (\<lambda>l. lu_state l = Lun_Stopping) other_luns = None"
  by (simp_all add: other_luns_def find_index_None zero_lun_def)

lemma stop_run: "\<exists>m. run_labels stop_labels example_machine = Some m \<and> Stopped \<in> set (ma_threads m)"
proof -
  have fields: "ax_signature example_extension = kAdapterExtensionSignature" "ax_management_idle example_extension"
    by (simp_all add: example_extension_def)
  have lun: "lu_state example_lun = Lun_Online" "lu_device_id example_lun = 1" "lu_backing_store example_lun = Some 1"
    "lu_no_active_requests example_lun"
    by (simp_all add: example_lun_def)
  show ?thesis
    unfolding stop_labels_def
    by (simp add: step_def initialized_def resume_def Let_def example_machine_def
      CloseAdmission_def MarkAllLunsStopping_def FirstStoppingLun_def example_luns fields lun other_luns_empty
      DetachBackingStore_def update_lun_def StorPortFreePool_def log_event_def)
qed

theorem stopped_adapter_leaves_nothing_witness:
  "\<exists>m. run_labels stop_labels example_machine = Some m \<and> Stopped \<in> set (ma_threads m)
    \<and> (\<forall>i < 16. lu_state (ax_luns (dr_ext (ma_driver m)) ! i) = Lun_Empty
      \<and> lu_active_requests (ax_luns (dr_ext (ma_driver m)) ! i) = 0)
    \<and> ax_total_allocated_bytes (dr_ext (ma_driver m)) = 0 \<and> dr_pool (ma_driver m) = Map.empty"
proof -
  from stop_run obtain m where m: "run_labels stop_labels example_machine = Some m" "Stopped \<in> set (ma_threads m)"
    by blast
  from stopped_adapter_leaves_nothing
    [OF reachable_trans [OF run_labels_reachable [OF m(1)] example_reachable] m(2)] m
  show ?thesis by blast
qed

section \<open>A new disk\<close>

lemma advance_logs_commit:
  assumes "advance th d = Step th' d'" "dr_log d' = dr_log d @ [Disk_Committed opid dev i q]"
  shows "\<exists>w p. th = Committing w i p \<and> opid = work_operation w \<and> q = work_request w
    \<and> (\<exists>e'. CommitNewLun q i p (dr_ext d) = Ok (dev, e') \<and> d' = log_event (Disk_Committed opid dev i q) (with_ext d e'))"
  using assms
  by (cases th) (auto simp: log_event_def Let_def split: option.splits sum.splits prod.splits if_splits remover.splits)

lemma admission_not_commit:
  "dr_log (admission_event e r (with_ext d e')) \<noteq> dr_log d @ [Disk_Committed opid dev i q]"
  by (simp add: admission_event_def log_event_def split: prod.splits thread.splits)

lemma step_logs_commit:
  assumes "step l m = Some m'"
    and "dr_log (ma_driver m') = dr_log (ma_driver m) @ [Disk_Committed opid dev i q]"
  shows "\<exists>k w p e'. k < length (ma_threads m) \<and> ma_threads m ! k = Committing w i p
    \<and> opid = work_operation w \<and> q = work_request w \<and> CommitNewLun q i p (dr_ext (ma_driver m)) = Ok (dev, e')
    \<and> ma_driver m' = log_event (Disk_Committed opid dev i q) (with_ext (ma_driver m) e')"
proof -
  have adv: ?thesis if "k < length (ma_threads m)" "resume k (advance (ma_threads m ! k) (ma_driver m)) m = Some m'" for k
    using that assms(2) advance_logs_commit [of "ma_threads m ! k" "ma_driver m" _ _ opid dev i q]
    by (cases "advance (ma_threads m ! k) (ma_driver m)") (auto simp: resume_def)
  have other: False if "resume k p m = Some m'"
    "p = queue_work a (ma_threads m ! k) (ma_driver m) \<or> p = allocate_pool b (ma_threads m ! k) (ma_driver m)" for k p a b
    using that assms(2)
    by (cases "ma_threads m ! k"; cases b) (auto simp: resume_def Let_def split: if_splits option.splits)
  show ?thesis
  proof (cases l)
    case (Start_Io b)
    with assms show ?thesis
      by (auto simp: step_def Let_def admission_not_commit split: if_splits)
  qed (use assms adv other in \<open>fastforce simp: step_def Let_def split: if_splits\<close>)+
qed

text \<open>
  C18. A disk is created only from a validated request, on a LUN that was empty, under a device id
  that no disk has had before; it comes online with the requested size and every byte of it zero,
  whatever the memory it was given held.
\<close>

theorem new_disk_is_empty_and_new:
  assumes "reachable (initial_machine inst) m" and "step l m = Some m'"
    and "dr_log (ma_driver m') = dr_log (ma_driver m) @ [Disk_Committed opid dev i q]"
  shows "i < 16 \<and> create_parameters_ok q \<and> lu_state (ax_luns (dr_ext (ma_driver m)) ! i) = Lun_Empty
    \<and> (\<forall>j < 16. lu_device_id (ax_luns (dr_ext (ma_driver m)) ! j) \<noteq> dev)
    \<and> Disk_Removed dev \<notin> set (dr_log (ma_driver m))
    \<and> (case ax_luns (dr_ext (ma_driver m')) ! i of lun \<Rightarrow>
         lu_state lun = Lun_Online \<and> lu_device_id lun = dev \<and> lu_size_bytes lun = cq_size_bytes q
         \<and> (\<exists>p blk. lu_backing_store lun = Some p \<and> dr_pool (ma_driver m') p = Some blk
              \<and> pb_size blk = unat (cq_size_bytes q) \<and> (\<forall>k < pb_size blk. pb_data blk k = 0)))"
proof -
  let ?e = "dr_ext (ma_driver m)"
  note safe = driver_invariants(1) [OF assms(1)] and rec = driver_invariants(2) [OF assms(1)]
  from step_logs_commit [OF assms(2,3)] obtain k w p e' where k: "k < length (ma_threads m)"
    "ma_threads m ! k = Committing w i p" and q: "q = work_request w"
    and run: "CommitNewLun q i p ?e = Ok (dev, e')"
    and m': "ma_driver m' = log_event (Disk_Committed opid dev i q) (with_ext (ma_driver m) e')" by blast
  from safeD(7) [OF safe k(1)] k(2) q
  have ok: "creates w" "work_ok w" "lun_free q i ?e" and zero: "\<exists>blk. dr_pool (ma_driver m) p = Some blk
    \<and> pb_size blk = unat (cq_size_bytes q) \<and> (\<forall>k < pb_size blk. pb_data blk k = 0)" by auto
  note eff = CommitNewLun_Ok [OF run]
  note luns = luns_okD [OF safeD(2) [OF safe]]
  have "create_parameters_ok q" using ok(1,2) q by (cases w) auto
  moreover have "lu_device_id (ax_luns ?e ! j) \<noteq> dev" if "j < 16" for j
    using luns(2) [OF that] eff by (auto simp: lun_ok_def split: if_splits)
  moreover have "Disk_Removed dev \<notin> set (dr_log (ma_driver m))"
    using records_okD(1) [OF rec] eff by (auto simp: table_ok_def)
  ultimately show ?thesis
    using ok(3) eff luns(1) zero m' by (auto simp: lun_free_def log_event_def)
qed

definition committing_machine :: machine where
  "committing_machine = \<lparr>ma_driver = \<lparr>dr_ext = (initial_extension 5 True)\<lparr>ax_management_busy := True,
         ax_management_idle := False\<rparr>,
       dr_pool = [1 \<mapsto> \<lparr>pb_size = 1048576, pb_data = (\<lambda>k. if k < 1048576 then 0 else 7)\<rparr>], dr_log = []\<rparr>,
     ma_threads = [Committing (Legacy_Create pending_block example_create) 0 1], ma_fault = False\<rparr>"

lemma committing_run: "run_labels (take 5 example_labels) (initial_machine 5) = Some committing_machine"
proof -
  have block: "\<lparr>pb_size = 1048576, pb_data = \<lambda>k. if k < 1048576 then 0
      else pb_data \<lparr>pb_size = unat (ucast (1048576 :: u64) :: u32), pb_data = \<lambda>_. 7\<rparr> k\<rparr> =
    \<lparr>pb_size = 1048576, pb_data = \<lambda>k. if k < 1048576 then 0 else (7 :: u8)\<rparr>"
    by (simp cong: if_cong)
  show ?thesis
    unfolding example_labels_def committing_machine_def
    by (simp add: step_def initial_machine_def initialized_def Let_def resume_def outstanding_def create_wf
        example_start admission_event_def IsReserved_def example_worker SelectAvailableLun_def initial_free
        pool_allocate_def RtlZeroMemory_def kMaximumTotalDiskBytes_def block)
qed

lemma committing_machine_step: "\<exists>m'. step (Advance 0) committing_machine = Some m'
  \<and> dr_log (ma_driver m') = dr_log (ma_driver committing_machine) @ [Disk_Committed None 1 0 example_create]"
  by (simp add: step_def Let_def committing_machine_def resume_def CommitNewLun_def initial_lun0 zero_lun_def
      log_event_def)

theorem new_disk_is_empty_and_new_witness:
  "\<exists>m'. step (Advance 0) committing_machine = Some m'
    \<and> (0 < (16 :: nat) \<and> create_parameters_ok example_create
    \<and> lu_state (ax_luns (dr_ext (ma_driver committing_machine)) ! 0) = Lun_Empty
    \<and> (\<forall>j < 16. lu_device_id (ax_luns (dr_ext (ma_driver committing_machine)) ! j) \<noteq> 1)
    \<and> Disk_Removed 1 \<notin> set (dr_log (ma_driver committing_machine))
    \<and> (case ax_luns (dr_ext (ma_driver m')) ! 0 of lun \<Rightarrow>
         lu_state lun = Lun_Online \<and> lu_device_id lun = 1 \<and> lu_size_bytes lun = cq_size_bytes example_create
         \<and> (\<exists>p blk. lu_backing_store lun = Some p \<and> dr_pool (ma_driver m') p = Some blk
              \<and> pb_size blk = unat (cq_size_bytes example_create) \<and> (\<forall>k < pb_size blk. pb_data blk k = 0))))"
proof -
  from committing_machine_step obtain m' where m': "step (Advance 0) committing_machine = Some m'"
    "dr_log (ma_driver m') = dr_log (ma_driver committing_machine) @ [Disk_Committed None 1 0 example_create]" by blast
  from new_disk_is_empty_and_new [OF run_labels_reachable [OF committing_run] m'] m'(1) show ?thesis by blast
qed

section \<open>Every request is answered\<close>



end
