(* ===== verification/Driver_Operations.thy ===== *)
theory Driver_Operations
  imports Driver_Guarantees
begin

text \<open>
  What the clients of reserved operations can rely on, over all runs of the driver, and a run in
  which a disk is reserved, created and acknowledged.
\<close>

section \<open>A reserved creation\<close>

lemma answer_of_WriteOperationResponse:
  assumes ok: "control_ok b" and fn: "sb_function b = Fn_Io_Control"
    and code: "srb_control_code (io_control b) \<in> operation_codes" and room: "64 \<le> unat (srb_length (io_control b))"
  shows "answer_of (WriteOperationResponse result corr b) =
    Some (operation_response_of (srb_control_code (io_control b)) result corr)"
proof -
  let ?r = "operation_response_of (srb_control_code (io_control b)) result corr"
  have len: "length (enc_operation_response ?r) = 64" by (simp add: operation_response_wire.length_enc)
  have "sb_data_transfer_length (WriteOperationResponse result corr b) = word_of_nat 92"
    using room len by (simp add: WriteOperationResponse_def WriteResponse_def)
  with WriteResponse_reads [OF ok, of "enc_operation_response ?r" STATUS_SUCCESS] len room fn code
  show ?thesis
    by (simp add: answer_of_def WriteOperationResponse_def operation_response_wire.dec_enc)
qed

lemma ReadOperationRequest_Ok:
  assumes "message_block (example_control code 996) msg b" "length msg = 996"
    and "24 \<le> n" "n \<le> 64" "rq_struct_size (dec_request_header msg) = word_of_nat n"
    and "rq_protocol_version (dec_request_header msg) = PROTOCOL_VERSION"
    and "rq_operation (dec_request_header msg) = operation_code code" "rq_flags (dec_request_header msg) = 0"
  shows "ReadOperationRequest dec n z b = Ok (dec msg, dec_request_header msg)"
  using assms message_block_reads [OF assms(1)]
  by (simp add: ReadOperationRequest_def ReadRequest_def ReadAndValidateRequestHeader_def Let_def)

definition request_of :: "operation \<Rightarrow> nat \<Rightarrow> u64 \<Rightarrow> request_header" where
  "request_of code n corr = \<lparr>rq_struct_size = word_of_nat n, rq_protocol_version = PROTOCOL_VERSION,
     rq_operation = operation_code code, rq_flags = 0, rq_correlation_id = corr\<rparr>"

definition example_reserve :: reserve_request where
  "example_reserve = \<lparr>rr_header = request_of Reserve 32 6, rr_mutation = operation_code Create_Disk, rr_reserved = 0\<rparr>"

definition example_reserved :: reserved_create_request where
  "example_reserved = \<lparr>rc_operation = \<lparr>oq_header = request_of Create_Reserved 64 7, oq_adapter_instance = 5,
       oq_operation_id = 1\<rparr>,
     rc_size_bytes = 1048576, rc_logical_sector_size = 512, rc_media_kind = 1, rc_requested_drive_letter = 82,
     rc_reserved16 = 0, rc_reserved32 = 0\<rparr>"

text \<open>The client sends every request in a control buffer of 1024 bytes.\<close>

definition padded :: "u8 list \<Rightarrow> u8 list" where
  "padded msg = msg @ replicate (996 - length msg) 0"

lemma length_padded [simp]: "length msg \<le> 996 \<Longrightarrow> length (padded msg) = 996"
  by (simp add: padded_def)

abbreviation version_block :: srb where
  "version_block \<equiv> control_srb Query_Version (padded (enc_request_header (request_of Query_Version 24 5)))"

abbreviation reserve_block :: srb where
  "reserve_block \<equiv> control_srb Reserve (padded (enc_reserve_request example_reserve))"

abbreviation reserved_block :: srb where
  "reserved_block \<equiv> control_srb Create_Reserved (padded (enc_reserved_create_request example_reserved))"

abbreviation working_block :: srb where
  "working_block \<equiv> (set_return_code STATUS_PENDING reserved_block)\<lparr>sb_srb_status := SRB_STATUS_PENDING\<rparr>"

lemma control_srb_ok:
  assumes "length msg = 996"
  shows "control_ok (control_srb code msg)"
proof -
  have "length (enc_srb_io_control (example_control code 996)) = 28"
    by (rule srb_io_control_wire.length_enc) (simp add: example_control_def control_header_wf)
  then have "srb_wf (control_srb code msg)"
    using assms by (simp add: srb_wf_def control_srb_transfer) (simp add: control_srb_def example_srb_def)
  moreover have "FromSrb (control_srb code msg)"
    using FromSrb_message [OF control_srb_message, of code msg] assms
    by (simp add: control_srb_transfer) (simp add: example_control_def control_header_def)
  ultimately show ?thesis by (simp add: control_ok_def)
qed

lemma reserve_message: "message_block (example_control Reserve 996) (padded (enc_reserve_request example_reserve)) reserve_block"
  using control_srb_message [of Reserve "padded (enc_reserve_request example_reserve)"] by simp

lemma reserved_message: "message_block (example_control Create_Reserved 996) (padded (enc_reserved_create_request example_reserved)) reserved_block"
  using control_srb_message [of Create_Reserved "padded (enc_reserved_create_request example_reserved)"] by simp

lemma reserve_read: "ReadOperationRequest dec_reserve_request 32 z reserve_block = Ok (example_reserve, request_of Reserve 32 6)"
proof -
  have msg: "dec_reserve_request (padded (enc_reserve_request example_reserve)) = example_reserve"
    unfolding padded_def by (rule reserve_request_wire.dec_enc) simp
  have header: "dec_request_header (padded (enc_reserve_request example_reserve)) = request_of Reserve 32 6"
    by (simp add: padded_def enc_reserve_request_def request_header_wire.dec_enc example_reserve_def)
  show ?thesis
    using ReadOperationRequest_Ok [OF reserve_message, of 32 dec_reserve_request z]
    by (simp add: msg header) (simp add: request_of_def)
qed

lemma reserved_read: "ReadOperationRequest dec_reserved_create_request 64 z reserved_block =
  Ok (example_reserved, request_of Create_Reserved 64 7)"
proof -
  have msg: "dec_reserved_create_request (padded (enc_reserved_create_request example_reserved)) = example_reserved"
    unfolding padded_def by (rule reserved_create_request_wire.dec_enc) simp
  have header: "dec_request_header (padded (enc_reserved_create_request example_reserved)) = request_of Create_Reserved 64 7"
    by (simp add: padded_def enc_reserved_create_request_def enc_operation_request_def request_header_wire.dec_enc
        example_reserved_def)
  show ?thesis
    using ReadOperationRequest_Ok [OF reserved_message, of 64 dec_reserved_create_request z]
    by (simp add: msg header) (simp add: request_of_def)
qed

definition reserved_create :: create_request where
  "reserved_create = create_parameters_of example_reserved"

lemma reserved_parameters:
  "ValidateCreateRequest (enc_create_request (create_parameters_of example_reserved)) 48 = (STATUS_SUCCESS, reserved_create)"
proof -
  have "dec_request_header (enc_create_request reserved_create) = cq_header reserved_create"
    by (simp add: enc_create_request_def request_header_wire.dec_enc)
  moreover have "dec_create_request (enc_create_request reserved_create) = reserved_create"
    using create_request_wire.dec_enc [of reserved_create "[]"] by simp
  ultimately show ?thesis
    unfolding reserved_create_def [symmetric]
    by (simp add: ValidateCreateRequest_def ReadRequest_def ReadAndValidateRequestHeader_def)
      (simp add: reserved_create_def create_parameters_of_def example_reserved_def request_of_def
      create_parameters_ok_def kLogicalSectorSize_def kMinimumDiskSize_def kMaximumDiskSize_def)
qed

definition reserved_record :: operation_record where
  "reserved_record = fresh_record 1 (operation_code Create_Disk)"

definition reserved_extension :: adapter_extension where
  "reserved_extension = (initial_extension 5 True)\<lparr>ax_next_operation_id := 2,
     ax_operations := reserved_record # replicate 127 zero_record\<rparr>"

lemma initial_operations: "ax_operations (initial_extension inst worker) = zero_record # replicate 127 zero_record"
proof -
  have "replicate 128 zero_record = zero_record # replicate 127 zero_record"
    using replicate_Suc [of 127 zero_record] by simp
  then show ?thesis by (simp add: initial_extension_def LunStore_Initialize_def kMaximumOperationCount_def)
qed

lemma initial_instance [simp]: "ax_adapter_instance (initial_extension inst worker) = inst"
  by (simp add: initial_extension_def LunStore_Initialize_def)

lemma reserve_block_handled: "HandleReserveOperation reserve_block (initial_extension 5 True) =
  (WriteOperationResponse (CopyResultLocked reserved_record reserved_extension) 6 reserve_block, reserved_extension)"
proof -
  have "op_id zero_record = 0" by (simp add: zero_record_def)
  then show ?thesis
    by (simp add: HandleReserveOperation_def reserve_read)
      (simp add: example_reserve_def request_of_def ReserveOperation_def Let_def initial_operations
        update_record_def reserved_record_def reserved_extension_def CopyResultLocked_def)
qed

lemma reserve_start: "StartIo reserve_block (initial_extension 5 True) =
  (Finished (complete_control (WriteOperationResponse (CopyResultLocked reserved_record reserved_extension) 6 reserve_block)),
   reserved_extension)"
proof -
  have fn: "sb_function reserve_block = Fn_Io_Control" by (simp add: control_srb_def example_srb_def)
  have "FromSrb reserve_block" using control_srb_ok by (simp add: control_ok_def)
  then show ?thesis
    by (simp add: StartIo_def fn WispDiskHandleIoControl_def DispatchControlRequest_def Let_def reserve_block_handled
        message_block_reads [OF reserve_message] kConfigureControlCode_def kReadTraceControlCode_def)
qed

lemma version_start: "StartIo version_block e = (Finished (complete_control (HandleQueryVersion version_block)), e)"
proof -
  have fn: "sb_function version_block = Fn_Io_Control" by (simp add: control_srb_def example_srb_def)
  have "FromSrb version_block" using control_srb_ok by (simp add: control_ok_def)
  moreover have "message_block (example_control Query_Version 996) (padded (enc_request_header (request_of Query_Version 24 5))) version_block"
    using control_srb_message [of Query_Version "padded (enc_request_header (request_of Query_Version 24 5))"] by simp
  note reads = message_block_reads(1) [OF this]
  ultimately show ?thesis
    by (simp add: StartIo_def fn WispDiskHandleIoControl_def DispatchControlRequest_def Let_def reads
        kConfigureControlCode_def kReadTraceControlCode_def)
qed

definition pending_record :: operation_record where
  "pending_record = reserved_record\<lparr>op_create := reserved_create, op_delete := zero_delete_request,
     op_state := state_code State_Pending\<rparr>"

definition pending_extension :: adapter_extension where
  "pending_extension = reserved_extension\<lparr>ax_management_busy := True, ax_management_idle := False,
     ax_operations := pending_record # replicate 127 zero_record\<rparr>"

definition reserved_command :: mutation_command where
  "reserved_command = \<lparr>mc_operation = Create_Reserved, mc_identity = rc_operation example_reserved,
     mc_create = reserved_create, mc_remove = zero_delete_request\<rparr>"

lemma reserved_fields [simp]:
  "op_id reserved_record = 1" "op_state reserved_record = state_code State_Reserved"
  "op_mutation reserved_record = operation_code Create_Disk" "op_device_id reserved_record = 0"
  "ax_adapter_stopping reserved_extension = False" "ax_management_busy reserved_extension = False"
  "ax_adapter_instance reserved_extension = 5" "ax_operations reserved_extension = reserved_record # replicate 127 zero_record"
  "op_id pending_record = 1" "op_state pending_record = state_code State_Pending"
  "op_mutation pending_record = operation_code Create_Disk"
  "op_create pending_record = reserved_create"
  "ax_adapter_stopping pending_extension = False" "ax_adapter_instance pending_extension = 5"
  "ax_operations pending_extension = pending_record # replicate 127 zero_record"
  "cq_size_bytes reserved_create = 1048576" "cq_media_kind reserved_create = 1"
  "cq_requested_drive_letter reserved_create = 82"
  by (simp_all add: reserved_record_def fresh_record_def zero_record_def reserved_extension_def pending_record_def
      pending_extension_def reserved_create_def create_parameters_of_def example_reserved_def)

lemma command_fields [simp]:
  "mc_operation reserved_command = Create_Reserved" "mc_create reserved_command = reserved_create"
  "mc_remove reserved_command = zero_delete_request" "oq_adapter_instance (mc_identity reserved_command) = 5"
  "oq_operation_id (mc_identity reserved_command) = 1" "Mutation reserved_command = operation_code Create_Disk"
  by (simp_all add: reserved_command_def example_reserved_def Mutation_def)

definition admitted_extension :: adapter_extension where
  "admitted_extension = reserved_extension\<lparr>ax_management_busy := True, ax_management_idle := False\<rparr>"

lemma reserved_bound: "BindOperationLocked reserved_command admitted_extension = Ok (Accepted pending_extension)"
proof -
  have e: "ax_operations admitted_extension = reserved_record # replicate 127 zero_record"
    "ax_adapter_instance admitted_extension = 5" by (simp_all add: admitted_extension_def)
  have r: "pending_record = reserved_record\<lparr>op_create := reserved_create, op_delete := zero_delete_request,
      op_device_id := op_device_id reserved_record, op_state := state_code State_Pending\<rparr>"
    unfolding pending_record_def by (rule operation_record.equality) simp_all
  have "find_index (\<lambda>r. op_id r = 1) (ax_operations admitted_extension) = Some 0" unfolding e by simp
  then show ?thesis
    unfolding BindOperationLocked_def FindOperationLocked_def update_record_def pending_extension_def r
    by (simp add: e Let_def) (simp add: admitted_extension_def)
qed

lemma reserved_prepared:
  "prepared reserved_command reserved_block reserved_extension = Io_Pending working_block reserved_command pending_extension"
proof -
  have "BeginManagementLocked reserved_extension = Ok admitted_extension"
    by (simp add: BeginManagementLocked_def admitted_extension_def)
  moreover have "IsReserved reserved_command" by (simp add: IsReserved_def)
  ultimately show ?thesis
    unfolding prepared_def PrepareSubmission_def Let_def by (simp add: reserved_bound)
qed

lemma reserved_start: "StartIo reserved_block reserved_extension = (Preparing working_block reserved_command, pending_extension)"
proof -
  have fn: "sb_function reserved_block = Fn_Io_Control" by (simp add: control_srb_def example_srb_def)
  have "FromSrb reserved_block" using control_srb_ok by (simp add: control_ok_def)
  then show ?thesis
    by (simp add: StartIo_def fn WispDiskHandleIoControl_def DispatchControlRequest_def Let_def
        message_block_reads [OF reserved_message] kConfigureControlCode_def kReadTraceControlCode_def
        HandleReservedCreateControl_def reserved_read reserved_parameters
        reserved_command_def [symmetric] reserved_prepared)
qed

abbreviation reserved_work :: work where
  "reserved_work \<equiv> Reserved_Work working_block (rc_operation example_reserved) pending_record"

lemma pending_block_ok:
  assumes len: "length msg = 996" and w: "w = (set_return_code STATUS_PENDING (control_srb code msg))\<lparr>sb_srb_status := s\<rparr>"
  shows "control_ok w" "io_control w = (example_control code 996)\<lparr>srb_return_code := STATUS_PENDING\<rparr>"
    "payload w = msg" "sb_function w = Fn_Io_Control"
    "message_block ((example_control code 996)\<lparr>srb_return_code := STATUS_PENDING\<rparr>) msg w"
proof -
  let ?b = "control_srb code msg"
  have old: "message_block (example_control code 996) msg ?b"
    using control_srb_message [of code msg] len by simp
  show msg: "message_block ((example_control code 996)\<lparr>srb_return_code := STATUS_PENDING\<rparr>) msg w"
    unfolding w by (rule message_block_status [OF set_return_code_message [OF old]])
  show "io_control w = (example_control code 996)\<lparr>srb_return_code := STATUS_PENDING\<rparr>" "payload w = msg"
    using message_block_reads [OF msg] by simp_all
  show "sb_function w = Fn_Io_Control"
    by (simp add: w set_return_code_def control_srb_def example_srb_def)
  have "length (enc_srb_io_control c) = 28" if "length (srb_signature c) = 8" for c
    by (rule srb_io_control_wire.length_enc) (rule that)
  with msg old message_block_reads(3) [OF msg] message_block_reads(3) [OF old]
  have "length (srb_data w) = length (srb_data ?b)" by (simp add: message_block_def)
  moreover have "sb_data_transfer_length w = sb_data_transfer_length ?b" "sb_cdb w = sb_cdb ?b" "sb_sense_buffer w = None"
    by (simp_all add: w set_return_code_def control_srb_def example_srb_def)
  ultimately show "control_ok w"
    using control_srb_ok [OF len, of code] msg old FromSrb_message [OF msg] FromSrb_message [OF old]
      message_block_reads(3) [OF msg] message_block_reads(3) [OF old]
    by (simp add: control_ok_def srb_wf_def message_block_def)
qed

lemmas working_ok = pending_block_ok [where msg = "padded (enc_reserved_create_request example_reserved)" and code = Create_Reserved
  and s = SRB_STATUS_PENDING, simplified]

lemma working_start: "ProcessWorkItem_start working_block pending_extension = Selecting reserved_work"
proof -
  have "dec_operation_request (padded (enc_reserved_create_request example_reserved)) = rc_operation example_reserved"
    by (simp add: padded_def enc_reserved_create_request_def operation_request_wire.dec_enc)
  moreover have "SnapshotPendingOperation (rc_operation example_reserved) working_block pending_extension = Ok pending_record"
    by (simp add: SnapshotPendingOperation_def FindOperationLocked_def Let_def) (simp add: example_reserved_def)
  ultimately show ?thesis
    using working_ok(1) by (simp add: ProcessWorkItem_start_def Let_def working_ok(2,3) control_ok_def)
qed

definition reserved_lun :: wispdisk_lun where
  "reserved_lun = example_lun\<lparr>lu_create_operation_id := 1\<rparr>"

definition succeeded_record :: operation_record where
  "succeeded_record = pending_record\<lparr>op_device_id := 1, op_lun := 0, op_result := STATUS_SUCCESS,
     op_state := state_code State_Succeeded\<rparr>"

definition committed_extension :: adapter_extension where
  "committed_extension = pending_extension\<lparr>ax_next_device_id := 2, ax_total_allocated_bytes := 1048576,
     ax_luns := (ax_luns (initial_extension 5 True))[0 := example_lun]\<rparr>"

definition succeeded_extension :: adapter_extension where
  "succeeded_extension = committed_extension\<lparr>ax_luns := (ax_luns (initial_extension 5 True))[0 := reserved_lun],
     ax_operations := succeeded_record # replicate 127 zero_record\<rparr>"

definition succeeded_response :: operation_response where
  "succeeded_response = operation_response_of (operation_code Create_Reserved)
     (CopyResultLocked succeeded_record succeeded_extension) 7"

definition answered_block :: srb where
  "answered_block = WriteOperationResponse (CopyResultLocked succeeded_record succeeded_extension) 7 working_block"

lemma answered_block_answer: "answer_of answered_block = Some succeeded_response"
  unfolding answered_block_def succeeded_response_def
  using answer_of_WriteOperationResponse [OF working_ok(1,4)] by (simp add: working_ok(2) operation_codes_def)

lemma committed_fields [simp]:
  "ax_operations committed_extension = pending_record # replicate 127 zero_record"
  "ax_luns committed_extension = (ax_luns (initial_extension 5 True))[0 := example_lun]"
  by (simp_all add: committed_extension_def)

lemma published: "after_create reserved_work STATUS_SUCCESS (Some (1, 0)) committed_extension =
  (answered_block, succeeded_extension)"
proof -
  have bound: "BindCreateOperationLocked 0 1 committed_extension =
      committed_extension\<lparr>ax_luns := (ax_luns (initial_extension 5 True))[0 := reserved_lun]\<rparr>"
    by (simp add: BindCreateOperationLocked_def update_lun_def reserved_lun_def)
  have found: "FindOperationLocked 1 committed_extension = Some 0" by (simp add: FindOperationLocked_def)
  have snapshot: "pending_record\<lparr>op_device_id := 1, op_lun := 0, op_result := STATUS_SUCCESS,
      op_state := outcome_state STATUS_SUCCESS\<rparr> = succeeded_record"
    by (simp add: succeeded_record_def outcome_state_def)
  have fields: "op_id succeeded_record = 1" "op_lun succeeded_record = 0" "op_result succeeded_record = STATUS_SUCCESS"
    "op_mutation succeeded_record = operation_code Create_Disk" by (simp_all add: succeeded_record_def)
  have "rq_correlation_id (oq_header (rc_operation example_reserved)) = 7"
    by (simp add: example_reserved_def request_of_def)
  moreover have "update_record 0 (\<lambda>_. succeeded_record) (committed_extension\<lparr>ax_luns :=
      (ax_luns (initial_extension 5 True))[0 := reserved_lun]\<rparr>) = succeeded_extension"
    by (simp add: update_record_def succeeded_extension_def)
  ultimately show ?thesis
    by (simp add: after_create_def Let_def snapshot PublishOperationResult_def fields found bound answered_block_def)
qed

definition reserved_labels :: "label list" where
  "reserved_labels = [Start_Io version_block, Start_Io reserve_block, Start_Io reserved_block, Queue_Work 2 True,
     Advance 2, Advance 2, Allocate_Pool 2 (Some (1, \<lambda>_. 7)), Advance 2, Advance 2, Advance 2, Advance 2]"

abbreviation version_answer :: srb where
  "version_answer \<equiv> complete_control (HandleQueryVersion version_block)"

abbreviation reserve_answer :: srb where
  "reserve_answer \<equiv> complete_control (WriteOperationResponse (CopyResultLocked reserved_record reserved_extension) 6 reserve_block)"

definition reserved_machine :: machine where
  "reserved_machine = \<lparr>ma_driver = \<lparr>dr_ext = EndManagementLocked succeeded_extension,
       dr_pool = [1 \<mapsto> \<lparr>pb_size = 1048576, pb_data = (\<lambda>k. if k < 1048576 then 0 else 7)\<rparr>],
       dr_log = Op_Reserved 1 # Op_Accepted 1 # Disk_Committed (Some 1) 1 0 reserved_create
         # (if bus_changed answered_block then [Bus_Changed] else [])\<rparr>,
     ma_threads = [Finished version_answer, Finished reserve_answer, Finished answered_block], ma_fault = False\<rparr>"

lemma reserved_wf: "srb_wf version_block" "srb_wf reserve_block" "srb_wf reserved_block"
  using control_srb_ok by (simp_all add: control_ok_def)

lemma pending_fields [simp]:
  "ax_signature reserved_extension = kAdapterExtensionSignature" "ax_management_worker pending_extension"
  "ax_signature pending_extension = kAdapterExtensionSignature"
  "ax_next_operation_id reserved_extension = 2" "ax_next_operation_id pending_extension = 2"
  "ax_total_allocated_bytes pending_extension = 0" "ax_next_device_id pending_extension = 1"
  "ax_luns pending_extension = ax_luns (initial_extension 5 True)"
  by (simp_all add: reserved_extension_def pending_extension_def)

lemma reserved_commit: "CommitNewLun reserved_create 0 1 pending_extension = Ok (1, committed_extension)"
  by (simp add: CommitNewLun_def Let_def update_lun_def initial_lun0 zero_lun_def)
    (simp add: committed_extension_def example_lun_def)

lemma reserved_run: "run_labels reserved_labels (initial_machine 5) = Some reserved_machine"
proof -
  have block: "\<lparr>pb_size = 1048576, pb_data = \<lambda>k. if k < 1048576 then 0
      else pb_data \<lparr>pb_size = unat (ucast (1048576 :: u64) :: u32), pb_data = \<lambda>_. 7\<rparr> k\<rparr> =
    \<lparr>pb_size = 1048576, pb_data = \<lambda>k. if k < 1048576 then 0 else (7 :: u8)\<rparr>"
    by (simp cong: if_cong)
  have reserved: "IsReserved reserved_command" by (simp add: IsReserved_def)
  have select: "SelectAvailableLun 1048576 pending_extension = Ok 0"
    by (simp add: SelectAvailableLun_def initial_free kMaximumTotalDiskBytes_def)
  show ?thesis
    unfolding reserved_labels_def reserved_machine_def
    by (simp add: step_def initial_machine_def initialized_def Let_def resume_def outstanding_def reserved_wf
        version_start reserve_start reserved_start admission_event_def reserved working_start select
        pool_allocate_def RtlZeroMemory_def reserved_commit [unfolded One_nat_def] published log_event_def block)
qed

lemma reserved_reachable: "reachable (initial_machine 5) reserved_machine"
  by (rule run_labels_reachable [OF reserved_run])

section \<open>What the driver promises about operations\<close>

text \<open>
  A request is completed by the step that leaves \<open>Responding\<close>: the bus change is announced and the
  worker ends after StorPort has the block back.
\<close>

fun returned :: "thread \<Rightarrow> srb option" where
  "returned (Ending b) = Some b"
| "returned (thread.Finished b) = Some b"
| "returned _ = None"

lemma returned_cases: "returned th = Some b \<longleftrightarrow> th = Ending b \<or> th = thread.Finished b"
  by (cases th) auto

lemma resume_returned:
  assumes "resume k p m = Some m'" "k < length (ma_threads m)" "j < length (ma_threads m)"
    and "returned (ma_threads m ! j) = Some b"
    and "\<And>th d. p = Step th d \<Longrightarrow> returned (ma_threads m ! k) = Some b \<Longrightarrow> returned th = Some b"
  shows "j < length (ma_threads m') \<and> returned (ma_threads m' ! j) = Some b"
proof (cases p)
  case (Step th d)
  with assms(1) have "ma_threads m' = (ma_threads m)[k := th]" by (auto simp: resume_def)
  with assms Step show ?thesis by (cases "j = k") auto
qed (use assms in \<open>auto simp: resume_def\<close>)

lemma returned_stays:
  assumes "step l m = Some m'" "j < length (ma_threads m)" "returned (ma_threads m ! j) = Some b"
  shows "j < length (ma_threads m') \<and> returned (ma_threads m' ! j) = Some b"
proof -
  have kept: "returned th' = Some b" if "returned th = Some b"
    "advance th d = Step th' d' \<or> queue_work q th d = Step th' d' \<or> allocate_pool a th d = Step th' d'" for th th' d d' q a
    using that by (cases a) (auto simp: returned_cases)
  show ?thesis
  proof (cases l)
    case (Advance k)
    with assms(1) have "k < length (ma_threads m)" "resume k (advance (ma_threads m ! k) (ma_driver m)) m = Some m'"
      by (auto simp: step_def Let_def split: if_splits)
    with resume_returned [OF this(2,1) assms(2,3)] kept show ?thesis by blast
  next
    case (Queue_Work k q)
    with assms(1) have "k < length (ma_threads m)" "resume k (queue_work q (ma_threads m ! k) (ma_driver m)) m = Some m'"
      by (auto simp: step_def Let_def split: if_splits)
    with resume_returned [OF this(2,1) assms(2,3)] kept show ?thesis by blast
  next
    case (Allocate_Pool k a)
    with assms(1) have "k < length (ma_threads m)" "resume k (allocate_pool a (ma_threads m ! k) (ma_driver m)) m = Some m'"
      by (auto simp: step_def Let_def split: if_splits)
    with resume_returned [OF this(2,1) assms(2,3)] kept show ?thesis by blast
  qed (use assms in \<open>auto simp: step_def Let_def nth_append split: if_splits\<close>)
qed

lemma returned_remains:
  "reachable m m' \<Longrightarrow> j < length (ma_threads m) \<Longrightarrow> returned (ma_threads m ! j) = Some b \<Longrightarrow>
    j < length (ma_threads m') \<and> returned (ma_threads m' ! j) = Some b"
  by (induction rule: reachable.induct) (auto dest: returned_stays)

lemma answer_truthful:
  assumes "reachable (initial_machine inst) m" "j < length (ma_threads m)" "returned (ma_threads m ! j) = Some b"
    and "Driver_Wire.answer_of b = Some resp" "reachable m m'"
  shows "truthful resp (dr_ext (ma_driver m')) (dr_log (ma_driver m'))"
proof -
  note run = reachable_trans [OF assms(5,1)]
  from returned_remains [OF assms(5,2,3)] records_okD(3) [OF driver_invariants(2) [OF run]]
  have "answer_ok b (dr_ext (ma_driver m')) (dr_log (ma_driver m'))"
    by (fastforce simp: returned_cases)
  with assms(4) show ?thesis by (simp add: answer_ok_def)
qed

text \<open>
  C2. What the driver answers about a reserved operation is true and stays true: a creation it
  says succeeded has created the disk with the device id and LUN of the answer, a removal it says
  succeeded has removed the device, and an operation it says failed has created nothing and never
  will, whatever is sent to the driver afterwards (with the same id, too).
\<close>

theorem driver_answers_are_true:
  assumes "reachable (initial_machine inst) m" and "j < length (ma_threads m)"
    and "returned (ma_threads m ! j) = Some b" and "answer_of b = Some resp" and "reachable m m'"
  shows "or_adapter_instance resp = ax_adapter_instance (dr_ext (ma_driver m'))
    \<and> (or_state resp = state_code State_Succeeded \<longrightarrow> or_mutation resp = operation_code Create_Disk \<longrightarrow>
        (\<exists>q. Disk_Committed (Some (or_operation_id resp)) (or_device_id resp) (unat (or_lun resp)) q
          \<in> set (dr_log (ma_driver m'))))
    \<and> (or_state resp = state_code State_Succeeded \<longrightarrow> or_mutation resp = operation_code Delete_Disk \<longrightarrow>
        Disk_Removed (or_device_id resp) \<in> set (dr_log (ma_driver m')))
    \<and> (or_state resp = state_code State_Failed \<longrightarrow>
        or_operation_id resp \<notin> set (committed_ops (dr_log (ma_driver m'))))"
  using answer_truthful [OF assms] by (auto simp: truthful_def dead_def)

theorem driver_answers_are_true_witness:
  "answer_of answered_block = Some succeeded_response
    \<and> or_state succeeded_response = state_code State_Succeeded
    \<and> or_adapter_instance succeeded_response = ax_adapter_instance (dr_ext (ma_driver reserved_machine))
    \<and> (\<exists>q. Disk_Committed (Some 1) 1 0 q \<in> set (dr_log (ma_driver reserved_machine)))"
proof -
  have resp: "or_state succeeded_response = state_code State_Succeeded" "or_device_id succeeded_response = 1"
    "or_mutation succeeded_response = operation_code Create_Disk" "or_operation_id succeeded_response = 1"
    "or_lun succeeded_response = 0"
    by (simp_all add: succeeded_response_def operation_response_of_def CopyResultLocked_def succeeded_record_def)
  have "2 < length (ma_threads reserved_machine)" "returned (ma_threads reserved_machine ! 2) = Some answered_block"
    by (simp_all add: reserved_machine_def)
  from driver_answers_are_true [OF reserved_reachable this answered_block_answer reachable_refl] resp
  show ?thesis using answered_block_answer by simp
qed

text \<open>
  C7. A reserved operation creates at most one disk, however often its creation is sent; its id is
  one that was given out, and is never given out again.
\<close>

theorem operation_commits_at_most_once:
  assumes "reachable (initial_machine inst) m"
  shows "distinct (committed_ops (dr_log (ma_driver m)))
    \<and> list_all (\<lambda>ident. id_below ident (ax_next_operation_id (dr_ext (ma_driver m))))
        (committed_ops (dr_log (ma_driver m)))"
  using records_okD(1) [OF driver_invariants(2) [OF assms]] by (simp add: table_ok_def list_all_iff)

theorem operation_commits_at_most_once_witness:
  "committed_ops (dr_log (ma_driver reserved_machine)) = [1]
    \<and> distinct (committed_ops (dr_log (ma_driver reserved_machine)))
    \<and> list_all (\<lambda>ident. id_below ident (ax_next_operation_id (dr_ext (ma_driver reserved_machine))))
        (committed_ops (dr_log (ma_driver reserved_machine)))"
proof -
  have "committed_ops (dr_log (ma_driver reserved_machine)) = [1]" by (simp add: reserved_machine_def)
  with operation_commits_at_most_once [OF reserved_reachable] show ?thesis by simp
qed

text \<open>
  C16. The operation table tells the truth about the disks: the record of a creation that succeeded
  has its disk, live, under the device id and LUN it names and bound to the operation; a removal
  that succeeded has removed its device; a reserved or failed operation has created nothing; and
  an operation that is pending is being worked on.
\<close>

theorem operation_table_is_true:
  assumes "reachable (initial_machine inst) m" and "r \<in> set (ax_operations (dr_ext (ma_driver m)))" and "op_id r \<noteq> 0"
  shows "(op_state r = state_code State_Succeeded \<and> op_mutation r = operation_code Create_Disk \<longrightarrow>
      (case ax_luns (dr_ext (ma_driver m)) ! unat (op_lun r) of lun \<Rightarrow> lu_state lun \<noteq> Lun_Empty
         \<and> lu_device_id lun = op_device_id r \<and> lu_create_operation_id lun = op_id r
         \<and> lu_size_bytes lun = cq_size_bytes (op_create r)))
    \<and> (op_state r = state_code State_Succeeded \<and> op_mutation r = operation_code Delete_Disk \<longrightarrow>
        Disk_Removed (op_device_id r) \<in> set (dr_log (ma_driver m)))
    \<and> (op_state r = state_code State_Reserved \<or> op_state r = state_code State_Failed \<longrightarrow>
        op_id r \<notin> set (committed_ops (dr_log (ma_driver m))))
    \<and> (op_state r = state_code State_Pending \<longrightarrow>
        (\<exists>th \<in> set (ma_threads m). manager th \<and> works_on th = Some (op_id r)))"
proof -
  note rec = driver_invariants(2) [OF assms(1)]
  from table_record [OF records_okD(1) [OF rec] assms(2,3)]
  have "record_ok (dr_ext (ma_driver m)) (dr_log (ma_driver m)) r" .
  moreover have "op_state r = state_code State_Pending \<longrightarrow>
      (\<exists>th \<in> set (ma_threads m). manager th \<and> works_on th = Some (op_id r))"
    using records_okD(2) [OF rec] assms(2) works_on_manager unfolding attended_def by blast
  ultimately show ?thesis
    by (auto simp: record_ok_def live_disk_def Let_def)
qed

theorem operation_table_is_true_witness:
  "\<exists>r \<in> set (ax_operations (dr_ext (ma_driver reserved_machine))). op_state r = state_code State_Succeeded
    \<and> (case ax_luns (dr_ext (ma_driver reserved_machine)) ! unat (op_lun r) of lun \<Rightarrow> lu_state lun \<noteq> Lun_Empty
         \<and> lu_device_id lun = op_device_id r \<and> lu_create_operation_id lun = op_id r
         \<and> lu_size_bytes lun = cq_size_bytes (op_create r))"
proof -
  have r: "succeeded_record \<in> set (ax_operations (dr_ext (ma_driver reserved_machine)))" "op_id succeeded_record \<noteq> 0"
    "op_state succeeded_record = state_code State_Succeeded" "op_mutation succeeded_record = operation_code Create_Disk"
    by (simp_all add: reserved_machine_def EndManagementLocked_def succeeded_extension_def succeeded_record_def)
  from operation_table_is_true [OF reserved_reachable r(1,2)] r show ?thesis by blast
qed

end
