(* ===== verification/Driver_Answers.thy ===== *)
theory Driver_Answers
  imports Driver_Operations
begin

text \<open>
  Control requests and their answers: every handler answers through the writers of
  control_request.cpp, in the request's own buffer, and the block that StorPort gets back is the
  one it sent, however long a worker had it.
\<close>

section \<open>Answers stay in their buffer\<close>

definition written :: "srb \<Rightarrow> srb \<Rightarrow> bool" where
  "written b b' \<longleftrightarrow> (\<exists>response status. b' = WriteResponse response status b)
     \<or> (\<exists>operation status corr. b' = WriteError operation status corr b)"

lemma writers_written [simp]:
  "written b (WriteResponse response status b)" "written b (WriteError operation status corr b)"
  "written b (WriteOperationResponse result corr b)" "written b (WriteCreateResponse q status dev lun b)"
  "written b (WriteDeleteResponse dq status b)"
  unfolding written_def WriteOperationResponse_def WriteCreateResponse_def WriteDeleteResponse_def by blast+

lemma written_answered: "control_ok b \<Longrightarrow> written b b' \<Longrightarrow> answered b b'"
  unfolding written_def using answered_intros by blast

lemma read_written: "ReadOperationRequest dec n z b = Err b' \<Longrightarrow> written b b'"
  by (auto simp: ReadOperationRequest_def Let_def split: prod.splits if_splits)

lemma prepared_written: "prepared c b e = Io_Complete b' e' \<Longrightarrow> written b b'"
  by (auto simp: prepared_def PrepareSubmission_def Let_def split: sum.splits if_splits prod.splits binding.splits)

lemma handlers_written:
  "HandleReserveOperation b e = (b', e') \<Longrightarrow> written b b'" "written b (HandleQueryOperation b e)"
  "written b (HandleListState b e)" "written b (HandleQueryVersion b)" "written b (HandleListDisks b e)"
  "written b (HandleDiagnostics b)"
  "HandleReservedCreateControl b e = Io_Complete b' e' \<Longrightarrow> written b b'"
  "HandleReservedDeleteControl b e = Io_Complete b' e' \<Longrightarrow> written b b'"
  "HandleCreateControl b e = Io_Complete b' e' \<Longrightarrow> written b b'"
  "HandleDeleteControl b e = Io_Complete b' e' \<Longrightarrow> written b b'"
proof -
  note intros = read_written prepared_written
  show "HandleReserveOperation b e = (b', e') \<Longrightarrow> written b b'"
    using intros by (auto simp: HandleReserveOperation_def split: sum.splits prod.splits)
  show "written b (HandleQueryOperation b e)"
    using intros by (auto simp: HandleQueryOperation_def split: sum.splits prod.splits)
  show "written b (HandleListState b e)" "written b (HandleQueryVersion b)" "written b (HandleListDisks b e)"
    "written b (HandleDiagnostics b)"
    by (simp_all add: HandleListState_def HandleQueryVersion_def HandleListDisks_def
        HandleDiagnostics_def Let_def split: prod.split)
  show "HandleReservedCreateControl b e = Io_Complete b' e' \<Longrightarrow> written b b'"
    using intros by (auto simp: HandleReservedCreateControl_def split: sum.splits prod.splits if_splits)
  show "HandleReservedDeleteControl b e = Io_Complete b' e' \<Longrightarrow> written b b'"
    using intros by (auto simp: HandleReservedDeleteControl_def split: sum.splits prod.splits if_splits)
  show "HandleCreateControl b e = Io_Complete b' e' \<Longrightarrow> written b b'"
    using intros by (auto simp: HandleCreateControl_def split: sum.splits prod.splits if_splits)
  show "HandleDeleteControl b e = Io_Complete b' e' \<Longrightarrow> written b b'"
    using intros by (auto simp: HandleDeleteControl_def split: sum.splits prod.splits if_splits)
qed

lemma control_written:
  assumes "WispDiskHandleIoControl b e = Io_Complete b' e'" "FromSrb b"
  shows "written b b'"
proof -
  from assms have "DispatchControlRequest b e = Io_Complete b' e'"
    by (simp add: WispDiskHandleIoControl_def)
  then show ?thesis
    using handlers_written unfolding DispatchControlRequest_def Let_def
    by (auto split: prod.splits if_split_asm)
qed

lemma prepared_pending:
  assumes "prepared c b e = Io_Pending b' c' e'"
  shows "b' = (set_return_code STATUS_PENDING b)\<lparr>sb_srb_status := SRB_STATUS_PENDING\<rparr> \<and> c' = c"
  using assms by (auto simp: prepared_def PrepareSubmission_def Let_def split: sum.splits if_splits prod.splits binding.splits)

lemma control_pending:
  assumes "WispDiskHandleIoControl b e = Io_Pending b' c e'"
  shows "b' = (set_return_code STATUS_PENDING b)\<lparr>sb_srb_status := SRB_STATUS_PENDING\<rparr> \<and> control_ok b = srb_wf b"
  using assms
  by (auto simp: WispDiskHandleIoControl_def DispatchControlRequest_def Let_def HandleReservedCreateControl_def
      HandleReservedDeleteControl_def HandleCreateControl_def HandleDeleteControl_def control_ok_def
      dest: prepared_pending split: if_splits prod.splits sum.splits)



section \<open>An answer belongs to its request\<close>

fun work_block :: "work \<Rightarrow> srb" where
  "work_block (Legacy_Create b q) = b"
| "work_block (Legacy_Delete b q) = b"
| "work_block (Reserved_Work b identity r) = b"

fun remover_block :: "remover \<Rightarrow> srb option" where
  "remover_block (By_Worker w) = Some (work_block w)"
| "remover_block By_Shutdown = None"

fun block_of :: "thread \<Rightarrow> srb option" where
  "block_of (Leased b i view) = Some b"
| "block_of (Releasing status b i) = Some b"
| "block_of (Preparing b c) = Some b"
| "block_of (Queue_Failed b c) = Some b"
| "block_of (Queued b) = Some b"
| "block_of (Selecting w) = Some (work_block w)"
| "block_of (Allocating w i) = Some (work_block w)"
| "block_of (Committing w i p) = Some (work_block w)"
| "block_of (Discarding w status p) = Some (work_block w)"
| "block_of (Created w status disk) = Some (work_block w)"
| "block_of (Marking w) = Some (work_block w)"
| "block_of (Draining who i dev) = remover_block who"
| "block_of (Detaching who i dev) = remover_block who"
| "block_of (Freeing who i dev p) = remover_block who"
| "block_of (Finalizing who i dev) = remover_block who"
| "block_of (Deleted w status) = Some (work_block w)"
| "block_of (Responding b) = Some b"
| "block_of (Ending b) = Some b"
| "block_of (thread.Finished b) = Some b"
| "block_of _ = None"

definition same_request :: "srb \<Rightarrow> srb \<Rightarrow> bool" where
  "same_request b b' \<longleftrightarrow> sb_function b' = sb_function b \<and> length (srb_data b') = length (srb_data b)
     \<and> srb_control_code (io_control b') = srb_control_code (io_control b)"

lemma same_request_refl [simp]: "same_request b b"
  by (simp add: same_request_def)

lemma same_request_trans: "same_request b b' \<Longrightarrow> same_request b' b'' \<Longrightarrow> same_request b b''"
  by (simp add: same_request_def)

lemma same_request_status [simp]:
  "same_request b (b'\<lparr>sb_srb_status := s\<rparr>) = same_request b b'"
  "same_request b (b'\<lparr>sb_scsi_status := s2\<rparr>) = same_request b b'"
  "same_request b (b'\<lparr>sb_data_transfer_length := n\<rparr>) = same_request b b'"
  "same_request b (CompleteRequest status b') = same_request b b'"
  "same_request b (complete_control b') = same_request b b'"
  by (simp_all add: same_request_def io_control_def srb_data_def CompleteRequest_def complete_control_def Let_def)

lemma answered_request:
  assumes "answered b b'" "srb_control_code (io_control b') = srb_control_code (io_control b)"
  shows "same_request b b'"
proof -
  from assms(1) have "b' = b\<lparr>sb_data_buffer := sb_data_buffer b', sb_data_transfer_length := sb_data_transfer_length b',
      sb_scsi_status := sb_scsi_status b', sb_srb_status := sb_srb_status b'\<rparr>"
    unfolding answered_def by blast
  from arg_cong [OF this, of sb_function] have "sb_function b' = sb_function b" by simp
  with assms show ?thesis by (simp add: same_request_def answered_def)
qed

lemma written_same:
  assumes "control_ok b" "written b b'"
  shows "same_request b b'"
proof -
  have response: "same_request b (WriteResponse response status b)" for response status
    using answered_WriteResponse [OF assms(1)] WriteResponse_reads(2) [OF assms(1)] by (rule answered_request)
  moreover have "same_request b (PrepareCompletion status 0 b)" for status
    using answered_Prepare_same [OF assms(1)] Prepare_reads(1) [OF control_message [OF assms(1)]]
    by (intro answered_request) simp_all
  ultimately show ?thesis
    using assms(2) by (auto simp: written_def WriteError_def)
qed

text \<open>Every step hands the block on; \<open>task_ok\<close> says that a worker's block is a control request.\<close>

definition carries :: "srb \<Rightarrow> thread \<Rightarrow> bool" where
  "carries b th \<longleftrightarrow> (\<exists>b'. block_of th = Some b' \<and> same_request b b')"

lemma carries_simps [simp]:
  "carries b (Releasing srb_status b' i) = same_request b b'" "carries b (Preparing b' c) = same_request b b'"
  "carries b (Queue_Failed b' c) = same_request b b'" "carries b (Queued b') = same_request b b'"
  "carries b (Selecting w) = same_request b (work_block w)" "carries b (Allocating w i) = same_request b (work_block w)"
  "carries b (Committing w i p) = same_request b (work_block w)"
  "carries b (Discarding w status p) = same_request b (work_block w)"
  "carries b (Created w status disk) = same_request b (work_block w)"
  "carries b (Marking w) = same_request b (work_block w)"
  "carries b (Draining (By_Worker w) i dev) = same_request b (work_block w)"
  "carries b (Detaching (By_Worker w) i dev) = same_request b (work_block w)"
  "carries b (Freeing (By_Worker w) i dev p) = same_request b (work_block w)"
  "carries b (Finalizing (By_Worker w) i dev) = same_request b (work_block w)"
  "carries b (Deleted w status) = same_request b (work_block w)"
  "carries b (Responding b') = same_request b b'" "carries b (Ending b') = same_request b b'"
  "carries b (thread.Finished b') = same_request b b'" "carries b (Leased b' i view) = same_request b b'"
  by (simp_all add: carries_def)

lemma published_written: "PublishOperationResult snapshot corr b e = (b', e') \<Longrightarrow> written b b'"
  by (auto simp: PublishOperationResult_def Let_def split: option.splits)

lemma after_written:
  "after_create w status disk e = (b', e') \<Longrightarrow> b' = work_block w \<or> written (work_block w) b'"
  "after_delete w status e = (b', e') \<Longrightarrow> b' = work_block w \<or> written (work_block w) b'"
  by (cases w; auto simp: after_create_def after_delete_def Let_def dest: published_written split: option.splits prod.splits)+

lemma submit_failed_written: "SubmitFailed c b e = (b', e') \<Longrightarrow> written b b'"
  by (auto simp: SubmitFailed_def FailOperationLocked_def Let_def split: if_splits option.splits)

lemma block_ok_control: "block_ok w \<Longrightarrow> control_ok (work_block w)"
  by (cases w) auto

lemma started_carries:
  assumes ok: "control_ok b"
  shows "carries b (ProcessWorkItem_start b e)"
proof -
  have "same_request b b'" if "SnapshotPendingOperation identity b e = Err b'" for identity b'
    using that by (auto simp: SnapshotPendingOperation_def Let_def intro!: written_same [OF ok] split: option.splits if_splits)
  moreover have "same_request b (WriteError operation status corr b)" "same_request b (WriteCreateResponse q status dev lun b)"
    "same_request b (WriteDeleteResponse dq status b)" for operation status corr q dev lun dq
    by (simp_all add: written_same [OF ok])
  ultimately show ?thesis
    using ok by (auto simp: ProcessWorkItem_start_def Let_def control_ok_def split: sum.split prod.split)
qed

lemma advance_carries:
  assumes task: "task_ok th e log" and fn: "sb_function b = Fn_Io_Control" and mine: "carries b th"
    and run: "advance th d = Step th' d'"
  shows "carries b th'"
proof -
  have same: "same_request b b''" if "same_request b b'" "control_ok b'" "b'' = b' \<or> written b' b''" for b' b''
    using that written_same [of b' b''] same_request_trans [of b b' b''] by blast
  have io: False if "same_request b b'" "sb_function b' = Fn_Execute_Scsi" for b'
    using that fn by (simp add: same_request_def)
  show ?thesis
  proof (cases th)
    case (Queued b')
    with task mine run show ?thesis
      using started_carries [of b' "dr_ext d"] same_request_trans [of b b'] by (auto simp: carries_def)
  next
    case (Queue_Failed b' c)
    with task mine run show ?thesis
      using same [of b'] by (auto dest: submit_failed_written split: prod.splits)
  next
    case (Created w status disk)
    with task mine run show ?thesis
      using same [of "work_block w"] after_written(1) [of w]
      by (auto simp: created_task_def block_ok_control split: prod.splits)
  next
    case (Deleted w status)
    with task mine run show ?thesis
      using same [of "work_block w"] after_written(2) [of w]
      by (auto simp: work_task_def block_ok_control split: prod.splits)
  qed (use task mine run io in \<open>auto simp: Let_def carries_def split: option.splits sum.splits prod.splits if_splits remover.splits\<close>)
qed

lemma pending_same: "control_ok b \<Longrightarrow> same_request b ((set_return_code STATUS_PENDING b)\<lparr>sb_srb_status := s\<rparr>)"
proof -
  assume ok: "control_ok b"
  note msg = set_return_code_message [OF control_message [OF ok], of STATUS_PENDING]
  have "io_control (set_return_code STATUS_PENDING b) = (io_control b)\<lparr>srb_return_code := STATUS_PENDING\<rparr>"
    by (rule message_block_reads(1) [OF msg])
  moreover have "length (srb_data (set_return_code STATUS_PENDING b)) = length (srb_data b)"
    using message_block_reads(3) [OF msg] message_block_reads(3) [OF control_message [OF ok]] control_message [OF ok]
    by (simp add: message_block_def srb_io_control_wire.length_enc)
  moreover have "sb_function (set_return_code STATUS_PENDING b) = sb_function b" by (simp add: set_return_code_def)
  ultimately have "same_request b (set_return_code STATUS_PENDING b)" by (simp add: same_request_def)
  then show ?thesis by simp
qed

lemma start_carries:
  assumes "sb_function b = Fn_Io_Control" "srb_wf b"
  shows "carries b (fst (StartIo b e))"
proof (cases "WispDiskHandleIoControl b e")
  case (Io_Complete b' e')
  have "same_request b b'"
  proof (cases "FromSrb b")
    case True
    with control_written [OF Io_Complete] assms(2) show ?thesis by (simp add: written_same control_ok_def)
  next
    case False
    with Io_Complete show ?thesis by (auto simp: WispDiskHandleIoControl_def)
  qed
  with Io_Complete assms(1) show ?thesis by (simp add: StartIo_def)
next
  case (Io_Pending b' c e')
  with control_pending [OF Io_Pending] assms pending_same [of b] show ?thesis by (simp add: StartIo_def)
qed

lemma resume_carries:
  assumes "resume k p m = Some m'" "k < length (ma_threads m)" "j < length (ma_threads m)" "carries b (ma_threads m ! j)"
    and "\<And>th d. p = Step th d \<Longrightarrow> carries b (ma_threads m ! k) \<Longrightarrow> carries b th"
  shows "j < length (ma_threads m') \<and> carries b (ma_threads m' ! j)"
proof (cases p)
  case (Step th d)
  with assms(1) have "ma_threads m' = (ma_threads m)[k := th]" by (auto simp: resume_def)
  with assms Step show ?thesis by (cases "j = k") auto
qed (use assms in \<open>auto simp: resume_def\<close>)

lemma step_carries:
  assumes rec: "records_ok m" and fn: "sb_function b = Fn_Io_Control" and run: "step l m = Some m'"
    and j: "j < length (ma_threads m)" "carries b (ma_threads m ! j)"
  shows "j < length (ma_threads m') \<and> carries b (ma_threads m' ! j)"
proof -
  have other: "carries b th'" if "carries b th" "queue_work q th d = Step th' d' \<or> allocate_pool a th d = Step th' d'"
    for th th' d d' q a
    using that by (cases th; cases a) (auto simp: Let_def split: if_splits option.splits)
  show ?thesis
  proof (cases l)
    case (Advance k)
    with run have "k < length (ma_threads m)" "resume k (advance (ma_threads m ! k) (ma_driver m)) m = Some m'"
      by (auto simp: step_def Let_def split: if_splits)
    with resume_carries [OF this(2,1) j] advance_carries [OF records_okD(3) [OF rec this(1)] fn] show ?thesis by blast
  next
    case (Queue_Work k q)
    with run have "k < length (ma_threads m)" "resume k (queue_work q (ma_threads m ! k) (ma_driver m)) m = Some m'"
      by (auto simp: step_def Let_def split: if_splits)
    with resume_carries [OF this(2,1) j] other show ?thesis by blast
  next
    case (Allocate_Pool k a)
    with run have "k < length (ma_threads m)" "resume k (allocate_pool a (ma_threads m ! k) (ma_driver m)) m = Some m'"
      by (auto simp: step_def Let_def split: if_splits)
    with resume_carries [OF this(2,1) j] other show ?thesis by blast
  qed (use run j in \<open>auto simp: step_def Let_def nth_append split: if_splits\<close>)
qed

lemma run_carries:
  assumes "reachable m m'" "safe m" "records_ok m" "sb_function b = Fn_Io_Control"
    and "j < length (ma_threads m)" "carries b (ma_threads m ! j)"
  shows "j < length (ma_threads m') \<and> carries b (ma_threads m' ! j)"
  using assms
proof (induction rule: reachable.induct)
  case (reachable_step m1 m2)
  then have "safe m1 \<and> records_ok m1" using reachable_invariants by blast
  with reachable_step step_carries [OF _ _ reachable_step.hyps(2)] show ?case by blast
qed simp

text \<open>From the call of \<open>HwStorStartIo\<close> to the completion: what comes back is the block that was sent.\<close>

lemma completed_same_request:
  assumes "reachable (initial_machine inst) m1" "sb_function b = Fn_Io_Control" "step (Start_Io b) m1 = Some m2"
    and "reachable m2 m3" "returned (ma_threads m3 ! length (ma_threads m1)) = Some b'"
  shows "same_request b b' \<and> length (ma_threads m1) < length (ma_threads m3)"
proof -
  from assms(3) have start: "srb_wf b" "ma_threads m2 = ma_threads m1 @ [fst (StartIo b (dr_ext (ma_driver m1)))]"
    by (auto simp: step_def Let_def split: if_splits)
  have "reachable (initial_machine inst) m2" by (rule reachable_step [OF assms(1,3)])
  note inv = driver_invariants [OF this]
  from run_carries [OF assms(4) inv assms(2), of "length (ma_threads m1)"] start start_carries [OF assms(2) start(1)]
  have "length (ma_threads m1) < length (ma_threads m3)" "carries b (ma_threads m3 ! length (ma_threads m1))" by auto
  with assms(5) show ?thesis by (auto simp: returned_cases)
qed

end
