(* ===== verification/Driver_Devices.thy ===== *)
theory Driver_Devices
  imports Driver_Operations
begin

text \<open>
  The life of a device id, over all runs of the driver: an id that was given out belongs to the disk
  it was given to until that disk is removed, and to none afterwards. The adapter instance stays the
  same, and operation ids are given out one after the other, each recorded in the history.
\<close>

definition devices :: "adapter_extension \<Rightarrow> u32 list" where
  "devices e = map lu_device_id (ax_luns e)"

definition same_devices :: "adapter_extension \<Rightarrow> adapter_extension \<Rightarrow> bool" where
  "same_devices e e' \<longleftrightarrow> devices e' = devices e \<and> ax_next_device_id e' = ax_next_device_id e"

lemma same_devices_refl [simp]: "same_devices e e"
  by (simp add: same_devices_def)

lemma same_devices_trans: "same_devices e e' \<Longrightarrow> same_devices e' e'' \<Longrightarrow> same_devices e e''"
  by (simp add: same_devices_def)

lemma devices_update:
  assumes "\<And>l. lu_device_id (f l) = lu_device_id l" shows "devices (update_lun i f e) = devices e"
proof (cases "i < length (ax_luns e)")
  case True
  then show ?thesis
    using assms by (simp add: devices_def update_lun_def map_update list_update_same_conv)
qed (simp add: devices_def list_update_beyond)

lemma luns_kept_devices: "luns_kept e e' \<Longrightarrow> same_devices e e'"
  by (simp add: luns_kept_def same_devices_def devices_def)

lemma same_devices_update:
  "(\<And>l. lu_device_id (f l) = lu_device_id l) \<Longrightarrow> same_devices e (update_lun i f e)"
  by (simp add: same_devices_def devices_update)

lemma publish_devices: "PublishOperationResult r corr b e = (b', e') \<Longrightarrow> same_devices e e'"
  using same_devices_update [of "\<lambda>l. l\<lparr>lu_create_operation_id := op_id r\<rparr>" e "unat (op_lun r)"]
  by (auto simp: PublishOperationResult_def BindCreateOperationLocked_def same_devices_def devices_def Let_def
      split: option.splits)

lemma after_devices:
  "after_create w status disk e = (b', e') \<Longrightarrow> same_devices e e'"
  "after_delete w status e = (b', e') \<Longrightarrow> same_devices e e'"
  by (cases w; auto simp: after_create_def after_delete_def Let_def dest: publish_devices split: option.splits)+

lemma marking_devices: "MarkLunStopping dev e = Some (i, e') \<Longrightarrow> same_devices e e'"
  by (auto simp: MarkLunStopping_def same_devices_update split: option.splits)

lemma marking_all_devices: "same_devices e (MarkAllLunsStopping e)"
  by (auto simp: same_devices_def devices_def MarkAllLunsStopping_def)

lemma detach_devices: "DetachBackingStore i dev e = (p, e') \<Longrightarrow> same_devices e e'"
  by (auto simp: DetachBackingStore_def Let_def same_devices_update split: if_splits)

lemma release_devices: "same_devices e (ReleaseLunIo i e)"
  unfolding ReleaseLunIo_def Let_def by (auto intro!: same_devices_update)

lemma worker_gone_devices: "same_devices e (e\<lparr>ax_management_worker := x, ax_signature := y\<rparr>)"
  by (simp add: same_devices_def devices_def)

lemma ending_devices: "same_devices e (EndManagementLocked e)"
  by (rule luns_kept_devices) simp

text \<open>
  An id that was given out belongs to a disk that is there or was removed, and every disk that was
  committed has such an id.
\<close>

definition devices_ok :: "driver \<Rightarrow> bool" where
  "devices_ok d \<longleftrightarrow>
     (\<forall>dev. id_below dev (ax_next_device_id (dr_ext d)) \<longrightarrow>
        dev \<in> set (devices (dr_ext d)) \<or> Disk_Removed dev \<in> set (dr_log d))
     \<and> (\<forall>opid dev i q. Disk_Committed opid dev i q \<in> set (dr_log d) \<longrightarrow> id_below dev (ax_next_device_id (dr_ext d)))"

lemma devices_ok_same:
  assumes "devices_ok d" "same_devices (dr_ext d) (dr_ext d')" "dr_log d' = dr_log d @ evs" "list_all minor_event evs"
  shows "devices_ok d'"
  using assms minor_members [OF assms(4)] by (auto simp: devices_ok_def same_devices_def)

lemma id_below_plus_one:
  assumes "n \<noteq> 0" shows "id_below dev (n + 1) \<longleftrightarrow> id_below dev n \<or> dev = n"
proof (cases "n + 1 = 0")
  case True
  then have "n = - 1" by (simp add: eq_neg_iff_add_eq_0)
  then have "dev \<le> n" by simp
  with assms True show ?thesis by (auto simp: id_below_def)
next
  case False
  then have "unat (n + 1) = unat n + 1"
    using unatSuc [of n] by (simp add: add.commute)
  with assms False show ?thesis
    by (auto simp: id_below_def word_less_nat_alt less_Suc_eq word_unat_eq_iff)
qed

lemma committing_devices:
  assumes ok: "devices_ok d" "luns_ok (dr_ext d)" "i < 16"
    and run: "CommitNewLun q i p (dr_ext d) = Ok (dev, e')"
  shows "devices_ok (log_event (Disk_Committed opid dev i q) (with_ext d e'))"
proof -
  note eff = CommitNewLun_Ok [OF run] and luns = luns_okD [OF ok(2)]
  have empty: "lu_device_id (ax_luns (dr_ext d) ! i) = 0"
    using luns(2) [OF ok(3)] eff by (simp add: lun_ok_def)
  have "devices e' = (devices (dr_ext d))[i := dev]"
    using eff by (simp add: devices_def map_update)
  moreover have "dev' \<in> set ((devices (dr_ext d))[i := dev])" if "dev' \<in> set (devices (dr_ext d))" "dev' \<noteq> 0" for dev'
  proof -
    from that(1) obtain j where j: "j < length (devices (dr_ext d))" "devices (dr_ext d) ! j = dev'"
      by (auto simp: in_set_conv_nth)
    then have "j \<noteq> i" using that(2) empty by (auto simp: devices_def)
    with j show ?thesis by (auto simp: in_set_conv_nth intro!: exI [of _ j])
  qed
  moreover have "dev \<in> set ((devices (dr_ext d))[i := dev])"
    using luns(1) ok(3) by (simp add: devices_def set_update_memI)
  ultimately show ?thesis
    using ok(1) eff id_below_plus_one [of "ax_next_device_id (dr_ext d)"]
    by (auto simp: devices_ok_def log_event_def id_below_def [of _ "ax_next_device_id (dr_ext d)"])
qed

lemma finalizing_devices:
  assumes ok: "devices_ok d" "luns_ok (dr_ext d)" "i < 16" "lu_device_id (ax_luns (dr_ext d) ! i) = dev"
  shows "devices_ok (log_event (Disk_Removed dev) (with_ext d (FinalizeDiskRemoval i dev (dr_ext d))))"
proof -
  have "devices (FinalizeDiskRemoval i dev (dr_ext d)) = (devices (dr_ext d))[i := 0]"
    by (simp add: devices_def map_update)
  moreover have "dev' \<in> set ((devices (dr_ext d))[i := 0])" if "dev' \<in> set (devices (dr_ext d))" "dev' \<noteq> dev" for dev'
  proof -
    from that(1) obtain j where j: "j < length (devices (dr_ext d))" "devices (dr_ext d) ! j = dev'"
      by (auto simp: in_set_conv_nth)
    then have "j \<noteq> i" using that(2) ok(4) by (auto simp: devices_def)
    with j show ?thesis by (auto simp: in_set_conv_nth intro!: exI [of _ j])
  qed
  ultimately show ?thesis using ok(1) by (auto simp: devices_ok_def log_event_def)
qed

text \<open>Every step but two keeps the ids: the commit of a disk and the end of its removal.\<close>

fun moves_devices :: "thread \<Rightarrow> bool" where
  "moves_devices (Committing w i p) = True"
| "moves_devices (Finalizing who i dev) = True"
| "moves_devices _ = False"

lemma advance_keeps_devices:
  "advance th d = Step th' d' \<Longrightarrow> \<not> moves_devices th \<Longrightarrow> same_devices (dr_ext d) (dr_ext d')"
  by (cases th) (auto simp: Let_def log_event_def release_devices ending_devices marking_all_devices
      worker_gone_devices
        dest: after_devices marking_devices detach_devices luns_kept_devices [OF conjunct1 [OF SubmitFailed_effect]]
        split: option.splits sum.splits prod.splits if_splits)

lemma advance_keeps_log:
  "advance th d = Step th' d' \<Longrightarrow> \<not> moves_devices th \<Longrightarrow> \<exists>evs. dr_log d' = dr_log d @ evs \<and> list_all minor_event evs"
  by (cases th) (auto simp: Let_def log_event_def split: option.splits sum.splits prod.splits if_splits)

lemma advance_devices:
  assumes safe: "safe m" and k: "k < length (ma_threads m)" and ok: "devices_ok (ma_driver m)"
    and run: "advance (ma_threads m ! k) (ma_driver m) = Step th' d'"
  shows "devices_ok d' \<and> (\<forall>dev. id_below dev (ax_next_device_id (dr_ext (ma_driver m))) \<longrightarrow> id_below dev (ax_next_device_id (dr_ext d')))"
proof -
  let ?d = "ma_driver m"
  note luns = safeD(2) [OF safe] and self = safeD(7) [OF safe k]
  have quiet: ?thesis if "same_devices (dr_ext ?d) (dr_ext d')" "\<exists>evs. dr_log d' = dr_log ?d @ evs \<and> list_all minor_event evs"
    using that devices_ok_same [OF ok that(1)] by (auto simp: same_devices_def)
  show ?thesis
  proof (cases "moves_devices (ma_threads m ! k)")
    case False
    with quiet advance_keeps_devices [OF run] advance_keeps_log [OF run] show ?thesis by blast
  next
    case True
    then consider w i p where "ma_threads m ! k = Committing w i p" | who i dev where "ma_threads m ! k = Finalizing who i dev"
      by (cases "ma_threads m ! k" rule: moves_devices.cases) auto
    then show ?thesis
    proof cases
      case Committing: (1 w i p)
      show ?thesis
      proof (cases "CommitNewLun (work_request w) i p (dr_ext ?d)")
        case (Inl status)
        with Committing run show ?thesis by (intro quiet) auto
      next
        case (Inr r)
        obtain dev e' where r: "r = (dev, e')" by (cases r)
        have "i < 16" using self Committing by (simp add: lun_free_def)
        from committing_devices [OF ok luns this Inr [unfolded r]] CommitNewLun_Ok [OF Inr [unfolded r]]
          id_below_plus_one [of "ax_next_device_id (dr_ext ?d)"] Committing run Inr r
        show ?thesis by (auto simp: log_event_def)
      qed
    next
      case Finalizing: (2 who i dev)
      have i: "i < 16" "lu_device_id (ax_luns (dr_ext ?d) ! i) = dev" using self Finalizing by (auto simp: stopping_lun_def)
      with finalizing_devices [OF ok luns i] Finalizing run show ?thesis
        by (auto simp: log_event_def Let_def split: remover.splits)
    qed
  qed
qed

lemma start_devices:
  assumes "pending_valid e" "ax_management_idle e = (\<not> ax_management_busy e)"
  shows "same_devices e (snd (StartIo b e))"
proof (cases "sb_function b")
  case Fn_Io_Control
  with WispDiskHandleIoControl_effect [OF assms, of b] show ?thesis
    by (auto simp: StartIo_def control_effect_def intro: luns_kept_devices split: disposition.splits)
next
  case Fn_Execute_Scsi
  have "same_devices e e'" if "AcquireLunIo b e = Some (i, view, e')" for i view e'
    using AcquireLunIo_Some [OF that] by (auto intro: same_devices_update)
  with Fn_Execute_Scsi show ?thesis
    by (auto simp: StartIo_def WispDiskHandleExecuteScsi_def Let_def split: option.splits prod.splits)
qed (simp_all add: StartIo_def)

lemma step_devices:
  assumes safe: "safe m" and ok: "devices_ok (ma_driver m)" and run: "step l m = Some m'"
  shows "devices_ok (ma_driver m') \<and> (\<forall>dev. id_below dev (ax_next_device_id (dr_ext (ma_driver m))) \<longrightarrow>
    id_below dev (ax_next_device_id (dr_ext (ma_driver m'))))" (is "?goal (ma_driver m')")
proof -
  have quiet: "?goal d'" if "same_devices (dr_ext (ma_driver m)) (dr_ext d')"
    "\<exists>evs. dr_log d' = dr_log (ma_driver m) @ evs \<and> list_all minor_event evs" for d'
    using that devices_ok_same [OF ok that(1)] by (auto simp: same_devices_def)
  have resumed: "?goal (ma_driver m')" if "resume k p m = Some m'" "\<And>th d. p = Step th d \<Longrightarrow> ?goal d" for k p
    using that ok by (cases p) (auto simp: resume_def)
  have other: "?goal d'" if "queue_work q th (ma_driver m) = Step th' d' \<or> allocate_pool a th (ma_driver m) = Step th' d'"
    for q a th th' d'
    by (rule quiet) (use that in \<open>cases th; cases a; auto simp: Let_def split: if_splits option.splits\<close>)+
  show ?thesis
  proof (cases l)
    case (Start_Io b)
    let ?e = "dr_ext (ma_driver m)" and ?r = "StartIo b (dr_ext (ma_driver m))"
    from run Start_Io have m': "ma_driver m' = admission_event ?e ?r (with_ext (ma_driver m) (snd ?r))"
      by (auto simp: step_def Let_def split: if_splits)
    have "same_devices ?e (snd ?r)"
      using safeD(5,6) [OF safe] by (intro start_devices) (simp_all add: admission_ok_def)
    with m' admission_event_log [of ?e ?r "with_ext (ma_driver m) (snd ?r)"] show ?thesis
      by (intro quiet) simp_all
  next
    case (Set_Stopping b)
    with run show ?thesis
      by (intro quiet) (auto simp: step_def Let_def same_devices_def devices_def split: if_splits)
  next
    case Free_Resources
    with run show ?thesis
      by (intro quiet) (auto simp: step_def Let_def same_devices_def devices_def CloseAdmission_def split: if_splits)
  next
    case (Advance k)
    with run have "k < length (ma_threads m)" "resume k (advance (ma_threads m ! k) (ma_driver m)) m = Some m'"
      by (auto simp: step_def Let_def split: if_splits)
    with advance_devices [OF safe _ ok] show ?thesis by (intro resumed) auto
  next
    case (Queue_Work k q)
    with run have "resume k (queue_work q (ma_threads m ! k) (ma_driver m)) m = Some m'"
      by (auto simp: step_def Let_def split: if_splits)
    with other show ?thesis by (intro resumed) blast+
  next
    case (Allocate_Pool k a)
    with run have "resume k (allocate_pool a (ma_threads m ! k) (ma_driver m)) m = Some m'"
      by (auto simp: step_def Let_def split: if_splits)
    with other show ?thesis by (intro resumed) blast+
  qed
qed

lemma initial_devices: "devices_ok (ma_driver (initial_machine inst))"
  by (auto simp: devices_ok_def initial_machine_def id_below_def word_less_nat_alt unat_eq_zero)

lemma run_devices:
  assumes "reachable m m'" "safe m" "devices_ok (ma_driver m)"
  shows "devices_ok (ma_driver m') \<and> (\<forall>dev. id_below dev (ax_next_device_id (dr_ext (ma_driver m))) \<longrightarrow>
    id_below dev (ax_next_device_id (dr_ext (ma_driver m'))))"
  using assms
proof (induction rule: reachable.induct)
  case (reachable_step m1 l m2)
  then have "safe m1" "devices_ok (ma_driver m1)" using reachable_safe by blast+
  from step_devices [OF this reachable_step.hyps(2)] reachable_step show ?case by blast
qed simp

lemmas driver_devices = conjunct1 [OF run_devices [OF _ initial_safe initial_devices]]

lemma committed_issued:
  assumes "reachable (initial_machine inst) m" "Disk_Committed opid dev i q \<in> set (dr_log (ma_driver m))"
  shows "id_below dev (ax_next_device_id (dr_ext (ma_driver m)))"
  using driver_devices [OF assms(1)] assms(2) unfolding devices_ok_def by blast

text \<open>A disk that was there is there, under the same id, or was removed; and an id does not come back.\<close>

lemma device_remains:
  assumes "reachable (initial_machine inst) m" "id_below dev (ax_next_device_id (dr_ext (ma_driver m)))"
  shows "(\<exists>i < 16. lu_state (ax_luns (dr_ext (ma_driver m)) ! i) \<noteq> Lun_Empty
      \<and> lu_device_id (ax_luns (dr_ext (ma_driver m)) ! i) = dev)
    \<or> Disk_Removed dev \<in> set (dr_log (ma_driver m))"
proof -
  note luns = luns_okD [OF safeD(2) [OF driver_invariants(1) [OF assms(1)]]]
  have "dev \<noteq> 0" using assms(2) by (simp add: id_below_def)
  moreover have "lu_state (ax_luns (dr_ext (ma_driver m)) ! i) \<noteq> Lun_Empty"
    if "i < 16" "lu_device_id (ax_luns (dr_ext (ma_driver m)) ! i) \<noteq> 0" for i
    using luns(2) [OF that(1)] that(2) by (auto simp: lun_ok_def)
  moreover have "dev \<in> set (devices (dr_ext (ma_driver m))) \<Longrightarrow> \<exists>i < 16. lu_device_id (ax_luns (dr_ext (ma_driver m)) ! i) = dev"
    using luns(1) by (auto simp: devices_def in_set_conv_nth)
  ultimately show ?thesis
    using driver_devices [OF assms(1)] assms(2) unfolding devices_ok_def by metis
qed

lemma removed_is_gone:
  assumes "reachable (initial_machine inst) m" "Disk_Removed dev \<in> set (dr_log (ma_driver m))" "i < 16"
  shows "lu_device_id (ax_luns (dr_ext (ma_driver m)) ! i) \<noteq> dev"
  using records_okD(1) [OF driver_invariants(2) [OF assms(1)]] assms(2,3) by (simp add: table_ok_def)

section \<open>The adapter instance\<close>

lemma settle_instance:
  "SubmitFailed c b e = (b', e') \<Longrightarrow> ax_adapter_instance e' = ax_adapter_instance e"
  "PublishOperationResult r corr b e = (b', e') \<Longrightarrow> ax_adapter_instance e' = ax_adapter_instance e"
  by (auto simp: SubmitFailed_def FailOperationLocked_def EndManagementLocked_def PublishOperationResult_def
      BindCreateOperationLocked_def Let_def split: option.splits prod.splits if_splits)

lemma after_instance:
  "after_create w status disk e = (b', e') \<Longrightarrow> ax_adapter_instance e' = ax_adapter_instance e"
  "after_delete w status e = (b', e') \<Longrightarrow> ax_adapter_instance e' = ax_adapter_instance e"
  by (cases w; auto simp: after_create_def after_delete_def Let_def dest: settle_instance split: option.splits)+

lemma lun_operations_instance:
  "CommitNewLun q i p e = Ok (dev, e') \<Longrightarrow> ax_adapter_instance e' = ax_adapter_instance e"
  "MarkLunStopping dev e = Some (i, e') \<Longrightarrow> ax_adapter_instance e' = ax_adapter_instance e"
  "DetachBackingStore i dev e = (p', e') \<Longrightarrow> ax_adapter_instance e' = ax_adapter_instance e"
  "ax_adapter_instance (ReleaseLunIo i e) = ax_adapter_instance e"
  "AcquireLunIo b e = Some (i, view, e') \<Longrightarrow> ax_adapter_instance e' = ax_adapter_instance e"
  by (auto simp: CommitNewLun_def MarkLunStopping_def DetachBackingStore_def ReleaseLunIo_def AcquireLunIo_def Let_def
      split: if_splits option.splits)

lemma advance_instance:
  "advance th d = Step th' d' \<Longrightarrow> ax_adapter_instance (dr_ext d') = ax_adapter_instance (dr_ext d)"
  by (cases th) (auto simp: Let_def log_event_def lun_operations_instance(4) EndManagementLocked_def MarkAllLunsStopping_def
      dest: after_instance settle_instance lun_operations_instance(1-3)
      split: option.splits sum.splits prod.splits if_splits remover.splits)

definition instance_kept :: "adapter_extension \<Rightarrow> disposition \<Rightarrow> bool" where
  "instance_kept e r \<longleftrightarrow> (case r of Io_Complete b' e' \<Rightarrow> ax_adapter_instance e' = ax_adapter_instance e
     | Io_Pending b' c e' \<Rightarrow> ax_adapter_instance e' = ax_adapter_instance e)"

lemma instance_kept_complete [simp]:
  "instance_kept e (Io_Complete b' e') \<longleftrightarrow> ax_adapter_instance e' = ax_adapter_instance e"
  by (simp add: instance_kept_def)

lemma prepared_instance: "instance_kept e (prepared c b e)"
  by (auto simp: instance_kept_def prepared_def PrepareSubmission_def BeginManagementLocked_def EndManagementLocked_def
      BindOperationLocked_def Let_def split: sum.splits prod.splits if_splits option.splits binding.splits)

lemma control_instance: "instance_kept e (WispDiskHandleIoControl b e)"
proof -
  have reserve: "ax_adapter_instance e1 = ax_adapter_instance e" if "HandleReserveOperation b e = (b1, e1)" for b1 e1
    using that by (auto simp: HandleReserveOperation_def ReserveOperation_def update_record_def Let_def
        split: sum.splits prod.splits if_splits option.splits)
  have submit: "instance_kept e (HandleCreateControl b e)" "instance_kept e (HandleReservedCreateControl b e)"
    "instance_kept e (HandleDeleteControl b e)" "instance_kept e (HandleReservedDeleteControl b e)"
    by (auto simp: HandleCreateControl_def HandleReservedCreateControl_def HandleDeleteControl_def
        HandleReservedDeleteControl_def prepared_instance split: sum.split prod.split)
  show ?thesis
    by (auto simp: WispDiskHandleIoControl_def DispatchControlRequest_def Let_def submit reserve split: prod.split)
qed

lemma start_instance: "ax_adapter_instance (snd (StartIo b e)) = ax_adapter_instance e"
proof (cases "sb_function b")
  case Fn_Io_Control
  then show ?thesis
    using control_instance [of e b] by (auto simp: StartIo_def instance_kept_def split: disposition.splits)
next
  case Fn_Execute_Scsi
  then show ?thesis
    using lun_operations_instance(5) [of b e]
    by (auto simp: StartIo_def WispDiskHandleExecuteScsi_def Let_def split: option.splits prod.splits)
qed (simp_all add: StartIo_def)

lemma resume_instance:
  assumes "resume k p m = Some m'"
    and "\<And>th d. p = Step th d \<Longrightarrow> ax_adapter_instance (dr_ext d) = ax_adapter_instance (dr_ext (ma_driver m))"
  shows "ax_adapter_instance (dr_ext (ma_driver m')) = ax_adapter_instance (dr_ext (ma_driver m))"
  using assms by (cases p) (auto simp: resume_def)

lemma answer_instance:
  "queue_work q th d = Step th' d' \<Longrightarrow> ax_adapter_instance (dr_ext d') = ax_adapter_instance (dr_ext d)"
  "allocate_pool a th d = Step th' d' \<Longrightarrow> ax_adapter_instance (dr_ext d') = ax_adapter_instance (dr_ext d)"
  by (cases th; cases a; auto simp: Let_def split: if_splits option.splits)+

lemma step_instance:
  "step l m = Some m' \<Longrightarrow> ax_adapter_instance (dr_ext (ma_driver m')) = ax_adapter_instance (dr_ext (ma_driver m))"
  by (cases l) (auto simp: step_def Let_def CloseAdmission_def start_instance split: if_splits
      elim!: resume_instance dest: advance_instance answer_instance)

lemma driver_instance: "reachable (initial_machine inst) m \<Longrightarrow> ax_adapter_instance (dr_ext (ma_driver m)) = inst"
  by (induction rule: reachable.induct) (auto simp: initial_machine_def dest: step_instance)

section \<open>The operation ids\<close>

lemma settle_operations:
  "SubmitFailed c b e = (b', e') \<Longrightarrow> ax_next_operation_id e' = ax_next_operation_id e"
  "PublishOperationResult r corr b e = (b', e') \<Longrightarrow> ax_next_operation_id e' = ax_next_operation_id e"
  by (auto simp: SubmitFailed_def FailOperationLocked_def EndManagementLocked_def PublishOperationResult_def
      BindCreateOperationLocked_def Let_def split: option.splits prod.splits if_splits)

lemma after_operations:
  "after_create w status disk e = (b', e') \<Longrightarrow> ax_next_operation_id e' = ax_next_operation_id e"
  "after_delete w status e = (b', e') \<Longrightarrow> ax_next_operation_id e' = ax_next_operation_id e"
  by (cases w; auto simp: after_create_def after_delete_def Let_def dest: settle_operations split: option.splits)+

lemma lun_operations_kept:
  "CommitNewLun q i p e = Ok (dev, e') \<Longrightarrow> ax_next_operation_id e' = ax_next_operation_id e"
  "MarkLunStopping dev e = Some (i, e') \<Longrightarrow> ax_next_operation_id e' = ax_next_operation_id e"
  "DetachBackingStore i dev e = (p', e') \<Longrightarrow> ax_next_operation_id e' = ax_next_operation_id e"
  "ax_next_operation_id (ReleaseLunIo i e) = ax_next_operation_id e"
  "AcquireLunIo b e = Some (i, view, e') \<Longrightarrow> ax_next_operation_id e' = ax_next_operation_id e"
  by (auto simp: CommitNewLun_def MarkLunStopping_def DetachBackingStore_def ReleaseLunIo_def AcquireLunIo_def Let_def
      split: if_splits option.splits)

text \<open>
  \<open>gives_out d d'\<close>: either no operation id is given out, or the next one is, and the history says so.
\<close>

definition given_out :: "driver \<Rightarrow> u64 set" where
  "given_out d = {ident. Op_Reserved ident \<in> set (dr_log d)}"

definition gives_out :: "driver \<Rightarrow> driver \<Rightarrow> bool" where
  "gives_out d d' \<longleftrightarrow> (let n = ax_next_operation_id (dr_ext d) in
     ax_next_operation_id (dr_ext d') = n \<and> given_out d' = given_out d
     \<or> n \<noteq> 0 \<and> ax_next_operation_id (dr_ext d') = n + 1 \<and> given_out d' = insert n (given_out d))"

lemma gives_out_refl [simp]: "gives_out d d"
  by (simp add: gives_out_def)

lemma advance_operations: "advance th d = Step th' d' \<Longrightarrow> gives_out d d'"
  by (cases th) (auto simp: gives_out_def given_out_def Let_def log_event_def lun_operations_kept(4) EndManagementLocked_def
      MarkAllLunsStopping_def FinalizeDiskRemoval_def FinalizeRemovalLocked_def MarkCreatesDeletedLocked_def
      dest: after_operations settle_operations lun_operations_kept(1-3)
      split: option.splits sum.splits prod.splits if_splits remover.splits)

lemma answer_operations:
  "queue_work q th d = Step th' d' \<Longrightarrow> gives_out d d'"
  "allocate_pool a th d = Step th' d' \<Longrightarrow> gives_out d d'"
  by (cases th; cases a; auto simp: gives_out_def given_out_def Let_def split: if_splits option.splits)+

lemma prepared_operations:
  "prepared c b e = Io_Complete b' e' \<or> prepared c b e = Io_Pending b' c' e' \<Longrightarrow>
    ax_next_operation_id e' = ax_next_operation_id e"
  by (auto simp: prepared_def PrepareSubmission_def BeginManagementLocked_def EndManagementLocked_def
      BindOperationLocked_def Let_def split: sum.splits prod.splits if_splits option.splits binding.splits)

lemma reserve_operations:
  "HandleReserveOperation b e = (b', e') \<Longrightarrow> ax_next_operation_id e' = ax_next_operation_id e
    \<or> ax_next_operation_id e \<noteq> 0 \<and> ax_next_operation_id e' = ax_next_operation_id e + 1"
  by (auto simp: HandleReserveOperation_def ReserveOperation_def update_record_def Let_def
      split: sum.splits prod.splits if_splits option.splits)

lemma start_operations:
  "ax_next_operation_id (snd (StartIo b e)) = ax_next_operation_id e
    \<or> ax_next_operation_id e \<noteq> 0 \<and> ax_next_operation_id (snd (StartIo b e)) = ax_next_operation_id e + 1"
proof (cases "sb_function b")
  case Fn_Io_Control
  have "ax_next_operation_id e' = ax_next_operation_id e
      \<or> ax_next_operation_id e \<noteq> 0 \<and> ax_next_operation_id e' = ax_next_operation_id e + 1"
    if "WispDiskHandleIoControl b e = Io_Complete b' e' \<or> WispDiskHandleIoControl b e = Io_Pending b' c e'" for b' c e'
    using that prepared_operations reserve_operations [of b e b' e']
    by (auto simp: WispDiskHandleIoControl_def DispatchControlRequest_def HandleCreateControl_def
        HandleReservedCreateControl_def HandleDeleteControl_def HandleReservedDeleteControl_def Let_def
        split: if_splits prod.splits sum.splits)
  with Fn_Io_Control show ?thesis by (auto simp: StartIo_def split: disposition.split)
next
  case Fn_Execute_Scsi
  then show ?thesis
    using lun_operations_kept(5) [of b e]
    by (auto simp: StartIo_def WispDiskHandleExecuteScsi_def Let_def split: option.splits prod.splits)
qed (simp_all add: StartIo_def)

lemma admission_operations:
  assumes "ax_next_operation_id (snd r) = ax_next_operation_id (dr_ext d)
    \<or> ax_next_operation_id (dr_ext d) \<noteq> 0 \<and> ax_next_operation_id (snd r) = ax_next_operation_id (dr_ext d) + 1"
  shows "gives_out d (admission_event (dr_ext d) r (with_ext d (snd r)))"
  using assms by (cases r) (auto simp: admission_event_def gives_out_def given_out_def log_event_def Let_def split: thread.split)

lemma resume_operations:
  "resume k p m = Some m' \<Longrightarrow> (\<And>th d. p = Step th d \<Longrightarrow> gives_out (ma_driver m) d) \<Longrightarrow>
    gives_out (ma_driver m) (ma_driver m')"
  by (cases p) (auto simp: resume_def)

lemma step_operations: "step l m = Some m' \<Longrightarrow> gives_out (ma_driver m) (ma_driver m')"
proof (cases l)
  case (Start_Io b)
  then show "step l m = Some m' \<Longrightarrow> ?thesis"
    using admission_operations [OF start_operations [of b "dr_ext (ma_driver m)"]]
    by (auto simp: step_def Let_def split: if_splits)
qed (auto simp: step_def Let_def CloseAdmission_def gives_out_def given_out_def split: if_splits
      elim!: resume_operations [unfolded gives_out_def given_out_def Let_def]
      dest: advance_operations [unfolded gives_out_def given_out_def Let_def]
        answer_operations [unfolded gives_out_def given_out_def Let_def])

text \<open>Only ids below the next one have been given out.\<close>

lemma operation_given_out:
  "reachable (initial_machine inst) m \<Longrightarrow> ident \<in> given_out (ma_driver m) \<Longrightarrow>
    id_below ident (ax_next_operation_id (dr_ext (ma_driver m)))"
proof (induction arbitrary: ident rule: reachable.induct)
  case reachable_refl
  then show ?case by (simp add: given_out_def initial_machine_def)
next
  case (reachable_step m1 l m2)
  from step_operations [OF reachable_step.hyps(2)] reachable_step.IH reachable_step.prems show ?case
    by (auto simp: gives_out_def Let_def id_below_plus_one)
qed

end
