(* ===== verification/Exchange.thy ===== *)
theory Exchange
  imports Driver_Answers Driver_Devices Hearing
begin

text \<open>
  The client and the driver together. The client's side is a trace of operating system calls, the
  driver's a run of its steps; \<open>serves\<close> says when they fit. Other clients, StorPort and the
  scheduler are unrestricted: the driver may make any steps at any time, and a call that failed
  may or may not have reached it. What the client concludes is then true of the driver.
\<close>

section \<open>One trace, one run\<close>

text \<open>The calls that tell their caller something about the adapter behind a handle.\<close>

fun tells :: "handle \<Rightarrow> os_event \<Rightarrow> bool" where
  "tells port (Device_Io_Control h ioctl buffer (Ok answer)) = (h = port \<and> ioctl = IOCTL_SCSI_MINIPORT)"
| "tells port _ = False"

text \<open>
  \<open>serves port m t m'\<close>: while a client makes the calls \<open>t\<close>, of which those on \<open>port\<close> go to this
  driver, the driver runs from \<open>m\<close> to \<open>m'\<close>. In a successful exchange StorPort passes the client's
  buffer to \<open>HwStorStartIo\<close>, the driver completes it some time later, and the client gets the first
  bytes of what is then in the buffer, at most as many as the driver returned.
\<close>

inductive serves :: "handle \<Rightarrow> machine \<Rightarrow> os_event list \<Rightarrow> machine \<Rightarrow> bool" for port :: handle and m :: machine where
  idle: "serves port m [] m"
| work: "serves port m t m1 \<Longrightarrow> step l m1 = Some m2 \<Longrightarrow> serves port m t m2"
| elsewhere: "serves port m t m1 \<Longrightarrow> \<not> tells port ev \<Longrightarrow> serves port m (t @ [ev]) m1"
| exchange: "serves port m t m1 \<Longrightarrow> sb_function b = Fn_Io_Control \<Longrightarrow> sb_data_buffer b = Some buffer \<Longrightarrow>
    step (Start_Io b) m1 = Some m2 \<Longrightarrow> reachable m2 m3 \<Longrightarrow>
    returned (ma_threads m3 ! length (ma_threads m1)) = Some b' \<Longrightarrow>
    unat bytes \<le> unat (sb_data_transfer_length b') \<Longrightarrow>
    serves port m (t @ [Device_Io_Control port IOCTL_SCSI_MINIPORT buffer
      (Ok (bytes, take (unat bytes) (srb_data b')))]) m3"

lemma serves_reachable: "serves port m t m' \<Longrightarrow> reachable m m'"
  by (induction rule: serves.induct)
    (auto intro: reachable_refl reachable_step reachable_trans)

lemma serves_append: "serves port m1 t' m2 \<Longrightarrow> serves port m t m1 \<Longrightarrow> serves port m (t @ t') m2"
proof (induction rule: serves.induct)
  case (elsewhere t' m2 ev)
  then show ?case by (metis append_assoc serves.elsewhere)
next
  case (exchange t' m2 b buffer m3 m4 b' bytes)
  from serves.exchange [OF exchange.IH [OF exchange.prems] exchange.hyps(2-7)] show ?case by simp
qed (auto intro: serves.work)

text \<open>
  What is known of a request that was answered: it was started by a step of the run, with the
  buffer of the client, and the thread that took it has completed the same request.
\<close>

definition exchanged :: "machine \<Rightarrow> machine \<Rightarrow> u8 list \<Rightarrow> u32 \<Rightarrow> u8 list \<Rightarrow> bool" where
  "exchanged m m' buffer bytes out \<longleftrightarrow> (\<exists>m1 m2 b b'. reachable m m1 \<and> step (Start_Io b) m1 = Some m2 \<and> reachable m2 m'
     \<and> sb_function b = Fn_Io_Control \<and> sb_data_buffer b = Some buffer
     \<and> length (ma_threads m1) < length (ma_threads m')
     \<and> returned (ma_threads m' ! length (ma_threads m1)) = Some b' \<and> same_request b b'
     \<and> unat bytes \<le> unat (sb_data_transfer_length b') \<and> out = take (unat bytes) (srb_data b'))"

lemma exchanged_later:
  assumes "exchanged m m' buffer bytes out" "reachable m' m''"
  shows "exchanged m m'' buffer bytes out"
proof -
  from assms(1) obtain m1 m2 b b' where ex: "reachable m m1" "step (Start_Io b) m1 = Some m2" "reachable m2 m'"
    "sb_function b = Fn_Io_Control" "sb_data_buffer b = Some buffer" "length (ma_threads m1) < length (ma_threads m')"
    "returned (ma_threads m' ! length (ma_threads m1)) = Some b'" "same_request b b'"
    "unat bytes \<le> unat (sb_data_transfer_length b')" "out = take (unat bytes) (srb_data b')"
    unfolding exchanged_def by blast
  from returned_remains [OF assms(2) ex(6,7)] reachable_trans [OF assms(2) ex(3)] ex show ?thesis
    unfolding exchanged_def by blast
qed

lemma served_exchange:
  assumes "serves port m t m'" "reachable (initial_machine inst) m"
    and "Device_Io_Control port IOCTL_SCSI_MINIPORT buffer (Ok (bytes, out)) \<in> set t"
  shows "exchanged m m' buffer bytes out"
  using assms
proof (induction rule: serves.induct)
  case (work t m1 l m2)
  from exchanged_later [OF work.IH [OF work.prems] reachable_step [OF reachable_refl work.hyps(2)]] show ?case .
next
  case (elsewhere t m1 ev)
  then show ?case by auto
next
  case (exchange t m1 b buffer' m2 m3 b' bytes')
  note start = reachable_trans [OF serves_reachable [OF exchange.hyps(1)] exchange.prems(1)]
  have m13: "reachable m1 m3"
    by (rule reachable_trans [OF exchange.hyps(5) reachable_step [OF reachable_refl exchange.hyps(4)]])
  have this_one: "exchanged m m3 buffer' bytes' (take (unat bytes') (srb_data b'))"
    unfolding exchanged_def
    using serves_reachable [OF exchange.hyps(1)] exchange.hyps
      completed_same_request [OF start exchange.hyps(2,4,5,6)] by blast
  from exchange.prems(2) consider "Device_Io_Control port IOCTL_SCSI_MINIPORT buffer (Ok (bytes, out)) \<in> set t"
    | "buffer = buffer'" "bytes = bytes'" "out = take (unat bytes') (srb_data b')" by auto
  then show ?case
  proof cases
    case 1
    from exchanged_later [OF exchange.IH [OF exchange.prems(1) 1] m13] show ?thesis .
  qed (use this_one in simp)
qed simp

text \<open>The bytes that the client reads are the driver's, as far as they were returned.\<close>

lemma exchanged_bytes:
  assumes "out = take n (srb_data b')" "length (srb_data b') = length buffer" "k \<le> n" "k \<le> length buffer"
  shows "take k (overlay buffer out) = take k (srb_data b')"
  using assms by (simp add: overlay_def min_def)

section \<open>Answers that were heard\<close>

lemma dec_control_prefix: "28 \<le> n \<Longrightarrow> take n bs = take n cs \<Longrightarrow> dec_srb_io_control bs = dec_srb_io_control cs"
  by (rule srb_io_control_wire.dec_prefix_cong) simp

context control_operation begin

lemma heard_exchange:
  assumes "heard port C t response" "serves port m t m'" "reachable (initial_machine inst) m"
  obtains request m1 m2 b b' where "reachable m m1" "step (Start_Io b) m1 = Some m2" "reachable m2 m'"
    "sb_function b = Fn_Io_Control" "sb_data_buffer b = Some (request_buffer C request)"
    "length (ma_threads m1) < length (ma_threads m')"
    "returned (ma_threads m' ! length (ma_threads m1)) = Some b'" "same_request b b'"
    "srb_control_code (io_control b') = operation_code (co_code C)"
    "28 + co_response_size C \<le> unat (sb_data_transfer_length b')"
    "\<not> is_negative (srb_return_code (io_control b'))" "response = co_read_response C (payload b')"
proof -
  from assms(1) obtain request bytes out where
    ev: "Device_Io_Control port IOCTL_SCSI_MINIPORT (request_buffer C request) (Ok (bytes, out)) \<in> set t"
    and reply: "read_reply C (rq_correlation_id (co_request_header C request)) bytes
      (overlay (request_buffer C request) out) = Ok response"
    by (auto simp: heard_def reply_of_def)
  let ?data = "overlay (request_buffer C request) out"
  have "length ?data = 1024" by (simp add: length_request_buffer)
  note ok = reply [unfolded read_reply_Ok [OF this] validate_response_header_Ok]
  from served_exchange [OF assms(2,3) ev] obtain m1 m2 b b' where
    run: "reachable m m1" "step (Start_Io b) m1 = Some m2" "reachable m2 m'"
    and b: "sb_function b = Fn_Io_Control" "sb_data_buffer b = Some (request_buffer C request)"
    and b': "length (ma_threads m1) < length (ma_threads m')"
      "returned (ma_threads m' ! length (ma_threads m1)) = Some b'" "same_request b b'"
      "unat bytes \<le> unat (sb_data_transfer_length b')" and out: "out = take (unat bytes) (srb_data b')"
    unfolding exchanged_def by blast
  have data: "srb_data b = request_buffer C request" using b(2) by (simp add: srb_data_def)
  have code: "srb_control_code (io_control b') = operation_code (co_code C)"
    using b'(3) by (simp add: same_request_def io_control_def data)
  have len: "length (srb_data b') = length (request_buffer C request)"
    using b'(3) by (simp add: same_request_def data)
  have same: "take k ?data = take k (srb_data b')" if "k \<le> 28 + co_response_size C" for k
    using exchanged_bytes [OF out len, of k] ok that response_size_bound by (simp add: length_request_buffer)
  have "dec_srb_io_control ?data = io_control b'"
    unfolding io_control_def by (rule dec_control_prefix [OF _ same [of 28]]) simp_all
  moreover have "take (co_response_size C) (drop 28 ?data) = take (co_response_size C) (drop 28 (srb_data b'))"
    using same [of "28 + co_response_size C"] by (metis add_diff_cancel_left' drop_take order_refl)
  then have "co_read_response C (drop 28 ?data) = co_read_response C (payload b')"
    unfolding payload_def by (metis read_take srb_io_control_size)
  ultimately show ?thesis
    using ok b'(4) by (intro that [OF run b b'(1-3) code]) simp_all
qed

end

lemma count_list_distinct: "distinct xs \<Longrightarrow> x \<in> set xs \<Longrightarrow> count_list xs x = 1"
  by (induction xs) (auto simp: count_list_0_iff)

section \<open>Mutations\<close>

lemma operation_heard:
  assumes op: "control_operation C" and C: "co_read_response C = dec_operation_response" "co_response_size C = 64"
      "operation_code (co_code C) \<in> operation_codes"
    and run: "heard port C t response" "serves port m t m'" "reachable (initial_machine inst) m"
  shows "truthful response (dr_ext (ma_driver m')) (dr_log (ma_driver m'))"
proof -
  obtain request m1 m2 b b' where ex: "reachable m m1" "step (Start_Io b) m1 = Some m2" "reachable m2 m'"
    "sb_function b = Fn_Io_Control" "sb_data_buffer b = Some (request_buffer C request)"
    "length (ma_threads m1) < length (ma_threads m')"
    "returned (ma_threads m' ! length (ma_threads m1)) = Some b'" "same_request b b'"
    "srb_control_code (io_control b') = operation_code (co_code C)"
    "28 + co_response_size C \<le> unat (sb_data_transfer_length b')"
    "\<not> is_negative (srb_return_code (io_control b'))" "response = co_read_response C (payload b')"
    by (rule control_operation.heard_exchange [OF op run])
  have "sb_function b' = Fn_Io_Control" using ex(4,8) by (simp add: same_request_def)
  with ex(9-12) C have "Driver_Wire.answer_of b' = Some response"
    by (simp add: answer_of_def NT_SUCCESS_def)
  from answer_truthful [OF reachable_trans [OF serves_reachable [OF run(2)] run(3)] ex(6,7) this reachable_refl]
  show ?thesis .
qed

lemma mutation_heard:
  assumes "heard port create_reserved_op t response \<or> heard port delete_reserved_op t response
      \<or> heard port query_result_op t response"
    and run: "serves port m t m'" "reachable (initial_machine inst) m"
  shows "truthful response (dr_ext (ma_driver m')) (dr_log (ma_driver m'))"
proof -
  note heard = operation_heard [OF _ _ _ _ _ run]
  have "truthful response (dr_ext (ma_driver m')) (dr_log (ma_driver m'))" if "heard port create_reserved_op t response"
    by (rule heard [OF create_reserved.control_operation_axioms _ _ _ that])
      (simp_all add: create_reserved_op_def operation_codes_def)
  moreover have "truthful response (dr_ext (ma_driver m')) (dr_log (ma_driver m'))" if "heard port delete_reserved_op t response"
    by (rule heard [OF delete_reserved.control_operation_axioms _ _ _ that])
      (simp_all add: delete_reserved_op_def operation_codes_def)
  moreover have "truthful response (dr_ext (ma_driver m')) (dr_log (ma_driver m'))" if "heard port query_result_op t response"
    by (rule heard [OF query_result.control_operation_axioms _ _ _ that])
      (simp_all add: query_result_op_def operation_codes_def)
  ultimately show ?thesis using assms(1) by blast
qed

section \<open>Requests that are answered at once\<close>

lemma complete_control_reads [simp]:
  "io_control (complete_control b) = io_control b" "payload (complete_control b) = payload b"
  "sb_data_transfer_length (complete_control b) = sb_data_transfer_length b"
  by (simp_all add: complete_control_def CompleteRequest_def io_control_def payload_def srb_data_def Let_def)

lemma WriteError_fails:
  assumes "control_ok b" "\<not> NT_SUCCESS status"
  shows "\<not> NT_SUCCESS (srb_return_code (io_control (WriteError operation status corr b)))"
proof (cases "unat (srb_length (io_control b)) \<ge> 24")
  case True
  with assms(2) WriteResponse_reads(3) [OF assms(1), of "enc_response_header (MakeResponseHeader 24 operation status corr)" status]
  show ?thesis by (simp add: WriteError_def response_header_wire.length_enc)
next
  case False
  with assms(2) Prepare_reads(1) [OF control_message [OF assms(1)], of status 0]
  show ?thesis by (simp add: WriteError_def)
qed

lemma WriteResponse_succeeded:
  assumes "control_ok b" "NT_SUCCESS (srb_return_code (io_control (WriteResponse response status b)))"
  shows "payload (WriteResponse response status b) = response @ drop (length response) (payload b)"
  using assms(2) WriteResponse_reads(3) [OF assms(1), of response status] by (auto split: if_splits)

lemma immediate_answer:
  assumes start: "step (Start_Io b) m1 = Some m2" "reachable m2 m'" "sb_function b = Fn_Io_Control"
    and ret: "returned (ma_threads m' ! length (ma_threads m1)) = Some b'" "28 \<le> unat (sb_data_transfer_length b')"
    and code: "srb_control_code (io_control b) = operation_code code" "code = Reserve \<or> code = List_State"
  shows "control_ok b"
    and "code = Reserve \<Longrightarrow> b' = complete_control (fst (HandleReserveOperation b (dr_ext (ma_driver m1))))"
    and "code = List_State \<Longrightarrow> b' = complete_control (HandleListState b (dr_ext (ma_driver m1)))"
    and "code = Reserve \<Longrightarrow> snd (StartIo b (dr_ext (ma_driver m1))) = snd (HandleReserveOperation b (dr_ext (ma_driver m1)))"
proof -
  let ?e = "dr_ext (ma_driver m1)"
  from start(1) have wf: "srb_wf b" and threads: "ma_threads m2 = ma_threads m1 @ [fst (StartIo b ?e)]"
    by (auto simp: step_def Let_def split: if_splits)
  have codes: "operation_code Reserve \<notin> {kConfigureControlCode, kReadTraceControlCode}"
    "operation_code List_State \<notin> {kConfigureControlCode, kReadTraceControlCode,
      operation_code Reserve, operation_code Query_Result}"
    by (simp_all add: kConfigureControlCode_def kReadTraceControlCode_def)
  have answer: "b' = complete_control b1" if "fst (StartIo b ?e) = thread.Finished (complete_control b1)" for b1
    using returned_remains [OF start(2), of "length (ma_threads m1)" "complete_control b1"] ret(1)
    by (simp add: threads that)
  have from_srb: "FromSrb b"
  proof (rule ccontr)
    assume "\<not> FromSrb b"
    then have "fst (StartIo b ?e) = thread.Finished (complete_control (b\<lparr>sb_data_transfer_length := 0\<rparr>))"
      by (simp add: StartIo_def start(3) WispDiskHandleIoControl_def)
    from answer [OF this] ret(2) show False by simp
  qed
  then show "control_ok b" using wf by (simp add: control_ok_def)
  show "b' = complete_control (fst (HandleReserveOperation b ?e))" if "code = Reserve"
    using answer [of "fst (HandleReserveOperation b ?e)"] that codes(1) from_srb code(1)
    by (simp add: StartIo_def start(3) WispDiskHandleIoControl_def DispatchControlRequest_def Let_def split: prod.splits)
  show "b' = complete_control (HandleListState b ?e)" if "code = List_State"
    using answer [of "HandleListState b ?e"] that codes(2) from_srb code(1)
    by (simp add: StartIo_def start(3) WispDiskHandleIoControl_def DispatchControlRequest_def Let_def)
  show "snd (StartIo b ?e) = snd (HandleReserveOperation b ?e)" if "code = Reserve"
    using that codes(1) from_srb code(1)
    by (simp add: StartIo_def start(3) WispDiskHandleIoControl_def DispatchControlRequest_def Let_def split: prod.splits)
qed

text \<open>A reservation that succeeded gives out the next id.\<close>

lemma read_request_fails:
  "ReadOperationRequest dec n z b = Err b' \<Longrightarrow> control_ok b \<Longrightarrow> \<not> NT_SUCCESS (srb_return_code (io_control b'))"
  by (auto simp: ReadOperationRequest_def ReadRequest_def Let_def WriteError_fails split: prod.splits if_splits)

lemma reserved_answer:
  assumes ok: "control_ok b" and run: "HandleReserveOperation b e = (b1, e1)" and good: "NT_SUCCESS (srb_return_code (io_control b1))"
  shows "or_operation_id (dec_operation_response (payload b1)) = ax_next_operation_id e"
    and "or_adapter_instance (dec_operation_response (payload b1)) = ax_adapter_instance e"
    and "ax_next_operation_id e1 \<noteq> ax_next_operation_id e"
proof -
  from run good read_request_fails [OF _ ok] obtain request header where
    read: "ReadOperationRequest dec_reserve_request (size_of reserve_request_type) zero_reserve_request b = Ok (request, header)"
    by (fastforce simp: HandleReserveOperation_def split: sum.splits)
  have reserve: "rr_reserved request = 0 \<and> (\<exists>result. ReserveOperation (rr_mutation request) e = Ok (result, e1)
      \<and> b1 = WriteOperationResponse result (rq_correlation_id header) b)"
  proof (cases "if rr_reserved request = 0 then ReserveOperation (rr_mutation request) e else Err STATUS_INVALID_PARAMETER")
    case (Inl status)
    then have "\<not> NT_SUCCESS status"
      by (auto simp: ReserveOperation_def Let_def split: if_splits option.splits)
    from WriteError_fails [OF ok this] run good read Inl show ?thesis by (auto simp: HandleReserveOperation_def)
  next
    case (Inr x)
    with run read show ?thesis by (cases x) (auto simp: HandleReserveOperation_def split: if_splits)
  qed
  then obtain result where res: "ReserveOperation (rr_mutation request) e = Ok (result, e1)"
    and b1: "b1 = WriteOperationResponse result (rq_correlation_id header) b" by blast
  let ?r = "operation_response_of (srb_control_code (io_control b)) result (rq_correlation_id header)"
  have "dec_operation_response (payload b1) = ?r"
    using WriteResponse_succeeded [OF ok good [unfolded b1 WriteOperationResponse_def]]
    unfolding b1 WriteOperationResponse_def by (simp add: operation_response_wire.dec_enc)
  moreover from res have "rt_operation_id result = ax_next_operation_id e" "rt_adapter_instance result = ax_adapter_instance e"
    by (auto simp: ReserveOperation_def CopyResultLocked_def fresh_record_def update_record_def Let_def
        split: if_splits option.splits)
  ultimately show "or_operation_id (dec_operation_response (payload b1)) = ax_next_operation_id e"
    "or_adapter_instance (dec_operation_response (payload b1)) = ax_adapter_instance e"
    by (simp_all add: operation_response_of_def)
  from res show "ax_next_operation_id e1 \<noteq> ax_next_operation_id e"
    by (auto simp: ReserveOperation_def update_record_def Let_def split: if_splits option.splits)
qed

lemma log_grows:
  "reachable m m' \<Longrightarrow> reachable (initial_machine inst) m \<Longrightarrow> set (dr_log (ma_driver m)) \<subseteq> set (dr_log (ma_driver m'))"
proof (induction rule: reachable.induct)
  case (reachable_step m1 l m2)
  from driver_invariants [OF reachable_trans [OF reachable_step.hyps(1) reachable_step.prems]]
  have "set (dr_log (ma_driver m1)) \<subseteq> set (dr_log (ma_driver m2))" by (rule step_later [OF _ _ reachable_step.hyps(2)])
  with reachable_step show ?case by blast
qed simp

text \<open>The operation of a reserve reply was given out during the call, and has committed nothing before.\<close>

lemma reserve_issues:
  assumes "heard port reserve_operation_op t x" "serves port m t m'" "reachable (initial_machine inst) m"
  shows "or_operation_id x \<in> given_out (ma_driver m')" "or_operation_id x \<notin> given_out (ma_driver m)"
    "or_operation_id x \<notin> set (committed_ops (dr_log (ma_driver m)))" "or_adapter_instance x = inst"
proof -
  obtain request m1 m2 b b' where ex: "reachable m m1" "step (Start_Io b) m1 = Some m2" "reachable m2 m'"
    "sb_function b = Fn_Io_Control" "sb_data_buffer b = Some (request_buffer reserve_operation_op request)"
    "length (ma_threads m1) < length (ma_threads m')"
    "returned (ma_threads m' ! length (ma_threads m1)) = Some b'" "same_request b b'"
    "srb_control_code (io_control b') = operation_code (co_code reserve_operation_op)"
    "28 + co_response_size reserve_operation_op \<le> unat (sb_data_transfer_length b')"
    "\<not> is_negative (srb_return_code (io_control b'))" "x = co_read_response reserve_operation_op (payload b')"
    by (rule reserve_operation.heard_exchange [OF assms])
  have code: "srb_control_code (io_control b) = operation_code Reserve"
    using ex(8,9) by (simp add: same_request_def)
  obtain b1 e1 where run: "HandleReserveOperation b (dr_ext (ma_driver m1)) = (b1, e1)" by fastforce
  note imm = immediate_answer [OF ex(2,3,4,7) _ code, simplified]
  have b': "b' = complete_control b1" and ok: "control_ok b" and e1: "snd (StartIo b (dr_ext (ma_driver m1))) = e1"
    using imm ex(10) run by simp_all
  have good: "NT_SUCCESS (srb_return_code (io_control b1))" using ex(11) by (simp add: b' NT_SUCCESS_def)
  note answer = reserved_answer [OF ok run good]
  have x: "or_operation_id x = ax_next_operation_id (dr_ext (ma_driver m1))"
    "or_adapter_instance x = ax_adapter_instance (dr_ext (ma_driver m1))"
    using answer(1,2) ex(12) by (simp_all add: b' reserve_operation_op_def)
  have run1: "reachable (initial_machine inst) m1" by (rule reachable_trans [OF ex(1) assms(3)])
  then have run2: "reachable (initial_machine inst) m2" by (rule reachable.reachable_step [OF _ ex(2)])
  show "or_adapter_instance x = inst" by (simp add: x driver_instance [OF run1])
  have not_below: "\<not> id_below (or_operation_id x) (ax_next_operation_id (dr_ext (ma_driver m1)))"
    by (simp add: x id_below_def)
  have kept: "ident \<in> given_out (ma_driver m) \<Longrightarrow> ident \<in> given_out (ma_driver m1)" for ident
    using log_grows [OF ex(1) assms(3)] unfolding given_out_def by blast
  then show "or_operation_id x \<notin> given_out (ma_driver m)"
    using operation_given_out [OF run1] not_below by blast
  have m2: "ma_driver m2 = admission_event (dr_ext (ma_driver m1)) (StartIo b (dr_ext (ma_driver m1)))
      (with_ext (ma_driver m1) (snd (StartIo b (dr_ext (ma_driver m1)))))"
    using ex(2) by (simp add: step_def Let_def split: if_splits) (metis machine.select_convs(1) machine.surjective machine.update_convs(1,2))
  obtain th where start: "StartIo b (dr_ext (ma_driver m1)) = (th, e1)" using e1 by (metis prod.collapse)
  have "Op_Reserved (or_operation_id x) \<in> set (dr_log (ma_driver m2))"
    unfolding m2 start using answer(3) by (simp add: admission_event_def log_event_def x)
  then show "or_operation_id x \<in> given_out (ma_driver m')"
    using log_grows [OF ex(3) run2] unfolding given_out_def by blast
  from records_okD(1) [OF driver_invariants(2) [OF run1]]
  have below: "\<forall>ident \<in> set (committed_ops (dr_log (ma_driver m1))). id_below ident (ax_next_operation_id (dr_ext (ma_driver m1)))"
    by (simp add: table_ok_def)
  show "or_operation_id x \<notin> set (committed_ops (dr_log (ma_driver m)))"
  proof
    assume "or_operation_id x \<in> set (committed_ops (dr_log (ma_driver m)))"
    then have "or_operation_id x \<in> set (committed_ops (dr_log (ma_driver m1)))"
      using log_grows [OF ex(1) assms(3)] unfolding committed_ops_mem by blast
    with below not_below show False by blast
  qed
qed

section \<open>The inventory\<close>

text \<open>What the inventory of a state response says of the tables it was made from.\<close>

definition snapshot_of :: "state_response \<Rightarrow> adapter_extension \<Rightarrow> bool" where
  "snapshot_of st e \<longleftrightarrow> sr_adapter_instance st = ax_adapter_instance e
     \<and> sr_allocated_bytes st = ax_total_allocated_bytes e
     \<and> live_disks st = map DiskState (filter (\<lambda>l. lu_state l \<noteq> Lun_Empty) (ax_luns e))
     \<and> sr_pending_operations st =
         word_of_nat (length (filter (\<lambda>r. op_state r = state_code State_Pending) (ax_operations e)))"

lemma SnapshotState_snapshot:
  assumes "length (ax_luns e) = 16"
  shows "snapshot_of (SnapshotState e st) e" and "length (sr_disks (SnapshotState e st)) = MAXIMUM_DISK_COUNT"
    and "unat (sr_disk_count (SnapshotState e st)) \<le> MAXIMUM_DISK_COUNT"
proof -
  let ?live = "filter (\<lambda>l. lu_state l \<noteq> Lun_Empty) (ax_luns e)"
  have "length ?live \<le> 16" using length_filter_le [of "\<lambda>l. lu_state l \<noteq> Lun_Empty" "ax_luns e"] assms by simp
  then have "unat (word_of_nat (length ?live) :: u32) = length ?live"
    by (simp add: unsigned_of_nat take_bit_nat_eq_self)
  with \<open>length ?live \<le> 16\<close> show "snapshot_of (SnapshotState e st) e"
    "length (sr_disks (SnapshotState e st)) = MAXIMUM_DISK_COUNT" "unat (sr_disk_count (SnapshotState e st)) \<le> MAXIMUM_DISK_COUNT"
    by (simp_all add: snapshot_of_def SnapshotState_def SnapshotStateLocked_def Let_def live_disks_def disk_table_def
        MAXIMUM_DISK_COUNT_def kMaximumDiskCount_def)
qed

lemma listed_answer:
  assumes ok: "control_ok b" and len: "length (ax_luns e) = 16"
    and good: "NT_SUCCESS (srb_return_code (io_control (HandleListState b e)))"
  shows "snapshot_of (dec_state_response (payload (HandleListState b e))) e"
proof -
  obtain st where run: "HandleListState b e = WriteResponse (enc_state_response (SnapshotState e st)) STATUS_SUCCESS b"
    using good WriteError_fails [OF ok] unfolding HandleListState_def Let_def
    by (auto split: prod.splits if_splits)
  have "payload (HandleListState b e) = enc_state_response (SnapshotState e st)
      @ drop (length (enc_state_response (SnapshotState e st))) (payload b)"
    unfolding run by (rule WriteResponse_succeeded [OF ok good [unfolded run]])
  then show ?thesis
    using SnapshotState_snapshot [OF len, of st] by (simp add: state_response_wire.dec_enc)
qed

lemma list_heard:
  assumes "heard port list_state_op t st" "serves port m t m'" "reachable (initial_machine inst) m"
  shows "\<exists>m1. reachable m m1 \<and> reachable m1 m' \<and> snapshot_of st (dr_ext (ma_driver m1))"
proof -
  obtain request m1 m2 b b' where ex: "reachable m m1" "step (Start_Io b) m1 = Some m2" "reachable m2 m'"
    "sb_function b = Fn_Io_Control" "sb_data_buffer b = Some (request_buffer list_state_op request)"
    "length (ma_threads m1) < length (ma_threads m')"
    "returned (ma_threads m' ! length (ma_threads m1)) = Some b'" "same_request b b'"
    "srb_control_code (io_control b') = operation_code (co_code list_state_op)"
    "28 + co_response_size list_state_op \<le> unat (sb_data_transfer_length b')"
    "\<not> is_negative (srb_return_code (io_control b'))" "st = co_read_response list_state_op (payload b')"
    by (rule list_state.heard_exchange [OF assms])
  have code: "srb_control_code (io_control b) = operation_code List_State"
    using ex(8,9) by (simp add: same_request_def)
  note imm = immediate_answer [OF ex(2,3,4,7) _ code, simplified]
  have b': "b' = complete_control (HandleListState b (dr_ext (ma_driver m1)))" and ok: "control_ok b"
    using imm ex(10) by simp_all
  have "reachable (initial_machine inst) m1" by (rule reachable_trans [OF ex(1) assms(3)])
  note len = luns_okD(1) [OF safeD(2) [OF driver_invariants(1) [OF this]]]
  have "snapshot_of st (dr_ext (ma_driver m1))"
    using listed_answer [OF ok len] ex(11,12) by (simp add: b' NT_SUCCESS_def list_state_op_def)
  moreover have "reachable m1 m'" by (rule reachable_trans [OF ex(3) reachable_step [OF reachable_refl ex(2)]])
  ultimately show ?thesis using ex(1) by blast
qed

end
