(* ===== verification/Driver_Deletion.thy ===== *)
theory Driver_Deletion
  imports Driver_Operations
begin

text \<open>
  A run in which the disk of \<open>reserved_run\<close> is deleted again: a second operation is reserved, the
  deletion is carried out under it and acknowledged.
\<close>

section \<open>The stages of the adapter\<close>

definition stage :: "u64 \<Rightarrow> bool \<Rightarrow> operation_record list \<Rightarrow> wispdisk_lun \<Rightarrow> u64 \<Rightarrow> adapter_extension" where
  "stage next_op busy ops lun used = (initial_extension 5 True)\<lparr>
     ax_management_busy := busy, ax_management_idle := \<not> busy, ax_next_device_id := 2, ax_next_operation_id := next_op,
     ax_operations := ops, ax_luns := (ax_luns (initial_extension 5 True))[0 := lun], ax_total_allocated_bytes := used\<rparr>"

lemma stage_fields [simp]:
  "ax_signature (stage n busy ops lun used) = kAdapterExtensionSignature"
  "ax_adapter_stopping (stage n busy ops lun used) = False" "ax_management_busy (stage n busy ops lun used) = busy"
  "ax_management_idle (stage n busy ops lun used) = (\<not> busy)" "ax_management_worker (stage n busy ops lun used)"
  "ax_next_device_id (stage n busy ops lun used) = 2" "ax_next_operation_id (stage n busy ops lun used) = n"
  "ax_operations (stage n busy ops lun used) = ops" "ax_adapter_instance (stage n busy ops lun used) = 5"
  "ax_luns (stage n busy ops lun used) = (ax_luns (initial_extension 5 True))[0 := lun]"
  "ax_total_allocated_bytes (stage n busy ops lun used) = used"
  by (simp_all add: stage_def)

lemma stage_updates [simp]:
  "(stage n busy ops lun used)\<lparr>ax_operations := ops'\<rparr> = stage n busy ops' lun used"
  "(stage n busy ops lun used)\<lparr>ax_luns := (ax_luns (initial_extension 5 True))[0 := lun']\<rparr> = stage n busy ops lun' used"
  "(stage n busy ops lun used)\<lparr>ax_total_allocated_bytes := used'\<rparr> = stage n busy ops lun used'"
  "(stage n busy ops lun used)\<lparr>ax_next_operation_id := n'\<rparr> = stage n' busy ops lun used"
  "(stage n busy ops lun used)\<lparr>ax_management_busy := True, ax_management_idle := False\<rparr> = stage n True ops lun used"
  "(stage n busy ops lun used)\<lparr>ax_management_busy := False, ax_management_idle := True\<rparr> = stage n False ops lun used"
  by (rule adapter_extension.equality; simp add: stage_def)+

definition rest_records :: "operation_record list" where
  "rest_records = replicate 126 zero_record"

lemma reserved_stage: "dr_ext (ma_driver reserved_machine) =
  stage 2 False (succeeded_record # zero_record # rest_records) reserved_lun 1048576"
proof -
  have "replicate 127 zero_record = zero_record # rest_records"
    using replicate_Suc [of 126 zero_record] by (simp add: rest_records_def)
  then show ?thesis
    by (intro adapter_extension.equality)
      (simp_all add: reserved_machine_def EndManagementLocked_def succeeded_extension_def committed_extension_def
        pending_extension_def reserved_extension_def)
qed

section \<open>Requests\<close>

definition deletion_reserve :: reserve_request where
  "deletion_reserve = \<lparr>rr_header = request_of Reserve 32 9, rr_mutation = operation_code Delete_Disk, rr_reserved = 0\<rparr>"

definition deletion_request :: reserved_delete_request where
  "deletion_request = \<lparr>rd_operation = \<lparr>oq_header = request_of Delete_Reserved 48 10, oq_adapter_instance = 5,
     oq_operation_id = 2\<rparr>, rd_device_id = 1, rd_reserved = 0\<rparr>"

abbreviation recheck_block :: srb where
  "recheck_block \<equiv> control_srb Query_Version (padded (enc_request_header (request_of Query_Version 24 8)))"

abbreviation claim_block :: srb where
  "claim_block \<equiv> control_srb Reserve (padded (enc_reserve_request deletion_reserve))"

abbreviation delete_block :: srb where
  "delete_block \<equiv> control_srb Delete_Reserved (padded (enc_reserved_delete_request deletion_request))"

abbreviation deleting_block :: srb where
  "deleting_block \<equiv> (set_return_code STATUS_PENDING delete_block)\<lparr>sb_srb_status := SRB_STATUS_PENDING\<rparr>"

lemma claim_message: "message_block (example_control Reserve 996) (padded (enc_reserve_request deletion_reserve)) claim_block"
  using control_srb_message [of Reserve "padded (enc_reserve_request deletion_reserve)"] by simp

lemma delete_message: "message_block (example_control Delete_Reserved 996) (padded (enc_reserved_delete_request deletion_request)) delete_block"
  using control_srb_message [of Delete_Reserved "padded (enc_reserved_delete_request deletion_request)"] by simp

lemma claim_read: "ReadOperationRequest dec_reserve_request 32 z claim_block = Ok (deletion_reserve, request_of Reserve 32 9)"
proof -
  have msg: "dec_reserve_request (padded (enc_reserve_request deletion_reserve)) = deletion_reserve"
    unfolding padded_def by (rule reserve_request_wire.dec_enc) simp
  have header: "dec_request_header (padded (enc_reserve_request deletion_reserve)) = request_of Reserve 32 9"
    by (simp add: padded_def enc_reserve_request_def request_header_wire.dec_enc deletion_reserve_def)
  show ?thesis
    using ReadOperationRequest_Ok [OF claim_message, of 32 dec_reserve_request z]
    by (simp add: msg header) (simp add: request_of_def)
qed

lemma delete_read: "ReadOperationRequest dec_reserved_delete_request 48 z delete_block =
  Ok (deletion_request, request_of Delete_Reserved 48 10)"
proof -
  have msg: "dec_reserved_delete_request (padded (enc_reserved_delete_request deletion_request)) = deletion_request"
    unfolding padded_def by (rule reserved_delete_request_wire.dec_enc) simp
  have header: "dec_request_header (padded (enc_reserved_delete_request deletion_request)) = request_of Delete_Reserved 48 10"
    by (simp add: padded_def enc_reserved_delete_request_def enc_operation_request_def request_header_wire.dec_enc
        deletion_request_def)
  show ?thesis
    using ReadOperationRequest_Ok [OF delete_message, of 48 dec_reserved_delete_request z]
    by (simp add: msg header) (simp add: request_of_def)
qed

definition removal :: delete_request where
  "removal = delete_parameters_of deletion_request"

lemma removal_parameters:
  "ValidateDeleteRequest (enc_delete_request (delete_parameters_of deletion_request)) 32 = (STATUS_SUCCESS, removal)"
proof -
  have "dec_request_header (enc_delete_request removal) = dq_header removal"
    by (simp add: enc_delete_request_def request_header_wire.dec_enc)
  moreover have "dec_delete_request (enc_delete_request removal) = removal"
    using delete_request_wire.dec_enc [of removal "[]"] by simp
  ultimately show ?thesis
    unfolding removal_def [symmetric]
    by (simp add: ValidateDeleteRequest_def ReadRequest_def ReadAndValidateRequestHeader_def)
      (simp add: removal_def delete_parameters_of_def deletion_request_def request_of_def)
qed

section \<open>The reservation\<close>

definition claimed_record :: operation_record where
  "claimed_record = fresh_record 2 (operation_code Delete_Disk)"

abbreviation claimed :: adapter_extension where
  "claimed \<equiv> stage 3 False (succeeded_record # claimed_record # rest_records) reserved_lun 1048576"

lemma succeeded_fields [simp]:
  "op_id succeeded_record = 1" "op_state succeeded_record = state_code State_Succeeded"
  "op_mutation succeeded_record = operation_code Create_Disk" "op_device_id succeeded_record = 1"
  by (simp_all add: succeeded_record_def)

lemma claim_handled: "HandleReserveOperation claim_block
    (stage 2 False (succeeded_record # zero_record # rest_records) reserved_lun 1048576) =
  (WriteOperationResponse (CopyResultLocked claimed_record claimed) 9 claim_block, claimed)"
proof -
  have zero: "op_id zero_record = 0" by (simp add: zero_record_def)
  have request: "rr_reserved deletion_reserve = 0" "rr_mutation deletion_reserve = operation_code Delete_Disk"
    by (simp_all add: deletion_reserve_def)
  show ?thesis
    by (simp add: HandleReserveOperation_def claim_read request ReserveOperation_def Let_def zero never_evicted_def
        update_record_def claimed_record_def CopyResultLocked_def) (simp add: request_of_def)
qed

lemma client_start:
  assumes "length msg = 996"
  shows "FromSrb (control_srb code msg)" and "sb_function (control_srb code msg) = Fn_Io_Control"
    and "srb_wf (control_srb code msg)"
    and "srb_control_code (io_control (control_srb code msg)) = operation_code code"
proof -
  show "FromSrb (control_srb code msg)" "srb_wf (control_srb code msg)"
    using control_srb_ok [OF assms, of code] by (simp_all add: control_ok_def)
  show "sb_function (control_srb code msg) = Fn_Io_Control" by (simp add: control_srb_def example_srb_def)
  show "srb_control_code (io_control (control_srb code msg)) = operation_code code"
    by (simp add: message_block_reads [OF control_srb_message])
qed

lemma recheck_start: "StartIo recheck_block e = (thread.Finished (complete_control (HandleQueryVersion recheck_block)), e)"
  by (simp add: StartIo_def client_start WispDiskHandleIoControl_def DispatchControlRequest_def Let_def
      kConfigureControlCode_def kReadTraceControlCode_def)

lemma claim_start: "StartIo claim_block (stage 2 False (succeeded_record # zero_record # rest_records) reserved_lun 1048576) =
  (thread.Finished (complete_control (WriteOperationResponse (CopyResultLocked claimed_record claimed) 9 claim_block)), claimed)"
  by (simp add: StartIo_def client_start WispDiskHandleIoControl_def DispatchControlRequest_def Let_def claim_handled
      kConfigureControlCode_def kReadTraceControlCode_def)

section \<open>The deletion\<close>

definition deleting_record :: operation_record where
  "deleting_record = claimed_record\<lparr>op_create := zero_create_request, op_delete := removal, op_device_id := 1,
     op_state := state_code State_Pending\<rparr>"

abbreviation deleting :: "wispdisk_lun \<Rightarrow> adapter_extension" where
  "deleting lun \<equiv> stage 3 True (succeeded_record # deleting_record # rest_records) lun 1048576"

definition deletion_command :: mutation_command where
  "deletion_command = \<lparr>mc_operation = Delete_Reserved, mc_identity = rd_operation deletion_request,
     mc_create = zero_create_request, mc_remove = removal\<rparr>"

lemma removal_fields [simp]: "dq_device_id removal = 1"
  by (simp add: removal_def delete_parameters_of_def deletion_request_def)

lemma claimed_fields [simp]:
  "op_id claimed_record = 2" "op_state claimed_record = state_code State_Reserved"
  "op_mutation claimed_record = operation_code Delete_Disk"
  "op_id deleting_record = 2" "op_state deleting_record = state_code State_Pending"
  "op_mutation deleting_record = operation_code Delete_Disk" "op_delete deleting_record = removal"
  by (simp_all add: claimed_record_def deleting_record_def fresh_record_def zero_record_def)

lemma delete_command_fields [simp]:
  "mc_operation deletion_command = Delete_Reserved" "mc_create deletion_command = zero_create_request"
  "mc_remove deletion_command = removal" "oq_adapter_instance (mc_identity deletion_command) = 5"
  "oq_operation_id (mc_identity deletion_command) = 2" "Mutation deletion_command = operation_code Delete_Disk"
  by (simp_all add: deletion_command_def deletion_request_def Mutation_def)

lemma delete_start: "StartIo delete_block claimed = (Preparing deleting_block deletion_command, deleting reserved_lun)"
proof -
  have "prepared deletion_command delete_block claimed = Io_Pending deleting_block deletion_command (deleting reserved_lun)"
    by (simp add: prepared_def PrepareSubmission_def BeginManagementLocked_def IsReserved_def BindOperationLocked_def
        FindOperationLocked_def Let_def update_record_def) (simp add: deleting_record_def)
  then show ?thesis
    by (simp add: StartIo_def client_start WispDiskHandleIoControl_def DispatchControlRequest_def Let_def
        HandleReservedDeleteControl_def delete_read removal_parameters deletion_command_def [symmetric]
        kConfigureControlCode_def kReadTraceControlCode_def)
qed

lemmas deleting_ok = pending_block_ok [where msg = "padded (enc_reserved_delete_request deletion_request)"
  and code = Delete_Reserved and s = SRB_STATUS_PENDING, simplified]

abbreviation delete_work :: work where
  "delete_work \<equiv> Reserved_Work deleting_block (rd_operation deletion_request) deleting_record"

lemma deleting_start: "ProcessWorkItem_start deleting_block (deleting lun) = Marking delete_work"
proof -
  have "dec_operation_request (padded (enc_reserved_delete_request deletion_request)) = rd_operation deletion_request"
    by (simp add: padded_def enc_reserved_delete_request_def operation_request_wire.dec_enc)
  moreover have "SnapshotPendingOperation (rd_operation deletion_request) deleting_block (deleting lun) = Ok deleting_record"
    by (simp add: SnapshotPendingOperation_def FindOperationLocked_def Let_def) (simp add: deletion_request_def)
  ultimately show ?thesis
    using deleting_ok(1) by (simp add: ProcessWorkItem_start_def Let_def deleting_ok(2,3) control_ok_def)
qed

definition gone_lun :: wispdisk_lun where
  "gone_lun = reserved_lun\<lparr>lu_backing_store := None, lu_size_bytes := 0, lu_device_id := 0, lu_media_kind := 0,
     lu_requested_drive_letter := 0, lu_create_operation_id := 0, lu_state := Lun_Empty\<rparr>"

definition deleted_record :: operation_record where
  "deleted_record = deleting_record\<lparr>op_result := STATUS_SUCCESS, op_state := state_code State_Succeeded\<rparr>"

definition outdated_record :: operation_record where
  "outdated_record = succeeded_record\<lparr>op_state := state_code State_Deleted\<rparr>"

definition deleted_extension :: adapter_extension where
  "deleted_extension = stage 3 True (outdated_record # deleted_record # rest_records) gone_lun 0"

definition deleted_block :: srb where
  "deleted_block = WriteOperationResponse (CopyResultLocked deleted_record deleted_extension) 10 deleting_block"

abbreviation recheck_answer :: srb where
  "recheck_answer \<equiv> complete_control (HandleQueryVersion recheck_block)"

abbreviation claim_answer :: srb where
  "claim_answer \<equiv> complete_control (WriteOperationResponse (CopyResultLocked claimed_record claimed) 9 claim_block)"

definition deletion_labels :: "label list" where
  "deletion_labels = [Start_Io recheck_block, Start_Io claim_block, Start_Io delete_block, Queue_Work 5 True,
     Advance 5, Advance 5, Advance 5, Advance 5, Advance 5, Advance 5, Advance 5, Advance 5, Advance 5]"

definition deleted_machine :: machine where
  "deleted_machine = \<lparr>ma_driver = \<lparr>dr_ext = EndManagementLocked deleted_extension, dr_pool = Map.empty,
       dr_log = dr_log (ma_driver reserved_machine) @ [Op_Reserved 2, Op_Accepted 2, Disk_Removed 1]
         @ (if bus_changed deleted_block then [Bus_Changed] else [])\<rparr>,
     ma_threads = ma_threads reserved_machine @ [thread.Finished recheck_answer, thread.Finished claim_answer,
       thread.Finished deleted_block], ma_fault = False\<rparr>"

lemma lun_steps:
  "lu_state reserved_lun = Lun_Online" "lu_device_id reserved_lun = 1" "lu_backing_store reserved_lun = Some 1"
  "lu_no_active_requests reserved_lun" "lu_size_bytes reserved_lun = 1048576"
  by (simp_all add: reserved_lun_def example_lun_def)

lemma marked: "MarkLunStopping 1 (deleting reserved_lun) = Some (0, deleting (reserved_lun\<lparr>lu_state := Lun_Stopping\<rparr>))"
proof -
  have "find_index (\<lambda>l. lu_state l = Lun_Online \<and> lu_device_id l = 1) ((ax_luns (initial_extension 5 True))[0 := reserved_lun]) = Some 0"
    by (simp add: find_index_Some lun_steps)
  then show ?thesis by (simp add: MarkLunStopping_def update_lun_def)
qed

lemma detached: "DetachBackingStore 0 1 (deleting (reserved_lun\<lparr>lu_state := Lun_Stopping\<rparr>)) =
  (Some 1, deleting (reserved_lun\<lparr>lu_state := Lun_Stopping, lu_backing_store := None\<rparr>))"
  by (simp add: DetachBackingStore_def update_lun_def lun_steps Let_def)

lemma finalized: "FinalizeDiskRemoval 0 1 (deleting (reserved_lun\<lparr>lu_state := Lun_Stopping, lu_backing_store := None\<rparr>)) =
  stage 3 True (outdated_record # deleting_record # rest_records) gone_lun 0"
proof -
  have "op_mutation zero_record \<noteq> operation_code Create_Disk" by (simp add: zero_record_def)
  then show ?thesis
    by (simp add: FinalizeDiskRemoval_def FinalizeRemovalLocked_def MarkCreatesDeletedLocked_def Let_def update_lun_def
        rest_records_def lun_steps gone_lun_def outdated_record_def)
qed

lemma deleted_published: "after_delete delete_work STATUS_SUCCESS
    (stage 3 True (outdated_record # deleting_record # rest_records) gone_lun 0) =
  (deleted_block, deleted_extension)"
proof -
  have "op_id outdated_record = 1" by (simp add: outdated_record_def)
  moreover have "rq_correlation_id (oq_header (rd_operation deletion_request)) = 10"
    by (simp add: deletion_request_def request_of_def)
  moreover have "deleting_record\<lparr>op_result := STATUS_SUCCESS, op_device_id := 1, op_state := outcome_state STATUS_SUCCESS\<rparr> = deleted_record"
    by (intro operation_record.equality) (simp_all add: deleted_record_def outcome_state_def deleting_record_def)
  moreover have "op_id deleted_record = 2" "op_mutation deleted_record = operation_code Delete_Disk"
    by (simp_all add: deleted_record_def)
  ultimately show ?thesis
    by (simp add: after_delete_def Let_def PublishOperationResult_def FindOperationLocked_def update_record_def deleted_block_def)
      (simp add: deleted_extension_def)
qed

lemma reserved_machine_stage: "reserved_machine = \<lparr>ma_driver = \<lparr>
    dr_ext = stage 2 False (succeeded_record # zero_record # rest_records) reserved_lun 1048576,
    dr_pool = [1 \<mapsto> \<lparr>pb_size = 1048576, pb_data = (\<lambda>k. if k < 1048576 then 0 else 7)\<rparr>],
    dr_log = dr_log (ma_driver reserved_machine)\<rparr>,
  ma_threads = [thread.Finished version_answer, thread.Finished reserve_answer, thread.Finished answered_block],
  ma_fault = False\<rparr>"
  by (rule machine.equality; (rule driver.equality)?) (simp_all add: reserved_stage, simp_all add: reserved_machine_def)

lemma deletion_wf: "srb_wf recheck_block" "srb_wf claim_block" "srb_wf delete_block"
  by (simp_all add: client_start)

lemma deletion_run: "run_labels deletion_labels reserved_machine = Some deleted_machine"
proof -
  have reserved: "IsReserved deletion_command" by (simp add: IsReserved_def)
  define log where "log = dr_log (ma_driver reserved_machine)"
  show ?thesis
    unfolding deletion_labels_def deleted_machine_def log_def [symmetric]
    by (subst (1 2) reserved_machine_stage)
      (simp add: step_def initialized_def Let_def resume_def outstanding_def deletion_wf log_def [symmetric]
        recheck_start claim_start delete_start admission_event_def reserved deleting_start marked detached finalized
        deleted_published log_event_def lun_steps StorPortFreePool_def)
qed

end
