(* ===== verification/End_To_End.thy ===== *)
theory End_To_End
  imports Exchange Driver_Deletion
begin

text \<open>
  What the client concludes is true of the driver: creation, deletion and inventory, over all runs
  of both (Exchange says how they fit), and runs of both in which they succeed.
\<close>

section \<open>What the client can rely on\<close>

text \<open>
  C1. A disk that the client reports as created has been created by the driver, by this very call.
  The call heard a reply that reserved an operation for it; the driver gave this operation out after
  the call had begun; every creation that the call asked for, at least one, is one and the same request
  under this operation; and this operation, which had committed nothing when the call began, has
  committed exactly once, a disk with the device id and the LUN of the report, on the adapter instance
  of the report. The disk is there unless it has been removed since. Whatever other clients do,
  whichever requests or replies are lost, and however often the creation was sent.
\<close>

theorem created_disk_exists:
  assumes "reachable (initial_machine inst) m" and "serves (ad_handle a) m t m'"
    and "create_disk os a letter media size_bytes s = Some (Ok d, t, s')"
  shows "cd_adapter_instance d = inst
    \<and> (\<exists>x q n p. heard (ad_handle a) reserve_operation_op t x
         \<and> Op_Reserved (or_operation_id x) \<notin> set (dr_log (ma_driver m))
         \<and> Op_Reserved (or_operation_id x) \<in> set (dr_log (ma_driver m'))
         \<and> creates \<lparr>oh_instance = inst, oh_id = or_operation_id x\<rparr> letter media size_bytes q
         \<and> requests_of Create_Reserved t = replicate (Suc n) (request_buffer create_reserved_op q)
         \<and> or_operation_id x \<notin> set (committed_ops (dr_log (ma_driver m)))
         \<and> count_list (committed_ops (dr_log (ma_driver m'))) (or_operation_id x) = 1
         \<and> Disk_Committed (Some (or_operation_id x)) (cd_device_id d) (unat (cd_lun d)) p \<in> set (dr_log (ma_driver m')))
    \<and> ((\<exists>i < 16. lu_state (ax_luns (dr_ext (ma_driver m')) ! i) \<noteq> Lun_Empty
          \<and> lu_device_id (ax_luns (dr_ext (ma_driver m')) ! i) = cd_device_id d)
        \<or> Disk_Removed (cd_device_id d) \<in> set (dr_log (ma_driver m')))"
proof -
  from wlpD [OF create_confirmed assms(3)] have "creation_confirmed a letter media size_bytes d t" by simp
  then obtain x y q n where x: "heard (ad_handle a) reserve_operation_op t x"
    and y: "heard (ad_handle a) create_reserved_op t y \<or> heard (ad_handle a) query_result_op t y"
    and q: "creates \<lparr>oh_instance = or_adapter_instance x, oh_id = or_operation_id x\<rparr> letter media size_bytes q"
      "requests_of Create_Reserved t = replicate (Suc n) (request_buffer create_reserved_op q)"
    and confirmed: "confirms \<lparr>oh_instance = or_adapter_instance x, oh_id = or_operation_id x\<rparr> Create_Disk y"
      "created_disk_of_response y = Ok d"
    unfolding creation_confirmed_def by blast
  let ?log = "dr_log (ma_driver m')"
  note issued = reserve_issues [OF x assms(2,1)]
  from confirmed have same: "or_operation_id y = or_operation_id x" "or_mutation y = operation_code Create_Disk"
      "or_state y = state_code State_Succeeded" "or_adapter_instance y = or_adapter_instance x"
      "d = \<lparr>cd_adapter_instance = or_adapter_instance y, cd_device_id = or_device_id y, cd_path_id = or_path_id y,
        cd_target_id = or_target_id y, cd_lun = or_lun y\<rparr>"
    by (auto simp: confirms_def matches_operation_def created_disk_of_response_def split: if_splits)
  have run: "reachable (initial_machine inst) m'"
    by (rule reachable_trans [OF serves_reachable [OF assms(2)] assms(1)])
  from y have "heard (ad_handle a) create_reserved_op t y \<or> heard (ad_handle a) delete_reserved_op t y
      \<or> heard (ad_handle a) query_result_op t y" by blast
  from mutation_heard [OF this assms(2,1)] same obtain p where
    p: "Disk_Committed (Some (or_operation_id x)) (cd_device_id d) (unat (cd_lun d)) p \<in> set ?log"
    by (auto simp: truthful_def)
  have inst: "cd_adapter_instance d = inst" using same issued(4) by simp
  from records_okD(1) [OF driver_invariants(2) [OF run]] have "distinct (committed_ops ?log)" by (simp add: table_ok_def)
  moreover have "or_operation_id x \<in> set (committed_ops ?log)" using p unfolding committed_ops_mem by blast
  ultimately have once: "count_list (committed_ops ?log) (or_operation_id x) = 1"
    by (simp add: count_list_distinct)
  have "id_below (cd_device_id d) (ax_next_device_id (dr_ext (ma_driver m')))"
    by (rule committed_issued [OF run p])
  with inst once x p q issued device_remains [OF run] show ?thesis
    unfolding given_out_def mem_Collect_eq by metis
qed

text \<open>
  C4. A deletion that the client reports as successful is final: when the device id was that of a
  disk at some time before, the driver has removed that disk, no LUN has the id, and none will ever
  have it again.
\<close>

theorem deleted_disk_is_gone:
  assumes "reachable (initial_machine inst) m" and "serves (ad_handle a) m t m'"
    and "delete_by_id os a inst' ident s = Some (Ok (), t, s')"
    and "Disk_Committed opid ident lun q \<in> set (dr_log (ma_driver m))" and "reachable m' m''"
  shows "inst' = inst \<and> Disk_Removed ident \<in> set (dr_log (ma_driver m'))
    \<and> ident \<notin> set (map lu_device_id (ax_luns (dr_ext (ma_driver m''))))"
proof -
  from wlpD [OF delete_confirmed assms(3)] obtain st where st: "heard (ad_handle a) list_state_op t st"
    "sr_adapter_instance st = inst'" "\<not> lists_device st ident"
    unfolding deletion_confirmed_def by auto
  from list_heard [OF st(1) assms(2,1)] obtain m1 where m1: "reachable m m1" "reachable m1 m'"
    and snap: "snapshot_of st (dr_ext (ma_driver m1))" by blast
  note run1 = reachable_trans [OF m1(1) assms(1)]
  note run' = reachable_trans [OF serves_reachable [OF assms(2)] assms(1)]
  note run'' = reachable_trans [OF assms(5) run']
  have len: "length (ax_luns (dr_ext (ma_driver m1))) = 16" "length (ax_luns (dr_ext (ma_driver m''))) = 16"
    using luns_okD(1) [OF safeD(2) [OF driver_invariants(1)]] run1 run'' by blast+
  have "Disk_Committed opid ident lun q \<in> set (dr_log (ma_driver m1))"
    using log_grows [OF m1(1) assms(1)] assms(4) by blast
  then have "id_below ident (ax_next_device_id (dr_ext (ma_driver m1)))"
    by (rule committed_issued [OF run1])
  moreover have "lu_device_id (ax_luns (dr_ext (ma_driver m1)) ! i) \<noteq> ident"
    if "i < 16" "lu_state (ax_luns (dr_ext (ma_driver m1)) ! i) \<noteq> Lun_Empty" for i
    using st(3) snap that len(1) nth_mem [of i "ax_luns (dr_ext (ma_driver m1))"]
    by (auto simp: lists_device_def snapshot_of_def list_ex_iff DiskState_def DiskInfo_def)
  ultimately have "Disk_Removed ident \<in> set (dr_log (ma_driver m1))"
    using device_remains [OF run1] by blast
  then have removed: "Disk_Removed ident \<in> set (dr_log (ma_driver m'))"
    using log_grows [OF m1(2) run1] by blast
  then have "Disk_Removed ident \<in> set (dr_log (ma_driver m''))" using log_grows [OF assms(5) run'] by blast
  from removed_is_gone [OF run'' this] len(2)
  have "ident \<notin> set (map lu_device_id (ax_luns (dr_ext (ma_driver m''))))" by (fastforce simp: in_set_conv_nth)
  with removed snap st(2) driver_instance [OF run1] show ?thesis by (simp add: snapshot_of_def)
qed

text \<open>
  C6. The inventory that the client reads is a consistent snapshot: at one moment during the call
  the driver's tables were exactly as it says (instance, total, pending operations, and one entry
  for each disk, in the order of the LUNs).
\<close>

theorem inventory_is_a_snapshot:
  assumes "reachable (initial_machine inst) m" and "serves (ad_handle a) m t m'"
    and "adapter_state os a s = Some (Ok st, t, s')"
  shows "\<exists>m1. reachable m m1 \<and> reachable m1 m' \<and> snapshot_of st (dr_ext (ma_driver m1))"
  using wlpD [OF state_heard assms(3)] list_heard [OF _ assms(2,1)] by blast

section \<open>Answers that a client accepts\<close>

lemma exchange_data:
  assumes "message_block c msg b" "srb_length c = 996" "length msg = 996" "length response \<le> 996"
  shows "srb_data (WriteResponse response STATUS_SUCCESS b) =
      enc_srb_io_control (c\<lparr>srb_return_code := STATUS_SUCCESS, srb_length := word_of_nat (length response)\<rparr>)
        @ response @ drop (length response) msg"
    and "sb_data_transfer_length (WriteResponse response STATUS_SUCCESS b) = word_of_nat (28 + length response)"
proof -
  have "length response \<le> unat (srb_length c)" "unat (srb_length c) \<le> length msg" using assms by simp_all
  from WriteResponse_message [OF assms(1) this, of STATUS_SUCCESS] show
    "srb_data (WriteResponse response STATUS_SUCCESS b) =
      enc_srb_io_control (c\<lparr>srb_return_code := STATUS_SUCCESS, srb_length := word_of_nat (length response)\<rparr>)
        @ response @ drop (length response) msg"
    "sb_data_transfer_length (WriteResponse response STATUS_SUCCESS b) = word_of_nat (28 + length response)"
    by (simp_all add: answer_block_def srb_data_def)
qed

context control_operation begin

lemma padded_request_buffer:
  "sb_data_buffer (control_srb (co_code C) (padded (co_request_bytes C q))) = Some (request_buffer C q)"
proof -
  have "co_request_size C \<le> 996" using request_fits by simp
  moreover have "(control_header code)\<lparr>srb_length := 996\<rparr> = control_header code" for code
    by (simp add: control_header_def)
  ultimately show ?thesis
    using request_length
    by (simp add: control_srb_def example_srb_def request_buffer_def padded_def Let_def example_control_def)
qed

lemma reply_accepted:
  assumes b: "message_block c msg b" "srb_length c = 996" "length msg = 996" "srb_header_length c = 28"
      "srb_signature c = SRB_SIGNATURE"
    and data: "srb_data b' = srb_data (WriteResponse response STATUS_SUCCESS b)"
    and response: "length response = co_response_size C"
    and valid: "answers C request (co_read_response C response)"
  shows "reply_of C request (Ok (word_of_nat (28 + co_response_size C), take (28 + co_response_size C) (srb_data b'))) =
    Ok (co_read_response C response)"
proof -
  let ?n = "28 + co_response_size C"
  let ?c = "c\<lparr>srb_return_code := STATUS_SUCCESS, srb_length := word_of_nat (length response)\<rparr>"
  have fits: "co_response_size C \<le> 996" by (rule response_size_bound)
  have sig: "length (srb_signature c) = 8" using b(1) by (simp add: message_block_def)
  then have len: "length (enc_srb_io_control ?c) = 28" by (simp add: srb_io_control_wire.length_enc)
  have "srb_data b' = enc_srb_io_control ?c @ response @ drop (length response) msg"
    using exchange_data(1) [OF b(1-3)] data response fits by simp
  then have out: "take ?n (srb_data b') = enc_srb_io_control ?c @ response" using len response by simp
  have "overlay (request_buffer C request) (take ?n (srb_data b')) =
      enc_srb_io_control ?c @ response @ drop ?n (request_buffer C request)"
    unfolding out using len response fits by (simp add: overlay_def length_request_buffer)
  moreover have "co_read_response C (response @ xs) = co_read_response C response" for xs
    using read_take [of "response @ xs"] response by simp
  moreover have "dec_srb_io_control (enc_srb_io_control ?c @ xs) = ?c" for xs
    using sig by (simp add: srb_io_control_wire.dec_enc)
  moreover have "length (enc_srb_io_control ?c @ response @ drop ?n (request_buffer C request)) = 1024"
    using len response fits by (simp add: length_request_buffer)
  note read_reply_Ok [OF this]
  ultimately show ?thesis
    using valid b(4,5) response fits len
    by (simp add: reply_of_def validate_response_header_Ok answers_def Let_def is_negative_unat status_defs del: of_nat_add)
qed

end

section \<open>Exchanges that succeed\<close>

text \<open>What a client hears from a block that the driver completed.\<close>

definition reply_from :: "srb \<Rightarrow> u32 + (u32 \<times> u8 list)" where
  "reply_from b = Ok (sb_data_transfer_length b, take (unat (sb_data_transfer_length b)) (srb_data b))"

lemma complete_control_data [simp]: "srb_data (complete_control b) = srb_data b"
  by (simp add: complete_control_def CompleteRequest_def srb_data_def Let_def)

lemma reply_from_complete [simp]: "reply_from (complete_control b) = reply_from b"
  by (simp add: reply_from_def)

text \<open>A Windows that gives a list of answers to \<open>DeviceIoControl\<close>.\<close>

definition scripted_call :: "handle \<Rightarrow> u32 \<Rightarrow> u8 list \<Rightarrow> nat \<Rightarrow> ((u32 + (u32 \<times> u8 list)) list, u32 + (u32 \<times> u8 list)) os_fun" where
  "scripted_call h ioctl buffer n replies = (hd replies, 0, tl replies)"

abbreviation scripted_os :: "(u32 + (u32 \<times> u8 list)) list os \<Rightarrow> (u32 + (u32 \<times> u8 list)) list os" where
  "scripted_os os \<equiv> os\<lparr>os_device_io_control := scripted_call\<rparr>"

context control_operation begin

lemma reply_from_accepted:
  assumes b: "message_block c msg b" "srb_length c = 996" "length msg = 996" "srb_header_length c = 28"
      "srb_signature c = SRB_SIGNATURE"
    and response: "length response = co_response_size C" "answers C request (co_read_response C response)"
  shows "reply_of C request (reply_from (WriteResponse response STATUS_SUCCESS b)) = Ok (co_read_response C response)"
proof -
  have len: "sb_data_transfer_length (WriteResponse response STATUS_SUCCESS b) = word_of_nat (28 + co_response_size C)"
    using exchange_data(2) [OF b(1-3), of response] response(1) response_size_bound by simp
  show ?thesis
    unfolding reply_from_def len unat_sizes by (rule reply_accepted [OF b refl response])
qed

lemma scripted_send:
  "send (scripted_os os) a C q s = Some (reply_of C q (hd (world s)),
     [Device_Io_Control (ad_handle a) IOCTL_SCSI_MINIPORT (request_buffer C q) (hd (world s))], s\<lparr>world := tl (world s)\<rparr>)"
  by (simp add: send_eq map_io_def bind_io_def return_io_def device_io_control_def os_call_def scripted_call_def)

end

text \<open>One exchange of a run: the block is started, and some steps later it is returned.\<close>

lemma serves_start:
  assumes "serves port m t m1" "sb_function b = Fn_Io_Control" "sb_data_buffer b = Some buffer"
    and "step (Start_Io b) m1 = Some m2" "reachable m2 m3" "returned (ma_threads m3 ! length (ma_threads m1)) = Some b'"
  shows "serves port m (t @ [Device_Io_Control port IOCTL_SCSI_MINIPORT buffer (reply_from b')]) m3"
  unfolding reply_from_def by (rule serves.exchange [OF assms order_refl])

section \<open>A client creates a disk\<close>

definition example_version :: "u64 \<Rightarrow> query_version_response" where
  "example_version corr = \<lparr>qv_header = MakeResponseHeader (size_of query_version_response_type)
       (operation_code Query_Version) STATUS_SUCCESS corr,
     qv_version_major = 0, qv_version_minor = 3,
     qv_capabilities = CAP_CREATE_DELETE OR CAP_READ_WRITE OR CAP_REMOVABLE OR CAP_OPERATION_RECOVERY,
     qv_maximum_disk_count = word_of_nat kMaximumDiskCount\<rparr>"

abbreviation header_block :: "operation \<Rightarrow> u64 \<Rightarrow> srb" where
  "header_block code corr \<equiv> control_srb code (padded (enc_request_header (request_of code 24 corr)))"

lemma header_message: "message_block (example_control code 996) (padded (enc_request_header (request_of code 24 corr))) (header_block code corr)"
  using control_srb_message [of code "padded (enc_request_header (request_of code 24 corr))"] by simp

lemma header_read:
  "ReadAndValidateRequestHeader (padded (enc_request_header (request_of code 24 corr))) 996 24 (operation_code code) =
    (STATUS_SUCCESS, request_of code 24 corr)"
proof -
  have "dec_request_header (padded (enc_request_header (request_of code 24 corr))) = request_of code 24 corr"
    by (simp add: padded_def request_header_wire.dec_enc)
  then show ?thesis by (simp add: ReadAndValidateRequestHeader_def) (simp add: request_of_def)
qed

lemma control_reads:
  "srb_length (example_control code 996) = 996" "srb_header_length (example_control code 996) = 28"
  "srb_signature (example_control code 996) = SRB_SIGNATURE"
  by (simp_all add: example_control_def control_header_def)

lemma success_status [simp]: "\<not> is_negative STATUS_SUCCESS"
  using NT_SUCCESS_codes(1) by (simp add: NT_SUCCESS_def)

lemma version_reply:
  "reply_of query_version_op (request_of Query_Version 24 corr) (reply_from (HandleQueryVersion (header_block Query_Version corr))) =
    Ok (example_version corr)"
proof -
  have "HandleQueryVersion (header_block Query_Version corr) =
      WriteResponse (enc_query_version_response (example_version corr)) STATUS_SUCCESS (header_block Query_Version corr)"
    by (simp add: HandleQueryVersion_def Let_def message_block_reads [OF header_message] control_reads
        header_read [of Query_Version, simplified]) (simp add: request_of_def example_version_def)
  moreover have "dec_query_version_response (enc_query_version_response (example_version corr)) = example_version corr"
    using query_version_response_wire.dec_enc [of "example_version corr" "[]"] by simp
  ultimately show ?thesis
    using query_version.reply_from_accepted [OF header_message, of Query_Version corr
        "enc_query_version_response (example_version corr)" "request_of Query_Version 24 corr"]
    by (simp add: control_reads)
      (simp add: query_version_op_def answers_def example_version_def MakeResponseHeader_def request_of_def)
qed

lemma operation_answers:
  assumes "co_response_header C = or_header" "co_response_size C = 64"
    and "rq_correlation_id (co_request_header C q) = corr"
  shows "answers C q (operation_response_of (operation_code (co_code C)) result corr)"
  using assms by (simp add: answers_def operation_response_of_def MakeResponseHeader_def Let_def)

lemma operation_payload:
  "dec_operation_response (enc_operation_response r) = r" "length (enc_operation_response r) = 64"
  using operation_response_wire.dec_enc [of r "[]"] by (simp_all add: operation_response_wire.length_enc)

definition reserved_response :: operation_response where
  "reserved_response = operation_response_of (operation_code Reserve) (CopyResultLocked reserved_record reserved_extension) 6"

lemma reserve_reply:
  "reply_of reserve_operation_op example_reserve (reply_from reserve_answer) = Ok reserved_response"
proof -
  have "answers reserve_operation_op example_reserve reserved_response"
    using operation_answers [of reserve_operation_op example_reserve 6 "CopyResultLocked reserved_record reserved_extension"]
    by (simp add: reserved_response_def) (simp add: reserve_operation_op_def example_reserve_def request_of_def)
  moreover have "WriteOperationResponse (CopyResultLocked reserved_record reserved_extension) 6 reserve_block =
      WriteResponse (enc_operation_response reserved_response) STATUS_SUCCESS reserve_block"
    by (simp add: WriteOperationResponse_def reserved_response_def message_block_reads [OF reserve_message] example_code)
  ultimately show ?thesis
    using reserve_operation.reply_from_accepted [OF reserve_message, of "enc_operation_response reserved_response" example_reserve]
    by (simp add: control_reads operation_payload reserve_operation_op_def)
qed

lemma create_reply:
  "reply_of create_reserved_op example_reserved (reply_from answered_block) = Ok succeeded_response"
proof -
  have msg: "message_block ((example_control Create_Reserved 996)\<lparr>srb_return_code := STATUS_PENDING\<rparr>)
      (padded (enc_reserved_create_request example_reserved)) working_block"
    by (rule message_block_status [OF set_return_code_message [OF reserved_message]])
  have "answers create_reserved_op example_reserved succeeded_response"
    using operation_answers [of create_reserved_op example_reserved 7 "CopyResultLocked succeeded_record succeeded_extension"]
    by (simp add: succeeded_response_def) (simp add: create_reserved_op_def example_reserved_def request_of_def)
  moreover have "answered_block = WriteResponse (enc_operation_response succeeded_response) STATUS_SUCCESS working_block"
    by (simp add: answered_block_def WriteOperationResponse_def succeeded_response_def working_ok example_code)
  ultimately show ?thesis
    using create_reserved.reply_from_accepted [OF msg, of "enc_operation_response succeeded_response" example_reserved]
    by (simp add: control_reads operation_payload create_reserved_op_def)
qed

definition example_disk :: created_disk where
  "example_disk = \<lparr>cd_adapter_instance = 5, cd_device_id = 1, cd_path_id = 0, cd_target_id = 0, cd_lun = 0\<rparr>"

definition create_trace :: "handle \<Rightarrow> os_event list" where
  "create_trace port = [
     Device_Io_Control port IOCTL_SCSI_MINIPORT (request_buffer query_version_op (request_of Query_Version 24 5)) (reply_from version_answer),
     Device_Io_Control port IOCTL_SCSI_MINIPORT (request_buffer reserve_operation_op example_reserve) (reply_from reserve_answer),
     Device_Io_Control port IOCTL_SCSI_MINIPORT (request_buffer create_reserved_op example_reserved) (reply_from answered_block)]"

lemma new_header_run: "new_request_header C s = Some (request_of (co_code C) (co_request_size C) (next_correlation_id s), [],
    s\<lparr>next_correlation_id := next_correlation_id s + 1\<rparr>)"
  by (simp add: new_request_header_def map_io_def bind_io_def fetch_correlation_id_def return_io_def request_of_def)

lemma new_operation_run: "new_operation_request C h s =
    Some (\<lparr>oq_header = request_of (co_code C) (co_request_size C) (next_correlation_id s),
      oq_adapter_instance = oh_instance h, oq_operation_id = oh_id h\<rparr>, [],
    s\<lparr>next_correlation_id := next_correlation_id s + 1\<rparr>)"
  by (simp add: new_operation_request_def map_io_def bind_io_def new_header_run return_io_def)

lemma request_sizes:
  "co_request_size query_version_op = 24" "co_request_size reserve_operation_op = 32"
  "co_request_size create_reserved_op = 64" "co_request_size delete_reserved_op = 48" "co_request_size list_state_op = 24"
  by (simp_all add: control_op_defs)

lemma version_run:
  assumes "world s = reply_from (HandleQueryVersion (header_block Query_Version corr)) # rest" "next_correlation_id s = corr"
  shows "require_recovery (scripted_os os) a s = Some (Ok (), [Device_Io_Control (ad_handle a) IOCTL_SCSI_MINIPORT
      (request_buffer query_version_op (request_of Query_Version 24 corr)) (reply_from (HandleQueryVersion (header_block Query_Version corr)))],
    s\<lparr>world := rest, next_correlation_id := corr + 1\<rparr>)"
proof -
  have "check_version (example_version corr) = Ok (example_version corr)"
    by (simp add: check_version_def example_version_def MAXIMUM_DISK_COUNT_def)
  moreover have "qv_capabilities (example_version corr) AND CAP_OPERATION_RECOVERY \<noteq> 0"
    by (simp add: example_version_def CAP_CREATE_DELETE_def CAP_READ_WRITE_def CAP_REMOVABLE_def CAP_OPERATION_RECOVERY_def)
  ultimately show ?thesis
    using assms by (simp add: require_recovery_def query_version_def try_io_def bind_io_def new_header_run request_sizes
      query_version.scripted_send version_reply return_io_def ensure_io_def ok_io_def)
qed

lemma create_run:
  "\<exists>s'. create_disk (scripted_os os) \<lparr>ad_handle = port, ad_port_number = 0\<rparr> (Drive_Letter 82) Fixed 1048576
     \<lparr>world = [reply_from version_answer, reply_from reserve_answer, reply_from answered_block], clock = 0, next_correlation_id = 5\<rparr>
   = Some (Ok example_disk, create_trace port, s')"
proof -
  have handle: "or_mutation reserved_response = operation_code Create_Disk"
    "handle_of_response reserved_response = Ok \<lparr>oh_instance = 5, oh_id = 1\<rparr>"
    by (simp_all add: reserved_response_def operation_response_of_def CopyResultLocked_def handle_of_response_def
        is_valid_reservation_def)
  have message: "create_message \<lparr>oq_header = request_of Create_Reserved 64 7, oq_adapter_instance = 5, oq_operation_id = 1\<rparr>
      (Drive_Letter 82) Fixed 1048576 = example_reserved"
    by (simp add: create_message_def example_reserved_def LOGICAL_SECTOR_SIZE_32_def)
  have reserve: "\<lparr>rr_header = request_of Reserve 32 6, rr_mutation = 2049, rr_reserved = 0\<rparr> = example_reserve"
    by (simp add: example_reserve_def)
  have inst: "ax_adapter_instance succeeded_extension = 5"
    by (simp add: succeeded_extension_def committed_extension_def)
  have confirmed: "confirms \<lparr>oh_instance = 5, oh_id = 1\<rparr> Create_Disk succeeded_response"
    "created_disk_of_response succeeded_response = Ok example_disk"
    by (simp_all add: confirms_def matches_operation_def succeeded_response_def operation_response_of_def CopyResultLocked_def
        succeeded_record_def created_disk_of_response_def is_valid_created_disk_def example_disk_def inst
        STATUS_SUCCESS_def MAXIMUM_DISK_COUNT_def)
  show ?thesis
    by (simp add: create_disk_def reserve_operation_def try_io_def bind_io_def version_run new_header_run new_operation_run
        request_sizes reserve_operation.scripted_send create_reserved.scripted_send return_io_def
        reserve reserve_reply [unfolded reply_from_complete] create_reply handle message confirmed
        recover_def resolve_operation_def now_def loop_io.simps current_io_def reserved_attempt_def
        recovery_round_Ok create_trace_def)
qed

lemma step_Start:
  assumes "step (Start_Io b) m = Some m'"
  shows "ma_threads m' = ma_threads m @ [fst (StartIo b (dr_ext (ma_driver m)))]"
    and "dr_ext (ma_driver m') = snd (StartIo b (dr_ext (ma_driver m)))"
  using assms by (auto simp: step_def Let_def split: if_splits)

lemma run_labels_Cons: "run_labels (l # ls) m = Some m' \<Longrightarrow> \<exists>m1. step l m = Some m1 \<and> run_labels ls m1 = Some m'"
  by (auto split: option.splits)

lemma control_srb_function [simp]: "sb_function (control_srb code msg) = Fn_Io_Control"
  by (simp add: control_srb_def example_srb_def)

lemma example_buffers:
  "sb_data_buffer (control_srb Query_Version (padded (enc_request_header q0))) = Some (request_buffer query_version_op q0)"
  "sb_data_buffer (control_srb Reserve (padded (enc_reserve_request q1))) = Some (request_buffer reserve_operation_op q1)"
  "sb_data_buffer (control_srb Create_Reserved (padded (enc_reserved_create_request q2))) = Some (request_buffer create_reserved_op q2)"
  "sb_data_buffer (control_srb Delete_Reserved (padded (enc_reserved_delete_request q3))) = Some (request_buffer delete_reserved_op q3)"
  "sb_data_buffer (control_srb List_State (padded (enc_request_header q0))) = Some (request_buffer list_state_op q0)"
  using query_version.padded_request_buffer [of q0] reserve_operation.padded_request_buffer [of q1]
    create_reserved.padded_request_buffer [of q2] delete_reserved.padded_request_buffer [of q3]
    list_state.padded_request_buffer [of q0]
  by (simp_all add: query_version_op_def reserve_operation_op_def create_reserved_op_def delete_reserved_op_def list_state_op_def)

lemma create_served: "serves port (initial_machine 5) (create_trace port) reserved_machine"
proof -
  from run_labels_Cons [OF reserved_run [unfolded reserved_labels_def]] obtain m1 where
    m1: "step (Start_Io version_block) (initial_machine 5) = Some m1" and run1: "run_labels (tl reserved_labels) m1 = Some reserved_machine"
    by (auto simp: reserved_labels_def)
  from run_labels_Cons [OF run1 [unfolded reserved_labels_def list.sel]] obtain m2 where
    m2: "step (Start_Io reserve_block) m1 = Some m2" and run2: "run_labels (drop 2 reserved_labels) m2 = Some reserved_machine"
    by (auto simp: reserved_labels_def)
  from run2 have "run_labels (Start_Io reserved_block # drop 3 reserved_labels) m2 = Some reserved_machine"
    by (simp add: reserved_labels_def)
  from run_labels_Cons [OF this] obtain m3 where m3: "step (Start_Io reserved_block) m2 = Some m3"
    and "run_labels (drop 3 reserved_labels) m3 = Some reserved_machine" by blast
  then have rest: "reachable m3 reserved_machine" by (blast intro: run_labels_reachable)
  have t1: "ma_threads m1 = [thread.Finished version_answer]" "dr_ext (ma_driver m1) = initial_extension 5 True"
    using step_Start [OF m1] by (simp_all add: version_start initial_machine_def)
  have t2: "ma_threads m2 = [thread.Finished version_answer, thread.Finished reserve_answer]"
    using step_Start(1) [OF m2] by (simp add: t1 reserve_start)
  have "serves port (initial_machine 5) ([] @ [Device_Io_Control port IOCTL_SCSI_MINIPORT
      (request_buffer query_version_op (request_of Query_Version 24 5)) (reply_from version_answer)]) m1"
    by (rule serves_start [OF serves.idle _ _ m1 reachable_refl]) (simp_all add: example_buffers t1 initial_machine_def)
  from serves_start [OF this _ _ m2 reachable_refl, of "request_buffer reserve_operation_op example_reserve" reserve_answer]
  have "serves port (initial_machine 5) (([] @ [Device_Io_Control port IOCTL_SCSI_MINIPORT
      (request_buffer query_version_op (request_of Query_Version 24 5)) (reply_from version_answer)])
      @ [Device_Io_Control port IOCTL_SCSI_MINIPORT (request_buffer reserve_operation_op example_reserve) (reply_from reserve_answer)]) m2"
    by (simp add: example_buffers t1 t2)
  from serves_start [OF this _ _ m3 rest, of "request_buffer create_reserved_op example_reserved" answered_block]
  show ?thesis by (simp add: create_trace_def example_buffers t2 reserved_machine_def)
qed

theorem created_disk_exists_witness:
  "\<exists>(os :: (u32 + (u32 \<times> u8 list)) list os) s s'. create_disk os \<lparr>ad_handle = 9, ad_port_number = 0\<rparr> (Drive_Letter 82) Fixed 1048576 s = Some (Ok example_disk, create_trace 9, s')
    \<and> serves 9 (initial_machine 5) (create_trace 9) reserved_machine
    \<and> cd_adapter_instance example_disk = 5
    \<and> (\<exists>ident q. Disk_Committed (Some ident) (cd_device_id example_disk) 0 q \<in> set (dr_log (ma_driver reserved_machine)))"
proof -
  fix os :: "(u32 + (u32 \<times> u8 list)) list os"
  from create_run [of os 9] obtain s' where run: "create_disk (scripted_os os) \<lparr>ad_handle = 9, ad_port_number = 0\<rparr>
      (Drive_Letter 82) Fixed 1048576 \<lparr>world = [reply_from version_answer, reply_from reserve_answer,
        reply_from answered_block], clock = 0, next_correlation_id = 5\<rparr> = Some (Ok example_disk, create_trace 9, s')"
    by blast
  have "unat (cd_lun example_disk) = 0" by (simp add: example_disk_def)
  moreover have "serves (ad_handle \<lparr>ad_handle = 9, ad_port_number = 0\<rparr>) (initial_machine 5) (create_trace 9) reserved_machine"
    using create_served by simp
  from created_disk_exists [OF reachable_refl this run] have "cd_adapter_instance example_disk = 5"
    "\<exists>ident q. Disk_Committed (Some ident) (cd_device_id example_disk) (unat (cd_lun example_disk)) q \<in> set (dr_log (ma_driver reserved_machine))"
    by blast+
  ultimately have "cd_adapter_instance example_disk = 5 \<and>
      (\<exists>ident q. Disk_Committed (Some ident) (cd_device_id example_disk) 0 q \<in> set (dr_log (ma_driver reserved_machine)))"
    by simp
  then show ?thesis by (intro exI) (rule conjI [OF run conjI [OF create_served]])
qed

section \<open>A client reads the inventory\<close>

definition snapshot_answer :: "u64 \<Rightarrow> adapter_extension \<Rightarrow> state_response" where
  "snapshot_answer corr e = SnapshotState e \<lparr>sr_header = MakeResponseHeader (size_of state_response_type)
       (operation_code List_State) STATUS_SUCCESS corr,
     sr_adapter_instance = 0, sr_allocated_bytes = 0, sr_disk_count = 0, sr_pending_operations = 0,
     sr_disks = disk_table zero_disk_state []\<rparr>"

lemma list_handled:
  "HandleListState (header_block List_State corr) e = WriteResponse (enc_state_response (snapshot_answer corr e)) STATUS_SUCCESS (header_block List_State corr)"
  by (simp add: HandleListState_def Let_def message_block_reads [OF header_message] control_reads
      header_read [of List_State, simplified]) (simp add: request_of_def snapshot_answer_def)

lemma list_start: "StartIo (header_block List_State corr) e =
  (thread.Finished (complete_control (HandleListState (header_block List_State corr) e)), e)"
  by (simp add: StartIo_def client_start WispDiskHandleIoControl_def DispatchControlRequest_def Let_def
      kConfigureControlCode_def kReadTraceControlCode_def)

lemma list_reply:
  assumes "length (ax_luns e) = 16"
  shows "reply_of list_state_op (request_of List_State 24 corr) (reply_from (HandleListState (header_block List_State corr) e)) =
    Ok (snapshot_answer corr e)"
proof -
  have disks: "length (sr_disks (snapshot_answer corr e)) = MAXIMUM_DISK_COUNT"
    unfolding snapshot_answer_def by (rule SnapshotState_snapshot(2) [OF assms])
  have dec: "dec_state_response (enc_state_response (snapshot_answer corr e)) = snapshot_answer corr e"
    using state_response_wire.dec_enc [OF disks, of "[]"] by simp
  have header: "sr_header (snapshot_answer corr e) = MakeResponseHeader (size_of state_response_type) (operation_code List_State) STATUS_SUCCESS corr"
    by (simp add: snapshot_answer_def SnapshotState_def SnapshotStateLocked_def Let_def)
  have "answers list_state_op (request_of List_State 24 corr) (snapshot_answer corr e)"
    by (simp add: answers_def list_state_op_def header MakeResponseHeader_def request_of_def)
  then show ?thesis
    using list_state.reply_from_accepted [OF header_message, of List_State corr "enc_state_response (snapshot_answer corr e)"
        "request_of List_State 24 corr"] state_response_wire.length_enc [OF disks] dec
    by (simp add: list_handled control_reads list_state_op_def)
qed

lemma list_run:
  assumes "world s = reply_from (HandleListState (header_block List_State corr) e) # rest" "next_correlation_id s = corr"
    and "length (ax_luns e) = 16" "ax_adapter_instance e \<noteq> 0"
  shows "adapter_state (scripted_os os) a s = Some (Ok (snapshot_answer corr e), [Device_Io_Control (ad_handle a) IOCTL_SCSI_MINIPORT
      (request_buffer list_state_op (request_of List_State 24 corr)) (reply_from (HandleListState (header_block List_State corr) e))],
    s\<lparr>world := rest, next_correlation_id := corr + 1\<rparr>)"
proof -
  have "is_valid_state (snapshot_answer corr e)"
    using SnapshotState_snapshot [OF assms(3)] assms(4) by (simp add: is_valid_state_def snapshot_of_def snapshot_answer_def)
  with assms list_reply [OF assms(3), of corr] show ?thesis
    by (simp add: adapter_state_def try_io_def bind_io_def new_header_run request_sizes list_state.scripted_send
        return_io_def ok_io_def)
qed

lemma list_served:
  assumes "initialized m" "\<not> ma_fault m" "outstanding (ma_threads m) < 2 ^ 32 - 1"
  shows "\<exists>m'. serves port m [Device_Io_Control port IOCTL_SCSI_MINIPORT (request_buffer list_state_op (request_of List_State 24 corr))
     (reply_from (HandleListState (header_block List_State corr) (dr_ext (ma_driver m))))] m'
   \<and> dr_ext (ma_driver m') = dr_ext (ma_driver m) \<and> dr_log (ma_driver m') = dr_log (ma_driver m)"
proof -
  let ?b = "header_block List_State corr" and ?e = "dr_ext (ma_driver m)"
  have "srb_wf ?b" by (simp add: client_start)
  with assms obtain m' where m': "step (Start_Io ?b) m = Some m'"
    and log: "dr_log (ma_driver m') = dr_log (ma_driver m)"
    by (simp add: step_def Let_def list_start admission_event_def)
  have "returned (ma_threads m' ! length (ma_threads m)) = Some (complete_control (HandleListState ?b ?e))"
    by (simp add: step_Start(1) [OF m'] list_start)
  from serves_start [OF serves.idle _ _ m' reachable_refl this] step_Start(2) [OF m'] log
  have "serves port m ([] @ [Device_Io_Control port IOCTL_SCSI_MINIPORT (request_buffer list_state_op (request_of List_State 24 corr))
     (reply_from (complete_control (HandleListState ?b ?e)))]) m'" by (simp add: example_buffers)
  with step_Start(2) [OF m'] log show ?thesis by (auto simp: list_start)
qed

lemma reserved_ready: "initialized reserved_machine" "\<not> ma_fault reserved_machine" "outstanding (ma_threads reserved_machine) = 0"
  "length (ax_luns (dr_ext (ma_driver reserved_machine))) = 16" "ax_adapter_instance (dr_ext (ma_driver reserved_machine)) = 5"
  by (simp_all add: initialized_def reserved_stage) (simp_all add: reserved_machine_def outstanding_def)

theorem inventory_is_a_snapshot_witness:
  "\<exists>(os :: (u32 + (u32 \<times> u8 list)) list os) s t s' m'.
     adapter_state os \<lparr>ad_handle = 9, ad_port_number = 0\<rparr> s = Some (Ok (snapshot_answer 5 (dr_ext (ma_driver reserved_machine))), t, s')
    \<and> serves 9 reserved_machine t m'
    \<and> (\<exists>m1. reachable reserved_machine m1 \<and> reachable m1 m'
         \<and> snapshot_of (snapshot_answer 5 (dr_ext (ma_driver reserved_machine))) (dr_ext (ma_driver m1)))"
proof -
  fix os :: "(u32 + (u32 \<times> u8 list)) list os"
  let ?e = "dr_ext (ma_driver reserved_machine)"
  have run: "adapter_state (scripted_os os) \<lparr>ad_handle = 9, ad_port_number = 0\<rparr>
      \<lparr>world = [reply_from (HandleListState (header_block List_State 5) ?e)], clock = 0, next_correlation_id = 5\<rparr> =
    Some (Ok (snapshot_answer 5 ?e), [Device_Io_Control 9 IOCTL_SCSI_MINIPORT (request_buffer list_state_op (request_of List_State 24 5))
      (reply_from (HandleListState (header_block List_State 5) ?e))], \<lparr>world = [], clock = 0, next_correlation_id = 6\<rparr>)"
    using list_run [where corr = 5 and e = ?e and rest = "[]" and os = os and a = "\<lparr>ad_handle = 9, ad_port_number = 0\<rparr>"
        and s = "\<lparr>world = [reply_from (HandleListState (header_block List_State 5) ?e)], clock = 0, next_correlation_id = 5\<rparr>"]
      reserved_ready by simp
  from list_served [of reserved_machine 9 5] reserved_ready obtain m' where
    served: "serves 9 reserved_machine [Device_Io_Control 9 IOCTL_SCSI_MINIPORT (request_buffer list_state_op (request_of List_State 24 5))
      (reply_from (HandleListState (header_block List_State 5) ?e))] m'" by auto
  then have "serves (ad_handle \<lparr>ad_handle = 9, ad_port_number = 0\<rparr>) reserved_machine
      [Device_Io_Control 9 IOCTL_SCSI_MINIPORT (request_buffer list_state_op (request_of List_State 24 5))
      (reply_from (HandleListState (header_block List_State 5) ?e))] m'" by simp
  from inventory_is_a_snapshot [OF reserved_reachable this run] show ?thesis
    by (intro exI) (rule conjI [OF run conjI [OF served]])
qed

section \<open>A client deletes a disk\<close>

definition claimed_response :: operation_response where
  "claimed_response = operation_response_of (operation_code Reserve) (CopyResultLocked claimed_record claimed) 9"

lemma claim_reply:
  "reply_of reserve_operation_op deletion_reserve
     (reply_from (WriteOperationResponse (CopyResultLocked claimed_record claimed) 9 claim_block)) = Ok claimed_response"
proof -
  have "answers reserve_operation_op deletion_reserve claimed_response"
    using operation_answers [of reserve_operation_op deletion_reserve 9 "CopyResultLocked claimed_record claimed"]
    by (simp add: claimed_response_def) (simp add: reserve_operation_op_def deletion_reserve_def request_of_def)
  moreover have "WriteOperationResponse (CopyResultLocked claimed_record claimed) 9 claim_block =
      WriteResponse (enc_operation_response claimed_response) STATUS_SUCCESS claim_block"
    by (simp add: WriteOperationResponse_def claimed_response_def message_block_reads [OF claim_message] example_code)
  ultimately show ?thesis
    using reserve_operation.reply_from_accepted [OF claim_message, of "enc_operation_response claimed_response" deletion_reserve]
    by (simp add: control_reads operation_payload reserve_operation_op_def)
qed

definition deleted_response :: operation_response where
  "deleted_response = operation_response_of (operation_code Delete_Reserved) (CopyResultLocked deleted_record deleted_extension) 10"

lemma delete_reply:
  "reply_of delete_reserved_op deletion_request (reply_from deleted_block) = Ok deleted_response"
proof -
  have "answers delete_reserved_op deletion_request deleted_response"
    using operation_answers [of delete_reserved_op deletion_request 10 "CopyResultLocked deleted_record deleted_extension"]
    by (simp add: deleted_response_def) (simp add: delete_reserved_op_def deletion_request_def request_of_def)
  moreover have "deleted_block = WriteResponse (enc_operation_response deleted_response) STATUS_SUCCESS deleting_block"
    by (simp add: deleted_block_def WriteOperationResponse_def deleted_response_def deleting_ok example_code)
  ultimately show ?thesis
    using delete_reserved.reply_from_accepted [OF deleting_ok(5), where response = "enc_operation_response deleted_response"
        and request = deletion_request]
    by (simp add: control_reads operation_payload delete_reserved_op_def)
qed

abbreviation final_extension :: adapter_extension where
  "final_extension \<equiv> dr_ext (ma_driver deleted_machine)"

lemma final_ready: "initialized deleted_machine" "\<not> ma_fault deleted_machine" "outstanding (ma_threads deleted_machine) = 0"
  "length (ax_luns final_extension) = 16" "ax_adapter_instance final_extension = 5"
  by (simp_all add: deleted_machine_def initialized_def EndManagementLocked_def deleted_extension_def)
    (simp_all add: reserved_machine_def outstanding_def)

lemma final_listing: "sr_adapter_instance (snapshot_answer 11 final_extension) = 5" "\<not> lists_device (snapshot_answer 11 final_extension) 1"
proof -
  have empty: "filter (\<lambda>l. lu_state l \<noteq> Lun_Empty) (ax_luns final_extension) = []"
  proof -
    have "lu_state (ax_luns final_extension ! i) = Lun_Empty" if "i < 16" for i
      using that initial_luns [of i 5 True]
      by (cases "i = 0") (simp_all add: deleted_machine_def EndManagementLocked_def deleted_extension_def gone_lun_def zero_lun_def)
    then show ?thesis using final_ready(4) by (auto simp: filter_empty_conv in_set_conv_nth)
  qed
  have "snapshot_of (snapshot_answer 11 final_extension) final_extension"
    unfolding snapshot_answer_def by (rule SnapshotState_snapshot(1) [OF final_ready(4)])
  with empty final_ready(5) show "sr_adapter_instance (snapshot_answer 11 final_extension) = 5" "\<not> lists_device (snapshot_answer 11 final_extension) 1"
    by (simp_all add: snapshot_of_def lists_device_def)
qed

definition delete_trace :: "handle \<Rightarrow> os_event list" where
  "delete_trace port = [
     Device_Io_Control port IOCTL_SCSI_MINIPORT (request_buffer query_version_op (request_of Query_Version 24 8)) (reply_from recheck_answer),
     Device_Io_Control port IOCTL_SCSI_MINIPORT (request_buffer reserve_operation_op deletion_reserve) (reply_from claim_answer),
     Device_Io_Control port IOCTL_SCSI_MINIPORT (request_buffer delete_reserved_op deletion_request) (reply_from deleted_block),
     Device_Io_Control port IOCTL_SCSI_MINIPORT (request_buffer list_state_op (request_of List_State 24 11))
       (reply_from (HandleListState (header_block List_State 11) final_extension))]"

lemma delete_run:
  "\<exists>s'. delete_by_id (scripted_os os) \<lparr>ad_handle = port, ad_port_number = 0\<rparr> 5 1
     \<lparr>world = [reply_from recheck_answer, reply_from claim_answer, reply_from deleted_block,
        reply_from (HandleListState (header_block List_State 11) final_extension)], clock = 0, next_correlation_id = 8\<rparr>
   = Some (Ok (), delete_trace port, s')"
proof -
  have handle: "or_mutation claimed_response = operation_code Delete_Disk"
    "handle_of_response claimed_response = Ok \<lparr>oh_instance = 5, oh_id = 2\<rparr>"
    by (simp_all add: claimed_response_def operation_response_of_def CopyResultLocked_def handle_of_response_def
        is_valid_reservation_def)
  have request: "\<lparr>rd_operation = \<lparr>oq_header = request_of Delete_Reserved 48 10, oq_adapter_instance = 5, oq_operation_id = 2\<rparr>,
      rd_device_id = 1, rd_reserved = 0\<rparr> = deletion_request"
    by (simp add: deletion_request_def)
  have reserve: "\<lparr>rr_header = request_of Reserve 32 9, rr_mutation = 2050, rr_reserved = 0\<rparr> = deletion_reserve"
    by (simp add: deletion_reserve_def)
  have confirmed: "confirms \<lparr>oh_instance = 5, oh_id = 2\<rparr> Delete_Disk deleted_response"
    by (simp add: confirms_def matches_operation_def deleted_response_def operation_response_of_def CopyResultLocked_def
        deleted_record_def deleted_extension_def STATUS_SUCCESS_def)
  have list: "adapter_state (scripted_os os) a s = Some (Ok (snapshot_answer 11 final_extension),
      [Device_Io_Control (ad_handle a) IOCTL_SCSI_MINIPORT (request_buffer list_state_op (request_of List_State 24 11))
        (reply_from (HandleListState (header_block List_State 11) final_extension))], s\<lparr>world := [], next_correlation_id := 12\<rparr>)"
    if "world s = [reply_from (HandleListState (header_block List_State 11) final_extension)]" "next_correlation_id s = 11" for a s
    using list_run [OF that final_ready(4)] final_ready(5) by simp
  show ?thesis
    by (simp add: delete_by_id_def reserve_operation_def try_io_def bind_io_def version_run new_header_run new_operation_run
        request_sizes reserve_operation.scripted_send delete_reserved.scripted_send return_io_def context_io_def map_io_def
        reserve claim_reply delete_reply handle request confirmed list final_listing ok_io_def
        recover_def resolve_operation_def now_def loop_io.simps current_io_def reserved_attempt_def
        recovery_round_Ok delete_trace_def)
qed

lemma delete_served: "\<exists>m'. serves port reserved_machine (delete_trace port) m' \<and> dr_ext (ma_driver m') = final_extension"
proof -
  let ?m = reserved_machine
  obtain m1 where m1: "step (Start_Io recheck_block) ?m = Some m1"
    and run1: "run_labels (Start_Io claim_block # Start_Io delete_block # drop 3 deletion_labels) m1 = Some deleted_machine"
    using run_labels_Cons [of "Start_Io recheck_block" "Start_Io claim_block # Start_Io delete_block # drop 3 deletion_labels" ?m]
      deletion_run by (auto simp: deletion_labels_def)
  from run_labels_Cons [OF run1] obtain m2 where m2: "step (Start_Io claim_block) m1 = Some m2"
    and run2: "run_labels (Start_Io delete_block # drop 3 deletion_labels) m2 = Some deleted_machine" by blast
  from run_labels_Cons [OF run2] obtain m3 where m3: "step (Start_Io delete_block) m2 = Some m3"
    and "run_labels (drop 3 deletion_labels) m3 = Some deleted_machine" by blast
  then have rest: "reachable m3 deleted_machine" by (blast intro: run_labels_reachable)
  have t0: "ma_threads ?m = [thread.Finished version_answer, thread.Finished reserve_answer, thread.Finished answered_block]"
    by (simp add: reserved_machine_def)
  have t1: "ma_threads m1 = ma_threads ?m @ [thread.Finished recheck_answer]"
    "dr_ext (ma_driver m1) = stage 2 False (succeeded_record # zero_record # rest_records) reserved_lun 1048576"
    using step_Start [OF m1] by (simp_all add: recheck_start reserved_stage)
  have t2: "ma_threads m2 = ma_threads ?m @ [thread.Finished recheck_answer, thread.Finished claim_answer]"
    using step_Start(1) [OF m2] by (simp add: t1 claim_start)
  have s1: "serves port ?m (take 1 (delete_trace port)) m1"
    using serves_start [OF serves.idle _ _ m1 reachable_refl, where port = port and b' = recheck_answer
        and buffer = "request_buffer query_version_op (request_of Query_Version 24 8)"]
    by (simp add: delete_trace_def example_buffers t1 t0)
  have s2: "serves port ?m (take 2 (delete_trace port)) m2"
    using serves_start [OF s1 _ _ m2 reachable_refl, of "request_buffer reserve_operation_op deletion_reserve" claim_answer]
    by (simp add: delete_trace_def example_buffers t1 t2 t0)
  have s3: "serves port ?m (take 3 (delete_trace port)) deleted_machine"
    using serves_start [OF s2 _ _ m3 rest, of "request_buffer delete_reserved_op deletion_request" deleted_block]
    by (simp add: delete_trace_def example_buffers t2 t0 deleted_machine_def)
  from list_served [of deleted_machine port 11] final_ready obtain m' where
    s4: "serves port deleted_machine (drop 3 (delete_trace port)) m'" and e: "dr_ext (ma_driver m') = final_extension"
    by (auto simp: delete_trace_def)
  from serves_append [OF s4 s3] e show ?thesis by auto
qed

theorem deleted_disk_is_gone_witness:
  "\<exists>(os :: (u32 + (u32 \<times> u8 list)) list os) s s' m'.
     delete_by_id os \<lparr>ad_handle = 9, ad_port_number = 0\<rparr> 5 1 s = Some (Ok (), delete_trace 9, s')
    \<and> serves 9 reserved_machine (delete_trace 9) m'
    \<and> Disk_Committed (Some 1) 1 0 reserved_create \<in> set (dr_log (ma_driver reserved_machine))
    \<and> Disk_Removed 1 \<in> set (dr_log (ma_driver m')) \<and> 1 \<notin> set (map lu_device_id (ax_luns (dr_ext (ma_driver m'))))"
proof -
  fix os :: "(u32 + (u32 \<times> u8 list)) list os"
  from delete_run [of os 9] obtain s' where run: "delete_by_id (scripted_os os) \<lparr>ad_handle = 9, ad_port_number = 0\<rparr> 5 1
      \<lparr>world = [reply_from recheck_answer, reply_from claim_answer, reply_from deleted_block,
        reply_from (HandleListState (header_block List_State 11) final_extension)], clock = 0, next_correlation_id = 8\<rparr> =
      Some (Ok (), delete_trace 9, s')" by blast
  obtain m' where served: "serves 9 reserved_machine (delete_trace 9) m'" using delete_served by blast
  have log: "Disk_Committed (Some 1) 1 0 reserved_create \<in> set (dr_log (ma_driver reserved_machine))"
    by (simp add: reserved_machine_def)
  from served have "serves (ad_handle \<lparr>ad_handle = 9, ad_port_number = 0\<rparr>) reserved_machine (delete_trace 9) m'" by simp
  from deleted_disk_is_gone [OF reserved_reachable this run log reachable_refl] show ?thesis
    by (intro exI) (rule conjI [OF run conjI [OF served conjI [OF log]]], blast)
qed

end
