(* ===== verification/Spec2Isabelle.thy ===== *)
theory Spec2Isabelle
  imports Program Build_Script End_To_End
begin

text \<open>
  WispDisk, a volatile virtual disk for Windows: the command-line client \<open>wispdisk.exe\<close> (cli/src), the
  StorPort miniport driver that holds the disks (driver/src), the build script that embeds the driver
  package into the client (cli/build.rs) and the tool that builds and signs both (scripts/build-tool).
  The client talks to the driver through \<open>IOCTL_SCSI_MINIPORT\<close>, and to Windows for disks, volumes,
  devices, WMI and tracing.

  \<^bold>\<open>How the program is modelled.\<close> Code with effects is an action \<open>'s \<Rightarrow> (value \<times> events \<times> 's) option\<close>
  (Effects): it returns a value, the calls it made of the outside with their answers, and the new
  state; \<open>None\<close> is a loop that does not end. Windows is a parameter of every definition: the record
  \<open>'w os\<close> (System) has one function per call over an arbitrary world, so a theorem about \<open>wlp m Q\<close> holds
  whatever Windows and the driver answer. The state of the client is that world, the
  clock and the counter of correlation ids. Errors are values: \<open>error + 'a\<close> with the chain of \<open>anyhow\<close> (Errors), and \<open>?\<close> is \<open>try_io\<close>. Integers are
  words of their width, text is a list of code points, a wide string a list of UTF-16 units. Rust's
  \<open>Drop\<close> is an explicit call at the end of the scope.

  The driver is a concurrent system, modelled as one (Driver_Machine): a machine is the adapter
  extension, the pool memory, a history of the disks and a list of threads, one for each activity that
  runs the driver's code (a request, a worker, a shutdown). What a thread does under \<open>LunLock\<close>, or on
  memory that it owns, is one step; between two steps every other thread may run. \<open>step\<close> executes a
  label, the choice of the scheduler and of the environment: which thread goes on, whether an
  allocation or the queueing of a work item succeeds, which request arrives. \<open>reachable\<close> closes it, and
  \<open>initial_machine\<close> is the adapter after its initialisation. A request is completed by the step that
  leaves \<open>Responding\<close>. An access outside the memory a thread may use sets \<open>ma_fault\<close>.

  \<^bold>\<open>The theories\<close>, with the sources they follow (paths below cli/src, in driver/windows unless named):

    \<^item> Base: integers, results, Unicode text, number formats, little-endian bytes; Effects: actions,
      loops, \<open>wlp\<close> and \<open>wp\<close>, classes of events.
    \<^item> Errors, Messages: recovery.rs, volume/mod.rs, driver.rs: the error chain, its exit code, its text.
    \<^item> Protocol, Wire: protocol.rs: the messages, their meaning checks, \<open>repr(C)\<close> layout and bytes. The
      locale \<open>wire_struct\<close> is the contract of a codec, interpreted on each structure.
    \<^item> Recovery: recovery.rs: \<open>resolve_operation\<close> with its rounds, and the automaton \<open>recovery_rel\<close> that
      states what the protocol allows; the locale \<open>bounded_attempt\<close> is what its clients provide.
    \<^item> System: win32.rs and the Windows parameter. Transport: adapter/control_operation.rs and
      \<open>Adapter::send\<close>; the locale \<open>control_operation\<close> is interpreted on each operation.
    \<^item> Args: args.rs. Adapter: adapter/mod.rs, adapter/reserved_operation.rs. Hearing: what a trace shows
      of the adapters: those found, the answers accepted (\<open>heard\<close>), mutations confirmed.
    \<^item> Disks: disk/mod.rs, disk/interface_notification.rs. Volumes: volume/. Removal: disk/deletion.rs,
      disk/removal.rs. Provisioning: disk/provisioning.rs. Install: adapter/install.rs, payload.rs.
      Creation: disk/creation.rs. Inventory: inventory.rs.
    \<^item> Logging: logging.rs, logging/. Program: main.rs, driver.rs, driver/windows/mod.rs.
    \<^item> Build_Parsing, Build_Pipeline, Build, Build_Order: scripts/build-tool/src; Build_Script: cli/build.rs.
      Their outside is the record \<open>'w host\<close> (environment, files, processes).

  and of the driver, paths below driver/src:

    \<^item> Driver_Types: driver.h and the kernel types. Driver_Storage: storage/lun_store.cpp,
      storage/lun_io_lease.cpp, the table of sixteen LUNs. Driver_Requests: management/control_request.cpp.
      Driver_Management: management/management_controller.cpp, reservation, admission, publication.
      Driver_Control: the handlers of management/. Driver_Scsi: scsi/.
    \<^item> Driver_Machine: adapter_context.cpp, driver.cpp, and the parts of the controller and the store that
      run outside the lock: threads, labels, \<open>step\<close>.
    \<^item> Driver_Safety: the invariant \<open>safe\<close> (ownership of memory, leases, accounting, the busy flag), by
      rule induction over the steps. Driver_Records: the invariant \<open>records_ok\<close> (the life of a reserved
      operation). Driver_Progress: the measure \<open>work_left\<close>. Driver_Disk: a LUN as an abstract block
      device, with the locale \<open>block_device\<close>. Driver_Wire: the client's codecs and the driver's
      readers and writers agree.
    \<^item> Driver_Guarantees, Driver_Operations, Driver_Devices, Driver_Answers: what follows for every run,
      and a concrete run that creates a disk; Driver_Deletion: one that deletes it again.

  and of both together:

    \<^item> Exchange: \<open>serves port m t m'\<close> relates the trace \<open>t\<close> of a client's system calls with a run of the
      driver from \<open>m\<close> to \<open>m'\<close>, so that an answer the client heard is one the driver gave. The driver may
      make other steps at any time (other clients, workers, shutdown), and a call that failed may or may
      not have reached it. The locale \<open>control_operation\<close> carries the reasoning for all operations.
    \<^item> End_To_End: what a client concludes from the answers it accepted is true of the driver, with runs of
      client and driver in which a disk is created, listed and deleted.

  A definition has the name of the function it models; a loop body, a closure or a stage of a long
  function that is a definition of its own is named after what it does.

  \<^bold>\<open>What is shown.\<close> A mutation of the driver is submitted again only after the driver reported it as
  merely reserved, an ambiguous failure is queried, and the result is classified exactly (Recovery,
  Adapter); replies are read only from the returned bytes and only when they answer the request
  (Transport, Wire). A disk is identified by its SCSI location on every path to a change (Disks,
  Provisioning, Removal); a deletion happens after all volumes of the disk were found and prepared, and
  they are restored only when the disk is known to be online (Removal); a disk whose creation was
  confirmed is ready, or was rolled back by deletions of just this disk (Creation), and a failed
  installation removes the driver's device (Install). Listing inspects only and shows what every adapter found
  answered, and its JSON determines the inventory (Inventory). Deletion by letter is of the device
  behind the letter (Program). Options are accepted exactly (Args); the trace session is stopped once
  (Logging); each command asks for its own mutation only and each exit code has one meaning (Program and
  this theory). A build runs its commands in the signing order, stops at the first failure, and ends with
  an executable that holds the signed package (Build_Order, Build_Script).

  On every run of the driver, memory is used only while it is allocated and by its owner, the books
  agree with the disks, one mutation at most is at work, a stopped adapter leaves nothing behind, and
  every request is answered whatever the schedule (Driver_Guarantees). A reserved operation creates at
  most one disk, its record agrees with the disks, and what the driver answers about it is true and
  stays true (Driver_Operations). A disk returns what was written to it (Driver_Disk), and an answer
  stays within the buffer of its request (Driver_Answers).

  Client and driver agree (End_To_End): a disk that the client reports as created was committed by the
  driver under the operation that this call reserved and sent, exactly once, however often requests were
  repeated or lost, and it is there unless it was removed since; a deletion that the client reports as
  successful is final; an inventory is what the tables of the driver said at one moment of the call.

  \<^bold>\<open>Bounds.\<close> There is no fuel. Loops are \<open>loop_io\<close>, where not returning is \<open>None\<close>. Where the code waits
  for a deadline the theorems show that it returns: a wait of 200 ms in a window of 30 s happens at most
  150 times (30000 / 200), with the clock of the model advanced by the waits. The enumerations of
  Windows (ports, volumes, devices) end when Windows says so; for them correctness is partial. In the
  driver the limits are the code's own: sixteen LUNs, 128 operation records, 256 MiB a disk and 512 MiB
  together. Its identifiers and its counters of requests keep their width: an allocator that has run
  out refuses, and fewer than 2 ^ 32 - 1 requests are outstanding at a time, as each occupies memory.

  \<^bold>\<open>Parameters\<close> for code that is not in the repository: for the client, Windows with SetupAPI, Storage
  WMI, ETW and what its calls reach (\<open>'w os\<close>); for the driver, StorPort and the kernel, as the labels of
  \<open>step\<close>; between the two, that Windows passes the buffer of a successful call on to the driver and
  back (\<open>serves\<close>); the embedded package and the crate version (\<open>package\<close>); clap, which ends the program
  or delivers the parsed options, within its documented groups; the pretty printers of serde_json and of
  \<open>Command\<close>; std's table of printable characters; the texts of \<open>io::Error\<close>; tracing, ferrisetw and time
  as the calls and values they exchange; winresource; \<open>Path::ancestors\<close>. The widestring crate is
  modelled by its documentation (interior nulls, truncation at a null). Structure layouts are those of
  64-bit Windows.

  \<^bold>\<open>Not modelled.\<close> In the driver, the fault injection and the counters of its debug build, the ETW
  event log, the entry points that only fill in StorPort's structures (\<open>DriverEntry\<close>, the configuration in
  \<open>HwFindAdapter\<close>), and the C++ header of the protocol, which declares the messages of protocol.rs; the
  diagnostic \<open>info!\<close>, \<open>warn!\<close> and \<open>error!\<close> calls spread over the client, which only reach the log; unit tests;
  PowerShell scripts, project and configuration files. In the build tool, UNC and verbatim prefixes
  of paths, which it never builds, are read as names.
\<close>

section \<open>Properties of the whole program\<close>

text \<open>
  C12. Every command asks the driver for its own mutation and for nothing else. \<open>/add\<close> asks for one
  creation with the given letter, medium and size, repeated under one operation; when it succeeds it
  has asked for no deletion, and when it fails for none but that of the disk whose creation an
  adapter confirmed to this very run. Deletion by letter asks for nothing, or first sees the letter
  open a volume of a disk at some SCSI location and an adapter answer with a live device at exactly
  this location, and then asks for the deletion of this device of this adapter instance and for no
  other. Deletion by identity asks for the deletion of exactly that device of that adapter instance
  and for no creation, and \<open>/list\<close> for no mutation at all.
\<close>

theorem commands_ask_for_their_mutation_only:
  "wlp (driver_execute env os command) (\<lambda>r t s'. case command of
     Add letter media size_bytes file_system \<Rightarrow> asks_for letter media size_bytes t
       \<and> (case r of
            Ok _ \<Rightarrow> requests_of Delete_Reserved t = []
          | Err _ \<Rightarrow> requests_of Delete_Reserved t = []
              \<or> (\<exists>a d. adapter_opened a t \<and> creation_confirmed a letter media size_bytes d t
                  \<and> list_all (deletion_of (cd_adapter_instance d) (cd_device_id d)) (requests_of Delete_Reserved t)))
   | Delete letter force \<Rightarrow> asks_nothing t
       \<or> (\<exists>inst ident t1 t2. t = t1 @ t2 \<and> asks_nothing t1 \<and> drive_owner letter inst ident t1
            \<and> deletes_only inst ident t2)
   | Delete_Id inst ident force \<Rightarrow> deletes_only inst ident t
   | List_Inventory json \<Rightarrow> requests_of Create_Reserved t = [] \<and> requests_of Delete_Reserved t = []) s"
  by (rule wlp_mono [OF wlp_command_requests])
    (auto simp: adds_def deletes_drive_def asks_nothing_def split: command.splits sum.splits)

text \<open>
  C29. Exit code 3 belongs to mutations: when main ends with 3 and clap did not, the command was a
  creation or a deletion, and without logging the last thing printed, on stderr, contains the
  adapter instance and the operation of an unresolved mutation and the advice to query the
  inventory.
\<close>

theorem unresolved_exit_reports_a_mutation:
  "wlp (main_io clap env os args) (\<lambda>code t s'.
     case clap (normalize_windows_args args) of
       Err _ \<Rightarrow> True
     | Ok c \<Rightarrow> (if code = 3 then \<exists>command. into_command c = Ok command
         \<and> (\<forall>json. command \<noteq> List_Inventory json)
         \<and> (case log_level c of
                Some _ \<Rightarrow> True
              | None \<Rightarrow> \<exists>(h :: operation_handle) u. t \<noteq> [] \<and> last t = Eprint u
                  \<and> occurs (unresolved_text h) u)
         else True)) s"
proof (rule wlp_mono [OF wlp_main], goal_cases)
  case (1 code t s')
  show ?case
  proof (cases "clap (normalize_windows_args args)")
    case (Inr c)
    show ?thesis
    proof (cases "into_command c")
      case (Inl e)
      with 1 \<open>clap (normalize_windows_args args) = Ok c\<close> show ?thesis by simp
    next
      case (Inr command)
      have "(\<forall>json. command \<noteq> List_Inventory json)
         \<and> (log_level c = None \<longrightarrow> (\<exists>(h :: operation_handle) u. t \<noteq> [] \<and> last t = Eprint u
              \<and> occurs (unresolved_text h) u))" if code: "code = 3"
      proof -
        from 1 Inr \<open>clap (normalize_windows_args args) = Ok c\<close> code
        have "runs env os (log_level c) command 3 t" by simp
        then obtain t1 t2 t3 r s1 s2 where t: "t = t1 @ t2 @ t3"
          and run: "driver_execute env os command s1 = Some (r, t2, s2)"
          and r: "3 = exit_code r"
          and told: "log_level c = None \<longrightarrow> t1 = [] \<and> t3 = told (error_text (en_io_text env)) r"
          unfolding runs_def by (elim exE conjE) (rule that)
        from r obtain e where e: "r = Err e" "is_unresolved e"
          by (auto simp: exit_code_def error_exit_code_def split: sum.splits if_splits)
        have "command \<noteq> List_Inventory json" for json
          using wlpD [OF wlp_driver_execute_plain, of env os json s1 r t2 s2] run e by auto
        moreover obtain h where "occurs (unresolved_text h) (error_text (en_io_text env) e)"
          using unresolved_text_names_an_operation [OF e(2)] by blast
        moreover have "t \<noteq> [] \<and> last t = Eprint (lit ''error: '' @ error_text (en_io_text env) e)"
          if "log_level c = None"
          using t told e(1) that by (simp add: told_def)
        ultimately show ?thesis using occurs_append(1) by blast
      qed
      with Inr \<open>clap (normalize_windows_args args) = Ok c\<close> show ?thesis by (simp split: option.split)
    qed
  qed simp
qed

end
